(* ===== verification/Prelude.thy ===== *)
theory Prelude
  imports Main "HOL-Library.Word"
begin

text \<open>
  Shared vocabulary of the development: strings and the two case foldings the
  program uses, in-place updates of a map entry, and the two list disciplines
  almost every list of the store obeys (upsert by a key, insert once by a key),
  stated as locales that the component theories interpret.

  A Rust \<^verbatim>\<open>String\<close> is a list of \<^typ>\<open>char\<close>, one per Unicode code point; the model
  covers the code points U+0000 to U+00FF. \<open>utf8_len\<close> is \<^verbatim>\<open>str::len\<close>, which counts bytes.
\<close>

named_theorems ascii_simps "evaluation of the ASCII and Latin-1 case foldings"
named_theorems store_simps "frame facts of the store updates"
named_theorems fold_simps "replay of one snapshot section over the store"

subsection \<open>Characters and strings\<close>

definition code :: "char \<Rightarrow> nat" where
  "code c = of_char c"

fun set_bit5 :: "char \<Rightarrow> char" where
  "set_bit5 (Char b0 b1 b2 b3 b4 b5 b6 b7) = Char b0 b1 b2 b3 b4 True b6 b7"

fun clear_bit5 :: "char \<Rightarrow> char" where
  "clear_bit5 (Char b0 b1 b2 b3 b4 b5 b6 b7) = Char b0 b1 b2 b3 b4 False b6 b7"

text \<open>\<^verbatim>\<open>char::to_ascii_lowercase\<close>, \<^verbatim>\<open>char::to_ascii_uppercase\<close> and \<^verbatim>\<open>char::to_lowercase\<close> (the last
  on Latin-1, where it maps one character to one character).\<close>

definition ascii_lower :: "char \<Rightarrow> char" where
  "ascii_lower c = (if 65 \<le> code c \<and> code c \<le> 90 then set_bit5 c else c)"

definition ascii_upper :: "char \<Rightarrow> char" where
  "ascii_upper c = (if 97 \<le> code c \<and> code c \<le> 122 then clear_bit5 c else c)"

definition to_lowercase :: "char \<Rightarrow> char" where
  "to_lowercase c =
     (if (65 \<le> code c \<and> code c \<le> 90) \<or> (192 \<le> code c \<and> code c \<le> 222 \<and> code c \<noteq> 215)
      then set_bit5 c else c)"

definition is_ascii_lowercase :: "char \<Rightarrow> bool" where
  "is_ascii_lowercase c \<longleftrightarrow> 97 \<le> code c \<and> code c \<le> 122"

definition is_ascii_uppercase :: "char \<Rightarrow> bool" where
  "is_ascii_uppercase c \<longleftrightarrow> 65 \<le> code c \<and> code c \<le> 90"

definition is_ascii_alphabetic :: "char \<Rightarrow> bool" where
  "is_ascii_alphabetic c \<longleftrightarrow> is_ascii_lowercase c \<or> is_ascii_uppercase c"

definition is_ascii_digit :: "char \<Rightarrow> bool" where
  "is_ascii_digit c \<longleftrightarrow> 48 \<le> code c \<and> code c \<le> 57"

lemmas [ascii_simps] =
  code_def ascii_lower_def ascii_upper_def to_lowercase_def is_ascii_lowercase_def
  is_ascii_uppercase_def is_ascii_alphabetic_def is_ascii_digit_def

definition utf8_len :: "string \<Rightarrow> nat" where
  "utf8_len s = sum_list (map (\<lambda>c. if code c < 128 then 1 else 2) s)"

text \<open>\<^verbatim>\<open>key\<close>, the storage key of every case-insensitive name, and
  \<^verbatim>\<open>str::eq_ignore_ascii_case\<close>, which compares the same folding.\<close>

definition key :: "string \<Rightarrow> string" where
  "key name = map ascii_lower name"

definition to_ascii_uppercase :: "string \<Rightarrow> string" where
  "to_ascii_uppercase s = map ascii_upper s"

definition eq_ignore_ascii_case :: "string \<Rightarrow> string \<Rightarrow> bool" where
  "eq_ignore_ascii_case a b \<longleftrightarrow> key a = key b"

lemma code_set_bit5: "65 \<le> code c \<Longrightarrow> code c \<le> 90 \<Longrightarrow> code (set_bit5 c) = code c + 32"
proof (cases c)
  case (Char b0 b1 b2 b3 b4 b5 b6 b7)
  assume "65 \<le> code c" "code c \<le> 90"
  then have "\<not> b5"
    by (cases b0; cases b1; cases b2; cases b3; cases b4; cases b6; cases b7)
      (auto simp: Char code_def)
  then show ?thesis by (simp add: Char code_def)
qed

lemma ascii_lower_idem [simp]: "ascii_lower (ascii_lower c) = ascii_lower c"
  by (auto simp: ascii_lower_def code_set_bit5)

lemma key_idem [simp]: "key (key s) = key s"
  by (simp add: key_def)

lemma length_key [simp]: "length (key s) = length s"
  by (simp add: key_def)

lemma key_Nil_iff [simp]: "key s = [] \<longleftrightarrow> s = []"
  by (simp add: key_def)

lemma eq_ignore_ascii_case_refl [simp]: "eq_ignore_ascii_case s s"
  by (simp add: eq_ignore_ascii_case_def)

lemma eq_ignore_ascii_case_sym: "eq_ignore_ascii_case a b \<longleftrightarrow> eq_ignore_ascii_case b a"
  by (auto simp: eq_ignore_ascii_case_def)

subsection \<open>Unsigned 64-bit bounds\<close>

definition u64_max :: nat where
  "u64_max = 2 ^ 64 - 1"

text \<open>\<^verbatim>\<open>u64::saturating_add(1)\<close>\<close>

definition sat_succ :: "nat \<Rightarrow> nat" where
  "sat_succ n = min (n + 1) u64_max"

lemma sat_succ_ge: "n \<le> u64_max \<Longrightarrow> n \<le> sat_succ n"
  by (simp add: sat_succ_def)

lemma sat_succ_le: "sat_succ n \<le> u64_max"
  by (simp add: sat_succ_def)

lemma sat_succ_less: "n < u64_max \<Longrightarrow> sat_succ n = n + 1"
  by (simp add: sat_succ_def)

subsection \<open>Maps updated in place\<close>

text \<open>\<^verbatim>\<open>if let Some(a) = m.get_mut(&k) { ... }\<close>: a missing key leaves the map alone.\<close>

definition modify :: "'k \<Rightarrow> ('v \<Rightarrow> 'v) \<Rightarrow> ('k \<rightharpoonup> 'v) \<Rightarrow> ('k \<rightharpoonup> 'v)" where
  "modify k f m = (case m k of None \<Rightarrow> m | Some v \<Rightarrow> m(k \<mapsto> f v))"

lemma modify_apply: "modify k f m j = (if j = k then map_option f (m k) else m j)"
  by (auto simp: modify_def split: option.splits)

lemma dom_modify [simp]: "dom (modify k f m) = dom m"
  by (auto simp: modify_apply split: if_splits)

lemma modify_None [simp]: "m k = None \<Longrightarrow> modify k f m = m"
  by (simp add: modify_def)

lemma modify_upd [simp]: "modify k f (m(k \<mapsto> v)) = m(k \<mapsto> f v)"
  by (simp add: modify_def)

lemma modify_upd_other: "j \<noteq> k \<Longrightarrow> modify k f (m(j \<mapsto> v)) = (modify k f m)(j \<mapsto> v)"
  by (auto simp: modify_apply fun_eq_iff)

text \<open>A map whose entries carry their own name, stored under its key.\<close>

definition keyed_by :: "('v \<Rightarrow> string) \<Rightarrow> (string \<rightharpoonup> 'v) \<Rightarrow> bool" where
  "keyed_by nm m \<longleftrightarrow> (\<forall>k v. m k = Some v \<longrightarrow> key (nm v) = k)"

lemma keyed_by_empty [simp]: "keyed_by nm Map.empty"
  by (simp add: keyed_by_def)

lemma keyed_by_upd: "keyed_by nm m \<Longrightarrow> key (nm v) = k \<Longrightarrow> keyed_by nm (m(k \<mapsto> v))"
  by (auto simp: keyed_by_def)

lemma keyed_by_remove: "keyed_by nm m \<Longrightarrow> keyed_by nm (m(k := None))"
  by (auto simp: keyed_by_def)

lemma keyed_by_modify:
  "keyed_by nm m \<Longrightarrow> (\<And>v. nm (f v) = nm v) \<Longrightarrow> keyed_by nm (modify k f m)"
  by (auto simp: keyed_by_def modify_apply split: if_splits)

lemma keyed_by_map_option:
  "keyed_by nm m \<Longrightarrow> (\<And>v. nm (f v) = nm v) \<Longrightarrow> keyed_by nm (\<lambda>k. map_option f (m k))"
  by (auto simp: keyed_by_def)

text \<open>The order in which a \<^verbatim>\<open>HashMap\<close> is walked is unspecified: a walk is any list that names
  every key once.\<close>

definition enumerates :: "'k list \<Rightarrow> ('k \<rightharpoonup> 'v) \<Rightarrow> bool" where
  "enumerates ks m \<longleftrightarrow> distinct ks \<and> set ks = dom m"

definition values_of :: "'k list \<Rightarrow> ('k \<rightharpoonup> 'v) \<Rightarrow> 'v list" where
  "values_of ks m = List.map_filter m ks"

lemma values_of_simps [simp]:
  "values_of [] m = []"
  "values_of (k # ks) m = (case m k of None \<Rightarrow> values_of ks m | Some v \<Rightarrow> v # values_of ks m)"
  by (simp_all add: values_of_def map_filter_simps split: option.splits)

lemma set_values_of: "set (values_of ks m) = {v. \<exists>k \<in> set ks. m k = Some v}"
  by (induction ks) (auto split: option.splits)

lemma distinct_values_of:
  "\<forall>k v. m k = Some v \<longrightarrow> kof v = k \<Longrightarrow> distinct ks \<Longrightarrow> distinct (map kof (values_of ks m))"
  by (induction ks) (auto simp: set_values_of split: option.split)

subsection \<open>Lists kept by key\<close>

text \<open>
  The common part: \<open>add\<close> appends an element whose key is new, and never makes a key
  appear twice. Replaying a list of distinct keys therefore rebuilds it in order.
\<close>

locale keyed_list =
  fixes kof :: "'a \<Rightarrow> 'k"
    and add :: "'a \<Rightarrow> 'a list \<Rightarrow> 'a list"
  assumes add_new: "kof x \<notin> kof ` set xs \<Longrightarrow> add x xs = xs @ [x]"
    and add_distinct: "distinct (map kof xs) \<Longrightarrow> distinct (map kof (add x xs))"
begin

lemma fold_add_append:
  "distinct (map kof (xs @ ys)) \<Longrightarrow> fold add ys xs = xs @ ys"
proof (induction ys arbitrary: xs)
  case Nil
  then show ?case by simp
next
  case (Cons y ys)
  from Cons.prems have "add y xs = xs @ [y]"
    by (intro add_new) auto
  with Cons.IH [of "xs @ [y]"] Cons.prems show ?case by simp
qed

lemma rebuild: "distinct (map kof xs) \<Longrightarrow> fold add xs [] = xs"
  using fold_add_append [of "[]" xs] by simp

lemma fold_add_distinct: "distinct (map kof xs) \<Longrightarrow> distinct (map kof (fold add ys xs))"
  by (induction ys arbitrary: xs) (auto simp: add_distinct)

end

text \<open>\<^verbatim>\<open>retain\<close> everything with another key, then \<^verbatim>\<open>push\<close>: the last write per key wins.\<close>

locale upsert_list =
  fixes kof :: "'a \<Rightarrow> 'k"
    and norm :: "'r \<Rightarrow> 'k"
    and add :: "'a \<Rightarrow> 'a list \<Rightarrow> 'a list"
    and del :: "'r \<Rightarrow> 'a list \<Rightarrow> 'a list"
  assumes add_law: "add x xs = filter (\<lambda>y. kof y \<noteq> kof x) xs @ [x]"
    and del_law: "del r xs = filter (\<lambda>y. kof y \<noteq> norm r) xs"
begin

lemma set_add: "set (add x xs) = insert x {y \<in> set xs. kof y \<noteq> kof x}"
  by (auto simp: add_law)

lemma del_distinct: "distinct (map kof xs) \<Longrightarrow> distinct (map kof (del r xs))"
  by (simp add: del_law distinct_map_filter)

lemma del_add: "norm r = kof x \<Longrightarrow> del r (add x xs) = del r xs"
  by (simp add: add_law del_law)

lemma add_add: "kof x = kof y \<Longrightarrow> add y (add x xs) = add y xs"
  by (simp add: add_law)

lemma del_absent: "norm r \<notin> kof ` set xs \<Longrightarrow> del r xs = xs"
  unfolding del_law by (intro filter_True ballI) (metis imageI)

lemma fold_del: "set (fold del rs xs) = {y \<in> set xs. kof y \<notin> norm ` set rs}"
  by (induction rs arbitrary: xs) (auto simp: del_law)

lemma fold_del_all: "kof ` set xs \<subseteq> norm ` set rs \<Longrightarrow> fold del rs xs = []"
  using fold_del [of rs xs] by (auto simp flip: set_empty)

end

sublocale upsert_list \<subseteq> keyed_list kof add
proof unfold_locales
  fix x :: 'a and xs :: "'a list"
  assume "kof x \<notin> kof ` set xs"
  then have "filter (\<lambda>y. kof y \<noteq> kof x) xs = xs"
    by (intro filter_True ballI) (metis imageI)
  then show "add x xs = xs @ [x]" by (simp add: add_law)
next
  fix x :: 'a and xs :: "'a list"
  assume "distinct (map kof xs)"
  then show "distinct (map kof (add x xs))"
    by (auto simp: add_law distinct_map_filter)
qed

text \<open>Pushed only when the key is not there yet: the first write per key wins.\<close>

locale once_list =
  fixes kof :: "'a \<Rightarrow> 'k"
    and add :: "'a \<Rightarrow> 'a list \<Rightarrow> 'a list"
  assumes once_law: "add x xs = (if kof x \<in> kof ` set xs then xs else xs @ [x])"
begin

lemma add_again: "add x (add x xs) = add x xs"
  by (simp add: once_law)

lemma set_once: "set xs \<subseteq> set (add x xs)"
  by (auto simp: once_law)

end

sublocale once_list \<subseteq> keyed_list kof add
  by unfold_locales (simp_all add: once_law)

lemma any_key_iff: "(\<exists>y \<in> set xs. kof y = k) \<longleftrightarrow> k \<in> kof ` set xs"
  by auto

subsection \<open>Iterators\<close>

text \<open>\<^verbatim>\<open>iter().find(p)\<close> and the in-place update \<^verbatim>\<open>iter_mut().find(p)\<close>.\<close>

fun find_update :: "('a \<Rightarrow> bool) \<Rightarrow> ('a \<Rightarrow> 'a) \<Rightarrow> 'a list \<Rightarrow> 'a list" where
  "find_update p f [] = []"
| "find_update p f (x # xs) = (if p x then f x # xs else x # find_update p f xs)"

lemma find_update_none: "\<forall>x \<in> set xs. \<not> p x \<Longrightarrow> find_update p f xs = xs"
  by (induction xs) auto

lemma find_update_append:
  "find_update p f (xs @ ys) =
     (if \<exists>x \<in> set xs. p x then find_update p f xs @ ys else xs @ find_update p f ys)"
  by (induction xs) auto

lemma length_find_update [simp]: "length (find_update p f xs) = length xs"
  by (induction xs) auto

lemma map_find_update:
  "(\<And>x. g (f x) = g x) \<Longrightarrow> map g (find_update p f xs) = map g xs"
  by (induction xs) auto

end
