(* ===== verification/Types.thy ===== *)
theory Types
  imports Prelude
begin

text \<open>
  The data of the store (src/src/engine/db/mod.rs): accounts, channels, bots, the HostServ
  configuration and the network-wide lists, field by field, with the field names of the
  source under a short prefix per struct. Timestamps, ids and thresholds are unsigned
  integers the code only compares and bumps by one (\<^typ>\<open>nat\<close>); the cache revisions
  \<^verbatim>\<open>badwords_rev\<close> and \<^verbatim>\<open>triggers_rev\<close>, which wrap, are 64-bit words.
\<close>

subsection \<open>Accounts\<close>

record ajoin_entry =
  aj_channel :: string
  aj_key :: string

record suspension =
  su_by :: string
  su_reason :: string
  su_ts :: nat
  su_expires :: "nat option"

record memo =
  me_from :: string
  me_text :: string
  me_ts :: nat
  me_read :: bool
  me_receipt :: bool

record pending_vhost =
  pv_host :: string
  pv_ts :: nat

record vhost =
  vh_host :: string
  vh_setter :: string
  vh_ts :: nat
  vh_expires :: "nat option"

record profile =
  pr_avatar :: "string option"
  pr_bio :: "string option"
  pr_pronouns :: "string option"
  pr_timezone :: "string option"
  pr_url :: "string option"

definition profile_default :: profile where
  "profile_default = \<lparr>pr_avatar = None, pr_bio = None, pr_pronouns = None,
     pr_timezone = None, pr_url = None\<rparr>"

record account =
  a_name :: string
  a_email :: "string option"
  a_ts :: nat
  a_home :: string
  a_scram256 :: "string option"
  a_scram512 :: "string option"
  a_certfps :: "string list"
  a_pubkey :: "string option"
  a_verified :: bool
  a_ajoin :: "ajoin_entry list"
  a_suspension :: "suspension option"
  a_memos :: "memo list"
  a_memo_ignore :: "string list"
  a_memo_notify :: bool
  a_memo_limit :: "nat option"
  a_greet :: string
  a_no_autoop :: bool
  a_no_protect :: bool
  a_hide_status :: bool
  a_snotice :: bool
  a_language :: "string option"
  a_profile :: profile
  a_vhost :: "vhost option"
  a_vhost_request :: "pending_vhost option"
  a_last_seen :: nat
  a_noexpire :: bool
  a_expiry_warned :: bool
  a_oper_note :: "string option"
  a_swhois :: "string option"
  a_signore :: "string list"

text \<open>The public profile fields, and their names as they appear in a log event.\<close>

datatype profile_field = Avatar | Bio | Pronouns | Timezone | Url

fun meta_key :: "profile_field \<Rightarrow> string" where
  "meta_key Avatar = ''avatar''"
| "meta_key Bio = ''bio''"
| "meta_key Pronouns = ''pronouns''"
| "meta_key Timezone = ''timezone''"
| "meta_key Url = ''url''"

definition profile_field_parse :: "string \<Rightarrow> profile_field option" where
  "profile_field_parse s =
     (let u = to_ascii_uppercase s in
      if u = ''AVATAR'' then Some Avatar
      else if u = ''BIO'' then Some Bio
      else if u = ''PRONOUNS'' then Some Pronouns
      else if u = ''TIMEZONE'' \<or> u = ''TZ'' then Some Timezone
      else if u = ''URL'' \<or> u = ''WEBSITE'' then Some Url
      else None)"

lemma profile_field_parse_meta_key [simp]: "profile_field_parse (meta_key f) = Some f"
  by (cases f) (simp_all add: profile_field_parse_def to_ascii_uppercase_def ascii_simps)

fun profile_set :: "profile_field \<Rightarrow> string option \<Rightarrow> profile \<Rightarrow> profile" where
  "profile_set Avatar v p = p\<lparr>pr_avatar := v\<rparr>"
| "profile_set Bio v p = p\<lparr>pr_bio := v\<rparr>"
| "profile_set Pronouns v p = p\<lparr>pr_pronouns := v\<rparr>"
| "profile_set Timezone v p = p\<lparr>pr_timezone := v\<rparr>"
| "profile_set Url v p = p\<lparr>pr_url := v\<rparr>"

fun profile_get :: "profile_field \<Rightarrow> profile \<Rightarrow> string option" where
  "profile_get Avatar p = pr_avatar p"
| "profile_get Bio p = pr_bio p"
| "profile_get Pronouns p = pr_pronouns p"
| "profile_get Timezone p = pr_timezone p"
| "profile_get Url p = pr_url p"

lemma profile_get_set: "profile_get f (profile_set g v p) = (if f = g then v else profile_get f p)"
  by (cases f; cases g) simp_all

subsection \<open>Channels\<close>

record chan_access =
  ca_account :: string
  ca_level :: string

record chan_akick =
  ak_mask :: string
  ak_reason :: string

record trigger =
  tr_pattern :: string
  tr_response :: string
  tr_cooldown :: nat

record chan_settings =
  cs_signkick :: bool
  cs_signkick_level :: bool
  cs_private :: bool
  cs_peace :: bool
  cs_secureops :: bool
  cs_securevoices :: bool
  cs_restricted :: bool
  cs_noautoop :: bool
  cs_keeptopic :: bool
  cs_topiclock :: bool
  cs_bot_greet :: bool
  cs_nobot :: bool

definition chan_settings_default :: chan_settings where
  "chan_settings_default = \<lparr>cs_signkick = False, cs_signkick_level = False, cs_private = False,
     cs_peace = False, cs_secureops = False, cs_securevoices = False, cs_restricted = False,
     cs_noautoop = False, cs_keeptopic = False, cs_topiclock = False, cs_bot_greet = False,
     cs_nobot = False\<rparr>"

record kicker_settings =
  k_caps :: bool
  k_caps_min :: nat
  k_caps_percent :: nat
  k_bolds :: bool
  k_colors :: bool
  k_underlines :: bool
  k_reverses :: bool
  k_italics :: bool
  k_flood :: bool
  k_flood_lines :: nat
  k_flood_secs :: nat
  k_repeat :: bool
  k_repeat_times :: nat
  k_badwords :: bool
  k_ttb :: nat
  k_ban_expire :: nat
  k_warn :: bool
  k_votekick :: nat
  k_dontkickops :: bool
  k_dontkickvoices :: bool

definition kicker_settings_default :: kicker_settings where
  "kicker_settings_default = \<lparr>k_caps = False, k_caps_min = 0, k_caps_percent = 0,
     k_bolds = False, k_colors = False, k_underlines = False, k_reverses = False,
     k_italics = False, k_flood = False, k_flood_lines = 0, k_flood_secs = 0,
     k_repeat = False, k_repeat_times = 0, k_badwords = False, k_ttb = 0, k_ban_expire = 0,
     k_warn = False, k_votekick = 0, k_dontkickops = False, k_dontkickvoices = False\<rparr>"

record channel_info =
  c_name :: string
  c_founder :: string
  c_ts :: nat
  c_lock_on :: string
  c_lock_off :: string
  c_lock_params :: "(char \<times> string) list"
  c_access :: "chan_access list"
  c_akick :: "chan_akick list"
  c_levels :: "(string \<times> string) list"
  c_successor :: "string option"
  c_desc :: string
  c_entrymsg :: string
  c_url :: string
  c_email :: string
  c_settings :: chan_settings
  c_topic :: string
  c_topic_setter :: string
  c_suspension :: "suspension option"
  c_assigned_bot :: "string option"
  c_kickers :: kicker_settings
  c_badwords :: "string list"
  c_badwords_rev :: "64 word"
  c_triggers :: "trigger list"
  c_triggers_rev :: "64 word"
  c_last_used :: nat
  c_noexpire :: bool
  c_expiry_warned :: bool
  c_oper_note :: "string option"

definition new_channel :: "string \<Rightarrow> string \<Rightarrow> nat \<Rightarrow> channel_info" where
  "new_channel name founder ts =
     \<lparr>c_name = name, c_founder = founder, c_ts = ts, c_lock_on = [], c_lock_off = [],
      c_lock_params = [], c_access = [], c_akick = [], c_levels = [], c_successor = None,
      c_desc = [], c_entrymsg = [], c_url = [], c_email = [], c_settings = chan_settings_default,
      c_topic = [], c_topic_setter = [], c_suspension = None, c_assigned_bot = None,
      c_kickers = kicker_settings_default, c_badwords = [], c_badwords_rev = 0, c_triggers = [],
      c_triggers_rev = 0, c_last_used = ts, c_noexpire = False, c_expiry_warned = False,
      c_oper_note = None\<rparr>"

subsection \<open>Bots, hosts and the network-wide lists\<close>

record bot =
  b_nick :: string
  b_user :: string
  b_host :: string
  b_gecos :: string
  b_private :: bool

record host_config =
  hc_offers :: "string list"
  hc_forbidden :: "string list"
  hc_template :: "string option"

record akill =
  kl_kind :: string
  kl_mask :: string
  kl_setter :: string
  kl_reason :: string
  kl_ts :: nat
  kl_expires :: "nat option"

record filter_rec =
  fi_pattern :: string
  fi_action :: string
  fi_flags :: string
  fi_reason :: string
  fi_setter :: string
  fi_ts :: nat
  fi_expires :: "nat option"

record forbid =
  fb_kind :: string
  fb_mask :: string
  fb_setter :: string
  fb_reason :: string
  fb_ts :: nat

record notify =
  nt_mask :: string
  nt_flags :: string
  nt_reason :: string
  nt_setter :: string
  nt_ts :: nat
  nt_expires :: "nat option"

record news =
  nw_id :: nat
  nw_kind :: string
  nw_text :: string
  nw_setter :: string
  nw_ts :: nat

record help_ticket =
  ht_id :: nat
  ht_requester :: string
  ht_message :: string
  ht_ts :: nat
  ht_handler :: "string option"
  ht_open :: bool

record group_member =
  gm_account :: string
  gm_flags :: string

record group_rec =
  g_name :: string
  g_founder :: string
  g_ts :: nat
  g_home :: string
  g_members :: "group_member list"

record report =
  rp_id :: nat
  rp_reporter :: string
  rp_target :: string
  rp_reason :: string
  rp_ts :: nat
  rp_open :: bool

record session_exception =
  se_mask :: string
  se_limit :: nat
  se_reason :: string

record oper_grant_rec =
  og_privs :: "string list"
  og_expires :: "nat option"

record jupe =
  ju_name :: string
  ju_sid :: string
  ju_reason :: string

type_synonym chan_stats = "(string \<times> nat \<times> (string \<times> nat) list) list"

record net_data =
  n_akills :: "akill list"
  n_filters :: "filter_rec list"
  n_forbids :: "forbid list"
  n_notifies :: "notify list"
  n_news :: "news list"
  n_news_seq :: nat
  n_reports :: "report list"
  n_report_seq :: nat
  n_groups :: "group_rec list"
  n_help :: "help_ticket list"
  n_help_seq :: nat
  n_opers :: "string \<rightharpoonup> oper_grant_rec"
  n_sess_exceptions :: "session_exception list"
  n_jupes :: "jupe list"
  n_jupe_seq :: nat
  n_default_bot :: "string option"
  n_stats :: "string \<rightharpoonup> nat"
  n_chan_stats :: chan_stats
  n_incidents :: "(string \<times> nat \<times> string) list"
  n_incident_seq :: nat

definition net_default :: net_data where
  "net_default = \<lparr>n_akills = [], n_filters = [], n_forbids = [], n_notifies = [], n_news = [],
     n_news_seq = 0, n_reports = [], n_report_seq = 0, n_groups = [], n_help = [],
     n_help_seq = 0, n_opers = Map.empty, n_sess_exceptions = [], n_jupes = [], n_jupe_seq = 0,
     n_default_bot = None, n_stats = Map.empty, n_chan_stats = [], n_incidents = [],
     n_incident_seq = 0\<rparr>"

definition host_default :: host_config where
  "host_default = \<lparr>hc_offers = [], hc_forbidden = [], hc_template = None\<rparr>"

text \<open>The six pieces of state the event fold threads: what the log reconstructs.\<close>

record store =
  accounts :: "string \<rightharpoonup> account"
  channels :: "string \<rightharpoonup> channel_info"
  grouped :: "string \<rightharpoonup> string"
  bots :: "string \<rightharpoonup> bot"
  host_cfg :: host_config
  net :: net_data

definition store_empty :: store where
  "store_empty = \<lparr>accounts = Map.empty, channels = Map.empty, grouped = Map.empty,
     bots = Map.empty, host_cfg = host_default, net = net_default\<rparr>"

end
