(* ===== verification/Events.thy ===== *)
theory Events
  imports Types
begin

text \<open>
  The event log's vocabulary and its fold (src/src/engine/db/event.rs). The source has one
  enum; here its variants keep their names and payloads and are grouped by the part of the
  store they touch, so that \<open>apply\<close> is one function per group with the source's match arms
  as its equations. \<open>scope\<close> says which events replicate, \<open>apply\<close> folds one event into the
  store, \<open>replay\<close> folds a log.
\<close>

subsection \<open>Lists kept by key\<close>

text \<open>Each pair is the \<^verbatim>\<open>retain\<close>, \<^verbatim>\<open>push\<close> idiom of one list of the store; each obeys the laws
  of \<open>upsert_list\<close> for the case-folded key the source compares.\<close>

definition access_del_key :: "string \<Rightarrow> chan_access list \<Rightarrow> chan_access list" where
  "access_del_key account xs = filter (\<lambda>a. \<not> eq_ignore_ascii_case (ca_account a) account) xs"

definition access_put :: "chan_access \<Rightarrow> chan_access list \<Rightarrow> chan_access list" where
  "access_put e xs = access_del_key (ca_account e) xs @ [e]"

interpretation access_list: upsert_list "\<lambda>a. key (ca_account a)" key access_put access_del_key
  by unfold_locales (simp_all add: access_put_def access_del_key_def eq_ignore_ascii_case_def)

definition akick_del_key :: "string \<Rightarrow> chan_akick list \<Rightarrow> chan_akick list" where
  "akick_del_key msk xs = filter (\<lambda>a. \<not> eq_ignore_ascii_case (ak_mask a) msk) xs"

definition akick_put :: "chan_akick \<Rightarrow> chan_akick list \<Rightarrow> chan_akick list" where
  "akick_put e xs = akick_del_key (ak_mask e) xs @ [e]"

interpretation akick_list: upsert_list "\<lambda>a. key (ak_mask a)" key akick_put akick_del_key
  by unfold_locales (simp_all add: akick_put_def akick_del_key_def eq_ignore_ascii_case_def)

definition level_del_key :: "string \<Rightarrow> (string \<times> string) list \<Rightarrow> (string \<times> string) list" where
  "level_del_key cap xs = filter (\<lambda>e. \<not> eq_ignore_ascii_case (fst e) cap) xs"

definition level_put :: "string \<times> string \<Rightarrow> (string \<times> string) list \<Rightarrow> (string \<times> string) list" where
  "level_put e xs = level_del_key (fst e) xs @ [e]"

interpretation level_list: upsert_list "\<lambda>e. key (fst e)" key level_put level_del_key
  by unfold_locales (simp_all add: level_put_def level_del_key_def eq_ignore_ascii_case_def)

definition ajoin_del_key :: "string \<Rightarrow> ajoin_entry list \<Rightarrow> ajoin_entry list" where
  "ajoin_del_key channel xs = filter (\<lambda>e. \<not> eq_ignore_ascii_case (aj_channel e) channel) xs"

definition ajoin_put :: "ajoin_entry \<Rightarrow> ajoin_entry list \<Rightarrow> ajoin_entry list" where
  "ajoin_put e xs = ajoin_del_key (aj_channel e) xs @ [e]"

interpretation ajoin_list: upsert_list "\<lambda>e. key (aj_channel e)" key ajoin_put ajoin_del_key
  by unfold_locales (simp_all add: ajoin_put_def ajoin_del_key_def eq_ignore_ascii_case_def)

definition akill_same :: "string \<Rightarrow> string \<Rightarrow> akill \<Rightarrow> bool" where
  "akill_same kind msk a \<longleftrightarrow> kl_kind a = kind \<and> eq_ignore_ascii_case (kl_mask a) msk"

definition akill_put :: "akill \<Rightarrow> akill list \<Rightarrow> akill list" where
  "akill_put e xs = filter (\<lambda>a. \<not> akill_same (kl_kind e) (kl_mask e) a) xs @ [e]"

definition akill_key :: "akill \<Rightarrow> string \<times> string" where
  "akill_key a = (kl_kind a, key (kl_mask a))"

definition akill_del_key :: "string \<times> string \<Rightarrow> akill list \<Rightarrow> akill list" where
  "akill_del_key km xs = filter (\<lambda>a. \<not> akill_same (fst km) (snd km) a) xs"

interpretation akill_list: upsert_list akill_key "\<lambda>(kind, msk). (kind, key msk)" akill_put akill_del_key
  by unfold_locales
    (auto simp: akill_put_def akill_del_key_def akill_same_def akill_key_def
      eq_ignore_ascii_case_def intro!: filter_cong)

definition filter_del_key :: "string \<Rightarrow> filter_rec list \<Rightarrow> filter_rec list" where
  "filter_del_key k xs = filter (\<lambda>x. \<not> eq_ignore_ascii_case (fi_pattern x) k) xs"

definition filter_put :: "filter_rec \<Rightarrow> filter_rec list \<Rightarrow> filter_rec list" where
  "filter_put e xs = filter_del_key (fi_pattern e) xs @ [e]"

interpretation filter_list: upsert_list "\<lambda>x. key (fi_pattern x)" key filter_put filter_del_key
  by unfold_locales (simp_all add: filter_put_def filter_del_key_def eq_ignore_ascii_case_def)

definition forbid_same :: "string \<Rightarrow> string \<Rightarrow> forbid \<Rightarrow> bool" where
  "forbid_same kind msk f \<longleftrightarrow> fb_kind f = kind \<and> eq_ignore_ascii_case (fb_mask f) msk"

definition forbid_put :: "forbid \<Rightarrow> forbid list \<Rightarrow> forbid list" where
  "forbid_put e xs = filter (\<lambda>f. \<not> forbid_same (fb_kind e) (fb_mask e) f) xs @ [e]"

definition forbid_key :: "forbid \<Rightarrow> string \<times> string" where
  "forbid_key f = (fb_kind f, key (fb_mask f))"

definition forbid_del_key :: "string \<times> string \<Rightarrow> forbid list \<Rightarrow> forbid list" where
  "forbid_del_key km xs = filter (\<lambda>f. \<not> forbid_same (fst km) (snd km) f) xs"

interpretation forbid_list: upsert_list forbid_key "\<lambda>(kind, msk). (kind, key msk)" forbid_put forbid_del_key
  by unfold_locales
    (auto simp: forbid_put_def forbid_del_key_def forbid_same_def forbid_key_def
      eq_ignore_ascii_case_def intro!: filter_cong)

definition notify_del_key :: "string \<Rightarrow> notify list \<Rightarrow> notify list" where
  "notify_del_key k xs = filter (\<lambda>x. \<not> eq_ignore_ascii_case (nt_mask x) k) xs"

definition notify_put :: "notify \<Rightarrow> notify list \<Rightarrow> notify list" where
  "notify_put e xs = notify_del_key (nt_mask e) xs @ [e]"

interpretation notify_list: upsert_list "\<lambda>x. key (nt_mask x)" key notify_put notify_del_key
  by unfold_locales (simp_all add: notify_put_def notify_del_key_def eq_ignore_ascii_case_def)

definition session_del_key :: "string \<Rightarrow> session_exception list \<Rightarrow> session_exception list" where
  "session_del_key k xs = filter (\<lambda>x. \<not> eq_ignore_ascii_case (se_mask x) k) xs"

definition session_put :: "session_exception \<Rightarrow> session_exception list \<Rightarrow> session_exception list" where
  "session_put e xs = session_del_key (se_mask e) xs @ [e]"

interpretation session_list: upsert_list "\<lambda>x. key (se_mask x)" key session_put session_del_key
  by unfold_locales (simp_all add: session_put_def session_del_key_def eq_ignore_ascii_case_def)

definition member_del_key :: "string \<Rightarrow> group_member list \<Rightarrow> group_member list" where
  "member_del_key k xs = filter (\<lambda>x. \<not> eq_ignore_ascii_case (gm_account x) k) xs"

definition member_put :: "group_member \<Rightarrow> group_member list \<Rightarrow> group_member list" where
  "member_put e xs = member_del_key (gm_account e) xs @ [e]"

interpretation member_list: upsert_list "\<lambda>x. key (gm_account x)" key member_put member_del_key
  by unfold_locales (simp_all add: member_put_def member_del_key_def eq_ignore_ascii_case_def)

text \<open>The insert-once idiom: push unless an entry with the key is already there.\<close>

definition push_new :: "string \<Rightarrow> string list \<Rightarrow> string list" where
  "push_new fp xs = (if fp \<in> set xs then xs else xs @ [fp])"

interpretation push_new_list: once_list "\<lambda>fp. fp" push_new
  by unfold_locales (simp add: push_new_def)

definition memo_ignore_put :: "string \<Rightarrow> string list \<Rightarrow> string list" where
  "memo_ignore_put target xs =
     (if \<exists>t \<in> set xs. eq_ignore_ascii_case t target then xs else xs @ [target])"

interpretation memo_ignore_list: once_list key memo_ignore_put
  by unfold_locales
    (auto simp: memo_ignore_put_def eq_ignore_ascii_case_def simp flip: any_key_iff)

definition jupe_put :: "jupe \<Rightarrow> jupe list \<Rightarrow> jupe list" where
  "jupe_put j xs =
     (if \<exists>x \<in> set xs. eq_ignore_ascii_case (ju_name x) (ju_name j) then xs else xs @ [j])"

interpretation jupe_list: once_list "\<lambda>j. key (ju_name j)" jupe_put
  by unfold_locales (auto simp: jupe_put_def eq_ignore_ascii_case_def simp flip: any_key_iff)

definition news_put :: "news \<Rightarrow> news list \<Rightarrow> news list" where
  "news_put n xs = (if \<exists>x \<in> set xs. nw_id x = nw_id n then xs else xs @ [n])"

interpretation news_list: once_list nw_id news_put
  by unfold_locales (auto simp: news_put_def simp flip: any_key_iff)

definition report_put :: "report \<Rightarrow> report list \<Rightarrow> report list" where
  "report_put r xs = (if \<exists>x \<in> set xs. rp_id x = rp_id r then xs else xs @ [r])"

interpretation report_list: once_list rp_id report_put
  by unfold_locales (auto simp: report_put_def simp flip: any_key_iff)

definition help_put :: "help_ticket \<Rightarrow> help_ticket list \<Rightarrow> help_ticket list" where
  "help_put t xs = (if \<exists>x \<in> set xs. ht_id x = ht_id t then xs else xs @ [t])"

interpretation help_list: once_list ht_id help_put
  by unfold_locales (auto simp: help_put_def simp flip: any_key_iff)

subsection \<open>Events\<close>

datatype account_event =
    AccountRegistered account
  | CertAdded string string
  | CertRemoved string string
  | AccountEmailSet string "string option"
  | AccountGreetSet string string
  | AccountLanguageSet string "string option"
  | AccountSwhoisSet string "string option"
  | AccountSignoreSet string "string list"
  | AccountPubkeySet string "string option"
  | AccountProfileSet string string "string option"
  | AccountAutoOpSet string bool
  | AccountKillSet string bool
  | AccountHideStatusSet string bool
  | AccountSnoticeSet string bool
  | AccountPasswordSet string string string
  | AccountVerified string
  | AjoinAdded string string string
  | AjoinRemoved string string
  | VhostSet string string string nat "nat option"
  | VhostDeleted string
  | VhostRequested string string nat
  | VhostRequestCleared string
  | AccountSuspended string string string nat "nat option"
  | AccountUnsuspended string
  | MemoSent string string string nat bool
  | MemoRead string nat
  | MemoDeleted string nat
  | MemoIgnoreAdd string string
  | MemoIgnoreDel string string
  | MemoPrefsSet string bool "nat option"
  | AccountSeen string nat
  | AccountNoExpire string bool
  | AccountExpiryWarned string
  | AccountOperNoteSet string "string option"

datatype channel_event =
    ChannelRegistered string string nat
  | ChannelDropped string
  | ChannelRenamed string string
  | ChannelMlock string string string "(char \<times> string) list"
  | ChannelAccessAdd string string string
  | ChannelAccessDel string string
  | ChannelAkickAdd string string string
  | ChannelAkickDel string string
  | ChannelLevelSet string string string
  | ChannelLevelReset string string
  | ChannelFounderSet string string
  | ChannelSuccessorSet string "string option"
  | ChannelDescSet string string
  | ChannelEntryMsgSet string string
  | ChannelUrlSet string string
  | ChannelEmailSet string string
  | ChannelSettingsSet string chan_settings
  | ChannelKickerSet string kicker_settings
  | ChannelBadwordsSet string "string list"
  | ChannelTriggersSet string "trigger list"
  | ChannelTopicSet string string string
  | ChannelSuspended string string string nat "nat option"
  | ChannelUnsuspended string
  | ChannelBotAssigned string string
  | ChannelBotUnassigned string
  | ChannelUsed string nat
  | ChannelNoExpire string bool
  | ChannelExpiryWarned string
  | ChannelOperNoteSet string "string option"

datatype host_event =
    VhostOfferAdded string
  | VhostOfferRemoved string
  | VhostForbidAdded string
  | VhostForbidRemoved string
  | VhostTemplateSet "string option"

datatype net_event =
    NewsAdded nat string string string nat
  | NewsDeleted nat
  | ReportFiled nat string string string nat
  | ReportClosed nat
  | ReportDeleted nat
  | GroupRegistered string string nat string
  | GroupDropped string
  | GroupFounderSet string string
  | GroupFlagsSet string string string
  | GroupMemberDel string string
  | HelpRequested nat string string nat
  | HelpTaken nat string
  | HelpClosed nat
  | OperGranted string "string list" "nat option"
  | OperRevoked string
  | SessionExceptionAdded string nat string
  | SessionExceptionRemoved string
  | AkillAdded string string string string nat "nat option"
  | AkillRemoved string string
  | FilterAdded string string string string string nat "nat option"
  | FilterRemoved string
  | ForbidAdded string string string string nat
  | ForbidRemoved string string
  | NotifyAdded string string string string nat "nat option"
  | NotifyRemoved string
  | JupeAdded string string string
  | JupeRemoved string
  | StatsSet "(string \<times> nat) list" chan_stats
  | IncidentsSet nat "(string \<times> nat \<times> string) list"

datatype event =
    AccountEvent account_event
  | AccountDropped string
  | NickGrouped string string
  | NickUngrouped string
  | ChannelEvent channel_event
  | BotAdded bot
  | BotRemoved string
  | DefaultBotSet "string option"
  | HostEvent host_event
  | NetEvent net_event

subsection \<open>Scope\<close>

datatype scope_kind = Global | Local

fun net_scope :: "net_event \<Rightarrow> scope_kind" where
  "net_scope (AkillAdded _ _ _ _ _ _) = Global"
| "net_scope (AkillRemoved _ _) = Global"
| "net_scope (FilterAdded _ _ _ _ _ _ _) = Global"
| "net_scope (FilterRemoved _) = Global"
| "net_scope (ForbidAdded _ _ _ _ _) = Global"
| "net_scope (ForbidRemoved _ _) = Global"
| "net_scope (NotifyAdded _ _ _ _ _ _) = Global"
| "net_scope (NotifyRemoved _) = Global"
| "net_scope (GroupRegistered _ _ _ _) = Global"
| "net_scope (GroupDropped _) = Global"
| "net_scope (GroupFounderSet _ _) = Global"
| "net_scope (GroupFlagsSet _ _ _) = Global"
| "net_scope (GroupMemberDel _ _) = Global"
| "net_scope (OperGranted _ _ _) = Global"
| "net_scope (OperRevoked _) = Global"
| "net_scope (SessionExceptionAdded _ _ _) = Global"
| "net_scope (SessionExceptionRemoved _) = Global"
| "net_scope (JupeAdded _ _ _) = Local"
| "net_scope (JupeRemoved _) = Local"
| "net_scope (StatsSet _ _) = Local"
| "net_scope (IncidentsSet _ _) = Local"
| "net_scope (NewsAdded _ _ _ _ _) = Local"
| "net_scope (NewsDeleted _) = Local"
| "net_scope (ReportFiled _ _ _ _ _) = Local"
| "net_scope (ReportClosed _) = Local"
| "net_scope (ReportDeleted _) = Local"
| "net_scope (HelpRequested _ _ _ _) = Local"
| "net_scope (HelpTaken _ _) = Local"
| "net_scope (HelpClosed _) = Local"

fun scope :: "event \<Rightarrow> scope_kind" where
  "scope (AccountEvent _) = Global"
| "scope (AccountDropped _) = Global"
| "scope (NickGrouped _ _) = Global"
| "scope (NickUngrouped _) = Global"
| "scope (NetEvent e) = net_scope e"
| "scope (ChannelEvent _) = Local"
| "scope (BotAdded _) = Local"
| "scope (BotRemoved _) = Local"
| "scope (DefaultBotSet _) = Local"
| "scope (HostEvent _) = Local"

end
