(* ===== verification/Fold.thy ===== *)
theory Fold
  imports Events
begin

text \<open>
  The fold of one event into the store (\<^verbatim>\<open>apply\<close>, \<^verbatim>\<open>purge_account_refs\<close> and \<^verbatim>\<open>owns_over\<close> in
  src/src/engine/db/event.rs) and the replay of a log. \<open>apply\<close> dispatches to one function
  per group of events; every equation is one match arm of the source.
\<close>

subsection \<open>Accounts\<close>

text \<open>\<^verbatim>\<open>(held.ts, held.home) < (claim.ts, claim.home)\<close>: strings compare lexicographically.\<close>

fun str_less :: "string \<Rightarrow> string \<Rightarrow> bool" where
  "str_less _ [] = False"
| "str_less [] (_ # _) = True"
| "str_less (x # xs) (y # ys) = (code x < code y \<or> code x = code y \<and> str_less xs ys)"

definition earlier :: "nat \<times> string \<Rightarrow> nat \<times> string \<Rightarrow> bool" where
  "earlier a b \<longleftrightarrow> fst a < fst b \<or> fst a = fst b \<and> str_less (snd a) (snd b)"

definition owns_over :: "account \<Rightarrow> account \<Rightarrow> bool" where
  "owns_over held claim \<longleftrightarrow> earlier (a_ts held, a_home held) (a_ts claim, a_home claim)"

text \<open>The default mailbox cap the fold enforces.\<close>

definition memo_cap :: "account \<Rightarrow> nat" where
  "memo_cap a = (case a_memo_limit a of None \<Rightarrow> 30 | Some n \<Rightarrow> n)"

definition remove_at :: "nat \<Rightarrow> 'a list \<Rightarrow> 'a list" where
  "remove_at i xs = take i xs @ drop (Suc i) xs"

fun apply_account :: "account_event \<Rightarrow> (string \<rightharpoonup> account) \<Rightarrow> (string \<rightharpoonup> account)" where
  "apply_account (AccountRegistered a) m =
     (let k = key (a_name a);
          keep_existing = (case m k of None \<Rightarrow> False | Some cur \<Rightarrow> owns_over cur a)
      in if keep_existing then m else m(k \<mapsto> a))"
| "apply_account (CertAdded acct fp) m =
     modify (key acct) (\<lambda>a. a\<lparr>a_certfps := push_new fp (a_certfps a)\<rparr>) m"
| "apply_account (CertRemoved acct fp) m =
     modify (key acct) (\<lambda>a. a\<lparr>a_certfps := filter (\<lambda>c. c \<noteq> fp) (a_certfps a)\<rparr>) m"
| "apply_account (AccountEmailSet acct email) m = modify (key acct) (\<lambda>a. a\<lparr>a_email := email\<rparr>) m"
| "apply_account (AccountPubkeySet acct pubkey) m = modify (key acct) (\<lambda>a. a\<lparr>a_pubkey := pubkey\<rparr>) m"
| "apply_account (AccountGreetSet acct greet) m = modify (key acct) (\<lambda>a. a\<lparr>a_greet := greet\<rparr>) m"
| "apply_account (AccountLanguageSet acct lang) m = modify (key acct) (\<lambda>a. a\<lparr>a_language := lang\<rparr>) m"
| "apply_account (AccountSwhoisSet acct txt) m = modify (key acct) (\<lambda>a. a\<lparr>a_swhois := txt\<rparr>) m"
| "apply_account (AccountSignoreSet acct xs) m = modify (key acct) (\<lambda>a. a\<lparr>a_signore := xs\<rparr>) m"
| "apply_account (AccountProfileSet acct field v) m =
     (case profile_field_parse field of
        None \<Rightarrow> m
      | Some f \<Rightarrow> modify (key acct) (\<lambda>a. a\<lparr>a_profile := profile_set f v (a_profile a)\<rparr>) m)"
| "apply_account (AccountAutoOpSet acct on) m = modify (key acct) (\<lambda>a. a\<lparr>a_no_autoop := \<not> on\<rparr>) m"
| "apply_account (AccountKillSet acct on) m = modify (key acct) (\<lambda>a. a\<lparr>a_no_protect := \<not> on\<rparr>) m"
| "apply_account (AccountHideStatusSet acct on) m = modify (key acct) (\<lambda>a. a\<lparr>a_hide_status := on\<rparr>) m"
| "apply_account (AccountSnoticeSet acct on) m = modify (key acct) (\<lambda>a. a\<lparr>a_snotice := on\<rparr>) m"
| "apply_account (AccountPasswordSet acct s256 s512) m =
     modify (key acct) (\<lambda>a. a\<lparr>a_scram256 := Some s256,
        a_scram512 := (if s512 = [] then None else Some s512)\<rparr>) m"
| "apply_account (AccountVerified acct) m = modify (key acct) (\<lambda>a. a\<lparr>a_verified := True\<rparr>) m"
| "apply_account (AjoinAdded acct chan join_key) m =
     modify (key acct)
       (\<lambda>a. a\<lparr>a_ajoin := ajoin_put \<lparr>aj_channel = chan, aj_key = join_key\<rparr> (a_ajoin a)\<rparr>) m"
| "apply_account (AjoinRemoved acct chan) m =
     modify (key acct) (\<lambda>a. a\<lparr>a_ajoin := ajoin_del_key chan (a_ajoin a)\<rparr>) m"
| "apply_account (VhostSet acct host setter ts expires) m =
     modify (key acct) (\<lambda>a. a\<lparr>a_vhost := Some \<lparr>vh_host = host, vh_setter = setter, vh_ts = ts,
        vh_expires = expires\<rparr>\<rparr>) m"
| "apply_account (VhostDeleted acct) m = modify (key acct) (\<lambda>a. a\<lparr>a_vhost := None\<rparr>) m"
| "apply_account (VhostRequested acct host ts) m =
     modify (key acct) (\<lambda>a. a\<lparr>a_vhost_request := Some \<lparr>pv_host = host, pv_ts = ts\<rparr>\<rparr>) m"
| "apply_account (VhostRequestCleared acct) m = modify (key acct) (\<lambda>a. a\<lparr>a_vhost_request := None\<rparr>) m"
| "apply_account (AccountSuspended acct by_who reason ts expires) m =
     modify (key acct) (\<lambda>a. a\<lparr>a_suspension := Some \<lparr>su_by = by_who, su_reason = reason,
        su_ts = ts, su_expires = expires\<rparr>\<rparr>) m"
| "apply_account (AccountUnsuspended acct) m = modify (key acct) (\<lambda>a. a\<lparr>a_suspension := None\<rparr>) m"
| "apply_account (MemoSent acct from txt ts receipt) m =
     modify (key acct) (\<lambda>a. if length (a_memos a) < memo_cap a
        then a\<lparr>a_memos := a_memos a @ [\<lparr>me_from = from, me_text = txt, me_ts = ts,
                me_read = False, me_receipt = receipt\<rparr>]\<rparr>
        else a) m"
| "apply_account (MemoRead acct i) m =
     modify (key acct) (\<lambda>a. if i < length (a_memos a)
        then a\<lparr>a_memos := (a_memos a)[i := (a_memos a ! i)\<lparr>me_read := True\<rparr>]\<rparr> else a) m"
| "apply_account (MemoDeleted acct i) m =
     modify (key acct) (\<lambda>a. if i < length (a_memos a)
        then a\<lparr>a_memos := remove_at i (a_memos a)\<rparr> else a) m"
| "apply_account (MemoIgnoreAdd acct target) m =
     modify (key acct) (\<lambda>a. a\<lparr>a_memo_ignore := memo_ignore_put target (a_memo_ignore a)\<rparr>) m"
| "apply_account (MemoIgnoreDel acct target) m =
     modify (key acct) (\<lambda>a. a\<lparr>a_memo_ignore :=
        filter (\<lambda>t. \<not> eq_ignore_ascii_case t target) (a_memo_ignore a)\<rparr>) m"
| "apply_account (MemoPrefsSet acct ntfy limit) m =
     modify (key acct) (\<lambda>a. a\<lparr>a_memo_notify := ntfy, a_memo_limit := limit\<rparr>) m"
| "apply_account (AccountSeen acct ts) m =
     modify (key acct) (\<lambda>a. a\<lparr>a_last_seen := max (a_last_seen a) ts, a_expiry_warned := False\<rparr>) m"
| "apply_account (AccountNoExpire acct on) m = modify (key acct) (\<lambda>a. a\<lparr>a_noexpire := on\<rparr>) m"
| "apply_account (AccountExpiryWarned acct) m = modify (key acct) (\<lambda>a. a\<lparr>a_expiry_warned := True\<rparr>) m"
| "apply_account (AccountOperNoteSet acct note) m = modify (key acct) (\<lambda>a. a\<lparr>a_oper_note := note\<rparr>) m"

subsection \<open>Channels\<close>

fun apply_channel :: "channel_event \<Rightarrow> (string \<rightharpoonup> channel_info) \<Rightarrow> (string \<rightharpoonup> channel_info)" where
  "apply_channel (ChannelRegistered name founder ts) m = m(key name \<mapsto> new_channel name founder ts)"
| "apply_channel (ChannelDropped name) m = m(key name := None)"
| "apply_channel (ChannelRenamed old new) m =
     (case m (key old) of
        None \<Rightarrow> m
      | Some c \<Rightarrow> (m(key old := None))(key new \<mapsto> c\<lparr>c_name := new\<rparr>))"
| "apply_channel (ChannelMlock name on off params) m =
     modify (key name) (\<lambda>c. c\<lparr>c_lock_on := on, c_lock_off := off, c_lock_params := params\<rparr>) m"
| "apply_channel (ChannelAccessAdd chan acct level) m =
     modify (key chan)
       (\<lambda>c. c\<lparr>c_access := access_put \<lparr>ca_account = acct, ca_level = level\<rparr> (c_access c)\<rparr>) m"
| "apply_channel (ChannelAccessDel chan acct) m =
     modify (key chan) (\<lambda>c. c\<lparr>c_access := access_del_key acct (c_access c)\<rparr>) m"
| "apply_channel (ChannelAkickAdd chan msk reason) m =
     modify (key chan)
       (\<lambda>c. c\<lparr>c_akick := akick_put \<lparr>ak_mask = msk, ak_reason = reason\<rparr> (c_akick c)\<rparr>) m"
| "apply_channel (ChannelAkickDel chan msk) m =
     modify (key chan) (\<lambda>c. c\<lparr>c_akick := akick_del_key msk (c_akick c)\<rparr>) m"
| "apply_channel (ChannelLevelSet chan cap role) m =
     modify (key chan) (\<lambda>c. c\<lparr>c_levels := level_put (cap, role) (c_levels c)\<rparr>) m"
| "apply_channel (ChannelLevelReset chan cap) m =
     modify (key chan) (\<lambda>c. c\<lparr>c_levels := level_del_key cap (c_levels c)\<rparr>) m"
| "apply_channel (ChannelFounderSet chan founder) m = modify (key chan) (\<lambda>c. c\<lparr>c_founder := founder\<rparr>) m"
| "apply_channel (ChannelSuccessorSet chan succ) m = modify (key chan) (\<lambda>c. c\<lparr>c_successor := succ\<rparr>) m"
| "apply_channel (ChannelDescSet chan desc) m = modify (key chan) (\<lambda>c. c\<lparr>c_desc := desc\<rparr>) m"
| "apply_channel (ChannelUrlSet chan url) m = modify (key chan) (\<lambda>c. c\<lparr>c_url := url\<rparr>) m"
| "apply_channel (ChannelEmailSet chan email) m = modify (key chan) (\<lambda>c. c\<lparr>c_email := email\<rparr>) m"
| "apply_channel (ChannelSettingsSet chan settings) m = modify (key chan) (\<lambda>c. c\<lparr>c_settings := settings\<rparr>) m"
| "apply_channel (ChannelKickerSet chan kickers) m = modify (key chan) (\<lambda>c. c\<lparr>c_kickers := kickers\<rparr>) m"
| "apply_channel (ChannelBadwordsSet chan ws) m =
     modify (key chan) (\<lambda>c. c\<lparr>c_badwords := ws, c_badwords_rev := c_badwords_rev c + 1\<rparr>) m"
| "apply_channel (ChannelTriggersSet chan ts) m =
     modify (key chan) (\<lambda>c. c\<lparr>c_triggers := ts, c_triggers_rev := c_triggers_rev c + 1\<rparr>) m"
| "apply_channel (ChannelTopicSet chan topic setter) m =
     modify (key chan) (\<lambda>c. c\<lparr>c_topic := topic, c_topic_setter := setter\<rparr>) m"
| "apply_channel (ChannelSuspended chan by_who reason ts expires) m =
     modify (key chan) (\<lambda>c. c\<lparr>c_suspension := Some \<lparr>su_by = by_who, su_reason = reason,
        su_ts = ts, su_expires = expires\<rparr>\<rparr>) m"
| "apply_channel (ChannelUnsuspended chan) m = modify (key chan) (\<lambda>c. c\<lparr>c_suspension := None\<rparr>) m"
| "apply_channel (ChannelBotAssigned chan b) m = modify (key chan) (\<lambda>c. c\<lparr>c_assigned_bot := Some b\<rparr>) m"
| "apply_channel (ChannelBotUnassigned chan) m = modify (key chan) (\<lambda>c. c\<lparr>c_assigned_bot := None\<rparr>) m"
| "apply_channel (ChannelEntryMsgSet chan msg) m = modify (key chan) (\<lambda>c. c\<lparr>c_entrymsg := msg\<rparr>) m"
| "apply_channel (ChannelUsed chan ts) m =
     modify (key chan) (\<lambda>c. c\<lparr>c_last_used := max (c_last_used c) ts, c_expiry_warned := False\<rparr>) m"
| "apply_channel (ChannelNoExpire chan on) m = modify (key chan) (\<lambda>c. c\<lparr>c_noexpire := on\<rparr>) m"
| "apply_channel (ChannelExpiryWarned chan) m = modify (key chan) (\<lambda>c. c\<lparr>c_expiry_warned := True\<rparr>) m"
| "apply_channel (ChannelOperNoteSet chan note) m = modify (key chan) (\<lambda>c. c\<lparr>c_oper_note := note\<rparr>) m"

subsection \<open>HostServ configuration\<close>

fun apply_host :: "host_event \<Rightarrow> host_config \<Rightarrow> host_config" where
  "apply_host (VhostOfferAdded host) h = h\<lparr>hc_offers := push_new host (hc_offers h)\<rparr>"
| "apply_host (VhostOfferRemoved host) h = h\<lparr>hc_offers := filter (\<lambda>x. x \<noteq> host) (hc_offers h)\<rparr>"
| "apply_host (VhostForbidAdded pat) h = h\<lparr>hc_forbidden := push_new pat (hc_forbidden h)\<rparr>"
| "apply_host (VhostForbidRemoved pat) h = h\<lparr>hc_forbidden := filter (\<lambda>x. x \<noteq> pat) (hc_forbidden h)\<rparr>"
| "apply_host (VhostTemplateSet template) h = h\<lparr>hc_template := template\<rparr>"

subsection \<open>Network-wide lists\<close>

text \<open>\<^verbatim>\<open>GroupRegistered\<close>: the first group of that name is kept or replaced in place.\<close>

definition group_register_fold :: "group_rec \<Rightarrow> group_rec list \<Rightarrow> group_rec list" where
  "group_register_fold claim gs =
     (if \<exists>g \<in> set gs. key (g_name g) = key (g_name claim)
      then find_update (\<lambda>g. key (g_name g) = key (g_name claim))
             (\<lambda>held. if earlier (g_ts held, g_home held) (g_ts claim, g_home claim)
                     then held else claim) gs
      else gs @ [claim])"

definition on_group :: "string \<Rightarrow> (group_rec \<Rightarrow> group_rec) \<Rightarrow> group_rec list \<Rightarrow> group_rec list" where
  "on_group name f gs = find_update (\<lambda>g. key (g_name g) = key name) f gs"

fun apply_net :: "net_event \<Rightarrow> net_data \<Rightarrow> net_data" where
  "apply_net (AkillAdded kind msk setter reason ts expires) n =
     n\<lparr>n_akills := akill_put \<lparr>kl_kind = kind, kl_mask = msk, kl_setter = setter,
        kl_reason = reason, kl_ts = ts, kl_expires = expires\<rparr> (n_akills n)\<rparr>"
| "apply_net (AkillRemoved kind msk) n = n\<lparr>n_akills := akill_del_key (kind, msk) (n_akills n)\<rparr>"
| "apply_net (FilterAdded pat action flags reason setter ts expires) n =
     n\<lparr>n_filters := filter_put \<lparr>fi_pattern = pat, fi_action = action, fi_flags = flags,
        fi_reason = reason, fi_setter = setter, fi_ts = ts, fi_expires = expires\<rparr> (n_filters n)\<rparr>"
| "apply_net (FilterRemoved pat) n = n\<lparr>n_filters := filter_del_key pat (n_filters n)\<rparr>"
| "apply_net (ForbidAdded kind msk setter reason ts) n =
     n\<lparr>n_forbids := forbid_put \<lparr>fb_kind = kind, fb_mask = msk, fb_setter = setter,
        fb_reason = reason, fb_ts = ts\<rparr> (n_forbids n)\<rparr>"
| "apply_net (ForbidRemoved kind msk) n = n\<lparr>n_forbids := forbid_del_key (kind, msk) (n_forbids n)\<rparr>"
| "apply_net (NotifyAdded msk flags reason setter ts expires) n =
     n\<lparr>n_notifies := notify_put \<lparr>nt_mask = msk, nt_flags = flags, nt_reason = reason,
        nt_setter = setter, nt_ts = ts, nt_expires = expires\<rparr> (n_notifies n)\<rparr>"
| "apply_net (NotifyRemoved msk) n = n\<lparr>n_notifies := notify_del_key msk (n_notifies n)\<rparr>"
| "apply_net (JupeAdded name sid reason) n =
     (if \<exists>j \<in> set (n_jupes n). eq_ignore_ascii_case (ju_name j) name then n
      else n\<lparr>n_jupes := n_jupes n @ [\<lparr>ju_name = name, ju_sid = sid, ju_reason = reason\<rparr>],
             n_jupe_seq := n_jupe_seq n + 1\<rparr>)"
| "apply_net (JupeRemoved name) n =
     n\<lparr>n_jupes := filter (\<lambda>j. \<not> eq_ignore_ascii_case (ju_name j) name) (n_jupes n)\<rparr>"
| "apply_net (StatsSet counters chans) n =
     n\<lparr>n_stats := foldl (\<lambda>m (k, v). m(k \<mapsto> v)) Map.empty counters, n_chan_stats := chans\<rparr>"
| "apply_net (IncidentsSet sq incidents) n =
     n\<lparr>n_incident_seq := sq, n_incidents := incidents\<rparr>"
| "apply_net (NewsAdded i kind txt setter ts) n =
     n\<lparr>n_news_seq := max (n_news_seq n) (i + 1),
       n_news := news_put \<lparr>nw_id = i, nw_kind = kind, nw_text = txt, nw_setter = setter,
         nw_ts = ts\<rparr> (n_news n)\<rparr>"
| "apply_net (NewsDeleted i) n = n\<lparr>n_news := filter (\<lambda>x. nw_id x \<noteq> i) (n_news n)\<rparr>"
| "apply_net (ReportFiled i reporter target reason ts) n =
     n\<lparr>n_report_seq := max (n_report_seq n) (i + 1),
       n_reports := report_put \<lparr>rp_id = i, rp_reporter = reporter, rp_target = target,
         rp_reason = reason, rp_ts = ts, rp_open = True\<rparr> (n_reports n)\<rparr>"
| "apply_net (ReportClosed i) n =
     n\<lparr>n_reports := find_update (\<lambda>r. rp_id r = i) (\<lambda>r. r\<lparr>rp_open := False\<rparr>) (n_reports n)\<rparr>"
| "apply_net (ReportDeleted i) n = n\<lparr>n_reports := filter (\<lambda>r. rp_id r \<noteq> i) (n_reports n)\<rparr>"
| "apply_net (GroupRegistered name founder ts home) n =
     n\<lparr>n_groups := group_register_fold \<lparr>g_name = name, g_founder = founder, g_ts = ts,
        g_home = home, g_members = []\<rparr> (n_groups n)\<rparr>"
| "apply_net (GroupDropped name) n =
     n\<lparr>n_groups := filter (\<lambda>g. key (g_name g) \<noteq> key name) (n_groups n)\<rparr>"
| "apply_net (GroupFounderSet name founder) n =
     n\<lparr>n_groups := on_group name (\<lambda>g. g\<lparr>g_founder := founder\<rparr>) (n_groups n)\<rparr>"
| "apply_net (GroupFlagsSet name acct flags) n =
     n\<lparr>n_groups := on_group name (\<lambda>g. g\<lparr>g_members :=
        member_put \<lparr>gm_account = acct, gm_flags = flags\<rparr> (g_members g)\<rparr>) (n_groups n)\<rparr>"
| "apply_net (GroupMemberDel name acct) n =
     n\<lparr>n_groups := on_group name (\<lambda>g. g\<lparr>g_members := member_del_key acct (g_members g)\<rparr>)
        (n_groups n)\<rparr>"
| "apply_net (HelpRequested i requester msg ts) n =
     n\<lparr>n_help_seq := max (n_help_seq n) (i + 1),
       n_help := help_put \<lparr>ht_id = i, ht_requester = requester, ht_message = msg, ht_ts = ts,
         ht_handler = None, ht_open = True\<rparr> (n_help n)\<rparr>"
| "apply_net (HelpTaken i handler) n =
     n\<lparr>n_help := find_update (\<lambda>t. ht_id t = i) (\<lambda>t. t\<lparr>ht_handler := Some handler\<rparr>) (n_help n)\<rparr>"
| "apply_net (HelpClosed i) n =
     n\<lparr>n_help := find_update (\<lambda>t. ht_id t = i) (\<lambda>t. t\<lparr>ht_open := False\<rparr>) (n_help n)\<rparr>"
| "apply_net (OperGranted acct privs expires) n =
     n\<lparr>n_opers := (n_opers n)(key acct \<mapsto> \<lparr>og_privs = privs, og_expires = expires\<rparr>)\<rparr>"
| "apply_net (OperRevoked acct) n = n\<lparr>n_opers := (n_opers n)(key acct := None)\<rparr>"
| "apply_net (SessionExceptionAdded msk limit reason) n =
     n\<lparr>n_sess_exceptions := session_put \<lparr>se_mask = msk, se_limit = limit, se_reason = reason\<rparr>
        (n_sess_exceptions n)\<rparr>"
| "apply_net (SessionExceptionRemoved msk) n =
     n\<lparr>n_sess_exceptions := session_del_key msk (n_sess_exceptions n)\<rparr>"

subsection \<open>A gone account\<close>

definition purge_channel :: "string \<Rightarrow> channel_info \<Rightarrow> channel_info" where
  "purge_channel acct c =
     (let c1 = c\<lparr>c_access := access_del_key acct (c_access c)\<rparr> in
      case c_successor c of
        None \<Rightarrow> c1
      | Some s \<Rightarrow> if eq_ignore_ascii_case s acct then c1\<lparr>c_successor := None\<rparr> else c1)"

definition purge_groups :: "string \<Rightarrow> group_rec list \<Rightarrow> group_rec list" where
  "purge_groups acct gs =
     filter (\<lambda>g. \<not> eq_ignore_ascii_case (g_founder g) acct)
       (map (\<lambda>g. g\<lparr>g_members := member_del_key acct (g_members g)\<rparr>) gs)"

definition purge_grouped :: "string \<Rightarrow> (string \<rightharpoonup> string) \<Rightarrow> (string \<rightharpoonup> string)" where
  "purge_grouped acct m =
     (\<lambda>k. case m k of None \<Rightarrow> None
          | Some a \<Rightarrow> if eq_ignore_ascii_case a acct then None else Some a)"

definition purge_account_refs :: "string \<Rightarrow> store \<Rightarrow> store" where
  "purge_account_refs acct s =
     s\<lparr>grouped := purge_grouped acct (grouped s),
       channels := (\<lambda>k. map_option (purge_channel acct) (channels s k)),
       net := (net s)\<lparr>n_groups := purge_groups acct (n_groups (net s))\<rparr>\<rparr>"

subsection \<open>The fold\<close>

fun apply_event :: "event \<Rightarrow> store \<Rightarrow> store" where
  "apply_event (AccountEvent e) s = s\<lparr>accounts := apply_account e (accounts s)\<rparr>"
| "apply_event (AccountDropped acct) s =
     purge_account_refs acct (s\<lparr>accounts := (accounts s)(key acct := None)\<rparr>)"
| "apply_event (NickGrouped nick acct) s = s\<lparr>grouped := (grouped s)(key nick \<mapsto> acct)\<rparr>"
| "apply_event (NickUngrouped nick) s = s\<lparr>grouped := (grouped s)(key nick := None)\<rparr>"
| "apply_event (ChannelEvent e) s = s\<lparr>channels := apply_channel e (channels s)\<rparr>"
| "apply_event (BotAdded b) s = s\<lparr>bots := (bots s)(key (b_nick b) \<mapsto> b)\<rparr>"
| "apply_event (BotRemoved nick) s =
     s\<lparr>bots := (bots s)(key nick := None),
       net := (if n_default_bot (net s) = Some (key nick)
               then (net s)\<lparr>n_default_bot := None\<rparr> else net s)\<rparr>"
| "apply_event (DefaultBotSet b) s =
     s\<lparr>net := (net s)\<lparr>n_default_bot := map_option key b\<rparr>\<rparr>"
| "apply_event (HostEvent e) s = s\<lparr>host_cfg := apply_host e (host_cfg s)\<rparr>"
| "apply_event (NetEvent e) s = s\<lparr>net := apply_net e (net s)\<rparr>"

definition replay :: "event list \<Rightarrow> store \<Rightarrow> store" where
  "replay = fold apply_event"

lemma replay_simps [simp]:
  "replay [] s = s"
  "replay (e # es) s = replay es (apply_event e s)"
  "replay (es @ fs) s = replay fs (replay es s)"
  by (simp_all add: replay_def)

end
