(* ===== verification/Wellformed.thy ===== *)
theory Wellformed
  imports Fold
begin

text \<open>
  The well-formedness the fold keeps by construction: every map entry sits under the folded
  form of its own name, every keyed list holds each key once, and the id counters are ahead of
  the ids in use. \<open>apply_event\<close> preserves it for any event, so every replayed store has it.
\<close>

definition wf_channel :: "channel_info \<Rightarrow> bool" where
  "wf_channel c \<longleftrightarrow> distinct (map (\<lambda>a. key (ca_account a)) (c_access c)) \<and>
     distinct (map (\<lambda>a. key (ak_mask a)) (c_akick c)) \<and>
     distinct (map (\<lambda>e. key (fst e)) (c_levels c))"

definition wf_group :: "group_rec \<Rightarrow> bool" where
  "wf_group g \<longleftrightarrow> distinct (map (\<lambda>m. key (gm_account m)) (g_members g))"

definition wf_bans :: "net_data \<Rightarrow> bool" where
  "wf_bans n \<longleftrightarrow> distinct (map akill_key (n_akills n)) \<and>
     distinct (map (\<lambda>f. key (fi_pattern f)) (n_filters n)) \<and>
     distinct (map forbid_key (n_forbids n)) \<and>
     distinct (map (\<lambda>x. key (nt_mask x)) (n_notifies n)) \<and>
     distinct (map (\<lambda>x. key (se_mask x)) (n_sess_exceptions n)) \<and>
     distinct (map (\<lambda>j. key (ju_name j)) (n_jupes n))"

definition wf_queues :: "net_data \<Rightarrow> bool" where
  "wf_queues n \<longleftrightarrow> distinct (map nw_id (n_news n)) \<and> (\<forall>x \<in> set (n_news n). nw_id x < n_news_seq n) \<and>
     distinct (map rp_id (n_reports n)) \<and> (\<forall>x \<in> set (n_reports n). rp_id x < n_report_seq n) \<and>
     distinct (map ht_id (n_help n)) \<and> (\<forall>x \<in> set (n_help n). ht_id x < n_help_seq n)"

definition wf_groups :: "net_data \<Rightarrow> bool" where
  "wf_groups n \<longleftrightarrow> distinct (map (\<lambda>g. key (g_name g)) (n_groups n)) \<and>
     (\<forall>g \<in> set (n_groups n). wf_group g)"

definition wf_net :: "net_data \<Rightarrow> bool" where
  "wf_net n \<longleftrightarrow> wf_bans n \<and> wf_queues n \<and> wf_groups n \<and>
     (\<forall>k. n_opers n k \<noteq> None \<longrightarrow> key k = k) \<and>
     (\<forall>k. n_default_bot n = Some k \<longrightarrow> key k = k)"

definition wf_store :: "store \<Rightarrow> bool" where
  "wf_store s \<longleftrightarrow> keyed_by a_name (accounts s) \<and> keyed_by c_name (channels s) \<and>
     keyed_by b_nick (bots s) \<and> (\<forall>k. grouped s k \<noteq> None \<longrightarrow> key k = k) \<and>
     (\<forall>k c. channels s k = Some c \<longrightarrow> wf_channel c) \<and> wf_net (net s) \<and>
     distinct (hc_offers (host_cfg s)) \<and> distinct (hc_forbidden (host_cfg s))"

lemma wf_store_empty: "wf_store store_empty"
  by (simp add: wf_store_def store_empty_def net_default_def host_default_def wf_net_def
      wf_bans_def wf_queues_def wf_groups_def)

subsection \<open>Accounts, channels and hosts\<close>

lemma keyed_by_apply_account: "keyed_by a_name m \<Longrightarrow> keyed_by a_name (apply_account e m)"
  by (cases e)
    (auto simp: Let_def intro!: keyed_by_modify keyed_by_upd split: option.splits)

lemma keyed_by_apply_channel: "keyed_by c_name m \<Longrightarrow> keyed_by c_name (apply_channel e m)"
  by (cases e)
    (auto simp: new_channel_def intro!: keyed_by_modify keyed_by_upd keyed_by_remove
      split: option.splits)

text \<open>A property of single channels that every channel edit keeps.\<close>

definition each :: "('v \<Rightarrow> bool) \<Rightarrow> ('k \<rightharpoonup> 'v) \<Rightarrow> bool" where
  "each P m \<longleftrightarrow> (\<forall>k v. m k = Some v \<longrightarrow> P v)"

lemma each_empty [simp]: "each P Map.empty"
  by (simp add: each_def)

lemma each_upd: "each P m \<Longrightarrow> P v \<Longrightarrow> each P (m(k \<mapsto> v))"
  by (auto simp: each_def)

lemma each_remove: "each P m \<Longrightarrow> each P (m(k := None))"
  by (auto simp: each_def)

lemma each_modify: "each P m \<Longrightarrow> (\<And>v. P v \<Longrightarrow> P (f v)) \<Longrightarrow> each P (modify k f m)"
  by (auto simp: each_def modify_apply split: if_splits)

lemma each_map_option: "each P m \<Longrightarrow> (\<And>v. P v \<Longrightarrow> P (f v)) \<Longrightarrow> each P (\<lambda>k. map_option f (m k))"
  by (auto simp: each_def)

lemma eachD: "each P m \<Longrightarrow> m k = Some v \<Longrightarrow> P v"
  by (simp add: each_def)

lemma each_apply_channel:
  assumes "each wf_channel m"
  shows "each wf_channel (apply_channel e m)"
proof (cases e)
  case (ChannelRenamed old new)
  with assms show ?thesis
    by (auto simp: each_def wf_channel_def split: option.splits)
qed (use assms in \<open>auto simp: wf_channel_def new_channel_def access_list.add_distinct
      access_list.del_distinct akick_list.add_distinct akick_list.del_distinct
      level_list.add_distinct level_list.del_distinct intro!: each_modify each_upd each_remove\<close>)

lemma distinct_apply_host:
  "distinct (hc_offers h) \<and> distinct (hc_forbidden h) \<Longrightarrow>
   distinct (hc_offers (apply_host e h)) \<and> distinct (hc_forbidden (apply_host e h))"
  using push_new_list.add_distinct [of "hc_offers h"] push_new_list.add_distinct [of "hc_forbidden h"]
  by (cases e) simp_all

subsection \<open>The network lists\<close>

lemmas wf_net_defs = wf_net_def wf_bans_def wf_queues_def wf_groups_def

lemmas keyed_distinct =
  akill_list.add_distinct akill_list.del_distinct filter_list.add_distinct filter_list.del_distinct
  forbid_list.add_distinct forbid_list.del_distinct notify_list.add_distinct
  notify_list.del_distinct session_list.add_distinct session_list.del_distinct
  member_list.add_distinct member_list.del_distinct

lemma distinct_filter_map: "distinct (map f xs) \<Longrightarrow> distinct (map f (filter p xs))"
  by (simp add: distinct_map_filter)

lemma wf_bans_cong:
  "n_akills n' = n_akills n \<Longrightarrow> n_filters n' = n_filters n \<Longrightarrow> n_forbids n' = n_forbids n \<Longrightarrow>
   n_notifies n' = n_notifies n \<Longrightarrow> n_sess_exceptions n' = n_sess_exceptions n \<Longrightarrow>
   n_jupes n' = n_jupes n \<Longrightarrow> wf_bans n' = wf_bans n"
  by (simp add: wf_bans_def)

lemma wf_bans_apply:
  assumes "wf_bans n"
  shows "wf_bans (apply_net e n)"
proof (cases e)
  case (JupeAdded name sid reason)
  then show ?thesis
    using assms by (auto simp: wf_bans_def eq_ignore_ascii_case_def)
qed (use assms in \<open>auto simp: wf_bans_def keyed_distinct distinct_filter_map\<close>)

lemma find_update_in: "y \<in> set (find_update p f xs) \<Longrightarrow> y \<in> set xs \<or> (\<exists>x \<in> set xs. p x \<and> y = f x)"
  by (induction xs) (auto split: if_splits)

lemma find_update_ball:
  "\<forall>x \<in> set xs. P x \<Longrightarrow> (\<And>x. P x \<Longrightarrow> P (f x)) \<Longrightarrow> \<forall>x \<in> set (find_update p f xs). P x"
  using find_update_in by fastforce

lemma wf_queues_apply:
  assumes "wf_queues n"
  shows "wf_queues (apply_net e n)"
  using assms
  by (cases e)
    (auto simp: wf_queues_def map_find_update distinct_filter_map news_list.add_distinct
      report_list.add_distinct help_list.add_distinct news_put_def report_put_def help_put_def
      dest!: find_update_in)

lemma map_find_update_at:
  "(\<And>x. p x \<Longrightarrow> g (f x) = g x) \<Longrightarrow> map g (find_update p f xs) = map g xs"
  by (induction xs) auto

lemma group_register_names:
  "distinct (map (\<lambda>g. key (g_name g)) gs) \<Longrightarrow>
   distinct (map (\<lambda>g. key (g_name g)) (group_register_fold claim gs))"
  by (auto simp: group_register_fold_def map_find_update_at)

lemma wf_groups_apply:
  assumes "wf_groups n"
  shows "wf_groups (apply_net e n)"
proof -
  have d: "distinct (map (\<lambda>g. key (g_name g)) (n_groups n))" "\<forall>g \<in> set (n_groups n). wf_group g"
    using assms by (simp_all add: wf_groups_def)
  have on: "distinct (map (\<lambda>g. key (g_name g)) (on_group name f (n_groups n))) \<and>
      (\<forall>g \<in> set (on_group name f (n_groups n)). wf_group g)"
    if "\<And>g. g_name (f g) = g_name g" "\<And>g. wf_group g \<Longrightarrow> wf_group (f g)" for name f
    using d that find_update_ball [of "n_groups n" wf_group f]
    by (simp add: on_group_def map_find_update)
  have claim: "\<forall>g \<in> set (group_register_fold c (n_groups n)). wf_group g" if "g_members c = []" for c
    using d that by (auto simp: group_register_fold_def wf_group_def dest!: find_update_in)
  show ?thesis
  proof (cases e)
    case (GroupRegistered name founder ts home)
    with d(1) claim [of "\<lparr>g_name = name, g_founder = founder, g_ts = ts, g_home = home, g_members = []\<rparr>"]
    show ?thesis by (simp only: wf_groups_def apply_net.simps) (simp add: group_register_names)
  next
    case (GroupFounderSet name founder)
    with on [of "\<lambda>g. g\<lparr>g_founder := founder\<rparr>" name] show ?thesis
      by (simp add: wf_groups_def wf_group_def)
  next
    case (GroupFlagsSet name acct flags)
    with on [of "\<lambda>g. g\<lparr>g_members := member_put \<lparr>gm_account = acct, gm_flags = flags\<rparr>
        (g_members g)\<rparr>" name] show ?thesis
      by (simp add: wf_groups_def wf_group_def keyed_distinct)
  next
    case (GroupMemberDel name acct)
    with on [of "\<lambda>g. g\<lparr>g_members := member_del_key acct (g_members g)\<rparr>" name] show ?thesis
      by (simp add: wf_groups_def wf_group_def keyed_distinct)
  qed (use d in \<open>simp_all add: wf_groups_def distinct_filter_map\<close>)
qed

lemma wf_net_apply:
  assumes "wf_net n"
  shows "wf_net (apply_net e n)"
proof -
  have "(\<forall>k. n_opers (apply_net e n) k \<noteq> None \<longrightarrow> key k = k) \<and>
      (\<forall>k. n_default_bot (apply_net e n) = Some k \<longrightarrow> key k = k)"
    using assms by (cases e) (auto simp: wf_net_def)
  with assms show ?thesis
    unfolding wf_net_def by (blast intro: wf_bans_apply wf_queues_apply wf_groups_apply)
qed

subsection \<open>The whole store\<close>

lemma wf_channel_purge: "wf_channel c \<Longrightarrow> wf_channel (purge_channel acct c)"
  by (auto simp: purge_channel_def wf_channel_def Let_def access_list.del_distinct split: option.split)

lemma c_name_purge: "c_name (purge_channel acct c) = c_name c"
  by (simp add: purge_channel_def Let_def split: option.split)

lemma wf_groups_purge:
  assumes "wf_groups n"
  shows "wf_groups (n\<lparr>n_groups := purge_groups acct (n_groups n)\<rparr>)"
  using assms
  by (auto simp: wf_groups_def purge_groups_def wf_group_def keyed_distinct comp_def
      intro!: distinct_filter_map)

lemma wf_store_each:
  "wf_store s \<longleftrightarrow> keyed_by a_name (accounts s) \<and> keyed_by c_name (channels s) \<and>
     keyed_by b_nick (bots s) \<and> (\<forall>k. grouped s k \<noteq> None \<longrightarrow> key k = k) \<and>
     each wf_channel (channels s) \<and> wf_net (net s) \<and>
     distinct (hc_offers (host_cfg s)) \<and> distinct (hc_forbidden (host_cfg s))"
  by (simp add: wf_store_def each_def)

lemma wf_purge_account_refs:
  assumes "wf_store s"
  shows "wf_store (purge_account_refs acct s)"
proof -
  have "wf_net ((net s)\<lparr>n_groups := purge_groups acct (n_groups (net s))\<rparr>)"
    using assms wf_groups_purge [of "net s"]
    by (auto simp: wf_store_each wf_net_def wf_bans_def wf_queues_def)
  with assms show ?thesis
    by (auto simp: wf_store_each purge_account_refs_def purge_grouped_def c_name_purge
        intro!: keyed_by_map_option each_map_option wf_channel_purge split: option.splits if_splits)
qed

lemma wf_apply_event:
  assumes "wf_store s"
  shows "wf_store (apply_event e s)"
proof (cases e)
  case (AccountDropped acct)
  have "wf_store (s\<lparr>accounts := (accounts s)(key acct := None)\<rparr>)"
    using assms by (simp add: wf_store_each keyed_by_remove)
  with AccountDropped show ?thesis by (simp add: wf_purge_account_refs)
next
  case (BotRemoved nick)
  with assms show ?thesis
    by (auto simp: wf_store_each wf_net_defs intro!: keyed_by_remove)
next
  case (DefaultBotSet b)
  with assms show ?thesis by (auto simp: wf_store_each wf_net_defs)
qed (use assms in \<open>auto simp: wf_store_each keyed_by_apply_account keyed_by_apply_channel
    each_apply_channel distinct_apply_host wf_net_apply intro!: keyed_by_upd\<close>)

lemma wf_replay: "wf_store s \<Longrightarrow> wf_store (replay es s)"
  by (induction es arbitrary: s) (simp_all add: wf_apply_event)

end
