(* ===== verification/Log.thy ===== *)
theory Log
  imports Fold
begin

text \<open>
  The append-only event log (\<^verbatim>\<open>LogEntry\<close>, \<^verbatim>\<open>EventLog\<close>, \<^verbatim>\<open>cursor_newer\<close> in
  src/src/engine/db/mod.rs and \<^verbatim>\<open>Signing\<close> in src/src/engine/db/sign.rs): local appends, the
  gossip seam \<open>log_ingest\<close>, the version vector, compaction and reopening.

  The file is modelled by the entries on its lines (\<open>l_disk\<close>); the JSON encoding and the file
  system are outside the model. Each write takes the next outcome of \<open>l_io\<close>, the behaviour of
  the disk: written, refused before anything was written, or written with the final \<^verbatim>\<open>fsync\<close>
  failing (the line is there, the call reports an error). No outcome left means every write
  succeeds. Ed25519 is the parameter pair \<open>sg_sign\<close>, \<open>sg_verify\<close> of \<open>signing\<close>.
\<close>

datatype write_outcome = Written | Refused | Unsynced

datatype io_error = PermissionDenied | WriteFailed

record log_entry =
  le_origin :: string
  le_seq :: nat
  le_lamport :: nat
  le_epoch :: nat
  le_sig :: "string option"
  le_event :: event

type_synonym cursor = "nat \<times> nat"
type_synonym payload = "string \<times> nat \<times> nat \<times> nat \<times> event"

text \<open>A node's signer, the keys it trusts by origin, and the verifier.\<close>

record signing =
  sg_sign :: "payload \<Rightarrow> string"
  sg_trust :: "string \<rightharpoonup> string"
  sg_verify :: "string \<Rightarrow> payload \<Rightarrow> string \<Rightarrow> bool"

definition signing_verify :: "signing \<Rightarrow> log_entry \<Rightarrow> bool" where
  "signing_verify g e =
     (case sg_trust g (le_origin e) of
        None \<Rightarrow> False
      | Some vk \<Rightarrow> (case le_sig e of
          None \<Rightarrow> False
        | Some s \<Rightarrow> sg_verify g vk
            (le_origin e, le_epoch e, le_seq e, le_lamport e, le_event e) s))"

record event_log =
  l_origin :: string
  l_lamport :: nat
  l_epoch :: nat
  l_versions :: "string \<rightharpoonup> cursor"
  l_entries :: "log_entry list"
  l_outbound :: "log_entry list option"
  l_readonly :: bool
  l_signing :: "signing option"
  l_disk :: "log_entry list"
  l_io :: "write_outcome list"

text \<open>Is \<open>incoming\<close> strictly newer than \<open>have\<close>? The epoch dominates, then the sequence number.\<close>

fun cursor_newer :: "cursor \<Rightarrow> cursor \<Rightarrow> bool" where
  "cursor_newer (he, hs) (ie, iseq) \<longleftrightarrow> ie > he \<or> ie = he \<and> iseq > hs"

definition entry_cursor :: "log_entry \<Rightarrow> cursor" where
  "entry_cursor e = (le_epoch e, le_seq e)"

definition entry_global :: "log_entry \<Rightarrow> bool" where
  "entry_global e \<longleftrightarrow> scope (le_event e) = Global"

subsection \<open>Operations\<close>

definition absorb :: "log_entry \<Rightarrow> event_log \<Rightarrow> event_log" where
  "absorb e l =
     (let l1 = (if le_origin e = l_origin l
                then l\<lparr>l_epoch := max (l_epoch l) (le_epoch e)\<rparr> else l)
      in if \<not> entry_global e then l1
         else l1\<lparr>l_lamport := max (l_lamport l1) (le_lamport e),
                 l_versions := (case l_versions l1 (le_origin e) of
                    None \<Rightarrow> (l_versions l1)(le_origin e \<mapsto> entry_cursor e)
                  | Some c \<Rightarrow> if cursor_newer c (entry_cursor e)
                              then (l_versions l1)(le_origin e \<mapsto> entry_cursor e)
                              else l_versions l1)\<rparr>)"

definition log_empty :: "string \<Rightarrow> event_log" where
  "log_empty origin = \<lparr>l_origin = origin, l_lamport = 0, l_epoch = 0, l_versions = Map.empty,
     l_entries = [], l_outbound = None, l_readonly = False, l_signing = None, l_disk = [],
     l_io = []\<rparr>"

text \<open>\<^verbatim>\<open>EventLog::open\<close>: read the file's entries and absorb each; the events are replayed by the
  caller.\<close>

definition log_open :: "log_entry list \<Rightarrow> string \<Rightarrow> event_log" where
  "log_open lines origin =
     fold (\<lambda>e l. (absorb e l)\<lparr>l_entries := l_entries l @ [e]\<rparr>) lines
       ((log_empty origin)\<lparr>l_disk := lines\<rparr>)"

definition next_seq :: "event_log \<Rightarrow> nat" where
  "next_seq l = (case l_versions l (l_origin l) of
      Some (e, s) \<Rightarrow> if e = l_epoch l then s + 1 else 0
    | None \<Rightarrow> 0)"

fun persist :: "log_entry \<Rightarrow> event_log \<Rightarrow> bool \<times> event_log" where
  "persist e l =
     (case l_io l of
        [] \<Rightarrow> (True, l\<lparr>l_disk := l_disk l @ [e]\<rparr>)
      | Written # r \<Rightarrow> (True, l\<lparr>l_disk := l_disk l @ [e], l_io := r\<rparr>)
      | Refused # r \<Rightarrow> (False, l\<lparr>l_io := r\<rparr>)
      | Unsynced # r \<Rightarrow> (False, l\<lparr>l_disk := l_disk l @ [e], l_io := r\<rparr>))"

declare persist.simps [simp del]

definition log_notify :: "log_entry \<Rightarrow> event_log \<Rightarrow> event_log" where
  "log_notify e l = (case l_outbound l of
      None \<Rightarrow> l
    | Some sent \<Rightarrow> l\<lparr>l_outbound := Some (sent @ [e])\<rparr>)"

definition sign_entry :: "event_log \<Rightarrow> nat \<Rightarrow> nat \<Rightarrow> event \<Rightarrow> string option" where
  "sign_entry l sq lam ev =
     map_option (\<lambda>g. sg_sign g (l_origin l, l_epoch l, sq, lam, ev)) (l_signing l)"

definition log_append :: "event \<Rightarrow> event_log \<Rightarrow> (io_error + unit) \<times> event_log" where
  "log_append ev l =
     (if l_readonly l then (Inl PermissionDenied, l)
      else let global = (scope ev = Global);
               l1 = (if global then l\<lparr>l_lamport := sat_succ (l_lamport l)\<rparr> else l);
               sq = next_seq l1;
               entry = (if global
                 then \<lparr>le_origin = l_origin l, le_seq = sq, le_lamport = l_lamport l1,
                       le_epoch = l_epoch l, le_sig = sign_entry l1 sq (l_lamport l1) ev,
                       le_event = ev\<rparr>
                 else \<lparr>le_origin = l_origin l, le_seq = 0, le_lamport = 0, le_epoch = 0,
                       le_sig = None, le_event = ev\<rparr>)
           in case persist entry l1 of
                (False, l2) \<Rightarrow> (Inl WriteFailed, l2)
              | (True, l2) \<Rightarrow>
                  let l3 = (if global
                            then l2\<lparr>l_versions := (l_versions l2)(le_origin entry \<mapsto> entry_cursor entry)\<rparr>
                            else l2);
                      l4 = log_notify entry l3
                  in (Inr (), l4\<lparr>l_entries := l_entries l4 @ [entry]\<rparr>))"

text \<open>The in-order acceptance rule: a new origin starts at sequence 0, an entry of the current
  epoch is the next one, and a later epoch starts at 0 again.\<close>

fun accepts :: "cursor option \<Rightarrow> cursor \<Rightarrow> bool" where
  "accepts None (e, s) = (s = 0)"
| "accepts (Some (eb, sb)) (e, s) =
     (if e = eb then s = sb + 1 else if e > eb then s = 0 else False)"

definition log_ingest :: "log_entry \<Rightarrow> event_log \<Rightarrow> (io_error + event option) \<times> event_log" where
  "log_ingest entry l =
     (if \<not> entry_global entry then (Inr None, l)
      else if (case l_signing l of None \<Rightarrow> False | Some g \<Rightarrow> \<not> signing_verify g entry)
      then (Inr None, l)
      else if \<not> accepts (l_versions l (le_origin entry)) (entry_cursor entry)
      then (Inr None, l)
      else case persist entry l of
        (False, l1) \<Rightarrow> (Inl WriteFailed, l1)
      | (True, l1) \<Rightarrow>
          let l2 = l1\<lparr>l_lamport := sat_succ (max (l_lamport l1) (le_lamport entry)),
                      l_versions := (l_versions l1)(le_origin entry \<mapsto> entry_cursor entry)\<rparr>;
              l3 = log_notify entry l2
          in (Inr (Some (le_event entry)), l3\<lparr>l_entries := l_entries l3 @ [entry]\<rparr>))"

definition missing_for :: "event_log \<Rightarrow> (string \<rightharpoonup> cursor) \<Rightarrow> log_entry list" where
  "missing_for l peer =
     filter (\<lambda>e. case peer (le_origin e) of
                   None \<Rightarrow> True
                 | Some h \<Rightarrow> cursor_newer h (entry_cursor e))
       (filter entry_global (l_entries l))"

definition events_from :: "nat \<Rightarrow> event_log \<Rightarrow> event list" where
  "events_from mark l = map le_event (drop mark (l_entries l))"

subsection \<open>Compaction\<close>

text \<open>The snapshot's stamping loop: sequence numbers restart at 0 for the global events, local
  ones carry only the epoch. Returns the entries, the clock and the last global number.\<close>

fun stamp_snapshot ::
  "event_log \<Rightarrow> event list \<Rightarrow> nat \<Rightarrow> nat \<Rightarrow> nat option \<Rightarrow> log_entry list \<times> nat \<times> nat option" where
  "stamp_snapshot l [] sq lam last_global = ([], lam, last_global)"
| "stamp_snapshot l (ev # evs) sq lam last_global =
     (if scope ev = Global
      then let lam' = sat_succ lam;
               (es, lamf, lg) = stamp_snapshot l evs (sq + 1) lam' (Some sq)
           in (\<lparr>le_origin = l_origin l, le_seq = sq, le_lamport = lam', le_epoch = l_epoch l,
                le_sig = sign_entry l sq lam' ev, le_event = ev\<rparr> # es, lamf, lg)
      else let (es, lamf, lg) = stamp_snapshot l evs sq lam last_global
           in (\<lparr>le_origin = l_origin l, le_seq = 0, le_lamport = 0, le_epoch = l_epoch l,
                le_sig = None, le_event = ev\<rparr> # es, lamf, lg))"

definition log_compact :: "event list \<Rightarrow> event_log \<Rightarrow> (io_error + unit) \<times> event_log" where
  "log_compact events l =
     (if events = [] then (Inr (), l)
      else let l1 = l\<lparr>l_epoch := sat_succ (l_epoch l)\<rparr>;
               (snapshot, lam, last_global) = stamp_snapshot l1 events 0 (l_lamport l1) None;
               l2 = l1\<lparr>l_lamport := lam\<rparr>;
               (ok, rest) = (case l_io l of [] \<Rightarrow> (True, []) | w # r \<Rightarrow> (w = Written, r));
               l3 = l2\<lparr>l_io := rest\<rparr>
           in if \<not> ok then (Inl WriteFailed, l3)
              else (Inr (), l3\<lparr>l_disk := snapshot,
                     l_versions := (case last_global of
                        None \<Rightarrow> Map.empty
                      | Some s \<Rightarrow> [l_origin l \<mapsto> (l_epoch l1, s)]),
                     l_entries := snapshot\<rparr>))"

subsection \<open>What the operations leave alone\<close>

lemma persist_simps:
  "persist e l = (ok, l') \<Longrightarrow> l_origin l' = l_origin l \<and> l_lamport l' = l_lamport l \<and>
     l_epoch l' = l_epoch l \<and> l_versions l' = l_versions l \<and> l_entries l' = l_entries l \<and>
     l_outbound l' = l_outbound l \<and> l_readonly l' = l_readonly l \<and> l_signing l' = l_signing l"
  by (auto simp: persist.simps split: list.splits write_outcome.splits)

lemma persist_disk_ok: "persist e l = (True, l') \<Longrightarrow> l_disk l' = l_disk l @ [e]"
  by (auto simp: persist.simps split: list.splits write_outcome.splits)

lemma persist_disk_fail:
  "persist e l = (False, l') \<Longrightarrow> Unsynced \<notin> set (l_io l) \<Longrightarrow> l_disk l' = l_disk l"
  by (auto simp: persist.simps split: list.splits write_outcome.splits)

lemma persist_io: "persist e l = (ok, l') \<Longrightarrow> set (l_io l') \<subseteq> set (l_io l)"
  by (auto simp: persist.simps split: list.splits write_outcome.splits)

lemma persist_total: "l_io l = [] \<Longrightarrow> persist e l = (True, l\<lparr>l_disk := l_disk l @ [e]\<rparr>)"
  by (simp add: persist.simps)

lemma log_notify_simps [simp]:
  "l_origin (log_notify e l) = l_origin l" "l_lamport (log_notify e l) = l_lamport l"
  "l_epoch (log_notify e l) = l_epoch l" "l_versions (log_notify e l) = l_versions l"
  "l_entries (log_notify e l) = l_entries l" "l_readonly (log_notify e l) = l_readonly l"
  "l_signing (log_notify e l) = l_signing l" "l_disk (log_notify e l) = l_disk l"
  "l_io (log_notify e l) = l_io l"
  by (simp_all add: log_notify_def split: option.split)

subsection \<open>Append, as its callers use it\<close>

definition log_events :: "event_log \<Rightarrow> event list" where
  "log_events l = map le_event (l_entries l)"

text \<open>The entry an append authors.\<close>

definition authored :: "event \<Rightarrow> event_log \<Rightarrow> log_entry" where
  "authored ev l =
     (if scope ev = Global
      then \<lparr>le_origin = l_origin l, le_seq = next_seq l, le_lamport = sat_succ (l_lamport l),
            le_epoch = l_epoch l,
            le_sig = sign_entry l (next_seq l) (sat_succ (l_lamport l)) ev, le_event = ev\<rparr>
      else \<lparr>le_origin = l_origin l, le_seq = 0, le_lamport = 0, le_epoch = 0, le_sig = None,
            le_event = ev\<rparr>)"

lemma authored_simps [simp]:
  "le_event (authored ev l) = ev" "le_origin (authored ev l) = l_origin l"
  "entry_global (authored ev l) \<longleftrightarrow> scope ev = Global"
  by (auto simp: authored_def entry_global_def)

lemma next_seq_lamport [simp]: "next_seq (l\<lparr>l_lamport := x\<rparr>) = next_seq l"
  by (simp add: next_seq_def split: option.split)

lemma sign_entry_lamport [simp]: "sign_entry (l\<lparr>l_lamport := x\<rparr>) = sign_entry l"
  by (simp add: sign_entry_def fun_eq_iff)

lemma log_append_alt:
  "log_append ev l =
     (if l_readonly l then (Inl PermissionDenied, l)
      else case persist (authored ev l)
                  (if scope ev = Global then l\<lparr>l_lamport := sat_succ (l_lamport l)\<rparr> else l) of
             (False, l2) \<Rightarrow> (Inl WriteFailed, l2)
           | (True, l2) \<Rightarrow>
               let l3 = (if scope ev = Global
                         then l2\<lparr>l_versions := (l_versions l2)(l_origin l \<mapsto> entry_cursor (authored ev l))\<rparr>
                         else l2);
                   l4 = log_notify (authored ev l) l3
               in (Inr (), l4\<lparr>l_entries := l_entries l4 @ [authored ev l]\<rparr>))"
  by (cases "scope ev = Global")
    (simp_all add: log_append_def authored_def Let_def split: prod.split bool.split)

text \<open>A committed append, and one that was refused by the lockdown or failed to write.\<close>

lemma log_append_ok:
  assumes "log_append ev l = (Inr u, l')"
  shows "\<not> l_readonly l" "l_entries l' = l_entries l @ [authored ev l]"
    "l_disk l' = l_disk l @ [authored ev l]"
    "l_versions l' = (if scope ev = Global
       then (l_versions l)(l_origin l \<mapsto> entry_cursor (authored ev l)) else l_versions l)"
    "l_origin l' = l_origin l" "l_epoch l' = l_epoch l"
    "l_lamport l' = (if scope ev = Global then sat_succ (l_lamport l) else l_lamport l)"
    "l_readonly l' = l_readonly l" "l_signing l' = l_signing l" "set (l_io l') \<subseteq> set (l_io l)"
  using assms
  by (auto simp: log_append_alt Let_def split: if_splits prod.splits bool.splits
      dest: persist_simps persist_disk_ok persist_io [THEN subsetD])

lemma log_append_err:
  assumes "log_append ev l = (Inl x, l')"
  shows "l_entries l' = l_entries l" "l_versions l' = l_versions l" "l_origin l' = l_origin l"
    "l_epoch l' = l_epoch l"
    "l_lamport l' = l_lamport l \<or> l_lamport l' = sat_succ (l_lamport l)"
    "l_readonly l' = l_readonly l" "l_signing l' = l_signing l"
    "Unsynced \<notin> set (l_io l) \<Longrightarrow> l_disk l' = l_disk l" "set (l_io l') \<subseteq> set (l_io l)"
  using assms
  by (auto simp: log_append_alt Let_def split: if_splits prod.splits bool.splits
      dest: persist_simps persist_disk_fail persist_io [THEN subsetD])

text \<open>What the store relies on: a committed append adds exactly its event, a refused or failed
  one adds nothing.\<close>

locale journal =
  fixes append :: "'e \<Rightarrow> 'l \<Rightarrow> ('x + unit) \<times> 'l"
    and events :: "'l \<Rightarrow> 'e list"
    and fold_one :: "'e \<Rightarrow> 's \<Rightarrow> 's"
    and initial :: 's
  assumes append_ok: "append e l = (Inr u, l') \<Longrightarrow> events l' = events l @ [e]"
    and append_err: "append e l = (Inl x, l') \<Longrightarrow> events l' = events l"
begin

definition in_step :: "'s \<Rightarrow> 'l \<Rightarrow> bool" where
  "in_step s l \<longleftrightarrow> s = fold fold_one (events l) initial"

lemma in_step_commit:
  "in_step s l \<Longrightarrow> append e l = (Inr u, l') \<Longrightarrow> in_step (fold_one e s) l'"
  by (simp add: in_step_def append_ok)

lemma in_step_refused: "in_step s l \<Longrightarrow> append e l = (Inl x, l') \<Longrightarrow> in_step s l'"
  by (simp add: in_step_def append_err)

lemma in_step_unique: "in_step s l \<Longrightarrow> in_step t l \<Longrightarrow> s = t"
  by (simp add: in_step_def)

end

interpretation event_journal: journal log_append log_events apply_event store_empty
proof unfold_locales
  fix e l u l'
  assume "log_append e l = (Inr u, l')"
  then show "log_events l' = log_events l @ [e]"
    by (simp add: log_append_ok log_events_def)
next
  fix e l x l'
  assume "log_append e l = (Inl x, l')"
  then show "log_events l' = log_events l"
    by (simp add: log_append_err log_events_def)
qed

end
