(* ===== verification/Replication.thy ===== *)
theory Replication
  imports Log
begin

text \<open>
  What the log and its version vector guarantee: the entries of every origin form an unbroken
  chain of cursors, the version vector is the end of each chain, a restart recovers both from
  the file, re-delivery and gaps are refused, and one gossip round (\<open>missing_for\<close> on one node,
  \<open>log_ingest\<close> of the result on the other) brings the receiver up to the sender's vector.
\<close>

subsection \<open>Cursor chains\<close>

lemma cursor_newer_irrefl [simp]: "\<not> cursor_newer c c"
  by (cases c) simp

lemma cursor_newer_trans: "cursor_newer a b \<Longrightarrow> cursor_newer b c \<Longrightarrow> cursor_newer a c"
  by (cases a; cases b; cases c) auto

lemma cursor_newer_total: "a = b \<or> cursor_newer a b \<or> cursor_newer b a"
  by (cases a; cases b) auto

lemma accepts_newer: "accepts (Some h) c \<Longrightarrow> cursor_newer h c"
  by (cases h; cases c) (auto split: if_splits)

fun chain :: "cursor option \<Rightarrow> cursor list \<Rightarrow> bool" where
  "chain cur [] = True"
| "chain cur (c # cs) = (accepts cur c \<and> chain (Some c) cs)"

definition last_cursor :: "cursor option \<Rightarrow> cursor list \<Rightarrow> cursor option" where
  "last_cursor h cs = (if cs = [] then h else Some (last cs))"

lemma last_cursor_simps [simp]:
  "last_cursor h [] = h" "last_cursor h (c # cs) = last_cursor (Some c) cs"
  "last_cursor h (cs @ [c]) = Some c"
  by (simp_all add: last_cursor_def)

lemma chain_append:
  "chain h (cs @ ds) \<longleftrightarrow> chain h cs \<and> chain (last_cursor h cs) ds"
  by (induction cs arbitrary: h) auto

lemma chain_newer: "chain (Some h) cs \<Longrightarrow> c \<in> set cs \<Longrightarrow> cursor_newer h c"
proof (induction cs arbitrary: h)
  case (Cons d ds)
  then show ?case using accepts_newer cursor_newer_trans by (metis chain.simps(2) set_ConsD)
qed simp

definition of_origin :: "string \<Rightarrow> log_entry \<Rightarrow> bool" where
  "of_origin org e \<longleftrightarrow> entry_global e \<and> le_origin e = org"

definition cursors_of :: "string \<Rightarrow> log_entry list \<Rightarrow> cursor list" where
  "cursors_of org es = map entry_cursor (filter (of_origin org) es)"

lemma cursors_of_simps [simp]:
  "cursors_of org [] = []"
  "cursors_of org (e # es) = (if of_origin org e then entry_cursor e # cursors_of org es else cursors_of org es)"
  "cursors_of org (es @ fs) = cursors_of org es @ cursors_of org fs"
  by (simp_all add: cursors_of_def)

subsection \<open>The log invariant\<close>

definition log_ok :: "event_log \<Rightarrow> bool" where
  "log_ok l \<longleftrightarrow>
     (\<forall>org. chain None (cursors_of org (l_entries l))) \<and>
     (\<forall>org. l_versions l org = last_cursor None (cursors_of org (l_entries l))) \<and>
     (\<forall>e \<in> set (l_entries l). le_origin e = l_origin l \<longrightarrow> le_epoch e \<le> l_epoch l) \<and>
     (\<forall>e \<in> set (l_entries l). entry_global e \<longrightarrow> le_lamport e \<le> l_lamport l) \<and>
     l_lamport l \<le> u64_max \<and> l_epoch l \<le> u64_max \<and> l_disk l = l_entries l"

lemma log_okD:
  assumes "log_ok l"
  shows "chain None (cursors_of org (l_entries l))"
    "l_versions l org = last_cursor None (cursors_of org (l_entries l))"
    "e \<in> set (l_entries l) \<Longrightarrow> le_origin e = l_origin l \<Longrightarrow> le_epoch e \<le> l_epoch l"
    "e \<in> set (l_entries l) \<Longrightarrow> entry_global e \<Longrightarrow> le_lamport e \<le> l_lamport l"
    "l_lamport l \<le> u64_max" "l_disk l = l_entries l" "l_epoch l \<le> u64_max"
  using assms by (auto simp: log_ok_def)

lemma log_ok_empty: "log_ok (log_empty origin)"
  by (simp add: log_ok_def log_empty_def u64_max_def)

lemma last_cursor_in: "last_cursor None cs = Some c \<Longrightarrow> c \<in> set cs"
  by (auto simp: last_cursor_def split: if_splits)

text \<open>The next cursor this node authors continues its own chain.\<close>

lemma next_cursor_accepted:
  assumes "log_ok l"
  shows "accepts (l_versions l (l_origin l)) (l_epoch l, next_seq l)"
proof (cases "l_versions l (l_origin l)")
  case None
  then show ?thesis by (simp add: next_seq_def)
next
  case (Some c)
  then obtain e s where c: "c = (e, s)" by (cases c) auto
  from Some log_okD(2) [OF assms] have "c \<in> set (cursors_of (l_origin l) (l_entries l))"
    by (metis last_cursor_in)
  then have "e \<le> l_epoch l"
    using log_okD(3) [OF assms] c by (auto simp: cursors_of_def of_origin_def entry_cursor_def)
  with Some c show ?thesis by (auto simp: next_seq_def)
qed

lemma authored_cursor: "scope ev = Global \<Longrightarrow> entry_cursor (authored ev l) = (l_epoch l, next_seq l)"
  by (simp add: authored_def entry_cursor_def)

text \<open>Adding an accepted entry at the end, the shape of every append and ingest.\<close>

lemma log_ok_add:
  assumes ok: "log_ok l"
    and acc: "entry_global e \<Longrightarrow> accepts (l_versions l (le_origin e)) (entry_cursor e)"
    and es: "l_entries l' = l_entries l @ [e]" and dk: "l_disk l' = l_disk l @ [e]"
    and vs: "l_versions l' = (if entry_global e
               then (l_versions l)(le_origin e \<mapsto> entry_cursor e) else l_versions l)"
    and own: "l_origin l' = l_origin l" "l_epoch l' = l_epoch l"
      "le_origin e = l_origin l \<Longrightarrow> le_epoch e \<le> l_epoch l"
    and lam: "l_lamport l \<le> l_lamport l'" "entry_global e \<Longrightarrow> le_lamport e \<le> l_lamport l'"
      "l_lamport l' \<le> u64_max"
  shows "log_ok l'"
  unfolding log_ok_def
proof (intro conjI allI ballI impI)
  fix org
  show "chain None (cursors_of org (l_entries l'))"
    using acc log_okD(1,2) [OF ok, of org] by (auto simp: es chain_append of_origin_def)
  show "l_versions l' org = last_cursor None (cursors_of org (l_entries l'))"
    using log_okD(2) [OF ok, of org] by (auto simp: es vs of_origin_def)
next
  fix x assume x: "x \<in> set (l_entries l')"
  show "le_origin x = l_origin l' \<Longrightarrow> le_epoch x \<le> l_epoch l'"
    using x own log_okD(3) [OF ok, of x] by (auto simp: es)
  show "entry_global x \<Longrightarrow> le_lamport x \<le> l_lamport l'"
    using x lam log_okD(4) [OF ok, of x] by (auto simp: es)
next
  show "l_lamport l' \<le> u64_max" by (rule lam(3))
  show "l_epoch l' \<le> u64_max" by (simp add: own log_okD(7) [OF ok])
  show "l_disk l' = l_entries l'" by (simp add: es dk log_okD(6) [OF ok])
qed

lemma log_ok_cong:
  assumes "log_ok l" "l_entries l' = l_entries l" "l_versions l' = l_versions l"
    "l_origin l' = l_origin l" "l_epoch l \<le> l_epoch l'" "l_lamport l \<le> l_lamport l'"
    "l_lamport l' \<le> u64_max" "l_disk l' = l_disk l"
    and ep: "l_epoch l' = l_epoch l \<or> l_epoch l' \<le> u64_max"
  shows "log_ok l'"
proof -
  have "l_epoch l' \<le> u64_max" using ep log_okD(7) [OF assms(1)] by auto
  with assms show ?thesis unfolding log_ok_def by (metis le_trans)
qed

lemma log_ok_append:
  assumes ok: "log_ok l" and ap: "log_append ev l = (r, l')" and io: "Unsynced \<notin> set (l_io l)"
  shows "log_ok l'"
proof (cases r)
  case (Inl x)
  note f = log_append_err [OF ap [unfolded Inl]]
  have "l_lamport l \<le> sat_succ (l_lamport l)" "l_lamport l \<le> u64_max"
    using log_okD(5) [OF ok] by (auto intro: sat_succ_ge)
  then show ?thesis
    using f io sat_succ_le [of "l_lamport l"] by (intro log_ok_cong [OF ok]) auto
next
  case (Inr u)
  note f = log_append_ok [OF ap [unfolded Inr]]
  have lam: "l_lamport l \<le> sat_succ (l_lamport l)" "l_lamport l \<le> u64_max"
    using log_okD(5) [OF ok] by (auto intro: sat_succ_ge)
  show ?thesis
  proof (rule log_ok_add [OF ok, of "authored ev l"])
    show "entry_global (authored ev l) \<Longrightarrow>
        accepts (l_versions l (le_origin (authored ev l))) (entry_cursor (authored ev l))"
      using next_cursor_accepted [OF ok] by (simp add: authored_cursor)
    show "le_epoch (authored ev l) \<le> l_epoch l" by (simp add: authored_def)
    show "entry_global (authored ev l) \<Longrightarrow> le_lamport (authored ev l) \<le> l_lamport l'"
      by (simp add: f authored_def)
  qed (use f lam sat_succ_le in \<open>auto split: if_splits\<close>)
qed

lemma log_ingest_Some:
  assumes "log_ingest e l = (Inr (Some ev), l')"
  shows "entry_global e" "accepts (l_versions l (le_origin e)) (entry_cursor e)" "ev = le_event e"
    "l_entries l' = l_entries l @ [e]" "l_disk l' = l_disk l @ [e]"
    "l_versions l' = (l_versions l)(le_origin e \<mapsto> entry_cursor e)"
    "l_origin l' = l_origin l" "l_epoch l' = l_epoch l"
    "l_lamport l' = sat_succ (max (l_lamport l) (le_lamport e))"
    "l_signing l' = l_signing l" "set (l_io l') \<subseteq> set (l_io l)"
    "\<And>g. l_signing l = Some g \<Longrightarrow> signing_verify g e"
  using assms
  by (auto simp: log_ingest_def Let_def split: if_splits prod.splits bool.splits option.splits
      dest: persist_simps persist_disk_ok persist_io [THEN subsetD])

lemma log_ingest_None: "log_ingest e l = (Inr None, l') \<Longrightarrow> l' = l"
  by (auto simp: log_ingest_def Let_def split: if_splits prod.splits bool.splits)

lemma log_ingest_err:
  assumes "log_ingest e l = (Inl x, l')"
  shows "l_entries l' = l_entries l" "l_versions l' = l_versions l" "l_origin l' = l_origin l"
    "l_epoch l' = l_epoch l" "l_lamport l' = l_lamport l"
    "Unsynced \<notin> set (l_io l) \<Longrightarrow> l_disk l' = l_disk l"
  using assms
  by (auto simp: log_ingest_def Let_def split: if_splits prod.splits bool.splits
      dest: persist_simps persist_disk_fail)

lemma log_ok_ingest:
  assumes ok: "log_ok l" and ig: "log_ingest e l = (r, l')" and io: "Unsynced \<notin> set (l_io l)"
    and foreign: "le_origin e \<noteq> l_origin l" and u64: "le_lamport e \<le> u64_max"
  shows "log_ok l'"
proof (cases r)
  case (Inl x)
  note f = log_ingest_err [OF ig [unfolded Inl]]
  show ?thesis using f io log_okD(5) [OF ok] by (intro log_ok_cong [OF ok]) auto
next
  case r: (Inr u)
  show ?thesis
  proof (cases u)
    case None
    with ig r have "l' = l" by (auto dest: log_ingest_None)
    with ok show ?thesis by simp
  next
    case (Some ev)
    note f = log_ingest_Some [OF ig [unfolded r Some]]
    have "max (l_lamport l) (le_lamport e) \<le> sat_succ (max (l_lamport l) (le_lamport e))"
      using log_okD(5) [OF ok] u64 by (intro sat_succ_ge) simp
    then show ?thesis
      using f foreign sat_succ_le by (intro log_ok_add [OF ok, of e]) auto
  qed
qed

subsection \<open>Compaction\<close>

lemma stamp_snapshot_ok:
  assumes "stamp_snapshot l evs sq lam lg = (es, lam', lg')"
    and "accepts h (l_epoch l, sq)" and "h = map_option (Pair (l_epoch l)) lg" and "lam \<le> u64_max"
  shows "map le_event es = evs \<and> chain h (cursors_of (l_origin l) es) \<and>
     last_cursor h (cursors_of (l_origin l) es) = map_option (Pair (l_epoch l)) lg' \<and>
     (\<forall>e \<in> set es. le_origin e = l_origin l \<and> le_epoch e = l_epoch l \<and>
        (entry_global e \<longrightarrow> le_lamport e \<le> lam')) \<and> lam \<le> lam' \<and> lam' \<le> u64_max"
  using assms
proof (induction l evs sq lam lg arbitrary: es lam' lg' h rule: stamp_snapshot.induct)
  case (1 l sq lam lg)
  then show ?case by simp
next
  case (2 l ev evs sq lam lg)
  show ?case
  proof (cases "scope ev = Global")
    case True
    obtain fs lamf lgf where st: "stamp_snapshot l evs (sq + 1) (sat_succ lam) (Some sq) = (fs, lamf, lgf)"
      by (cases "stamp_snapshot l evs (sq + 1) (sat_succ lam) (Some sq)")
    have IH: "map le_event fs = evs \<and> chain (Some (l_epoch l, sq)) (cursors_of (l_origin l) fs) \<and>
       last_cursor (Some (l_epoch l, sq)) (cursors_of (l_origin l) fs) = map_option (Pair (l_epoch l)) lgf \<and>
       (\<forall>e \<in> set fs. le_origin e = l_origin l \<and> le_epoch e = l_epoch l \<and>
          (entry_global e \<longrightarrow> le_lamport e \<le> lamf)) \<and> sat_succ lam \<le> lamf \<and> lamf \<le> u64_max"
      by (rule "2.IH"(1) [OF True refl st]) (simp_all add: sat_succ_le)
    have "lam \<le> sat_succ lam" using "2.prems"(4) by (rule sat_succ_ge)
    moreover have "es = \<lparr>le_origin = l_origin l, le_seq = sq, le_lamport = sat_succ lam,
          le_epoch = l_epoch l, le_sig = sign_entry l sq (sat_succ lam) ev, le_event = ev\<rparr> # fs
        \<and> lam' = lamf \<and> lg' = lgf"
      using "2.prems"(1) st True by (simp add: Let_def)
    ultimately show ?thesis
      using IH True "2.prems"(2) by (auto simp: of_origin_def entry_global_def entry_cursor_def)
  next
    case False
    obtain fs lamf lgf where st: "stamp_snapshot l evs sq lam lg = (fs, lamf, lgf)"
      by (cases "stamp_snapshot l evs sq lam lg")
    from "2.IH"(2) [OF False st "2.prems"(2-4)] st False "2.prems"(1) show ?thesis
      by (auto simp: of_origin_def entry_global_def)
  qed
qed

lemma log_compact_ok:
  assumes "log_compact evs l = (Inr u, l')" and "evs \<noteq> []"
  obtains lam lg where
    "stamp_snapshot (l\<lparr>l_epoch := sat_succ (l_epoch l)\<rparr>) evs 0 (l_lamport l) None = (l_entries l', lam, lg)"
    "l_disk l' = l_entries l'" "l_lamport l' = lam" "l_epoch l' = sat_succ (l_epoch l)"
    "l_versions l' = (case lg of None \<Rightarrow> Map.empty | Some s \<Rightarrow> [l_origin l \<mapsto> (l_epoch l', s)])"
    "l_origin l' = l_origin l"
proof -
  obtain es lam lg where
    st: "stamp_snapshot (l\<lparr>l_epoch := sat_succ (l_epoch l)\<rparr>) evs 0 (l_lamport l) None = (es, lam, lg)"
    by (cases "stamp_snapshot (l\<lparr>l_epoch := sat_succ (l_epoch l)\<rparr>) evs 0 (l_lamport l) None")
  show thesis
    by (rule that [of lam lg])
      (use assms st in \<open>auto simp: log_compact_def Let_def
        split: if_splits prod.splits list.splits option.split\<close>)
qed

lemma cursors_of_foreign:
  "\<forall>e \<in> set es. le_origin e \<noteq> org \<Longrightarrow> cursors_of org es = []"
  by (induction es) (auto simp: of_origin_def)

lemma log_ok_compact:
  assumes ok: "log_ok l" and co: "log_compact evs l = (Inr u, l')"
  shows "log_ok l'"
proof (cases "evs = []")
  case True
  with co ok show ?thesis by (simp add: log_compact_def)
next
  case False
  obtain lam lg where
    st: "stamp_snapshot (l\<lparr>l_epoch := sat_succ (l_epoch l)\<rparr>) evs 0 (l_lamport l) None = (l_entries l', lam, lg)"
    and f: "l_disk l' = l_entries l'" "l_lamport l' = lam" "l_epoch l' = sat_succ (l_epoch l)"
      "l_versions l' = (case lg of None \<Rightarrow> Map.empty | Some s \<Rightarrow> [l_origin l \<mapsto> (l_epoch l', s)])"
      "l_origin l' = l_origin l"
    by (rule log_compact_ok [OF co False])
  have S: "chain None (cursors_of (l_origin l) (l_entries l')) \<and>
     last_cursor None (cursors_of (l_origin l) (l_entries l')) = map_option (Pair (l_epoch l')) lg \<and>
     (\<forall>e \<in> set (l_entries l'). le_origin e = l_origin l \<and> le_epoch e = l_epoch l' \<and>
        (entry_global e \<longrightarrow> le_lamport e \<le> lam)) \<and> lam \<le> u64_max"
    using stamp_snapshot_ok [OF st, of None] log_okD(5) [OF ok] by (simp add: f)
  have foreign: "org \<noteq> l_origin l \<Longrightarrow> cursors_of org (l_entries l') = []" for org
    by (rule cursors_of_foreign) (use S in auto)
  show ?thesis
    unfolding log_ok_def
  proof (intro conjI allI)
    fix org
    show "chain None (cursors_of org (l_entries l'))"
      using S foreign by (cases "org = l_origin l") auto
    show "l_versions l' org = last_cursor None (cursors_of org (l_entries l'))"
      using S foreign f(4) by (cases "org = l_origin l") (auto split: option.split)
    show "l_epoch l' \<le> u64_max" by (simp add: f sat_succ_le)
  qed (use S f in auto)
qed

subsection \<open>Reopening\<close>

lemma absorb_chain:
  assumes "entry_global e \<Longrightarrow> accepts (l_versions l (le_origin e)) (entry_cursor e)"
  shows "l_versions (absorb e l) = (if entry_global e
      then (l_versions l)(le_origin e \<mapsto> entry_cursor e) else l_versions l)"
    "l_origin (absorb e l) = l_origin l"
    "l_epoch (absorb e l) = (if le_origin e = l_origin l then max (l_epoch l) (le_epoch e) else l_epoch l)"
    "l_lamport (absorb e l) = (if entry_global e then max (l_lamport l) (le_lamport e) else l_lamport l)"
    "l_entries (absorb e l) = l_entries l" "l_disk (absorb e l) = l_disk l"
  using assms
  by (auto simp: absorb_def Let_def dest: accepts_newer split: option.splits)

text \<open>Absorbing the lines of a well-formed file: induction on the lines from the right.\<close>

lemma open_chain:
  assumes "\<forall>org. chain None (cursors_of org es)"
    and "\<forall>e \<in> set es. entry_global e \<longrightarrow> le_lamport e \<le> u64_max"
    and "l_origin l0 = own" and "l_versions l0 = Map.empty" and "l_entries l0 = []"
    and "l_epoch l0 = 0" and "l_lamport l0 = 0"
  defines "l \<equiv> fold (\<lambda>e l. (absorb e l)\<lparr>l_entries := l_entries l @ [e]\<rparr>) es l0"
  shows "l_entries l = es \<and> (\<forall>org. l_versions l org = last_cursor None (cursors_of org es)) \<and>
     l_origin l = own \<and> l_disk l = l_disk l0 \<and> l_lamport l \<le> u64_max \<and>
     (\<forall>e \<in> set es. le_origin e = own \<longrightarrow> le_epoch e \<le> l_epoch l) \<and>
     (\<forall>e \<in> set es. entry_global e \<longrightarrow> le_lamport e \<le> l_lamport l) \<and>
     (\<forall>m. (\<forall>e \<in> set es. le_origin e = own \<longrightarrow> le_epoch e \<le> m) \<longrightarrow> l_epoch l \<le> m) \<and>
     (\<forall>m. (\<forall>e \<in> set es. entry_global e \<longrightarrow> le_lamport e \<le> m) \<longrightarrow> l_lamport l \<le> m)"
  using assms(1,2) unfolding l_def
proof (induction es rule: rev_induct)
  case Nil
  then show ?case using assms by simp
next
  case (snoc e es)
  define k where "k = fold (\<lambda>e l. (absorb e l)\<lparr>l_entries := l_entries l @ [e]\<rparr>) es l0"
  have IH: "l_entries k = es \<and> (\<forall>org. l_versions k org = last_cursor None (cursors_of org es)) \<and>
     l_origin k = own \<and> l_disk k = l_disk l0 \<and> l_lamport k \<le> u64_max \<and>
     (\<forall>e \<in> set es. le_origin e = own \<longrightarrow> le_epoch e \<le> l_epoch k) \<and>
     (\<forall>e \<in> set es. entry_global e \<longrightarrow> le_lamport e \<le> l_lamport k) \<and>
     (\<forall>m. (\<forall>e \<in> set es. le_origin e = own \<longrightarrow> le_epoch e \<le> m) \<longrightarrow> l_epoch k \<le> m) \<and>
     (\<forall>m. (\<forall>e \<in> set es. entry_global e \<longrightarrow> le_lamport e \<le> m) \<longrightarrow> l_lamport k \<le> m)"
    unfolding k_def using snoc.prems by (intro snoc.IH) (auto simp: chain_append split: if_splits)
  have acc: "accepts (l_versions k (le_origin e)) (entry_cursor e)" if "entry_global e"
    using snoc.prems(1) [rule_format, of "le_origin e"] IH that
    by (simp add: chain_append of_origin_def)
  note ab = absorb_chain [of e k, OF acc]
  have el: "entry_global e \<Longrightarrow> le_lamport e \<le> u64_max" using snoc.prems(2) by simp
  have eq: "fold (\<lambda>e l. (absorb e l)\<lparr>l_entries := l_entries l @ [e]\<rparr>) (es @ [e]) l0 =
      (absorb e k)\<lparr>l_entries := es @ [e]\<rparr>"
    using IH by (simp add: k_def)
  have ver: "l_versions (absorb e k) org = last_cursor None (cursors_of org (es @ [e]))" for org
    using IH by (simp add: ab of_origin_def)
  show ?case
    unfolding eq using IH ver el by (auto simp: ab max.coboundedI1)
qed

lemma reopen_recovers_log_aux:
  assumes "log_ok l"
  shows "l_entries (log_open (l_disk l) (l_origin l)) = l_entries l \<and>
         l_versions (log_open (l_disk l) (l_origin l)) = l_versions l \<and>
         l_lamport (log_open (l_disk l) (l_origin l)) \<le> l_lamport l \<and>
         l_epoch (log_open (l_disk l) (l_origin l)) \<le> l_epoch l \<and>
         log_ok (log_open (l_disk l) (l_origin l))"
proof -
  let ?es = "l_entries l"
  let ?l0 = "(log_empty (l_origin l))\<lparr>l_disk := ?es\<rparr>"
  have r: "log_open (l_disk l) (l_origin l) =
      fold (\<lambda>e l. (absorb e l)\<lparr>l_entries := l_entries l @ [e]\<rparr>) ?es ?l0"
    by (simp add: log_open_def log_okD(6) [OF assms])
  note oc = open_chain [of ?es ?l0 "l_origin l", folded r]
  have "\<forall>e \<in> set ?es. entry_global e \<longrightarrow> le_lamport e \<le> u64_max"
    using log_okD(4,5) [OF assms] le_trans by blast
  note oc = oc [OF _ this]
  have ep: "l_epoch (log_open (l_disk l) (l_origin l)) \<le> l_epoch l"
    using oc log_okD(1,3) [OF assms] by (simp add: log_empty_def)
  with log_okD(7) [OF assms] have "l_epoch (log_open (l_disk l) (l_origin l)) \<le> u64_max"
    by (rule order_trans [rotated])
  with ep show ?thesis
    using oc log_okD(1,3,4) [OF assms] log_okD(2) [OF assms]
    by (auto simp: log_empty_def log_ok_def fun_eq_iff)
qed

text \<open>A restart recovers the log: from the file alone, \<^verbatim>\<open>open\<close> rebuilds the entries and the
  version vector the running node had, with clocks that do not run ahead of it, and the
  reopened log is again well formed.\<close>

theorem reopen_recovers_log:
  assumes "log_ok l"
  shows "l_entries (log_open (l_disk l) (l_origin l)) = l_entries l \<and>
         l_versions (log_open (l_disk l) (l_origin l)) = l_versions l \<and>
         l_lamport (log_open (l_disk l) (l_origin l)) \<le> l_lamport l \<and>
         l_epoch (log_open (l_disk l) (l_origin l)) \<le> l_epoch l \<and>
         log_ok (log_open (l_disk l) (l_origin l))"
  using assms by (rule reopen_recovers_log_aux)

subsection \<open>The log as a state machine\<close>

lemma log_ok_compact_any:
  assumes ok: "log_ok l" and co: "log_compact evs l = (r, l')"
  shows "log_ok l'"
proof (cases r)
  case (Inr u)
  with co ok show ?thesis by (auto intro: log_ok_compact)
next
  case (Inl x)
  obtain es lam lg where
    st: "stamp_snapshot (l\<lparr>l_epoch := sat_succ (l_epoch l)\<rparr>) evs 0 (l_lamport l) None = (es, lam, lg)"
    by (cases "stamp_snapshot (l\<lparr>l_epoch := sat_succ (l_epoch l)\<rparr>) evs 0 (l_lamport l) None")
  have "l_lamport l \<le> lam \<and> lam \<le> u64_max"
    using stamp_snapshot_ok [OF st, of None] log_okD(5) [OF ok] by simp
  moreover have "evs \<noteq> []" using co Inl by (auto simp: log_compact_def)
  ultimately show ?thesis
    using co Inl st sat_succ_ge [OF log_okD(7) [OF ok]] sat_succ_le [of "l_epoch l"]
    by (intro log_ok_cong [OF ok])
      (auto simp: log_compact_def Let_def split: if_splits prod.splits list.splits)
qed

text \<open>A run of a node's log: appends, entries gossiped from other origins, compactions, restarts,
  and changes of the settings around it (keys, lockdown, the gossip channel, the disk's future
  behaviour: no write is torn between its line and its \<^verbatim>\<open>fsync\<close>).\<close>

inductive log_run :: "string \<Rightarrow> event_log \<Rightarrow> bool" for own :: string where
  start: "log_run own (log_empty own)"
| append: "log_run own l \<Longrightarrow> log_append ev l = (r, l') \<Longrightarrow> log_run own l'"
| ingest: "log_run own l \<Longrightarrow> le_origin e \<noteq> own \<Longrightarrow> le_lamport e \<le> u64_max \<Longrightarrow>
    log_ingest e l = (q, l') \<Longrightarrow> log_run own l'"
| compact: "log_run own l \<Longrightarrow> log_compact evs l = (r, l') \<Longrightarrow> log_run own l'"
| reopen: "log_run own l \<Longrightarrow> log_run own (log_open (l_disk l) own)"
| configure: "log_run own l \<Longrightarrow> Unsynced \<notin> set io \<Longrightarrow>
    log_run own (l\<lparr>l_signing := sg, l_readonly := ro, l_outbound := ob, l_io := io\<rparr>)"

lemma log_ingest_io: "log_ingest e l = (q, l') \<Longrightarrow> set (l_io l') \<subseteq> set (l_io l)"
  by (auto simp: log_ingest_def Let_def split: if_splits prod.splits bool.splits option.splits
      dest: persist_simps persist_io [THEN subsetD])

lemma log_ingest_origin: "log_ingest e l = (q, l') \<Longrightarrow> l_origin l' = l_origin l"
  by (auto simp: log_ingest_def Let_def split: if_splits prod.splits bool.splits option.splits
      dest: persist_simps)

lemma log_append_keeps:
  assumes "log_append ev l = (r, l')"
  shows "l_origin l' = l_origin l" "set (l_io l') \<subseteq> set (l_io l)"
proof -
  show "l_origin l' = l_origin l"
    using assms by (cases r) (simp_all add: log_append_ok(5) log_append_err(3))
  show "set (l_io l') \<subseteq> set (l_io l)"
    using assms by (cases r) (simp_all add: log_append_ok(10) log_append_err(9))
qed

lemma log_compact_keeps:
  "log_compact evs l = (r, l') \<Longrightarrow> l_origin l' = l_origin l \<and> set (l_io l') \<subseteq> set (l_io l)"
  by (auto simp: log_compact_def Let_def split: if_splits prod.splits list.splits)

lemma log_run_ok: "log_run own l \<Longrightarrow> log_ok l \<and> l_origin l = own \<and> Unsynced \<notin> set (l_io l)"
proof (induction rule: log_run.induct)
  case start
  show ?case using log_ok_empty [of own] by (simp add: log_empty_def)
next
  case (append l ev r l')
  then show ?case using log_ok_append log_append_keeps by blast
next
  case (ingest l e q l')
  then show ?case using log_ok_ingest log_ingest_origin log_ingest_io by blast
next
  case (compact l evs r l')
  then show ?case using log_ok_compact_any log_compact_keeps by blast
next
  case (reopen l)
  have keeps: "l_io (fold (\<lambda>e l. (absorb e l)\<lparr>l_entries := l_entries l @ [e]\<rparr>) es l0) = l_io l0 \<and>
      l_origin (fold (\<lambda>e l. (absorb e l)\<lparr>l_entries := l_entries l @ [e]\<rparr>) es l0) = l_origin l0" for es l0
    by (induction es arbitrary: l0) (auto simp: absorb_def Let_def)
  show ?case
    using reopen reopen_recovers_log_aux [of l] keeps by (auto simp: log_open_def log_empty_def)
next
  case (configure l io sg ro ob)
  then show ?case by (auto simp: log_ok_def)
qed

subsection \<open>Re-delivery and one gossip round\<close>

lemma accepts_not_twice: "\<not> accepts (Some c) c"
  using accepts_newer cursor_newer_irrefl by blast

text \<open>The receiver handles the entries of a frame one at a time.\<close>

fun deliver :: "log_entry list \<Rightarrow> event_log \<Rightarrow> event list \<times> event_log" where
  "deliver [] l = ([], l)"
| "deliver (e # es) l =
     (let (r, l1) = log_ingest e l; (evs, l2) = deliver es l1
      in ((case r of Inr (Some ev) \<Rightarrow> [ev] | _ \<Rightarrow> []) @ evs, l2))"

lemma deliver_append:
  "deliver (es @ fs) l =
     (let (xs, l1) = deliver es l; (ys, l2) = deliver fs l1 in (xs @ ys, l2))"
  by (induction es arbitrary: l) (auto simp: Let_def split: prod.splits)

definition newest :: "cursor option \<Rightarrow> cursor option \<Rightarrow> cursor option" where
  "newest a b = (case a of None \<Rightarrow> b
     | Some x \<Rightarrow> (case b of None \<Rightarrow> a | Some y \<Rightarrow> if cursor_newer x y then b else a))"

definition trusted :: "event_log \<Rightarrow> log_entry \<Rightarrow> bool" where
  "trusted l e \<longleftrightarrow> (case l_signing l of None \<Rightarrow> True | Some g \<Rightarrow> signing_verify g e)"

lemma log_ingest_accepts:
  assumes "entry_global e" "trusted l e" "accepts (l_versions l (le_origin e)) (entry_cursor e)"
    and "l_io l = []"
  shows "\<exists>l'. log_ingest e l = (Inr (Some (le_event e)), l') \<and>
    l_versions l' = (l_versions l)(le_origin e \<mapsto> entry_cursor e) \<and> l_io l' = [] \<and>
    l_signing l' = l_signing l \<and> l_entries l' = l_entries l @ [e]"
  using assms
  by (auto simp: log_ingest_def trusted_def Let_def persist_total split: option.splits)

text \<open>The heart of a round: within a chain, the first cursor newer than what the peer has is
  one the peer accepts.\<close>

lemma chain_next_accepted:
  assumes ch: "chain None (cs @ [c])" and new: "case h of None \<Rightarrow> True | Some x \<Rightarrow> cursor_newer x c"
  shows "accepts (newest h (last_cursor None cs)) c"
proof -
  have acc: "accepts (last_cursor None cs) c" using ch by (simp add: chain_append)
  obtain e s where c: "c = (e, s)" by (cases c)
  show ?thesis
  proof (cases h)
    case None
    with acc show ?thesis by (simp add: newest_def)
  next
    case (Some x)
    obtain he hs where x: "x = (he, hs)" by (cases x)
    show ?thesis
    proof (cases "last_cursor None cs")
      case None
      with acc new Some show ?thesis by (auto simp: newest_def c x)
    next
      case p: (Some y)
      obtain pe ps where y: "y = (pe, ps)" by (cases y)
      from acc new Some p show ?thesis
        by (auto simp: newest_def c x y split: if_splits)
    qed
  qed
qed

lemma newest_step:
  assumes "accepts p c"
  shows "newest h (Some c) =
    (if (case h of None \<Rightarrow> True | Some x \<Rightarrow> cursor_newer x c) then Some c else newest h p)"
proof (cases p)
  case None
  then show ?thesis by (auto simp: newest_def split: option.splits)
next
  case (Some y)
  with assms have "cursor_newer y c" by (simp add: accepts_newer)
  with Some show ?thesis
    by (auto simp: newest_def split: option.splits dest: cursor_newer_trans)
qed

lemma deliver_missing:
  assumes "\<forall>org. chain None (cursors_of org es)" and "l_io b = []"
    and "\<forall>e \<in> set es. trusted b e"
  shows "\<exists>b'. deliver (filter (\<lambda>e. case l_versions b (le_origin e) of None \<Rightarrow> True
                 | Some h \<Rightarrow> cursor_newer h (entry_cursor e)) (filter entry_global es)) b =
      (map le_event (filter (\<lambda>e. case l_versions b (le_origin e) of None \<Rightarrow> True
                 | Some h \<Rightarrow> cursor_newer h (entry_cursor e)) (filter entry_global es)), b') \<and>
    (\<forall>org. l_versions b' org = newest (l_versions b org) (last_cursor None (cursors_of org es))) \<and>
    l_io b' = [] \<and> l_signing b' = l_signing b"
  using assms(1,3)
proof (induction es rule: rev_induct)
  case Nil
  then show ?case using assms(2) by (auto simp: newest_def split: option.splits)
next
  case (snoc e es)
  let ?new = "\<lambda>e. case l_versions b (le_origin e) of None \<Rightarrow> True
                 | Some h \<Rightarrow> cursor_newer h (entry_cursor e)"
  let ?f = "\<lambda>es. filter ?new (filter entry_global es)"
  from snoc.prems have prems: "\<forall>org. chain None (cursors_of org es)" "\<forall>e \<in> set es. trusted b e"
    by (auto simp: chain_append)
  obtain b1 where b1: "deliver (?f es) b = (map le_event (?f es), b1)"
    "\<forall>org. l_versions b1 org = newest (l_versions b org) (last_cursor None (cursors_of org es))"
    "l_io b1 = []" "l_signing b1 = l_signing b"
    using snoc.IH [OF prems] by blast
  show ?case
  proof (cases "entry_global e")
    case False
    with b1 show ?thesis by (auto simp: of_origin_def)
  next
    case True
    then have of: "of_origin (le_origin e) e" by (simp add: of_origin_def)
    have ch: "chain None (cursors_of (le_origin e) es @ [entry_cursor e])"
      using snoc.prems(1) [rule_format, of "le_origin e"] of by simp
    note step = newest_step [of "last_cursor None (cursors_of (le_origin e) es)" "entry_cursor e"]
    have acc: "accepts (last_cursor None (cursors_of (le_origin e) es)) (entry_cursor e)"
      using ch by (simp add: chain_append)
    show ?thesis
    proof (cases "?new e")
      case False
      with b1 True step [OF acc] show ?thesis by (auto simp: of_origin_def)
    next
      case new: True
      have "accepts (l_versions b1 (le_origin e)) (entry_cursor e)"
        using b1(2) chain_next_accepted [OF ch] new by simp
      moreover have "trusted b1 e" using snoc.prems(2) b1(4) by (simp add: trusted_def)
      ultimately obtain b2 where b2: "log_ingest e b1 = (Inr (Some (le_event e)), b2)"
        "l_versions b2 = (l_versions b1)(le_origin e \<mapsto> entry_cursor e)" "l_io b2 = []"
        "l_signing b2 = l_signing b1"
        using log_ingest_accepts [OF True] b1(3) by blast
      show ?thesis
        using b1 b2 True new step [OF acc]
        by (intro exI [of _ b2]) (auto simp: deliver_append of_origin_def)
    qed
  qed
qed



lemma chain_sorted: "chain h cs \<Longrightarrow> sorted_wrt cursor_newer cs"
proof (induction cs arbitrary: h)
  case (Cons c cs)
  then have "chain (Some c) cs" by simp
  with Cons.IH [OF this] show ?case by (simp del: cursor_newer.simps add: chain_newer)
qed simp

lemma sorted_wrt_last: "sorted_wrt R xs \<Longrightarrow> x \<in> set xs \<Longrightarrow> x = last xs \<or> R x (last xs)"
  by (induction xs) auto

lemma chain_distinct: "chain h cs \<Longrightarrow> distinct cs"
  using chain_sorted cursor_newer_irrefl by (metis distinct_conv_nth linorder_neqE_nat sorted_wrt_nth_less)


text \<open>What a node accepts from a peer is exactly: a network-wide event, verified against the
  trusted key of its origin when signing is on, that is the next one of that origin, and that
  could be written to disk. Everything else leaves the log as it was or reports the write error,
  and never reaches the store.\<close>

theorem ingest_admission:
  shows "(\<exists>ev. fst (log_ingest e l) = Inr (Some ev)) \<longleftrightarrow>
      entry_global e \<and> trusted l e \<and> accepts (l_versions l (le_origin e)) (entry_cursor e) \<and>
      (l_io l = [] \<or> hd (l_io l) = Written)"
  by (auto simp: log_ingest_def trusted_def Let_def persist.simps
      split: option.splits list.splits write_outcome.splits)

text \<open>One gossip round closes the gap: a peer given \<open>missing_for\<close> its version vector accepts
  every entry, applies their events in the sender's order, and ends with the newer of the two
  cursors for every origin.\<close>

theorem gossip_round:
  assumes "log_ok a" and "l_io b = []"
    and "\<forall>e \<in> set (l_entries a). trusted b e"
  shows "fst (deliver (missing_for a (l_versions b)) b) = map le_event (missing_for a (l_versions b)) \<and>
         (\<forall>org. l_versions (snd (deliver (missing_for a (l_versions b)) b)) org =
                newest (l_versions b org) (l_versions a org))"
  using deliver_missing [of "l_entries a" b] assms log_okD(1,2) [OF assms(1)]
  by (auto simp: missing_for_def)

end
