(* ===== verification/Db.thy ===== *)
theory Db
  imports Wellformed Replication
begin

text \<open>
  The live database (\<^verbatim>\<open>Db\<close> in src/src/engine/db/mod.rs): the store the log reconstructs, the log
  itself, and the node-local state that is never logged. Every mutating operation of the
  sibling theories is a function \<open>db \<Rightarrow> (error + result) \<times> db\<close> (or \<open>db \<Rightarrow> result \<times> db\<close>) built from
  \<open>logged\<close> and \<open>logged_ignore\<close>, the two ways the source appends to the log.

  Wall-clock seconds (\<^verbatim>\<open>now()\<close>) and monotonic nanoseconds (\<^verbatim>\<open>Instant::now()\<close>) are arguments; a
  \<^verbatim>\<open>HashMap\<close> walk takes the list of keys it visits.
\<close>

datatype code_kind = Reset | Confirm

record pending_code =
  pc_kind :: code_kind
  pc_code :: string
  pc_issued :: nat
  pc_deadline :: nat
  pc_tries_left :: nat

record auth_throttle =
  th_fails :: nat
  th_locked_until :: "nat option"

record ignore_rec =
  ig_mask :: string
  ig_reason :: string
  ig_expires :: "nat option"

record credentials =
  cr_scram256 :: string
  cr_scram512 :: string

record db =
  st :: store
  lg :: event_log
  codes :: "string \<rightharpoonup> pending_code"
  auth_fails :: "string \<rightharpoonup> auth_throttle"
  vhost_req_times :: "string \<rightharpoonup> nat"
  report_times :: "string \<rightharpoonup> nat"
  ignores :: "ignore_rec list"
  defcon :: nat
  extban_enabled :: "string set option"
  notify_exclude :: "string list"
  email_enabled :: bool
  external_accounts :: bool
  confusable_check :: bool
  registration_vouch :: bool
  default_language :: string
  available_languages :: "string list"

datatype reg_error = RegExists | RegInternal | RegInvalid
datatype cert_error = CertInvalid | CertInUse | CertNoAccount | CertFull | CertInternal
datatype chan_error = ChanExists | ChanNoChannel | ChanInvalidPattern | ChanFull | ChanInternal

subsection \<open>Opening\<close>

definition db_open :: "log_entry list \<Rightarrow> string \<Rightarrow> db" where
  "db_open lines origin =
     (let l = log_open lines origin in
      \<lparr>st = replay (log_events l) store_empty, lg = l, codes = Map.empty, auth_fails = Map.empty,
       vhost_req_times = Map.empty, report_times = Map.empty, ignores = [], defcon = 5,
       extban_enabled = None, notify_exclude = [], email_enabled = False,
       external_accounts = False, confusable_check = True, registration_vouch = False,
       default_language = ''en'', available_languages = [''en'']\<rparr>)"

subsection \<open>Name resolution\<close>

definition resolved_key :: "db \<Rightarrow> string \<Rightarrow> string option" where
  "resolved_key d name =
     (let k = key name in
      if accounts (st d) k \<noteq> None then Some k else map_option key (grouped (st d) k))"

definition exists_account :: "db \<Rightarrow> string \<Rightarrow> bool" where
  "exists_account d name \<longleftrightarrow> resolved_key d name \<noteq> None"

definition account_of :: "db \<Rightarrow> string \<Rightarrow> account option" where
  "account_of d name = accounts (st d) (key name)"

definition channel_of :: "db \<Rightarrow> string \<Rightarrow> channel_info option" where
  "channel_of d name = channels (st d) (key name)"

definition resolve_account :: "db \<Rightarrow> string \<Rightarrow> string option" where
  "resolve_account d name =
     (case resolved_key d name of None \<Rightarrow> None
      | Some k \<Rightarrow> map_option a_name (accounts (st d) k))"

definition grouped_nicks :: "string list \<Rightarrow> db \<Rightarrow> string \<Rightarrow> string list" where
  "grouped_nicks ks d acct =
     filter (\<lambda>n. case grouped (st d) n of None \<Rightarrow> False | Some a \<Rightarrow> eq_ignore_ascii_case a acct) ks"

subsection \<open>Appending from an operation\<close>

text \<open>\<^verbatim>\<open>self.log.append(ev).map_err(|_| err)?; ...\<close>: the rest runs only once the event is in the
  log.\<close>

definition logged :: "'err \<Rightarrow> event \<Rightarrow> (db \<Rightarrow> ('err + 'a) \<times> db) \<Rightarrow> db \<Rightarrow> ('err + 'a) \<times> db" where
  "logged err ev k d =
     (case log_append ev (lg d) of
        (Inl _, l) \<Rightarrow> (Inl err, d\<lparr>lg := l\<rparr>)
      | (Inr _, l) \<Rightarrow> k (d\<lparr>lg := l\<rparr>))"

text \<open>\<^verbatim>\<open>let _ = self.log.append(ev);\<close>: whatever the log says, the operation goes on.\<close>

definition logged_ignore :: "event \<Rightarrow> db \<Rightarrow> db" where
  "logged_ignore ev d = d\<lparr>lg := snd (log_append ev (lg d))\<rparr>"

text \<open>\<^verbatim>\<open>m?; k\<close>\<close>

definition and_then ::
  "(db \<Rightarrow> ('err + 'a) \<times> db) \<Rightarrow> ('a \<Rightarrow> db \<Rightarrow> ('err + 'b) \<times> db) \<Rightarrow> db \<Rightarrow> ('err + 'b) \<times> db" where
  "and_then m k d = (case m d of (Inl e, d1) \<Rightarrow> (Inl e, d1) | (Inr x, d1) \<Rightarrow> k x d1)"

definition on_store :: "(store \<Rightarrow> store) \<Rightarrow> db \<Rightarrow> db" where
  "on_store f d = d\<lparr>st := f (st d)\<rparr>"

definition on_account :: "string \<Rightarrow> (account \<Rightarrow> account) \<Rightarrow> db \<Rightarrow> db" where
  "on_account acct f = on_store (\<lambda>s. s\<lparr>accounts := modify (key acct) f (accounts s)\<rparr>)"

definition on_channel :: "string \<Rightarrow> (channel_info \<Rightarrow> channel_info) \<Rightarrow> db \<Rightarrow> db" where
  "on_channel chan f = on_store (\<lambda>s. s\<lparr>channels := modify (key chan) f (channels s)\<rparr>)"

definition on_net :: "(net_data \<Rightarrow> net_data) \<Rightarrow> db \<Rightarrow> db" where
  "on_net f = on_store (\<lambda>s. s\<lparr>net := f (net s)\<rparr>)"

definition on_host :: "(host_config \<Rightarrow> host_config) \<Rightarrow> db \<Rightarrow> db" where
  "on_host f = on_store (\<lambda>s. s\<lparr>host_cfg := f (host_cfg s)\<rparr>)"

lemmas on_defs = on_store_def on_account_def on_channel_def on_net_def on_host_def

lemma on_store_simps [simp]:
  "st (on_store f d) = f (st d)" "lg (on_store f d) = lg d"
  "codes (on_store f d) = codes d" "auth_fails (on_store f d) = auth_fails d"
  "vhost_req_times (on_store f d) = vhost_req_times d" "report_times (on_store f d) = report_times d"
  "ignores (on_store f d) = ignores d"
  by (simp_all add: on_store_def)

lemma on_simps [simp]:
  "st (on_account acct f d) = (st d)\<lparr>accounts := modify (key acct) f (accounts (st d))\<rparr>"
  "st (on_channel chan g d) = (st d)\<lparr>channels := modify (key chan) g (channels (st d))\<rparr>"
  "st (on_net h d) = (st d)\<lparr>net := h (net (st d))\<rparr>"
  "st (on_host i d) = (st d)\<lparr>host_cfg := i (host_cfg (st d))\<rparr>"
  "lg (on_account acct f d) = lg d" "lg (on_channel chan g d) = lg d" "lg (on_net h d) = lg d"
  "lg (on_host i d) = lg d"
  by (simp_all add: on_defs)

lemma logged_ignore_simps [simp]:
  "st (logged_ignore ev d) = st d" "codes (logged_ignore ev d) = codes d"
  "auth_fails (logged_ignore ev d) = auth_fails d" "report_times (logged_ignore ev d) = report_times d"
  "lg (logged_ignore ev d) = snd (log_append ev (lg d))"
  by (simp_all add: logged_ignore_def)

subsection \<open>Grouped nicks and the database's own operations\<close>

definition group_nick :: "string \<Rightarrow> string \<Rightarrow> db \<Rightarrow> (reg_error + unit) \<times> db" where
  "group_nick nick acct d =
     (if accounts (st d) (key acct) = None then (Inl RegInternal, d)
      else logged RegInternal (NickGrouped nick acct)
             (\<lambda>d. (Inr (), on_store (\<lambda>s. s\<lparr>grouped := (grouped s)(key nick \<mapsto> acct)\<rparr>) d)) d)"

definition ungroup_nick :: "string \<Rightarrow> db \<Rightarrow> (reg_error + bool) \<times> db" where
  "ungroup_nick nick d =
     (if grouped (st d) (key nick) = None then (Inr False, d)
      else logged RegInternal (NickUngrouped nick)
             (\<lambda>d. (Inr True, on_store (\<lambda>s. s\<lparr>grouped := (grouped s)(key nick := None)\<rparr>) d)) d)"

definition migrate_append :: "event \<Rightarrow> db \<Rightarrow> (io_error + unit) \<times> db" where
  "migrate_append ev d = (let (r, l) = log_append ev (lg d) in (r, d\<lparr>lg := l\<rparr>))"

text \<open>\<^verbatim>\<open>HashMap::len\<close> of the accounts and channels, given their keys.\<close>

definition should_compact :: "string list \<Rightarrow> string list \<Rightarrow> db \<Rightarrow> bool" where
  "should_compact accs chans d \<longleftrightarrow>
     length (l_entries (lg d)) > (length accs + length chans) * 3 + 64"

definition is_suspended :: "nat \<Rightarrow> db \<Rightarrow> string \<Rightarrow> bool" where
  "is_suspended now d acct =
     (case accounts (st d) (key acct) of None \<Rightarrow> False
      | Some a \<Rightarrow> (case a_suspension a of None \<Rightarrow> False
          | Some s \<Rightarrow> (case su_expires s of None \<Rightarrow> True | Some e \<Rightarrow> e > now)))"

subsection \<open>Gossip ingest\<close>

datatype ingest_effect =
    TakenOver string
  | Dropped string
  | Suspended string
  | BanAdded string string string nat string
  | BanLifted string string

fun watched_name :: "event \<Rightarrow> string option" where
  "watched_name (AccountEvent (AccountRegistered a)) = Some (a_name a)"
| "watched_name (AccountDropped acct) = Some acct"
| "watched_name _ = None"

fun suspends :: "event \<Rightarrow> string option" where
  "suspends (AccountEvent (AccountSuspended acct _ _ _ _)) = Some acct"
| "suspends _ = None"

fun ban_effect :: "nat \<Rightarrow> event \<Rightarrow> ingest_effect option" where
  "ban_effect now (NetEvent (AkillAdded kind msk setter reason ts expires)) =
     (case expires of
        Some x \<Rightarrow> if x \<le> now then None else Some (BanAdded kind msk setter (x - now) reason)
      | None \<Rightarrow> Some (BanAdded kind msk setter 0 reason))"
| "ban_effect now (NetEvent (AkillRemoved kind msk)) = Some (BanLifted kind msk)"
| "ban_effect now _ = None"

definition takeover_effect ::
  "(string \<times> account option) option \<Rightarrow> db \<Rightarrow> ingest_effect option" where
  "takeover_effect watched d =
     (case watched of None \<Rightarrow> None
      | Some (name, prev) \<Rightarrow>
          (case (prev, account_of d name) of
             (Some p, Some c) \<Rightarrow>
               if a_home c \<noteq> a_home p \<and> a_scram256 c \<noteq> a_scram256 p
               then Some (TakenOver name) else None
           | (Some p, None) \<Rightarrow> Some (Dropped name)
           | _ \<Rightarrow> None))"

definition db_ingest :: "nat \<Rightarrow> log_entry \<Rightarrow> db \<Rightarrow> (io_error + ingest_effect option) \<times> db" where
  "db_ingest now entry d =
     (let watched = map_option (\<lambda>n. (n, account_of d n)) (watched_name (le_event entry)) in
      case log_ingest entry (lg d) of
        (Inl e, l) \<Rightarrow> (Inl e, d\<lparr>lg := l\<rparr>)
      | (Inr applied, l) \<Rightarrow>
          let d1 = d\<lparr>lg := l\<rparr>;
              d2 = (case applied of None \<Rightarrow> d1 | Some ev \<Rightarrow> on_store (apply_event ev) d1);
              suspended = (case applied of None \<Rightarrow> None | Some ev \<Rightarrow> suspends ev);
              ban = (case applied of None \<Rightarrow> None | Some ev \<Rightarrow> ban_effect now ev)
          in case takeover_effect watched d2 of
               Some eff \<Rightarrow> (Inr (Some eff), d2)
             | None \<Rightarrow>
                 (case suspended of
                    Some acct \<Rightarrow> if is_suspended now d2 acct then (Inr (Some (Suspended acct)), d2)
                                  else (Inr ban, d2)
                  | None \<Rightarrow> (Inr ban, d2)))"

subsection \<open>The contract every operation keeps\<close>

text \<open>
  An invariant of the store and the log together that committing, refusing and ingesting an
  event preserve. Each operation is proved once against this interface.
\<close>

definition foreign :: "log_entry \<Rightarrow> event_log \<Rightarrow> bool" where
  "foreign e l \<longleftrightarrow> le_origin e \<noteq> l_origin l \<and> le_lamport e \<le> u64_max"

locale db_invariant =
  fixes J :: "store \<Rightarrow> event_log \<Rightarrow> bool"
  assumes commit: "J s l \<Longrightarrow> log_append ev l = (Inr u, l') \<Longrightarrow> J (apply_event ev s) l'"
    and refuse: "J s l \<Longrightarrow> log_append ev l = (Inl x, l') \<Longrightarrow> J s l'"
    and admit: "J s l \<Longrightarrow> foreign e l \<Longrightarrow> log_ingest e l = (Inr (Some ev), l') \<Longrightarrow>
      J (apply_event ev s) l'"
    and reject: "J s l \<Longrightarrow> foreign e l \<Longrightarrow> log_ingest e l = (Inl x, l') \<Longrightarrow> J s l'"
    and wf: "J s l \<Longrightarrow> wf_store s"
begin

definition kept :: "db \<Rightarrow> bool" where
  "kept d \<longleftrightarrow> J (st d) (lg d)"

lemma keptI: "kept d \<Longrightarrow> st d' = st d \<Longrightarrow> lg d' = lg d \<Longrightarrow> kept d'"
  by (simp add: kept_def)

lemma kept_wf: "kept d \<Longrightarrow> wf_store (st d)"
  by (simp add: kept_def wf)

lemma kept_logged_rest:
  assumes "kept d"
    and "\<And>l. J (apply_event ev (st d)) l \<Longrightarrow> kept (snd (k (d\<lparr>lg := l\<rparr>)))"
  shows "kept (snd (logged err ev k d))"
proof (cases "log_append ev (lg d)")
  case (Pair r l)
  with assms show ?thesis
    by (cases r) (auto simp: logged_def kept_def intro: commit refuse)
qed

text \<open>The live update is the event's own fold: the shape of every single-event operation.\<close>

lemma kept_logged:
  assumes "kept d"
    and "\<And>l. st (snd (k (d\<lparr>lg := l\<rparr>))) = apply_event ev (st d) \<and> lg (snd (k (d\<lparr>lg := l\<rparr>))) = l"
  shows "kept (snd (logged err ev k d))"
proof (rule kept_logged_rest [OF assms(1)])
  fix l assume "J (apply_event ev (st d)) l"
  then show "kept (snd (k (d\<lparr>lg := l\<rparr>)))" using assms(2) [of l] by (simp add: kept_def)
qed

lemma kept_and_then:
  assumes "kept (snd (m d))" and "\<And>x d'. kept d' \<Longrightarrow> kept (snd (k x d'))"
  shows "kept (snd (and_then m k d))"
  using assms by (auto simp: and_then_def split: prod.split sum.split)

lemma kept_group_nick: "kept d \<Longrightarrow> kept (snd (group_nick nick acct d))"
  by (auto simp: group_nick_def intro!: kept_logged)

lemma kept_ungroup_nick: "kept d \<Longrightarrow> kept (snd (ungroup_nick nick d))"
  by (auto simp: ungroup_nick_def intro!: kept_logged)

lemma kept_db_ingest:
  assumes "kept d" and "foreign e (lg d)"
  shows "kept (snd (db_ingest now e d))"
proof (cases "log_ingest e (lg d)")
  case (Pair r l)
  show ?thesis
  proof (cases r)
    case (Inl x)
    with Pair assms show ?thesis by (auto simp: db_ingest_def kept_def intro: reject)
  next
    case (Inr applied)
    have "kept (case applied of None \<Rightarrow> d\<lparr>lg := l\<rparr> | Some ev \<Rightarrow> on_store (apply_event ev) (d\<lparr>lg := l\<rparr>))"
      using assms Pair Inr
      by (auto simp: kept_def split: option.split intro: admit dest: log_ingest_None)
    with Pair Inr show ?thesis
      by (simp add: db_ingest_def Let_def split: option.split)
  qed
qed

end

text \<open>Operations that ignore the result of the append keep the contract while the log accepts
  writes: no lockdown, no disk errors.\<close>

definition writable :: "event_log \<Rightarrow> bool" where
  "writable l \<longleftrightarrow> \<not> l_readonly l \<and> l_io l = []"

lemma writable_append: "writable l \<Longrightarrow> \<exists>l'. log_append ev l = (Inr (), l') \<and> writable l'"
  by (auto simp: writable_def log_append_alt persist_total Let_def)

locale online_invariant = db_invariant +
  assumes online: "J s l \<Longrightarrow> writable l"
begin

lemma kept_ignore:
  assumes "kept d"
  shows "J (apply_event ev (st d)) (snd (log_append ev (lg d)))"
proof -
  obtain l where "log_append ev (lg d) = (Inr (), l)"
    using assms online writable_append unfolding kept_def by blast
  with assms show ?thesis by (auto simp: kept_def intro: commit)
qed

lemma kept_logged_ignore:
  assumes "kept d" and "st d' = apply_event ev (st d)" and "lg d' = snd (log_append ev (lg d))"
  shows "kept d'"
  using kept_ignore [OF assms(1), of ev] assms(2,3) by (simp add: kept_def)

lemma kept_ignore_account:
  assumes "kept d" and "apply_account e (accounts (st d)) = modify (key acct) f (accounts (st d))"
  shows "kept (on_account acct f (logged_ignore (AccountEvent e) d))"
  by (rule kept_logged_ignore [OF assms(1)]) (simp_all add: assms(2))

lemma kept_ignore_channel:
  assumes "kept d" and "apply_channel e (channels (st d)) = modify (key chan) f (channels (st d))"
  shows "kept (on_channel chan f (logged_ignore (ChannelEvent e) d))"
  by (rule kept_logged_ignore [OF assms(1)]) (simp_all add: assms(2))

lemma kept_ignore_net:
  assumes "kept d" and "apply_net e (net (st d)) = f (net (st d))"
  shows "kept (on_net f (logged_ignore (NetEvent e) d))"
  by (rule kept_logged_ignore [OF assms(1)]) (simp_all add: assms(2))

end

end
