(* ===== verification/AccountOps.thy ===== *)
theory AccountOps
  imports Db
begin

text \<open>
  The account operations of the database (src/src/engine/db/account.rs): registration and
  provisioning, credentials, the per-account settings, certificate fingerprints, vhosts and
  the HostServ lists, emailed codes, the password throttle, auto-join, suspension and expiry.
  Memo operations, which the source keeps in channel.rs, are in \<open>MemoOps\<close>.
\<close>

subsection \<open>Registration and credentials\<close>

definition new_account ::
  "string \<Rightarrow> string option \<Rightarrow> nat \<Rightarrow> string \<Rightarrow> string \<Rightarrow> string option \<Rightarrow> bool \<Rightarrow> account" where
  "new_account name email ts home s256 s512 verified =
     \<lparr>a_name = name, a_email = email, a_ts = ts, a_home = home, a_scram256 = Some s256,
      a_scram512 = s512, a_certfps = [], a_pubkey = None, a_verified = verified, a_ajoin = [],
      a_suspension = None, a_memos = [], a_memo_ignore = [], a_memo_notify = True,
      a_memo_limit = None, a_greet = [], a_no_autoop = False, a_no_protect = False,
      a_hide_status = False, a_snotice = False, a_language = None, a_profile = profile_default,
      a_vhost = None, a_vhost_request = None, a_last_seen = ts, a_noexpire = False,
      a_expiry_warned = False, a_oper_note = None, a_swhois = None, a_signore = []\<rparr>"

definition insert_account :: "string \<Rightarrow> account \<Rightarrow> db \<Rightarrow> (reg_error + unit) \<times> db" where
  "insert_account name a =
     logged RegInternal (AccountEvent (AccountRegistered a))
       (\<lambda>d. (Inr (), on_store (\<lambda>s. s\<lparr>accounts := (accounts s)(key name \<mapsto> a)\<rparr>) d))"

definition register_prepared ::
  "nat \<Rightarrow> string \<Rightarrow> credentials \<Rightarrow> string option \<Rightarrow> db \<Rightarrow> (reg_error + unit) \<times> db" where
  "register_prepared now name creds email d =
     (if exists_account d name then (Inl RegExists, d)
      else let verified = (\<not> (registration_vouch d \<or> email_enabled d \<and> email \<noteq> None));
               a = new_account name email now (l_origin (lg d)) (cr_scram256 creds)
                     (Some (cr_scram512 creds)) verified
           in insert_account name a d)"

definition some_unless_empty :: "string \<Rightarrow> string option" where
  "some_unless_empty s = (if s = [] then None else Some s)"

definition provision_account ::
  "nat \<Rightarrow> string \<Rightarrow> string \<Rightarrow> string \<Rightarrow> string option \<Rightarrow> db \<Rightarrow> (reg_error + unit) \<times> db" where
  "provision_account now name s256 s512 email d =
     (if name = [] \<or> s256 = [] then (Inl RegInternal, d)
      else if exists_account d name
      then logged RegInternal (AccountEvent (AccountPasswordSet name s256 s512))
             (\<lambda>d. (Inr (), on_account name
                (\<lambda>a. a\<lparr>a_scram256 := Some s256, a_scram512 := some_unless_empty s512\<rparr>) d)) d
      else insert_account name
             (new_account name email now (l_origin (lg d)) s256 (some_unless_empty s512) True) d)"

text \<open>Password checks go through \<^verbatim>\<open>scram::verify_plain\<close>, a parameter (verifier, password).\<close>

definition authenticate ::
  "(string \<Rightarrow> string \<Rightarrow> bool) \<Rightarrow> db \<Rightarrow> string \<Rightarrow> string \<Rightarrow> string option" where
  "authenticate verify_plain d name password =
     (case resolved_key d name of None \<Rightarrow> None
      | Some k \<Rightarrow> (case accounts (st d) k of None \<Rightarrow> None
          | Some a \<Rightarrow> (case a_scram256 a of None \<Rightarrow> None
              | Some v \<Rightarrow> if verify_plain v password then Some (a_name a) else None)))"

definition scram_lookup :: "db \<Rightarrow> string \<Rightarrow> string \<Rightarrow> (string \<times> string) option" where
  "scram_lookup d name mech =
     (case resolved_key d name of None \<Rightarrow> None
      | Some k \<Rightarrow> (case accounts (st d) k of None \<Rightarrow> None
          | Some a \<Rightarrow> map_option (\<lambda>v. (a_name a, v))
              (if mech = ''SCRAM-SHA-256'' then a_scram256 a
               else if mech = ''SCRAM-SHA-512'' then a_scram512 a else None)))"

definition pubkey_lookup :: "db \<Rightarrow> string \<Rightarrow> (string \<times> string) option" where
  "pubkey_lookup d name =
     (case resolved_key d name of None \<Rightarrow> None
      | Some k \<Rightarrow> (case accounts (st d) k of None \<Rightarrow> None
          | Some a \<Rightarrow> map_option (\<lambda>p. (a_name a, p)) (a_pubkey a)))"

subsection \<open>Settings that need only the account\<close>

text \<open>The common shape: refuse an unknown account, log, update in place.\<close>

definition account_set ::
  "string \<Rightarrow> account_event \<Rightarrow> (account \<Rightarrow> account) \<Rightarrow> db \<Rightarrow> (reg_error + unit) \<times> db" where
  "account_set acct e f d =
     (if accounts (st d) (key acct) = None then (Inl RegInternal, d)
      else logged RegInternal (AccountEvent e) (\<lambda>d. (Inr (), on_account acct f d)) d)"

definition set_pubkey ::
  "(string \<Rightarrow> string option) \<Rightarrow> string \<Rightarrow> string option \<Rightarrow> db \<Rightarrow> (reg_error + unit) \<times> db" where
  "set_pubkey validate acct pubkey d =
     (if accounts (st d) (key acct) = None then (Inl RegInternal, d)
      else case pubkey of
        None \<Rightarrow> account_set acct (AccountPubkeySet acct None) (\<lambda>a. a\<lparr>a_pubkey := None\<rparr>) d
      | Some raw \<Rightarrow> (case validate raw of
          None \<Rightarrow> (Inl RegInvalid, d)
        | Some p \<Rightarrow> account_set acct (AccountPubkeySet acct (Some p)) (\<lambda>a. a\<lparr>a_pubkey := Some p\<rparr>) d))"

definition verify_account :: "string \<Rightarrow> db \<Rightarrow> (reg_error + unit) \<times> db" where
  "verify_account acct = account_set acct (AccountVerified acct) (\<lambda>a. a\<lparr>a_verified := True\<rparr>)"

definition set_email :: "string \<Rightarrow> string option \<Rightarrow> db \<Rightarrow> (reg_error + unit) \<times> db" where
  "set_email acct email = account_set acct (AccountEmailSet acct email) (\<lambda>a. a\<lparr>a_email := email\<rparr>)"

definition set_greet :: "string \<Rightarrow> string \<Rightarrow> db \<Rightarrow> (reg_error + unit) \<times> db" where
  "set_greet acct greet = account_set acct (AccountGreetSet acct greet) (\<lambda>a. a\<lparr>a_greet := greet\<rparr>)"

definition set_language :: "string \<Rightarrow> string option \<Rightarrow> db \<Rightarrow> (reg_error + unit) \<times> db" where
  "set_language acct lang =
     account_set acct (AccountLanguageSet acct lang) (\<lambda>a. a\<lparr>a_language := lang\<rparr>)"

definition set_swhois :: "string \<Rightarrow> string option \<Rightarrow> db \<Rightarrow> (reg_error + unit) \<times> db" where
  "set_swhois acct txt = account_set acct (AccountSwhoisSet acct txt) (\<lambda>a. a\<lparr>a_swhois := txt\<rparr>)"

definition set_signore :: "string \<Rightarrow> string list \<Rightarrow> db \<Rightarrow> (reg_error + unit) \<times> db" where
  "set_signore acct xs = account_set acct (AccountSignoreSet acct xs) (\<lambda>a. a\<lparr>a_signore := xs\<rparr>)"

definition set_profile ::
  "string \<Rightarrow> profile_field \<Rightarrow> string option \<Rightarrow> db \<Rightarrow> (reg_error + unit) \<times> db" where
  "set_profile acct field v =
     account_set acct (AccountProfileSet acct (meta_key field) v)
       (\<lambda>a. a\<lparr>a_profile := profile_set field v (a_profile a)\<rparr>)"

definition set_account_autoop :: "string \<Rightarrow> bool \<Rightarrow> db \<Rightarrow> (reg_error + unit) \<times> db" where
  "set_account_autoop acct on =
     account_set acct (AccountAutoOpSet acct on) (\<lambda>a. a\<lparr>a_no_autoop := \<not> on\<rparr>)"

definition set_account_kill :: "string \<Rightarrow> bool \<Rightarrow> db \<Rightarrow> (reg_error + unit) \<times> db" where
  "set_account_kill acct on =
     account_set acct (AccountKillSet acct on) (\<lambda>a. a\<lparr>a_no_protect := \<not> on\<rparr>)"

definition set_account_hide_status :: "string \<Rightarrow> bool \<Rightarrow> db \<Rightarrow> (reg_error + unit) \<times> db" where
  "set_account_hide_status acct on =
     account_set acct (AccountHideStatusSet acct on) (\<lambda>a. a\<lparr>a_hide_status := on\<rparr>)"

definition set_account_snotice :: "string \<Rightarrow> bool \<Rightarrow> db \<Rightarrow> (reg_error + unit) \<times> db" where
  "set_account_snotice acct on =
     account_set acct (AccountSnoticeSet acct on) (\<lambda>a. a\<lparr>a_snotice := on\<rparr>)"

definition set_credentials :: "string \<Rightarrow> credentials \<Rightarrow> db \<Rightarrow> (reg_error + unit) \<times> db" where
  "set_credentials acct creds =
     account_set acct (AccountPasswordSet acct (cr_scram256 creds) (cr_scram512 creds))
       (\<lambda>a. a\<lparr>a_scram256 := Some (cr_scram256 creds), a_scram512 := Some (cr_scram512 creds)\<rparr>)"

definition suspend_account ::
  "nat \<Rightarrow> string \<Rightarrow> string \<Rightarrow> string \<Rightarrow> nat option \<Rightarrow> db \<Rightarrow> (reg_error + unit) \<times> db" where
  "suspend_account now acct by_who reason expires =
     account_set acct (AccountSuspended acct by_who reason now expires)
       (\<lambda>a. a\<lparr>a_suspension := Some \<lparr>su_by = by_who, su_reason = reason, su_ts = now,
          su_expires = expires\<rparr>\<rparr>)"

definition unsuspend_account :: "string \<Rightarrow> db \<Rightarrow> (reg_error + bool) \<times> db" where
  "unsuspend_account acct d =
     (case accounts (st d) (key acct) of
        None \<Rightarrow> (Inl RegInternal, d)
      | Some a \<Rightarrow> if a_suspension a = None then (Inr False, d)
          else logged RegInternal (AccountEvent (AccountUnsuspended acct))
                 (\<lambda>d. (Inr True, on_account acct (\<lambda>a. a\<lparr>a_suspension := None\<rparr>) d)) d)"

definition drop_account :: "string \<Rightarrow> db \<Rightarrow> (reg_error + bool) \<times> db" where
  "drop_account acct d =
     (if accounts (st d) (key acct) = None then (Inr False, d)
      else logged RegInternal (AccountDropped acct)
             (\<lambda>d. (Inr True, on_store (\<lambda>s. purge_account_refs acct
                (s\<lparr>accounts := (accounts s)(key acct := None)\<rparr>)) d)) d)"

definition set_account_noexpire :: "string \<Rightarrow> bool \<Rightarrow> db \<Rightarrow> (reg_error + bool) \<times> db" where
  "set_account_noexpire acct on d =
     (case accounts (st d) (key acct) of
        None \<Rightarrow> (Inl RegInternal, d)
      | Some a \<Rightarrow> if a_noexpire a = on then (Inr False, d)
          else logged RegInternal (AccountEvent (AccountNoExpire acct on))
                 (\<lambda>d. (Inr True, on_account acct (\<lambda>a. a\<lparr>a_noexpire := on\<rparr>) d)) d)"

subsection \<open>Certificate fingerprints\<close>

definition is_ascii_hexdigit :: "char \<Rightarrow> bool" where
  "is_ascii_hexdigit c \<longleftrightarrow> is_ascii_digit c \<or> 97 \<le> code c \<and> code c \<le> 102 \<or> 65 \<le> code c \<and> code c \<le> 70"

definition valid_fp :: "string \<Rightarrow> bool" where
  "valid_fp fp \<longleftrightarrow>
     (let hex = length (filter (\<lambda>c. c \<noteq> CHR '':'') fp) in
      32 \<le> hex \<and> hex \<le> 128 \<and> (\<forall>c \<in> set fp. is_ascii_hexdigit c \<or> c = CHR '':''))"

definition max_certfp :: nat where "max_certfp = 25"

text \<open>\<^verbatim>\<open>values().find(...)\<close>: the first account in the walk \<open>ks\<close> that lists the fingerprint.\<close>

definition certfp_owner :: "string list \<Rightarrow> db \<Rightarrow> string \<Rightarrow> string option" where
  "certfp_owner ks d fp =
     map_option a_name (find (\<lambda>a. key fp \<in> set (a_certfps a)) (values_of ks (accounts (st d))))"

definition certfp_add :: "string list \<Rightarrow> string \<Rightarrow> string \<Rightarrow> db \<Rightarrow> (cert_error + unit) \<times> db" where
  "certfp_add ks acct fp0 d =
     (let fp = key fp0 in
      if \<not> valid_fp fp then (Inl CertInvalid, d)
      else if certfp_owner ks d fp \<noteq> None then (Inl CertInUse, d)
      else case accounts (st d) (key acct) of
        None \<Rightarrow> (Inl CertNoAccount, d)
      | Some a \<Rightarrow> if length (a_certfps a) \<ge> max_certfp then (Inl CertFull, d)
          else logged CertInternal (AccountEvent (CertAdded acct fp))
                 (\<lambda>d. (Inr (), on_account acct (\<lambda>a. a\<lparr>a_certfps := a_certfps a @ [fp]\<rparr>) d)) d)"

definition certfp_del :: "string \<Rightarrow> string \<Rightarrow> db \<Rightarrow> (cert_error + bool) \<times> db" where
  "certfp_del acct fp0 d =
     (let fp = key fp0 in
      case accounts (st d) (key acct) of
        None \<Rightarrow> (Inl CertNoAccount, d)
      | Some a \<Rightarrow> if fp \<notin> set (a_certfps a) then (Inr False, d)
          else logged CertInternal (AccountEvent (CertRemoved acct fp))
                 (\<lambda>d. (Inr True, on_account acct
                    (\<lambda>a. a\<lparr>a_certfps := filter (\<lambda>c. c \<noteq> fp) (a_certfps a)\<rparr>) d)) d)"

subsection \<open>Auto-join\<close>

definition ajoin_add :: "string \<Rightarrow> string \<Rightarrow> string \<Rightarrow> db \<Rightarrow> (reg_error + bool) \<times> db" where
  "ajoin_add acct chan join_key d =
     (case accounts (st d) (key acct) of
        None \<Rightarrow> (Inl RegInternal, d)
      | Some a \<Rightarrow>
          let existed = (\<exists>e \<in> set (a_ajoin a). eq_ignore_ascii_case (aj_channel e) chan) in
          logged RegInternal (AccountEvent (AjoinAdded acct chan join_key))
            (\<lambda>d. (Inr (\<not> existed), on_account acct (\<lambda>a. a\<lparr>a_ajoin :=
               filter (\<lambda>e. \<not> eq_ignore_ascii_case (aj_channel e) chan) (a_ajoin a) @
               [\<lparr>aj_channel = chan, aj_key = join_key\<rparr>]\<rparr>) d)) d)"

definition ajoin_del :: "string \<Rightarrow> string \<Rightarrow> db \<Rightarrow> (reg_error + bool) \<times> db" where
  "ajoin_del acct chan d =
     (case accounts (st d) (key acct) of
        None \<Rightarrow> (Inl RegInternal, d)
      | Some a \<Rightarrow>
          if \<not> (\<exists>e \<in> set (a_ajoin a). eq_ignore_ascii_case (aj_channel e) chan) then (Inr False, d)
          else logged RegInternal (AccountEvent (AjoinRemoved acct chan))
            (\<lambda>d. (Inr True, on_account acct (\<lambda>a. a\<lparr>a_ajoin :=
               filter (\<lambda>e. \<not> eq_ignore_ascii_case (aj_channel e) chan) (a_ajoin a)\<rparr>) d)) d)"

subsection \<open>Vhosts and the HostServ lists\<close>

text \<open>\<^verbatim>\<open>ts + t\<close> is a \<^verbatim>\<open>u64\<close> addition, which wraps in a release build.\<close>

definition u64_add :: "nat \<Rightarrow> nat \<Rightarrow> nat" where
  "u64_add a b = (a + b) mod 2 ^ 64"

definition set_vhost ::
  "nat \<Rightarrow> string \<Rightarrow> string \<Rightarrow> string \<Rightarrow> nat option \<Rightarrow> db \<Rightarrow> (reg_error + unit) \<times> db" where
  "set_vhost now acct host setter ttl =
     (let expires = map_option (u64_add now) ttl in
      account_set acct (VhostSet acct host setter now expires)
        (\<lambda>a. a\<lparr>a_vhost := Some \<lparr>vh_host = host, vh_setter = setter, vh_ts = now,
           vh_expires = expires\<rparr>\<rparr>))"

definition del_vhost :: "string \<Rightarrow> db \<Rightarrow> (reg_error + bool) \<times> db" where
  "del_vhost acct d =
     (case accounts (st d) (key acct) of
        None \<Rightarrow> (Inl RegInternal, d)
      | Some a \<Rightarrow> if a_vhost a = None then (Inr False, d)
          else logged RegInternal (AccountEvent (VhostDeleted acct))
                 (\<lambda>d. (Inr True, on_account acct (\<lambda>a. a\<lparr>a_vhost := None\<rparr>) d)) d)"

definition request_vhost :: "nat \<Rightarrow> string \<Rightarrow> string \<Rightarrow> db \<Rightarrow> (reg_error + unit) \<times> db" where
  "request_vhost now acct host d =
     (if accounts (st d) (key acct) = None then (Inl RegInternal, d)
      else logged RegInternal (AccountEvent (VhostRequested acct host now))
             (\<lambda>d. (Inr (), (on_account acct
                (\<lambda>a. a\<lparr>a_vhost_request := Some \<lparr>pv_host = host, pv_ts = now\<rparr>\<rparr>) d)
                \<lparr>vhost_req_times := (vhost_req_times d)(key acct \<mapsto> now)\<rparr>)) d)"

definition vhost_request_wait :: "nat \<Rightarrow> db \<Rightarrow> string \<Rightarrow> nat" where
  "vhost_request_wait now d acct =
     (case vhost_req_times d (key acct) of None \<Rightarrow> 0 | Some prev \<Rightarrow> 60 - (now - prev))"

definition take_vhost_request :: "string \<Rightarrow> db \<Rightarrow> (reg_error + string option) \<times> db" where
  "take_vhost_request acct d =
     (case accounts (st d) (key acct) of
        None \<Rightarrow> (Inl RegInternal, d)
      | Some a \<Rightarrow> (case a_vhost_request a of
          None \<Rightarrow> (Inr None, d)
        | Some r \<Rightarrow> logged RegInternal (AccountEvent (VhostRequestCleared acct))
            (\<lambda>d. (Inr (Some (pv_host r)), on_account acct (\<lambda>a. a\<lparr>a_vhost_request := None\<rparr>) d)) d))"

definition vhost_offer_add :: "string \<Rightarrow> db \<Rightarrow> (reg_error + bool) \<times> db" where
  "vhost_offer_add host d =
     (if host \<in> set (hc_offers (host_cfg (st d))) then (Inr False, d)
      else logged RegInternal (HostEvent (VhostOfferAdded host))
             (\<lambda>d. (Inr True, on_host (\<lambda>h. h\<lparr>hc_offers := hc_offers h @ [host]\<rparr>) d)) d)"

definition vhost_offer_del :: "nat \<Rightarrow> db \<Rightarrow> (reg_error + string option) \<times> db" where
  "vhost_offer_del index d =
     (if index = 0 \<or> index > length (hc_offers (host_cfg (st d))) then (Inr None, d)
      else let host = hc_offers (host_cfg (st d)) ! (index - 1) in
        logged RegInternal (HostEvent (VhostOfferRemoved host))
          (\<lambda>d. (Inr (Some host),
             on_host (\<lambda>h. h\<lparr>hc_offers := filter (\<lambda>x. x \<noteq> host) (hc_offers h)\<rparr>) d)) d)"

text \<open>\<open>compiles\<close> is whether the size-limited regex builder accepts the pattern.\<close>

definition vhost_forbid_add :: "(string \<Rightarrow> bool) \<Rightarrow> string \<Rightarrow> db \<Rightarrow> (reg_error + bool) \<times> db" where
  "vhost_forbid_add compiles pat d =
     (if \<not> compiles pat then (Inl RegInternal, d)
      else if pat \<in> set (hc_forbidden (host_cfg (st d))) then (Inr False, d)
      else logged RegInternal (HostEvent (VhostForbidAdded pat))
             (\<lambda>d. (Inr True, on_host (\<lambda>h. h\<lparr>hc_forbidden := hc_forbidden h @ [pat]\<rparr>) d)) d)"

definition vhost_forbid_del :: "nat \<Rightarrow> db \<Rightarrow> (reg_error + string option) \<times> db" where
  "vhost_forbid_del index d =
     (if index = 0 \<or> index > length (hc_forbidden (host_cfg (st d))) then (Inr None, d)
      else let pat = hc_forbidden (host_cfg (st d)) ! (index - 1) in
        logged RegInternal (HostEvent (VhostForbidRemoved pat))
          (\<lambda>d. (Inr (Some pat),
             on_host (\<lambda>h. h\<lparr>hc_forbidden := filter (\<lambda>x. x \<noteq> pat) (hc_forbidden h)\<rparr>) d)) d)"

definition set_vhost_template :: "string option \<Rightarrow> db \<Rightarrow> (reg_error + unit) \<times> db" where
  "set_vhost_template template =
     logged RegInternal (HostEvent (VhostTemplateSet template))
       (\<lambda>d. (Inr (), on_host (\<lambda>h. h\<lparr>hc_template := template\<rparr>) d))"

definition live_until :: "nat \<Rightarrow> nat option \<Rightarrow> bool" where
  "live_until now expires \<longleftrightarrow> (case expires of None \<Rightarrow> True | Some e \<Rightarrow> e > now)"

definition active_vhost :: "nat \<Rightarrow> db \<Rightarrow> string \<Rightarrow> string option" where
  "active_vhost now d acct =
     (case accounts (st d) (key acct) of None \<Rightarrow> None
      | Some a \<Rightarrow> (case a_vhost a of None \<Rightarrow> None
          | Some v \<Rightarrow> if live_until now (vh_expires v) then Some (vh_host v) else None))"

definition vhost_owner :: "string list \<Rightarrow> nat \<Rightarrow> db \<Rightarrow> string \<Rightarrow> string option" where
  "vhost_owner ks now d host =
     map_option a_name (find (\<lambda>a. case a_vhost a of None \<Rightarrow> False
        | Some v \<Rightarrow> eq_ignore_ascii_case (vh_host v) host \<and> live_until now (vh_expires v))
       (values_of ks (accounts (st d))))"

subsection \<open>Emailed codes and the password throttle\<close>

definition nanos :: nat where "nanos = 1000000000"

text \<open>\<open>gen\<close> is the freshly drawn code, \<open>i\<close> the monotonic clock in nanoseconds.\<close>

definition issue_code :: "string \<Rightarrow> nat \<Rightarrow> string \<Rightarrow> code_kind \<Rightarrow> db \<Rightarrow> string \<times> db" where
  "issue_code gen i acct kind d =
     (gen, d\<lparr>codes := (codes d)(key acct \<mapsto> \<lparr>pc_kind = kind, pc_code = gen, pc_issued = i,
        pc_deadline = i + 900 * nanos, pc_tries_left = 5\<rparr>)\<rparr>)"

definition code_issue_wait :: "nat \<Rightarrow> db \<Rightarrow> string \<Rightarrow> nat" where
  "code_issue_wait i d acct =
     (case codes d (key acct) of None \<Rightarrow> 0
      | Some pc \<Rightarrow> let ready = pc_issued pc + 60 * nanos in
          if ready \<ge> i then (ready - i) div nanos + 1 else 0)"

definition take_code :: "nat \<Rightarrow> string \<Rightarrow> code_kind \<Rightarrow> string \<Rightarrow> db \<Rightarrow> bool \<times> db" where
  "take_code i acct kind given d =
     (let k = key acct in
      case codes d k of
        None \<Rightarrow> (False, d)
      | Some pc \<Rightarrow>
          if pc_deadline pc \<le> i then (False, d\<lparr>codes := (codes d)(k := None)\<rparr>)
          else if pc_kind pc = kind \<and> pc_code pc = given
          then (True, d\<lparr>codes := (codes d)(k := None)\<rparr>)
          else let left = pc_tries_left pc - 1 in
               if left = 0 then (False, d\<lparr>codes := (codes d)(k := None)\<rparr>)
               else (False, d\<lparr>codes := (codes d)(k \<mapsto> pc\<lparr>pc_tries_left := left\<rparr>)\<rparr>))"

definition throttle_key :: "db \<Rightarrow> string \<Rightarrow> string" where
  "throttle_key d acct = (case resolved_key d acct of None \<Rightarrow> key acct | Some k \<Rightarrow> k)"

definition auth_lockout :: "nat \<Rightarrow> db \<Rightarrow> string \<Rightarrow> nat option" where
  "auth_lockout i d acct =
     (case auth_fails d (throttle_key d acct) of None \<Rightarrow> None
      | Some t \<Rightarrow> (case th_locked_until t of None \<Rightarrow> None
          | Some until \<Rightarrow> if until > i then Some ((until - i) div nanos + 1) else None))"

definition backoff_secs :: "nat \<Rightarrow> nat" where
  "backoff_secs fails = min (2 ^ min (fails - 3 - 1) 9) 300"

definition note_auth :: "nat \<Rightarrow> string \<Rightarrow> bool \<Rightarrow> db \<Rightarrow> db" where
  "note_auth i acct success d =
     (let k = throttle_key d acct in
      if success then d\<lparr>auth_fails := (auth_fails d)(k := None)\<rparr>
      else let t = (case auth_fails d k of None \<Rightarrow> \<lparr>th_fails = 0, th_locked_until = None\<rparr>
                    | Some t \<Rightarrow> t);
               t1 = t\<lparr>th_fails := th_fails t + 1\<rparr>;
               t2 = (if th_fails t1 > 3
                     then t1\<lparr>th_locked_until := Some (i + backoff_secs (th_fails t1) * nanos)\<rparr>
                     else t1)
           in d\<lparr>auth_fails := (auth_fails d)(k \<mapsto> t2)\<rparr>)"

subsection \<open>Activity and expiry\<close>

definition mark_account_seen :: "string \<Rightarrow> nat \<Rightarrow> db \<Rightarrow> db" where
  "mark_account_seen acct now d =
     (let stale = (case accounts (st d) (key acct) of None \<Rightarrow> False
                   | Some a \<Rightarrow> now - max (a_last_seen a) (a_ts a) \<ge> 86400)
      in if stale
         then on_account acct (\<lambda>a. a\<lparr>a_last_seen := max (a_last_seen a) now, a_expiry_warned := False\<rparr>)
                (logged_ignore (AccountEvent (AccountSeen acct now)) d)
         else d)"

definition mark_account_warned :: "string \<Rightarrow> db \<Rightarrow> db" where
  "mark_account_warned acct d =
     (if accounts (st d) (key acct) \<noteq> None
      then on_account acct (\<lambda>a. a\<lparr>a_expiry_warned := True\<rparr>)
             (logged_ignore (AccountEvent (AccountExpiryWarned acct)) d)
      else d)"

definition set_account_note :: "string \<Rightarrow> string option \<Rightarrow> db \<Rightarrow> bool \<times> db" where
  "set_account_note acct note d =
     (if accounts (st d) (key acct) = None then (False, d)
      else (True, on_account acct (\<lambda>a. a\<lparr>a_oper_note := note\<rparr>)
             (logged_ignore (AccountEvent (AccountOperNoteSet acct note)) d)))"

definition account_idle :: "nat \<Rightarrow> account \<Rightarrow> nat" where
  "account_idle now a = now - max (a_last_seen a) (a_ts a)"

definition expired_accounts :: "string list \<Rightarrow> nat \<Rightarrow> nat \<Rightarrow> db \<Rightarrow> string list" where
  "expired_accounts ks now ttl d =
     map a_name (filter (\<lambda>a. \<not> a_noexpire a \<and> a_suspension a = None \<and> account_idle now a > ttl)
       (values_of ks (accounts (st d))))"

definition accounts_to_warn ::
  "string list \<Rightarrow> nat \<Rightarrow> nat \<Rightarrow> nat \<Rightarrow> db \<Rightarrow> (string \<times> string \<times> nat) list" where
  "accounts_to_warn ks now ttl lead d =
     (let floor = ttl - lead in
      List.map_filter (\<lambda>a. let idle = account_idle now a in
          if idle > floor \<and> idle \<le> ttl
          then Some (a_name a, case a_email a of None \<Rightarrow> [] | Some e \<Rightarrow> e, ttl - idle) else None)
        (filter (\<lambda>a. \<not> a_noexpire a \<and> \<not> a_expiry_warned a \<and> a_suspension a = None \<and>
             a_email a \<noteq> None)
          (values_of ks (accounts (st d)))))"

subsection \<open>Every operation keeps the contract\<close>

context db_invariant
begin

lemma kept_account_set:
  assumes "kept d" and "\<And>m. apply_account e m = modify (key acct) f m"
  shows "kept (snd (account_set acct e f d))"
  using assms(1) by (auto simp: account_set_def assms(2) intro!: kept_logged)

lemma kept_insert_account:
  assumes "kept d" and "accounts (st d) (key name) = None" and "a_name a = name"
  shows "kept (snd (insert_account name a d))"
  using assms by (auto simp: insert_account_def intro!: kept_logged)

lemma not_exists: "\<not> exists_account d name \<Longrightarrow> accounts (st d) (key name) = None"
  by (auto simp: exists_account_def resolved_key_def Let_def split: if_splits)

lemma kept_register_prepared: "kept d \<Longrightarrow> kept (snd (register_prepared now name creds email d))"
  by (auto simp: register_prepared_def Let_def new_account_def intro!: kept_insert_account
      dest: not_exists)

lemma kept_provision_account: "kept d \<Longrightarrow> kept (snd (provision_account now name s256 s512 email d))"
  by (auto simp: provision_account_def some_unless_empty_def new_account_def
      intro!: kept_insert_account kept_logged dest: not_exists)

lemma kept_set_pubkey: "kept d \<Longrightarrow> kept (snd (set_pubkey validate acct pubkey d))"
  by (auto simp: set_pubkey_def intro!: kept_account_set split: option.split)

lemma kept_set_profile: "kept d \<Longrightarrow> kept (snd (set_profile acct field v d))"
  unfolding set_profile_def by (rule kept_account_set) simp_all

lemma kept_set_credentials:
  "kept d \<Longrightarrow> cr_scram512 creds \<noteq> [] \<Longrightarrow> kept (snd (set_credentials acct creds d))"
  unfolding set_credentials_def by (rule kept_account_set) simp_all

lemma kept_account_setters:
  assumes "kept d"
  shows "kept (snd (verify_account acct d))" "kept (snd (set_email acct email d))"
    "kept (snd (set_greet acct greet d))" "kept (snd (set_language acct lang d))"
    "kept (snd (set_swhois acct txt d))" "kept (snd (set_signore acct xs d))"
    "kept (snd (set_account_autoop acct on d))" "kept (snd (set_account_kill acct on d))"
    "kept (snd (set_account_hide_status acct on d))" "kept (snd (set_account_snotice acct on d))"
    "kept (snd (suspend_account now acct by_who reason expires d))"
    "kept (snd (set_vhost now acct host setter ttl d))"
  unfolding verify_account_def set_email_def set_greet_def set_language_def set_swhois_def
    set_signore_def set_account_autoop_def set_account_kill_def set_account_hide_status_def
    set_account_snotice_def suspend_account_def set_vhost_def Let_def
  by (rule kept_account_set [OF assms], simp)+

lemma kept_unsuspend_account: "kept d \<Longrightarrow> kept (snd (unsuspend_account acct d))"
  by (auto simp: unsuspend_account_def intro!: kept_logged split: option.split)

lemma kept_drop_account: "kept d \<Longrightarrow> kept (snd (drop_account acct d))"
  by (auto simp: drop_account_def intro!: kept_logged)

lemma kept_set_account_noexpire: "kept d \<Longrightarrow> kept (snd (set_account_noexpire acct on d))"
  by (auto simp: set_account_noexpire_def intro!: kept_logged split: option.split)

text \<open>A certificate is pushed only when no listed account has it, so the fold pushes it too.\<close>

lemma certfp_owner_None:
  assumes "certfp_owner ks d fp = None" and "set ks = dom (accounts (st d))"
    and "accounts (st d) k = Some a"
  shows "key fp \<notin> set (a_certfps a)"
  using assms by (auto simp: certfp_owner_def find_None_iff set_values_of)

lemma kept_certfp_add:
  assumes "kept d" and "set ks = dom (accounts (st d))"
  shows "kept (snd (certfp_add ks acct fp d))"
  using assms certfp_owner_None [of ks d "key fp"]
  by (auto simp: certfp_add_def Let_def modify_def push_new_def intro!: kept_logged
      split: option.split)

lemma kept_certfp_del: "kept d \<Longrightarrow> kept (snd (certfp_del acct fp d))"
  by (auto simp: certfp_del_def Let_def intro!: kept_logged split: option.split)

lemma kept_ajoin:
  assumes "kept d"
  shows "kept (snd (ajoin_add acct chan join_key d))" "kept (snd (ajoin_del acct chan d))"
  using assms
  by (auto simp: ajoin_add_def ajoin_del_def ajoin_put_def ajoin_del_key_def Let_def
      intro!: kept_logged split: option.split)

lemma kept_vhosts:
  assumes "kept d"
  shows "kept (snd (del_vhost acct d))" "kept (snd (request_vhost now acct host d))"
    "kept (snd (take_vhost_request acct d))"
  using assms
  by (auto simp: del_vhost_def request_vhost_def take_vhost_request_def intro!: kept_logged
      split: option.split)

lemma kept_host_lists:
  assumes "kept d"
  shows "kept (snd (vhost_offer_add host d))" "kept (snd (vhost_offer_del i d))"
    "kept (snd (vhost_forbid_add compiles pat d))" "kept (snd (vhost_forbid_del i d))"
    "kept (snd (set_vhost_template template d))"
  using assms
  by (auto simp: vhost_offer_add_def vhost_offer_del_def vhost_forbid_add_def vhost_forbid_del_def
      set_vhost_template_def push_new_def Let_def intro!: kept_logged)

lemma kept_node_local:
  assumes "kept d"
  shows "kept (snd (issue_code gen i acct kind d))" "kept (snd (take_code i acct kind given d))"
    "kept (note_auth i acct success d)"
  using assms
  by (auto simp: kept_def issue_code_def take_code_def note_auth_def Let_def split: option.split)

end

context online_invariant
begin

lemma kept_mark_account_seen: "kept d \<Longrightarrow> kept (mark_account_seen acct now d)"
  unfolding mark_account_seen_def Let_def
  by (auto intro: kept_ignore_account)

lemma kept_mark_account_warned: "kept d \<Longrightarrow> kept (mark_account_warned acct d)"
  unfolding mark_account_warned_def
  by (auto intro: kept_ignore_account)

lemma kept_set_account_note: "kept d \<Longrightarrow> kept (snd (set_account_note acct note d))"
  unfolding set_account_note_def
  by (auto intro: kept_ignore_account)

end

end
