(* ===== verification/ChannelOps.thy ===== *)
theory ChannelOps
  imports AccountOps
begin

text \<open>
  The channel operations of the database (src/src/engine/db/channel.rs, and the channel half
  of the expiry helpers in account.rs): registration, access, auto-kick and level lists with
  their caps, founder and successor, settings, kickers, badwords, triggers, topic, suspension,
  rename and drop, and the release of a departing founder's channels.
\<close>

definition max_chan_list :: nat where "max_chan_list = 256"

definition register_channel :: "nat \<Rightarrow> string \<Rightarrow> string \<Rightarrow> db \<Rightarrow> (chan_error + unit) \<times> db" where
  "register_channel now name founder d =
     (if channels (st d) (key name) \<noteq> None then (Inl ChanExists, d)
      else logged ChanInternal (ChannelEvent (ChannelRegistered name founder now))
             (\<lambda>d. (Inr (), on_store (\<lambda>s. s\<lparr>channels :=
                (channels s)(key name \<mapsto> new_channel name founder now)\<rparr>) d)) d)"

definition channels_owned_by :: "string list \<Rightarrow> db \<Rightarrow> string \<Rightarrow> string list" where
  "channels_owned_by ks d acct =
     map c_name (filter (\<lambda>c. eq_ignore_ascii_case (c_founder c) acct)
       (values_of ks (channels (st d))))"

subsection \<open>Settings that need only the channel\<close>

definition channel_set ::
  "string \<Rightarrow> channel_event \<Rightarrow> (channel_info \<Rightarrow> channel_info) \<Rightarrow> db \<Rightarrow> (chan_error + unit) \<times> db" where
  "channel_set chan e f d =
     (if channels (st d) (key chan) = None then (Inl ChanNoChannel, d)
      else logged ChanInternal (ChannelEvent e) (\<lambda>d. (Inr (), on_channel chan f d)) d)"

definition set_mlock_params ::
  "string \<Rightarrow> string \<Rightarrow> string \<Rightarrow> (char \<times> string) list \<Rightarrow> db \<Rightarrow> (chan_error + unit) \<times> db" where
  "set_mlock_params name on off params =
     channel_set name (ChannelMlock name on off params)
       (\<lambda>c. c\<lparr>c_lock_on := on, c_lock_off := off, c_lock_params := params\<rparr>)"

definition level_set :: "string \<Rightarrow> string \<Rightarrow> string \<Rightarrow> db \<Rightarrow> (chan_error + unit) \<times> db" where
  "level_set chan cap role =
     channel_set chan (ChannelLevelSet chan cap role)
       (\<lambda>c. c\<lparr>c_levels :=
          filter (\<lambda>e. \<not> eq_ignore_ascii_case (fst e) cap) (c_levels c) @ [(cap, role)]\<rparr>)"

definition set_founder :: "string \<Rightarrow> string \<Rightarrow> db \<Rightarrow> (chan_error + unit) \<times> db" where
  "set_founder chan acct = channel_set chan (ChannelFounderSet chan acct) (\<lambda>c. c\<lparr>c_founder := acct\<rparr>)"

definition set_successor :: "string \<Rightarrow> string option \<Rightarrow> db \<Rightarrow> (chan_error + unit) \<times> db" where
  "set_successor chan succ =
     channel_set chan (ChannelSuccessorSet chan succ) (\<lambda>c. c\<lparr>c_successor := succ\<rparr>)"

definition set_desc :: "string \<Rightarrow> string \<Rightarrow> db \<Rightarrow> (chan_error + unit) \<times> db" where
  "set_desc chan desc = channel_set chan (ChannelDescSet chan desc) (\<lambda>c. c\<lparr>c_desc := desc\<rparr>)"

definition set_url :: "string \<Rightarrow> string \<Rightarrow> db \<Rightarrow> (chan_error + unit) \<times> db" where
  "set_url chan url = channel_set chan (ChannelUrlSet chan url) (\<lambda>c. c\<lparr>c_url := url\<rparr>)"

definition set_channel_email :: "string \<Rightarrow> string \<Rightarrow> db \<Rightarrow> (chan_error + unit) \<times> db" where
  "set_channel_email chan email =
     channel_set chan (ChannelEmailSet chan email) (\<lambda>c. c\<lparr>c_email := email\<rparr>)"

definition set_entrymsg :: "string \<Rightarrow> string \<Rightarrow> db \<Rightarrow> (chan_error + unit) \<times> db" where
  "set_entrymsg chan msg =
     channel_set chan (ChannelEntryMsgSet chan msg) (\<lambda>c. c\<lparr>c_entrymsg := msg\<rparr>)"

definition set_channel_topic :: "string \<Rightarrow> string \<Rightarrow> string \<Rightarrow> db \<Rightarrow> (chan_error + unit) \<times> db" where
  "set_channel_topic chan topic setter =
     channel_set chan (ChannelTopicSet chan topic setter)
       (\<lambda>c. c\<lparr>c_topic := topic, c_topic_setter := setter\<rparr>)"

definition suspend_channel ::
  "nat \<Rightarrow> string \<Rightarrow> string \<Rightarrow> string \<Rightarrow> nat option \<Rightarrow> db \<Rightarrow> (chan_error + unit) \<times> db" where
  "suspend_channel now chan by_who reason expires =
     channel_set chan (ChannelSuspended chan by_who reason now expires)
       (\<lambda>c. c\<lparr>c_suspension := Some \<lparr>su_by = by_who, su_reason = reason, su_ts = now,
          su_expires = expires\<rparr>\<rparr>)"

definition assign_bot :: "string \<Rightarrow> string \<Rightarrow> db \<Rightarrow> (chan_error + unit) \<times> db" where
  "assign_bot chan b =
     channel_set chan (ChannelBotAssigned chan b) (\<lambda>c. c\<lparr>c_assigned_bot := Some b\<rparr>)"

text \<open>Options that only flip something already set report whether they did.\<close>

definition channel_clear ::
  "string \<Rightarrow> (channel_info \<Rightarrow> bool) \<Rightarrow> channel_event \<Rightarrow> (channel_info \<Rightarrow> channel_info) \<Rightarrow> db \<Rightarrow>
   (chan_error + bool) \<times> db" where
  "channel_clear chan present e f d =
     (case channels (st d) (key chan) of
        None \<Rightarrow> (Inl ChanNoChannel, d)
      | Some c \<Rightarrow> if \<not> present c then (Inr False, d)
          else logged ChanInternal (ChannelEvent e) (\<lambda>d. (Inr True, on_channel chan f d)) d)"

definition access_del :: "string \<Rightarrow> string \<Rightarrow> db \<Rightarrow> (chan_error + bool) \<times> db" where
  "access_del chan acct =
     channel_clear chan (\<lambda>c. \<exists>a \<in> set (c_access c). eq_ignore_ascii_case (ca_account a) acct)
       (ChannelAccessDel chan acct)
       (\<lambda>c. c\<lparr>c_access := filter (\<lambda>a. \<not> eq_ignore_ascii_case (ca_account a) acct) (c_access c)\<rparr>)"

definition akick_del :: "string \<Rightarrow> string \<Rightarrow> db \<Rightarrow> (chan_error + bool) \<times> db" where
  "akick_del chan msk =
     channel_clear chan (\<lambda>c. \<exists>a \<in> set (c_akick c). eq_ignore_ascii_case (ak_mask a) msk)
       (ChannelAkickDel chan msk)
       (\<lambda>c. c\<lparr>c_akick := filter (\<lambda>a. \<not> eq_ignore_ascii_case (ak_mask a) msk) (c_akick c)\<rparr>)"

definition level_reset :: "string \<Rightarrow> string \<Rightarrow> db \<Rightarrow> (chan_error + bool) \<times> db" where
  "level_reset chan cap =
     channel_clear chan (\<lambda>c. \<exists>e \<in> set (c_levels c). eq_ignore_ascii_case (fst e) cap)
       (ChannelLevelReset chan cap)
       (\<lambda>c. c\<lparr>c_levels := filter (\<lambda>e. \<not> eq_ignore_ascii_case (fst e) cap) (c_levels c)\<rparr>)"

definition unsuspend_channel :: "string \<Rightarrow> db \<Rightarrow> (chan_error + bool) \<times> db" where
  "unsuspend_channel chan =
     channel_clear chan (\<lambda>c. c_suspension c \<noteq> None) (ChannelUnsuspended chan)
       (\<lambda>c. c\<lparr>c_suspension := None\<rparr>)"

definition unassign_bot :: "string \<Rightarrow> db \<Rightarrow> (chan_error + bool) \<times> db" where
  "unassign_bot chan =
     channel_clear chan (\<lambda>c. c_assigned_bot c \<noteq> None) (ChannelBotUnassigned chan)
       (\<lambda>c. c\<lparr>c_assigned_bot := None\<rparr>)"

definition set_channel_noexpire :: "string \<Rightarrow> bool \<Rightarrow> db \<Rightarrow> (chan_error + bool) \<times> db" where
  "set_channel_noexpire chan on =
     channel_clear chan (\<lambda>c. c_noexpire c \<noteq> on) (ChannelNoExpire chan on)
       (\<lambda>c. c\<lparr>c_noexpire := on\<rparr>)"

subsection \<open>Capped lists\<close>

definition access_add :: "string \<Rightarrow> string \<Rightarrow> string \<Rightarrow> db \<Rightarrow> (chan_error + unit) \<times> db" where
  "access_add chan acct level d =
     (case channels (st d) (key chan) of
        None \<Rightarrow> (Inl ChanNoChannel, d)
      | Some c \<Rightarrow>
          if length (c_access c) \<ge> max_chan_list \<and>
             \<not> (\<exists>a \<in> set (c_access c). eq_ignore_ascii_case (ca_account a) acct)
          then (Inl ChanFull, d)
          else logged ChanInternal (ChannelEvent (ChannelAccessAdd chan acct level))
                 (\<lambda>d. (Inr (), on_channel chan (\<lambda>c. c\<lparr>c_access :=
                    filter (\<lambda>a. \<not> eq_ignore_ascii_case (ca_account a) acct) (c_access c) @
                    [\<lparr>ca_account = acct, ca_level = level\<rparr>]\<rparr>) d)) d)"

definition akick_add :: "string \<Rightarrow> string \<Rightarrow> string \<Rightarrow> db \<Rightarrow> (chan_error + unit) \<times> db" where
  "akick_add chan msk reason d =
     (case channels (st d) (key chan) of
        None \<Rightarrow> (Inl ChanNoChannel, d)
      | Some c \<Rightarrow>
          if length (c_akick c) \<ge> max_chan_list \<and>
             \<not> (\<exists>a \<in> set (c_akick c). eq_ignore_ascii_case (ak_mask a) msk)
          then (Inl ChanFull, d)
          else logged ChanInternal (ChannelEvent (ChannelAkickAdd chan msk reason))
                 (\<lambda>d. (Inr (), on_channel chan (\<lambda>c. c\<lparr>c_akick :=
                    filter (\<lambda>a. \<not> eq_ignore_ascii_case (ak_mask a) msk) (c_akick c) @
                    [\<lparr>ak_mask = msk, ak_reason = reason\<rparr>]\<rparr>) d)) d)"

subsection \<open>Settings and kickers\<close>

datatype chan_setting =
    SignKick | SignKickLevel | Private | Peace | SecureOps | SecureVoices | Restricted | AutoOp
  | KeepTopic | TopicLock | BotGreet | NoBot

fun put_setting :: "chan_setting \<Rightarrow> bool \<Rightarrow> chan_settings \<Rightarrow> chan_settings" where
  "put_setting SignKick on s = s\<lparr>cs_signkick := on\<rparr>"
| "put_setting SignKickLevel on s = s\<lparr>cs_signkick_level := on\<rparr>"
| "put_setting Private on s = s\<lparr>cs_private := on\<rparr>"
| "put_setting Peace on s = s\<lparr>cs_peace := on\<rparr>"
| "put_setting SecureOps on s = s\<lparr>cs_secureops := on\<rparr>"
| "put_setting SecureVoices on s = s\<lparr>cs_securevoices := on\<rparr>"
| "put_setting Restricted on s = s\<lparr>cs_restricted := on\<rparr>"
| "put_setting AutoOp on s = s\<lparr>cs_noautoop := \<not> on\<rparr>"
| "put_setting KeepTopic on s = s\<lparr>cs_keeptopic := on\<rparr>"
| "put_setting TopicLock on s = s\<lparr>cs_topiclock := on\<rparr>"
| "put_setting BotGreet on s = s\<lparr>cs_bot_greet := on\<rparr>"
| "put_setting NoBot on s = s\<lparr>cs_nobot := on\<rparr>"

definition set_channel_setting :: "string \<Rightarrow> chan_setting \<Rightarrow> bool \<Rightarrow> db \<Rightarrow> (chan_error + unit) \<times> db" where
  "set_channel_setting chan setting on d =
     (case channels (st d) (key chan) of
        None \<Rightarrow> (Inl ChanNoChannel, d)
      | Some c \<Rightarrow> let settings = put_setting setting on (c_settings c) in
          logged ChanInternal (ChannelEvent (ChannelSettingsSet chan settings))
            (\<lambda>d. (Inr (), on_channel chan (\<lambda>c. c\<lparr>c_settings := settings\<rparr>) d)) d)"

datatype kicker =
    KCaps | KBolds | KColors | KUnderlines | KReverses | KItalics | KFlood | KRepeat | KBadwords
  | KWarn | KDontKickOps | KDontKickVoices

fun put_kicker :: "kicker \<Rightarrow> bool \<Rightarrow> kicker_settings \<Rightarrow> kicker_settings" where
  "put_kicker KCaps on k = k\<lparr>k_caps := on\<rparr>"
| "put_kicker KBolds on k = k\<lparr>k_bolds := on\<rparr>"
| "put_kicker KColors on k = k\<lparr>k_colors := on\<rparr>"
| "put_kicker KUnderlines on k = k\<lparr>k_underlines := on\<rparr>"
| "put_kicker KReverses on k = k\<lparr>k_reverses := on\<rparr>"
| "put_kicker KItalics on k = k\<lparr>k_italics := on\<rparr>"
| "put_kicker KFlood on k = k\<lparr>k_flood := on\<rparr>"
| "put_kicker KRepeat on k = k\<lparr>k_repeat := on\<rparr>"
| "put_kicker KBadwords on k = k\<lparr>k_badwords := on\<rparr>"
| "put_kicker KWarn on k = k\<lparr>k_warn := on\<rparr>"
| "put_kicker KDontKickOps on k = k\<lparr>k_dontkickops := on\<rparr>"
| "put_kicker KDontKickVoices on k = k\<lparr>k_dontkickvoices := on\<rparr>"

definition update_kickers ::
  "string \<Rightarrow> (kicker_settings \<Rightarrow> kicker_settings) \<Rightarrow> db \<Rightarrow> (chan_error + unit) \<times> db" where
  "update_kickers chan f d =
     (case channels (st d) (key chan) of
        None \<Rightarrow> (Inl ChanNoChannel, d)
      | Some c \<Rightarrow> let kickers = f (c_kickers c) in
          logged ChanInternal (ChannelEvent (ChannelKickerSet chan kickers))
            (\<lambda>d. (Inr (), on_channel chan (\<lambda>c. c\<lparr>c_kickers := kickers\<rparr>) d)) d)"

definition set_kicker :: "string \<Rightarrow> kicker \<Rightarrow> bool \<Rightarrow> db \<Rightarrow> (chan_error + unit) \<times> db" where
  "set_kicker chan kk on = update_kickers chan (put_kicker kk on)"

definition set_caps_kicker :: "string \<Rightarrow> nat \<Rightarrow> nat \<Rightarrow> db \<Rightarrow> (chan_error + unit) \<times> db" where
  "set_caps_kicker chan caps_min percent =
     update_kickers chan (\<lambda>k. k\<lparr>k_caps := True, k_caps_min := caps_min, k_caps_percent := percent\<rparr>)"

definition set_flood_kicker :: "string \<Rightarrow> nat \<Rightarrow> nat \<Rightarrow> db \<Rightarrow> (chan_error + unit) \<times> db" where
  "set_flood_kicker chan n secs =
     update_kickers chan (\<lambda>k. k\<lparr>k_flood := True, k_flood_lines := n, k_flood_secs := secs\<rparr>)"

definition set_repeat_kicker :: "string \<Rightarrow> nat \<Rightarrow> db \<Rightarrow> (chan_error + unit) \<times> db" where
  "set_repeat_kicker chan reps =
     update_kickers chan (\<lambda>k. k\<lparr>k_repeat := True, k_repeat_times := reps\<rparr>)"

definition set_ttb :: "string \<Rightarrow> nat \<Rightarrow> db \<Rightarrow> (chan_error + unit) \<times> db" where
  "set_ttb chan ttb = update_kickers chan (\<lambda>k. k\<lparr>k_ttb := ttb\<rparr>)"

definition set_ban_expire :: "string \<Rightarrow> nat \<Rightarrow> db \<Rightarrow> (chan_error + unit) \<times> db" where
  "set_ban_expire chan secs = update_kickers chan (\<lambda>k. k\<lparr>k_ban_expire := secs\<rparr>)"

definition set_votekick :: "string \<Rightarrow> nat \<Rightarrow> db \<Rightarrow> (chan_error + unit) \<times> db" where
  "set_votekick chan votes = update_kickers chan (\<lambda>k. k\<lparr>k_votekick := votes\<rparr>)"

subsection \<open>Badwords and triggers\<close>

definition write_badwords :: "string \<Rightarrow> string list \<Rightarrow> db \<Rightarrow> (chan_error + unit) \<times> db" where
  "write_badwords chan ws =
     logged ChanInternal (ChannelEvent (ChannelBadwordsSet chan ws))
       (\<lambda>d. (Inr (), on_channel chan
          (\<lambda>c. c\<lparr>c_badwords := ws, c_badwords_rev := c_badwords_rev c + 1\<rparr>) d))"

definition badword_add :: "(string \<Rightarrow> bool) \<Rightarrow> string \<Rightarrow> string \<Rightarrow> db \<Rightarrow> (chan_error + bool) \<times> db" where
  "badword_add compiles chan pat d =
     (if \<not> compiles pat then (Inl ChanInvalidPattern, d)
      else case channels (st d) (key chan) of
        None \<Rightarrow> (Inl ChanNoChannel, d)
      | Some c \<Rightarrow> if pat \<in> set (c_badwords c) then (Inr False, d)
          else and_then (write_badwords chan (c_badwords c @ [pat])) (\<lambda>_ d. (Inr True, d)) d)"

definition badword_del :: "string \<Rightarrow> string \<Rightarrow> db \<Rightarrow> (chan_error + bool) \<times> db" where
  "badword_del chan pat d =
     (case channels (st d) (key chan) of
        None \<Rightarrow> (Inl ChanNoChannel, d)
      | Some c \<Rightarrow> if pat \<notin> set (c_badwords c) then (Inr False, d)
          else and_then (write_badwords chan (filter (\<lambda>w. w \<noteq> pat) (c_badwords c)))
                 (\<lambda>_ d. (Inr True, d)) d)"

definition badword_clear :: "string \<Rightarrow> db \<Rightarrow> (chan_error + nat) \<times> db" where
  "badword_clear chan d =
     (case channels (st d) (key chan) of
        None \<Rightarrow> (Inl ChanNoChannel, d)
      | Some c \<Rightarrow> let n = length (c_badwords c) in
          if n > 0 then and_then (write_badwords chan []) (\<lambda>_ d. (Inr n, d)) d else (Inr n, d))"

definition write_triggers :: "string \<Rightarrow> trigger list \<Rightarrow> db \<Rightarrow> (chan_error + unit) \<times> db" where
  "write_triggers chan ts =
     logged ChanInternal (ChannelEvent (ChannelTriggersSet chan ts))
       (\<lambda>d. (Inr (), on_channel chan
          (\<lambda>c. c\<lparr>c_triggers := ts, c_triggers_rev := c_triggers_rev c + 1\<rparr>) d))"

definition trigger_add ::
  "(string \<Rightarrow> bool) \<Rightarrow> string \<Rightarrow> string \<Rightarrow> string \<Rightarrow> nat \<Rightarrow> db \<Rightarrow> (chan_error + bool) \<times> db" where
  "trigger_add compiles chan pat response cooldown d =
     (if \<not> compiles pat then (Inl ChanInvalidPattern, d)
      else case channels (st d) (key chan) of
        None \<Rightarrow> (Inl ChanNoChannel, d)
      | Some c \<Rightarrow> if \<exists>t \<in> set (c_triggers c). tr_pattern t = pat then (Inr False, d)
          else and_then (write_triggers chan (c_triggers c @
                 [\<lparr>tr_pattern = pat, tr_response = response, tr_cooldown = cooldown\<rparr>]))
                 (\<lambda>_ d. (Inr True, d)) d)"

definition trigger_del :: "string \<Rightarrow> nat \<Rightarrow> db \<Rightarrow> (chan_error + bool) \<times> db" where
  "trigger_del chan index d =
     (case channels (st d) (key chan) of
        None \<Rightarrow> (Inl ChanNoChannel, d)
      | Some c \<Rightarrow> if index = 0 \<or> index > length (c_triggers c) then (Inr False, d)
          else and_then (write_triggers chan (remove_at (index - 1) (c_triggers c)))
                 (\<lambda>_ d. (Inr True, d)) d)"

definition trigger_clear :: "string \<Rightarrow> db \<Rightarrow> (chan_error + nat) \<times> db" where
  "trigger_clear chan d =
     (case channels (st d) (key chan) of
        None \<Rightarrow> (Inl ChanNoChannel, d)
      | Some c \<Rightarrow> let n = length (c_triggers c) in
          if n > 0 then and_then (write_triggers chan []) (\<lambda>_ d. (Inr n, d)) d else (Inr n, d))"

definition copy_bot_config :: "string \<Rightarrow> string \<Rightarrow> db \<Rightarrow> (chan_error + unit) \<times> db" where
  "copy_bot_config src dst d =
     (case channels (st d) (key src) of
        None \<Rightarrow> (Inl ChanNoChannel, d)
      | Some s \<Rightarrow>
          if channels (st d) (key dst) = None then (Inl ChanNoChannel, d)
          else and_then (logged ChanInternal (ChannelEvent (ChannelKickerSet dst (c_kickers s)))
                   (\<lambda>d. (Inr (), on_channel dst (\<lambda>c. c\<lparr>c_kickers := c_kickers s\<rparr>) d)))
                 (\<lambda>_. and_then (write_badwords dst (c_badwords s))
                 (\<lambda>_. and_then (set_channel_setting dst BotGreet (cs_bot_greet (c_settings s)))
                 (\<lambda>_. set_channel_setting dst NoBot (cs_nobot (c_settings s))))) d)"

subsection \<open>Dropping, renaming, releasing\<close>

definition drop_channel :: "string \<Rightarrow> db \<Rightarrow> (chan_error + unit) \<times> db" where
  "drop_channel name d =
     (if channels (st d) (key name) = None then (Inl ChanNoChannel, d)
      else logged ChanInternal (ChannelEvent (ChannelDropped name))
             (\<lambda>d. (Inr (), on_store (\<lambda>s. s\<lparr>channels := (channels s)(key name := None)\<rparr>) d)) d)"

definition rename_channel :: "string \<Rightarrow> string \<Rightarrow> db \<Rightarrow> (chan_error + unit) \<times> db" where
  "rename_channel old new d =
     (case channels (st d) (key old) of
        None \<Rightarrow> (Inl ChanNoChannel, d)
      | Some c \<Rightarrow>
          if key old \<noteq> key new \<and> channels (st d) (key new) \<noteq> None then (Inl ChanExists, d)
          else logged ChanInternal (ChannelEvent (ChannelRenamed old new))
                 (\<lambda>d. (Inr (), on_store (\<lambda>s. s\<lparr>channels :=
                    ((channels s)(key old := None))(key new \<mapsto> c\<lparr>c_name := new\<rparr>)\<rparr>) d)) d)"

definition valid_successor :: "db \<Rightarrow> string \<Rightarrow> string \<Rightarrow> string option" where
  "valid_successor d acct chan =
     (case channels (st d) (key chan) of None \<Rightarrow> None
      | Some c \<Rightarrow> (case c_successor c of None \<Rightarrow> None
          | Some s \<Rightarrow> if \<not> eq_ignore_ascii_case s acct \<and> exists_account d s then Some s else None))"

fun release_loop ::
  "string \<Rightarrow> string list \<Rightarrow> db \<Rightarrow> ((string \<times> string) list \<times> string list) \<times> db" where
  "release_loop acct [] d = (([], []), d)"
| "release_loop acct (chan # cs) d =
     (let fall = (\<lambda>d1. let ((ts, ds), d2) = release_loop acct cs (snd (drop_channel chan d1))
                       in ((ts, chan # ds), d2))
      in case valid_successor d acct chan of
           None \<Rightarrow> fall d
         | Some s \<Rightarrow> (case set_founder chan s d of
             (Inl _, d1) \<Rightarrow> fall d1
           | (Inr _, d1) \<Rightarrow>
               let ((ts, ds), d2) = release_loop acct cs (snd (set_successor chan None d1))
               in (((chan, s) # ts, ds), d2)))"

declare release_loop.simps [simp del]

definition release_founded_channels ::
  "string list \<Rightarrow> string \<Rightarrow> db \<Rightarrow> ((string \<times> string) list \<times> string list) \<times> db" where
  "release_founded_channels ks acct d = release_loop acct (channels_owned_by ks d acct) d"

subsection \<open>Activity and expiry\<close>

definition is_channel_suspended :: "nat \<Rightarrow> db \<Rightarrow> string \<Rightarrow> bool" where
  "is_channel_suspended now d chan =
     (case channels (st d) (key chan) of None \<Rightarrow> False
      | Some c \<Rightarrow> (case c_suspension c of None \<Rightarrow> False
          | Some s \<Rightarrow> live_until now (su_expires s)))"

definition mark_channel_used :: "string \<Rightarrow> nat \<Rightarrow> db \<Rightarrow> db" where
  "mark_channel_used chan now d =
     (let stale = (case channels (st d) (key chan) of None \<Rightarrow> False
                   | Some c \<Rightarrow> now - max (c_last_used c) (c_ts c) \<ge> 86400)
      in if stale
         then on_channel chan (\<lambda>c. c\<lparr>c_last_used := max (c_last_used c) now, c_expiry_warned := False\<rparr>)
                (logged_ignore (ChannelEvent (ChannelUsed chan now)) d)
         else d)"

definition mark_channel_warned :: "string \<Rightarrow> db \<Rightarrow> db" where
  "mark_channel_warned chan d =
     (if channels (st d) (key chan) \<noteq> None
      then on_channel chan (\<lambda>c. c\<lparr>c_expiry_warned := True\<rparr>)
             (logged_ignore (ChannelEvent (ChannelExpiryWarned chan)) d)
      else d)"

definition set_channel_note :: "string \<Rightarrow> string option \<Rightarrow> db \<Rightarrow> bool \<times> db" where
  "set_channel_note chan note d =
     (if channels (st d) (key chan) = None then (False, d)
      else (True, on_channel chan (\<lambda>c. c\<lparr>c_oper_note := note\<rparr>)
             (logged_ignore (ChannelEvent (ChannelOperNoteSet chan note)) d)))"

definition channel_idle :: "nat \<Rightarrow> channel_info \<Rightarrow> nat" where
  "channel_idle now c = now - max (c_last_used c) (c_ts c)"

definition expired_channels :: "string list \<Rightarrow> nat \<Rightarrow> nat \<Rightarrow> db \<Rightarrow> string list" where
  "expired_channels ks now ttl d =
     map c_name (filter (\<lambda>c. \<not> c_noexpire c \<and> c_suspension c = None \<and> channel_idle now c > ttl)
       (values_of ks (channels (st d))))"

definition channels_to_warn ::
  "string list \<Rightarrow> nat \<Rightarrow> nat \<Rightarrow> nat \<Rightarrow> db \<Rightarrow> (string \<times> string \<times> nat \<times> string) list" where
  "channels_to_warn ks now ttl lead d =
     (let floor = ttl - lead in
      List.map_filter (\<lambda>c. let idle = channel_idle now c in
          if idle \<le> floor \<or> idle > ttl then None
          else case accounts (st d) (key (c_founder c)) of None \<Rightarrow> None
            | Some a \<Rightarrow> (case a_email a of None \<Rightarrow> None
                | Some email \<Rightarrow> Some (c_name c, email, ttl - idle,
                    case a_language a of None \<Rightarrow> default_language d | Some lang \<Rightarrow> lang)))
        (filter (\<lambda>c. \<not> c_noexpire c \<and> \<not> c_expiry_warned c \<and> c_suspension c = None)
          (values_of ks (channels (st d)))))"

subsection \<open>Every operation keeps the contract\<close>

context db_invariant
begin

lemma kept_channel_set:
  assumes "kept d" and "\<And>m. apply_channel e m = modify (key chan) f m"
  shows "kept (snd (channel_set chan e f d))"
  using assms(1) by (auto simp: channel_set_def assms(2) intro!: kept_logged)

lemma kept_channel_clear:
  assumes "kept d" and "\<And>m. apply_channel e m = modify (key chan) f m"
  shows "kept (snd (channel_clear chan p e f d))"
  using assms(1) by (auto simp: channel_clear_def assms(2) intro!: kept_logged split: option.split)

lemma kept_channel_setters:
  assumes "kept d"
  shows "kept (snd (set_mlock_params chan on off params d))"
    "kept (snd (set_founder chan acct d))" "kept (snd (set_successor chan succ d))"
    "kept (snd (set_desc chan desc d))" "kept (snd (set_url chan url d))"
    "kept (snd (set_channel_email chan email d))" "kept (snd (set_entrymsg chan msg d))"
    "kept (snd (set_channel_topic chan topic setter d))"
    "kept (snd (suspend_channel now chan by_who reason expires d))" "kept (snd (assign_bot chan b d))"
    "kept (snd (level_set chan cap role d))"
  unfolding set_mlock_params_def set_founder_def set_successor_def set_desc_def set_url_def
    set_channel_email_def set_entrymsg_def set_channel_topic_def suspend_channel_def assign_bot_def
    level_set_def
  by (rule kept_channel_set [OF assms], simp add: level_put_def level_del_key_def)+

lemma kept_channel_clears:
  assumes "kept d"
  shows "kept (snd (access_del chan acct d))" "kept (snd (akick_del chan msk d))"
    "kept (snd (level_reset chan cap d))" "kept (snd (unsuspend_channel chan d))"
    "kept (snd (unassign_bot chan d))" "kept (snd (set_channel_noexpire chan on d))"
  unfolding access_del_def akick_del_def level_reset_def unsuspend_channel_def unassign_bot_def
    set_channel_noexpire_def
  by (rule kept_channel_clear [OF assms],
      simp add: access_del_key_def akick_del_key_def level_del_key_def)+

lemma kept_channel_lists:
  assumes "kept d"
  shows "kept (snd (access_add chan acct level d))" "kept (snd (akick_add chan msk reason d))"
  using assms
  by (auto simp: access_add_def akick_add_def access_put_def access_del_key_def akick_put_def
      akick_del_key_def intro!: kept_logged split: option.split)

lemma kept_register_channel: "kept d \<Longrightarrow> kept (snd (register_channel now name founder d))"
  by (auto simp: register_channel_def intro!: kept_logged)

lemma kept_set_channel_setting: "kept d \<Longrightarrow> kept (snd (set_channel_setting chan setting on d))"
  by (auto simp: set_channel_setting_def Let_def intro!: kept_logged split: option.split)

lemma kept_update_kickers: "kept d \<Longrightarrow> kept (snd (update_kickers chan f d))"
  by (auto simp: update_kickers_def Let_def intro!: kept_logged split: option.split)

lemma kept_kickers:
  assumes "kept d"
  shows "kept (snd (set_kicker chan kk on d))" "kept (snd (set_caps_kicker chan i j d))"
    "kept (snd (set_flood_kicker chan i j d))" "kept (snd (set_repeat_kicker chan i d))"
    "kept (snd (set_ttb chan i d))" "kept (snd (set_ban_expire chan i d))"
    "kept (snd (set_votekick chan i d))"
  using assms
  by (simp_all add: set_kicker_def set_caps_kicker_def set_flood_kicker_def set_repeat_kicker_def
      set_ttb_def set_ban_expire_def set_votekick_def kept_update_kickers)

lemma kept_writes:
  assumes "kept d"
  shows "kept (snd (write_badwords chan ws d))" "kept (snd (write_triggers chan ts d))"
  using assms by (auto simp: write_badwords_def write_triggers_def intro!: kept_logged)

lemma kept_badwords_triggers:
  assumes "kept d"
  shows "kept (snd (badword_add compiles chan pat d))" "kept (snd (badword_del chan pat d))"
    "kept (snd (badword_clear chan d))" "kept (snd (trigger_add compiles chan pat resp cool d))"
    "kept (snd (trigger_del chan i d))" "kept (snd (trigger_clear chan d))"
  using assms
  by (auto simp: badword_add_def badword_del_def badword_clear_def trigger_add_def trigger_del_def
      trigger_clear_def Let_def intro!: kept_and_then kept_writes split: option.split)

lemma kept_copy_bot_config: "kept d \<Longrightarrow> kept (snd (copy_bot_config src dst d))"
  by (auto simp: copy_bot_config_def intro!: kept_and_then kept_writes kept_set_channel_setting
      kept_logged split: option.split)

lemma kept_drop_channel: "kept d \<Longrightarrow> kept (snd (drop_channel name d))"
  by (auto simp: drop_channel_def intro!: kept_logged)

lemma kept_rename_channel: "kept d \<Longrightarrow> kept (snd (rename_channel old new d))"
  by (auto simp: rename_channel_def intro!: kept_logged split: option.split)

lemma kept_release_loop: "kept d \<Longrightarrow> kept (snd (release_loop acct cs d))"
proof (induction cs arbitrary: d)
  case Nil
  then show ?case by (simp add: release_loop.simps)
next
  case (Cons chan cs)
  have fall: "kept (snd (release_loop acct cs (snd (drop_channel chan d1))))" if "kept d1" for d1
    using that by (intro Cons.IH kept_drop_channel)
  have move: "kept (snd (release_loop acct cs (snd (set_successor chan None d1))))" if "kept d1" for d1
    using that by (intro Cons.IH kept_channel_setters)
  have f: "kept (snd (set_founder chan s d))" for s
    using Cons.prems by (rule kept_channel_setters)
  show ?case
  proof (cases "valid_successor d acct chan")
    case None
    with fall [OF Cons.prems] show ?thesis by (simp add: release_loop.simps Let_def case_prod_beta)
  next
    case (Some s)
    obtain r d1 where r: "set_founder chan s d = (r, d1)" by (cases "set_founder chan s d")
    with f [of s] have "kept d1" by simp
    with fall [OF this] move [OF this] Some r show ?thesis
      by (simp add: release_loop.simps Let_def case_prod_beta split: sum.split)
  qed
qed

lemma kept_release_founded_channels:
  "kept d \<Longrightarrow> kept (snd (release_founded_channels ks acct d))"
  by (simp add: release_founded_channels_def kept_release_loop)

end

context online_invariant
begin

lemma kept_mark_channel_used: "kept d \<Longrightarrow> kept (mark_channel_used chan now d)"
  unfolding mark_channel_used_def Let_def by (auto intro: kept_ignore_channel)

lemma kept_mark_channel_warned: "kept d \<Longrightarrow> kept (mark_channel_warned chan d)"
  unfolding mark_channel_warned_def by (auto intro: kept_ignore_channel)

lemma kept_set_channel_note: "kept d \<Longrightarrow> kept (snd (set_channel_note chan note d))"
  unfolding set_channel_note_def by (auto intro: kept_ignore_channel)

end

end
