(* ===== verification/MemoOps.thy ===== *)
theory MemoOps
  imports ChannelOps
begin

text \<open>
  Memos and service bots (the second half of src/src/engine/db/channel.rs): mailboxes, memo
  ignores and preferences, the bot registry and its default, and assignment on rename. Most of
  the memo operations ignore the result of the append.
\<close>

subsection \<open>Memos\<close>

definition memo_send :: "nat \<Rightarrow> string \<Rightarrow> string \<Rightarrow> string \<Rightarrow> bool \<Rightarrow> db \<Rightarrow> (reg_error + unit) \<times> db" where
  "memo_send now acct from txt receipt =
     account_set acct (MemoSent acct from txt now receipt)
       (\<lambda>a. a\<lparr>a_memos := a_memos a @ [\<lparr>me_from = from, me_text = txt, me_ts = now,
          me_read = False, me_receipt = receipt\<rparr>]\<rparr>)"

definition memo_list :: "db \<Rightarrow> string \<Rightarrow> memo list" where
  "memo_list d acct = (case accounts (st d) (key acct) of None \<Rightarrow> [] | Some a \<Rightarrow> a_memos a)"

definition memo_at :: "db \<Rightarrow> string \<Rightarrow> nat \<Rightarrow> memo option" where
  "memo_at d acct i =
     (case accounts (st d) (key acct) of None \<Rightarrow> None
      | Some a \<Rightarrow> if i < length (a_memos a) then Some (a_memos a ! i) else None)"

definition memo_read :: "string \<Rightarrow> nat \<Rightarrow> db \<Rightarrow> memo option \<times> db" where
  "memo_read acct i d =
     (case memo_at d acct i of
        None \<Rightarrow> (None, d)
      | Some m \<Rightarrow>
          (Some m,
           if me_read m then d
           else on_account acct (\<lambda>a. if i < length (a_memos a)
                    then a\<lparr>a_memos := (a_memos a)[i := (a_memos a ! i)\<lparr>me_read := True\<rparr>]\<rparr> else a)
                  (logged_ignore (AccountEvent (MemoRead acct i)) d)))"

definition memo_del :: "string \<Rightarrow> nat \<Rightarrow> db \<Rightarrow> bool \<times> db" where
  "memo_del acct i d =
     (case accounts (st d) (key acct) of
        None \<Rightarrow> (False, d)
      | Some a \<Rightarrow>
          if i \<ge> length (a_memos a) then (False, d)
          else (True, on_account acct (\<lambda>a. if i < length (a_memos a)
                        then a\<lparr>a_memos := remove_at i (a_memos a)\<rparr> else a)
                      (logged_ignore (AccountEvent (MemoDeleted acct i)) d)))"

text \<open>\<^verbatim>\<open>enumerate().rev().find(...)\<close>: the last index the predicate holds at.\<close>

fun find_last :: "('a \<Rightarrow> bool) \<Rightarrow> 'a list \<Rightarrow> nat option" where
  "find_last p [] = None"
| "find_last p (x # xs) =
     (case find_last p xs of Some i \<Rightarrow> Some (Suc i) | None \<Rightarrow> if p x then Some 0 else None)"

lemma find_last_None: "find_last p xs = None \<longleftrightarrow> (\<forall>x \<in> set xs. \<not> p x)"
  by (induction xs) (auto split: option.splits)

lemma find_last_Some:
  "find_last p xs = Some i \<longleftrightarrow>
     i < length xs \<and> p (xs ! i) \<and> (\<forall>j. i < j \<and> j < length xs \<longrightarrow> \<not> p (xs ! j))"
proof (induction xs arbitrary: i)
  case (Cons x xs)
  show ?case
  proof (cases "find_last p xs")
    case None
    then have "\<forall>j < length xs. \<not> p (xs ! j)" by (simp add: find_last_None)
    with None show ?thesis
      by (cases i) (auto simp: nth_Cons split: nat.splits)
  next
    case (Some k)
    then have k: "k < length xs" "p (xs ! k)" "\<forall>j. k < j \<and> j < length xs \<longrightarrow> \<not> p (xs ! j)"
      by (simp_all add: Cons.IH)
    show ?thesis
    proof (cases i)
      case 0
      with Some k show ?thesis by auto
    next
      case (Suc m)
      with Some Cons.IH [of m] show ?thesis
        by (auto simp: nth_Cons split: nat.splits)
    qed
  qed
qed simp

definition memo_cancel :: "string \<Rightarrow> string \<Rightarrow> db \<Rightarrow> bool \<times> db" where
  "memo_cancel acct sender d =
     (case accounts (st d) (key acct) of
        None \<Rightarrow> (False, d)
      | Some a \<Rightarrow> (case find_last (\<lambda>m. \<not> me_read m \<and> key (me_from m) = key sender) (a_memos a) of
          None \<Rightarrow> (False, d)
        | Some i \<Rightarrow> memo_del acct i d))"

definition memo_check :: "db \<Rightarrow> string \<Rightarrow> string \<Rightarrow> (bool \<times> nat) option" where
  "memo_check d acct sender =
     (case accounts (st d) (key acct) of
        None \<Rightarrow> None
      | Some a \<Rightarrow> map_option (\<lambda>m. (me_read m, me_ts m))
          (find (\<lambda>m. key (me_from m) = key sender) (rev (a_memos a))))"

definition memo_ignore_add :: "string \<Rightarrow> string \<Rightarrow> db \<Rightarrow> bool \<times> db" where
  "memo_ignore_add acct target d =
     (case accounts (st d) (key acct) of
        None \<Rightarrow> (False, d)
      | Some a \<Rightarrow>
          if \<exists>t \<in> set (a_memo_ignore a). eq_ignore_ascii_case t target then (False, d)
          else (True, on_account acct (\<lambda>a. a\<lparr>a_memo_ignore := a_memo_ignore a @ [target]\<rparr>)
                 (logged_ignore (AccountEvent (MemoIgnoreAdd acct target)) d)))"

definition memo_ignore_del :: "string \<Rightarrow> string \<Rightarrow> db \<Rightarrow> bool \<times> db" where
  "memo_ignore_del acct target d =
     (case accounts (st d) (key acct) of
        None \<Rightarrow> (False, d)
      | Some a \<Rightarrow>
          if \<not> (\<exists>t \<in> set (a_memo_ignore a). eq_ignore_ascii_case t target) then (False, d)
          else (True, on_account acct (\<lambda>a. a\<lparr>a_memo_ignore :=
                   filter (\<lambda>t. \<not> eq_ignore_ascii_case t target) (a_memo_ignore a)\<rparr>)
                 (logged_ignore (AccountEvent (MemoIgnoreDel acct target)) d)))"

definition memo_is_ignored :: "db \<Rightarrow> string \<Rightarrow> string \<Rightarrow> bool" where
  "memo_is_ignored d acct sender =
     (case accounts (st d) (key acct) of None \<Rightarrow> False
      | Some a \<Rightarrow> \<exists>t \<in> set (a_memo_ignore a). eq_ignore_ascii_case t sender)"

definition set_memo_notify :: "string \<Rightarrow> bool \<Rightarrow> db \<Rightarrow> bool \<times> db" where
  "set_memo_notify acct on d =
     (case accounts (st d) (key acct) of
        None \<Rightarrow> (False, d)
      | Some a \<Rightarrow> (True, on_account acct (\<lambda>a. a\<lparr>a_memo_notify := on\<rparr>)
          (logged_ignore (AccountEvent (MemoPrefsSet acct on (a_memo_limit a))) d)))"

definition set_memo_limit :: "string \<Rightarrow> nat option \<Rightarrow> db \<Rightarrow> bool \<times> db" where
  "set_memo_limit acct limit d =
     (case accounts (st d) (key acct) of
        None \<Rightarrow> (False, d)
      | Some a \<Rightarrow> (True, on_account acct (\<lambda>a. a\<lparr>a_memo_limit := limit\<rparr>)
          (logged_ignore (AccountEvent (MemoPrefsSet acct (a_memo_notify a) limit)) d)))"

definition unread_memos :: "db \<Rightarrow> string \<Rightarrow> nat" where
  "unread_memos d acct = length (filter (\<lambda>m. \<not> me_read m) (memo_list d acct))"

subsection \<open>Bots\<close>

definition bot_add :: "string \<Rightarrow> string \<Rightarrow> string \<Rightarrow> string \<Rightarrow> db \<Rightarrow> (chan_error + unit) \<times> db" where
  "bot_add nick user host gecos d =
     (if bots (st d) (key nick) \<noteq> None then (Inl ChanExists, d)
      else let b = \<lparr>b_nick = nick, b_user = user, b_host = host, b_gecos = gecos, b_private = False\<rparr>
           in logged ChanInternal (BotAdded b)
                (\<lambda>d. (Inr (), on_store (\<lambda>s. s\<lparr>bots := (bots s)(key nick \<mapsto> b)\<rparr>) d)) d)"

definition bot_set_private :: "string \<Rightarrow> bool \<Rightarrow> db \<Rightarrow> (chan_error + bool) \<times> db" where
  "bot_set_private nick private d =
     (case bots (st d) (key nick) of
        None \<Rightarrow> (Inr False, d)
      | Some b \<Rightarrow> let b1 = b\<lparr>b_private := private\<rparr> in
          logged ChanInternal (BotAdded b1)
            (\<lambda>d. (Inr True, on_store (\<lambda>s. s\<lparr>bots := (bots s)(key nick \<mapsto> b1)\<rparr>) d)) d)"

definition bot_del :: "string \<Rightarrow> db \<Rightarrow> (chan_error + bool) \<times> db" where
  "bot_del nick d =
     (if bots (st d) (key nick) = None then (Inr False, d)
      else logged ChanInternal (BotRemoved nick)
             (\<lambda>d. (Inr True, on_store (\<lambda>s. s\<lparr>bots := (bots s)(key nick := None)\<rparr>) d)) d)"

fun log_bot_removals :: "string list \<Rightarrow> db \<Rightarrow> (chan_error + unit) \<times> db" where
  "log_bot_removals [] d = (Inr (), d)"
| "log_bot_removals (n # ns) d = logged ChanInternal (BotRemoved n) (log_bot_removals ns) d"

definition bot_del_all :: "string list \<Rightarrow> db \<Rightarrow> (chan_error + nat) \<times> db" where
  "bot_del_all ks d =
     (let nicks = map b_nick (values_of ks (bots (st d))) in
      and_then (log_bot_removals nicks)
        (\<lambda>_ d. (Inr (length nicks), on_store (\<lambda>s. s\<lparr>bots := Map.empty\<rparr>) d)) d)"

fun reassign :: "string \<Rightarrow> string list \<Rightarrow> db \<Rightarrow> (chan_error + unit) \<times> db" where
  "reassign b [] d = (Inr (), d)"
| "reassign b (chan # cs) d =
     logged ChanInternal (ChannelEvent (ChannelBotAssigned chan b))
       (\<lambda>d. reassign b cs (on_channel chan (\<lambda>c. c\<lparr>c_assigned_bot := Some b\<rparr>) d)) d"

definition bot_change ::
  "string list \<Rightarrow> string \<Rightarrow> string \<Rightarrow> string \<Rightarrow> string \<Rightarrow> string \<Rightarrow> db \<Rightarrow> (chan_error + unit) \<times> db" where
  "bot_change ks old new_nick user host gecos d =
     (case bots (st d) (key old) of
        None \<Rightarrow> (Inl ChanNoChannel, d)
      | Some cur \<Rightarrow>
          let renaming = (key old \<noteq> key new_nick);
              b = \<lparr>b_nick = new_nick, b_user = user, b_host = host, b_gecos = gecos,
                   b_private = b_private cur\<rparr>;
              add = (\<lambda>rest. logged ChanInternal (BotAdded b)
                 (\<lambda>d. rest (on_store (\<lambda>s. s\<lparr>bots := (bots s)(key new_nick \<mapsto> b)\<rparr>) d)))
          in if renaming \<and> bots (st d) (key new_nick) \<noteq> None then (Inl ChanExists, d)
             else if renaming
             then let chans = map c_name (filter (\<lambda>c. case c_assigned_bot c of None \<Rightarrow> False
                               | Some x \<Rightarrow> key x = key old) (values_of ks (channels (st d))))
                  in logged ChanInternal (BotRemoved old)
                       (\<lambda>d. add (reassign new_nick chans)
                          (on_store (\<lambda>s. s\<lparr>bots := (bots s)(key old := None)\<rparr>) d)) d
             else add (\<lambda>d. (Inr (), d)) d)"

definition default_bot :: "db \<Rightarrow> string option" where
  "default_bot d =
     (case n_default_bot (net (st d)) of None \<Rightarrow> None
      | Some k \<Rightarrow> map_option b_nick (bots (st d) k))"

definition set_default_bot :: "string option \<Rightarrow> db \<Rightarrow> (chan_error + unit) \<times> db" where
  "set_default_bot b =
     logged ChanInternal (DefaultBotSet b)
       (\<lambda>d. (Inr (), on_net (\<lambda>n. n\<lparr>n_default_bot := map_option key b\<rparr>) d))"

subsection \<open>Every operation keeps the contract\<close>

text \<open>\<open>memo_send\<close> keeps it only below the mailbox cap, which it does not check itself; deleting
  or renaming a bot only when the bot is not the default one, which it does not clear.\<close>

definition mailbox_open :: "db \<Rightarrow> string \<Rightarrow> bool" where
  "mailbox_open d acct \<longleftrightarrow> (case accounts (st d) (key acct) of None \<Rightarrow> True
     | Some a \<Rightarrow> length (a_memos a) < memo_cap a)"

context db_invariant
begin

lemma kept_memo_send:
  assumes "kept d" and "mailbox_open d acct"
  shows "kept (snd (memo_send now acct from txt receipt d))"
  using assms
  by (auto simp: memo_send_def account_set_def mailbox_open_def modify_def intro!: kept_logged
      split: option.splits)

lemma kept_bot_add: "kept d \<Longrightarrow> kept (snd (bot_add nick user host gecos d))"
  by (auto simp: bot_add_def Let_def intro!: kept_logged)

lemma kept_bot_set_private: "kept d \<Longrightarrow> kept (snd (bot_set_private nick private d))"
  by (frule kept_wf)
    (auto simp: bot_set_private_def Let_def wf_store_def keyed_by_def intro!: kept_logged
      split: option.split)

lemma kept_bot_del:
  "kept d \<Longrightarrow> n_default_bot (net (st d)) \<noteq> Some (key nick) \<Longrightarrow> kept (snd (bot_del nick d))"
  by (auto simp: bot_del_def intro!: kept_logged)

lemma kept_set_default_bot: "kept d \<Longrightarrow> kept (snd (set_default_bot b d))"
  by (auto simp: set_default_bot_def intro!: kept_logged)

lemma kept_reassign: "kept d \<Longrightarrow> kept (snd (reassign b cs d))"
proof (induction cs arbitrary: d)
  case (Cons chan cs)
  show ?case
    unfolding reassign.simps
    by (rule kept_logged_rest [OF Cons.prems], rule Cons.IH) (simp add: kept_def)
qed simp

lemma kept_bot_change:
  assumes "kept d" and "n_default_bot (net (st d)) \<noteq> Some (key old)"
  shows "kept (snd (bot_change ks old new_nick user host gecos d))"
proof -
  have add: "kept (snd (logged ChanInternal (BotAdded b)
       (\<lambda>d. rest (on_store (\<lambda>s. s\<lparr>bots := (bots s)(key new_nick \<mapsto> b)\<rparr>) d)) d'))"
    if "kept d'" "b_nick b = new_nick" "\<And>d. kept d \<Longrightarrow> kept (snd (rest d))"
    for b d' and rest :: "db \<Rightarrow> (chan_error + unit) \<times> db"
    by (rule kept_logged_rest [OF that(1)], rule that(3)) (use that(2) in \<open>simp add: kept_def\<close>)
  show ?thesis
  proof (cases "bots (st d) (key old)")
    case None
    with assms(1) show ?thesis by (simp add: bot_change_def)
  next
    case (Some cur)
    show ?thesis
    proof (cases "key old = key new_nick")
      case True
      with Some show ?thesis
        unfolding bot_change_def by (simp add: Let_def) (rule add [OF assms(1)]; simp)
    next
      case ren: False
      show ?thesis
      proof (cases "bots (st d) (key new_nick)")
        case None
        show ?thesis
          unfolding bot_change_def
          by (simp add: Some ren None Let_def)
            (rule kept_logged_rest [OF assms(1)], rule add;
             simp add: kept_reassign [unfolded kept_def] kept_def assms(2))
      next
        case (Some b)
        with \<open>bots (st d) (key old) = Some cur\<close> ren assms(1) show ?thesis
          by (simp add: bot_change_def Let_def)
      qed
    qed
  qed
qed

end

context online_invariant
begin

lemma kept_memo_read: "kept d \<Longrightarrow> kept (snd (memo_read acct i d))"
  unfolding memo_read_def by (auto intro: kept_ignore_account split: option.split)

lemma kept_memo_del: "kept d \<Longrightarrow> kept (snd (memo_del acct i d))"
  unfolding memo_del_def by (auto intro: kept_ignore_account split: option.split)

lemma kept_memo_cancel: "kept d \<Longrightarrow> kept (snd (memo_cancel acct sender d))"
  unfolding memo_cancel_def by (auto intro: kept_memo_del split: option.split)

lemma kept_memo_ignore_add: "kept d \<Longrightarrow> kept (snd (memo_ignore_add acct target d))"
  unfolding memo_ignore_add_def
  by (auto intro!: kept_ignore_account simp: modify_def memo_ignore_put_def split: option.split)

lemma kept_memo_ignore_del: "kept d \<Longrightarrow> kept (snd (memo_ignore_del acct target d))"
  unfolding memo_ignore_del_def by (auto intro: kept_ignore_account split: option.split)

lemma kept_memo_prefs:
  assumes "kept d"
  shows "kept (snd (set_memo_notify acct on d))" "kept (snd (set_memo_limit acct limit d))"
  using assms unfolding set_memo_notify_def set_memo_limit_def
  by (auto intro!: kept_ignore_account simp: modify_def split: option.split)

end

end
