(* ===== verification/Access.thy ===== *)
theory Access
  imports Prelude
begin

unbundle bit_operations_syntax

text \<open>
  The access vocabulary of the SDK crate (api/src/lib.rs): services-operator privileges and
  their tiers, the letter flag sets of channel and group access (the \<^verbatim>\<open>flag_set!\<close> macro, here a
  locale with both sets as interpretations), the capabilities a level confers and how they
  combine, the tiered roles, and the typed tokens of the network bans.
\<close>

subsection \<open>Operator privileges\<close>

datatype priv = Auspex | Oper | Suspend | Admin | Root

definition priv_all :: "priv list" where
  "priv_all = [Auspex, Oper, Suspend, Admin, Root]"

fun priv_name :: "priv \<Rightarrow> string" where
  "priv_name Auspex = ''auspex''"
| "priv_name Oper = ''oper''"
| "priv_name Suspend = ''suspend''"
| "priv_name Admin = ''admin''"
| "priv_name Root = ''root''"

definition priv_from_name :: "string \<Rightarrow> priv option" where
  "priv_from_name s =
     (let l = key s in
      if l = ''auspex'' then Some Auspex
      else if l = ''oper'' \<or> l = ''operator'' then Some Oper
      else if l = ''suspend'' then Some Suspend
      else if l = ''admin'' \<or> l = ''administrator'' then Some Admin
      else if l = ''root'' then Some Root
      else None)"

fun priv_index :: "priv \<Rightarrow> nat" where
  "priv_index Auspex = 0"
| "priv_index Oper = 1"
| "priv_index Suspend = 2"
| "priv_index Admin = 3"
| "priv_index Root = 4"

type_synonym privs = "8 word"

definition priv_bit :: "priv \<Rightarrow> privs" where
  "priv_bit p = push_bit (priv_index p) 1"

definition privs_with :: "privs \<Rightarrow> priv \<Rightarrow> privs" where
  "privs_with s p = s OR priv_bit p"

fun priv_mask :: "priv \<Rightarrow> privs" where
  "priv_mask Auspex = priv_bit Auspex OR priv_bit Oper OR priv_bit Admin OR priv_bit Root"
| "priv_mask Oper = priv_bit Oper OR priv_bit Admin OR priv_bit Root"
| "priv_mask Suspend = priv_bit Suspend OR priv_bit Admin OR priv_bit Root"
| "priv_mask Admin = priv_bit Admin OR priv_bit Root"
| "priv_mask Root = priv_bit Root"

definition privs_has :: "privs \<Rightarrow> priv \<Rightarrow> bool" where
  "privs_has s p \<longleftrightarrow> s AND priv_mask p \<noteq> 0"

definition privs_contains :: "privs \<Rightarrow> priv \<Rightarrow> bool" where
  "privs_contains s p \<longleftrightarrow> s AND priv_bit p \<noteq> 0"

definition privs_any :: "privs \<Rightarrow> bool" where
  "privs_any s \<longleftrightarrow> s \<noteq> 0"

definition privs_tier :: "privs \<Rightarrow> string" where
  "privs_tier s =
     (if privs_has s Root then ''Services Root''
      else if privs_has s Admin then ''Services Administrator''
      else if privs_has s Oper then ''Services Operator''
      else if privs_any s then ''limited operator''
      else ''not an operator'')"

definition privs_union :: "privs \<Rightarrow> privs \<Rightarrow> privs" where
  "privs_union a b = a OR b"

fun parse_names_from :: "privs \<Rightarrow> string list \<Rightarrow> privs \<times> string list" where
  "parse_names_from s [] = (s, [])"
| "parse_names_from s (n # ns) =
     (case priv_from_name n of
        Some p \<Rightarrow> parse_names_from (privs_with s p) ns
      | None \<Rightarrow> (let (r, unknown) = parse_names_from s ns in (r, n # unknown)))"

definition privs_parse_names :: "string list \<Rightarrow> privs \<times> string list" where
  "privs_parse_names ns = parse_names_from 0 ns"

definition privs_from_names :: "string list \<Rightarrow> privs" where
  "privs_from_names ns = fst (privs_parse_names ns)"

definition privs_names :: "privs \<Rightarrow> string list" where
  "privs_names s = map priv_name (filter (privs_contains s) priv_all)"

text \<open>A bit test reads one bit; a mask test reads its bits.\<close>

lemma and_push_bit_iff: "(s :: 'w::len word) AND push_bit n 1 \<noteq> 0 \<longleftrightarrow> bit s n"
  by (rule bit_iff_and_push_bit_not_eq_0 [symmetric])

lemma bit_push_one: "bit (push_bit n 1 :: 'w::len word) m \<longleftrightarrow> m = n \<and> n < LENGTH('w)"
  by (auto simp: bit_exp_iff possible_bit_word)

lemma privs_contains_bit: "privs_contains s p \<longleftrightarrow> bit s (priv_index p)"
  unfolding privs_contains_def priv_bit_def by (rule and_push_bit_iff)

lemma word_and_or_zero: "(s :: 'w::len word) AND (a OR b) = 0 \<longleftrightarrow> s AND a = 0 \<and> s AND b = 0"
  by (auto simp: bit_eq_iff bit_simps)

lemma privs_has_contains:
  "privs_has s Auspex \<longleftrightarrow> privs_contains s Auspex \<or> privs_contains s Oper \<or> privs_contains s Admin \<or> privs_contains s Root"
  "privs_has s Oper \<longleftrightarrow> privs_contains s Oper \<or> privs_contains s Admin \<or> privs_contains s Root"
  "privs_has s Suspend \<longleftrightarrow> privs_contains s Suspend \<or> privs_contains s Admin \<or> privs_contains s Root"
  "privs_has s Admin \<longleftrightarrow> privs_contains s Admin \<or> privs_contains s Root"
  "privs_has s Root \<longleftrightarrow> privs_contains s Root"
  by (simp_all add: privs_has_def privs_contains_def word_and_or_zero)

lemma priv_index_inject: "priv_index p = priv_index q \<longleftrightarrow> p = q"
  by (cases p; cases q) simp_all

lemma priv_index_less: "priv_index p < 8"
  by (cases p) simp_all

lemma privs_contains_with: "privs_contains (privs_with s p) q \<longleftrightarrow> p = q \<or> privs_contains s q"
  using priv_index_less [of p]
  by (auto simp only: privs_contains_bit privs_with_def priv_bit_def bit_or_iff bit_push_one
      priv_index_inject len_num1 len_bit0 simp_thms)

lemma privs_contains_zero [simp]: "\<not> privs_contains 0 p"
  by (simp add: privs_contains_def)

lemma parse_names_contains:
  "privs_contains (fst (parse_names_from s ns)) p \<longleftrightarrow>
     privs_contains s p \<or> Some p \<in> priv_from_name ` set ns"
proof (induction ns arbitrary: s)
  case (Cons n ns)
  then show ?case
    by (cases "priv_from_name n") (auto simp: privs_contains_with case_prod_beta)
qed simp

lemma priv_from_name_name [simp]: "priv_from_name (priv_name p) = Some p"
  by (cases p) (simp_all add: priv_from_name_def key_def ascii_simps)

lemma priv_all_complete: "p \<in> set priv_all"
  by (cases p) (simp_all add: priv_all_def)

subsection \<open>Letter flag sets\<close>

text \<open>The mechanics \<^verbatim>\<open>flag_set!\<close> generates for a flag enum: \<open>idx\<close> is the discriminant, \<open>letter\<close>
  its letter and \<open>alls\<close> the canonical order.\<close>

definition fs_with :: "('f \<Rightarrow> nat) \<Rightarrow> 'w::len word \<Rightarrow> 'f \<Rightarrow> 'w word" where
  "fs_with idx s f = s OR push_bit (idx f) 1"

definition fs_without :: "('f \<Rightarrow> nat) \<Rightarrow> 'w::len word \<Rightarrow> 'f \<Rightarrow> 'w word" where
  "fs_without idx s f = s AND NOT (push_bit (idx f) 1)"

definition fs_has :: "('f \<Rightarrow> nat) \<Rightarrow> 'w::len word \<Rightarrow> 'f \<Rightarrow> bool" where
  "fs_has idx s f \<longleftrightarrow> s AND push_bit (idx f) 1 \<noteq> 0"

definition from_letter_in :: "('f \<Rightarrow> char) \<Rightarrow> 'f list \<Rightarrow> char \<Rightarrow> 'f option" where
  "from_letter_in letter alls c = find (\<lambda>f. letter f = c) alls"

definition fs_parse ::
  "('f \<Rightarrow> nat) \<Rightarrow> ('f \<Rightarrow> char) \<Rightarrow> 'f list \<Rightarrow> string \<Rightarrow> 'w::len word" where
  "fs_parse idx letter alls s =
     foldl (fs_with idx) 0 (List.map_filter (from_letter_in letter alls) s)"

fun fs_delta ::
  "('f \<Rightarrow> nat) \<Rightarrow> ('f \<Rightarrow> char) \<Rightarrow> 'f list \<Rightarrow> bool \<Rightarrow> 'w::len word \<Rightarrow> string \<Rightarrow> char + 'w word" where
  "fs_delta idx letter alls adding s [] = Inr s"
| "fs_delta idx letter alls adding s (c # cs) =
     (if c = CHR ''+'' then fs_delta idx letter alls True s cs
      else if c = CHR ''-'' then fs_delta idx letter alls False s cs
      else case from_letter_in letter alls c of
        Some f \<Rightarrow> fs_delta idx letter alls adding
                    (if adding then fs_with idx s f else fs_without idx s f) cs
      | None \<Rightarrow> Inl c)"

definition fs_apply_delta ::
  "('f \<Rightarrow> nat) \<Rightarrow> ('f \<Rightarrow> char) \<Rightarrow> 'f list \<Rightarrow> 'w::len word \<Rightarrow> string \<Rightarrow> char + 'w word" where
  "fs_apply_delta idx letter alls s delta = fs_delta idx letter alls True s delta"

definition fs_to_letters ::
  "('f \<Rightarrow> nat) \<Rightarrow> ('f \<Rightarrow> char) \<Rightarrow> 'f list \<Rightarrow> 'w::len word \<Rightarrow> string" where
  "fs_to_letters idx letter alls s = map letter (filter (fs_has idx s) alls)"

locale flag_set =
  fixes idx :: "'f \<Rightarrow> nat"
    and letter :: "'f \<Rightarrow> char"
    and alls :: "'f list"
    and width :: "'w::len itself"
  assumes idx_inj: "idx f = idx g \<Longrightarrow> f = g"
    and idx_less: "idx f < LENGTH('w)"
    and alls_complete: "f \<in> set alls"
    and letter_inj: "letter f = letter g \<Longrightarrow> f = g"
    and letter_sign: "letter f \<noteq> CHR ''+''" "letter f \<noteq> CHR ''-''"
begin

abbreviation has :: "'w word \<Rightarrow> 'f \<Rightarrow> bool" where "has \<equiv> fs_has idx"

lemma has_bit: "has s f \<longleftrightarrow> bit s (idx f)"
  unfolding fs_has_def by (rule and_push_bit_iff)

lemma has_with: "has (fs_with idx s f) g \<longleftrightarrow> f = g \<or> has s g"
  using idx_less [of f] idx_inj [of f g]
  by (auto simp only: has_bit fs_with_def bit_or_iff bit_push_one)

lemma has_without: "has (fs_without idx s f) g \<longleftrightarrow> f \<noteq> g \<and> has s g"
proof -
  have "idx g = idx f \<longleftrightarrow> f = g" using idx_inj by metis
  then show ?thesis
    using idx_less [of f] idx_less [of g]
    by (simp only: has_bit fs_without_def bit_and_iff bit_not_iff bit_push_one possible_bit_word)
      blast
qed

lemma has_zero [simp]: "\<not> has 0 f"
  by (simp add: fs_has_def)

lemma from_letter_letter [simp]: "from_letter_in letter alls (letter f) = Some f"
proof -
  have "from_letter_in letter alls (letter f) \<noteq> None"
    using alls_complete [of f] by (auto simp: from_letter_in_def find_None_iff)
  then obtain g where g: "from_letter_in letter alls (letter f) = Some g" by blast
  then have "letter g = letter f" by (auto simp: from_letter_in_def find_Some_iff)
  with letter_inj g show ?thesis by blast
qed

lemma from_letter_Some: "from_letter_in letter alls c = Some f \<longleftrightarrow> c = letter f"
  using from_letter_letter by (auto simp: from_letter_in_def find_Some_iff)

lemma has_foldl: "has (foldl (fs_with idx) s fs) g \<longleftrightarrow> has s g \<or> g \<in> set fs"
  by (induction fs arbitrary: s) (auto simp: has_with)

text \<open>Reading a letter string grants exactly the letters it holds.\<close>

lemma has_parse: "has (fs_parse idx letter alls s :: 'w word) f \<longleftrightarrow> letter f \<in> set s"
proof -
  have "f \<in> set (List.map_filter (from_letter_in letter alls) s) \<longleftrightarrow> letter f \<in> set s"
    by (auto simp: List.map_filter_def from_letter_Some intro!: image_eqI [of _ _ "letter f"])
  then show ?thesis by (simp add: fs_parse_def has_foldl)
qed

lemma letters_of: "letter f \<in> set (fs_to_letters idx letter alls s) \<longleftrightarrow> has s f"
  using alls_complete [of f] letter_inj by (auto simp: fs_to_letters_def)

text \<open>Writing a set out and reading it back holds the same flags.\<close>

lemma parse_to_letters:
  "has (fs_parse idx letter alls (fs_to_letters idx letter alls (s :: 'w word)) :: 'w word) f = has s f"
  by (simp add: has_parse letters_of)

text \<open>A rejected delta names the first character that is no sign and no flag letter.\<close>

definition known :: "char \<Rightarrow> bool" where
  "known c \<longleftrightarrow> c = CHR ''+'' \<or> c = CHR ''-'' \<or> (\<exists>f. c = letter f)"

lemma from_letter_None: "from_letter_in letter alls c = None \<longleftrightarrow> (\<forall>f. c \<noteq> letter f)"
  using from_letter_Some by (metis not_Some_eq option.distinct(1))

lemma delta_error:
  "fs_delta idx letter alls adding (s :: 'w word) cs = Inl c \<longleftrightarrow>
     (\<exists>pre suf. cs = pre @ c # suf \<and> \<not> known c \<and> (\<forall>d \<in> set pre. known d))"
proof (induction cs arbitrary: adding s)
  case Nil
  then show ?case by simp
next
  case (Cons d cs)
  show ?case
  proof (cases "known d")
    case True
    have "(\<exists>pre suf. d # cs = pre @ c # suf \<and> \<not> known c \<and> (\<forall>x \<in> set pre. known x)) \<longleftrightarrow>
        (\<exists>pre suf. cs = pre @ c # suf \<and> \<not> known c \<and> (\<forall>x \<in> set pre. known x))"
    proof
      assume "\<exists>pre suf. d # cs = pre @ c # suf \<and> \<not> known c \<and> (\<forall>x \<in> set pre. known x)"
      then show "\<exists>pre suf. cs = pre @ c # suf \<and> \<not> known c \<and> (\<forall>x \<in> set pre. known x)"
        using True by (auto simp: Cons_eq_append_conv)
    next
      assume "\<exists>pre suf. cs = pre @ c # suf \<and> \<not> known c \<and> (\<forall>x \<in> set pre. known x)"
      then obtain pre suf where "cs = pre @ c # suf" "\<not> known c" "\<forall>x \<in> set pre. known x" by blast
      then have "d # cs = (d # pre) @ c # suf" "\<forall>x \<in> set (d # pre). known x" using True by simp_all
      with \<open>\<not> known c\<close>
      show "\<exists>pre suf. d # cs = pre @ c # suf \<and> \<not> known c \<and> (\<forall>x \<in> set pre. known x)" by blast
    qed
    moreover have "\<exists>adding' s'. fs_delta idx letter alls adding s (d # cs) =
        fs_delta idx letter alls adding' (s' :: 'w word) cs"
      using True by (auto simp: known_def from_letter_Some split: option.split)
    ultimately show ?thesis using Cons.IH by metis
  next
    case False
    then have "from_letter_in letter alls d = None" by (auto simp: known_def from_letter_None)
    with False show ?thesis by (auto simp: known_def Cons_eq_append_conv)
  qed
qed

text \<open>The last mention of a flag in an accepted delta decides it.\<close>

fun verdict :: "bool \<Rightarrow> 'f \<Rightarrow> bool \<Rightarrow> string \<Rightarrow> bool" where
  "verdict adding f held [] = held"
| "verdict adding f held (c # cs) =
     (if c = CHR ''+'' then verdict True f held cs
      else if c = CHR ''-'' then verdict False f held cs
      else verdict adding f (if c = letter f then adding else held) cs)"

lemma delta_verdict:
  "fs_delta idx letter alls adding (s :: 'w word) cs = Inr s' \<Longrightarrow>
     has s' f = verdict adding f (has s f) cs"
proof (induction cs arbitrary: adding s)
  case (Cons c cs)
  show ?case
  proof (cases "c = CHR ''+'' \<or> c = CHR ''-''")
    case True
    then show ?thesis using Cons.IH [of True s] Cons.IH [of False s] Cons.prems by (auto split: if_splits)
  next
    case False
    with Cons.prems obtain g where g: "from_letter_in letter alls c = Some g"
      by (auto split: option.splits)
    have step: "fs_delta idx letter alls adding
        (if adding then fs_with idx s g else fs_without idx s g) cs = Inr s'"
      using Cons.prems False g by simp
    have "c = letter g" using g by (simp add: from_letter_Some)
    then have "c = letter f \<longleftrightarrow> f = g" using letter_inj by blast
    moreover from Cons.IH [OF step]
    have "has s' f = verdict adding f (if f = g then adding else has s f) cs"
      by (cases adding) (simp_all add: has_with has_without)
    ultimately show ?thesis using False by simp
  qed
qed simp

end

subsection \<open>Channel access flags\<close>

datatype flag =
    FFounder | FAutoOp | FOp | FHalfop | FVoice | FTopic | FInvite | FAccess | FSet | FGreet
  | FNoStatus

fun flag_index :: "flag \<Rightarrow> nat" where
  "flag_index FFounder = 0"
| "flag_index FAutoOp = 1"
| "flag_index FOp = 2"
| "flag_index FHalfop = 3"
| "flag_index FVoice = 4"
| "flag_index FTopic = 5"
| "flag_index FInvite = 6"
| "flag_index FAccess = 7"
| "flag_index FSet = 8"
| "flag_index FGreet = 9"
| "flag_index FNoStatus = 10"

definition flag_all :: "flag list" where
  "flag_all = [FFounder, FAutoOp, FOp, FHalfop, FVoice, FTopic, FInvite, FAccess, FSet, FGreet,
     FNoStatus]"

fun flag_letter :: "flag \<Rightarrow> char" where
  "flag_letter FFounder = CHR ''f''"
| "flag_letter FAutoOp = CHR ''o''"
| "flag_letter FOp = CHR ''O''"
| "flag_letter FHalfop = CHR ''h''"
| "flag_letter FVoice = CHR ''v''"
| "flag_letter FTopic = CHR ''t''"
| "flag_letter FInvite = CHR ''i''"
| "flag_letter FAccess = CHR ''a''"
| "flag_letter FSet = CHR ''s''"
| "flag_letter FGreet = CHR ''g''"
| "flag_letter FNoStatus = CHR ''d''"

type_synonym flags = "16 word"

abbreviation flags_with :: "flags \<Rightarrow> flag \<Rightarrow> flags" where "flags_with \<equiv> fs_with flag_index"
abbreviation flags_has :: "flags \<Rightarrow> flag \<Rightarrow> bool" where "flags_has \<equiv> fs_has flag_index"
abbreviation flags_parse :: "string \<Rightarrow> flags" where "flags_parse \<equiv> fs_parse flag_index flag_letter flag_all"
abbreviation flags_letters :: "flags \<Rightarrow> string" where
  "flags_letters \<equiv> fs_to_letters flag_index flag_letter flag_all"
abbreviation flags_delta :: "flags \<Rightarrow> string \<Rightarrow> char + flags" where
  "flags_delta \<equiv> fs_apply_delta flag_index flag_letter flag_all"

interpretation chan_flags: flag_set flag_index flag_letter flag_all "TYPE(16)"
proof unfold_locales
  fix f g :: flag
  show "flag_index f = flag_index g \<Longrightarrow> f = g" by (cases f; cases g) simp_all
  show "flag_index f < LENGTH(16)" by (cases f) simp_all
  show "f \<in> set flag_all" by (cases f) (simp_all add: flag_all_def)
  show "flag_letter f = flag_letter g \<Longrightarrow> f = g" by (cases f; cases g) simp_all
  show "flag_letter f \<noteq> CHR ''+''" "flag_letter f \<noteq> CHR ''-''" by (cases f; simp)+
qed

subsection \<open>Capabilities\<close>

datatype rank = RankNone | RankVoice | RankHalfop | RankOp | RankAdmin | RankFounder

fun rank_num :: "rank \<Rightarrow> nat" where
  "rank_num RankNone = 0"
| "rank_num RankVoice = 1"
| "rank_num RankHalfop = 2"
| "rank_num RankOp = 3"
| "rank_num RankAdmin = 4"
| "rank_num RankFounder = 5"

instantiation rank :: linorder
begin

definition less_eq_rank :: "rank \<Rightarrow> rank \<Rightarrow> bool" where
  "less_eq_rank a b \<longleftrightarrow> rank_num a \<le> rank_num b"

definition less_rank :: "rank \<Rightarrow> rank \<Rightarrow> bool" where
  "less_rank a b \<longleftrightarrow> rank_num a < rank_num b"

instance
proof
  fix a b c :: rank
  show "a < b \<longleftrightarrow> a \<le> b \<and> \<not> b \<le> a" by (auto simp: less_eq_rank_def less_rank_def)
  show "a \<le> a" by (simp add: less_eq_rank_def)
  show "a \<le> b \<Longrightarrow> b \<le> c \<Longrightarrow> a \<le> c" by (simp add: less_eq_rank_def)
  show "a \<le> b \<Longrightarrow> b \<le> a \<Longrightarrow> a = b" by (cases a; cases b) (simp_all add: less_eq_rank_def)
  show "a \<le> b \<or> b \<le> a" by (auto simp: less_eq_rank_def)
qed

end

record caps =
  cp_auto :: "string option"
  cp_op :: bool
  cp_topic :: bool
  cp_invite :: bool
  cp_access :: bool
  cp_set :: bool
  cp_greet :: bool
  cp_rank :: rank

definition caps_default :: caps where
  "caps_default = \<lparr>cp_auto = None, cp_op = False, cp_topic = False, cp_invite = False,
     cp_access = False, cp_set = False, cp_greet = False, cp_rank = RankNone\<rparr>"

definition flags_from_level :: "string \<Rightarrow> flags" where
  "flags_from_level level =
     (if level = ''sop'' then foldl flags_with 0 [FAutoOp, FTopic, FInvite, FAccess]
      else if level = ''op'' then foldl flags_with 0 [FAutoOp, FTopic, FInvite]
      else if level = ''halfop'' then flags_with 0 FHalfop
      else if level = ''voice'' then flags_with 0 FVoice
      else if level = ''founder'' then flags_with 0 FFounder
      else flags_parse level)"

definition flags_caps :: "flags \<Rightarrow> caps" where
  "flags_caps s =
     (let founderish = flags_has s FFounder;
          autoop = flags_has s FAutoOp;
          op = (autoop \<or> flags_has s FOp);
          acc = flags_has s FAccess
      in \<lparr>cp_auto =
            (if flags_has s FNoStatus then None
             else if autoop then (if acc then Some ''+ao'' else Some ''+o'')
             else if flags_has s FHalfop then Some ''+h''
             else if flags_has s FVoice then Some ''+v''
             else None),
          cp_op = (founderish \<or> op),
          cp_topic = (founderish \<or> flags_has s FTopic),
          cp_invite = (founderish \<or> flags_has s FInvite),
          cp_access = (founderish \<or> acc),
          cp_set = (founderish \<or> flags_has s FSet),
          cp_greet = (founderish \<or> flags_has s FGreet),
          cp_rank =
            (if founderish then RankFounder
             else if op \<and> acc then RankAdmin
             else if op then RankOp
             else if flags_has s FHalfop then RankHalfop
             else if s \<noteq> 0 then RankVoice
             else RankNone)\<rparr>)"

definition level_caps :: "string \<Rightarrow> caps" where
  "level_caps level =
     (if level = ''founder''
      then \<lparr>cp_auto = Some ''+qo'', cp_op = True, cp_topic = True, cp_invite = True,
            cp_access = True, cp_set = True, cp_greet = True, cp_rank = RankFounder\<rparr>
      else flags_caps (flags_from_level level))"

text \<open>\<^verbatim>\<open>Caps::union\<close>: the strength of an auto mode reads the letters, not their order.\<close>

definition auto_strength :: "string option \<Rightarrow> nat" where
  "auto_strength m =
     (case m of None \<Rightarrow> 0
      | Some s \<Rightarrow>
          if CHR ''q'' \<in> set s then 5
          else if CHR ''a'' \<in> set s then 4
          else if CHR ''o'' \<in> set s then 3
          else if CHR ''h'' \<in> set s then 2
          else if CHR ''v'' \<in> set s then 1
          else 0)"

definition caps_union :: "caps \<Rightarrow> caps \<Rightarrow> caps" where
  "caps_union a b =
     \<lparr>cp_auto = (if auto_strength (cp_auto a) \<ge> auto_strength (cp_auto b) then cp_auto a else cp_auto b),
      cp_op = (cp_op a \<or> cp_op b), cp_topic = (cp_topic a \<or> cp_topic b),
      cp_invite = (cp_invite a \<or> cp_invite b), cp_access = (cp_access a \<or> cp_access b),
      cp_set = (cp_set a \<or> cp_set b), cp_greet = (cp_greet a \<or> cp_greet b),
      cp_rank = max (cp_rank a) (cp_rank b)\<rparr>"

definition caps_le :: "caps \<Rightarrow> caps \<Rightarrow> bool" where
  "caps_le a b \<longleftrightarrow> (cp_op a \<longrightarrow> cp_op b) \<and> (cp_topic a \<longrightarrow> cp_topic b) \<and> (cp_invite a \<longrightarrow> cp_invite b) \<and>
     (cp_access a \<longrightarrow> cp_access b) \<and> (cp_set a \<longrightarrow> cp_set b) \<and> (cp_greet a \<longrightarrow> cp_greet b) \<and>
     cp_rank a \<le> cp_rank b \<and> auto_strength (cp_auto a) \<le> auto_strength (cp_auto b)"

lemma caps_le_refl [simp]: "caps_le a a"
  by (simp add: caps_le_def)

lemma caps_le_trans: "caps_le a b \<Longrightarrow> caps_le b c \<Longrightarrow> caps_le a c"
  by (auto simp: caps_le_def)

lemma caps_union_upper: "caps_le a (caps_union a b)" "caps_le b (caps_union a b)"
  by (simp_all add: caps_le_def caps_union_def)

lemma caps_union_least: "caps_le a c \<Longrightarrow> caps_le b c \<Longrightarrow> caps_le (caps_union a b) c"
  by (auto simp: caps_le_def caps_union_def)

subsection \<open>Tiered roles and LEVELS capabilities\<close>

datatype access_role_kind = RoleFounder | RoleSop | RoleAop | RoleHop | RoleVop | RoleCustom

fun role_label :: "access_role_kind \<Rightarrow> string" where
  "role_label RoleFounder = ''founder''"
| "role_label RoleSop = ''sop''"
| "role_label RoleAop = ''op''"
| "role_label RoleHop = ''halfop''"
| "role_label RoleVop = ''voice''"
| "role_label RoleCustom = ''access''"

definition role_parse :: "string \<Rightarrow> access_role_kind option" where
  "role_parse s =
     (let u = to_ascii_uppercase s in
      if u = ''SOP'' then Some RoleSop
      else if u = ''AOP'' then Some RoleAop
      else if u = ''HOP'' then Some RoleHop
      else if u = ''VOP'' then Some RoleVop
      else if u = ''FOUNDER'' then Some RoleFounder
      else None)"

fun role_rank :: "access_role_kind \<Rightarrow> nat" where
  "role_rank RoleCustom = 0"
| "role_rank RoleVop = 1"
| "role_rank RoleHop = 2"
| "role_rank RoleAop = 3"
| "role_rank RoleSop = 4"
| "role_rank RoleFounder = 5"

fun xop_word :: "access_role_kind \<Rightarrow> string option" where
  "xop_word RoleSop = Some ''SOP''"
| "xop_word RoleAop = Some ''AOP''"
| "xop_word RoleHop = Some ''HOP''"
| "xop_word RoleVop = Some ''VOP''"
| "xop_word _ = None"

datatype level_cap = CapOp | CapTopic | CapInvite | CapAccess

fun level_cap_name :: "level_cap \<Rightarrow> string" where
  "level_cap_name CapOp = ''OP''"
| "level_cap_name CapTopic = ''TOPIC''"
| "level_cap_name CapInvite = ''INVITE''"
| "level_cap_name CapAccess = ''ACCESS''"

definition level_cap_parse :: "string \<Rightarrow> level_cap option" where
  "level_cap_parse s =
     find (\<lambda>c. eq_ignore_ascii_case (level_cap_name c) s) [CapOp, CapTopic, CapInvite, CapAccess]"

fun level_cap_default_role :: "level_cap \<Rightarrow> access_role_kind" where
  "level_cap_default_role CapAccess = RoleSop"
| "level_cap_default_role _ = RoleAop"

fun level_cap_grant :: "level_cap \<Rightarrow> caps \<Rightarrow> caps" where
  "level_cap_grant CapOp c = c\<lparr>cp_op := True\<rparr>"
| "level_cap_grant CapTopic c = c\<lparr>cp_topic := True\<rparr>"
| "level_cap_grant CapInvite c = c\<lparr>cp_invite := True\<rparr>"
| "level_cap_grant CapAccess c = c\<lparr>cp_access := True\<rparr>"

definition access_role :: "string \<Rightarrow> access_role_kind" where
  "access_role level =
     (let c = level_caps level in
      if cp_set c \<and> cp_access c \<and> cp_op c then RoleFounder
      else if cp_op c \<and> cp_access c then RoleSop
      else if cp_op c then RoleAop
      else if cp_auto c = Some ''+h'' then RoleHop
      else if cp_auto c = Some ''+v'' then RoleVop
      else RoleCustom)"

fun push_targets :: "nat \<Rightarrow> string \<Rightarrow> string \<Rightarrow> string" where
  "push_targets 0 target out = out"
| "push_targets (Suc n) target out = push_targets n target (out @ CHR '' '' # target)"

definition status_mode :: "string \<Rightarrow> string \<Rightarrow> string" where
  "status_mode modes target = push_targets (length (filter is_ascii_alphabetic modes)) target modes"

subsection \<open>Group flags\<close>

datatype group_flag = GFounder | GManage | GInvite | GChannel | GSet | GMemo

fun group_flag_index :: "group_flag \<Rightarrow> nat" where
  "group_flag_index GFounder = 0"
| "group_flag_index GManage = 1"
| "group_flag_index GInvite = 2"
| "group_flag_index GChannel = 3"
| "group_flag_index GSet = 4"
| "group_flag_index GMemo = 5"

definition group_flag_all :: "group_flag list" where
  "group_flag_all = [GFounder, GManage, GInvite, GChannel, GSet, GMemo]"

fun group_flag_letter :: "group_flag \<Rightarrow> char" where
  "group_flag_letter GFounder = CHR ''F''"
| "group_flag_letter GManage = CHR ''f''"
| "group_flag_letter GInvite = CHR ''i''"
| "group_flag_letter GChannel = CHR ''c''"
| "group_flag_letter GSet = CHR ''s''"
| "group_flag_letter GMemo = CHR ''m''"

type_synonym group_flags = "8 word"

abbreviation group_flags_has :: "group_flags \<Rightarrow> group_flag \<Rightarrow> bool" where
  "group_flags_has \<equiv> fs_has group_flag_index"
abbreviation group_flags_parse :: "string \<Rightarrow> group_flags" where
  "group_flags_parse \<equiv> fs_parse group_flag_index group_flag_letter group_flag_all"

interpretation member_flags: flag_set group_flag_index group_flag_letter group_flag_all "TYPE(8)"
proof unfold_locales
  fix f g :: group_flag
  show "group_flag_index f = group_flag_index g \<Longrightarrow> f = g" by (cases f; cases g) simp_all
  show "group_flag_index f < LENGTH(8)" by (cases f) simp_all
  show "f \<in> set group_flag_all" by (cases f) (simp_all add: group_flag_all_def)
  show "group_flag_letter f = group_flag_letter g \<Longrightarrow> f = g" by (cases f; cases g) simp_all
  show "group_flag_letter f \<noteq> CHR ''+''" "group_flag_letter f \<noteq> CHR ''-''" by (cases f; simp)+
qed

subsection \<open>Typed tokens\<close>

datatype xline_kind = Gline | Qline | Rline | Shun | Cban

fun xline_wire :: "xline_kind \<Rightarrow> string" where
  "xline_wire Gline = ''G''"
| "xline_wire Qline = ''Q''"
| "xline_wire Rline = ''R''"
| "xline_wire Shun = ''SHUN''"
| "xline_wire Cban = ''CBAN''"

definition xline_from_wire :: "string \<Rightarrow> xline_kind option" where
  "xline_from_wire s =
     (if s = ''G'' then Some Gline
      else if s = ''Q'' then Some Qline
      else if s = ''R'' then Some Rline
      else if s = ''SHUN'' then Some Shun
      else if s = ''CBAN'' then Some Cban
      else None)"

datatype news_kind = NewsLogon | NewsOper

fun news_wire :: "news_kind \<Rightarrow> string" where
  "news_wire NewsLogon = ''logon''"
| "news_wire NewsOper = ''oper''"

datatype forbid_kind = ForbidNick | ForbidChan | ForbidEmail

fun forbid_wire :: "forbid_kind \<Rightarrow> string" where
  "forbid_wire ForbidNick = ''NICK''"
| "forbid_wire ForbidChan = ''CHAN''"
| "forbid_wire ForbidEmail = ''EMAIL''"

definition forbid_from_name :: "string \<Rightarrow> forbid_kind option" where
  "forbid_from_name s =
     (let u = to_ascii_uppercase s in
      if u = ''NICK'' \<or> u = ''NICKNAME'' \<or> u = ''ACCOUNT'' then Some ForbidNick
      else if u = ''CHAN'' \<or> u = ''CHANNEL'' then Some ForbidChan
      else if u = ''EMAIL'' \<or> u = ''MAIL'' then Some ForbidEmail
      else None)"

lemma forbid_from_name_wire [simp]: "forbid_from_name (forbid_wire k) = Some k"
  by (cases k) (simp_all add: forbid_from_name_def to_ascii_uppercase_def ascii_simps)

lemma xline_from_wire_wire [simp]: "xline_from_wire (xline_wire k) = Some k"
  by (cases k) (simp_all add: xline_from_wire_def)

end
