(* ===== verification/Glob.thy ===== *)
theory Glob
  imports Prelude
begin

text \<open>
  The case-insensitive hostmask glob (\<^verbatim>\<open>glob_match\<close>, api/src/lib.rs and its twin in
  src/src/engine/db/mod.rs): the two-index scan with one backtracking point, the fact that it
  always returns, and its agreement with the usual reading of \<^verbatim>\<open>*\<close> and \<^verbatim>\<open>?\<close> on every text that
  does not itself contain a \<^verbatim>\<open>*\<close>.
\<close>

subsection \<open>The scan\<close>

text \<open>\<open>(reached_end, pi)\<close>: whether the loop consumed the whole text, and where it left the pattern
  index. The loop has no structural measure, so not returning would be the value \<open>None\<close>.\<close>

partial_function (option) glob_loop ::
  "string \<Rightarrow> string \<Rightarrow> nat \<Rightarrow> nat \<Rightarrow> nat option \<Rightarrow> nat \<Rightarrow> (bool \<times> nat) option" where
  "glob_loop p t pi ti star mark =
     (if ti < length t
      then if pi < length p \<and> (p ! pi = CHR ''?'' \<or> p ! pi = t ! ti)
           then glob_loop p t (pi + 1) (ti + 1) star mark
           else if pi < length p \<and> p ! pi = CHR ''*''
           then glob_loop p t (pi + 1) ti (Some pi) ti
           else (case star of
                   Some s \<Rightarrow> glob_loop p t (s + 1) (mark + 1) star (mark + 1)
                 | None \<Rightarrow> Some (False, pi))
      else Some (True, pi))"

fun skip_stars :: "string \<Rightarrow> string" where
  "skip_stars (c # p) = (if c = CHR ''*'' then skip_stars p else c # p)"
| "skip_stars [] = []"

definition glob_match :: "string \<Rightarrow> string \<Rightarrow> bool" where
  "glob_match pattern txt =
     (let p = map to_lowercase pattern; t = map to_lowercase txt in
      case glob_loop p t 0 0 None 0 of
        Some (True, pi) \<Rightarrow> skip_stars (drop pi p) = []
      | _ \<Rightarrow> False)"

subsection \<open>Termination\<close>

text \<open>The star index never moves back, between stars the mark only grows, and between marks the
  text index does.\<close>

definition star_rank :: "string \<Rightarrow> nat option \<Rightarrow> nat" where
  "star_rank p star = (case star of None \<Rightarrow> length p + 1 | Some s \<Rightarrow> length p - s)"

definition glob_state :: "string \<Rightarrow> string \<Rightarrow> nat \<Rightarrow> nat \<Rightarrow> nat option \<Rightarrow> nat \<Rightarrow> bool" where
  "glob_state p t pi ti star mark \<longleftrightarrow> pi \<le> length p \<and> ti \<le> length t \<and> mark \<le> ti \<and>
     (case star of None \<Rightarrow> True | Some s \<Rightarrow> s < pi)"

definition glob_order ::
  "string \<Rightarrow> string \<Rightarrow> ((nat \<times> nat \<times> nat option \<times> nat) \<times> (nat \<times> nat \<times> nat option \<times> nat)) set" where
  "glob_order p t = measures [\<lambda>(pi, ti, star, mark). star_rank p star,
     \<lambda>(pi, ti, star, mark). length t - mark, \<lambda>(pi, ti, star, mark). length t - ti]"

lemma wf_glob_order: "wf (glob_order p t)"
  by (simp add: glob_order_def)

lemma glob_decreases:
  assumes "glob_state p t pi ti star mark" and "ti < length t"
  shows "((pi + 1, ti + 1, star, mark), (pi, ti, star, mark)) \<in> glob_order p t"
    and "pi < length p \<Longrightarrow> ((pi + 1, ti, Some pi, ti), (pi, ti, star, mark)) \<in> glob_order p t"
    and "((j, mark + 1, star, mark + 1), (pi, ti, star, mark)) \<in> glob_order p t"
  using assms by (auto simp: glob_order_def glob_state_def star_rank_def split: option.splits)

lemma glob_returns:
  "glob_state p t pi ti star mark \<Longrightarrow> \<exists>r. glob_loop p t pi ti star mark = Some r"
proof (induction "(pi, ti, star, mark)" arbitrary: pi ti star mark rule: wf_induct_rule [OF wf_glob_order [of p t]])
  case (1 pi ti star mark)
  note IH = "1.hyps" and inv = "1.prems"
  show ?case
  proof (cases "ti < length t")
    case False
    then have "glob_loop p t pi ti star mark = Some (True, pi)" by (subst glob_loop.simps) simp
    then show ?thesis by blast
  next
    case lt: True
    consider (char) "pi < length p" "p ! pi = CHR ''?'' \<or> p ! pi = t ! ti"
      | (star) "pi < length p" "\<not> (p ! pi = CHR ''?'' \<or> p ! pi = t ! ti)" "p ! pi = CHR ''*''"
      | (stuck) "\<not> (pi < length p \<and> (p ! pi = CHR ''?'' \<or> p ! pi = t ! ti))"
        "\<not> (pi < length p \<and> p ! pi = CHR ''*'')"
      by blast
    then show ?thesis
    proof cases
      case char
      have "\<exists>r. glob_loop p t (pi + 1) (ti + 1) star mark = Some r"
        by (rule IH [OF glob_decreases(1) [OF inv lt]])
          (use lt char inv in \<open>auto simp: glob_state_def split: option.splits\<close>)
      with lt char show ?thesis by (subst glob_loop.simps) simp
    next
      case star
      have "\<exists>r. glob_loop p t (pi + 1) ti (Some pi) ti = Some r"
        by (rule IH [OF glob_decreases(2) [OF inv lt star(1)]])
          (use lt star inv in \<open>auto simp: glob_state_def split: option.splits\<close>)
      with lt star show ?thesis by (subst glob_loop.simps) simp
    next
      case stuck
      show ?thesis
      proof (cases star)
        case None
        with lt stuck show ?thesis by (subst glob_loop.simps) auto
      next
        case (Some s)
        have "\<exists>r. glob_loop p t (s + 1) (mark + 1) star (mark + 1) = Some r"
          by (rule IH [OF glob_decreases(3) [OF inv lt]])
            (use lt inv Some in \<open>auto simp: glob_state_def\<close>)
        with lt stuck Some show ?thesis by (subst glob_loop.simps) auto
      qed
    qed
  qed
qed

subsection \<open>What the pattern means\<close>

fun glob_means :: "string \<Rightarrow> string \<Rightarrow> bool" where
  "glob_means [] t = (t = [])"
| "glob_means (c # p) t =
     (if c = CHR ''*'' then \<exists>k \<le> length t. glob_means p (drop k t)
      else (case t of [] \<Rightarrow> False | d # u \<Rightarrow> (c = CHR ''?'' \<or> c = d) \<and> glob_means p u))"

text \<open>A run of characters without a star matches exactly as many characters.\<close>

definition char_match :: "char \<Rightarrow> char \<Rightarrow> bool" where
  "char_match c d \<longleftrightarrow> c = CHR ''?'' \<or> c = d"

lemma glob_means_seg:
  "CHR ''*'' \<notin> set seg \<Longrightarrow> glob_means (seg @ p) t \<longleftrightarrow>
     length seg \<le> length t \<and> list_all2 char_match seg (take (length seg) t) \<and>
     glob_means p (drop (length seg) t)"
proof (induction seg arbitrary: t)
  case (Cons c seg)
  then show ?case by (cases t) (auto simp: char_match_def)
qed simp

lemma glob_means_Nil: "glob_means p [] \<longleftrightarrow> skip_stars p = []"
  by (induction p) auto

lemma glob_means_star_drop:
  assumes "glob_means (CHR ''*'' # p) (drop j t)" and "i \<le> j" "j \<le> length t"
  shows "glob_means (CHR ''*'' # p) (drop i t)"
proof -
  from assms obtain k where k: "k \<le> length t - j" "glob_means p (drop (k + j) t)" by auto
  with assms show ?thesis
    by (auto intro!: exI [of _ "k + j - i"])
qed

text \<open>The loop invariant: the pattern before \<open>pi\<close> is settled; since the last star it matched, one
  character each, the text from \<open>mark\<close> to \<open>ti\<close>.\<close>

definition glob_inv :: "string \<Rightarrow> string \<Rightarrow> nat \<Rightarrow> nat \<Rightarrow> nat option \<Rightarrow> nat \<Rightarrow> bool" where
  "glob_inv p t pi ti star mark \<longleftrightarrow> glob_state p t pi ti star mark \<and>
     (case star of
        None \<Rightarrow> glob_means p t = glob_means (drop pi p) (drop ti t)
      | Some s \<Rightarrow> ti - mark = pi - (s + 1) \<and> CHR ''*'' \<notin> set (take (pi - (s + 1)) (drop (s + 1) p)) \<and>
          list_all2 char_match (take (pi - (s + 1)) (drop (s + 1) p)) (take (ti - mark) (drop mark t)) \<and>
          glob_means p t = (\<exists>k. mark \<le> k \<and> k \<le> length t \<and> glob_means (drop (s + 1) p) (drop k t)))"

lemma glob_inv_start: "glob_inv p t 0 0 None 0"
  by (simp add: glob_inv_def glob_state_def)

text \<open>With a star behind, the rest of the pattern splits into the matched run and what follows.\<close>

lemma glob_inv_split:
  assumes inv: "glob_inv p t pi ti (Some s) mark"
  obtains seg where "drop (s + 1) p = seg @ drop pi p" "CHR ''*'' \<notin> set seg"
    "length seg = ti - mark" "list_all2 char_match seg (take (length seg) (drop mark t))"
    "mark \<le> ti" "ti \<le> length t" "s < pi" "pi \<le> length p"
    "glob_means p t = (\<exists>k. mark \<le> k \<and> k \<le> length t \<and> glob_means (drop (s + 1) p) (drop k t))"
proof -
  let ?seg = "take (pi - (s + 1)) (drop (s + 1) p)"
  have st: "s < pi" "pi \<le> length p" using inv by (auto simp: glob_inv_def glob_state_def)
  have "drop (pi - (s + 1)) (drop (s + 1) p) = drop pi p" using st by simp
  then have eq: "drop (s + 1) p = ?seg @ drop pi p"
    using append_take_drop_id [of "pi - (s + 1)" "drop (s + 1) p"] by metis
  show thesis
    by (rule that [of ?seg]) (use eq inv st in \<open>auto simp: glob_inv_def glob_state_def\<close>)
qed

lemma take_drop_snoc:
  "a \<le> i \<Longrightarrow> i < length xs \<Longrightarrow> take (i + 1 - a) (drop a xs) = take (i - a) (drop a xs) @ [xs ! i]"
  by (simp add: Suc_diff_le take_Suc_conv_app_nth)

lemma glob_inv_char:
  assumes inv: "glob_inv p t pi ti star mark" and "ti < length t" "pi < length p"
    and m: "p ! pi = CHR ''?'' \<or> p ! pi = t ! ti" and ns: "CHR ''*'' \<notin> set t"
  shows "glob_inv p t (pi + 1) (ti + 1) star mark"
proof -
  have c: "p ! pi \<noteq> CHR ''*''"
  proof
    assume "p ! pi = CHR ''*''"
    with m have "t ! ti = CHR ''*''" by simp
    with nth_mem [OF assms(2)] ns show False by simp
  qed
  have p: "drop pi p = p ! pi # drop (pi + 1) p" and t: "drop ti t = t ! ti # drop (ti + 1) t"
    using assms(2,3) by (simp_all add: Cons_nth_drop_Suc)
  show ?thesis
  proof (cases star)
    case None
    have "glob_means (drop pi p) (drop ti t) = glob_means (drop (pi + 1) p) (drop (ti + 1) t)"
      unfolding p t using c m by simp
    with None assms show ?thesis by (simp add: glob_inv_def glob_state_def)
  next
    case (Some s)
    have b: "s < pi" "mark \<le> ti" "ti - mark = pi - (s + 1)"
      using inv Some by (auto simp: glob_inv_def glob_state_def)
    then have tk: "take (pi + 1 - (s + 1)) (drop (s + 1) p) = take (pi - (s + 1)) (drop (s + 1) p) @ [p ! pi]"
      "take (ti + 1 - mark) (drop mark t) = take (ti - mark) (drop mark t) @ [t ! ti]"
      using assms(2,3) take_drop_snoc [of "s + 1" pi p] take_drop_snoc [of mark ti t] by simp_all
    show ?thesis
      using inv c m assms(2,3) b unfolding Some glob_inv_def option.case tk
      by (auto simp: glob_state_def char_match_def list_all2_appendI)
  qed
qed

lemma glob_inv_star:
  assumes inv: "glob_inv p t pi ti star mark" and lt: "ti < length t" "pi < length p"
    and c: "p ! pi = CHR ''*''"
  shows "glob_inv p t (pi + 1) ti (Some pi) ti"
proof -
  have p: "drop pi p = CHR ''*'' # drop (pi + 1) p"
    using lt c by (metis Cons_nth_drop_Suc Suc_eq_plus1)
  have here: "glob_means (drop pi p) (drop ti t) =
      (\<exists>k. ti \<le> k \<and> k \<le> length t \<and> glob_means (drop (pi + 1) p) (drop k t))"
  proof -
    have "(\<exists>k \<le> length (drop ti t). glob_means (drop (pi + 1) p) (drop k (drop ti t))) =
        (\<exists>k. ti \<le> k \<and> k \<le> length t \<and> glob_means (drop (pi + 1) p) (drop k t))"
    proof
      assume "\<exists>k \<le> length (drop ti t). glob_means (drop (pi + 1) p) (drop k (drop ti t))"
      then obtain k where "k \<le> length t - ti" "glob_means (drop (pi + 1) p) (drop (k + ti) t)" by auto
      with lt show "\<exists>k. ti \<le> k \<and> k \<le> length t \<and> glob_means (drop (pi + 1) p) (drop k t)"
        by (intro exI [of _ "k + ti"]) auto
    next
      assume "\<exists>k. ti \<le> k \<and> k \<le> length t \<and> glob_means (drop (pi + 1) p) (drop k t)"
      then obtain k where "ti \<le> k" "k \<le> length t" "glob_means (drop (pi + 1) p) (drop k t)" by auto
      then show "\<exists>k \<le> length (drop ti t). glob_means (drop (pi + 1) p) (drop k (drop ti t))"
        by (intro exI [of _ "k - ti"]) auto
    qed
    then show ?thesis by (simp add: p)
  qed
  have "glob_means p t = glob_means (drop pi p) (drop ti t)"
  proof (cases star)
    case None
    with inv show ?thesis by (simp add: glob_inv_def)
  next
    case (Some s)
    obtain seg where seg: "drop (s + 1) p = seg @ drop pi p" "CHR ''*'' \<notin> set seg"
      "length seg = ti - mark" "list_all2 char_match seg (take (length seg) (drop mark t))"
      "mark \<le> ti" "ti \<le> length t"
      "glob_means p t = (\<exists>k. mark \<le> k \<and> k \<le> length t \<and> glob_means (drop (s + 1) p) (drop k t))"
      using glob_inv_split [OF inv [unfolded Some]] by metis
    note gs = glob_means_seg [OF seg(2), of "drop pi p"]
    show ?thesis
    proof
      assume "glob_means p t"
      then obtain k where k: "mark \<le> k" "k \<le> length t" "glob_means (seg @ drop pi p) (drop k t)"
        using seg by auto
      then have "length seg \<le> length t - k" "glob_means (drop pi p) (drop (length seg + k) t)"
        by (auto simp: gs)
      then have "glob_means (CHR ''*'' # drop (pi + 1) p) (drop (length seg + k) t)"
        by (simp only: p)
      from glob_means_star_drop [OF this, of ti] k(1,2) seg(3,5)
        \<open>length seg \<le> length t - k\<close>
      show "glob_means (drop pi p) (drop ti t)" by (simp only: p)
    next
      assume "glob_means (drop pi p) (drop ti t)"
      moreover have "drop (length seg) (drop mark t) = drop ti t" using seg(3,5) by simp
      ultimately have "glob_means (seg @ drop pi p) (drop mark t)"
        using seg(3-6) by (simp add: gs)
      with seg show "glob_means p t" by auto
    qed
  qed
  with here lt show ?thesis by (simp add: glob_inv_def glob_state_def)
qed

text \<open>No way on at \<open>ti\<close>: then nothing matches from \<open>mark\<close>, and the next candidate is \<open>mark + 1\<close>.\<close>

lemma glob_stuck:
  assumes "ti < length t" and "\<not> (pi < length p \<and> (p ! pi = CHR ''?'' \<or> p ! pi = t ! ti))"
    and "\<not> (pi < length p \<and> p ! pi = CHR ''*'')"
  shows "\<not> glob_means (drop pi p) (drop ti t)"
proof (cases "pi < length p")
  case True
  have p: "drop pi p = p ! pi # drop (pi + 1) p" and t: "drop ti t = t ! ti # drop (ti + 1) t"
    using assms(1) True by (simp_all add: Cons_nth_drop_Suc)
  show ?thesis unfolding p t using assms True by simp
qed (use assms in simp)

lemma glob_inv_back:
  assumes inv: "glob_inv p t pi ti (Some s) mark" and lt: "ti < length t"
    and no: "\<not> glob_means (drop pi p) (drop ti t)"
  shows "glob_inv p t (s + 1) (mark + 1) (Some s) (mark + 1)"
proof -
  obtain seg where seg: "drop (s + 1) p = seg @ drop pi p" "CHR ''*'' \<notin> set seg"
    "length seg = ti - mark" "mark \<le> ti" "s < pi" "pi \<le> length p"
    "glob_means p t = (\<exists>k. mark \<le> k \<and> k \<le> length t \<and> glob_means (drop (s + 1) p) (drop k t))"
    using glob_inv_split [OF inv] by metis
  have "drop (length seg) (drop mark t) = drop ti t" using seg(3,4) by simp
  with no have "\<not> glob_means (drop (s + 1) p) (drop mark t)"
    unfolding seg(1) glob_means_seg [OF seg(2)] by simp
  then have "glob_means p t =
      (\<exists>k. mark + 1 \<le> k \<and> k \<le> length t \<and> glob_means (drop (s + 1) p) (drop k t))"
    unfolding seg(7) by (metis Suc_eq_plus1 le_antisym le_SucI not_less_eq_eq)
  with seg lt show ?thesis by (simp add: glob_inv_def glob_state_def)
qed

lemma glob_inv_end:
  assumes inv: "glob_inv p t pi ti star mark" and e: "\<not> ti < length t"
  shows "glob_means p t = (skip_stars (drop pi p) = [])"
proof (cases star)
  case None
  with inv e show ?thesis by (simp add: glob_inv_def flip: glob_means_Nil)
next
  case (Some s)
  obtain seg where seg: "drop (s + 1) p = seg @ drop pi p" "CHR ''*'' \<notin> set seg"
    "length seg = ti - mark" "list_all2 char_match seg (take (length seg) (drop mark t))"
    "mark \<le> ti" "ti \<le> length t"
    "glob_means p t = (\<exists>k. mark \<le> k \<and> k \<le> length t \<and> glob_means (drop (s + 1) p) (drop k t))"
    using glob_inv_split [OF inv [unfolded Some]] by metis
  have at: "glob_means (drop (s + 1) p) (drop k t) \<longleftrightarrow> k = mark \<and> glob_means (drop pi p) []"
    if "mark \<le> k" "k \<le> length t" for k
    using that seg(3-6) e unfolding seg(1) glob_means_seg [OF seg(2)] by auto
  then have "glob_means p t = glob_means (drop pi p) []"
    unfolding seg(7) using seg(5,6) by (metis le_refl le_trans)
  then show ?thesis by (simp add: glob_means_Nil)
qed

lemma glob_loop_correct:
  assumes "CHR ''*'' \<notin> set t"
  shows "glob_inv p t pi ti star mark \<Longrightarrow> glob_loop p t pi ti star mark = Some (b, j) \<Longrightarrow>
    glob_means p t = (b \<and> skip_stars (drop j p) = [])"
proof (induction "(pi, ti, star, mark)" arbitrary: pi ti star mark rule: wf_induct_rule [OF wf_glob_order [of p t]])
  case (1 pi ti star mark)
  note IH = "1.hyps" and inv = "1.prems"(1) and res = "1.prems"(2) [unfolded glob_loop.simps [of p t pi]]
  have state: "glob_state p t pi ti star mark" using inv by (simp add: glob_inv_def)
  show ?case
  proof (cases "ti < length t")
    case False
    with res glob_inv_end [OF inv] show ?thesis by auto
  next
    case lt: True
    consider (char) "pi < length p" "p ! pi = CHR ''?'' \<or> p ! pi = t ! ti"
      | (star) "pi < length p" "\<not> (p ! pi = CHR ''?'' \<or> p ! pi = t ! ti)" "p ! pi = CHR ''*''"
      | (stuck) "\<not> (pi < length p \<and> (p ! pi = CHR ''?'' \<or> p ! pi = t ! ti))"
        "\<not> (pi < length p \<and> p ! pi = CHR ''*'')"
      by blast
    then show ?thesis
    proof cases
      case char
      from res lt char have "glob_loop p t (pi + 1) (ti + 1) star mark = Some (b, j)" by auto
      from IH [OF glob_decreases(1) [OF state lt] glob_inv_char [OF inv lt char assms] this]
      show ?thesis .
    next
      case star
      from res lt star have "glob_loop p t (pi + 1) ti (Some pi) ti = Some (b, j)" by auto
      from IH [OF glob_decreases(2) [OF state lt star(1)] glob_inv_star [OF inv lt star(1,3)] this]
      show ?thesis .
    next
      case stuck
      note no = glob_stuck [OF lt stuck]
      show ?thesis
      proof (cases star)
        case None
        with res lt stuck have "\<not> b" by (auto split: if_splits)
        with None inv no show ?thesis by (simp add: glob_inv_def)
      next
        case (Some s)
        with res lt stuck have r: "glob_loop p t (s + 1) (mark + 1) star (mark + 1) = Some (b, j)"
          by (auto split: if_splits)
        have "glob_inv p t (s + 1) (mark + 1) star (mark + 1)"
          using glob_inv_back [OF inv [unfolded Some] lt no] Some by simp
        from IH [OF glob_decreases(3) [OF state lt] this r] show ?thesis .
      qed
    qed
  qed
qed

subsection \<open>Results\<close>

text \<open>C24. The hostmask scan returns on every pattern and text: the backtracking loop cannot run
  forever.\<close>

theorem glob_loop_terminates:
  shows "\<exists>r. glob_loop p t 0 0 None 0 = Some r"
  by (rule glob_returns) (simp add: glob_state_def)

text \<open>C23. The scan implements the glob: for a text without a literal star, \<open>glob_match\<close> holds exactly
  when the pattern matches with \<^verbatim>\<open>*\<close> standing for any run and \<^verbatim>\<open>?\<close> for any one character, both
  sides folded to lower case.\<close>

theorem glob_match_correct:
  assumes "CHR ''*'' \<notin> set (map to_lowercase txt)"
  shows "glob_match pattern txt \<longleftrightarrow> glob_means (map to_lowercase pattern) (map to_lowercase txt)"
proof -
  let ?p = "map to_lowercase pattern" and ?t = "map to_lowercase txt"
  obtain b j where r: "glob_loop ?p ?t 0 0 None 0 = Some (b, j)"
    using glob_returns [of ?p ?t 0 0 None 0] by (auto simp: glob_state_def)
  from glob_loop_correct [OF assms glob_inv_start r] r show ?thesis
    by (cases b) (simp_all add: glob_match_def Let_def)
qed

theorem glob_match_correct_witness:
  shows "CHR ''*'' \<notin> set (map to_lowercase ''Bob!b@Example.org'') \<and>
    (glob_match ''*!*@*.example.ORG'' ''Bob!b@Example.org'' \<longleftrightarrow>
     glob_means (map to_lowercase ''*!*@*.example.ORG'') (map to_lowercase ''Bob!b@Example.org''))"
  using glob_match_correct [of "''Bob!b@Example.org''" "''*!*@*.example.ORG''"]
  by (simp add: ascii_simps)

text \<open>A star in the text defeats the star in the pattern: the scan compares it as a plain
  character first, records no backtracking point, and rejects a text the glob matches.\<close>

theorem glob_star_in_text:
  shows "glob_means ''*a'' ''*ba'' \<and> \<not> glob_match ''*a'' ''*ba''"
proof
  show "glob_means ''*a'' ''*ba''" by (auto intro!: exI [of _ 2])
  have "map to_lowercase ''*a'' = ''*a''" "map to_lowercase ''*ba'' = ''*ba''"
    by (simp_all add: ascii_simps)
  then show "\<not> glob_match ''*a'' ''*ba''"
    by (simp add: glob_match_def glob_loop.simps)
qed

end
