(* ===== verification/NetworkOps.thy ===== *)
theory NetworkOps
  imports MemoOps Access Glob
begin

text \<open>
  The network-wide operations of the database (src/src/engine/db/network.rs): bans, filters,
  forbids, watches, session exceptions, operator grants, news, jupes, persisted statistics, the
  report and help queues, groups and group-aware channel access, services ignores and the
  defence level.
\<close>

subsection \<open>Bans, filters, forbids, watches\<close>

definition akill_add ::
  "nat \<Rightarrow> xline_kind \<Rightarrow> string \<Rightarrow> string \<Rightarrow> string \<Rightarrow> nat option \<Rightarrow> db \<Rightarrow> (reg_error + bool) \<times> db" where
  "akill_add now kind msk setter reason expires d =
     (let wire = xline_wire kind;
          fresh = (\<not> (\<exists>a \<in> set (n_akills (net (st d))). akill_same wire msk a \<and> live_until now (kl_expires a)));
          entry = \<lparr>kl_kind = wire, kl_mask = msk, kl_setter = setter, kl_reason = reason,
                   kl_ts = now, kl_expires = expires\<rparr>
      in logged RegInternal (NetEvent (AkillAdded wire msk setter reason now expires))
           (\<lambda>d. (Inr fresh, on_net (\<lambda>n. n\<lparr>n_akills :=
              filter (\<lambda>a. \<not> akill_same wire msk a) (n_akills n) @ [entry]\<rparr>) d)) d)"

definition akill_del :: "nat \<Rightarrow> xline_kind \<Rightarrow> string \<Rightarrow> db \<Rightarrow> (reg_error + bool) \<times> db" where
  "akill_del now kind msk d =
     (let wire = xline_wire kind in
      if \<not> (\<exists>a \<in> set (n_akills (net (st d))). akill_same wire msk a \<and> live_until now (kl_expires a))
      then (Inr False, d)
      else logged RegInternal (NetEvent (AkillRemoved wire msk))
             (\<lambda>d. (Inr True, on_net (\<lambda>n. n\<lparr>n_akills :=
                filter (\<lambda>a. \<not> akill_same wire msk a) (n_akills n)\<rparr>) d)) d)"

text \<open>The typed listing: live entries whose stored kind parses.\<close>

definition akills :: "nat \<Rightarrow> db \<Rightarrow> (xline_kind \<times> akill) list" where
  "akills now d =
     List.map_filter (\<lambda>a. map_option (\<lambda>k. (k, a)) (xline_from_wire (kl_kind a)))
       (filter (\<lambda>a. live_until now (kl_expires a)) (n_akills (net (st d))))"

definition filter_same :: "string \<Rightarrow> filter_rec \<Rightarrow> bool" where
  "filter_same pat f \<longleftrightarrow> eq_ignore_ascii_case (fi_pattern f) pat"

definition filter_add ::
  "nat \<Rightarrow> string \<Rightarrow> string \<Rightarrow> string \<Rightarrow> string \<Rightarrow> string \<Rightarrow> nat option \<Rightarrow> db \<Rightarrow> (reg_error + bool) \<times> db" where
  "filter_add now pat action flags setter reason expires d =
     (let fresh = (\<not> (\<exists>f \<in> set (n_filters (net (st d))). filter_same pat f \<and> live_until now (fi_expires f)));
          entry = \<lparr>fi_pattern = pat, fi_action = action, fi_flags = flags, fi_reason = reason,
                   fi_setter = setter, fi_ts = now, fi_expires = expires\<rparr>
      in logged RegInternal (NetEvent (FilterAdded pat action flags reason setter now expires))
           (\<lambda>d. (Inr fresh, on_net (\<lambda>n. n\<lparr>n_filters :=
              filter (\<lambda>f. \<not> filter_same pat f) (n_filters n) @ [entry]\<rparr>) d)) d)"

definition filter_del :: "nat \<Rightarrow> string \<Rightarrow> db \<Rightarrow> (reg_error + bool) \<times> db" where
  "filter_del now pat d =
     (if \<not> (\<exists>f \<in> set (n_filters (net (st d))). filter_same pat f \<and> live_until now (fi_expires f))
      then (Inr False, d)
      else logged RegInternal (NetEvent (FilterRemoved pat))
             (\<lambda>d. (Inr True, on_net (\<lambda>n. n\<lparr>n_filters :=
                filter (\<lambda>f. \<not> filter_same pat f) (n_filters n)\<rparr>) d)) d)"

definition filters :: "nat \<Rightarrow> db \<Rightarrow> filter_rec list" where
  "filters now d = filter (\<lambda>f. live_until now (fi_expires f)) (n_filters (net (st d)))"

definition forbid_add ::
  "nat \<Rightarrow> forbid_kind \<Rightarrow> string \<Rightarrow> string \<Rightarrow> string \<Rightarrow> db \<Rightarrow> (reg_error + bool) \<times> db" where
  "forbid_add now kind msk setter reason d =
     (let wire = forbid_wire kind;
          fresh = (\<not> (\<exists>f \<in> set (n_forbids (net (st d))). forbid_same wire msk f));
          entry = \<lparr>fb_kind = wire, fb_mask = msk, fb_setter = setter, fb_reason = reason, fb_ts = now\<rparr>
      in logged RegInternal (NetEvent (ForbidAdded wire msk setter reason now))
           (\<lambda>d. (Inr fresh, on_net (\<lambda>n. n\<lparr>n_forbids :=
              filter (\<lambda>f. \<not> forbid_same wire msk f) (n_forbids n) @ [entry]\<rparr>) d)) d)"

definition forbid_del :: "forbid_kind \<Rightarrow> string \<Rightarrow> db \<Rightarrow> (reg_error + bool) \<times> db" where
  "forbid_del kind msk d =
     (let wire = forbid_wire kind in
      if \<not> (\<exists>f \<in> set (n_forbids (net (st d))). forbid_same wire msk f) then (Inr False, d)
      else logged RegInternal (NetEvent (ForbidRemoved wire msk))
             (\<lambda>d. (Inr True, on_net (\<lambda>n. n\<lparr>n_forbids :=
                filter (\<lambda>f. \<not> forbid_same wire msk f) (n_forbids n)\<rparr>) d)) d)"

definition is_forbidden :: "db \<Rightarrow> forbid_kind \<Rightarrow> string \<Rightarrow> string option" where
  "is_forbidden d kind name =
     map_option fb_reason
       (find (\<lambda>f. fb_kind f = forbid_wire kind \<and> glob_match (fb_mask f) name) (n_forbids (net (st d))))"

definition notify_add ::
  "nat \<Rightarrow> string \<Rightarrow> string \<Rightarrow> string \<Rightarrow> string \<Rightarrow> nat option \<Rightarrow> db \<Rightarrow> (reg_error + bool) \<times> db" where
  "notify_add now msk flags reason setter expires d =
     (let fresh = (\<not> (\<exists>n \<in> set (n_notifies (net (st d))). eq_ignore_ascii_case (nt_mask n) msk));
          entry = \<lparr>nt_mask = msk, nt_flags = flags, nt_reason = reason, nt_setter = setter,
                   nt_ts = now, nt_expires = expires\<rparr>
      in logged RegInternal (NetEvent (NotifyAdded msk flags reason setter now expires))
           (\<lambda>d. (Inr fresh, on_net (\<lambda>n. n\<lparr>n_notifies :=
              filter (\<lambda>x. \<not> eq_ignore_ascii_case (nt_mask x) msk) (n_notifies n) @ [entry]\<rparr>) d)) d)"

definition notify_del :: "string \<Rightarrow> db \<Rightarrow> (reg_error + bool) \<times> db" where
  "notify_del msk d =
     (if \<not> (\<exists>n \<in> set (n_notifies (net (st d))). eq_ignore_ascii_case (nt_mask n) msk) then (Inr False, d)
      else logged RegInternal (NetEvent (NotifyRemoved msk))
             (\<lambda>d. (Inr True, on_net (\<lambda>n. n\<lparr>n_notifies :=
                filter (\<lambda>x. \<not> eq_ignore_ascii_case (nt_mask x) msk) (n_notifies n)\<rparr>) d)) d)"

fun log_notify_removals :: "string list \<Rightarrow> db \<Rightarrow> (reg_error + unit) \<times> db" where
  "log_notify_removals [] d = (Inr (), d)"
| "log_notify_removals (m # ms) d =
     logged RegInternal (NetEvent (NotifyRemoved m)) (log_notify_removals ms) d"

definition notify_clear :: "db \<Rightarrow> (reg_error + nat) \<times> db" where
  "notify_clear d =
     (let masks = map nt_mask (n_notifies (net (st d))) in
      and_then (log_notify_removals masks)
        (\<lambda>_ d. (Inr (length masks), on_net (\<lambda>n. n\<lparr>n_notifies := []\<rparr>) d)) d)"

subsection \<open>Session exceptions and operator grants\<close>

definition session_except_add :: "string \<Rightarrow> nat \<Rightarrow> string \<Rightarrow> db \<Rightarrow> db" where
  "session_except_add msk limit reason d =
     on_net (\<lambda>n. n\<lparr>n_sess_exceptions :=
        filter (\<lambda>e. \<not> eq_ignore_ascii_case (se_mask e) msk) (n_sess_exceptions n) @
        [\<lparr>se_mask = msk, se_limit = limit, se_reason = reason\<rparr>]\<rparr>)
       (logged_ignore (NetEvent (SessionExceptionAdded msk limit reason)) d)"

definition session_except_del :: "string \<Rightarrow> db \<Rightarrow> bool \<times> db" where
  "session_except_del msk d =
     (if \<exists>e \<in> set (n_sess_exceptions (net (st d))). eq_ignore_ascii_case (se_mask e) msk
      then (True, on_net (\<lambda>n. n\<lparr>n_sess_exceptions :=
              filter (\<lambda>e. \<not> eq_ignore_ascii_case (se_mask e) msk) (n_sess_exceptions n)\<rparr>)
             (logged_ignore (NetEvent (SessionExceptionRemoved msk)) d))
      else (False, d))"

definition u32_max :: nat where "u32_max = 2 ^ 32 - 1"

text \<open>\<^verbatim>\<open>max_by_key\<close> keeps the last of equal maxima; 0 means unlimited and counts as the largest.\<close>

fun max_by_key :: "('a \<Rightarrow> nat) \<Rightarrow> 'a list \<Rightarrow> 'a option" where
  "max_by_key f [] = None"
| "max_by_key f (x # xs) =
     (case max_by_key f xs of None \<Rightarrow> Some x | Some y \<Rightarrow> if f x > f y then Some x else Some y)"

definition session_exception_for :: "db \<Rightarrow> string \<Rightarrow> nat option" where
  "session_exception_for d ip =
     max_by_key (\<lambda>l. if l = 0 then u32_max else l)
       (map se_limit (filter (\<lambda>e. glob_match (key (se_mask e)) (key ip)) (n_sess_exceptions (net (st d)))))"

definition oper_grant :: "string \<Rightarrow> string list \<Rightarrow> nat option \<Rightarrow> db \<Rightarrow> db" where
  "oper_grant acct privs expires d =
     on_net (\<lambda>n. n\<lparr>n_opers := (n_opers n)(key acct \<mapsto> \<lparr>og_privs = privs, og_expires = expires\<rparr>)\<rparr>)
       (logged_ignore (NetEvent (OperGranted acct privs expires)) d)"

definition oper_revoke :: "string \<Rightarrow> db \<Rightarrow> bool \<times> db" where
  "oper_revoke acct d =
     (if n_opers (net (st d)) (key acct) = None then (False, d)
      else (True, on_net (\<lambda>n. n\<lparr>n_opers := (n_opers n)(key acct := None)\<rparr>)
             (logged_ignore (NetEvent (OperRevoked acct)) d)))"

definition oper_privs_of :: "db \<Rightarrow> string \<Rightarrow> nat \<Rightarrow> privs option" where
  "oper_privs_of d acct now =
     (case n_opers (net (st d)) (key acct) of None \<Rightarrow> None
      | Some g \<Rightarrow> if live_until now (og_expires g) then Some (privs_from_names (og_privs g)) else None)"

subsection \<open>News, jupes, statistics\<close>

definition news_add :: "nat \<Rightarrow> news_kind \<Rightarrow> string \<Rightarrow> string \<Rightarrow> db \<Rightarrow> nat \<times> db" where
  "news_add now kind txt setter d =
     (let i = n_news_seq (net (st d)); wire = news_wire kind in
      (i, on_net (\<lambda>n. n\<lparr>n_news_seq := i + 1,
             n_news := n_news n @ [\<lparr>nw_id = i, nw_kind = wire, nw_text = txt, nw_setter = setter,
                nw_ts = now\<rparr>]\<rparr>)
            (logged_ignore (NetEvent (NewsAdded i wire txt setter now)) d)))"

definition news_del :: "nat \<Rightarrow> db \<Rightarrow> bool \<times> db" where
  "news_del i d =
     (if \<exists>n \<in> set (n_news (net (st d))). nw_id n = i
      then (True, on_net (\<lambda>n. n\<lparr>n_news := filter (\<lambda>x. nw_id x \<noteq> i) (n_news n)\<rparr>)
             (logged_ignore (NetEvent (NewsDeleted i)) d))
      else (False, d))"

definition base36 :: string where
  "base36 = ''0123456789ABCDEFGHIJKLMNOPQRSTUVWXYZ''"

definition jupe_sid :: "nat \<Rightarrow> string" where
  "jupe_sid sq = [CHR ''9'', base36 ! (sq div 36 mod 36), base36 ! (sq mod 36)]"

definition jupe_add :: "string \<Rightarrow> string \<Rightarrow> db \<Rightarrow> string \<times> db" where
  "jupe_add name reason d =
     (case find (\<lambda>j. eq_ignore_ascii_case (ju_name j) name) (n_jupes (net (st d))) of
        Some j \<Rightarrow> (ju_sid j, d)
      | None \<Rightarrow>
          let sid = jupe_sid (n_jupe_seq (net (st d))) in
          (sid, on_net (\<lambda>n. n\<lparr>n_jupes := n_jupes n @ [\<lparr>ju_name = name, ju_sid = sid, ju_reason = reason\<rparr>],
                   n_jupe_seq := n_jupe_seq n + 1\<rparr>)
                 (logged_ignore (NetEvent (JupeAdded name sid reason)) d)))"

definition jupe_del :: "string \<Rightarrow> db \<Rightarrow> string option \<times> db" where
  "jupe_del name d =
     (case find (\<lambda>j. eq_ignore_ascii_case (ju_name j) name) (n_jupes (net (st d))) of
        None \<Rightarrow> (None, d)
      | Some j \<Rightarrow> (Some (ju_sid j),
          on_net (\<lambda>n. n\<lparr>n_jupes := filter (\<lambda>j. \<not> eq_ignore_ascii_case (ju_name j) name) (n_jupes n)\<rparr>)
            (logged_ignore (NetEvent (JupeRemoved name)) d)))"

text \<open>The counters come from a \<^verbatim>\<open>BTreeMap\<close>: \<open>ks\<close> are its keys in order.\<close>

definition map_entries :: "string list \<Rightarrow> (string \<rightharpoonup> nat) \<Rightarrow> (string \<times> nat) list" where
  "map_entries ks m = List.map_filter (\<lambda>k. map_option (Pair k) (m k)) ks"

definition persist_stats ::
  "string list \<Rightarrow> (string \<rightharpoonup> nat) \<Rightarrow> chan_stats \<Rightarrow> db \<Rightarrow> (io_error + unit) \<times> db" where
  "persist_stats ks counters chans d =
     (case log_append (NetEvent (StatsSet (map_entries ks counters) chans)) (lg d) of
        (Inl e, l) \<Rightarrow> (Inl e, d\<lparr>lg := l\<rparr>)
      | (Inr _, l) \<Rightarrow> (Inr (), on_net (\<lambda>n. n\<lparr>n_stats := counters, n_chan_stats := chans\<rparr>) (d\<lparr>lg := l\<rparr>)))"

definition persist_incidents ::
  "nat \<Rightarrow> (string \<times> nat \<times> string) list \<Rightarrow> db \<Rightarrow> (io_error + unit) \<times> db" where
  "persist_incidents sq incidents d =
     (case log_append (NetEvent (IncidentsSet sq incidents)) (lg d) of
        (Inl e, l) \<Rightarrow> (Inl e, d\<lparr>lg := l\<rparr>)
      | (Inr _, l) \<Rightarrow> (Inr (), on_net (\<lambda>n. n\<lparr>n_incident_seq := sq, n_incidents := incidents\<rparr>) (d\<lparr>lg := l\<rparr>)))"

subsection \<open>The moderation queues\<close>

definition max_queue :: nat where "max_queue = 2000"

definition position :: "('a \<Rightarrow> bool) \<Rightarrow> 'a list \<Rightarrow> nat option" where
  "position p xs = find (\<lambda>i. p (xs ! i)) [0..<length xs]"

definition prune_queue :: "('a \<Rightarrow> bool) \<Rightarrow> 'a list \<Rightarrow> 'a list" where
  "prune_queue is_open q =
     (if length q < max_queue then q
      else remove_at (case position (\<lambda>e. \<not> is_open e) q of None \<Rightarrow> 0 | Some i \<Rightarrow> i) q)"

definition cooling :: "nat \<Rightarrow> nat option \<Rightarrow> bool" where
  "cooling now t \<longleftrightarrow> (case t of None \<Rightarrow> False | Some t0 \<Rightarrow> now - t0 < 30)"

definition report_file ::
  "nat \<Rightarrow> string \<Rightarrow> string \<Rightarrow> string \<Rightarrow> string \<Rightarrow> db \<Rightarrow> nat option \<times> db" where
  "report_file now reporter cooldown_key target reason d =
     (let k = key cooldown_key in
      if cooling now (report_times d k) then (None, d)
      else let d1 = on_net (\<lambda>n. n\<lparr>n_reports := prune_queue rp_open (n_reports n)\<rparr>)
                      (d\<lparr>report_times := (report_times d)(k \<mapsto> now)\<rparr>);
               i = n_report_seq (net (st d1))
           in (Some i, on_net (\<lambda>n. n\<lparr>n_report_seq := i + 1,
                  n_reports := n_reports n @ [\<lparr>rp_id = i, rp_reporter = reporter, rp_target = target,
                     rp_reason = reason, rp_ts = now, rp_open = True\<rparr>]\<rparr>)
                 (logged_ignore (NetEvent (ReportFiled i reporter target reason now)) d1)))"

definition report_close :: "nat \<Rightarrow> db \<Rightarrow> bool \<times> db" where
  "report_close i d =
     (if \<exists>r \<in> set (n_reports (net (st d))). rp_id r = i \<and> rp_open r
      then (True, on_net (\<lambda>n. n\<lparr>n_reports :=
              find_update (\<lambda>r. rp_id r = i) (\<lambda>r. r\<lparr>rp_open := False\<rparr>) (n_reports n)\<rparr>)
             (logged_ignore (NetEvent (ReportClosed i)) d))
      else (False, d))"

definition report_del :: "nat \<Rightarrow> db \<Rightarrow> bool \<times> db" where
  "report_del i d =
     (if \<exists>r \<in> set (n_reports (net (st d))). rp_id r = i
      then (True, on_net (\<lambda>n. n\<lparr>n_reports := filter (\<lambda>r. rp_id r \<noteq> i) (n_reports n)\<rparr>)
             (logged_ignore (NetEvent (ReportDeleted i)) d))
      else (False, d))"

definition reports :: "bool \<Rightarrow> db \<Rightarrow> report list" where
  "reports open_only d =
     filter (\<lambda>r. \<not> open_only \<or> rp_open r) (rev (n_reports (net (st d))))"

definition help_request :: "nat \<Rightarrow> string \<Rightarrow> string \<Rightarrow> string \<Rightarrow> db \<Rightarrow> nat option \<times> db" where
  "help_request now requester cooldown_key msg d =
     (let k = ''help:'' @ key cooldown_key in
      if cooling now (report_times d k) then (None, d)
      else let d1 = on_net (\<lambda>n. n\<lparr>n_help := prune_queue ht_open (n_help n)\<rparr>)
                      (d\<lparr>report_times := (report_times d)(k \<mapsto> now)\<rparr>);
               i = n_help_seq (net (st d1))
           in (Some i, on_net (\<lambda>n. n\<lparr>n_help_seq := i + 1,
                  n_help := n_help n @ [\<lparr>ht_id = i, ht_requester = requester, ht_message = msg,
                     ht_ts = now, ht_handler = None, ht_open = True\<rparr>]\<rparr>)
                 (logged_ignore (NetEvent (HelpRequested i requester msg now)) d1)))"

definition help_take :: "nat \<Rightarrow> string \<Rightarrow> db \<Rightarrow> bool \<times> db" where
  "help_take i handler d =
     (if \<exists>t \<in> set (n_help (net (st d))). ht_id t = i \<and> ht_open t
      then (True, on_net (\<lambda>n. n\<lparr>n_help :=
              find_update (\<lambda>t. ht_id t = i) (\<lambda>t. t\<lparr>ht_handler := Some handler\<rparr>) (n_help n)\<rparr>)
             (logged_ignore (NetEvent (HelpTaken i handler)) d))
      else (False, d))"

definition help_close :: "nat \<Rightarrow> db \<Rightarrow> bool \<times> db" where
  "help_close i d =
     (if \<exists>t \<in> set (n_help (net (st d))). ht_id t = i \<and> ht_open t
      then (True, on_net (\<lambda>n. n\<lparr>n_help :=
              find_update (\<lambda>t. ht_id t = i) (\<lambda>t. t\<lparr>ht_open := False\<rparr>) (n_help n)\<rparr>)
             (logged_ignore (NetEvent (HelpClosed i)) d))
      else (False, d))"

definition help_next_open :: "db \<Rightarrow> nat option" where
  "help_next_open d =
     map_option ht_id (find (\<lambda>t. ht_open t \<and> ht_handler t = None) (n_help (net (st d))))"

subsection \<open>Groups\<close>

definition group_of :: "db \<Rightarrow> string \<Rightarrow> group_rec option" where
  "group_of d name = find (\<lambda>g. key (g_name g) = key name) (n_groups (net (st d)))"

definition group_register :: "nat \<Rightarrow> string \<Rightarrow> string \<Rightarrow> db \<Rightarrow> (chan_error + unit) \<times> db" where
  "group_register now name founder d =
     (if take 1 name \<noteq> ''!'' \<or> utf8_len name < 2 then (Inl ChanInvalidPattern, d)
      else if group_of d name \<noteq> None then (Inl ChanExists, d)
      else let home = l_origin (lg d) in
        logged ChanInternal (NetEvent (GroupRegistered name founder now home))
          (\<lambda>d. (Inr (), on_net (\<lambda>n. n\<lparr>n_groups := n_groups n @
             [\<lparr>g_name = name, g_founder = founder, g_ts = now, g_home = home, g_members = []\<rparr>]\<rparr>) d)) d)"

definition group_drop :: "string \<Rightarrow> db \<Rightarrow> (chan_error + unit) \<times> db" where
  "group_drop name d =
     (if group_of d name = None then (Inl ChanNoChannel, d)
      else logged ChanInternal (NetEvent (GroupDropped name))
             (\<lambda>d. (Inr (), on_net (\<lambda>n. n\<lparr>n_groups :=
                filter (\<lambda>g. key (g_name g) \<noteq> key name) (n_groups n)\<rparr>) d)) d)"

definition group_set_flags :: "string \<Rightarrow> string \<Rightarrow> string \<Rightarrow> db \<Rightarrow> (chan_error + unit) \<times> db" where
  "group_set_flags name acct flags d =
     (if group_of d name = None then (Inl ChanNoChannel, d)
      else logged ChanInternal (NetEvent (GroupFlagsSet name acct flags))
             (\<lambda>d. (Inr (), on_net (\<lambda>n. n\<lparr>n_groups := on_group name (\<lambda>g. g\<lparr>g_members :=
                filter (\<lambda>m. \<not> eq_ignore_ascii_case (gm_account m) acct) (g_members g) @
                [\<lparr>gm_account = acct, gm_flags = flags\<rparr>]\<rparr>) (n_groups n)\<rparr>) d)) d)"

definition group_del_member :: "string \<Rightarrow> string \<Rightarrow> db \<Rightarrow> (chan_error + bool) \<times> db" where
  "group_del_member name acct d =
     (case group_of d name of
        None \<Rightarrow> (Inl ChanNoChannel, d)
      | Some g \<Rightarrow>
          if \<not> (\<exists>m \<in> set (g_members g). eq_ignore_ascii_case (gm_account m) acct) then (Inr False, d)
          else logged ChanInternal (NetEvent (GroupMemberDel name acct))
             (\<lambda>d. (Inr True, on_net (\<lambda>n. n\<lparr>n_groups := on_group name (\<lambda>g. g\<lparr>g_members :=
                filter (\<lambda>m. \<not> eq_ignore_ascii_case (gm_account m) acct) (g_members g)\<rparr>)
                (n_groups n)\<rparr>) d)) d)"

definition group_set_founder :: "string \<Rightarrow> string \<Rightarrow> db \<Rightarrow> (chan_error + unit) \<times> db" where
  "group_set_founder name founder d =
     (if group_of d name = None then (Inl ChanNoChannel, d)
      else logged ChanInternal (NetEvent (GroupFounderSet name founder))
             (\<lambda>d. (Inr (), on_net (\<lambda>n. n\<lparr>n_groups :=
                on_group name (\<lambda>g. g\<lparr>g_founder := founder\<rparr>) (n_groups n)\<rparr>) d)) d)"

definition groups_founded :: "db \<Rightarrow> string \<Rightarrow> nat" where
  "groups_founded d acct =
     length (filter (\<lambda>g. eq_ignore_ascii_case (g_founder g) acct) (n_groups (net (st d))))"

definition groups_member_of :: "db \<Rightarrow> string \<Rightarrow> string list" where
  "groups_member_of d acct =
     map g_name (filter (\<lambda>g. eq_ignore_ascii_case (g_founder g) acct \<or>
        (\<exists>m \<in> set (g_members g). eq_ignore_ascii_case (gm_account m) acct)) (n_groups (net (st d))))"

definition group_grants_channel_access :: "db \<Rightarrow> string \<Rightarrow> string \<Rightarrow> bool" where
  "group_grants_channel_access d name acct =
     (case group_of d name of None \<Rightarrow> False
      | Some g \<Rightarrow> eq_ignore_ascii_case (g_founder g) acct \<or>
          (\<exists>m \<in> set (g_members g). eq_ignore_ascii_case (gm_account m) acct \<and>
             group_flags_has (group_flags_parse (gm_flags m)) GChannel))"

definition access_applies :: "db \<Rightarrow> string \<Rightarrow> chan_access \<Rightarrow> bool" where
  "access_applies d acct a \<longleftrightarrow>
     (if take 1 (ca_account a) = ''!'' then group_grants_channel_access d (ca_account a) acct
      else eq_ignore_ascii_case (ca_account a) acct)"

definition channel_caps :: "db \<Rightarrow> string \<Rightarrow> string \<Rightarrow> caps" where
  "channel_caps d chan acct =
     (case channels (st d) (key chan) of None \<Rightarrow> caps_default
      | Some c \<Rightarrow>
          if eq_ignore_ascii_case (c_founder c) acct then level_caps ''founder''
          else foldl (\<lambda>caps a. if access_applies d acct a then caps_union caps (level_caps (ca_level a)) else caps)
                 caps_default (c_access c))"

definition channel_join_mode :: "db \<Rightarrow> string \<Rightarrow> string \<Rightarrow> string option" where
  "channel_join_mode d chan acct = cp_auto (channel_caps d chan acct)"

subsection \<open>Ignores, defence level, configuration\<close>

definition ignore_add :: "string \<Rightarrow> string \<Rightarrow> nat option \<Rightarrow> db \<Rightarrow> db" where
  "ignore_add msk reason expires d =
     d\<lparr>ignores := filter (\<lambda>i. \<not> eq_ignore_ascii_case (ig_mask i) msk) (ignores d) @
        [\<lparr>ig_mask = msk, ig_reason = reason, ig_expires = expires\<rparr>]\<rparr>"

definition ignore_del :: "nat \<Rightarrow> string \<Rightarrow> db \<Rightarrow> bool \<times> db" where
  "ignore_del now msk d =
     (\<exists>i \<in> set (ignores d). eq_ignore_ascii_case (ig_mask i) msk \<and> live_until now (ig_expires i),
      d\<lparr>ignores := filter (\<lambda>i. \<not> eq_ignore_ascii_case (ig_mask i) msk) (ignores d)\<rparr>)"

definition is_ignored :: "nat \<Rightarrow> string \<Rightarrow> string \<Rightarrow> db \<Rightarrow> bool \<times> db" where
  "is_ignored now nick host d =
     (let live = filter (\<lambda>i. live_until now (ig_expires i)) (ignores d);
          full = key nick @ ''!*@'' @ key host
      in (\<exists>i \<in> set live. let m = key (ig_mask i) in
            if CHR ''@'' \<in> set m then glob_match m full else glob_match m (key nick),
          d\<lparr>ignores := live\<rparr>))"

definition set_defcon :: "nat \<Rightarrow> db \<Rightarrow> db" where
  "set_defcon level d = d\<lparr>defcon := max 1 (min level 5)\<rparr>"

definition registrations_frozen :: "db \<Rightarrow> bool" where
  "registrations_frozen d \<longleftrightarrow> defcon d \<le> 3"

definition channel_regs_frozen :: "db \<Rightarrow> bool" where
  "channel_regs_frozen d \<longleftrightarrow> defcon d \<le> 4"

definition set_readonly :: "bool \<Rightarrow> db \<Rightarrow> db" where
  "set_readonly on d = d\<lparr>lg := (lg d)\<lparr>l_readonly := on\<rparr>\<rparr>"

definition set_default_language :: "string \<Rightarrow> db \<Rightarrow> db" where
  "set_default_language lang d = (if lang = [] then d else d\<lparr>default_language := lang\<rparr>)"

definition set_available_languages :: "string list \<Rightarrow> db \<Rightarrow> db" where
  "set_available_languages langs d =
     d\<lparr>available_languages :=
        (if default_language d \<in> set langs then langs else langs @ [default_language d])\<rparr>"

subsection \<open>Facts the contract needs\<close>

lemma foldl_map_entries_at:
  "foldl (\<lambda>m (k, v). m(k \<mapsto> v)) m0 (map_entries ks m) j =
     (if j \<in> set ks \<and> m j \<noteq> None then m j else m0 j)"
proof (induction ks arbitrary: m0)
  case Nil
  then show ?case by (simp add: map_entries_def map_filter_simps)
next
  case (Cons k ks)
  then show ?case
    by (cases "m k") (auto simp: map_entries_def map_filter_simps split: if_splits)
qed

lemma foldl_map_entries:
  "enumerates ks m \<Longrightarrow> foldl (\<lambda>m (k, v). m(k \<mapsto> v)) Map.empty (map_entries ks m) = m"
  by (rule ext) (auto simp: foldl_map_entries_at enumerates_def)

lemma put_fresh:
  "\<forall>x \<in> set ns. nw_id x < nw_id n \<Longrightarrow> news_put n ns = ns @ [n]"
  "\<forall>x \<in> set rs. rp_id x < rp_id r \<Longrightarrow> report_put r rs = rs @ [r]"
  "\<forall>x \<in> set hs. ht_id x < ht_id h \<Longrightarrow> help_put h hs = hs @ [h]"
  by (auto simp: news_put_def report_put_def help_put_def)

lemma queue_ids:
  assumes "wf_store s"
  shows "\<forall>x \<in> set (n_news (net s)). nw_id x < n_news_seq (net s)"
    "\<forall>x \<in> set (n_reports (net s)). rp_id x < n_report_seq (net s)"
    "\<forall>x \<in> set (n_help (net s)). ht_id x < n_help_seq (net s)"
  using assms by (auto simp: wf_store_def wf_net_def wf_queues_def)

lemma prune_queue_short: "length q < max_queue \<Longrightarrow> prune_queue p q = q"
  by (simp add: prune_queue_def)

lemma group_register_new:
  "find (\<lambda>g. key (g_name g) = key (g_name c)) gs = None \<Longrightarrow> group_register_fold c gs = gs @ [c]"
  by (auto simp: group_register_fold_def find_None_iff)

lemma find_jupe_None:
  "find (\<lambda>j. eq_ignore_ascii_case (ju_name j) name) js = None \<Longrightarrow>
   \<not> (\<exists>j \<in> set js. eq_ignore_ascii_case (ju_name j) name)"
  by (auto simp: find_None_iff)

subsection \<open>Every operation keeps the contract\<close>

context db_invariant
begin

lemma kept_bans:
  assumes "kept d"
  shows "kept (snd (akill_add now kind msk setter reason expires d))"
    "kept (snd (akill_del now kind msk d))"
    "kept (snd (filter_add now pat action flags setter reason expires d))"
    "kept (snd (filter_del now pat d))"
    "kept (snd (forbid_add now fkind msk setter reason d))"
    "kept (snd (forbid_del fkind msk d))"
    "kept (snd (notify_add now msk flags reason setter expires d))"
    "kept (snd (notify_del msk d))"
  using assms
  by (auto simp: akill_add_def akill_del_def filter_add_def filter_del_def filter_same_def
      forbid_add_def forbid_del_def notify_add_def notify_del_def akill_put_def akill_del_key_def
      filter_put_def filter_del_key_def forbid_put_def forbid_del_key_def notify_put_def
      notify_del_key_def Let_def intro!: kept_logged)

lemma kept_persist_stats:
  "kept d \<Longrightarrow> enumerates ks counters \<Longrightarrow> kept (snd (persist_stats ks counters chans d))"
  by (auto simp: persist_stats_def kept_def foldl_map_entries split: prod.split sum.split
      dest: commit refuse)

lemma kept_persist_incidents: "kept d \<Longrightarrow> kept (snd (persist_incidents sq incidents d))"
  by (auto simp: persist_incidents_def kept_def split: prod.split sum.split dest: commit refuse)

lemma kept_group_register: "kept d \<Longrightarrow> kept (snd (group_register now name founder d))"
  by (auto simp: group_register_def Let_def group_of_def group_register_new intro!: kept_logged)

lemma kept_groups:
  assumes "kept d"
  shows "kept (snd (group_drop name d))" "kept (snd (group_set_flags name acct flags d))"
    "kept (snd (group_del_member name acct d))" "kept (snd (group_set_founder name founder d))"
  using assms
  by (auto simp: group_drop_def group_set_flags_def group_del_member_def group_set_founder_def
      member_put_def member_del_key_def intro!: kept_logged split: option.split)

lemma kept_ignores:
  assumes "kept d"
  shows "kept (ignore_add msk reason expires d)" "kept (snd (ignore_del now msk d))"
    "kept (snd (is_ignored now nick host d))" "kept (set_defcon level d)"
  using assms by (simp_all add: kept_def ignore_add_def ignore_del_def is_ignored_def Let_def set_defcon_def)

end

context online_invariant
begin

lemma kept_sessions:
  assumes "kept d"
  shows "kept (session_except_add msk limit reason d)" "kept (snd (session_except_del msk d))"
  using assms unfolding session_except_add_def session_except_del_def
  by (auto intro!: kept_ignore_net simp: session_put_def session_del_key_def)

lemma kept_opers:
  assumes "kept d"
  shows "kept (oper_grant acct privs expires d)" "kept (snd (oper_revoke acct d))"
  using assms unfolding oper_grant_def oper_revoke_def by (auto intro!: kept_ignore_net)

lemma kept_news:
  assumes "kept d"
  shows "kept (snd (news_add now kind txt setter d))" "kept (snd (news_del i d))"
  using assms queue_ids(1) [OF kept_wf [OF assms]] unfolding news_add_def news_del_def Let_def
  by (auto intro!: kept_ignore_net simp: put_fresh)

lemma kept_jupes:
  assumes "kept d"
  shows "kept (snd (jupe_add name reason d))" "kept (snd (jupe_del name d))"
  using assms unfolding jupe_add_def jupe_del_def Let_def
  by (auto intro!: kept_ignore_net dest: find_jupe_None split: option.split)

lemma kept_report_file:
  assumes "kept d" and "length (n_reports (net (st d))) < max_queue"
  shows "kept (snd (report_file now reporter ck target reason d))"
proof -
  let ?d = "d\<lparr>report_times := (report_times d)(key ck \<mapsto> now)\<rparr>"
  have "on_net (\<lambda>n. n\<lparr>n_reports := prune_queue rp_open (n_reports n)\<rparr>) ?d = ?d"
    using assms(2) by (simp add: on_defs prune_queue_short)
  moreover have "kept ?d" using assms(1) by (simp add: kept_def)
  ultimately show ?thesis
    using assms(1) queue_ids(2) [OF kept_wf [OF assms(1)]] unfolding report_file_def Let_def
    by (auto intro!: kept_ignore_net simp: put_fresh)
qed

lemma kept_help_request:
  assumes "kept d" and "length (n_help (net (st d))) < max_queue"
  shows "kept (snd (help_request now requester ck msg d))"
proof -
  let ?d = "d\<lparr>report_times := (report_times d)(''help:'' @ key ck \<mapsto> now)\<rparr>"
  have "on_net (\<lambda>n. n\<lparr>n_help := prune_queue ht_open (n_help n)\<rparr>) ?d = ?d"
    using assms(2) by (simp add: on_defs prune_queue_short)
  moreover have "kept ?d" using assms(1) by (simp add: kept_def)
  ultimately show ?thesis
    using assms(1) queue_ids(3) [OF kept_wf [OF assms(1)]] unfolding help_request_def Let_def
    by (auto intro!: kept_ignore_net simp: put_fresh)
qed

lemma kept_queues:
  assumes "kept d"
  shows "kept (snd (report_close i d))" "kept (snd (report_del i d))"
    "kept (snd (help_take i handler d))" "kept (snd (help_close i d))"
  using assms unfolding report_close_def report_del_def help_take_def help_close_def
  by (auto intro!: kept_ignore_net)

end

end
