(* ===== verification/Run.thy ===== *)
theory Run
  imports NetworkOps
begin

text \<open>
  The database as a state machine: a run starts from an empty log, performs any of the modelled
  operations, ingests entries from other nodes and restarts. The contract \<open>good\<close> (live store =
  replay of the log, well-formed store, well-formed log) interprets the locale every operation
  was proved against; reachable states therefore satisfy it.
\<close>

definition good :: "store \<Rightarrow> event_log \<Rightarrow> bool" where
  "good s l \<longleftrightarrow> event_journal.in_step s l \<and> wf_store s \<and> log_ok l \<and> Unsynced \<notin> set (l_io l)"

lemma in_step_replay: "event_journal.in_step s l \<longleftrightarrow> s = replay (log_events l) store_empty"
  by (simp add: event_journal.in_step_def replay_def)

lemma wf_replayed [simp]: "wf_store (replay es store_empty)"
  by (rule wf_replay [OF wf_store_empty])

lemma log_ingest_events:
  "log_ingest e l = (Inr (Some ev), l') \<Longrightarrow> log_events l' = log_events l @ [ev]"
  by (frule log_ingest_Some(3), drule log_ingest_Some(4)) (simp add: log_events_def)

interpretation sound: db_invariant good
proof unfold_locales
  fix s l ev u l'
  assume "good s l" "log_append ev l = (Inr u, l')"
  then show "good (apply_event ev s) l'"
    unfolding good_def using event_journal.in_step_commit wf_apply_event log_ok_append log_append_keeps
    by blast
next
  fix s l ev x l'
  assume "good s l" "log_append ev l = (Inl x, l')"
  then show "good s l'"
    unfolding good_def using event_journal.in_step_refused log_ok_append log_append_keeps by blast
next
  fix s l e ev l'
  assume a: "good s l" "foreign e l" "log_ingest e l = (Inr (Some ev), l')"
  then have "log_ok l'" "Unsynced \<notin> set (l_io l')"
    unfolding good_def foreign_def using log_ok_ingest log_ingest_io by blast+
  moreover have "event_journal.in_step (apply_event ev s) l'"
    using a log_ingest_events [OF a(3)] by (simp add: good_def in_step_replay)
  ultimately show "good (apply_event ev s) l'"
    using a wf_apply_event by (simp add: good_def)
next
  fix s l e x l'
  assume a: "good s l" "foreign e l" "log_ingest e l = (Inl x, l')"
  then have "log_ok l'" "Unsynced \<notin> set (l_io l')"
    unfolding good_def foreign_def using log_ok_ingest log_ingest_io by blast+
  then show "good s l'"
    using a log_ingest_err(1) [OF a(3)] by (simp add: good_def in_step_replay log_events_def)
next
  fix s l assume "good s l"
  then show "wf_store s" by (simp add: good_def)
qed

lemma writable_ingest:
  assumes "writable l" and "log_ingest e l = (r, l')"
  shows "writable l'"
proof -
  have "l_io l = []" "\<not> l_readonly l" using assms(1) by (simp_all add: writable_def)
  with assms(2) show ?thesis
    by (auto simp: log_ingest_def Let_def persist_total writable_def split: if_splits)
qed

interpretation live: online_invariant "\<lambda>s l. good s l \<and> writable l"
proof unfold_locales
  fix s l ev u l'
  assume "good s l \<and> writable l" "log_append ev l = (Inr u, l')"
  then show "good (apply_event ev s) l' \<and> writable l'"
    using sound.commit writable_append [of l ev] by fastforce
next
  fix s l ev x l'
  assume "good s l \<and> writable l" "log_append ev l = (Inl x, l')"
  then show "good s l' \<and> writable l'" using writable_append [of l ev] by auto
next
  fix s l e ev l'
  assume "good s l \<and> writable l" "foreign e l" "log_ingest e l = (Inr (Some ev), l')"
  then show "good (apply_event ev s) l' \<and> writable l'" using sound.admit writable_ingest by blast
next
  fix s l e x l'
  assume "good s l \<and> writable l" "foreign e l" "log_ingest e l = (Inl x, l')"
  then show "good s l' \<and> writable l'" using sound.reject writable_ingest by blast
qed (auto simp: good_def)

subsection \<open>Operations that stop when the log refuses\<close>

inductive account_step :: "db \<Rightarrow> db \<Rightarrow> bool" where
  "account_step d (snd (register_prepared now name creds email d))"
| "account_step d (snd (provision_account now name s256 s512 email d))"
| "account_step d (snd (set_pubkey validate acct pubkey d))"
| "account_step d (snd (verify_account acct d))"
| "account_step d (snd (set_email acct email d))"
| "account_step d (snd (set_greet acct greet d))"
| "account_step d (snd (set_language acct lang d))"
| "account_step d (snd (set_swhois acct txt d))"
| "account_step d (snd (set_signore acct xs d))"
| "account_step d (snd (set_profile acct field v d))"
| "account_step d (snd (set_account_autoop acct on d))"
| "account_step d (snd (set_account_kill acct on d))"
| "account_step d (snd (set_account_hide_status acct on d))"
| "account_step d (snd (set_account_snotice acct on d))"
| "cr_scram512 creds \<noteq> [] \<Longrightarrow> account_step d (snd (set_credentials acct creds d))"
| "account_step d (snd (suspend_account now acct by_who reason expires d))"
| "account_step d (snd (unsuspend_account acct d))"
| "account_step d (snd (drop_account acct d))"
| "account_step d (snd (set_account_noexpire acct on d))"
| "set ks = dom (accounts (st d)) \<Longrightarrow> account_step d (snd (certfp_add ks acct fp d))"
| "account_step d (snd (certfp_del acct fp d))"
| "account_step d (snd (ajoin_add acct chan join_key d))"
| "account_step d (snd (ajoin_del acct chan d))"
| "account_step d (snd (set_vhost now acct host setter ttl d))"
| "account_step d (snd (del_vhost acct d))"
| "account_step d (snd (request_vhost now acct host d))"
| "account_step d (snd (take_vhost_request acct d))"
| "account_step d (snd (vhost_offer_add host d))"
| "account_step d (snd (vhost_offer_del i d))"
| "account_step d (snd (vhost_forbid_add compiles pat d))"
| "account_step d (snd (vhost_forbid_del i d))"
| "account_step d (snd (set_vhost_template template d))"
| "account_step d (snd (issue_code gen i acct kind d))"
| "account_step d (snd (take_code i acct kind given d))"
| "account_step d (note_auth i acct success d)"
| "account_step d (snd (group_nick nick acct d))"
| "account_step d (snd (ungroup_nick nick d))"
| "mailbox_open d acct \<Longrightarrow> account_step d (snd (memo_send now acct from txt receipt d))"

inductive channel_step :: "db \<Rightarrow> db \<Rightarrow> bool" where
  "channel_step d (snd (register_channel now name founder d))"
| "channel_step d (snd (set_mlock_params chan ons off params d))"
| "channel_step d (snd (level_set chan cap role d))"
| "channel_step d (snd (set_founder chan acct d))"
| "channel_step d (snd (set_successor chan succ d))"
| "channel_step d (snd (set_desc chan desc d))"
| "channel_step d (snd (set_url chan url d))"
| "channel_step d (snd (set_channel_email chan email d))"
| "channel_step d (snd (set_entrymsg chan msg d))"
| "channel_step d (snd (set_channel_topic chan topic setter d))"
| "channel_step d (snd (suspend_channel now chan by_who reason expires d))"
| "channel_step d (snd (assign_bot chan b d))"
| "channel_step d (snd (access_add chan acct level d))"
| "channel_step d (snd (access_del chan acct d))"
| "channel_step d (snd (akick_add chan msk reason d))"
| "channel_step d (snd (akick_del chan msk d))"
| "channel_step d (snd (level_reset chan cap d))"
| "channel_step d (snd (unsuspend_channel chan d))"
| "channel_step d (snd (unassign_bot chan d))"
| "channel_step d (snd (set_channel_noexpire chan on d))"
| "channel_step d (snd (set_channel_setting chan setting on d))"
| "channel_step d (snd (set_kicker chan kk on d))"
| "channel_step d (snd (set_caps_kicker chan i j d))"
| "channel_step d (snd (set_flood_kicker chan i j d))"
| "channel_step d (snd (set_repeat_kicker chan i d))"
| "channel_step d (snd (set_ttb chan i d))"
| "channel_step d (snd (set_ban_expire chan i d))"
| "channel_step d (snd (set_votekick chan i d))"
| "channel_step d (snd (badword_add compiles chan pat d))"
| "channel_step d (snd (badword_del chan pat d))"
| "channel_step d (snd (badword_clear chan d))"
| "channel_step d (snd (trigger_add compiles chan pat resp cool d))"
| "channel_step d (snd (trigger_del chan i d))"
| "channel_step d (snd (trigger_clear chan d))"
| "channel_step d (snd (copy_bot_config src dst d))"
| "channel_step d (snd (drop_channel name d))"
| "channel_step d (snd (rename_channel old new d))"
| "channel_step d (snd (release_founded_channels ks acct d))"
| "channel_step d (snd (bot_add nick user host gecos d))"
| "channel_step d (snd (bot_set_private nick private d))"
| "n_default_bot (net (st d)) \<noteq> Some (key nick) \<Longrightarrow> channel_step d (snd (bot_del nick d))"
| "n_default_bot (net (st d)) \<noteq> Some (key old) \<Longrightarrow>
     channel_step d (snd (bot_change ks old new_nick user host gecos d))"
| "channel_step d (snd (set_default_bot b' d))"

inductive network_step :: "db \<Rightarrow> db \<Rightarrow> bool" where
  "network_step d (snd (akill_add now kind msk setter reason expires d))"
| "network_step d (snd (akill_del now kind msk d))"
| "network_step d (snd (filter_add now pat action flags setter reason expires d))"
| "network_step d (snd (filter_del now pat d))"
| "network_step d (snd (forbid_add now fkind msk setter reason d))"
| "network_step d (snd (forbid_del fkind msk d))"
| "network_step d (snd (notify_add now msk flags reason setter expires d))"
| "network_step d (snd (notify_del msk d))"
| "enumerates ks counters \<Longrightarrow> network_step d (snd (persist_stats ks counters chans d))"
| "network_step d (snd (persist_incidents sq incidents d))"
| "network_step d (snd (group_register now name founder d))"
| "network_step d (snd (group_drop name d))"
| "network_step d (snd (group_set_flags name acct flags d))"
| "network_step d (snd (group_del_member name acct d))"
| "network_step d (snd (group_set_founder name founder d))"
| "network_step d (ignore_add msk reason expires d)"
| "network_step d (snd (ignore_del now msk d))"
| "network_step d (snd (is_ignored now nick host d))"
| "network_step d (set_defcon level d)"

text \<open>Operations that go on when the append fails; sound only while the log accepts writes.\<close>

inductive online_step :: "db \<Rightarrow> db \<Rightarrow> bool" where
  "online_step d (mark_account_seen acct now d)"
| "online_step d (mark_account_warned acct d)"
| "online_step d (snd (set_account_note acct note d))"
| "online_step d (mark_channel_used chan now d)"
| "online_step d (mark_channel_warned chan d)"
| "online_step d (snd (set_channel_note chan note d))"
| "online_step d (snd (memo_read acct i d))"
| "online_step d (snd (memo_del acct i d))"
| "online_step d (snd (memo_cancel acct sender d))"
| "online_step d (snd (memo_ignore_add acct target d))"
| "online_step d (snd (memo_ignore_del acct target d))"
| "online_step d (snd (set_memo_notify acct on d))"
| "online_step d (snd (set_memo_limit acct limit d))"
| "online_step d (session_except_add msk limit' reason d)"
| "online_step d (snd (session_except_del msk d))"
| "online_step d (oper_grant acct prvs expires d)"
| "online_step d (snd (oper_revoke acct d))"
| "online_step d (snd (news_add now kind txt setter d))"
| "online_step d (snd (news_del i d))"
| "online_step d (snd (jupe_add name reason d))"
| "online_step d (snd (jupe_del name d))"
| "length (n_reports (net (st d))) < max_queue \<Longrightarrow>
     online_step d (snd (report_file now reporter ck target reason d))"
| "online_step d (snd (report_close i d))"
| "online_step d (snd (report_del i d))"
| "length (n_help (net (st d))) < max_queue \<Longrightarrow>
     online_step d (snd (help_request now requester ck msg d))"
| "online_step d (snd (help_take i handler d))"
| "online_step d (snd (help_close i d))"

context db_invariant
begin

lemmas kept_account_ops =
  kept_register_prepared kept_provision_account kept_set_pubkey kept_account_setters
  kept_set_profile kept_set_credentials kept_unsuspend_account kept_drop_account
  kept_set_account_noexpire kept_certfp_add kept_certfp_del kept_ajoin kept_vhosts
  kept_host_lists kept_node_local kept_group_nick kept_ungroup_nick kept_memo_send

lemma kept_account_step: "account_step d d' \<Longrightarrow> kept d \<Longrightarrow> kept d'"
  by (induction rule: account_step.induct) (rule kept_account_ops; assumption)+

lemmas kept_channel_ops =
  kept_register_channel kept_channel_setters kept_channel_clears kept_channel_lists
  kept_set_channel_setting kept_kickers kept_badwords_triggers kept_copy_bot_config
  kept_drop_channel kept_rename_channel kept_release_founded_channels kept_bot_add
  kept_bot_set_private kept_bot_del kept_bot_change kept_set_default_bot

lemma kept_channel_step: "channel_step d d' \<Longrightarrow> kept d \<Longrightarrow> kept d'"
  by (induction rule: channel_step.induct) (rule kept_channel_ops; assumption)+

lemmas kept_network_ops =
  kept_bans kept_persist_stats kept_persist_incidents kept_group_register kept_groups kept_ignores

lemma kept_network_step: "network_step d d' \<Longrightarrow> kept d \<Longrightarrow> kept d'"
  by (induction rule: network_step.induct) (rule kept_network_ops; assumption)+

end

context online_invariant
begin

lemmas kept_online_ops =
  kept_mark_account_seen kept_mark_account_warned kept_set_account_note kept_mark_channel_used
  kept_mark_channel_warned kept_set_channel_note kept_memo_read kept_memo_del kept_memo_cancel
  kept_memo_ignore_add kept_memo_ignore_del kept_memo_prefs kept_sessions kept_opers kept_news
  kept_jupes kept_report_file kept_queues kept_help_request

lemma kept_online_step: "online_step d d' \<Longrightarrow> kept d \<Longrightarrow> kept d'"
  by (induction rule: online_step.induct) (rule kept_online_ops; assumption)+

end

subsection \<open>Runs\<close>

text \<open>Every mode of the log: any disk behaviour (short of torn writes) and the lockdown.\<close>

inductive db_run :: "string \<Rightarrow> db \<Rightarrow> bool" for own :: string where
  start: "db_run own (db_open [] own)"
| account: "db_run own d \<Longrightarrow> account_step d d' \<Longrightarrow> db_run own d'"
| channel: "db_run own d \<Longrightarrow> channel_step d d' \<Longrightarrow> db_run own d'"
| network: "db_run own d \<Longrightarrow> network_step d d' \<Longrightarrow> db_run own d'"
| online: "db_run own d \<Longrightarrow> writable (lg d) \<Longrightarrow> online_step d d' \<Longrightarrow> db_run own d'"
| gossip: "db_run own d \<Longrightarrow> foreign e (lg d) \<Longrightarrow> db_run own (snd (db_ingest now e d))"
| restart: "db_run own d \<Longrightarrow> db_run own (db_open (l_disk (lg d)) own)"
| configure: "db_run own d \<Longrightarrow> Unsynced \<notin> set io \<Longrightarrow>
    db_run own (d\<lparr>lg := (lg d)\<lparr>l_signing := sg, l_readonly := ro, l_outbound := ob, l_io := io\<rparr>\<rparr>)"

lemma reopened_events:
  assumes "log_ok l"
  shows "log_events (log_open (l_disk l) (l_origin l)) = log_events l"
  using reopen_recovers_log_aux [OF assms] by (simp add: log_events_def)

lemma db_open_in_step: "event_journal.in_step (st (db_open es own)) (lg (db_open es own))"
  by (simp add: in_step_replay db_open_def Let_def)

lemma log_open_io: "l_io (log_open es own) = []" "l_origin (log_open es own) = own"
proof -
  have "l_io (fold (\<lambda>e l. (absorb e l)\<lparr>l_entries := l_entries l @ [e]\<rparr>) es l0) = l_io l0 \<and>
      l_origin (fold (\<lambda>e l. (absorb e l)\<lparr>l_entries := l_entries l @ [e]\<rparr>) es l0) = l_origin l0" for l0
    by (induction es arbitrary: l0) (auto simp: absorb_def Let_def)
  then show "l_io (log_open es own) = []" "l_origin (log_open es own) = own"
    by (simp_all add: log_open_def log_empty_def)
qed

lemma good_db_open:
  assumes "log_ok (log_open es own)"
  shows "good (st (db_open es own)) (lg (db_open es own))"
  using db_open_in_step [of es own] assms log_open_io wf_replay [OF wf_store_empty]
  by (simp add: good_def db_open_def Let_def)

text \<open>The origin is fixed for a run: no operation touches it.\<close>

definition good_own :: "string \<Rightarrow> store \<Rightarrow> event_log \<Rightarrow> bool" where
  "good_own own s l \<longleftrightarrow> good s l \<and> l_origin l = own"

interpretation owned: db_invariant "good_own own" for own
proof unfold_locales
  fix s l ev u l'
  assume "good_own own s l" "log_append ev l = (Inr u, l')"
  then show "good_own own (apply_event ev s) l'"
    unfolding good_own_def using sound.commit log_append_keeps by metis
next
  fix s l ev x l'
  assume "good_own own s l" "log_append ev l = (Inl x, l')"
  then show "good_own own s l'"
    unfolding good_own_def using sound.refuse log_append_keeps by metis
next
  fix s l e ev l'
  assume "good_own own s l" "foreign e l" "log_ingest e l = (Inr (Some ev), l')"
  then show "good_own own (apply_event ev s) l'"
    unfolding good_own_def using sound.admit log_ingest_origin by metis
next
  fix s l e x l'
  assume "good_own own s l" "foreign e l" "log_ingest e l = (Inl x, l')"
  then show "good_own own s l'"
    unfolding good_own_def using sound.reject log_ingest_origin by metis
qed (simp add: good_own_def good_def)

interpretation owned_live: online_invariant "\<lambda>s l. good_own own s l \<and> writable l" for own
proof unfold_locales
  fix s l ev u l'
  assume "good_own own s l \<and> writable l" "log_append ev l = (Inr u, l')"
  then show "good_own own (apply_event ev s) l' \<and> writable l'"
    unfolding good_own_def using live.commit log_append_keeps by metis
next
  fix s l ev x l'
  assume "good_own own s l \<and> writable l" "log_append ev l = (Inl x, l')"
  then show "good_own own s l' \<and> writable l'"
    unfolding good_own_def using live.refuse log_append_keeps by metis
next
  fix s l e ev l'
  assume "good_own own s l \<and> writable l" "foreign e l" "log_ingest e l = (Inr (Some ev), l')"
  then show "good_own own (apply_event ev s) l' \<and> writable l'"
    unfolding good_own_def using live.admit log_ingest_origin by metis
next
  fix s l e x l'
  assume "good_own own s l \<and> writable l" "foreign e l" "log_ingest e l = (Inl x, l')"
  then show "good_own own s l' \<and> writable l'"
    unfolding good_own_def using live.reject log_ingest_origin by metis
qed (simp_all add: good_own_def good_def)

lemma db_run_good: "db_run own d \<Longrightarrow> good_own own (st d) (lg d)"
proof (induction rule: db_run.induct)
  case start
  have "log_ok (log_open [] own)" using log_ok_empty [of own] by (simp add: log_open_def log_ok_def log_empty_def)
  then show ?case using good_db_open log_open_io(2) [of "[]" own]
    by (simp add: good_own_def db_open_def Let_def)
next
  case (account d d')
  then show ?case using owned.kept_account_step unfolding owned.kept_def by blast
next
  case (channel d d')
  then show ?case using owned.kept_channel_step unfolding owned.kept_def by blast
next
  case (network d d')
  then show ?case using owned.kept_network_step unfolding owned.kept_def by blast
next
  case (online d d')
  then show ?case using owned_live.kept_online_step unfolding owned_live.kept_def by blast
next
  case (gossip d e now)
  then show ?case using owned.kept_db_ingest unfolding owned.kept_def by blast
next
  case (restart d)
  then have "log_ok (log_open (l_disk (lg d)) own)"
    using reopen_recovers_log_aux [of "lg d"] by (auto simp: good_own_def good_def)
  then show ?case using good_db_open log_open_io(2) [of "l_disk (lg d)" own]
    by (simp add: good_own_def db_open_def Let_def)
next
  case (configure d io sg ro ob)
  then show ?case
    by (simp add: good_own_def good_def in_step_replay log_events_def log_ok_def)
qed


text \<open>Nothing committed is lost by a crash: reopening the file of any reachable state gives
  back its whole store and its version vector.\<close>

theorem restart_loses_nothing:
  assumes "db_run own d"
  shows "st (db_open (l_disk (lg d)) own) = st d \<and>
         l_versions (lg (db_open (l_disk (lg d)) own)) = l_versions (lg d)"
proof -
  have g: "log_ok (lg d)" "l_origin (lg d) = own" "st d = replay (log_events (lg d)) store_empty"
    using db_run_good [OF assms] by (simp_all add: good_own_def good_def in_step_replay)
  from reopened_events [OF g(1)] reopen_recovers_log_aux [OF g(1)] g(2,3) show ?thesis
    by (simp add: db_open_def Let_def)
qed

lemma example_run:
  "db_run ''n1'' (snd (register_channel 7 ''#Chat'' ''bob'' (db_open [] ''n1'')))"
  by (rule db_run.channel [OF db_run.start]) (rule channel_step.intros)


theorem restart_loses_nothing_witness:
  shows "st (db_open (l_disk (lg (snd (register_channel 7 ''#Chat'' ''bob'' (db_open [] ''n1''))))) ''n1'') =
    st (snd (register_channel 7 ''#Chat'' ''bob'' (db_open [] ''n1'')))"
  using restart_loses_nothing [OF example_run] by (rule conjunct1)

end
