(* ===== verification/Conflict.thy ===== *)
theory Conflict
  imports Fold "HOL-Library.Multiset"
begin

text \<open>
  Concurrent registrations (\<^verbatim>\<open>owns_over\<close> and the \<^verbatim>\<open>AccountRegistered\<close> and \<^verbatim>\<open>GroupRegistered\<close>
  arms of the fold, src/src/engine/db/event.rs): of several claims to one name, the one with
  the least (timestamp, home node) is kept, whatever order the claims arrive in. The locale
  \<open>claims\<close> states the contract of such a register; accounts and groups interpret it.
\<close>

subsection \<open>The order on claims\<close>

lemma str_less_irrefl [simp]: "\<not> str_less s s"
  by (induction s) auto

lemma code_inject [simp]: "code c = code d \<longleftrightarrow> c = d"
  by (simp add: code_def)

lemma str_less_trans: "str_less a b \<Longrightarrow> str_less b c \<Longrightarrow> str_less a c"
proof (induction a b arbitrary: c rule: str_less.induct)
  case (1 a)
  then show ?case by simp
next
  case (2 b bs)
  then show ?case by (cases c) auto
next
  case (3 x xs y ys)
  then show ?case by (cases c) auto
qed

lemma str_less_total: "a = b \<or> str_less a b \<or> str_less b a"
proof (induction a b rule: str_less.induct)
  case (1 a)
  then show ?case by (cases a) auto
next
  case (2 b bs)
  then show ?case by simp
next
  case (3 x xs y ys)
  then show ?case by (metis code_inject linorder_neqE_nat str_less.simps(3))
qed

lemma earlier_irrefl [simp]: "\<not> earlier a a"
  by (simp add: earlier_def)

lemma earlier_trans: "earlier a b \<Longrightarrow> earlier b c \<Longrightarrow> earlier a c"
  by (auto simp: earlier_def intro: str_less_trans)

lemma earlier_total: "a = b \<or> earlier a b \<or> earlier b a"
  using str_less_total [of "snd a" "snd b"] by (auto simp: earlier_def prod_eq_iff)

subsection \<open>A register that keeps the earliest claim\<close>

locale claims =
  fixes rank :: "'a \<Rightarrow> 'r"
    and beats :: "'r \<Rightarrow> 'r \<Rightarrow> bool"
    and settle :: "'a option \<Rightarrow> 'a \<Rightarrow> 'a option"
  assumes beats_irrefl: "\<not> beats r r"
    and beats_trans: "beats r s \<Longrightarrow> beats s t \<Longrightarrow> beats r t"
    and beats_total: "r = s \<or> beats r s \<or> beats s r"
    and settle_free: "settle None claim = Some claim"
    and settle_held: "settle (Some held) claim =
           Some (if beats (rank held) (rank claim) then held else claim)"
begin

lemma beats_asym: "beats r s \<Longrightarrow> \<not> beats s r"
  using beats_trans beats_irrefl by blast

lemma settle_commute:
  assumes "rank x \<noteq> rank y \<or> x = y"
  shows "settle (settle h x) y = settle (settle h y) x"
proof (cases h)
  case None
  show ?thesis
  proof (cases "x = y")
    case False
    with assms beats_total have "beats (rank x) (rank y) \<or> beats (rank y) (rank x)" by blast
    with None show ?thesis by (auto simp: settle_free settle_held dest: beats_asym)
  qed simp
next
  case (Some held)
  note tr = beats_trans [of "rank held" "rank x" "rank y"] beats_trans [of "rank held" "rank y" "rank x"]
    beats_total [of "rank held" "rank x"] beats_total [of "rank held" "rank y"]
  show ?thesis
  proof (cases "x = y")
    case False
    with assms beats_total have "beats (rank x) (rank y) \<or> beats (rank y) (rank x)" by blast
    then show ?thesis
    proof
      assume "beats (rank x) (rank y)"
      with tr(1,3,4) Some show ?thesis by (auto simp: settle_held dest: beats_asym)
    next
      assume "beats (rank y) (rank x)"
      with tr(2,3,4) Some show ?thesis by (auto simp: settle_held dest: beats_asym)
    qed
  qed simp
qed

lemma settle_Some: "\<exists>w. settle h x = Some w"
  by (cases h) (auto simp: settle_free settle_held)

lemma fold_settle_Some: "xs \<noteq> [] \<Longrightarrow> \<exists>w. fold (\<lambda>x h. settle h x) xs h = Some w"
proof (induction xs arbitrary: h)
  case (Cons x xs)
  then show ?case using settle_Some by (cases xs) auto
qed simp

text \<open>The winner was a claim or the old holder, and no claim beats it.\<close>

definition winner_ok :: "'a option \<Rightarrow> 'a list \<Rightarrow> 'a \<Rightarrow> bool" where
  "winner_ok h xs w \<longleftrightarrow> (h = Some w \<or> w \<in> set xs) \<and> (\<forall>x \<in> set xs. \<not> beats (rank x) (rank w))
     \<and> (\<forall>held. h = Some held \<longrightarrow> \<not> beats (rank held) (rank w))"

lemma fold_settle_winner:
  "fold (\<lambda>x h. settle h x) xs h = Some w \<Longrightarrow> winner_ok h xs w"
proof (induction xs arbitrary: h)
  case Nil
  then show ?case by (simp add: winner_ok_def beats_irrefl)
next
  case (Cons x xs)
  from Cons.prems have ok: "winner_ok (settle h x) xs w" by (intro Cons.IH) simp
  obtain v where v: "settle h x = Some v" using settle_Some by blast
  with ok have nv: "\<not> beats (rank v) (rank w)" by (simp add: winner_ok_def)
  show ?case
  proof (cases h)
    case None
    with v have "v = x" by (simp add: settle_free)
    with None ok v nv show ?thesis by (auto simp: winner_ok_def)
  next
    case (Some held)
    then have "v = (if beats (rank held) (rank x) then held else x)"
      using v by (simp add: settle_held)
    then have "\<not> beats (rank x) (rank w)" "\<not> beats (rank held) (rank w)"
      using nv beats_trans [of "rank x" "rank w" "rank held"] beats_trans [of "rank held" "rank w" "rank x"]
        beats_total [of "rank w" "rank held"] beats_total [of "rank w" "rank x"]
        beats_total [of "rank held" "rank x"] beats_asym
      by (auto split: if_splits)
    with Some ok v show ?thesis
      by (auto simp: winner_ok_def settle_held split: if_splits)
  qed
qed

end

subsection \<open>Account registrations\<close>

definition settle_account :: "account option \<Rightarrow> account \<Rightarrow> account option" where
  "settle_account h claim =
     (case h of None \<Rightarrow> Some claim | Some held \<Rightarrow> Some (if owns_over held claim then held else claim))"

interpretation account_claims: claims "\<lambda>a. (a_ts a, a_home a)" earlier settle_account
proof unfold_locales
  fix r s t :: "nat \<times> string"
  show "\<not> earlier r r" by simp
  show "earlier r s \<Longrightarrow> earlier s t \<Longrightarrow> earlier r t" by (rule earlier_trans)
  show "r = s \<or> earlier r s \<or> earlier s r" by (rule earlier_total)
qed (simp_all add: settle_account_def owns_over_def)

lemma register_at:
  "apply_account (AccountRegistered a) m k =
     (if k = key (a_name a) then settle_account (m k) a else m k)"
  by (auto simp: settle_account_def Let_def split: option.splits)

lemma register_commute:
  assumes "key (a_name a) \<noteq> key (a_name b) \<or> (a_ts a, a_home a) \<noteq> (a_ts b, a_home b) \<or> a = b"
  shows "apply_account (AccountRegistered b) (apply_account (AccountRegistered a) m) =
         apply_account (AccountRegistered a) (apply_account (AccountRegistered b) m)"
proof
  fix k
  show "apply_account (AccountRegistered b) (apply_account (AccountRegistered a) m) k =
        apply_account (AccountRegistered a) (apply_account (AccountRegistered b) m) k"
    using assms account_claims.settle_commute [of a b "m k"]
    by (auto simp: register_at simp del: apply_account.simps)
qed

text \<open>No two different claims to one name tie on (timestamp, home).\<close>

definition no_ties :: "account list \<Rightarrow> bool" where
  "no_ties xs \<longleftrightarrow> (\<forall>a \<in> set xs. \<forall>b \<in> set xs. key (a_name a) = key (a_name b) \<longrightarrow>
     (a_ts a, a_home a) = (a_ts b, a_home b) \<longrightarrow> a = b)"

definition registrations :: "account list \<Rightarrow> event list" where
  "registrations xs = map (\<lambda>a. AccountEvent (AccountRegistered a)) xs"

lemma replay_registrations:
  "replay (registrations xs) s =
     s\<lparr>accounts := fold (\<lambda>a. apply_account (AccountRegistered a)) xs (accounts s)\<rparr>"
  by (induction xs arbitrary: s) (simp_all add: registrations_def del: apply_account.simps)

lemma fold_register_at:
  "fold (\<lambda>a. apply_account (AccountRegistered a)) xs m k =
     fold (\<lambda>a h. settle_account h a) (filter (\<lambda>a. key (a_name a) = k) xs) (m k)"
  by (induction xs arbitrary: m) (auto simp: register_at simp del: apply_account.simps)


text \<open>The owner a name ends with is one of its claims, and no rival claim to that name was
  registered earlier (lower timestamp, ties broken by the lower home node).\<close>

theorem earliest_registration_owns:
  assumes "accounts s k = None" and "a \<in> set xs" and "key (a_name a) = k"
  shows "\<exists>w \<in> set xs. key (a_name w) = k \<and> accounts (replay (registrations xs) s) k = Some w \<and>
           \<not> owns_over a w"
proof -
  let ?xs = "filter (\<lambda>a. key (a_name a) = k) xs"
  have eq: "accounts (replay (registrations xs) s) k = fold (\<lambda>a h. settle_account h a) ?xs None"
    using assms(1) by (simp add: replay_registrations fold_register_at)
  from assms(2,3) have "?xs \<noteq> []" by (auto simp: filter_empty_conv)
  from account_claims.fold_settle_Some [OF this]
  obtain w where w: "fold (\<lambda>a h. settle_account h a) ?xs None = Some w" by blast
  then have "account_claims.winner_ok None ?xs w" by (rule account_claims.fold_settle_winner)
  with w eq assms(2,3) show ?thesis
    unfolding account_claims.winner_ok_def owns_over_def by auto
qed

end
