(* ===== verification/Compaction.thy ===== *)
theory Compaction
  imports Run Conflict
begin

text \<open>
  Compaction of the event log (\<^verbatim>\<open>Db::compact\<close> in src/src/engine/db/mod.rs): the snapshot of the
  live store as a list of events, and exactly what a replay of that snapshot gives back. Most of
  the store survives unchanged; \<open>compacted\<close> lists what does not.
\<close>

subsection \<open>The snapshot of one channel\<close>

definition opt_event :: "bool \<Rightarrow> 'e \<Rightarrow> 'e list" where
  "opt_event b e = (if b then [e] else [])"

definition snapshot_channel :: "channel_info \<Rightarrow> channel_event list" where
  "snapshot_channel c =
     [ChannelRegistered (c_name c) (c_founder c) (c_ts c)]
     @ opt_event (c_last_used c > c_ts c) (ChannelUsed (c_name c) (c_last_used c))
     @ opt_event (c_lock_on c \<noteq> [] \<or> c_lock_off c \<noteq> [])
         (ChannelMlock (c_name c) (c_lock_on c) (c_lock_off c) (c_lock_params c))
     @ map (\<lambda>a. ChannelAccessAdd (c_name c) (ca_account a) (ca_level a)) (c_access c)
     @ map (\<lambda>l. ChannelLevelSet (c_name c) (fst l) (snd l)) (c_levels c)
     @ map (\<lambda>k. ChannelAkickAdd (c_name c) (ak_mask k) (ak_reason k)) (c_akick c)
     @ opt_event (c_desc c \<noteq> []) (ChannelDescSet (c_name c) (c_desc c))
     @ opt_event (c_entrymsg c \<noteq> []) (ChannelEntryMsgSet (c_name c) (c_entrymsg c))
     @ opt_event (c_url c \<noteq> []) (ChannelUrlSet (c_name c) (c_url c))
     @ opt_event (c_email c \<noteq> []) (ChannelEmailSet (c_name c) (c_email c))
     @ opt_event (c_successor c \<noteq> None) (ChannelSuccessorSet (c_name c) (c_successor c))
     @ opt_event (c_noexpire c) (ChannelNoExpire (c_name c) True)
     @ opt_event (c_expiry_warned c) (ChannelExpiryWarned (c_name c))
     @ opt_event (c_settings c \<noteq> chan_settings_default) (ChannelSettingsSet (c_name c) (c_settings c))
     @ opt_event (c_topic c \<noteq> []) (ChannelTopicSet (c_name c) (c_topic c) (c_topic_setter c))
     @ (case c_suspension c of None \<Rightarrow> []
        | Some s \<Rightarrow> [ChannelSuspended (c_name c) (su_by s) (su_reason s) (su_ts s) (su_expires s)])
     @ (case c_assigned_bot c of None \<Rightarrow> [] | Some b \<Rightarrow> [ChannelBotAssigned (c_name c) b])
     @ opt_event (c_kickers c \<noteq> kicker_settings_default) (ChannelKickerSet (c_name c) (c_kickers c))
     @ opt_event (c_badwords c \<noteq> []) (ChannelBadwordsSet (c_name c) (c_badwords c))
     @ opt_event (c_triggers c \<noteq> []) (ChannelTriggersSet (c_name c) (c_triggers c))
     @ opt_event (c_oper_note c \<noteq> None) (ChannelOperNoteSet (c_name c) (c_oper_note c))"

text \<open>What a channel looks like after a replay of its snapshot: the lock parameters are kept only
  with a lock, the topic setter only with a topic, the last use is at least the registration, and
  the session-local revisions start over.\<close>

definition compact_channel :: "channel_info \<Rightarrow> channel_info" where
  "compact_channel c =
     c\<lparr>c_lock_params := (if c_lock_on c \<noteq> [] \<or> c_lock_off c \<noteq> [] then c_lock_params c else []),
       c_topic_setter := (if c_topic c \<noteq> [] then c_topic_setter c else []),
       c_last_used := max (c_last_used c) (c_ts c),
       c_badwords_rev := (if c_badwords c \<noteq> [] then 1 else 0),
       c_triggers_rev := (if c_triggers c \<noteq> [] then 1 else 0)\<rparr>"

text \<open>A conditional event edits the channel in place, or not at all.\<close>

definition edit_when :: "bool \<Rightarrow> (channel_info \<Rightarrow> channel_info) \<Rightarrow> channel_info \<Rightarrow> channel_info" where
  "edit_when b f x = (if b then f x else x)"

lemma fold_opt_event:
  assumes "\<And>m. apply_channel e m = modify k f m"
  shows "fold apply_channel (opt_event b e) (m(k \<mapsto> x)) = m(k \<mapsto> edit_when b f x)"
  by (simp add: opt_event_def edit_when_def assms)

lemmas fold_opt_events [fold_simps] =
  fold_opt_event [OF apply_channel.simps(26)] fold_opt_event [OF apply_channel.simps(4)]
  fold_opt_event [OF apply_channel.simps(13)] fold_opt_event [OF apply_channel.simps(25)]
  fold_opt_event [OF apply_channel.simps(14)] fold_opt_event [OF apply_channel.simps(15)]
  fold_opt_event [OF apply_channel.simps(12)] fold_opt_event [OF apply_channel.simps(27)]
  fold_opt_event [OF apply_channel.simps(28)] fold_opt_event [OF apply_channel.simps(16)]
  fold_opt_event [OF apply_channel.simps(20)] fold_opt_event [OF apply_channel.simps(17)]
  fold_opt_event [OF apply_channel.simps(18)] fold_opt_event [OF apply_channel.simps(19)]
  fold_opt_event [OF apply_channel.simps(29)]

lemma entry_eta [simp]:
  "\<lparr>ca_account = ca_account a, ca_level = ca_level a\<rparr> = a"
  "\<lparr>ak_mask = ak_mask k, ak_reason = ak_reason k\<rparr> = k"
  by (cases a, simp) (cases k, simp)

lemma fold_access [fold_simps]:
  "fold apply_channel (map (\<lambda>a. ChannelAccessAdd n (ca_account a) (ca_level a)) xs) (m(key n \<mapsto> x)) =
     m(key n \<mapsto> x\<lparr>c_access := fold access_put xs (c_access x)\<rparr>)"
  by (induction xs arbitrary: x) auto

lemma fold_levels [fold_simps]:
  "fold apply_channel (map (\<lambda>l. ChannelLevelSet n (fst l) (snd l)) xs) (m(key n \<mapsto> x)) =
     m(key n \<mapsto> x\<lparr>c_levels := fold level_put xs (c_levels x)\<rparr>)"
  by (induction xs arbitrary: x) auto

lemma fold_akick [fold_simps]:
  "fold apply_channel (map (\<lambda>k. ChannelAkickAdd n (ak_mask k) (ak_reason k)) xs) (m(key n \<mapsto> x)) =
     m(key n \<mapsto> x\<lparr>c_akick := fold akick_put xs (c_akick x)\<rparr>)"
  by (induction xs arbitrary: x) auto

lemma fold_suspension [fold_simps]:
  "fold apply_channel (case c_suspension c of None \<Rightarrow> []
      | Some s \<Rightarrow> [ChannelSuspended n (su_by s) (su_reason s) (su_ts s) (su_expires s)]) (m(key n \<mapsto> x)) =
     m(key n \<mapsto> edit_when (c_suspension c \<noteq> None) (\<lambda>x. x\<lparr>c_suspension := c_suspension c\<rparr>) x)"
  by (auto simp: edit_when_def split: option.split)

lemma fold_assigned [fold_simps]:
  "fold apply_channel (case b of None \<Rightarrow> [] | Some b \<Rightarrow> [ChannelBotAssigned n b]) (m(key n \<mapsto> x)) =
     m(key n \<mapsto> edit_when (b \<noteq> None) (\<lambda>x. x\<lparr>c_assigned_bot := b\<rparr>) x)"
  by (auto simp: edit_when_def split: option.split)

lemma fold_registered [fold_simps]:
  "fold apply_channel [ChannelRegistered n f t] m = m(key n \<mapsto> new_channel n f t)"
  by simp

text \<open>A field is untouched by an edit, set by it, or changed from its old value.\<close>

lemma edit_same: "(\<And>y. g (f y) = g y) \<Longrightarrow> g (edit_when b f x) = g x"
  by (simp add: edit_when_def)

lemma edit_sets: "(\<And>y. g (f y) = v) \<Longrightarrow> g (edit_when b f x) = (if b then v else g x)"
  by (simp add: edit_when_def)

lemma edit_maps: "(\<And>y. g (f y) = h (g y)) \<Longrightarrow> g (edit_when b f x) = (if b then h (g x) else g x)"
  by (simp add: edit_when_def)

lemmas edit_same_fields =
  edit_same [of c_name]
  edit_same [of c_founder]
  edit_same [of c_ts]
  edit_same [of c_lock_on]
  edit_same [of c_lock_off]
  edit_same [of c_lock_params]
  edit_same [of c_access]
  edit_same [of c_akick]
  edit_same [of c_levels]
  edit_same [of c_successor]
  edit_same [of c_desc]
  edit_same [of c_entrymsg]
  edit_same [of c_url]
  edit_same [of c_email]
  edit_same [of c_settings]
  edit_same [of c_topic]
  edit_same [of c_topic_setter]
  edit_same [of c_suspension]
  edit_same [of c_assigned_bot]
  edit_same [of c_kickers]
  edit_same [of c_badwords]
  edit_same [of c_badwords_rev]
  edit_same [of c_triggers]
  edit_same [of c_triggers_rev]
  edit_same [of c_last_used]
  edit_same [of c_noexpire]
  edit_same [of c_expiry_warned]
  edit_same [of c_oper_note]

lemmas edit_set_fields =
  edit_sets [of c_name]
  edit_sets [of c_founder]
  edit_sets [of c_ts]
  edit_sets [of c_lock_on]
  edit_sets [of c_lock_off]
  edit_sets [of c_lock_params]
  edit_sets [of c_access]
  edit_sets [of c_akick]
  edit_sets [of c_levels]
  edit_sets [of c_successor]
  edit_sets [of c_desc]
  edit_sets [of c_entrymsg]
  edit_sets [of c_url]
  edit_sets [of c_email]
  edit_sets [of c_settings]
  edit_sets [of c_topic]
  edit_sets [of c_topic_setter]
  edit_sets [of c_suspension]
  edit_sets [of c_assigned_bot]
  edit_sets [of c_kickers]
  edit_sets [of c_badwords]
  edit_sets [of c_triggers]
  edit_sets [of c_noexpire]
  edit_sets [of c_expiry_warned]
  edit_sets [of c_oper_note]

lemma edit_last_used:
  "c_last_used (edit_when b (\<lambda>x. x\<lparr>c_last_used := max (c_last_used x) u, c_expiry_warned := False\<rparr>) x) =
     (if b then max (c_last_used x) u else c_last_used x)"
  by (simp add: edit_when_def)

lemma edit_revs:
  "c_badwords_rev (edit_when b (\<lambda>x. x\<lparr>c_badwords := ws, c_badwords_rev := c_badwords_rev x + 1\<rparr>) x) =
     (if b then c_badwords_rev x + 1 else c_badwords_rev x)"
  "c_triggers_rev (edit_when b (\<lambda>x. x\<lparr>c_triggers := ts, c_triggers_rev := c_triggers_rev x + 1\<rparr>) x) =
     (if b then c_triggers_rev x + 1 else c_triggers_rev x)"
  by (simp_all add: edit_when_def)

lemma fold_snapshot_channel:
  assumes "wf_channel c"
  shows "fold apply_channel (snapshot_channel c) m = m(key (c_name c) \<mapsto> compact_channel c)"
proof -
  note lists = access_list.rebuild akick_list.rebuild level_list.rebuild
  note wf = assms [unfolded wf_channel_def]
  show ?thesis
    unfolding snapshot_channel_def fold_append o_apply fold_simps
    by (rule arg_cong [of _ _ "\<lambda>x. m(key (c_name c) \<mapsto> x)"], rule channel_info.equality)
      (simp_all add: edit_same_fields edit_set_fields edit_last_used edit_revs new_channel_def
        compact_channel_def lists wf)
qed

subsection \<open>The snapshot of the store\<close>

text \<open>The orders in which the hash maps are walked; any order that names every key once.\<close>

record walks =
  w_accounts :: "string list"
  w_channels :: "string list"
  w_grouped :: "string list"
  w_bots :: "string list"
  w_stats :: "string list"
  w_opers :: "string list"

definition walks_ok :: "walks \<Rightarrow> store \<Rightarrow> bool" where
  "walks_ok w s \<longleftrightarrow> enumerates (w_accounts w) (accounts s) \<and> enumerates (w_channels w) (channels s) \<and>
     enumerates (w_grouped w) (grouped s) \<and> enumerates (w_bots w) (bots s) \<and>
     enumerates (w_stats w) (n_stats (net s)) \<and> enumerates (w_opers w) (n_opers (net s))"

definition snapshot_bans :: "nat \<Rightarrow> net_data \<Rightarrow> net_event list" where
  "snapshot_bans now n =
     map (\<lambda>f. ForbidAdded (fb_kind f) (fb_mask f) (fb_setter f) (fb_reason f) (fb_ts f)) (n_forbids n)
     @ map (\<lambda>x. NotifyAdded (nt_mask x) (nt_flags x) (nt_reason x) (nt_setter x) (nt_ts x) (nt_expires x))
         (filter (\<lambda>x. live_until now (nt_expires x)) (n_notifies n))
     @ map (\<lambda>a. AkillAdded (kl_kind a) (kl_mask a) (kl_setter a) (kl_reason a) (kl_ts a) (kl_expires a))
         (filter (\<lambda>a. live_until now (kl_expires a)) (n_akills n))
     @ map (\<lambda>f. FilterAdded (fi_pattern f) (fi_action f) (fi_flags f) (fi_reason f) (fi_setter f)
              (fi_ts f) (fi_expires f))
         (filter (\<lambda>f. live_until now (fi_expires f)) (n_filters n))"

definition snapshot_report :: "report \<Rightarrow> net_event list" where
  "snapshot_report r =
     ReportFiled (rp_id r) (rp_reporter r) (rp_target r) (rp_reason r) (rp_ts r)
     # opt_event (\<not> rp_open r) (ReportClosed (rp_id r))"

definition snapshot_group :: "group_rec \<Rightarrow> net_event list" where
  "snapshot_group g =
     GroupRegistered (g_name g) (g_founder g) (g_ts g) (g_home g)
     # map (\<lambda>m. GroupFlagsSet (g_name g) (gm_account m) (gm_flags m)) (g_members g)"

definition snapshot_ticket :: "help_ticket \<Rightarrow> net_event list" where
  "snapshot_ticket t =
     HelpRequested (ht_id t) (ht_requester t) (ht_message t) (ht_ts t)
     # (case ht_handler t of None \<Rightarrow> [] | Some h \<Rightarrow> [HelpTaken (ht_id t) h])
     @ opt_event (\<not> ht_open t) (HelpClosed (ht_id t))"

definition snapshot_queues :: "net_data \<Rightarrow> net_event list" where
  "snapshot_queues n =
     map (\<lambda>x. NewsAdded (nw_id x) (nw_kind x) (nw_text x) (nw_setter x) (nw_ts x)) (n_news n)
     @ concat (map snapshot_report (n_reports n))
     @ concat (map snapshot_group (n_groups n))
     @ concat (map snapshot_ticket (n_help n))"

definition snapshot_opers :: "string list \<Rightarrow> (string \<rightharpoonup> oper_grant_rec) \<Rightarrow> net_event list" where
  "snapshot_opers ks m =
     List.map_filter (\<lambda>k. map_option (\<lambda>g. OperGranted k (og_privs g) (og_expires g)) (m k)) ks"

definition snapshot_net :: "walks \<Rightarrow> nat \<Rightarrow> net_data \<Rightarrow> net_event list" where
  "snapshot_net w now n =
     snapshot_bans now n @ snapshot_queues n @ snapshot_opers (w_opers w) (n_opers n)
     @ map (\<lambda>e. SessionExceptionAdded (se_mask e) (se_limit e) (se_reason e)) (n_sess_exceptions n)
     @ map (\<lambda>j. JupeAdded (ju_name j) (ju_sid j) (ju_reason j)) (n_jupes n)"

definition snapshot_persisted :: "walks \<Rightarrow> net_data \<Rightarrow> net_event list" where
  "snapshot_persisted w n =
     opt_event (map_entries (w_stats w) (n_stats n) \<noteq> [] \<or> n_chan_stats n \<noteq> [])
       (StatsSet (map_entries (w_stats w) (n_stats n)) (n_chan_stats n))
     @ opt_event (n_incidents n \<noteq> []) (IncidentsSet (n_incident_seq n) (n_incidents n))"

definition snapshot_host :: "host_config \<Rightarrow> host_event list" where
  "snapshot_host h = map VhostOfferAdded (hc_offers h) @ map VhostForbidAdded (hc_forbidden h)
     @ opt_event (hc_template h \<noteq> None) (VhostTemplateSet (hc_template h))"

definition snapshot_grouped :: "string list \<Rightarrow> (string \<rightharpoonup> string) \<Rightarrow> event list" where
  "snapshot_grouped ks m = List.map_filter (\<lambda>k. map_option (NickGrouped k) (m k)) ks"

definition snapshot :: "walks \<Rightarrow> nat \<Rightarrow> store \<Rightarrow> event list" where
  "snapshot w now s =
     map (\<lambda>a. AccountEvent (AccountRegistered a)) (values_of (w_accounts w) (accounts s))
     @ map ChannelEvent (concat (map snapshot_channel (values_of (w_channels w) (channels s))))
     @ snapshot_grouped (w_grouped w) (grouped s)
     @ map BotAdded (values_of (w_bots w) (bots s))
     @ opt_event (n_default_bot (net s) \<noteq> None) (DefaultBotSet (n_default_bot (net s)))
     @ map NetEvent (snapshot_persisted w (net s))
     @ map HostEvent (snapshot_host (host_cfg s))
     @ map NetEvent (snapshot_net w now (net s))"

definition db_compact :: "walks \<Rightarrow> nat \<Rightarrow> db \<Rightarrow> (io_error + unit) \<times> db" where
  "db_compact w now d =
     (let (r, l) = log_compact (snapshot w now (st d)) (lg d) in (r, d\<lparr>lg := l\<rparr>))"

text \<open>What survives.\<close>

definition next_id :: "nat list \<Rightarrow> nat" where
  "next_id is = fold (\<lambda>i n. max n (i + 1)) is 0"

definition compact_net :: "nat \<Rightarrow> net_data \<Rightarrow> net_data" where
  "compact_net now n =
     n\<lparr>n_akills := filter (\<lambda>a. live_until now (kl_expires a)) (n_akills n),
       n_filters := filter (\<lambda>f. live_until now (fi_expires f)) (n_filters n),
       n_notifies := filter (\<lambda>x. live_until now (nt_expires x)) (n_notifies n),
       n_news_seq := next_id (map nw_id (n_news n)),
       n_report_seq := next_id (map rp_id (n_reports n)),
       n_help_seq := next_id (map ht_id (n_help n)),
       n_jupe_seq := length (n_jupes n),
       n_incident_seq := (if n_incidents n = [] then 0 else n_incident_seq n)\<rparr>"

definition compacted :: "nat \<Rightarrow> store \<Rightarrow> store" where
  "compacted now s =
     s\<lparr>channels := (\<lambda>k. map_option compact_channel (channels s k)),
       net := compact_net now (net s)\<rparr>"

subsection \<open>Replaying one section\<close>

lemma replay_lift [fold_simps]:
  "replay (map (\<lambda>a. AccountEvent (AccountRegistered a)) as) s =
     s\<lparr>accounts := fold (\<lambda>a. apply_account (AccountRegistered a)) as (accounts s)\<rparr>"
  "replay (map ChannelEvent ces) s = s\<lparr>channels := fold apply_channel ces (channels s)\<rparr>"
  "replay (map NetEvent nes) s = s\<lparr>net := fold apply_net nes (net s)\<rparr>"
  "replay (map HostEvent hes) s = s\<lparr>host_cfg := fold apply_host hes (host_cfg s)\<rparr>"
  "replay (map BotAdded bs) s = s\<lparr>bots := fold (\<lambda>b m. m(key (b_nick b) \<mapsto> b)) bs (bots s)\<rparr>"
proof -
  show "replay (map (\<lambda>a. AccountEvent (AccountRegistered a)) as) s =
     s\<lparr>accounts := fold (\<lambda>a. apply_account (AccountRegistered a)) as (accounts s)\<rparr>"
    by (induction as arbitrary: s) (simp_all del: apply_account.simps)
  show "replay (map ChannelEvent ces) s = s\<lparr>channels := fold apply_channel ces (channels s)\<rparr>"
    by (induction ces arbitrary: s) simp_all
  show "replay (map NetEvent nes) s = s\<lparr>net := fold apply_net nes (net s)\<rparr>"
    by (induction nes arbitrary: s) simp_all
  show "replay (map HostEvent hes) s = s\<lparr>host_cfg := fold apply_host hes (host_cfg s)\<rparr>"
    by (induction hes arbitrary: s) simp_all
  show "replay (map BotAdded bs) s = s\<lparr>bots := fold (\<lambda>b m. m(key (b_nick b) \<mapsto> b)) bs (bots s)\<rparr>"
    by (induction bs arbitrary: s) simp_all
qed

text \<open>Walking a map whose values know their own key.\<close>

lemma fold_put_values:
  assumes "\<forall>k v. m k = Some v \<longrightarrow> kof v = k"
  shows "fold (\<lambda>v m0. m0(kof v \<mapsto> f v)) (values_of ks m) m0 j =
    (if j \<in> set ks \<and> m j \<noteq> None then map_option f (m j) else m0 j)"
proof (induction ks arbitrary: m0)
  case (Cons k ks)
  then show ?case using assms by (cases "m k") auto
qed simp

lemma fold_put_all:
  assumes "\<forall>k v. m k = Some v \<longrightarrow> kof v = k" and "enumerates ks m"
  shows "fold (\<lambda>v m0. m0(kof v \<mapsto> f v)) (values_of ks m) Map.empty = (\<lambda>k. map_option f (m k))"
  using assms(2) by (intro ext) (auto simp: fold_put_values [OF assms(1)] enumerates_def)

lemma fold_registered_put:
  "\<forall>a \<in> set as. m0 (key (a_name a)) = None \<Longrightarrow> distinct (map (\<lambda>a. key (a_name a)) as) \<Longrightarrow>
   fold (\<lambda>a. apply_account (AccountRegistered a)) as m0 = fold (\<lambda>a m. m(key (a_name a) \<mapsto> a)) as m0"
proof (induction as arbitrary: m0)
  case (Cons a as)
  have put: "apply_account (AccountRegistered a) m0 = m0(key (a_name a) \<mapsto> a)"
    using Cons.prems(1) by simp
  have "\<forall>b \<in> set as. key (a_name b) \<noteq> key (a_name a)"
    using Cons.prems(2) by (auto simp: image_iff)
  with Cons.prems have "fold (\<lambda>a. apply_account (AccountRegistered a)) as (m0(key (a_name a) \<mapsto> a)) =
      fold (\<lambda>a m. m(key (a_name a) \<mapsto> a)) as (m0(key (a_name a) \<mapsto> a))"
    by (intro Cons.IH) auto
  with put show ?case by (simp del: apply_account.simps fun_upd_apply)
qed simp

lemma rebuild_accounts:
  assumes "keyed_by a_name m" and "enumerates ks m"
  shows "fold (\<lambda>a. apply_account (AccountRegistered a)) (values_of ks m) Map.empty = m"
proof -
  have k: "\<forall>k v. m k = Some v \<longrightarrow> key (a_name v) = k" using assms(1) by (simp add: keyed_by_def)
  show ?thesis
    using fold_registered_put [of "values_of ks m" Map.empty] fold_put_all [OF k assms(2), of "\<lambda>x. x"]
      distinct_values_of [OF k] assms(2)
    by (simp add: enumerates_def option.map_ident)
qed

lemma fold_snapshot_channels:
  "\<forall>c \<in> set cs. wf_channel c \<Longrightarrow>
   fold apply_channel (concat (map snapshot_channel cs)) m =
     fold (\<lambda>c m. m(key (c_name c) \<mapsto> compact_channel c)) cs m"
  by (induction cs arbitrary: m) (simp_all add: fold_snapshot_channel)

lemma rebuild_channels:
  assumes "keyed_by c_name m" and "each wf_channel m" and "enumerates ks m"
  shows "fold apply_channel (concat (map snapshot_channel (values_of ks m))) Map.empty =
    (\<lambda>k. map_option compact_channel (m k))"
proof -
  have k: "\<forall>k v. m k = Some v \<longrightarrow> key (c_name v) = k" using assms(1) by (simp add: keyed_by_def)
  have "\<forall>c \<in> set (values_of ks m). wf_channel c" using assms(2) by (auto simp: set_values_of each_def)
  with fold_put_all [OF k assms(3), of compact_channel] show ?thesis
    by (simp add: fold_snapshot_channels)
qed

lemma rebuild_grouped:
  assumes "\<forall>k. m k \<noteq> None \<longrightarrow> key k = k"
  shows "replay (snapshot_grouped ks m) s = s\<lparr>grouped := (\<lambda>j. if j \<in> set ks \<and> m j \<noteq> None then m j else grouped s j)\<rparr>"
proof (induction ks arbitrary: s)
  case Nil
  then show ?case by (simp add: snapshot_grouped_def map_filter_simps)
next
  case (Cons k ks)
  show ?case
  proof (cases "m k")
    case None
    with Cons show ?thesis
      by (auto simp: snapshot_grouped_def map_filter_simps fun_eq_iff intro!: store.equality)
  next
    case (Some a)
    then have "key k = k" using assms by blast
    with Some Cons [of "s\<lparr>grouped := (grouped s)(k \<mapsto> a)\<rparr>"] show ?thesis
      by (auto simp: snapshot_grouped_def map_filter_simps fun_eq_iff intro!: store.equality)
  qed
qed

lemma rebuild_grouped_all:
  assumes "\<forall>k. m k \<noteq> None \<longrightarrow> key k = k" and "enumerates ks m" and "grouped s = Map.empty"
  shows "replay (snapshot_grouped ks m) s = s\<lparr>grouped := m\<rparr>"
proof -
  have "(\<lambda>j. if j \<in> set ks \<and> m j \<noteq> None then m j else grouped s j) = m"
    using assms(2,3) by (intro ext) (auto simp: enumerates_def)
  then show ?thesis by (simp only: rebuild_grouped [OF assms(1)])
qed

lemma rebuild_opers:
  assumes "\<forall>k. m k \<noteq> None \<longrightarrow> key k = k"
  shows "fold apply_net (snapshot_opers ks m) n =
    n\<lparr>n_opers := (\<lambda>j. if j \<in> set ks \<and> m j \<noteq> None then m j else n_opers n j)\<rparr>"
proof (induction ks arbitrary: n)
  case Nil
  then show ?case by (simp add: snapshot_opers_def map_filter_simps)
next
  case (Cons k ks)
  show ?case
  proof (cases "m k")
    case None
    with Cons show ?thesis
      by (auto simp: snapshot_opers_def map_filter_simps fun_eq_iff intro!: net_data.equality)
  next
    case (Some g)
    then have "key k = k" using assms by blast
    with Some have "fold apply_net (snapshot_opers (k # ks) m) n =
        fold apply_net (snapshot_opers ks m) (n\<lparr>n_opers := (n_opers n)(k \<mapsto> g)\<rparr>)"
      by (cases g) (simp add: snapshot_opers_def map_filter_simps)
    also have "\<dots> = n\<lparr>n_opers := (\<lambda>j. if j \<in> set (k # ks) \<and> m j \<noteq> None then m j else n_opers n j)\<rparr>"
      unfolding Cons using Some by (auto simp: fun_eq_iff intro!: net_data.equality)
    finally show ?thesis .
  qed
qed

lemma rebuild_opers_all:
  assumes "\<forall>k. m k \<noteq> None \<longrightarrow> key k = k" and "enumerates ks m" and "n_opers n = Map.empty"
  shows "fold apply_net (snapshot_opers ks m) n = n\<lparr>n_opers := m\<rparr>"
proof -
  have "(\<lambda>j. if j \<in> set ks \<and> m j \<noteq> None then m j else n_opers n j) = m"
    using assms(2,3) by (intro ext) (auto simp: enumerates_def)
  then show ?thesis by (simp only: rebuild_opers [OF assms(1)])
qed

subsection \<open>Replaying the network sections\<close>

lemma rec_eta [simp]:
  "\<lparr>kl_kind = kl_kind a, kl_mask = kl_mask a, kl_setter = kl_setter a, kl_reason = kl_reason a,
    kl_ts = kl_ts a, kl_expires = kl_expires a\<rparr> = a"
  "\<lparr>fi_pattern = fi_pattern f, fi_action = fi_action f, fi_flags = fi_flags f,
    fi_reason = fi_reason f, fi_setter = fi_setter f, fi_ts = fi_ts f, fi_expires = fi_expires f\<rparr> = f"
  "\<lparr>fb_kind = fb_kind b, fb_mask = fb_mask b, fb_setter = fb_setter b, fb_reason = fb_reason b,
    fb_ts = fb_ts b\<rparr> = b"
  "\<lparr>nt_mask = nt_mask x, nt_flags = nt_flags x, nt_reason = nt_reason x, nt_setter = nt_setter x,
    nt_ts = nt_ts x, nt_expires = nt_expires x\<rparr> = x"
  "\<lparr>nw_id = nw_id w, nw_kind = nw_kind w, nw_text = nw_text w, nw_setter = nw_setter w,
    nw_ts = nw_ts w\<rparr> = w"
  "\<lparr>se_mask = se_mask e, se_limit = se_limit e, se_reason = se_reason e\<rparr> = e"
  "\<lparr>ju_name = ju_name j, ju_sid = ju_sid j, ju_reason = ju_reason j\<rparr> = j"
  "\<lparr>gm_account = gm_account m, gm_flags = gm_flags m\<rparr> = m"
  by simp_all

lemma fold_forbids [fold_simps]:
  "fold apply_net (map (\<lambda>f. ForbidAdded (fb_kind f) (fb_mask f) (fb_setter f) (fb_reason f) (fb_ts f)) bs) n =
     n\<lparr>n_forbids := fold forbid_put bs (n_forbids n)\<rparr>"
  by (induction bs arbitrary: n) simp_all

lemma fold_notifies [fold_simps]:
  "fold apply_net (map (\<lambda>x. NotifyAdded (nt_mask x) (nt_flags x) (nt_reason x) (nt_setter x) (nt_ts x)
       (nt_expires x)) xs) n = n\<lparr>n_notifies := fold notify_put xs (n_notifies n)\<rparr>"
  by (induction xs arbitrary: n) simp_all

lemma fold_akills [fold_simps]:
  "fold apply_net (map (\<lambda>a. AkillAdded (kl_kind a) (kl_mask a) (kl_setter a) (kl_reason a) (kl_ts a)
       (kl_expires a)) as) n = n\<lparr>n_akills := fold akill_put as (n_akills n)\<rparr>"
  by (induction as arbitrary: n) simp_all

lemma fold_filters [fold_simps]:
  "fold apply_net (map (\<lambda>f. FilterAdded (fi_pattern f) (fi_action f) (fi_flags f) (fi_reason f)
       (fi_setter f) (fi_ts f) (fi_expires f)) fs) n = n\<lparr>n_filters := fold filter_put fs (n_filters n)\<rparr>"
  by (induction fs arbitrary: n) simp_all

lemma fold_sessions [fold_simps]:
  "fold apply_net (map (\<lambda>e. SessionExceptionAdded (se_mask e) (se_limit e) (se_reason e)) es) n =
     n\<lparr>n_sess_exceptions := fold session_put es (n_sess_exceptions n)\<rparr>"
  by (induction es arbitrary: n) simp_all

lemma fold_jupes [fold_simps]:
  "distinct (map (\<lambda>j. key (ju_name j)) (n_jupes n @ js)) \<Longrightarrow>
   fold apply_net (map (\<lambda>j. JupeAdded (ju_name j) (ju_sid j) (ju_reason j)) js) n =
     n\<lparr>n_jupes := n_jupes n @ js, n_jupe_seq := n_jupe_seq n + length js\<rparr>"
proof (induction js arbitrary: n)
  case (Cons j js)
  have "\<not> (\<exists>x \<in> set (n_jupes n). eq_ignore_ascii_case (ju_name x) (ju_name j))"
    using Cons.prems by (auto simp: eq_ignore_ascii_case_def image_iff)
  with Cons.prems show ?case by (simp add: Cons.IH)
qed simp

lemma fold_news [fold_simps]:
  "distinct (map nw_id (n_news n @ xs)) \<Longrightarrow>
   fold apply_net (map (\<lambda>x. NewsAdded (nw_id x) (nw_kind x) (nw_text x) (nw_setter x) (nw_ts x)) xs) n =
     n\<lparr>n_news := n_news n @ xs,
       n_news_seq := fold (\<lambda>i m. max m (i + 1)) (map nw_id xs) (n_news_seq n)\<rparr>"
proof (induction xs arbitrary: n)
  case (Cons x xs)
  have "news_put x (n_news n) = n_news n @ [x]"
    using Cons.prems by (auto simp: news_put_def image_iff)
  with Cons.prems show ?case by (simp add: Cons.IH)
qed simp

lemma find_update_last:
  "\<forall>y \<in> set xs. \<not> p y \<Longrightarrow> p x \<Longrightarrow> find_update p f (xs @ [x]) = xs @ [f x]"
  by (induction xs) auto

lemma fold_report:
  assumes "rp_id r \<notin> rp_id ` set (n_reports n)"
  shows "fold apply_net (snapshot_report r) n =
    n\<lparr>n_reports := n_reports n @ [r], n_report_seq := max (n_report_seq n) (rp_id r + 1)\<rparr>"
proof -
  have put: "report_put (r\<lparr>rp_open := True\<rparr>) (n_reports n) = n_reports n @ [r\<lparr>rp_open := True\<rparr>]"
    using assms by (auto simp: report_put_def image_iff)
  have upd: "find_update (\<lambda>x. rp_id x = rp_id r) (\<lambda>r. r\<lparr>rp_open := False\<rparr>)
      (n_reports n @ [r\<lparr>rp_open := True\<rparr>]) = n_reports n @ [r\<lparr>rp_open := False\<rparr>]"
    using assms by (subst find_update_last) (auto simp: image_iff)
  have eta: "\<lparr>rp_id = rp_id r, rp_reporter = rp_reporter r, rp_target = rp_target r,
      rp_reason = rp_reason r, rp_ts = rp_ts r, rp_open = True\<rparr> = r\<lparr>rp_open := True\<rparr>"
    by (cases r) simp
  show ?thesis
    by (cases "rp_open r") (simp_all add: snapshot_report_def opt_event_def eta put upd)
qed

lemma fold_reports [fold_simps]:
  "distinct (map rp_id (n_reports n @ rs)) \<Longrightarrow>
   fold apply_net (concat (map snapshot_report rs)) n =
     n\<lparr>n_reports := n_reports n @ rs,
       n_report_seq := fold (\<lambda>i m. max m (i + 1)) (map rp_id rs) (n_report_seq n)\<rparr>"
proof (induction rs arbitrary: n)
  case (Cons r rs)
  then have "rp_id r \<notin> rp_id ` set (n_reports n)" by auto
  with Cons.prems show ?case by (simp add: Cons.IH fold_report)
qed simp

lemma fold_ticket:
  assumes "ht_id t \<notin> ht_id ` set (n_help n)"
  shows "fold apply_net (snapshot_ticket t) n =
    n\<lparr>n_help := n_help n @ [t], n_help_seq := max (n_help_seq n) (ht_id t + 1)\<rparr>"
proof -
  let ?t0 = "t\<lparr>ht_handler := None, ht_open := True\<rparr>"
  have none: "\<forall>x \<in> set (n_help n). \<not> ht_id x = ht_id t" using assms by (auto simp: image_iff)
  have put: "help_put ?t0 (n_help n) = n_help n @ [?t0]"
    using assms by (auto simp: help_put_def image_iff)
  have upd: "find_update (\<lambda>x. ht_id x = ht_id t) f (n_help n @ [x]) = n_help n @ [f x]"
    if "ht_id x = ht_id t" for f x
    using none that by (intro find_update_last) auto
  have eta: "\<lparr>ht_id = ht_id t, ht_requester = ht_requester t, ht_message = ht_message t,
      ht_ts = ht_ts t, ht_handler = None, ht_open = True\<rparr> = ?t0"
    by (cases t) simp
  show ?thesis
    by (cases "ht_open t"; cases "ht_handler t")
      (simp_all add: snapshot_ticket_def opt_event_def eta put upd)
qed

lemma fold_tickets [fold_simps]:
  "distinct (map ht_id (n_help n @ ts)) \<Longrightarrow>
   fold apply_net (concat (map snapshot_ticket ts)) n =
     n\<lparr>n_help := n_help n @ ts,
       n_help_seq := fold (\<lambda>i m. max m (i + 1)) (map ht_id ts) (n_help_seq n)\<rparr>"
proof (induction ts arbitrary: n)
  case (Cons t ts)
  then have "ht_id t \<notin> ht_id ` set (n_help n)" by auto
  with Cons.prems show ?case by (simp add: Cons.IH fold_ticket)
qed simp

text \<open>A group is registered empty and its members are set one by one.\<close>

lemma fold_members:
  assumes "\<forall>h \<in> set gs. key (g_name h) \<noteq> key (g_name g)"
  shows "n_groups n = gs @ [g] \<Longrightarrow>
    fold apply_net (map (\<lambda>m. GroupFlagsSet (g_name g) (gm_account m) (gm_flags m)) ms) n =
      n\<lparr>n_groups := gs @ [g\<lparr>g_members := fold member_put ms (g_members g)\<rparr>]\<rparr>"
  using assms
proof (induction ms arbitrary: g n)
  case (Cons m ms)
  have "on_group (g_name g) f (gs @ [g]) = gs @ [f g]" for f
    unfolding on_group_def using Cons.prems(2) by (intro find_update_last) auto
  with Cons.prems Cons.IH [of "n\<lparr>n_groups := gs @ [g\<lparr>g_members := member_put m (g_members g)\<rparr>]\<rparr>"
      "g\<lparr>g_members := member_put m (g_members g)\<rparr>"]
  show ?case by simp
qed simp

lemma fold_group:
  assumes "key (g_name g) \<notin> (\<lambda>g. key (g_name g)) ` set (n_groups n)" and "wf_group g"
  shows "fold apply_net (snapshot_group g) n = n\<lparr>n_groups := n_groups n @ [g]\<rparr>"
proof -
  let ?g0 = "g\<lparr>g_members := []\<rparr>"
  have none: "\<forall>h \<in> set (n_groups n). key (g_name h) \<noteq> key (g_name ?g0)"
    using assms(1) by (auto simp: image_iff)
  have eta: "\<lparr>g_name = g_name g, g_founder = g_founder g, g_ts = g_ts g, g_home = g_home g,
      g_members = []\<rparr> = ?g0"
    by (cases g) simp
  have reg: "group_register_fold ?g0 (n_groups n) = n_groups n @ [?g0]"
    using none by (auto simp: group_register_fold_def)
  have "fold member_put (g_members g) [] = g_members g"
    using assms(2) by (intro member_list.rebuild) (simp add: wf_group_def)
  with fold_members [OF none, of "n\<lparr>n_groups := n_groups n @ [?g0]\<rparr>" "g_members g"] show ?thesis
    by (simp add: snapshot_group_def eta reg)
qed

lemma fold_groups [fold_simps]:
  "distinct (map (\<lambda>g. key (g_name g)) (n_groups n @ gs)) \<Longrightarrow> \<forall>g \<in> set gs. wf_group g \<Longrightarrow>
   fold apply_net (concat (map snapshot_group gs)) n = n\<lparr>n_groups := n_groups n @ gs\<rparr>"
proof (induction gs arbitrary: n)
  case (Cons g gs)
  then have "key (g_name g) \<notin> (\<lambda>g. key (g_name g)) ` set (n_groups n)" by auto
  with Cons show ?case by (simp add: fold_group)
qed simp

subsection \<open>Replaying the whole snapshot\<close>

lemma fold_host_section:
  assumes "distinct (hc_offers h)" "distinct (hc_forbidden h)"
  shows "fold apply_host (snapshot_host h) host_default = h"
proof -
  have offers: "fold apply_host (map VhostOfferAdded xs) k = k\<lparr>hc_offers := fold push_new xs (hc_offers k)\<rparr>" for xs k
    by (induction xs arbitrary: k) simp_all
  have forbids: "fold apply_host (map VhostForbidAdded xs) k = k\<lparr>hc_forbidden := fold push_new xs (hc_forbidden k)\<rparr>" for xs k
    by (induction xs arbitrary: k) simp_all
  show ?thesis
    using assms push_new_list.rebuild [of "hc_offers h"] push_new_list.rebuild [of "hc_forbidden h"]
    by (cases h) (auto simp: snapshot_host_def opt_event_def offers forbids host_default_def)
qed

lemma fold_net_sections:
  assumes wf: "wf_net n" and w: "enumerates (w_stats w) (n_stats n)" "enumerates (w_opers w) (n_opers n)"
  shows "fold apply_net (snapshot_net w now n)
      (fold apply_net (snapshot_persisted w n) (net_default\<lparr>n_default_bot := n_default_bot n\<rparr>)) =
    compact_net now n"
proof -
  let ?n0 = "net_default\<lparr>n_default_bot := n_default_bot n\<rparr>"
  have none: "map_entries (w_stats w) (n_stats n) = [] \<Longrightarrow> n_stats n = Map.empty"
    using foldl_map_entries [OF w(1)] by simp
  have p: "fold apply_net (snapshot_persisted w n) ?n0 =
      ?n0\<lparr>n_stats := n_stats n, n_chan_stats := n_chan_stats n, n_incidents := n_incidents n,
        n_incident_seq := (if n_incidents n = [] then 0 else n_incident_seq n)\<rparr>"
    using none foldl_map_entries [OF w(1)]
    by (auto simp: snapshot_persisted_def opt_event_def net_default_def)
  have ok: "\<forall>k. n_opers n k \<noteq> None \<longrightarrow> key k = k" using wf by (simp add: wf_net_def)
  note rebuilds = akill_list.rebuild filter_list.rebuild forbid_list.rebuild notify_list.rebuild
    session_list.rebuild
  show ?thesis
    unfolding p snapshot_net_def snapshot_bans_def snapshot_queues_def
    using wf
    by (auto simp: fold_simps rebuild_opers_all [OF ok w(2)] wf_net_defs rebuilds distinct_filter_map
        net_default_def compact_net_def next_id_def intro!: net_data.equality)
qed

lemma replay_snapshot:
  assumes wf: "wf_store s" and w: "walks_ok w s"
  shows "replay (snapshot w now s) store_empty = compacted now s"
proof -
  note wf' = wf [unfolded wf_store_each] and w' = w [unfolded walks_ok_def]
  have a: "fold (\<lambda>a. apply_account (AccountRegistered a)) (values_of (w_accounts w) (accounts s)) Map.empty = accounts s"
    using rebuild_accounts wf' w' by blast
  have c: "fold apply_channel (concat (map snapshot_channel (values_of (w_channels w) (channels s)))) Map.empty =
      (\<lambda>k. map_option compact_channel (channels s k))"
    using rebuild_channels wf' w' by blast
  have gr: "\<forall>k. grouped s k \<noteq> None \<longrightarrow> key k = k" using wf' by blast
  have b: "fold (\<lambda>b m. m(key (b_nick b) \<mapsto> b)) (values_of (w_bots w) (bots s)) Map.empty = bots s"
    using fold_put_all [of "bots s" "\<lambda>b. key (b_nick b)" "w_bots w" "\<lambda>x. x"] wf' w'
    by (simp add: keyed_by_def option.map_ident)
  have d: "replay (opt_event (n_default_bot (net s) \<noteq> None) (DefaultBotSet (n_default_bot (net s)))) t =
      t\<lparr>net := (net t)\<lparr>n_default_bot := n_default_bot (net s)\<rparr>\<rparr>"
    if "n_default_bot (net t) = None" for t
    using that wf' by (cases "n_default_bot (net s)") (auto simp: opt_event_def wf_net_def)
  have empty: "accounts store_empty = Map.empty" "channels store_empty = Map.empty"
    "grouped store_empty = Map.empty" "bots store_empty = Map.empty"
    "host_cfg store_empty = host_default" "net store_empty = net_default"
    "n_default_bot net_default = None"
    by (simp_all add: store_empty_def net_default_def)
  have n: "fold apply_net (snapshot_net w now (net s))
      (fold apply_net (snapshot_persisted w (net s)) (net_default\<lparr>n_default_bot := n_default_bot (net s)\<rparr>)) =
      compact_net now (net s)"
    using fold_net_sections wf' w' by blast
  have h: "fold apply_host (snapshot_host (host_cfg s)) host_default = host_cfg s"
    using fold_host_section wf' by blast
  define t where "t = store_empty\<lparr>accounts := accounts s,
      channels := (\<lambda>k. map_option compact_channel (channels s k)), grouped := grouped s, bots := bots s\<rparr>"
  have "replay (snapshot w now s) store_empty =
      replay (map NetEvent (snapshot_net w now (net s))) (replay (map HostEvent (snapshot_host (host_cfg s)))
        (replay (map NetEvent (snapshot_persisted w (net s)))
          (replay (opt_event (n_default_bot (net s) \<noteq> None) (DefaultBotSet (n_default_bot (net s)))) t)))"
    unfolding snapshot_def replay_simps(3) t_def
    using w' by (simp add: replay_lift rebuild_grouped_all [OF gr] empty a c b del: not_None_eq)
  also have "\<dots> = compacted now s"
    by (subst d) (simp_all add: t_def empty replay_lift n h compacted_def)
  finally show ?thesis .
qed

subsection \<open>Compaction and restart\<close>

lemma log_compact_events:
  assumes "log_compact evs l = (Inr u, l')" and "evs \<noteq> []" and "log_ok l"
  shows "log_events l' = evs" and "log_ok l'" and "l_origin l' = l_origin l"
    and "\<And>og. og \<noteq> l_origin l \<Longrightarrow> l_versions l' og = None" and "l_signing l' = l_signing l"
    and "l_io l = [] \<Longrightarrow> l_io l' = []"
proof -
  obtain lam lg where
    "stamp_snapshot (l\<lparr>l_epoch := sat_succ (l_epoch l)\<rparr>) evs 0 (l_lamport l) None = (l_entries l', lam, lg)"
    "l_versions l' = (case lg of None \<Rightarrow> Map.empty | Some s \<Rightarrow> [l_origin l \<mapsto> (l_epoch l', s)])"
    and o': "l_origin l' = l_origin l"
    by (rule log_compact_ok [OF assms(1,2)])
  then show "log_events l' = evs" "\<And>og. og \<noteq> l_origin l \<Longrightarrow> l_versions l' og = None"
    using stamp_snapshot_ok [of "l\<lparr>l_epoch := sat_succ (l_epoch l)\<rparr>" evs 0 "l_lamport l" None _ lam lg None]
      log_okD(5) [OF assms(3)]
    by (auto simp: log_events_def split: option.splits)
  show "log_ok l'" "l_origin l' = l_origin l" using log_ok_compact [OF assms(3,1)] o' by simp_all
  show "l_signing l' = l_signing l" "l_io l = [] \<Longrightarrow> l_io l' = []"
    using assms(1,2) by (auto simp: log_compact_def Let_def split: prod.splits list.splits if_splits)
qed

lemma compaction_exact_aux:
  assumes run: "db_run own d" and w: "walks_ok w (st d)"
    and ne: "snapshot w now (st d) \<noteq> []" and co: "db_compact w now d = (Inr u, d')"
  shows "st d' = st d" and "log_ok (lg d')" and "l_origin (lg d') = own"
    and "st (db_open (l_disk (lg d')) own) = compacted now (st d)"
proof -
  have g: "log_ok (lg d)" "l_origin (lg d) = own" "wf_store (st d)"
    using db_run_good [OF run] by (simp_all add: good_own_def good_def)
  obtain l' where l': "log_compact (snapshot w now (st d)) (lg d) = (Inr u, l')" "d' = d\<lparr>lg := l'\<rparr>"
    using co by (auto simp: db_compact_def split: prod.splits)
  note c = log_compact_events [OF l'(1) ne g(1)]
  show "st d' = st d" "log_ok (lg d')" "l_origin (lg d') = own" using l'(2) c(2,3) g(2) by simp_all
  show "st (db_open (l_disk (lg d')) own) = compacted now (st d)"
    using reopened_events [OF c(2)] c(1,3) l'(2) g(2) replay_snapshot [OF g(3) w]
    by (simp add: db_open_def Let_def)
qed

text \<open>C16. Compaction rewrites the log without touching the live store, and what a restart then
  reads back is the live store up to the listed differences: expired bans, filters and watches
  are gone, the id counters restart just above the ids in use, lock parameters without a lock and
  topic setters without a topic are dropped, the session-local revisions start over.\<close>

theorem compaction_exact:
  assumes "db_run own d" and "walks_ok w (st d)" and "snapshot w now (st d) \<noteq> []"
    and "db_compact w now d = (Inr u, d')"
  shows "st d' = st d \<and> st (db_open (l_disk (lg d')) own) = compacted now (st d)"
  using compaction_exact_aux [OF assms] by simp

text \<open>A second compaction changes nothing more: what survived one survives the next.\<close>

lemma compact_channel_idem: "compact_channel (compact_channel c) = compact_channel c"
  by (simp add: compact_channel_def)

lemma compact_net_idem: "compact_net now (compact_net now n) = compact_net now n"
  by (simp add: compact_net_def)

lemma compacted_idem: "compacted now (compacted now s) = compacted now s"
  by (simp add: compacted_def compact_net_idem option.map_comp comp_def compact_channel_idem)

text \<open>After compaction the version vector only knows this node, so the first entry of another
  origin is taken a second time. An account registration delivered again this way replaces the
  account as it stands (same timestamp, same home), so every later change to it is undone on this
  node; before the compaction the same delivery is a no-op.\<close>

theorem redelivery_after_compaction:
  assumes run: "db_run own d" and ne: "snapshot w now (st d) \<noteq> []"
    and co: "db_compact w now d = (Inr u, d')"
    and e: "le_event e = AccountEvent (AccountRegistered a)" "le_origin e \<noteq> own" "le_seq e = 0"
    and env: "l_io (lg d) = []" "trusted (lg d) e"
    and seen: "l_versions (lg d) (le_origin e) = Some c" "\<not> cursor_newer c (entry_cursor e)"
    and cur: "accounts (st d) (key (a_name a)) = Some b" "a_ts b = a_ts a" "a_home b = a_home a"
  shows "st (snd (db_ingest now e d)) = st d \<and>
    accounts (st (snd (db_ingest now e d'))) = (accounts (st d))(key (a_name a) \<mapsto> a)"
proof -
  have g: "log_ok (lg d)" "l_origin (lg d) = own"
    using db_run_good [OF run] by (simp_all add: good_own_def good_def)
  obtain l' where l': "log_compact (snapshot w now (st d)) (lg d) = (Inr u, l')" "d' = d\<lparr>lg := l'\<rparr>"
    using co by (auto simp: db_compact_def split: prod.splits)
  note c = log_compact_events [OF l'(1) ne g(1)]
  have glob: "entry_global e" by (simp add: entry_global_def e(1))
  have "\<not> accepts (Some c) (entry_cursor e)"
    using seen(2) accepts_newer by blast
  then have "st (snd (db_ingest now e d)) = st d"
    using seen(1) glob by (auto simp: db_ingest_def log_ingest_def Let_def split: option.split)
  moreover have "\<exists>l2. log_ingest e l' = (Inr (Some (le_event e)), l2)"
    using log_ingest_accepts [OF glob, of l'] c(4-6) e(2,3) g(2) env
    by (auto simp: trusted_def entry_cursor_def)
  moreover have "\<not> owns_over b a"
    using cur(2,3) str_less_irrefl by (auto simp: owns_over_def earlier_def)
  ultimately show ?thesis
    using cur(1) l'(2) e(1) by (auto simp: db_ingest_def Let_def split: option.split)
qed

text \<open>The identifiers handed to juped servers are numbered by the live jupes after a compaction
  and restart, so an identifier still in use can be handed out again to another server.\<close>

theorem jupe_sid_reused:
  assumes "db_run own d" and "walks_ok w (st d)" and "db_compact w now d = (Inr u, d')"
    and "j \<in> set (n_jupes (net (st d)))"
    and "ju_sid j = jupe_sid (length (n_jupes (net (st d))))"
    and "\<forall>k \<in> set (n_jupes (net (st d))). \<not> eq_ignore_ascii_case (ju_name k) name"
  shows "fst (jupe_add name reason (db_open (l_disk (lg d')) own)) = ju_sid j"
proof -
  have "snapshot w now (st d) \<noteq> []"
    using assms(4) by (auto simp: snapshot_def snapshot_net_def)
  note reopened = compaction_exact_aux(4) [OF assms(1,2) this assms(3)]
  have "find (\<lambda>k. eq_ignore_ascii_case (ju_name k) name) (n_jupes (net (st d))) = None"
    using assms(6) by (simp add: find_None_iff)
  with assms(5) show ?thesis
    by (simp add: jupe_add_def reopened compacted_def compact_net_def Let_def)
qed

end
