(* ===== verification/Example.thy ===== *)
theory Example
  imports Compaction
begin

text \<open>
  A small reachable database, at which the properties of runs and of compaction are applied: an
  account registered on node n2 arrives by gossip on node n1, gets an e-mail address there, and
  two servers are juped, the first of them released again.
\<close>

definition example_account :: account where
  "example_account = new_account ''bob'' None 5 ''n2'' ''s'' None True"

definition example_entry :: log_entry where
  "example_entry = \<lparr>le_origin = ''n2'', le_seq = 0, le_lamport = 1, le_epoch = 0, le_sig = None,
     le_event = AccountEvent (AccountRegistered example_account)\<rparr>"

definition example_arrived :: db where
  "example_arrived = snd (db_ingest 6 example_entry (db_open [] ''n1''))"

definition example_edited :: db where
  "example_edited = snd (set_email ''bob'' (Some ''b@x'') example_arrived)"

definition example_db :: db where
  "example_db = snd (jupe_del ''a.x'' (snd (jupe_add ''b.x'' [] (snd (jupe_add ''a.x'' [] example_edited)))))"

definition example_walks :: walks where
  "example_walks = \<lparr>w_accounts = [''bob''], w_channels = [], w_grouped = [], w_bots = [],
     w_stats = [], w_opers = []\<rparr>"

lemma example_keys:
  "key ''bob'' = ''bob''" "eq_ignore_ascii_case ''a.x'' ''b.x'' = False"
  "eq_ignore_ascii_case ''b.x'' ''a.x'' = False" "eq_ignore_ascii_case ''a.x'' ''a.x'' = True"
  "eq_ignore_ascii_case ''b.x'' ''c.x'' = False"
  by code_simp+

text \<open>The state after a delivery, whatever side effect it reports.\<close>

lemma db_ingest_state:
  "snd (db_ingest now e d) =
     (case log_ingest e (lg d) of
        (Inr (Some ev), l) \<Rightarrow> on_store (apply_event ev) (d\<lparr>lg := l\<rparr>)
      | (_, l) \<Rightarrow> d\<lparr>lg := l\<rparr>)"
  by (auto simp: db_ingest_def Let_def split: prod.split sum.split option.split)

lemma example_arrived_db:
  "example_arrived = (db_open [] ''n1'')\<lparr>st := store_empty\<lparr>accounts := [''bob'' \<mapsto> example_account]\<rparr>,
       lg := (log_empty ''n1'')\<lparr>l_lamport := 2, l_versions := [''n2'' \<mapsto> (0, 0)],
                l_entries := [example_entry], l_disk := [example_entry]\<rparr>\<rparr>"
  by (simp add: example_arrived_def db_ingest_state example_entry_def log_ingest_def db_open_def log_open_def
    log_empty_def entry_cursor_def entry_global_def persist.simps log_notify_def Let_def sat_succ_def
    u64_max_def on_store_def store_empty_def example_account_def new_account_def example_keys log_events_def)

lemma example_arrived_lg:
  "writable (lg example_arrived)" "l_signing (lg example_arrived) = None"
  "l_versions (lg example_arrived) ''n2'' = Some (0, 0)" "l_origin (lg example_arrived) = ''n1''"
  by (simp_all add: example_arrived_db log_empty_def writable_def)

text \<open>A log that takes every write.\<close>

lemma logged_writable:
  "writable (lg d) \<Longrightarrow> logged err ev k d = k (d\<lparr>lg := snd (log_append ev (lg d))\<rparr>)"
  using writable_append [of "lg d" ev] by (auto simp: logged_def)

lemma appended:
  "writable l \<Longrightarrow> writable (snd (log_append ev l))"
  "l_signing (snd (log_append ev l)) = l_signing l"
  "og \<noteq> l_origin l \<Longrightarrow> l_versions (snd (log_append ev l)) og = l_versions l og"
  "l_origin (snd (log_append ev l)) = l_origin l"
proof -
  show "writable l \<Longrightarrow> writable (snd (log_append ev l))" using writable_append [of l ev] by auto
  obtain r l' where "log_append ev l = (r, l')" by (cases "log_append ev l")
  then show "l_signing (snd (log_append ev l)) = l_signing l"
    "og \<noteq> l_origin l \<Longrightarrow> l_versions (snd (log_append ev l)) og = l_versions l og"
    "l_origin (snd (log_append ev l)) = l_origin l"
    by (cases r; auto dest: log_append_ok log_append_err)+
qed

lemma example_edited_db:
  "st example_edited = store_empty\<lparr>accounts := [''bob'' \<mapsto> example_account\<lparr>a_email := Some ''b@x''\<rparr>]\<rparr>"
  "lg example_edited = snd (log_append (AccountEvent (AccountEmailSet ''bob'' (Some ''b@x'')))
     (lg example_arrived))"
proof -
  have "accounts (st example_arrived) (key ''bob'') = Some example_account"
    by (simp add: example_arrived_db example_keys)
  then have e: "example_edited = on_account ''bob'' (\<lambda>a. a\<lparr>a_email := Some ''b@x''\<rparr>)
      (example_arrived\<lparr>lg := snd (log_append (AccountEvent (AccountEmailSet ''bob'' (Some ''b@x'')))
         (lg example_arrived))\<rparr>)"
    by (simp add: example_edited_def set_email_def account_set_def logged_writable example_arrived_lg)
  show "st example_edited = store_empty\<lparr>accounts := [''bob'' \<mapsto> example_account\<lparr>a_email := Some ''b@x''\<rparr>]\<rparr>"
    unfolding e by (simp add: on_account_def on_store_def modify_def example_keys example_arrived_db)
  show "lg example_edited = snd (log_append (AccountEvent (AccountEmailSet ''bob'' (Some ''b@x'')))
     (lg example_arrived))"
    unfolding e by (simp add: on_account_def on_store_def)
qed

lemma example_db_st:
  "st example_db = store_empty\<lparr>accounts := [''bob'' \<mapsto> example_account\<lparr>a_email := Some ''b@x''\<rparr>],
     net := net_default\<lparr>n_jupes := [\<lparr>ju_name = ''b.x'', ju_sid = ''901'', ju_reason = []\<rparr>],
       n_jupe_seq := 2\<rparr>\<rparr>"
  by (simp add: example_db_def example_edited_db jupe_add_def jupe_del_def jupe_sid_def base36_def Let_def
    logged_ignore_def on_net_def on_store_def example_keys store_empty_def net_default_def)

lemma jupe_lg:
  "\<exists>evs. lg (snd (jupe_add name reason d)) = fold (\<lambda>ev l. snd (log_append ev l)) evs (lg d)"
  "\<exists>evs. lg (snd (jupe_del name d)) = fold (\<lambda>ev l. snd (log_append ev l)) evs (lg d)"
proof -
  have "\<exists>evs. snd (log_append ev l) = fold (\<lambda>ev l. snd (log_append ev l)) evs l" for ev l
    by (rule exI [of _ "[ev]"]) simp
  moreover have "\<exists>evs. l = fold (\<lambda>ev l. snd (log_append ev l)) evs l" for l
    by (rule exI [of _ "[]"]) simp
  ultimately show "\<exists>evs. lg (snd (jupe_add name reason d)) = fold (\<lambda>ev l. snd (log_append ev l)) evs (lg d)"
    "\<exists>evs. lg (snd (jupe_del name d)) = fold (\<lambda>ev l. snd (log_append ev l)) evs (lg d)"
    by (auto simp: jupe_add_def jupe_del_def Let_def logged_ignore_def on_net_def on_store_def
      split: option.split)
qed

lemma appended_all:
  "writable l \<Longrightarrow> writable (fold (\<lambda>ev l. snd (log_append ev l)) evs l)"
  "l_signing (fold (\<lambda>ev l. snd (log_append ev l)) evs l) = l_signing l"
  "og \<noteq> l_origin l \<Longrightarrow> l_versions (fold (\<lambda>ev l. snd (log_append ev l)) evs l) og = l_versions l og"
  "l_origin (fold (\<lambda>ev l. snd (log_append ev l)) evs l) = l_origin l"
  by (induction evs arbitrary: l) (simp_all add: appended)

lemma jupes_keep_log:
  "writable (lg d) \<Longrightarrow> writable (lg (snd (jupe_add name reason d)))"
  "writable (lg d) \<Longrightarrow> writable (lg (snd (jupe_del name d)))"
  "l_signing (lg (snd (jupe_add name reason d))) = l_signing (lg d)"
  "l_signing (lg (snd (jupe_del name d))) = l_signing (lg d)"
  "l_origin (lg (snd (jupe_add name reason d))) = l_origin (lg d)"
  "l_origin (lg (snd (jupe_del name d))) = l_origin (lg d)"
  "og \<noteq> l_origin (lg d) \<Longrightarrow> l_versions (lg (snd (jupe_add name reason d))) og = l_versions (lg d) og"
  "og \<noteq> l_origin (lg d) \<Longrightarrow> l_versions (lg (snd (jupe_del name d))) og = l_versions (lg d) og"
  using jupe_lg(1) [of name reason d] jupe_lg(2) [of name d] by (auto simp: appended_all)

lemma example_edited_lg:
  "writable (lg example_edited)" "l_signing (lg example_edited) = None"
  "l_versions (lg example_edited) ''n2'' = Some (0, 0)" "l_origin (lg example_edited) = ''n1''"
  by (simp_all add: example_edited_db appended example_arrived_lg)

lemma example_db_lg:
  "writable (lg example_db)" "l_signing (lg example_db) = None"
  "l_versions (lg example_db) ''n2'' = Some (0, 0)" "l_origin (lg example_db) = ''n1''"
  by (simp_all add: example_db_def jupes_keep_log example_edited_lg)

lemma example_run_db: "db_run ''n1'' example_db"
proof -
  have "db_run ''n1'' example_arrived"
    unfolding example_arrived_def by (intro db_run.gossip db_run.start)
      (simp add: foreign_def example_entry_def db_open_def Let_def log_open_io u64_max_def)
  then have "db_run ''n1'' example_edited"
    unfolding example_edited_def by (rule db_run.account) (rule account_step.intros)
  moreover have jupe: "db_run ''n1'' (snd (jupe_add name [] d))" "db_run ''n1'' (snd (jupe_del name d))"
    if "db_run ''n1'' d" "writable (lg d)" for name d
    using that by (blast intro: db_run.online online_step.intros)+
  ultimately show ?thesis
    unfolding example_db_def by (simp add: jupe jupes_keep_log example_edited_lg)
qed

lemma example_walks_ok: "walks_ok example_walks (st example_db)"
  by (simp add: walks_ok_def example_walks_def example_db_st store_empty_def net_default_def enumerates_def)

lemma example_snapshot: "snapshot example_walks 9 (st example_db) \<noteq> []"
  by (simp add: snapshot_def example_walks_def example_db_st store_empty_def values_of_def map_filter_simps)

lemma example_compact:
  "db_compact example_walks 9 example_db = (Inr (), snd (db_compact example_walks 9 example_db))"
  using example_db_lg(1)
  by (simp add: db_compact_def log_compact_def Let_def writable_def split: prod.split)

subsection \<open>The theorems at the example\<close>

theorem compaction_exact_witness:
  "st (db_open (l_disk (lg (snd (db_compact example_walks 9 example_db)))) ''n1'') =
     compacted 9 (st example_db)"
  using compaction_exact [OF example_run_db example_walks_ok example_snapshot example_compact] by (rule conjunct2)

theorem redelivery_after_compaction_witness:
  "accounts (st example_db) ''bob'' = Some (example_account\<lparr>a_email := Some ''b@x''\<rparr>) \<and>
   accounts (st (snd (db_ingest 9 example_entry (snd (db_compact example_walks 9 example_db))))) ''bob'' =
     Some example_account"
proof -
  have k: "key (a_name example_account) = ''bob''" by (simp add: example_account_def new_account_def example_keys)
  have "accounts (st (snd (db_ingest 9 example_entry (snd (db_compact example_walks 9 example_db))))) =
      (accounts (st example_db))(key (a_name example_account) \<mapsto> example_account)"
    using redelivery_after_compaction [OF example_run_db example_snapshot example_compact, of
        example_entry example_account "(0, 0)" "example_account\<lparr>a_email := Some ''b@x''\<rparr>"]
      example_db_lg example_db_st k
    by (simp add: example_entry_def writable_def trusted_def entry_cursor_def)
  then show ?thesis by (simp add: k example_db_st)
qed

theorem jupe_sid_reused_witness:
  "n_jupes (net (st example_db)) = [\<lparr>ju_name = ''b.x'', ju_sid = ''901'', ju_reason = []\<rparr>] \<and>
   fst (jupe_add ''c.x'' [] (db_open (l_disk (lg (snd (db_compact example_walks 9 example_db)))) ''n1'')) = ''901''"
proof -
  have "\<lparr>ju_name = ''b.x'', ju_sid = ''901'', ju_reason = []\<rparr> \<in> set (n_jupes (net (st example_db)))"
    by (simp add: example_db_st)
  from jupe_sid_reused [OF example_run_db example_walks_ok example_compact this, of "''c.x''" "[]"]
  show ?thesis by (simp add: example_db_st jupe_sid_def base36_def example_keys)
qed

text \<open>A rival claim to the same name, registered earlier on another node.\<close>

definition rival_account :: account where
  "rival_account = example_account\<lparr>a_ts := 4, a_home := ''n3''\<rparr>"


theorem earliest_registration_owns_witness:
  "\<exists>w \<in> set [example_account, rival_account]. key (a_name w) = ''bob'' \<and>
     accounts (replay (registrations [example_account, rival_account]) store_empty) ''bob'' = Some w \<and>
     \<not> owns_over example_account w"
  by (rule earliest_registration_owns)
    (simp_all add: store_empty_def example_account_def new_account_def example_keys)

lemma example_log_ok: "log_ok (lg example_db)"
  using db_run_good [OF example_run_db] by (simp add: good_own_def good_def)

theorem reopen_recovers_log_witness:
  "l_entries (log_open (l_disk (lg example_db)) (l_origin (lg example_db))) = l_entries (lg example_db)"
  using reopen_recovers_log [OF example_log_ok] by (rule conjunct1)

lemma example_log_run:
  "log_run ''n1'' (snd (log_append (AccountDropped ''bob'') (log_empty ''n1'')))"
  using log_run.append [OF log_run.start] by (metis prod.collapse)



theorem gossip_round_witness:
  "fst (deliver (missing_for (lg example_arrived) (l_versions (log_open [] ''n3''))) (log_open [] ''n3'')) =
     [AccountEvent (AccountRegistered example_account)]"
proof -
  have "db_run ''n1'' example_arrived"
    unfolding example_arrived_def by (intro db_run.gossip db_run.start)
      (simp add: foreign_def example_entry_def db_open_def Let_def log_open_io u64_max_def)
  then have "log_ok (lg example_arrived)" using db_run_good by (auto simp: good_own_def good_def)
  from gossip_round [OF this, of "log_open [] ''n3''"] show ?thesis
    by (simp add: example_arrived_db missing_for_def log_open_def log_empty_def trusted_def
      entry_global_def example_entry_def)
qed

end
