(* ===== verification/AccountProps.thy ===== *)
theory AccountProps
  imports Example
begin

text \<open>
  What the account operations guarantee (src/src/engine/db/account.rs and the account arms of
  src/src/engine/db/event.rs): dropping an account and what still refers to it, certificate
  fingerprints, the password throttle, emailed codes, timed vhosts and expiry.
\<close>

subsection \<open>Dropping an account\<close>

definition refers_to :: "string \<Rightarrow> store \<Rightarrow> bool" where
  "refers_to acct s \<longleftrightarrow>
     accounts s (key acct) \<noteq> None \<or>
     (\<exists>k a. grouped s k = Some a \<and> eq_ignore_ascii_case a acct) \<or>
     (\<exists>k c. channels s k = Some c \<and>
        ((\<exists>a \<in> set (c_access c). eq_ignore_ascii_case (ca_account a) acct) \<or>
         (\<exists>t. c_successor c = Some t \<and> eq_ignore_ascii_case t acct))) \<or>
     (\<exists>g \<in> set (n_groups (net s)). eq_ignore_ascii_case (g_founder g) acct \<or>
        (\<exists>m \<in> set (g_members g). eq_ignore_ascii_case (gm_account m) acct))"

lemma purge_channel_clean:
  "\<not> (\<exists>a \<in> set (c_access (purge_channel acct c)). eq_ignore_ascii_case (ca_account a) acct)"
  "c_successor (purge_channel acct c) = Some t \<Longrightarrow> \<not> eq_ignore_ascii_case t acct"
  by (auto simp: purge_channel_def Let_def access_del_key_def split: option.splits if_splits)

text \<open>C18. Dropping an account leaves nothing behind that names it: no grouped alias, no access entry,
  no successor, no group membership, and no group it founded; the same holds on every node that
  folds the drop.\<close>

theorem dropped_leaves_no_reference:
  shows "\<not> refers_to acct (apply_event (AccountDropped acct) s)"
  using purge_channel_clean [of acct]
  by (auto simp: refers_to_def purge_account_refs_def purge_grouped_def purge_groups_def
    member_del_key_def split: option.splits if_splits)

lemma oper_privs_net: "n_opers (net (st d)) = n_opers (net (st d')) \<Longrightarrow>
    oper_privs_of d acct now = oper_privs_of d' acct now"
  by (simp add: oper_privs_of_def)

text \<open>A runtime operator grant outlives the account it was given to: dropping the account and
  registering the name afresh leaves the grant in place, so the new owner of the name holds the
  old owner's privileges.\<close>

theorem grant_survives_drop:
  shows "oper_privs_of (snd (register_prepared t name creds email (snd (drop_account acct d)))) acct now =
    oper_privs_of d acct now"
proof -
  have "n_opers (net (st (snd (drop_account acct d)))) = n_opers (net (st d))" for acct d
    by (simp add: drop_account_def logged_def on_store_def purge_account_refs_def split: prod.split sum.split)
  moreover have "n_opers (net (st (snd (register_prepared t name creds email d)))) = n_opers (net (st d))" for d
    by (simp add: register_prepared_def insert_account_def logged_def on_store_def Let_def
      split: prod.split sum.split)
  ultimately show ?thesis by (intro oper_privs_net) simp
qed

subsection \<open>Certificate fingerprints\<close>

text \<open>No fingerprint belongs to two accounts, and every list stays within its cap.\<close>

definition certs_ok :: "store \<Rightarrow> bool" where
  "certs_ok s \<longleftrightarrow>
     (\<forall>k a. accounts s k = Some a \<longrightarrow> distinct (a_certfps a) \<and> length (a_certfps a) \<le> max_certfp) \<and>
     (\<forall>j k a b fp. accounts s j = Some a \<longrightarrow> accounts s k = Some b \<longrightarrow>
        fp \<in> set (a_certfps a) \<longrightarrow> fp \<in> set (a_certfps b) \<longrightarrow> j = k)"

lemma certfp_unowned:
  "set ks = dom (accounts (st d)) \<Longrightarrow>
     certfp_owner ks d fp = None \<longleftrightarrow> (\<forall>k a. accounts (st d) k = Some a \<longrightarrow> key fp \<notin> set (a_certfps a))"
  by (force simp: certfp_owner_def find_None_iff set_values_of)

text \<open>C21. Fingerprint logins are unambiguous: adding a fingerprint keeps every fingerprint on at most
  one account and every list within 25; it is refused as invalid, in use, unknown account or full
  in that order of checks, and a refusal changes nothing.\<close>

theorem certfp_add_unique:
  assumes "certs_ok (st d)" and "set ks = dom (accounts (st d))"
  shows "certs_ok (st (snd (certfp_add ks acct fp d))) \<and>
    (case fst (certfp_add ks acct fp d) of
       Inr _ \<Rightarrow> valid_fp (key fp) \<and> (\<exists>a. accounts (st (snd (certfp_add ks acct fp d))) (key acct) = Some a \<and>
                 key fp \<in> set (a_certfps a))
     | Inl e \<Rightarrow> st (snd (certfp_add ks acct fp d)) = st d \<and>
         e = (if \<not> valid_fp (key fp) then CertInvalid
              else if \<exists>k a. accounts (st d) k = Some a \<and> key fp \<in> set (a_certfps a) then CertInUse
              else if accounts (st d) (key acct) = None then CertNoAccount
              else if length (a_certfps (the (accounts (st d) (key acct)))) \<ge> max_certfp then CertFull
              else CertInternal))"
proof -
  have kk: "key (key fp) = key fp" by simp
  show ?thesis
    using assms unfolding certfp_add_def Let_def certfp_unowned [OF assms(2)] kk
    by (auto simp: logged_def certs_ok_def on_account_def on_store_def modify_def
      split: prod.split sum.split option.split)
qed

subsection \<open>The password throttle\<close>

definition fail_all :: "(nat \<times> string) list \<Rightarrow> db \<Rightarrow> db" where
  "fail_all tries d = fold (\<lambda>(i, name) d. note_auth i name False d) tries d"

lemma throttle_key_st: "st d = st d' \<Longrightarrow> throttle_key d x = throttle_key d' x"
  by (simp add: throttle_key_def resolved_key_def Let_def)

lemma note_auth_st [simp]: "st (note_auth i name ok d) = st d"
  by (simp add: note_auth_def Let_def)

lemma fail_all_st [simp]: "st (fail_all tries d) = st d"
  by (induction tries arbitrary: d) (auto simp: fail_all_def)

lemma note_auth_throttle [simp]:
  "throttle_key (note_auth i name ok d) x = throttle_key d x"
  "throttle_key (fail_all tries d) x = throttle_key d x"
  by (rule throttle_key_st, simp)+

lemma fail_all_snoc: "fail_all (tries @ [(i, name)]) d = note_auth i name False (fail_all tries d)"
  by (simp add: fail_all_def)

lemma fail_all_state:
  assumes "\<forall>(i, name) \<in> set tries. throttle_key d name = k" and "auth_fails d k = None"
  shows "auth_fails (fail_all tries d) k =
      (if tries = [] then None
       else Some \<lparr>th_fails = length tries, th_locked_until =
         (if length tries > 3 then Some (fst (last tries) + backoff_secs (length tries) * nanos) else None)\<rparr>)"
  using assms(1)
proof (induction tries rule: rev_induct)
  case Nil
  then show ?case using assms(2) by (simp add: fail_all_def)
next
  case (snoc t tries)
  obtain i name where t: "t = (i, name)" by (cases t)
  have "auth_fails (fail_all tries d) k =
      (if tries = [] then None
       else Some \<lparr>th_fails = length tries, th_locked_until =
         (if length tries > 3 then Some (fst (last tries) + backoff_secs (length tries) * nanos) else None)\<rparr>)"
    using snoc by auto
  moreover have "throttle_key d name = k" using snoc.prems t by simp
  ultimately show ?case
    unfolding t fail_all_snoc by (simp add: note_auth_def [of i name False] Let_def)
qed

lemma backoff_bound: "1 \<le> backoff_secs n \<and> backoff_secs n \<le> 300"
  by (simp add: backoff_secs_def)

text \<open>C22. Password guessing is throttled per account, not per spelling: failures under any mix of case
  and grouped nicks add up, the first three are free, and the n-th failure at time i locks every
  one of these names for min(2^(n-4), 300) seconds; one success clears the record.\<close>

theorem failures_lock_all_names:
  assumes "\<forall>(i, name) \<in> set (tries @ [(t, nick)]). throttle_key d name = throttle_key d acct"
    and "auth_fails d (throttle_key d acct) = None"
  shows "auth_lockout t (fail_all (tries @ [(t, nick)]) d) acct =
      (if length tries < 3 then None else Some (backoff_secs (length tries + 1) + 1)) \<and>
    backoff_secs (length tries + 1) \<le> 300 \<and>
    auth_lockout t (note_auth t nick True (fail_all (tries @ [(t, nick)]) d)) acct = None"
proof -
  let ?n = "length tries + 1"
  let ?d = "fail_all (tries @ [(t, nick)]) d"
  have state: "auth_fails ?d (throttle_key d acct) = Some \<lparr>th_fails = ?n,
      th_locked_until = (if ?n > 3 then Some (t + backoff_secs ?n * nanos) else None)\<rparr>"
    using fail_all_state [OF assms] by simp
  have k: "throttle_key d nick = throttle_key d acct" using assms(1) by simp
  have "backoff_secs ?n * nanos div nanos = backoff_secs ?n" "backoff_secs ?n * nanos > 0"
    using backoff_bound [of ?n] by (simp_all add: nanos_def)
  with state have "auth_lockout t ?d acct = (if length tries < 3 then None else Some (backoff_secs ?n + 1))"
    by (auto simp: auth_lockout_def)
  moreover have "auth_lockout t (note_auth t nick True ?d) acct = None"
    unfolding auth_lockout_def note_auth_throttle by (simp add: note_auth_def k)
  ultimately show ?thesis using backoff_bound by blast
qed

subsection \<open>Emailed codes\<close>

definition guess_all :: "string \<Rightarrow> (nat \<times> code_kind \<times> string) list \<Rightarrow> db \<Rightarrow> db" where
  "guess_all acct guesses d = fold (\<lambda>(i, kind, g) d. snd (take_code i acct kind g d)) guesses d"

definition wrong_guess :: "code_kind \<Rightarrow> string \<Rightarrow> nat \<times> code_kind \<times> string \<Rightarrow> bool" where
  "wrong_guess kind c g \<longleftrightarrow> (fst (snd g), snd (snd g)) \<noteq> (kind, c)"

text \<open>The code is gone, or at most \<open>n\<close> guesses are left.\<close>

definition guesses_left :: "string \<Rightarrow> code_kind \<Rightarrow> string \<Rightarrow> nat \<Rightarrow> db \<Rightarrow> bool" where
  "guesses_left acct kind c n d \<longleftrightarrow>
     (case codes d (key acct) of None \<Rightarrow> True
      | Some pc \<Rightarrow> pc_kind pc = kind \<and> pc_code pc = c \<and> pc_tries_left pc \<le> n \<and> 0 < n)"

lemma guess_wrong:
  "wrong_guess kind c (i, kind', g) \<Longrightarrow> guesses_left acct kind c n d \<Longrightarrow>
     guesses_left acct kind c (n - 1) (snd (take_code i acct kind' g d))"
  by (auto simp: guesses_left_def take_code_def Let_def wrong_guess_def split: option.splits)

lemma guess_all_left:
  "\<forall>g \<in> set gs. wrong_guess kind c g \<Longrightarrow> guesses_left acct kind c n d \<Longrightarrow>
     guesses_left acct kind c (n - length gs) (guess_all acct gs d)"
proof (induction gs arbitrary: d n)
  case (Cons g gs)
  obtain i kind' c' where g: "g = (i, kind', c')" by (cases g)
  have "guesses_left acct kind c (n - 1) (snd (take_code i acct kind' c' d))"
    using Cons.prems g by (intro guess_wrong) auto
  with Cons.IH [of "n - 1" "snd (take_code i acct kind' c' d)"] Cons.prems(1) g show ?case
    by (simp add: guess_all_def)
qed (simp add: guess_all_def)

text \<open>An emailed code is accepted only for its own account and purpose, before its deadline and
  exactly as issued; it is spent by being accepted, and five wrong guesses burn it.\<close>

theorem codes_are_single_use:
  assumes "\<forall>g \<in> set gs. wrong_guess kind c g" and "length gs \<ge> 5"
  shows "(fst (take_code t acct kind' g d) \<longleftrightarrow>
      (\<exists>pc. codes d (key acct) = Some pc \<and> t < pc_deadline pc \<and> pc_kind pc = kind' \<and> pc_code pc = g)) \<and>
    (fst (take_code t acct kind' g d) \<longrightarrow> codes (snd (take_code t acct kind' g d)) (key acct) = None) \<and>
    \<not> fst (take_code t acct kind' g (guess_all acct gs (snd (issue_code c i acct kind d))))"
proof -
  let ?d = "snd (issue_code c i acct kind d)"
  have "codes (guess_all acct gs ?d) (key acct) = None"
    using guess_all_left [OF assms(1), of acct 5 ?d] assms(2)
    by (auto simp: issue_code_def guesses_left_def split: option.splits)
  then show ?thesis by (auto simp: take_code_def Let_def split: option.split)
qed

subsection \<open>Timed vhosts\<close>

text \<open>A vhost assigned for a number of seconds is active until then, unless the deadline passes
  the 64-bit clock: then the sum wraps and a vhost meant to outlast everything is expired from
  the start.\<close>

theorem vhost_deadline:
  assumes "fst (set_vhost now acct host setter (Some ttl) d) = Inr u" and "now < 2 ^ 64" and "ttl < 2 ^ 64"
  shows "active_vhost t (snd (set_vhost now acct host setter (Some ttl) d)) acct =
    (if now + ttl < 2 ^ 64 \<and> t < now + ttl \<or> now + ttl \<ge> 2 ^ 64 \<and> t < now + ttl - 2 ^ 64
     then Some host else None) \<and>
    (now + ttl \<ge> 2 ^ 64 \<longrightarrow> active_vhost now (snd (set_vhost now acct host setter (Some ttl) d)) acct = None)"
proof -
  have w: "u64_add now ttl = (if now + ttl < 2 ^ 64 then now + ttl else now + ttl - 2 ^ 64)"
    using assms(2,3) by (simp add: u64_add_def mod_if)
  have "\<exists>a. accounts (st (snd (set_vhost now acct host setter (Some ttl) d))) (key acct) = Some a \<and>
      a_vhost a = Some \<lparr>vh_host = host, vh_setter = setter, vh_ts = now, vh_expires = Some (u64_add now ttl)\<rparr>"
    using assms(1)
    by (auto simp: set_vhost_def account_set_def logged_def on_account_def on_store_def modify_def Let_def
      split: if_splits prod.splits sum.splits option.splits)
  then show ?thesis using assms(2,3) by (auto simp: active_vhost_def live_until_def w)
qed

subsection \<open>Expiry\<close>

text \<open>The expiry sweep and the warning mail never overlap: an account is listed as expired only when
  idle beyond the limit, unsuspended and not exempt, and one listed for a warning is not yet
  expired, has not been warned, and is told a remaining time within the lead.\<close>

theorem warned_before_expired:
  assumes "walks_ok w (st d)" and "lead \<le> ttl" and "(name, email, left) \<in> set (accounts_to_warn ks now ttl lead d)"
    and "ks = w_accounts w" and "wf_store (st d)"
  shows "name \<notin> set (expired_accounts ks now ttl d) \<and> left < lead \<and>
    (\<exists>a. accounts (st d) (key name) = Some a \<and> a_email a = Some email \<and> \<not> a_noexpire a \<and>
       \<not> a_expiry_warned a \<and> a_suspension a = None \<and> account_idle now a + left = ttl)"
proof -
  have keyed: "accounts (st d) k = Some a \<Longrightarrow> key (a_name a) = k" for k a
    using assms(5) by (auto simp: wf_store_def keyed_by_def)
  from assms(3) obtain a where a: "a \<in> set (values_of ks (accounts (st d)))" "a_name a = name"
    "account_idle now a > ttl - lead" "account_idle now a \<le> ttl" "left = ttl - account_idle now a"
    "\<not> a_noexpire a" "\<not> a_expiry_warned a" "a_suspension a = None" "a_email a = Some email"
    by (auto simp: accounts_to_warn_def Let_def List.map_filter_def split: if_splits)
  then have acc: "accounts (st d) (key name) = Some a"
    by (auto simp: set_values_of dest: keyed)
  have "name \<notin> set (expired_accounts ks now ttl d)"
  proof
    assume "name \<in> set (expired_accounts ks now ttl d)"
    then obtain b where "b \<in> set (values_of ks (accounts (st d)))" "a_name b = name" "account_idle now b > ttl"
      by (auto simp: expired_accounts_def)
    with acc keyed a(4) show False by (fastforce simp: set_values_of)
  qed
  with a acc assms(2) show ?thesis by auto
qed

subsection \<open>The theorems at the example\<close>

theorem certfp_add_unique_witness:
  "certs_ok (st (snd (certfp_add [''bob''] ''bob'' (replicate 32 CHR ''A'') example_db)))"
proof -
  have "certs_ok (st example_db)" "set [''bob''] = dom (accounts (st example_db))"
    by (auto simp: certs_ok_def example_db_st example_account_def new_account_def)
  from certfp_add_unique [OF this] show ?thesis by (rule conjunct1)
qed

theorem failures_lock_all_names_witness:
  "auth_lockout 4 (fail_all ([(1, ''bob''), (2, ''BOB''), (3, ''bob'')] @ [(4, ''Bob'')]) (db_open [] ''n1'')) ''bob'' =
     Some 2"
proof -
  let ?d = "db_open [] ''n1''"
  have "throttle_key ?d x = key x" for x
    by (simp add: throttle_key_def resolved_key_def db_open_def log_open_def log_events_def log_empty_def
      store_empty_def Let_def)
  moreover have "key ''bob'' = ''bob''" "key ''BOB'' = ''bob''" "key ''Bob'' = ''bob''" by code_simp+
  ultimately have names: "\<forall>(i, name) \<in> set ([(1, ''bob''), (2, ''BOB''), (3, ''bob'')] @ [(4, ''Bob'')]).
      throttle_key ?d name = throttle_key ?d ''bob''"
    by simp
  have "auth_fails ?d (throttle_key ?d ''bob'') = None" by (simp add: db_open_def Let_def)
  from failures_lock_all_names [OF names this] show ?thesis by (simp add: backoff_secs_def)
qed

theorem codes_are_single_use_witness:
  "\<not> fst (take_code 6 ''bob'' Confirm ''123456''
     (guess_all ''bob'' (replicate 5 (1, Confirm, ''999999''))
       (snd (issue_code ''123456'' 0 ''bob'' Confirm (db_open [] ''n1'')))))"
  by (rule codes_are_single_use [THEN conjunct2, THEN conjunct2]) (simp_all add: wrong_guess_def)

theorem vhost_deadline_witness:
  "active_vhost 9 (snd (set_vhost 9 ''bob'' ''v.x'' ''oper'' (Some (2 ^ 64 - 1)) example_db)) ''bob'' = None"
proof -
  have "fst (set_vhost 9 ''bob'' ''v.x'' ''oper'' (Some (2 ^ 64 - 1)) example_db) = Inr ()"
    by (simp add: set_vhost_def account_set_def logged_writable example_db_lg example_db_st example_keys
      Let_def)
  from vhost_deadline [OF this] show ?thesis by simp
qed

theorem warned_before_expired_witness:
  "''bob'' \<notin> set (expired_accounts [''bob''] 100 100 example_db)"
proof -
  have "(''bob'', ''b@x'', 5) \<in> set (accounts_to_warn [''bob''] 100 100 20 example_db)"
    by (simp add: accounts_to_warn_def values_of_def map_filter_simps example_db_st example_account_def
      new_account_def account_idle_def)
  moreover have "wf_store (st example_db)"
    using db_run_good [OF example_run_db] by (simp add: good_own_def good_def)
  moreover have "[''bob''] = w_accounts example_walks" by (simp add: example_walks_def)
  ultimately show ?thesis
    by (intro warned_before_expired [OF example_walks_ok, THEN conjunct1]) simp_all
qed

end
