(* ===== verification/ChannelProps.thy ===== *)
theory ChannelProps
  imports Example
begin

text \<open>
  What the channel, memo and bot operations guarantee (src/src/engine/db/channel.rs): the release
  of a departing founder's channels, the capped lists, renaming, memo cancellation, and two places
  where the live store and the replayed log part.
\<close>

subsection \<open>Releasing a founder's channels\<close>

definition heir :: "db \<Rightarrow> string \<Rightarrow> channel_info \<Rightarrow> string option" where
  "heir d acct c =
     (case c_successor c of None \<Rightarrow> None
      | Some s \<Rightarrow> if \<not> eq_ignore_ascii_case s acct \<and> exists_account d s then Some s else None)"

definition released :: "db \<Rightarrow> string \<Rightarrow> channel_info \<Rightarrow> channel_info option" where
  "released d acct c = map_option (\<lambda>s. c\<lparr>c_founder := s, c_successor := None\<rparr>) (heir d acct c)"

lemma channel_set_writable:
  assumes "writable (lg d)" and "channels (st d) (key chan) \<noteq> None"
  shows "fst (channel_set chan e f d) = Inr ()" "writable (lg (snd (channel_set chan e f d)))"
    "st (snd (channel_set chan e f d)) =
       (st d)\<lparr>channels := modify (key chan) f (channels (st d))\<rparr>"
  using assms
  by (simp_all add: channel_set_def logged_writable appended on_channel_def on_store_def)

lemma drop_channel_writable:
  assumes "writable (lg d)"
  shows "writable (lg (snd (drop_channel chan d)))"
    "st (snd (drop_channel chan d)) = (st d)\<lparr>channels := (channels (st d))(key chan := None)\<rparr>"
  using assms
  by (cases "channels (st d) (key chan)";
      simp add: drop_channel_def logged_writable appended on_store_def fun_upd_idem)+

lemma valid_successor_heir:
  "valid_successor d acct chan = Option.bind (channels (st d) (key chan)) (heir d acct)"
  by (simp add: valid_successor_def heir_def split: option.split)

lemma heir_same: "accounts (st d') = accounts (st d) \<Longrightarrow> grouped (st d') = grouped (st d) \<Longrightarrow>
    heir d' acct c = heir d acct c"
  by (simp add: heir_def exists_account_def resolved_key_def Let_def split: option.split)

text \<open>One step of the loop: the channel is handed over or removed.\<close>

lemma release_step:
  assumes "writable (lg d)" and "channels (st d) (key chan) = Some c"
  shows "\<exists>d1. writable (lg d1) \<and>
      st d1 = (st d)\<lparr>channels := (channels (st d))(key chan := released d acct c)\<rparr> \<and>
      snd (release_loop acct (chan # cs) d) = snd (release_loop acct cs d1)"
proof (cases "heir d acct c")
  case None
  with assms have "valid_successor d acct chan = None" by (simp add: valid_successor_heir)
  then show ?thesis
    using drop_channel_writable [OF assms(1), of chan] None
    by (intro exI [of _ "snd (drop_channel chan d)"])
      (simp add: release_loop.simps released_def case_prod_beta)
next
  case (Some s)
  let ?d1 = "snd (set_founder chan s d)"
  let ?d2 = "snd (set_successor chan None ?d1)"
  have v: "valid_successor d acct chan = Some s" using Some assms(2) by (simp add: valid_successor_heir)
  have f: "fst (set_founder chan s d) = Inr ()" "writable (lg ?d1)"
    "st ?d1 = (st d)\<lparr>channels := (channels (st d))(key chan \<mapsto> c\<lparr>c_founder := s\<rparr>)\<rparr>"
    using channel_set_writable [OF assms(1), of chan] assms(2)
    by (simp_all add: set_founder_def modify_def)
  have g: "writable (lg ?d2)"
    "st ?d2 = (st d)\<lparr>channels := (channels (st d))(key chan \<mapsto> c\<lparr>c_founder := s, c_successor := None\<rparr>)\<rparr>"
    using channel_set_writable [OF f(2), of chan] f(3)
    by (simp_all add: set_successor_def modify_def)
  have "snd (release_loop acct (chan # cs) d) = snd (release_loop acct cs ?d2)"
    using f(1) by (cases "set_founder chan s d") (simp add: release_loop.simps v case_prod_beta)
  with g Some show ?thesis by (intro exI [of _ ?d2]) (simp add: released_def)
qed

lemma release_loop_channels:
  assumes "writable (lg d)" and "distinct (map key cs)"
    and "\<forall>chan \<in> set cs. channels (st d) (key chan) \<noteq> None"
  shows "channels (st (snd (release_loop acct cs d))) =
      (\<lambda>k. if k \<in> key ` set cs then Option.bind (channels (st d) k) (released d acct) else channels (st d) k)"
  using assms
proof (induction cs arbitrary: d)
  case (Cons chan cs)
  then obtain c where c: "channels (st d) (key chan) = Some c" by auto
  from release_step [OF Cons.prems(1) this] obtain d1 where d1: "writable (lg d1)"
    "st d1 = (st d)\<lparr>channels := (channels (st d))(key chan := released d acct c)\<rparr>"
    "snd (release_loop acct (chan # cs) d) = snd (release_loop acct cs d1)"
    by blast
  have ch: "channels (st d1) = (channels (st d))(key chan := released d acct c)"
    and same: "accounts (st d1) = accounts (st d)" "grouped (st d1) = grouped (st d)"
    by (simp_all add: d1(2))
  have rel: "released d1 acct = released d acct"
    by (rule ext) (simp add: released_def heir_same [OF same])
  have new: "key chan \<notin> key ` set cs" and dist: "distinct (map key cs)" using Cons.prems(2) by auto
  have "\<forall>x \<in> set cs. channels (st d1) (key x) \<noteq> None"
    using Cons.prems(3) new by (auto simp: ch image_iff eq_commute)
  note IH = Cons.IH [OF d1(1) dist this, unfolded rel]
  show ?case
  proof
    fix k
    show "channels (st (snd (release_loop acct (chan # cs) d))) k =
        (if k \<in> key ` set (chan # cs) then Option.bind (channels (st d) k) (released d acct)
         else channels (st d) k)"
      unfolding d1(3) IH ch using new c by (cases "k = key chan") auto
  qed
qed (simp add: release_loop.simps)

lemma owned_keys:
  assumes "keyed_by c_name (channels (st d))" and "enumerates ks (channels (st d))"
  shows "distinct (map key (channels_owned_by ks d acct))"
    and "k \<in> key ` set (channels_owned_by ks d acct) \<longleftrightarrow>
      (\<exists>c. channels (st d) k = Some c \<and> eq_ignore_ascii_case (c_founder c) acct)"
proof -
  have k: "\<forall>k c. channels (st d) k = Some c \<longrightarrow> key (c_name c) = k" using assms(1) by (simp add: keyed_by_def)
  have "distinct (map (\<lambda>c. key (c_name c)) (values_of ks (channels (st d))))"
    using distinct_values_of [OF k] assms(2) by (simp add: enumerates_def)
  then show "distinct (map key (channels_owned_by ks d acct))"
    by (simp add: channels_owned_by_def comp_def distinct_map_filter)
  show "k \<in> key ` set (channels_owned_by ks d acct) \<longleftrightarrow>
      (\<exists>c. channels (st d) k = Some c \<and> eq_ignore_ascii_case (c_founder c) acct)"
    using k assms(2) by (force simp: channels_owned_by_def set_values_of enumerates_def image_iff)
qed


subsection \<open>Capped lists\<close>

definition list_ok :: "channel_info \<Rightarrow> bool" where
  "list_ok c \<longleftrightarrow> wf_channel c \<and> length (c_access c) \<le> max_chan_list \<and> length (c_akick c) \<le> max_chan_list"

definition lists_capped :: "store \<Rightarrow> bool" where
  "lists_capped s \<longleftrightarrow> each list_ok (channels s)"

lemma capped_logged:
  assumes "lists_capped (st d)" and "\<And>c. channels (st d) (key chan) = Some c \<Longrightarrow> list_ok c \<Longrightarrow> list_ok (f c)"
  shows "lists_capped (st (snd (logged err ev (\<lambda>d. (Inr x, on_channel chan f d)) d)))"
  using assms by (auto simp: logged_def on_channel_def on_store_def lists_capped_def each_def modify_def
    split: prod.split sum.split option.splits if_splits)

lemma replace_length:
  assumes "distinct (map f xs)" and "length xs \<ge> n \<longrightarrow> (\<exists>x \<in> set xs. f x = k)" and "length xs \<le> n"
  shows "length (filter (\<lambda>x. f x \<noteq> k) xs @ [y]) \<le> n"
proof (cases "\<exists>x \<in> set xs. f x = k")
  case True
  then have "length (filter (\<lambda>x. f x \<noteq> k) xs) < length xs" by (auto intro: length_filter_less)
  with assms(3) show ?thesis by simp
next
  case False
  then have "filter (\<lambda>x. f x \<noteq> k) xs = xs" by (auto simp: filter_id_conv)
  with False assms(2,3) show ?thesis by auto
qed

text \<open>The access and auto-kick lists never grow beyond 256 entries or hold an account or mask
  twice: a full list refuses a new entry but still lets an existing one be changed.\<close>

theorem chan_lists_capped:
  assumes "lists_capped (st d)"
  shows "lists_capped (st (snd (access_add chan acct level d))) \<and>
    lists_capped (st (snd (akick_add chan msk reason d))) \<and>
    (channels (st d) (key chan) = Some c \<longrightarrow>
      (fst (access_add chan acct level d) = Inl ChanFull \<longleftrightarrow> length (c_access c) = max_chan_list \<and>
         \<not> (\<exists>a \<in> set (c_access c). eq_ignore_ascii_case (ca_account a) acct)))"
proof -
  have capped: "list_ok c" if "channels (st d) k = Some c" for k c
    using assms that by (simp add: lists_capped_def each_def)
  have acc: "list_ok (c\<lparr>c_access := filter (\<lambda>a. \<not> eq_ignore_ascii_case (ca_account a) acct) (c_access c) @
        [\<lparr>ca_account = acct, ca_level = level\<rparr>]\<rparr>)"
    if "list_ok c" "max_chan_list \<le> length (c_access c) \<longrightarrow>
      (\<exists>a \<in> set (c_access c). eq_ignore_ascii_case (ca_account a) acct)" for c
    using that replace_length [of "\<lambda>a. key (ca_account a)" "c_access c" max_chan_list "key acct"]
    by (auto simp: list_ok_def wf_channel_def eq_ignore_ascii_case_def distinct_map_filter)
  have akick: "list_ok (c\<lparr>c_akick := filter (\<lambda>a. \<not> eq_ignore_ascii_case (ak_mask a) msk) (c_akick c) @
        [\<lparr>ak_mask = msk, ak_reason = reason\<rparr>]\<rparr>)"
    if "list_ok c" "max_chan_list \<le> length (c_akick c) \<longrightarrow>
      (\<exists>a \<in> set (c_akick c). eq_ignore_ascii_case (ak_mask a) msk)" for c
    using that replace_length [of "\<lambda>a. key (ak_mask a)" "c_akick c" max_chan_list "key msk"]
    by (auto simp: list_ok_def wf_channel_def eq_ignore_ascii_case_def distinct_map_filter)
  have "lists_capped (st (snd (access_add chan acct level d)))"
    using assms by (auto simp: access_add_def intro!: capped_logged acc split: option.split)
  moreover have "lists_capped (st (snd (akick_add chan msk reason d)))"
    using assms by (auto simp: akick_add_def intro!: capped_logged akick split: option.split)
  moreover have "fst (access_add chan acct level d) = Inl ChanFull \<longleftrightarrow> length (c_access c) = max_chan_list \<and>
      \<not> (\<exists>a \<in> set (c_access c). eq_ignore_ascii_case (ca_account a) acct)"
    if "channels (st d) (key chan) = Some c"
    using that capped [OF that] by (auto simp: access_add_def list_ok_def logged_def split: prod.split sum.split)
  ultimately show ?thesis by blast
qed

subsection \<open>Cancelling a memo\<close>

text \<open>A sender can take back only a memo not yet read: cancelling removes exactly the newest unread
  memo of that sender, keeps every other memo in order, and fails when there is none.\<close>

theorem memo_cancel_newest_unread:
  shows "case memo_cancel acct sender d of
      (False, d') \<Rightarrow> d' = d \<and> (\<forall>m \<in> set (memo_list d acct). key (me_from m) = key sender \<longrightarrow> me_read m)
    | (True, d') \<Rightarrow> \<exists>i < length (memo_list d acct). memo_list d' acct = remove_at i (memo_list d acct) \<and>
        \<not> me_read (memo_list d acct ! i) \<and> key (me_from (memo_list d acct ! i)) = key sender \<and>
        (\<forall>j. i < j \<and> j < length (memo_list d acct) \<and> key (me_from (memo_list d acct ! j)) = key sender \<longrightarrow>
           me_read (memo_list d acct ! j))"
proof (cases "accounts (st d) (key acct)")
  case None
  then show ?thesis by (simp add: memo_cancel_def memo_list_def)
next
  case (Some a)
  let ?p = "\<lambda>m. \<not> me_read m \<and> key (me_from m) = key sender"
  show ?thesis
  proof (cases "find_last ?p (a_memos a)")
    case None
    then have "\<forall>m \<in> set (a_memos a). \<not> ?p m" by (simp only: find_last_None)
    with None Some show ?thesis by (auto simp: memo_cancel_def memo_list_def)
  next
    case F: (Some i)
    then have i: "i < length (a_memos a) \<and> ?p (a_memos a ! i) \<and>
        (\<forall>j. i < j \<and> j < length (a_memos a) \<longrightarrow> \<not> ?p (a_memos a ! j))"
      using find_last_Some [THEN iffD1, OF F] by blast
    have c: "memo_cancel acct sender d = memo_del acct i d" using F Some by (simp add: memo_cancel_def)
    show ?thesis
      unfolding c using i Some
      by (auto simp: memo_del_def memo_list_def on_account_def on_store_def modify_def logged_ignore_def)
  qed
qed

text \<open>Sending a memo does not check the mailbox cap, but replaying the log does: a memo sent to a
  full mailbox is there until the restart and gone after it.\<close>

theorem memo_over_cap_is_lost:
  assumes "db_run own d" and "writable (lg d)"
    and "accounts (st d) (key acct) = Some a" and "length (a_memos a) \<ge> memo_cap a"
  shows "length (memo_list (snd (memo_send now acct from txt receipt d)) acct) = length (a_memos a) + 1 \<and>
    fst (memo_send now acct from txt receipt d) = Inr () \<and>
    memo_list (db_open (l_disk (lg (snd (memo_send now acct from txt receipt d)))) own) acct = a_memos a"
proof -
  let ?ev = "AccountEvent (MemoSent acct from txt now receipt)"
  let ?d' = "snd (memo_send now acct from txt receipt d)"
  have g: "good (st d) (lg d)" "l_origin (lg d) = own"
    using db_run_good [OF assms(1)] by (simp_all add: good_own_def)
  obtain l' where l': "log_append ?ev (lg d) = (Inr (), l')"
    using writable_append [OF assms(2)] by blast
  have lg: "lg ?d' = l'" "length (memo_list ?d' acct) = length (a_memos a) + 1"
    "fst (memo_send now acct from txt receipt d) = Inr ()"
    using assms(3) l' by (simp_all add: memo_send_def account_set_def logged_def memo_list_def
      on_account_def on_store_def modify_def)
  have "good (apply_event ?ev (st d)) l'" "l_origin l' = own"
    using sound.commit [OF g(1) l'] log_append_keeps(1) [OF l'] g(2) by simp_all
  then have "st (db_open (l_disk l') own) = apply_event ?ev (st d)"
    using reopened_events [of l'] by (auto simp: good_def in_step_replay db_open_def Let_def)
  then have "memo_list (db_open (l_disk l') own) acct = a_memos a"
    using assms(3,4) by (simp add: memo_list_def modify_def)
  with lg show ?thesis by simp
qed

subsection \<open>The default bot\<close>

text \<open>Deleting the default bot leaves it the default in memory, while the log's replay clears it:
  when a bot of that name is added again it is the default before a restart and not after it.\<close>

theorem default_bot_outlives_deletion:
  assumes "db_run own d" and "writable (lg d)"
    and "bots (st d) (key nick) \<noteq> None" and "n_default_bot (net (st d)) = Some (key nick)"
  shows "let d' = snd (bot_add nick user host gecos (snd (bot_del nick d))) in
    default_bot d' = Some nick \<and> default_bot (db_open (l_disk (lg d')) own) = None"
proof -
  let ?b = "\<lparr>b_nick = nick, b_user = user, b_host = host, b_gecos = gecos, b_private = False\<rparr>"
  let ?d1 = "snd (bot_del nick d)"
  let ?d2 = "snd (bot_add nick user host gecos ?d1)"
  have g: "good (st d) (lg d)" "l_origin (lg d) = own"
    using db_run_good [OF assms(1)] by (simp_all add: good_own_def)
  obtain l1 where l1: "log_append (BotRemoved nick) (lg d) = (Inr (), l1)" "writable l1"
    using writable_append [OF assms(2)] by blast
  obtain l2 where l2: "log_append (BotAdded ?b) l1 = (Inr (), l2)" using writable_append [OF l1(2)] by blast
  have d1: "st ?d1 = (st d)\<lparr>bots := (bots (st d))(key nick := None)\<rparr>" "lg ?d1 = l1"
    using assms(3) l1 by (auto simp: bot_del_def logged_def on_store_def)
  have d2: "lg ?d2 = l2" "bots (st ?d2) (key nick) = Some ?b" "n_default_bot (net (st ?d2)) = Some (key nick)"
    using d1 l2 assms(4) by (simp_all add: bot_add_def logged_def on_store_def Let_def)
  have "good (apply_event (BotAdded ?b) (apply_event (BotRemoved nick) (st d))) l2" "l_origin l2 = own"
    using sound.commit [OF sound.commit [OF g(1) l1(1)] l2] log_append_keeps(1) [OF l1(1)]
      log_append_keeps(1) [OF l2] g(2) by simp_all
  then have "st (db_open (l_disk l2) own) = apply_event (BotAdded ?b) (apply_event (BotRemoved nick) (st d))"
    using reopened_events [of l2] by (auto simp: good_def in_step_replay db_open_def Let_def)
  then have "default_bot (db_open (l_disk l2) own) = None" using assms(4) by (simp add: default_bot_def)
  moreover have "default_bot ?d2 = Some nick" using d2 by (simp add: default_bot_def)
  ultimately show ?thesis by (simp add: Let_def d2(1))
qed

subsection \<open>The theorems at the example\<close>

definition example_channel_db :: db where
  "example_channel_db =
     snd (set_successor ''#a'' (Some ''bob'') (snd (register_channel 7 ''#a'' ''al'' example_db)))"

lemma example_channel_keys:
  "key ''#a'' = ''#a''" "eq_ignore_ascii_case ''bob'' ''al'' = False" "eq_ignore_ascii_case ''al'' ''al'' = True"
  by code_simp+

lemma example_channel:
  "writable (lg example_channel_db)"
  "channels (st example_channel_db) = [''#a'' \<mapsto> (new_channel ''#a'' ''al'' 7)\<lparr>c_successor := Some ''bob''\<rparr>]"
  "accounts (st example_channel_db) = accounts (st example_db)"
proof -
  let ?d = "snd (register_channel 7 ''#a'' ''al'' example_db)"
  have "channels (st example_db) = Map.empty" by (simp add: example_db_st store_empty_def)
  then have d: "writable (lg ?d)" "channels (st ?d) = [''#a'' \<mapsto> new_channel ''#a'' ''al'' 7]"
    "accounts (st ?d) = accounts (st example_db)"
    using example_db_lg(1) by (simp_all add: register_channel_def logged_writable appended on_store_def
      example_channel_keys)
  with channel_set_writable [OF d(1), of "''#a''"] show "writable (lg example_channel_db)"
    "channels (st example_channel_db) = [''#a'' \<mapsto> (new_channel ''#a'' ''al'' 7)\<lparr>c_successor := Some ''bob''\<rparr>]"
    "accounts (st example_channel_db) = accounts (st example_db)"
    by (simp_all add: example_channel_db_def set_successor_def example_channel_keys modify_def)
qed

lemma example_channel_wf: "wf_store (st example_channel_db)"
proof -
  have "db_run ''n1'' example_channel_db"
    unfolding example_channel_db_def
    by (rule db_run.channel [OF db_run.channel [OF example_run_db]]; rule channel_step.intros)
  then show ?thesis using db_run_good by (auto simp: good_own_def good_def)
qed


theorem chan_lists_capped_witness:
  "lists_capped (st (snd (access_add ''#a'' ''bob'' ''op'' example_channel_db)))"
proof -
  have "lists_capped (st example_channel_db)"
    by (auto simp: lists_capped_def each_def example_channel new_channel_def list_ok_def wf_channel_def)
  then show ?thesis by (rule chan_lists_capped [THEN conjunct1])
qed

theorem memo_over_cap_is_lost_witness:
  "length (memo_list (snd (memo_send 9 ''bob'' ''al'' ''hi'' False (snd (set_memo_limit ''bob'' (Some 0) example_db)))) ''bob'') = 1"
proof -
  let ?d = "snd (set_memo_limit ''bob'' (Some 0) example_db)"
  have "db_run ''n1'' ?d" by (rule db_run.online [OF example_run_db example_db_lg(1)]) (rule online_step.intros)
  moreover have "writable (lg ?d)"
    using example_db_lg(1) by (simp add: set_memo_limit_def example_db_st example_keys on_account_def on_store_def
      logged_ignore_def appended)
  moreover have "accounts (st ?d) (key ''bob'') =
      Some (example_account\<lparr>a_email := Some ''b@x'', a_memo_limit := Some 0\<rparr>)"
    by (simp add: set_memo_limit_def example_db_st example_keys on_account_def on_store_def logged_ignore_def
      modify_def)
  ultimately show ?thesis
    using memo_over_cap_is_lost [of "''n1''" ?d "''bob''"]
    by (simp add: example_account_def new_account_def memo_cap_def)
qed

theorem default_bot_outlives_deletion_witness:
  "default_bot (snd (bot_add ''b'' ''u'' ''h'' ''g'' (snd (bot_del ''b''
     (snd (set_default_bot (Some ''b'') (snd (bot_add ''b'' ''u'' ''h'' ''g'' example_db)))))))) = Some ''b''"
proof -
  let ?added = "snd (bot_add ''b'' ''u'' ''h'' ''g'' example_db)"
  let ?d = "snd (set_default_bot (Some ''b'') ?added)"
  have w: "writable (lg ?added)" using example_db_lg(1)
    by (simp add: bot_add_def logged_writable appended on_store_def example_db_st store_empty_def Let_def)
  have b: "bots (st ?added) (key ''b'') \<noteq> None" using example_db_lg(1)
    by (simp add: bot_add_def logged_writable appended on_store_def example_db_st store_empty_def Let_def)
  have "db_run ''n1'' ?d"
    by (rule db_run.channel [OF db_run.channel [OF example_run_db]]; rule channel_step.intros)
  moreover have "writable (lg ?d)" "bots (st ?d) (key ''b'') \<noteq> None" "n_default_bot (net (st ?d)) = Some (key ''b'')"
    using w b by (simp_all add: set_default_bot_def logged_writable appended on_net_def on_store_def)
  ultimately show ?thesis
    using default_bot_outlives_deletion [of "''n1''" ?d "''b''"] by (simp add: Let_def)
qed

theorem memo_cancel_newest_unread_witness:
  "memo_list (snd (memo_cancel ''bob'' ''al'' (snd (memo_send 9 ''bob'' ''al'' ''hi'' False example_db)))) ''bob'' = []"
proof -
  let ?m = "\<lparr>me_from = ''al'', me_text = ''hi'', me_ts = 9, me_read = False, me_receipt = False\<rparr>"
  let ?d = "snd (memo_send 9 ''bob'' ''al'' ''hi'' False example_db)"
  have l: "memo_list ?d ''bob'' = [?m]"
    by (simp add: memo_send_def account_set_def logged_writable example_db_lg example_db_st example_keys
      on_account_def on_store_def modify_def memo_list_def example_account_def new_account_def)
  from memo_cancel_newest_unread [where acct = "''bob''" and sender = "''al''" and d = ?d] show ?thesis
    by (auto simp: l remove_at_def split: prod.splits bool.splits)
qed

end
