(* ===== verification/NetworkProps.thy ===== *)
theory NetworkProps
  imports ChannelProps
begin

text \<open>
  What the network-wide lists, the access vocabulary and the ingest seam guarantee
  (src/src/engine/db/network.rs, the flag and privilege types of api/src/lib.rs, \<^verbatim>\<open>Db::ingest\<close> and
  \<^verbatim>\<open>EventLog::append\<close> in src/src/engine/db/mod.rs).
\<close>

subsection \<open>Privileges and flags\<close>

text \<open>The tiers: root grants everything, administration everything below it, operator also auspex.\<close>

definition priv_grants :: "priv \<Rightarrow> priv \<Rightarrow> bool" where
  "priv_grants q p \<longleftrightarrow> q = p \<or> q = Root \<or> q = Admin \<and> p \<noteq> Root \<or> q = Oper \<and> p = Auspex"

lemma privs_has_grants: "privs_has s p \<longleftrightarrow> (\<exists>q. privs_contains s q \<and> priv_grants q p)"
proof -
  have ex: "(\<exists>q. P q) \<longleftrightarrow> P Auspex \<or> P Oper \<or> P Suspend \<or> P Admin \<or> P Root" for P
    by (metis priv.exhaust)
  show ?thesis
    by (cases p) (auto simp only: privs_has_contains ex priv_grants_def priv.distinct simp_thms)
qed

text \<open>An operator holds exactly the privileges the granted names carry through the tiers: a name
  that is not a privilege gives nothing and is reported back, in order.\<close>

theorem granted_privileges:
  shows "(privs_has (privs_from_names ns) p \<longleftrightarrow>
      (\<exists>n \<in> set ns. \<exists>q. priv_from_name n = Some q \<and> priv_grants q p)) \<and>
    snd (privs_parse_names ns) = filter (\<lambda>n. priv_from_name n = None) ns"
proof -
  have "snd (parse_names_from s ns) = filter (\<lambda>n. priv_from_name n = None) ns" for s
    by (induction ns arbitrary: s) (auto simp: case_prod_beta split: option.split)
  then show ?thesis
    by (force simp: privs_has_grants privs_from_names_def privs_parse_names_def parse_names_contains)
qed

text \<open>C25. Flag letters read back as written, and a flag change is all or nothing: it is refused at its
  first character that is neither a sign nor a flag letter, and otherwise each flag is decided by
  its last mention, in either direction, the others being left alone.\<close>

theorem flag_letters_and_deltas:
  shows "(flags_has (flags_parse (flags_letters s)) f \<longleftrightarrow> flags_has s f) \<and>
    (case flags_delta s cs of
       Inl c \<Rightarrow> \<exists>pre suf. cs = pre @ c # suf \<and> \<not> chan_flags.known c \<and> (\<forall>x \<in> set pre. chan_flags.known x)
     | Inr s' \<Rightarrow> flags_has s' f = chan_flags.verdict True f (flags_has s f) cs)"
  using chan_flags.delta_error [of True s cs] chan_flags.delta_verdict [of True s cs _ f]
  by (auto simp: chan_flags.parse_to_letters fs_apply_delta_def split: sum.split)

subsection \<open>Channel capabilities\<close>

lemma caps_default_least: "caps_le caps_default c"
  by (simp add: caps_le_def caps_default_def less_eq_rank_def auto_strength_def)

definition union_of :: "('a \<Rightarrow> bool) \<Rightarrow> ('a \<Rightarrow> caps) \<Rightarrow> 'a list \<Rightarrow> caps \<Rightarrow> caps" where
  "union_of p f xs u = foldl (\<lambda>caps a. if p a then caps_union caps (f a) else caps) u xs"

lemma union_of_Cons: "union_of p f (x # xs) u = union_of p f xs (if p x then caps_union u (f x) else u)"
  by (simp add: union_of_def)

lemma union_of_start: "caps_le u (union_of p f xs u)"
  by (induction xs arbitrary: u)
    (auto simp: union_of_Cons intro: caps_le_trans [OF caps_union_upper(1)] simp: union_of_def [of _ _ "[]"])

lemma union_of_upper: "a \<in> set xs \<Longrightarrow> p a \<Longrightarrow> caps_le (f a) (union_of p f xs u)"
proof (induction xs arbitrary: u)
  case (Cons x xs)
  show ?case
  proof (cases "a = x")
    case True
    then show ?thesis
      using Cons.prems(2) caps_le_trans [OF caps_union_upper(2) union_of_start] by (simp add: union_of_Cons)
  next
    case False
    with Cons show ?thesis by (simp add: union_of_Cons)
  qed
qed simp

lemma union_of_least:
  "caps_le u b \<Longrightarrow> \<forall>a \<in> set xs. p a \<longrightarrow> caps_le (f a) b \<Longrightarrow> caps_le (union_of p f xs u) b"
  by (induction xs arbitrary: u) (auto simp: union_of_Cons caps_union_least union_of_def [of _ _ "[]"])

lemma caps_le_founder: "caps_le x (level_caps ''founder'')"
proof -
  have "auto_strength (Some ''+qo'') = 5" by (simp add: auto_strength_def)
  moreover have "auto_strength m \<le> 5" for m by (simp add: auto_strength_def split: option.split)
  moreover have "rank_num r \<le> rank_num RankFounder" for r by (cases r) simp_all
  ultimately show ?thesis by (simp add: caps_le_def level_caps_def less_eq_rank_def)
qed

text \<open>C20. An account's capabilities on a channel are the least ones that include every access entry
  applying to it, its own or one of a group it founded or holds the channel flag in; the founder
  has all of them, and an account no entry applies to has none.\<close>

theorem channel_caps_least_upper:
  assumes "channels (st d) (key chan) = Some c" and "\<not> eq_ignore_ascii_case (c_founder c) acct"
  shows "(\<forall>a \<in> set (c_access c). access_applies d acct a \<longrightarrow>
        caps_le (level_caps (ca_level a)) (channel_caps d chan acct)) \<and>
    (\<forall>u. (\<forall>a \<in> set (c_access c). access_applies d acct a \<longrightarrow> caps_le (level_caps (ca_level a)) u) \<longrightarrow>
        caps_le (channel_caps d chan acct) u) \<and>
    caps_le (channel_caps d chan acct) (channel_caps d chan (c_founder c)) \<and>
    ((\<forall>a \<in> set (c_access c). \<not> access_applies d acct a) \<longrightarrow> channel_caps d chan acct = caps_default)"
proof -
  have eq: "channel_caps d chan acct =
      union_of (access_applies d acct) (\<lambda>a. level_caps (ca_level a)) (c_access c) caps_default"
    using assms by (simp add: channel_caps_def union_of_def)
  have "channel_caps d chan (c_founder c) = level_caps ''founder''"
    using assms(1) by (simp add: channel_caps_def eq_ignore_ascii_case_def)
  then have top: "caps_le x (channel_caps d chan (c_founder c))" for x by (simp add: caps_le_founder)
  have none: "union_of p f xs u = u" if "\<forall>a \<in> set xs. \<not> p a" for p xs u and f :: "chan_access \<Rightarrow> caps"
    using that by (induction xs arbitrary: u) (simp_all add: union_of_Cons union_of_def [of _ _ "[]"])
  show ?thesis
  proof (intro conjI allI impI ballI)
    fix a assume "a \<in> set (c_access c)" "access_applies d acct a"
    then show "caps_le (level_caps (ca_level a)) (channel_caps d chan acct)"
      unfolding eq by (rule union_of_upper)
  next
    fix u assume "\<forall>a \<in> set (c_access c). access_applies d acct a \<longrightarrow> caps_le (level_caps (ca_level a)) u"
    then show "caps_le (channel_caps d chan acct) u"
      unfolding eq by (rule union_of_least [OF caps_default_least])
  next
    show "caps_le (channel_caps d chan acct) (channel_caps d chan (c_founder c))" by (rule top)
  next
    assume "\<forall>a \<in> set (c_access c). \<not> access_applies d acct a"
    then show "channel_caps d chan acct = caps_default" unfolding eq by (rule none)
  qed
qed

subsection \<open>Session exceptions\<close>

lemma max_by_key_None: "max_by_key f xs = None \<longleftrightarrow> xs = []"
  by (cases xs) (auto split: option.split)

lemma max_by_key_Some: "max_by_key f xs = Some m \<Longrightarrow> m \<in> set xs \<and> (\<forall>x \<in> set xs. f x \<le> f m)"
proof (induction xs arbitrary: m)
  case (Cons x xs)
  show ?case
  proof (cases "max_by_key f xs")
    case None
    then have "xs = []" by (simp only: max_by_key_None)
    with Cons.prems show ?thesis by simp
  next
    case (Some y)
    then have "y \<in> set xs" "\<forall>z \<in> set xs. f z \<le> f y" using Cons.IH by blast+
    with Some Cons.prems show ?thesis by (cases "f x > f y") force+
  qed
qed simp

definition allowance :: "nat \<Rightarrow> nat" where
  "allowance limit = (if limit = 0 then u32_max else limit)"

text \<open>Of the session exceptions matching an address the most generous one counts, 0 standing for no
  limit; with no matching exception there is none.\<close>

theorem most_generous_exception:
  shows "case session_exception_for d ip of
      None \<Rightarrow> \<forall>e \<in> set (n_sess_exceptions (net (st d))). \<not> glob_match (key (se_mask e)) (key ip)
    | Some l \<Rightarrow> (\<exists>e \<in> set (n_sess_exceptions (net (st d))). glob_match (key (se_mask e)) (key ip) \<and> se_limit e = l) \<and>
        (\<forall>e \<in> set (n_sess_exceptions (net (st d))). glob_match (key (se_mask e)) (key ip) \<longrightarrow>
           allowance (se_limit e) \<le> allowance l)"
proof -
  let ?f = "\<lambda>l. if l = 0 then u32_max else l"
  let ?ls = "map se_limit (filter (\<lambda>e. glob_match (key (se_mask e)) (key ip)) (n_sess_exceptions (net (st d))))"
  show ?thesis
  proof (cases "max_by_key ?f ?ls")
    case None
    then have "?ls = []" by (rule max_by_key_None [THEN iffD1])
    with None show ?thesis by (auto simp: session_exception_for_def filter_empty_conv)
  next
    case (Some l)
    from max_by_key_Some [OF this] Some show ?thesis
      by (auto simp: session_exception_for_def allowance_def)
  qed
qed

subsection \<open>The report queue\<close>

lemma position_spec:
  "position p xs = None \<longleftrightarrow> (\<forall>x \<in> set xs. \<not> p x)"
  "position p xs = Some i \<Longrightarrow> i < length xs \<and> p (xs ! i) \<and> (\<forall>j < i. \<not> p (xs ! j))"
  by (auto simp: position_def find_None_iff find_Some_iff all_set_conv_all_nth)

lemma prune_queue_spec:
  assumes "length q \<le> max_queue"
  shows "length (prune_queue is_open q) < max_queue"
    and "\<exists>x \<in> set q. \<not> is_open x \<Longrightarrow> filter is_open (prune_queue is_open q) = filter is_open q"
proof -
  let ?i = "case position (\<lambda>e. \<not> is_open e) q of None \<Rightarrow> 0 | Some i \<Rightarrow> i"
  have i: "?i < length q" if "length q = max_queue"
    using that position_spec(2) [of "\<lambda>e. \<not> is_open e" q]
    by (auto simp: max_queue_def split: option.split)
  show "length (prune_queue is_open q) < max_queue"
    using assms i by (auto simp: prune_queue_def remove_at_def max_queue_def)
  assume "\<exists>x \<in> set q. \<not> is_open x"
  then obtain j where j: "position (\<lambda>e. \<not> is_open e) q = Some j"
    using position_spec(1) [of "\<lambda>e. \<not> is_open e" q] by (cases "position (\<lambda>e. \<not> is_open e) q") auto
  with position_spec(2) [OF j] have "j < length q" "\<not> is_open (q ! j)" by auto
  then have "filter is_open q = filter is_open (take j q) @ filter is_open (drop (Suc j) q)"
    by (subst id_take_nth_drop [of j q]) simp_all
  with j show "filter is_open (prune_queue is_open q) = filter is_open q"
    by (simp add: prune_queue_def remove_at_def)
qed

text \<open>The report queue never holds more than 2000 entries, and filing a report when it is full
  makes room without losing an open report as long as a closed one is there.\<close>

theorem report_queue_bounded:
  assumes "length (n_reports (net (st d))) \<le> max_queue"
  shows "length (n_reports (net (st (snd (report_file now reporter ck target reason d))))) \<le> max_queue \<and>
    ((\<exists>r \<in> set (n_reports (net (st d))). \<not> rp_open r) \<longrightarrow>
       set (filter rp_open (n_reports (net (st d)))) \<subseteq>
         set (n_reports (net (st (snd (report_file now reporter ck target reason d))))))"
proof (cases "cooling now (report_times d (key ck))")
  case True
  with assms show ?thesis by (auto simp: report_file_def)
next
  case False
  let ?q = "prune_queue rp_open (n_reports (net (st d)))"
  obtain r where q: "n_reports (net (st (snd (report_file now reporter ck target reason d)))) = ?q @ [r]"
    using False by (simp add: report_file_def Let_def on_net_def on_store_def logged_ignore_def)
  have "set (filter rp_open (n_reports (net (st d)))) \<subseteq> set ?q"
    if "\<exists>r \<in> set (n_reports (net (st d))). \<not> rp_open r"
    using prune_queue_spec(2) [OF assms that] by (metis filter_is_subset)
  then show ?thesis
    using prune_queue_spec(1) [OF assms, of rp_open] by (auto simp: q)
qed

subsection \<open>What an ingested entry asks of the engine\<close>

text \<open>The state and the report of an ingest, once the log has taken its decision.\<close>

lemma db_ingest_taken:
  assumes "log_ingest e (lg d) = (Inr applied, l)"
  shows "snd (db_ingest now e d) =
      (case applied of None \<Rightarrow> d\<lparr>lg := l\<rparr> | Some ev \<Rightarrow> on_store (apply_event ev) (d\<lparr>lg := l\<rparr>))"
    and "fst (db_ingest now e d) = Inr (
      case takeover_effect (map_option (\<lambda>n. (n, account_of d n)) (watched_name (le_event e)))
             (snd (db_ingest now e d)) of
        Some eff \<Rightarrow> Some eff
      | None \<Rightarrow> (case Option.bind applied suspends of
          Some acct \<Rightarrow> if is_suspended now (snd (db_ingest now e d)) acct then Some (Suspended acct)
            else Option.bind applied (ban_effect now)
        | None \<Rightarrow> Option.bind applied (ban_effect now)))"
proof -
  show s: "snd (db_ingest now e d) =
      (case applied of None \<Rightarrow> d\<lparr>lg := l\<rparr> | Some ev \<Rightarrow> on_store (apply_event ev) (d\<lparr>lg := l\<rparr>))"
    using assms by (auto simp: db_ingest_def Let_def split: option.split)
  show "fst (db_ingest now e d) = Inr (
      case takeover_effect (map_option (\<lambda>n. (n, account_of d n)) (watched_name (le_event e)))
             (snd (db_ingest now e d)) of
        Some eff \<Rightarrow> Some eff
      | None \<Rightarrow> (case Option.bind applied suspends of
          Some acct \<Rightarrow> if is_suspended now (snd (db_ingest now e d)) acct then Some (Suspended acct)
            else Option.bind applied (ban_effect now)
        | None \<Rightarrow> Option.bind applied (ban_effect now)))"
    unfolding s using assms by (cases applied) (auto simp: db_ingest_def Let_def split: option.split)
qed

text \<open>A ban event with time left, and how long: 0 for a permanent one.\<close>

definition ban_in_force :: "nat \<Rightarrow> event \<Rightarrow> string \<Rightarrow> string \<Rightarrow> string \<Rightarrow> nat \<Rightarrow> string \<Rightarrow> bool" where
  "ban_in_force now ev kind msk setter dur reason \<longleftrightarrow>
     (\<exists>ts exp. ev = NetEvent (AkillAdded kind msk setter reason ts exp) \<and>
        (case exp of None \<Rightarrow> dur = 0 | Some x \<Rightarrow> now < x \<and> dur = x - now))"

lemma ban_effect_justified:
  "ban_effect now ev = Some (BanAdded kind msk setter dur reason) \<Longrightarrow>
     ban_in_force now ev kind msk setter dur reason"
  "ban_effect now ev = Some (BanLifted kind msk) \<Longrightarrow> ev = NetEvent (AkillRemoved kind msk)"
  "ban_effect now ev \<noteq> Some (TakenOver n)" "ban_effect now ev \<noteq> Some (Dropped n)"
  "ban_effect now ev \<noteq> Some (Suspended n)"
  by (induction now ev rule: ban_effect.induct; auto simp: ban_in_force_def split: option.splits if_splits)+

text \<open>Each side effect reported for an ingested entry is justified by the store before and after:
  sessions are taken over only when the account moved to another home with another credential,
  dropped only when it existed and is gone, suspended only under a suspension in force, and a
  ban is installed only while it has time left, for exactly that time; a failed write changes
  nothing.\<close>

theorem ingest_effects_justified:
  shows "let d' = snd (db_ingest now e d) in
    case fst (db_ingest now e d) of
      Inl _ \<Rightarrow> st d' = st d
    | Inr None \<Rightarrow> True
    | Inr (Some eff) \<Rightarrow> (case eff of
        TakenOver n \<Rightarrow> \<exists>p c. account_of d n = Some p \<and> account_of d' n = Some c \<and>
          a_home c \<noteq> a_home p \<and> a_scram256 c \<noteq> a_scram256 p
      | Dropped n \<Rightarrow> account_of d n \<noteq> None \<and> account_of d' n = None
      | Suspended n \<Rightarrow> is_suspended now d' n
      | BanAdded kind msk setter dur reason \<Rightarrow> ban_in_force now (le_event e) kind msk setter dur reason
      | BanLifted kind msk \<Rightarrow> le_event e = NetEvent (AkillRemoved kind msk))"
proof (cases "log_ingest e (lg d)")
  case (Pair r l)
  show ?thesis
  proof (cases r)
    case (Inl x)
    with Pair show ?thesis by (simp add: db_ingest_def Let_def)
  next
    case (Inr applied)
    let ?t = "takeover_effect (map_option (\<lambda>n. (n, account_of d n)) (watched_name (le_event e)))
      (snd (db_ingest now e d))"
    have app: "applied = None \<or> applied = Some (le_event e)"
      using Pair Inr by (auto simp: log_ingest_def Let_def split: if_splits prod.splits bool.splits)
    note fst = db_ingest_taken(2) [OF Pair [unfolded Inr], of now]
    show ?thesis
    proof (cases ?t)
      case (Some eff)
      then show ?thesis
        unfolding Let_def fst by (auto simp: takeover_effect_def split: option.splits if_splits)
    next
      case None
      with app show ?thesis
        unfolding Let_def fst using ban_effect_justified [of now "le_event e"]
        by (cases "suspends (le_event e)") (auto simp del: ban_effect.simps split: option.splits ingest_effect.splits)
    qed
  qed
qed

subsection \<open>Writes that do not reach the log, and one that does\<close>

text \<open>In read-only lockdown an operator grant is neither refused nor recorded: it takes effect at
  once and is gone after a restart.\<close>

theorem readonly_grant_is_lost:
  assumes "db_run own d" and "l_readonly (lg d)"
  shows "oper_privs_of (oper_grant acct names None d) acct now = Some (privs_from_names names) \<and>
    st (db_open (l_disk (lg (oper_grant acct names None d))) own) = st d"
proof -
  have g: "good (st d) (lg d)" "l_origin (lg d) = own"
    using db_run_good [OF assms(1)] by (simp_all add: good_own_def)
  have lg: "lg (oper_grant acct names None d) = lg d"
    using assms(2) by (simp add: oper_grant_def logged_ignore_def on_net_def on_store_def log_append_def)
  have "st (db_open (l_disk (lg d)) own) = st d"
    using g reopened_events [of "lg d"] by (auto simp: good_def in_step_replay db_open_def Let_def)
  then show ?thesis
    unfolding lg by (simp add: oper_privs_of_def oper_grant_def on_net_def on_store_def live_until_def)
qed

lemma log_open_entries: "l_entries (log_open es own) = es"
proof -
  have "l_entries (fold (\<lambda>e l. (absorb e l)\<lparr>l_entries := l_entries l @ [e]\<rparr>) es l0) = l_entries l0 @ es" for l0
    by (induction es arbitrary: l0) simp_all
  then show ?thesis by (simp add: log_open_def log_empty_def)
qed

text \<open>C26. A write that fails at its final flush is reported as failed but stays in the file: the next
  write takes the same sequence number, and a restart applies the refused event before it.\<close>

theorem unflushed_write_comes_back:
  assumes "log_ok l" and "\<not> l_readonly l" and "l_io l = [Unsynced]"
    and "scope ev = Global" and "scope ev2 = Global"
  shows "let l1 = snd (log_append ev l); l2 = snd (log_append ev2 l1) in
    fst (log_append ev l) = Inl WriteFailed \<and> fst (log_append ev2 l1) = Inr () \<and>
    (\<exists>e e2. l_disk l2 = l_disk l @ [e, e2] \<and> le_event e = ev \<and> le_event e2 = ev2 \<and>
       le_origin e = le_origin e2 \<and> entry_cursor e = entry_cursor e2) \<and>
    log_events l2 = log_events l @ [ev2] \<and>
    log_events (log_open (l_disk l2) (l_origin l)) = log_events l @ [ev, ev2]"
proof -
  have d: "l_disk l = l_entries l" using log_okD(6) [OF assms(1)] .
  show ?thesis
    using assms(2-5)
    by (simp add: log_append_def Let_def persist.simps next_seq_def entry_cursor_def log_notify_def
      log_events_def log_open_entries d split: option.split prod.split)
qed

subsection \<open>The theorems at the example\<close>

theorem channel_caps_least_upper_witness:
  "caps_le (level_caps ''op'') (channel_caps (snd (access_add ''#a'' ''bob'' ''op'' example_channel_db)) ''#a'' ''bob'')"
proof -
  let ?a = "\<lparr>ca_account = ''bob'', ca_level = ''op''\<rparr>"
  let ?c = "(new_channel ''#a'' ''al'' 7)\<lparr>c_successor := Some ''bob'', c_access := [?a]\<rparr>"
  let ?d = "snd (access_add ''#a'' ''bob'' ''op'' example_channel_db)"
  have "channels (st ?d) (key ''#a'') = Some ?c"
    by (simp add: access_add_def example_channel example_channel_keys logged_writable on_channel_def on_store_def
      modify_def new_channel_def max_chan_list_def)
  moreover have "\<not> eq_ignore_ascii_case (c_founder ?c) ''bob''"
    using example_channel_keys(2) by (simp add: new_channel_def eq_ignore_ascii_case_def)
  ultimately have "\<forall>a \<in> set (c_access ?c). access_applies ?d ''bob'' a \<longrightarrow>
      caps_le (level_caps (ca_level a)) (channel_caps ?d ''#a'' ''bob'')"
    by (rule channel_caps_least_upper [THEN conjunct1])
  then show ?thesis by (simp add: access_applies_def eq_ignore_ascii_case_def)
qed

theorem report_queue_bounded_witness:
  "length (n_reports (net (st (snd (report_file 9 ''al'' ''al'' ''bob'' ''spam'' example_db))))) \<le> max_queue"
proof -
  have "length (n_reports (net (st example_db))) \<le> max_queue"
    by (simp add: example_db_st net_default_def store_empty_def)
  then show ?thesis by (rule report_queue_bounded [THEN conjunct1])
qed

theorem readonly_grant_is_lost_witness:
  "oper_privs_of (oper_grant ''bob'' [''root''] None
      (example_db\<lparr>lg := (lg example_db)\<lparr>l_signing := None, l_readonly := True, l_outbound := None, l_io := []\<rparr>\<rparr>))
    ''bob'' 9 = Some (privs_from_names [''root''])"
  by (rule readonly_grant_is_lost [OF db_run.configure [OF example_run_db], THEN conjunct1]) simp_all

theorem unflushed_write_comes_back_witness:
  "log_events (log_open (l_disk (snd (log_append (AccountDropped ''al'')
      (snd (log_append (AccountDropped ''bob'') ((log_empty ''n1'')\<lparr>l_io := [Unsynced]\<rparr>)))))) ''n1'') =
    [AccountDropped ''bob'', AccountDropped ''al'']"
proof -
  let ?l = "(log_empty ''n1'')\<lparr>l_io := [Unsynced]\<rparr>"
  have "log_ok (log_empty ''n1'')" using log_run_ok [OF log_run.start] by blast
  then have "log_ok ?l" by (simp add: log_ok_def)
  from unflushed_write_comes_back [OF this, of "AccountDropped ''bob''" "AccountDropped ''al''"]
  show ?thesis by (simp add: Let_def log_empty_def log_events_def)
qed

theorem flag_letters_and_deltas_witness:
  "flags_delta 0 ''+oxv'' = Inl (CHR ''x'') \<and> \<not> chan_flags.known (CHR ''x'')"
proof -
  have "flags_delta 0 ''+oxv'' = Inl (CHR ''x'')" by code_simp
  with flag_letters_and_deltas [of 0 FOp "''+oxv''"] show ?thesis by auto
qed

theorem most_generous_exception_witness:
  "\<exists>l. session_exception_for (session_except_add ''*'' 5 [] example_db) ''1'' = Some l \<and> allowance 5 \<le> allowance l"
proof -
  let ?d = "session_except_add ''*'' 5 [] example_db"
  let ?e = "\<lparr>se_mask = ''*'', se_limit = 5, se_reason = []\<rparr>"
  have e: "?e \<in> set (n_sess_exceptions (net (st ?d)))"
    by (simp add: session_except_add_def on_net_def on_store_def)
  have "key ''*'' = ''*''" "key ''1'' = ''1''" "map to_lowercase ''*'' = ''*''" "map to_lowercase ''1'' = ''1''"
    by code_simp+
  then have "glob_match (key ''*'') (key ''1'')" by (simp add: glob_match_def glob_loop.simps)
  with e most_generous_exception [of ?d "''1''"] show ?thesis
    by (cases "session_exception_for ?d ''1''") fastforce+
qed

end
