(* ===== verification/Strings.thy ===== *)
theory Strings
  imports Prelude
begin

text \<open>
  The \<^verbatim>\<open>str\<close> methods of the Rust standard library that the protocol-facing code uses: splitting
  at a character, prefixes, replacement of a pattern, and decimal numbers printed and parsed.
\<close>

named_theorems str_simps "splitting and printing of strings"

subsection \<open>Splitting\<close>

definition strip_prefix :: "string \<Rightarrow> string \<Rightarrow> string option" where
  "strip_prefix p s = (if take (length p) s = p then Some (drop (length p) s) else None)"

definition starts_with :: "string \<Rightarrow> string \<Rightarrow> bool" where
  "starts_with p s \<longleftrightarrow> take (length p) s = p"

text \<open>\<^verbatim>\<open>split_once(c)\<close> cuts at the first \<open>c\<close>, \<^verbatim>\<open>split(c)\<close> at every one.\<close>

fun split_once :: "char \<Rightarrow> string \<Rightarrow> (string \<times> string) option" where
  "split_once c [] = None"
| "split_once c (x # xs) =
     (if x = c then Some ([], xs) else map_option (\<lambda>(a, b). (x # a, b)) (split_once c xs))"

fun split_on :: "'a \<Rightarrow> 'a list \<Rightarrow> 'a list list" where
  "split_on c [] = [[]]"
| "split_on c (x # xs) =
     (if x = c then [] # split_on c xs
      else case split_on c xs of [] \<Rightarrow> [[x]] | f # fs \<Rightarrow> (x # f) # fs)"

fun join_with :: "'a \<Rightarrow> 'a list list \<Rightarrow> 'a list" where
  "join_with c [] = []"
| "join_with c [f] = f"
| "join_with c (f # g # fs) = f @ c # join_with c (g # fs)"

text \<open>\<^verbatim>\<open>splitn(3, c)\<close>, with at least three fields.\<close>

definition split3 :: "char \<Rightarrow> string \<Rightarrow> (string \<times> string \<times> string) option" where
  "split3 c s =
     (case split_once c s of None \<Rightarrow> None
      | Some (a, r) \<Rightarrow> map_option (\<lambda>(b, d). (a, b, d)) (split_once c r))"

text \<open>\<^verbatim>\<open>rsplit_once(pat)\<close> cuts at the last occurrence of a string.\<close>

fun rsplit_sub :: "string \<Rightarrow> string \<Rightarrow> (string \<times> string) option" where
  "rsplit_sub p [] = None"
| "rsplit_sub p (x # xs) =
     (case rsplit_sub p xs of
        Some (a, b) \<Rightarrow> Some (x # a, b)
      | None \<Rightarrow> map_option (Pair []) (strip_prefix p (x # xs)))"

fun contains_sub :: "string \<Rightarrow> string \<Rightarrow> bool" where
  "contains_sub p [] \<longleftrightarrow> p = []"
| "contains_sub p (x # xs) \<longleftrightarrow> starts_with p (x # xs) \<or> contains_sub p xs"

lemma split_once_append [str_simps]:
  "c \<notin> set a \<Longrightarrow> split_once c (a @ c # b) = Some (a, b)"
  by (induction a) auto

lemma split_once_None [str_simps]: "split_once c s = None \<longleftrightarrow> c \<notin> set s"
  by (induction s) auto

lemma split_once_Some: "split_once c s = Some (a, b) \<Longrightarrow> s = a @ c # b \<and> c \<notin> set a"
  by (induction s arbitrary: a b) (auto split: if_splits)

lemma split_on_nonempty [simp]: "split_on c s \<noteq> []"
  by (induction s) (auto split: list.splits)

lemma split_on_append [str_simps]:
  "c \<notin> set a \<Longrightarrow> split_on c (a @ c # b) = a # split_on c b"
  by (induction a) auto

lemma split_on_single [str_simps]: "c \<notin> set a \<Longrightarrow> split_on c a = [a]"
  by (induction a) auto

lemma split_on_join:
  "fs \<noteq> [] \<Longrightarrow> \<forall>f \<in> set fs. c \<notin> set f \<Longrightarrow> split_on c (join_with c fs) = fs"
  by (induction c fs rule: join_with.induct) (auto simp: str_simps)

lemma join_split_on: "join_with c (split_on c s) = s"
proof (induction s)
  case (Cons x xs)
  then obtain f fs where "split_on c xs = f # fs"
    by (cases "split_on c xs") auto
  with Cons show ?case by (cases fs) auto
qed simp

lemma split_on_fields: "f \<in> set (split_on c s) \<Longrightarrow> c \<notin> set f"
  by (induction s arbitrary: f) (auto split: if_splits list.splits)

lemma strip_prefix_append [str_simps]: "strip_prefix p (p @ s) = Some s"
  by (simp add: strip_prefix_def)

lemma strip_prefix_Some: "strip_prefix p s = Some r \<longleftrightarrow> s = p @ r"
  by (auto simp: strip_prefix_def split: if_splits) (metis append_take_drop_id)

lemma starts_with_iff: "starts_with p s \<longleftrightarrow> (\<exists>r. s = p @ r)"
  by (auto simp: starts_with_def) (metis append_take_drop_id)

lemma rsplit_sub_absent:
  "hd p \<notin> set s \<Longrightarrow> p \<noteq> [] \<Longrightarrow> rsplit_sub p s = None"
  by (induction s) (auto simp: strip_prefix_def neq_Nil_conv)

lemma rsplit_sub_append:
  assumes "p \<noteq> []" "hd p \<notin> set (tl p @ b)"
  shows "rsplit_sub p (a @ p @ b) = Some (a, b)"
proof (induction a)
  case Nil
  from assms obtain x q where p: "p = x # q" "x \<notin> set (q @ b)" by (cases p) auto
  have "rsplit_sub p (q @ b) = None"
    using rsplit_sub_absent [of p "q @ b"] p by simp
  with p show ?case using strip_prefix_append [of p b] by simp
qed simp

lemma contains_sub_iff: "contains_sub p s \<longleftrightarrow> (\<exists>a b. s = a @ p @ b)"
proof (induction s)
  case (Cons x xs)
  have "(\<exists>a b. x # xs = a @ p @ b) \<longleftrightarrow> (\<exists>b. x # xs = p @ b) \<or> (\<exists>a b. xs = a @ p @ b)"
  proof
    assume "\<exists>a b. x # xs = a @ p @ b"
    then obtain a b where "x # xs = a @ p @ b" by blast
    then show "(\<exists>b. x # xs = p @ b) \<or> (\<exists>a b. xs = a @ p @ b)" by (cases a) auto
  next
    assume "(\<exists>b. x # xs = p @ b) \<or> (\<exists>a b. xs = a @ p @ b)"
    then show "\<exists>a b. x # xs = a @ p @ b" by (metis append_Nil append_Cons)
  qed
  with Cons show ?case by (simp only: contains_sub.simps starts_with_iff)
qed simp

lemma rsplit_sub_Some: "rsplit_sub p s = Some (a, b) \<Longrightarrow> s = a @ p @ b"
proof (induction s arbitrary: a)
  case (Cons x xs)
  then show ?case by (cases "rsplit_sub p xs") (auto simp: strip_prefix_Some)
qed simp

subsection \<open>Replacement\<close>

text \<open>\<^verbatim>\<open>replace(pat, rep)\<close>, left to right without overlap, for a non-empty pattern.\<close>

function replace_all :: "char \<Rightarrow> string \<Rightarrow> string \<Rightarrow> string \<Rightarrow> string" where
  "replace_all c p rep [] = []"
| "replace_all c p rep (x # xs) =
     (if x = c \<and> take (length p) xs = p
      then rep @ replace_all c p rep (drop (length p) xs)
      else x # replace_all c p rep xs)"
  by pat_completeness auto
termination by (relation "measure (\<lambda>(_, _, _, s). length s)") auto

lemma replace_all_skip:
  "c \<notin> set a \<Longrightarrow> replace_all c p rep (a @ s) = a @ replace_all c p rep s"
  by (induction a) auto

lemma replace_all_hit:
  "replace_all c p rep (c # p @ s) = rep @ replace_all c p rep s"
  by simp

lemma replace_all_absent: "c \<notin> set a \<Longrightarrow> replace_all c p rep a = a"
  using replace_all_skip [of c a p rep "[]"] by simp

subsection \<open>Decimal numbers\<close>

definition digit_char :: "nat \<Rightarrow> char" where
  "digit_char n = char_of (48 + n)"

definition digit_value :: "char \<Rightarrow> nat" where
  "digit_value c = code c - 48"

fun show_nat :: "nat \<Rightarrow> string" where
  "show_nat n = (if n < 10 then [digit_char n] else show_nat (n div 10) @ [digit_char (n mod 10)])"

declare show_nat.simps [simp del]

definition digits_value :: "string \<Rightarrow> nat" where
  "digits_value s = foldl (\<lambda>n c. 10 * n + digit_value c) 0 s"

text \<open>\<^verbatim>\<open>str::parse\<close> for an unsigned type with the given largest value: an optional plus sign, then
  one or more digits.\<close>

definition parse_unsigned :: "nat \<Rightarrow> string \<Rightarrow> nat option" where
  "parse_unsigned cap s =
     (let d = (case s of [] \<Rightarrow> s | c # r \<Rightarrow> if c = CHR ''+'' then r else s) in
      if d = [] \<or> \<not> list_all is_ascii_digit d \<or> digits_value d > cap then None
      else Some (digits_value d))"

lemma code_digit_char: "n < 10 \<Longrightarrow> code (digit_char n) = 48 + n"
  by (simp add: code_def digit_char_def)

lemma digit_char_digit: "n < 10 \<Longrightarrow> is_ascii_digit (digit_char n) \<and> digit_value (digit_char n) = n"
  by (simp add: is_ascii_digit_def digit_value_def code_digit_char)

lemma show_nat_digits: "list_all is_ascii_digit (show_nat n)"
proof (induction n rule: show_nat.induct)
  case (1 n)
  then show ?case by (cases "n < 10") (simp_all add: show_nat.simps [of n] digit_char_digit)
qed

lemma show_nat_nonempty [simp]: "show_nat n \<noteq> []"
  by (simp add: show_nat.simps [of n])

lemma digits_value_snoc: "digits_value (s @ [c]) = 10 * digits_value s + digit_value c"
  by (simp add: digits_value_def)

lemma digits_value_show [simp]: "digits_value (show_nat n) = n"
proof (induction n rule: show_nat.induct)
  case (1 n)
  show ?case
  proof (cases "n < 10")
    case True
    then show ?thesis
      by (simp add: show_nat.simps [of n] digits_value_def digit_char_digit)
  next
    case False
    with 1 have "digits_value (show_nat (n div 10)) = n div 10" by simp
    with False show ?thesis
      by (simp add: show_nat.simps [of n] digits_value_snoc digit_char_digit)
  qed
qed

lemma not_digit_not_in_show: "\<not> is_ascii_digit c \<Longrightarrow> c \<notin> set (show_nat n)"
  using show_nat_digits [of n] by (auto simp: list_all_iff)

lemma not_digits [simp]:
  "\<not> is_ascii_digit CHR ''+''" "\<not> is_ascii_digit CHR '',''" "\<not> is_ascii_digit CHR ''=''"
  "\<not> is_ascii_digit CHR '' ''" "\<not> is_ascii_digit CHR '':''"
  by (simp_all add: is_ascii_digit_def code_def)

theorem parse_show: "n \<le> cap \<Longrightarrow> parse_unsigned cap (show_nat n) = Some n"
proof -
  assume n: "n \<le> cap"
  have "hd (show_nat n) \<noteq> CHR ''+''"
    using not_digit_not_in_show [of "CHR ''+''" n] by (metis hd_in_set not_digits(1) show_nat_nonempty)
  then have "(case show_nat n of [] \<Rightarrow> show_nat n
                | c # r \<Rightarrow> if c = CHR ''+'' then r else show_nat n) = show_nat n"
    by (cases "show_nat n") auto
  with n show ?thesis
    using show_nat_digits [of n] by (simp add: parse_unsigned_def)
qed

lemma show_nat_inj: "show_nat m = show_nat n \<Longrightarrow> m = n"
  by (metis digits_value_show)

lemma parse_unsigned_bound: "parse_unsigned cap s = Some n \<Longrightarrow> n \<le> cap"
  by (auto simp: parse_unsigned_def Let_def split: if_splits)

end
