(* ===== verification/ExtBan.thy ===== *)
theory ExtBan
  imports Strings Access Glob
begin

unbundle bit_operations_syntax

text \<open>
  The ban vocabulary of api/src/lib.rs: InspIRCd's extended bans, the reading of an auto-kick mask
  and its matching against a live user, channel modes with their parameters, and the small
  validators (e-mail address, nickname, duration) the commands share.
\<close>

subsection \<open>Channel modes and parameters\<close>

definition chanmode_takes_param :: "char \<Rightarrow> bool \<Rightarrow> bool" where
  "chanmode_takes_param m adding =
     (if m \<in> set ''beIqaohvk'' then True
      else if m \<in> set ''lLfjJFH'' then adding
      else False)"

definition status_mode_letters :: string where "status_mode_letters = ''qaohv''"

datatype chan_mode_kind = ModeList | ParamAlways | ParamSet | Simple | Prefix char nat

record chan_mode_cap =
  cm_letter :: char
  cm_kind :: chan_mode_kind

definition takes_param :: "chan_mode_cap \<Rightarrow> bool \<Rightarrow> bool" where
  "takes_param c adding = (case cm_kind c of Simple \<Rightarrow> False | ParamSet \<Rightarrow> adding | _ \<Rightarrow> True)"

definition is_prefix :: "chan_mode_cap \<Rightarrow> bool" where
  "is_prefix c = (case cm_kind c of Prefix _ _ \<Rightarrow> True | _ \<Rightarrow> False)"

subsection \<open>Extended bans\<close>

datatype ext_kind =
  ExtAccount | ExtUnauthed | ExtRealname | ExtRealmask | ExtServer | ExtFingerprint | ExtChannel
| ExtPassive

record ext_ban =
  eb_name :: string
  eb_letter :: char
  eb_kind :: ext_kind

definition extbans :: "ext_ban list" where
  "extbans = map (\<lambda>(n, l, k). \<lparr>eb_name = n, eb_letter = l, eb_kind = k\<rparr>)
     [(''account'', CHR ''R'', ExtAccount), (''unauthed'', CHR ''U'', ExtUnauthed),
      (''realname'', CHR ''r'', ExtRealname), (''realmask'', CHR ''a'', ExtRealmask),
      (''server'', CHR ''s'', ExtServer), (''fingerprint'', CHR ''z'', ExtFingerprint),
      (''channel'', CHR ''j'', ExtChannel), (''country'', CHR ''G'', ExtPassive),
      (''asn'', CHR ''b'', ExtPassive), (''class'', CHR ''n'', ExtPassive),
      (''gateway'', CHR ''w'', ExtPassive), (''bot'', CHR ''B'', ExtPassive),
      (''oper'', CHR ''o'', ExtPassive), (''opertype'', CHR ''O'', ExtPassive),
      (''securitygroup'', CHR ''g'', ExtPassive), (''score'', CHR ''y'', ExtPassive),
      (''team'', CHR ''t'', ExtPassive), (''redirect'', CHR ''d'', ExtPassive)]"

definition extban_lookup :: "string \<Rightarrow> ext_ban option" where
  "extban_lookup token =
     (case token of
        [c] \<Rightarrow> find (\<lambda>e. eb_letter e = c) extbans
      | _ \<Rightarrow> find (\<lambda>e. eq_ignore_ascii_case (eb_name e) token) extbans)"

definition matchable :: "ext_ban \<Rightarrow> bool" where
  "matchable e \<longleftrightarrow> eb_kind e \<noteq> ExtPassive"

record extban_cap =
  ec_name :: string
  ec_letter :: "char option"
  ec_acting :: bool

datatype akick_mask = MaskHost string | MaskExt ext_ban string | MaskUnknown string

definition akick_parse :: "string \<Rightarrow> akick_mask" where
  "akick_parse msk =
     (case split_once CHR '':'' msk of
        None \<Rightarrow> MaskHost msk
      | Some (n, v) \<Rightarrow>
          if n = [] \<or> CHR ''!'' \<in> set n \<or> CHR ''@'' \<in> set n then MaskHost msk
          else case extban_lookup n of Some eb \<Rightarrow> MaskExt eb v | None \<Rightarrow> MaskUnknown n)"

definition ircd_enforced :: "string \<Rightarrow> bool" where
  "ircd_enforced msk =
     (case akick_parse msk of
        MaskHost _ \<Rightarrow> False | MaskExt eb _ \<Rightarrow> \<not> matchable eb | MaskUnknown _ \<Rightarrow> True)"

record ban_target =
  bt_nick :: string
  bt_ident :: string
  bt_host :: string
  bt_realhost :: string
  bt_ip :: string
  bt_gecos :: string
  bt_account :: "string option"
  bt_server :: string
  bt_fingerprint :: "string option"
  bt_channels :: "string list"

definition host_form :: "ban_target \<Rightarrow> string \<Rightarrow> string" where
  "host_form t host = bt_nick t @ ''!'' @ bt_ident t @ ''@'' @ host"

definition host_hit :: "string \<Rightarrow> ban_target \<Rightarrow> bool" where
  "host_hit g t \<longleftrightarrow> glob_match g (host_form t (bt_host t)) \<or>
     glob_match g (host_form t (bt_realhost t)) \<or> glob_match g (host_form t (bt_ip t))"

definition akick_matches :: "string \<Rightarrow> ban_target \<Rightarrow> bool" where
  "akick_matches msk t =
     (case akick_parse msk of
        MaskHost g \<Rightarrow> host_hit g t
      | MaskExt eb v \<Rightarrow> (case eb_kind eb of
            ExtAccount \<Rightarrow> (case bt_account t of None \<Rightarrow> False | Some a \<Rightarrow> glob_match v a)
          | ExtUnauthed \<Rightarrow> bt_account t = None \<and> host_hit v t
          | ExtRealname \<Rightarrow> glob_match v (bt_gecos t)
          | ExtRealmask \<Rightarrow> (case split_once CHR ''+'' v of None \<Rightarrow> False
              | Some (h, r) \<Rightarrow> host_hit h t \<and> glob_match r (bt_gecos t))
          | ExtServer \<Rightarrow> bt_server t \<noteq> [] \<and> glob_match v (bt_server t)
          | ExtFingerprint \<Rightarrow> (case bt_fingerprint t of None \<Rightarrow> False | Some f \<Rightarrow> glob_match v f)
          | ExtChannel \<Rightarrow> list_ex (glob_match v) (bt_channels t)
          | ExtPassive \<Rightarrow> False)
      | MaskUnknown _ \<Rightarrow> False)"

text \<open>What the linked ircd advertised (\<^verbatim>\<open>live_extbans\<close>, \<^verbatim>\<open>live_chanmodes\<close> of \<^verbatim>\<open>Db\<close>), and the questions
  the commands ask of it.\<close>

record live_caps =
  lv_extbans :: "extban_cap list option"
  lv_chanmodes :: "chan_mode_cap list option"

definition set_live_extbans :: "extban_cap list \<Rightarrow> live_caps \<Rightarrow> live_caps" where
  "set_live_extbans es v = v\<lparr>lv_extbans := Some es\<rparr>"

definition set_live_chanmodes :: "chan_mode_cap list \<Rightarrow> live_caps \<Rightarrow> live_caps" where
  "set_live_chanmodes ms v = v\<lparr>lv_chanmodes := Some ms\<rparr>"

definition extban_offered :: "live_caps \<Rightarrow> string \<Rightarrow> bool" where
  "extban_offered v name =
     (case lv_extbans v of None \<Rightarrow> True
      | Some es \<Rightarrow> list_ex (\<lambda>e. eq_ignore_ascii_case (ec_name e) name) es)"

definition live_extbans :: "live_caps \<Rightarrow> extban_cap list" where
  "live_extbans v = (case lv_extbans v of None \<Rightarrow> [] | Some es \<Rightarrow> es)"

definition live_extban_lookup :: "live_caps \<Rightarrow> string \<Rightarrow> extban_cap option" where
  "live_extban_lookup v token =
     (case lv_extbans v of None \<Rightarrow> None
      | Some es \<Rightarrow> (case token of
            [c] \<Rightarrow> find (\<lambda>e. ec_letter e = Some c) es
          | _ \<Rightarrow> find (\<lambda>e. eq_ignore_ascii_case (ec_name e) token) es))"

definition live_takes_param :: "live_caps \<Rightarrow> char \<Rightarrow> bool \<Rightarrow> bool" where
  "live_takes_param v m adding =
     (case Option.bind (lv_chanmodes v) (find (\<lambda>c. cm_letter c = m)) of
        Some c \<Rightarrow> takes_param c adding
      | None \<Rightarrow> chanmode_takes_param m adding)"

definition status_modes :: "live_caps \<Rightarrow> string" where
  "status_modes v =
     (case lv_chanmodes v of
        Some ms \<Rightarrow> map cm_letter (filter is_prefix ms)
      | None \<Rightarrow> status_mode_letters)"

subsection \<open>Spam filters and validators\<close>

definition filter_actions :: "string list" where
  "filter_actions =
     [''gline'', ''zline'', ''block'', ''silent'', ''kill'', ''shun'', ''warn'', ''none'']"

definition is_filter_action :: "string \<Rightarrow> bool" where
  "is_filter_action a \<longleftrightarrow> list_ex (\<lambda>x. eq_ignore_ascii_case x a) filter_actions"

definition encode_filter :: "string \<Rightarrow> string \<Rightarrow> string \<Rightarrow> nat \<Rightarrow> string \<Rightarrow> string" where
  "encode_filter pattern action flags duration reason =
     map (\<lambda>c. if c = CHR '' '' then CHR 0x07 else c) pattern @ '' '' @ key action @ '' '' @
     (if flags = [] then ''-'' else flags) @ '' '' @ show_nat duration @ '' :'' @ reason"

definition is_control :: "char \<Rightarrow> bool" where
  "is_control c \<longleftrightarrow> code c < 32 \<or> (127 \<le> code c \<and> code c < 160)"

definition valid_email :: "string \<Rightarrow> bool" where
  "valid_email addr =
     (if addr = [] \<or> utf8_len addr > 254 then False
      else if list_ex (\<lambda>c. is_control c \<or> c = CHR '' '') addr then False
      else case split_on CHR ''@'' addr of
          [local_part, domain] \<Rightarrow> local_part \<noteq> [] \<and> domain \<noteq> []
        | _ \<Rightarrow> False)"

definition nick_special :: string where
  "nick_special = [CHR ''['', CHR '']'', CHR 0x5C, CHR 0x60, CHR ''_'', CHR ''^'', CHR ''{'', CHR ''|'', CHR ''}'']"

definition valid_nick :: "string \<Rightarrow> bool" where
  "valid_nick nick =
     (case nick of [] \<Rightarrow> False
      | c # _ \<Rightarrow> length nick \<le> 30 \<and> (is_ascii_alphabetic c \<or> c \<in> set nick_special) \<and>
          list_all (\<lambda>c. is_ascii_alphabetic c \<or> is_ascii_digit c \<or> c \<in> set nick_special \<or> c = CHR ''-'') nick)"

text \<open>\<^verbatim>\<open>u64::checked_mul\<close> makes an overflowing duration no duration at all.\<close>

definition checked_mul64 :: "nat \<Rightarrow> nat \<Rightarrow> nat option" where
  "checked_mul64 a b = (if a * b \<le> u64_max then Some (a * b) else None)"

definition duration_unit :: "char \<Rightarrow> nat option" where
  "duration_unit c =
     (if c = CHR ''d'' \<or> c = CHR ''D'' then Some 86400
      else if c = CHR ''h'' \<or> c = CHR ''H'' then Some 3600
      else if c = CHR ''m'' \<or> c = CHR ''M'' then Some 60
      else if c = CHR ''s'' \<or> c = CHR ''S'' then Some 1
      else None)"

definition parse_duration :: "string \<Rightarrow> nat option" where
  "parse_duration s =
     (if s = [] then None
      else case duration_unit (last s) of
        Some u \<Rightarrow> Option.bind (parse_unsigned u64_max (butlast s)) (\<lambda>n. checked_mul64 n u)
      | None \<Rightarrow>
          if is_ascii_digit (last s)
          then Option.bind (parse_unsigned u64_max s) (\<lambda>n. checked_mul64 n 1)
          else None)"

datatype plural = One | Other

definition plural_category :: "string \<Rightarrow> nat \<Rightarrow> plural" where
  "plural_category lang n =
     (if (if lang = ''fr'' \<or> lang = ''pt-br'' then n = 0 \<or> n = 1 else n = 1) then One else Other)"

subsection \<open>Facts\<close>

lemma matchable_iff_kind: "matchable eb \<longleftrightarrow> eb_kind eb \<noteq> ExtPassive"
  by (simp add: matchable_def)

text \<open>A mask is left to the ircd exactly when echo's own matcher can never hit it by kind.\<close>

lemma ircd_enforced_never_matches: "ircd_enforced msk \<Longrightarrow> \<not> akick_matches msk t"
  by (auto simp: ircd_enforced_def akick_matches_def matchable_def split: akick_mask.splits ext_kind.splits)

text \<open>Names and letters of the table identify one ban each.\<close>

lemma extban_names_distinct: "distinct (map (\<lambda>e. key (eb_name e)) extbans)"
  and extban_letters_distinct: "distinct (map eb_letter extbans)"
  by (simp_all add: extbans_def key_def ascii_simps)

lemma find_distinct_key:
  "distinct (map f xs) \<Longrightarrow> x \<in> set xs \<Longrightarrow> find (\<lambda>y. f y = f x) xs = Some x"
  by (induction xs) (auto split: if_splits)

lemma extban_lookup_letter: "eb \<in> set extbans \<Longrightarrow> extban_lookup [eb_letter eb] = Some eb"
  using find_distinct_key [OF extban_letters_distinct] by (simp add: extban_lookup_def)

lemma extban_name_long: "eb \<in> set extbans \<Longrightarrow> \<exists>a b r. eb_name eb = a # b # r"
  by (auto simp: extbans_def)

lemma extban_lookup_name:
  assumes "eb \<in> set extbans" "eq_ignore_ascii_case n (eb_name eb)"
  shows "extban_lookup n = Some eb"
proof -
  from assms extban_name_long have "length n \<ge> 2"
    by (metis (no_types, lifting) One_nat_def Suc_le_mono eq_ignore_ascii_case_def le_add2
        length_Cons length_key list.size(4) numeral_2_eq_2 plus_1_eq_Suc)
  then obtain a b r where "n = a # b # r" by (cases n rule: remdups_adj.cases) auto
  moreover have "find (\<lambda>e. key (eb_name e) = key (eb_name eb)) extbans = Some eb"
    using find_distinct_key [OF extban_names_distinct assms(1)] .
  ultimately show ?thesis
    using assms(2) by (simp add: extban_lookup_def eq_ignore_ascii_case_def)
qed

lemma name_plain: "eb \<in> set extbans \<Longrightarrow> CHR '':'' \<notin> set (eb_name eb) \<and> CHR ''!'' \<notin> set (eb_name eb) \<and> CHR ''@'' \<notin> set (eb_name eb)"
  by (auto simp: extbans_def)

lemma letter_plain: "eb \<in> set extbans \<Longrightarrow> eb_letter eb \<noteq> CHR '':'' \<and> eb_letter eb \<noteq> CHR ''!'' \<and> eb_letter eb \<noteq> CHR ''@''"
  by (auto simp: extbans_def)

text \<open>An extban written by its name or by its letter is read back as that extban with its value
  untouched, and a host mask with an IPv6 address is not taken for one.\<close>

lemma akick_parse_ext:
  assumes "eb \<in> set extbans"
  shows "akick_parse (eb_name eb @ '':'' @ v) = MaskExt eb v"
    and "akick_parse (eb_letter eb # '':'' @ v) = MaskExt eb v"
proof -
  obtain a b r where n: "eb_name eb = a # b # r" using extban_name_long [OF assms] by blast
  show "akick_parse (eb_name eb @ '':'' @ v) = MaskExt eb v"
    using name_plain [OF assms] extban_lookup_name [OF assms, of "eb_name eb"] n
    by (simp add: akick_parse_def split_once_append [of _ "eb_name eb" v, simplified n, simplified])
  show "akick_parse (eb_letter eb # '':'' @ v) = MaskExt eb v"
    using letter_plain [OF assms] extban_lookup_letter [OF assms] by (auto simp: akick_parse_def)
qed

lemma akick_parse_hostmask: "akick_parse (n @ ''!'' @ u @ ''@'' @ h) = MaskHost (n @ ''!'' @ u @ ''@'' @ h)"
  if "CHR '':'' \<notin> set (n @ u)"
proof (cases "split_once CHR '':'' (n @ ''!'' @ u @ ''@'' @ h)")
  case None
  then show ?thesis by (simp add: akick_parse_def)
next
  case (Some p)
  obtain a b where p: "p = (a, b)" by force
  define m where "m = n @ ''!'' @ u @ ''@''"
  have m: "CHR '':'' \<notin> set m" "CHR ''!'' \<in> set m" using that by (auto simp: m_def)
  have "m @ h = a @ CHR '':'' # b"
    using split_once_Some Some p by (fastforce simp: m_def)
  then obtain us where "m = a @ us \<and> us @ h = CHR '':'' # b \<or> a = m @ us"
    by (auto simp: append_eq_append_conv2)
  with m have "CHR ''!'' \<in> set a" by (cases us) auto
  then show ?thesis using Some p by (simp add: akick_parse_def)
qed

subsection \<open>Durations and addresses\<close>

lemma parse_duration_bound: "parse_duration s = Some n \<Longrightarrow> n \<le> u64_max"
  by (auto simp: parse_duration_def checked_mul64_def bind_eq_Some_conv split: if_splits option.splits)

lemma parse_duration_shown:
  assumes "duration_unit c = Some u" "n * u \<le> u64_max"
  shows "parse_duration (show_nat n @ [c]) = Some (n * u)"
proof -
  from assms(1) have "1 \<le> u" by (auto simp: duration_unit_def split: if_splits)
  with assms(2) have "n \<le> u64_max"
    by (metis le_trans mult.right_neutral mult_le_mono2)
  then show ?thesis
    using assms by (simp add: parse_duration_def parse_show checked_mul64_def)
qed

lemma valid_email_no_injection:
  "valid_email a \<Longrightarrow> c \<in> set a \<Longrightarrow> \<not> is_control c \<and> c \<noteq> CHR '' ''"
  by (auto simp: valid_email_def list_ex_iff split: if_splits)

lemma valid_email_one_at:
  "valid_email a \<Longrightarrow> \<exists>l d. a = l @ ''@'' @ d \<and> l \<noteq> [] \<and> d \<noteq> [] \<and> CHR ''@'' \<notin> set (l @ d)"
proof -
  assume v: "valid_email a"
  then obtain l d where s: "split_on CHR ''@'' a = [l, d]" and ne: "l \<noteq> []" "d \<noteq> []"
    by (auto simp: valid_email_def split: if_splits list.splits)
  have a: "a = l @ CHR ''@'' # d"
    using join_split_on [of "CHR ''@''" a] s by simp
  have "CHR ''@'' \<notin> set l" "CHR ''@'' \<notin> set d"
    using split_on_fields [of _ "CHR ''@''" a] by (simp_all add: s)
  with a ne show ?thesis by auto
qed

end
