(* ===== verification/NetState.thy ===== *)
theory NetState
  imports ExtBan "HOL-Library.List_Lexorder" "HOL-Library.Char_ord"
begin

text \<open>
  The live network as the services see it (\<^verbatim>\<open>Network\<close>, src/src/engine/state.rs): users, channels,
  logins, the server tree, session counts, last-seen records, incidents and ChanFix scores. It is
  rebuilt from the uplink's burst and never persisted, apart from the counters and incidents seeded
  at start-up. The read-only projections for the web panel are left out.

  A map walked by the code is walked in the order of an argument that names every key once; where
  the code reads the wall clock, the time is an argument.
\<close>

subsection \<open>State\<close>

record user =
  u_uid :: string
  u_nick :: string
  u_ident :: string
  u_host :: string
  u_realhost :: string
  u_ip :: string
  u_gecos :: string
  u_fingerprint :: string
  u_oper :: string
  u_umodes :: "char set"

record live_channel =
  lc_members :: "string set"
  lc_ops :: "string set"
  lc_voices :: "string set"
  lc_key :: "string option"
  lc_topic :: string
  lc_topic_setter :: string
  lc_cmodes :: "char set"

definition live_channel_default :: live_channel where
  "live_channel_default = \<lparr>lc_members = {}, lc_ops = {}, lc_voices = {}, lc_key = None,
     lc_topic = [], lc_topic_setter = [], lc_cmodes = {}\<rparr>"

record chan_activity =
  cx_lines :: nat
  cx_talkers :: "string \<rightharpoonup> nat"

record seen_rec =
  sn_nick :: string
  sn_ts :: nat
  sn_what :: string

record chan_seen_rec =
  sm_nick :: string
  sm_ts :: nat
  sm_msg :: string

record incident =
  in_id :: string
  in_ts :: nat
  in_summary :: string

record network =
  w_users :: "string \<rightharpoonup> user"
  w_channels :: "string \<rightharpoonup> live_channel"
  w_accounts :: "string \<rightharpoonup> string"
  w_seen :: "string \<rightharpoonup> seen_rec"
  w_bots :: "string \<rightharpoonup> string"
  w_servers :: "string \<rightharpoonup> string"
  w_server_names :: "string \<rightharpoonup> string"
  w_modules :: "string set"
  w_stats :: "string \<rightharpoonup> nat"
  w_chan_activity :: "string \<rightharpoonup> chan_activity"
  w_chan_seen :: "string \<rightharpoonup> (string \<rightharpoonup> chan_seen_rec)"
  w_sessions :: "string \<rightharpoonup> nat"
  w_incidents :: "incident list"
  w_incident_seq :: nat
  w_chanfix :: "string \<rightharpoonup> (string \<rightharpoonup> nat)"
  w_config_opers :: "string \<rightharpoonup> privs"

definition network_empty :: network where
  "network_empty = \<lparr>w_users = Map.empty, w_channels = Map.empty, w_accounts = Map.empty,
     w_seen = Map.empty, w_bots = Map.empty, w_servers = Map.empty, w_server_names = Map.empty,
     w_modules = {}, w_stats = Map.empty, w_chan_activity = Map.empty, w_chan_seen = Map.empty,
     w_sessions = Map.empty, w_incidents = [], w_incident_seq = 0, w_chanfix = Map.empty,
     w_config_opers = Map.empty\<rparr>"

definition incident_cap :: nat where "incident_cap = 10000"
definition seen_cap :: nat where "seen_cap = 20000"
definition talker_cap :: nat where "talker_cap = 512"
definition chanfix_max :: nat where "chanfix_max = 5000"
definition chanfix_bump :: nat where "chanfix_bump = 2"

subsection \<open>Maps with a default, and mode deltas\<close>

text \<open>\<^verbatim>\<open>map.entry(k).or_default()\<close> followed by an update.\<close>

definition upsert :: "'k \<Rightarrow> 'v \<Rightarrow> ('v \<Rightarrow> 'v) \<Rightarrow> ('k \<rightharpoonup> 'v) \<Rightarrow> ('k \<rightharpoonup> 'v)" where
  "upsert k v0 f m = m(k \<mapsto> f (case m k of None \<Rightarrow> v0 | Some v \<Rightarrow> v))"

fun mode_delta :: "bool \<Rightarrow> string \<Rightarrow> string \<Rightarrow> char set \<Rightarrow> char set" where
  "mode_delta adding [] skip s = s"
| "mode_delta adding (c # cs) skip s =
     (if c = CHR ''+'' then mode_delta True cs skip s
      else if c = CHR ''-'' then mode_delta False cs skip s
      else if c = CHR '' '' then s
      else if is_ascii_alphabetic c \<and> c \<notin> set skip
      then mode_delta adding cs skip (if adding then insert c s else s - {c})
      else mode_delta adding cs skip s)"

definition apply_mode_delta :: "char set \<Rightarrow> string \<Rightarrow> string \<Rightarrow> char set" where
  "apply_mode_delta s delta skip = mode_delta True delta skip s"

subsection \<open>Last-seen records\<close>

text \<open>\<open>ks\<close> walks the map after the insertion; the stalest quarter of the cap is dropped when it
  overflows. \<^verbatim>\<open>sort_unstable\<close> may order equal stamps in any way, and so may \<open>ks\<close>.\<close>

definition record_seen :: "string list \<Rightarrow> string \<Rightarrow> seen_rec \<Rightarrow> network \<Rightarrow> network" where
  "record_seen ks k e w =
     (let m = (w_seen w)(k \<mapsto> e);
          by_ts = sort_key (\<lambda>k. case m k of None \<Rightarrow> 0 | Some s \<Rightarrow> sn_ts s) ks
      in w\<lparr>w_seen := (if length ks > seen_cap
                      then fold (\<lambda>k m. m(k := None)) (take (seen_cap div 4) by_ts) m
                      else m)\<rparr>)"

definition last_seen :: "network \<Rightarrow> string \<Rightarrow> seen_rec option" where
  "last_seen w nick = w_seen w (key nick)"

subsection \<open>Users\<close>

definition net_nick_of :: "network \<Rightarrow> string \<Rightarrow> string option" where
  "net_nick_of w uid = map_option u_nick (w_users w uid)"

definition user_connect :: "string \<Rightarrow> string \<Rightarrow> string \<Rightarrow> string \<Rightarrow> network \<Rightarrow> network" where
  "user_connect uid nick host ip w =
     w\<lparr>w_sessions := (if ip \<noteq> [] then upsert ip 0 (\<lambda>n. n + 1) (w_sessions w) else w_sessions w),
       w_users := (w_users w)(uid \<mapsto> \<lparr>u_uid = uid, u_nick = nick, u_ident = [], u_host = host,
         u_realhost = [], u_ip = ip, u_gecos = [], u_fingerprint = [], u_oper = [], u_umodes = {}\<rparr>)\<rparr>"

definition on_user :: "string \<Rightarrow> (user \<Rightarrow> user) \<Rightarrow> network \<Rightarrow> network" where
  "on_user uid f w = w\<lparr>w_users := modify uid f (w_users w)\<rparr>"

definition set_user_oper :: "string \<Rightarrow> string \<Rightarrow> network \<Rightarrow> network" where
  "set_user_oper uid ot =
     on_user uid (\<lambda>u. if ot = [] then u\<lparr>u_oper := [], u_umodes := u_umodes u - {CHR ''o''}\<rparr>
                      else u\<lparr>u_oper := ot, u_umodes := insert CHR ''o'' (u_umodes u)\<rparr>)"

definition apply_user_mode :: "string \<Rightarrow> string \<Rightarrow> network \<Rightarrow> network" where
  "apply_user_mode uid delta =
     on_user uid (\<lambda>u. let ms = apply_mode_delta (u_umodes u) delta [] in
        if CHR ''o'' \<in> ms then u\<lparr>u_umodes := ms\<rparr> else u\<lparr>u_umodes := ms, u_oper := []\<rparr>)"

definition set_user_attrs :: "string \<Rightarrow> string \<Rightarrow> string \<Rightarrow> string \<Rightarrow> network \<Rightarrow> network" where
  "set_user_attrs uid ident realhost gecos =
     on_user uid (\<lambda>u. u\<lparr>u_ident := ident, u_realhost := realhost, u_gecos := gecos\<rparr>)"

definition set_user_cert :: "string \<Rightarrow> string \<Rightarrow> network \<Rightarrow> network" where
  "set_user_cert uid fp = on_user uid (\<lambda>u. u\<lparr>u_fingerprint := fp\<rparr>)"

definition fingerprint_of :: "network \<Rightarrow> string \<Rightarrow> string option" where
  "fingerprint_of w uid =
     (case w_users w uid of None \<Rightarrow> None
      | Some u \<Rightarrow> if u_fingerprint u = [] then None else Some (u_fingerprint u))"

definition net_is_oper :: "network \<Rightarrow> string \<Rightarrow> bool" where
  "net_is_oper w uid = (case w_users w uid of None \<Rightarrow> False | Some u \<Rightarrow> u_oper u \<noteq> [])"

definition host_of :: "network \<Rightarrow> string \<Rightarrow> string option" where
  "host_of w uid = map_option u_host (w_users w uid)"

definition ident_of :: "network \<Rightarrow> string \<Rightarrow> string option" where
  "ident_of w uid = map_option u_ident (w_users w uid)"

text \<open>Real users first, in the order of the walk, then the bots.\<close>

definition uid_by_nick :: "string list \<Rightarrow> network \<Rightarrow> string \<Rightarrow> string option" where
  "uid_by_nick ks w nick =
     (case find (\<lambda>u. eq_ignore_ascii_case (u_nick u) nick) (values_of ks (w_users w)) of
        Some u \<Rightarrow> Some (u_uid u)
      | None \<Rightarrow> w_bots w (key nick))"

definition user_nick_change :: "string list \<Rightarrow> nat \<Rightarrow> string \<Rightarrow> string \<Rightarrow> network \<Rightarrow> network" where
  "user_nick_change ks now uid nick w =
     (case w_users w uid of None \<Rightarrow> w
      | Some u \<Rightarrow> record_seen ks (key nick)
          \<lparr>sn_nick = nick, sn_ts = now, sn_what = ''changing nick from '' @ u_nick u\<rparr>
          (on_user uid (\<lambda>u. u\<lparr>u_nick := nick\<rparr>) w))"

definition release_session :: "string \<Rightarrow> network \<Rightarrow> network" where
  "release_session ip w =
     (case w_sessions w ip of None \<Rightarrow> w
      | Some n \<Rightarrow> w\<lparr>w_sessions := (if n - 1 = 0 then (w_sessions w)(ip := None)
                                   else (w_sessions w)(ip \<mapsto> n - 1))\<rparr>)"

definition leave_channel :: "string \<Rightarrow> live_channel \<Rightarrow> live_channel" where
  "leave_channel uid c = c\<lparr>lc_members := lc_members c - {uid}, lc_ops := lc_ops c - {uid},
     lc_voices := lc_voices c - {uid}\<rparr>"

definition user_quit :: "string list \<Rightarrow> nat \<Rightarrow> string \<Rightarrow> network \<Rightarrow> network" where
  "user_quit ks now uid w =
     (let w1 = (case w_users w uid of None \<Rightarrow> w
                | Some u \<Rightarrow> release_session (u_ip u)
                    (record_seen ks (key (u_nick u))
                       \<lparr>sn_nick = u_nick u, sn_ts = now, sn_what = ''quitting''\<rparr> w))
      in w1\<lparr>w_users := (w_users w1)(uid := None), w_accounts := (w_accounts w1)(uid := None),
            w_channels := (\<lambda>k. map_option (leave_channel uid) (w_channels w1 k))\<rparr>)"

definition session_count :: "network \<Rightarrow> string \<Rightarrow> nat" where
  "session_count w ip = (case w_sessions w ip of None \<Rightarrow> 0 | Some n \<Rightarrow> n)"

definition sessions_over :: "string list \<Rightarrow> nat \<Rightarrow> network \<Rightarrow> (string \<times> nat) list" where
  "sessions_over ks lo w =
     sort_key (\<lambda>(_, n). - int n)
       (filter (\<lambda>(_, n). n \<ge> lo) (List.map_filter (\<lambda>ip. map_option (Pair ip) (w_sessions w ip)) ks))"

definition channels_of :: "string list \<Rightarrow> network \<Rightarrow> string \<Rightarrow> string list" where
  "channels_of ks w uid =
     filter (\<lambda>k. case w_channels w k of None \<Rightarrow> False | Some c \<Rightarrow> uid \<in> lc_members c) ks"

text \<open>\<^verbatim>\<open>uid.get(..3)\<close>: the server id a uid starts with, if it is long enough.\<close>

definition server_name_of :: "network \<Rightarrow> string \<Rightarrow> string" where
  "server_name_of w uid =
     (if length uid < 3 then []
      else case w_server_names w (take 3 uid) of None \<Rightarrow> [] | Some n \<Rightarrow> n)"

definition ban_target_of :: "string list \<Rightarrow> network \<Rightarrow> string \<Rightarrow> ban_target option" where
  "ban_target_of ks w uid =
     map_option (\<lambda>u. \<lparr>bt_nick = u_nick u, bt_ident = u_ident u, bt_host = u_host u,
        bt_realhost = u_realhost u, bt_ip = u_ip u, bt_gecos = u_gecos u,
        bt_account = w_accounts w uid, bt_server = server_name_of w uid,
        bt_fingerprint = (if u_fingerprint u \<noteq> [] then Some (u_fingerprint u) else None),
        bt_channels = channels_of ks w uid\<rparr>) (w_users w uid)"

definition abuse_ident :: "network \<Rightarrow> string \<Rightarrow> (string \<times> string) option" where
  "abuse_ident w uid =
     map_option (\<lambda>u. (u_ip u, u_nick u @ ''!'' @ u_ident u @ ''@'' @ u_host u)) (w_users w uid)"

subsection \<open>Logins, bots, statistics\<close>

definition net_account_of :: "network \<Rightarrow> string \<Rightarrow> string option" where
  "net_account_of w uid = w_accounts w uid"

definition set_account :: "string \<Rightarrow> string \<Rightarrow> network \<Rightarrow> network" where
  "set_account uid acct w = w\<lparr>w_accounts := (w_accounts w)(uid \<mapsto> acct)\<rparr>"

definition clear_account :: "string \<Rightarrow> network \<Rightarrow> network" where
  "clear_account uid w = w\<lparr>w_accounts := (w_accounts w)(uid := None)\<rparr>"

definition uids_logged_into :: "string list \<Rightarrow> network \<Rightarrow> string \<Rightarrow> string list" where
  "uids_logged_into ks w acct =
     filter (\<lambda>uid. case w_accounts w uid of None \<Rightarrow> False
                   | Some a \<Rightarrow> eq_ignore_ascii_case a acct) ks"

definition bot_connect :: "string \<Rightarrow> string \<Rightarrow> network \<Rightarrow> network" where
  "bot_connect nick uid w = w\<lparr>w_bots := (w_bots w)(key nick \<mapsto> uid)\<rparr>"

definition bot_forget :: "string \<Rightarrow> network \<Rightarrow> network" where
  "bot_forget nick_lc w = w\<lparr>w_bots := (w_bots w)(nick_lc := None)\<rparr>"

definition clear_bots :: "network \<Rightarrow> network" where
  "clear_bots w = w\<lparr>w_bots := Map.empty\<rparr>"

definition set_config_opers :: "(string \<rightharpoonup> privs) \<Rightarrow> network \<Rightarrow> network" where
  "set_config_opers m w = w\<lparr>w_config_opers := m\<rparr>"

definition config_oper_privs :: "string list \<Rightarrow> network \<Rightarrow> string \<Rightarrow> privs" where
  "config_oper_privs ks w acct =
     (case find (\<lambda>a. eq_ignore_ascii_case a acct) (filter (\<lambda>a. w_config_opers w a \<noteq> None) ks) of
        None \<Rightarrow> 0 | Some a \<Rightarrow> the (w_config_opers w a))"

definition bump :: "string \<Rightarrow> network \<Rightarrow> network" where
  "bump k w = w\<lparr>w_stats := upsert k 0 (\<lambda>n. n + 1) (w_stats w)\<rparr>"

definition seed_stats :: "(string \<rightharpoonup> nat) \<Rightarrow> network \<Rightarrow> network" where
  "seed_stats m w = w\<lparr>w_stats := m\<rparr>"

definition learn_modules :: "string list \<Rightarrow> network \<Rightarrow> network" where
  "learn_modules ns w = w\<lparr>w_modules := w_modules w \<union> set ns\<rparr>"

definition has_module :: "network \<Rightarrow> string \<Rightarrow> bool" where
  "has_module w n \<longleftrightarrow> n \<in> w_modules w"

subsection \<open>Incidents\<close>

text \<open>A base-36 code of a counter, most significant digit first.\<close>

definition base36_digit :: "nat \<Rightarrow> char" where
  "base36_digit n = (if n < 10 then char_of (48 + n) else char_of (55 + n))"

fun incident_digits :: "nat \<Rightarrow> string" where
  "incident_digits n = (if n = 0 then [] else base36_digit (n mod 36) # incident_digits (n div 36))"

declare incident_digits.simps [simp del]

definition incident_code :: "nat \<Rightarrow> string" where
  "incident_code s = (if s = 0 then ''0'' else rev (incident_digits s))"

definition record_incident :: "string \<Rightarrow> nat \<Rightarrow> network \<Rightarrow> string \<times> network" where
  "record_incident summary now w =
     (let id = incident_code (w_incident_seq w);
          is = w_incidents w @ [\<lparr>in_id = id, in_ts = now, in_summary = summary\<rparr>]
      in (id, w\<lparr>w_incident_seq := w_incident_seq w + 1,
                w_incidents := drop (length is - incident_cap) is\<rparr>))"

definition search_incidents :: "network \<Rightarrow> string \<Rightarrow> nat \<Rightarrow> incident list" where
  "search_incidents w pattern limit =
     (let p = key pattern in
      take limit (filter (\<lambda>i. p = [] \<or> eq_ignore_ascii_case (in_id i) p \<or>
                              contains_sub p (key (in_summary i))) (rev (w_incidents w))))"

definition seed_incidents :: "nat \<Rightarrow> (string \<times> nat \<times> string) list \<Rightarrow> network \<Rightarrow> network" where
  "seed_incidents s is w =
     w\<lparr>w_incident_seq := s,
       w_incidents := map (\<lambda>(i, t, x). \<lparr>in_id = i, in_ts = t, in_summary = x\<rparr>) is\<rparr>"

definition incidents_snapshot :: "network \<Rightarrow> nat \<times> (string \<times> nat \<times> string) list" where
  "incidents_snapshot w =
     (w_incident_seq w, map (\<lambda>i. (in_id i, in_ts i, in_summary i)) (w_incidents w))"

subsection \<open>Servers\<close>

definition set_server_name :: "string \<Rightarrow> string \<Rightarrow> network \<Rightarrow> network" where
  "set_server_name sid n w = w\<lparr>w_server_names := (w_server_names w)(sid \<mapsto> n)\<rparr>"

definition server_link :: "string \<Rightarrow> string \<Rightarrow> network \<Rightarrow> network" where
  "server_link sid parent w = w\<lparr>w_servers := (w_servers w)(sid \<mapsto> parent)\<rparr>"

definition clear_servers :: "network \<Rightarrow> network" where
  "clear_servers w = w\<lparr>w_servers := Map.empty, w_server_names := Map.empty, w_modules := {}\<rparr>"

text \<open>One pass over the tree: every server whose parent is \<open>up\<close> joins the subtree once.\<close>

fun push_children :: "(string \<rightharpoonup> string) \<Rightarrow> string \<Rightarrow> string list \<Rightarrow> string list \<Rightarrow> string list" where
  "push_children m up [] sub = sub"
| "push_children m up (k # ks) sub =
     push_children m up ks (if m k = Some up \<and> k \<notin> set sub then sub @ [k] else sub)"

lemma push_children_grows:
  "length (push_children m up ks sub) + length (filter (\<lambda>k. k \<notin> set (push_children m up ks sub)) all)
     \<le> length sub + length (filter (\<lambda>k. k \<notin> set sub) all)"
  if "set ks \<subseteq> set all"
  using that
proof (induction ks arbitrary: sub)
  case (Cons k ks)
  have "length (filter (\<lambda>x. x \<notin> set (sub @ [k])) all) < length (filter (\<lambda>x. x \<notin> set sub) all)"
    if "k \<notin> set sub"
  proof -
    have eq: "filter (\<lambda>x. x \<notin> set (sub @ [k])) all = filter (\<lambda>x. x \<noteq> k) (filter (\<lambda>x. x \<notin> set sub) all)"
      by (auto intro: filter_cong)
    show ?thesis
      unfolding eq using Cons.prems that by (intro length_filter_less [of k]) auto
  qed
  with Cons.IH [of sub] Cons.IH [of "sub @ [k]"] Cons.prems show ?case by fastforce
qed simp

function split_loop :: "string list \<Rightarrow> (string \<rightharpoonup> string) \<Rightarrow> nat \<Rightarrow> string list \<Rightarrow> string list" where
  "split_loop ks m i sub =
     (if i < length sub then split_loop ks m (i + 1) (push_children m (sub ! i) ks sub) else sub)"
  by pat_completeness auto
termination
proof (relation "measure (\<lambda>(ks, m, i, sub). length sub + length (filter (\<lambda>k. k \<notin> set sub) ks) - i)")
  fix ks m i and sub :: "string list"
  assume "i < length sub"
  with push_children_grows [of ks ks m "sub ! i" sub]
  show "((ks, m, i + 1, push_children m (sub ! i) ks sub), ks, m, i, sub)
     \<in> measure (\<lambda>(ks, m, i, sub). length sub + length (filter (\<lambda>k. k \<notin> set sub) ks) - i)"
    by auto
qed simp

declare split_loop.simps [simp del]

definition server_split :: "string list \<Rightarrow> string \<Rightarrow> network \<Rightarrow> string list \<times> network" where
  "server_split ks sid w =
     (let sub = split_loop ks (w_servers w) 0 [sid]
      in (sub, w\<lparr>w_servers := fold (\<lambda>s m. m(s := None)) sub (w_servers w),
                 w_server_names := fold (\<lambda>s m. m(s := None)) sub (w_server_names w)\<rparr>))"

definition uids_on_server :: "string list \<Rightarrow> network \<Rightarrow> string \<Rightarrow> string list" where
  "uids_on_server ks w sid = filter (\<lambda>u. w_users w u \<noteq> None \<and> starts_with sid u) ks"

subsection \<open>Channels\<close>

definition on_live_channel :: "string \<Rightarrow> (live_channel \<Rightarrow> live_channel) \<Rightarrow> network \<Rightarrow> network" where
  "on_live_channel chan f w = w\<lparr>w_channels := upsert (key chan) live_channel_default f (w_channels w)\<rparr>"

definition set_live_topic :: "string \<Rightarrow> string \<Rightarrow> string \<Rightarrow> network \<Rightarrow> network" where
  "set_live_topic chan topic setter =
     on_live_channel chan (\<lambda>c. c\<lparr>lc_topic := topic, lc_topic_setter := setter\<rparr>)"

definition apply_channel_mode :: "string \<Rightarrow> string \<Rightarrow> network \<Rightarrow> network" where
  "apply_channel_mode chan delta =
     on_live_channel chan (\<lambda>c. c\<lparr>lc_cmodes := apply_mode_delta (lc_cmodes c) delta ''ovhaqbeI''\<rparr>)"

definition channel_join :: "string list \<Rightarrow> nat \<Rightarrow> string \<Rightarrow> string \<Rightarrow> bool \<Rightarrow> network \<Rightarrow> network" where
  "channel_join ks now chan uid op w =
     (let w1 = on_live_channel chan (\<lambda>c. c\<lparr>lc_members := insert uid (lc_members c),
                  lc_ops := (if op then insert uid (lc_ops c) else lc_ops c)\<rparr>) w
      in case net_nick_of w1 uid of None \<Rightarrow> w1
         | Some nick \<Rightarrow> record_seen ks (key nick)
             \<lparr>sn_nick = nick, sn_ts = now, sn_what = ''joining '' @ chan\<rparr> w1)"

definition channel_part :: "string list \<Rightarrow> nat \<Rightarrow> string \<Rightarrow> string \<Rightarrow> network \<Rightarrow> network" where
  "channel_part ks now chan uid w =
     (let w1 = w\<lparr>w_channels := modify (key chan) (leave_channel uid) (w_channels w)\<rparr>
      in case net_nick_of w1 uid of None \<Rightarrow> w1
         | Some nick \<Rightarrow> record_seen ks (key nick)
             \<lparr>sn_nick = nick, sn_ts = now, sn_what = ''leaving '' @ chan\<rparr> w1)"

definition channel_rename :: "string \<Rightarrow> string \<Rightarrow> network \<Rightarrow> network" where
  "channel_rename old new w =
     (if key old = key new then w
      else case w_channels w (key old) of None \<Rightarrow> w
        | Some c \<Rightarrow> w\<lparr>w_channels := (w_channels w)(key old := None, key new \<mapsto> c)\<rparr>)"

definition remove_channel :: "string \<Rightarrow> network \<Rightarrow> network" where
  "remove_channel chan w = w\<lparr>w_channels := (w_channels w)(key chan := None)\<rparr>"

definition set_op :: "string \<Rightarrow> string \<Rightarrow> bool \<Rightarrow> network \<Rightarrow> network" where
  "set_op chan uid op =
     on_live_channel chan (\<lambda>c. c\<lparr>lc_ops := (if op then insert uid (lc_ops c) else lc_ops c - {uid})\<rparr>)"

definition net_is_op :: "network \<Rightarrow> string \<Rightarrow> string \<Rightarrow> bool" where
  "net_is_op w chan uid =
     (case w_channels w (key chan) of None \<Rightarrow> False | Some c \<Rightarrow> uid \<in> lc_ops c)"

definition set_voice :: "string \<Rightarrow> string \<Rightarrow> bool \<Rightarrow> network \<Rightarrow> network" where
  "set_voice chan uid v =
     on_live_channel chan
       (\<lambda>c. c\<lparr>lc_voices := (if v then insert uid (lc_voices c) else lc_voices c - {uid})\<rparr>)"

definition net_is_voiced :: "network \<Rightarrow> string \<Rightarrow> string \<Rightarrow> bool" where
  "net_is_voiced w chan uid =
     (case w_channels w (key chan) of None \<Rightarrow> False | Some c \<Rightarrow> uid \<in> lc_voices c)"

definition set_channel_key :: "string \<Rightarrow> string option \<Rightarrow> network \<Rightarrow> network" where
  "set_channel_key chan k = on_live_channel chan (\<lambda>c. c\<lparr>lc_key := k\<rparr>)"

definition channel_key :: "network \<Rightarrow> string \<Rightarrow> string option" where
  "channel_key w chan = Option.bind (w_channels w (key chan)) lc_key"

definition channel_members :: "network \<Rightarrow> string \<Rightarrow> string set" where
  "channel_members w chan = (case w_channels w (key chan) of None \<Rightarrow> {} | Some c \<Rightarrow> lc_members c)"

definition op_count :: "network \<Rightarrow> string \<Rightarrow> nat" where
  "op_count w chan = (case w_channels w (key chan) of None \<Rightarrow> 0 | Some c \<Rightarrow> card (lc_ops c))"

subsection \<open>Channel activity\<close>

text \<open>\<open>kt\<close> and \<open>km\<close> walk the talkers and the last messages of the channel.\<close>

definition record_line ::
  "string list \<Rightarrow> string list \<Rightarrow> nat \<Rightarrow> string \<Rightarrow> string \<Rightarrow> string \<Rightarrow> network \<Rightarrow> network" where
  "record_line kt km now chan nick msg w =
     w\<lparr>w_chan_activity := upsert (key chan) \<lparr>cx_lines = 0, cx_talkers = Map.empty\<rparr>
         (\<lambda>a. a\<lparr>cx_lines := sat_succ (cx_lines a),
                cx_talkers := (if length kt < talker_cap \<or> cx_talkers a nick \<noteq> None
                   then upsert nick 0 (\<lambda>n. n + 1) (cx_talkers a) else cx_talkers a)\<rparr>)
         (w_chan_activity w),
       w_chan_seen := upsert (key chan) Map.empty
         (\<lambda>m. if length km < talker_cap \<or> m (key nick) \<noteq> None
              then m(key nick \<mapsto> \<lparr>sm_nick = nick, sm_ts = now, sm_msg = take 300 msg\<rparr>) else m)
         (w_chan_seen w)\<rparr>"

definition channel_seen :: "network \<Rightarrow> string \<Rightarrow> string \<Rightarrow> chan_seen_rec option" where
  "channel_seen w chan nick = Option.bind (w_chan_seen w (key chan)) (\<lambda>m. m (key nick))"

text \<open>Highest count first, equal counts by name.\<close>

definition by_count :: "string list \<Rightarrow> (string \<rightharpoonup> nat) \<Rightarrow> (string \<times> nat) list" where
  "by_count ks m =
     sort_key (\<lambda>(n, v). - int v)
       (sort_key fst (List.map_filter (\<lambda>n. map_option (Pair n) (m n)) ks))"

definition channel_activity :: "string list \<Rightarrow> network \<Rightarrow> string \<Rightarrow> (nat \<times> (string \<times> nat) list) option" where
  "channel_activity kt w chan =
     map_option (\<lambda>a. (cx_lines a, take 10 (by_count kt (cx_talkers a)))) (w_chan_activity w (key chan))"

definition seed_chan_activity :: "(string \<times> nat \<times> (string \<times> nat) list) list \<Rightarrow> network \<Rightarrow> network" where
  "seed_chan_activity d w =
     w\<lparr>w_chan_activity := map_of (rev (map (\<lambda>(c, l, ts). (c, \<lparr>cx_lines = l, cx_talkers = map_of (rev ts)\<rparr>)) d))\<rparr>"

text \<open>\<open>kc\<close> walks the channels, \<open>kt c\<close> the talkers of channel \<open>c\<close>.\<close>

definition chan_activity_snapshot ::
  "string list \<Rightarrow> (string \<Rightarrow> string list) \<Rightarrow> network \<Rightarrow> (string \<times> nat \<times> (string \<times> nat) list) list" where
  "chan_activity_snapshot kc kt w =
     List.map_filter (\<lambda>c. case w_chan_activity w c of None \<Rightarrow> None
        | Some a \<Rightarrow> if cx_lines a > 0 then Some (c, cx_lines a, take 50 (by_count (kt c) (cx_talkers a)))
                    else None) kc"

subsection \<open>ChanFix\<close>

definition chan_identity :: "network \<Rightarrow> string \<Rightarrow> string option" where
  "chan_identity w uid =
     (case w_accounts w uid of Some a \<Rightarrow> Some a | None \<Rightarrow> map_option u_host (w_users w uid))"

text \<open>The identities opped in each channel, for a walk of the channels and of the ops of each.\<close>

definition chanfix_samples ::
  "string list \<Rightarrow> (string \<Rightarrow> string list) \<Rightarrow> network \<Rightarrow> (string \<times> string) list" where
  "chanfix_samples kc ko w =
     concat (map (\<lambda>c. map (Pair c) (List.map_filter (chan_identity w) (ko c))) kc)"

definition chanfix_add :: "string \<times> string \<Rightarrow> (string \<rightharpoonup> (string \<rightharpoonup> nat)) \<Rightarrow> (string \<rightharpoonup> (string \<rightharpoonup> nat))" where
  "chanfix_add s = upsert (fst s) Map.empty (upsert (snd s) 0 (\<lambda>n. min (n + chanfix_bump) chanfix_max))"

text \<open>Decay by one, add the samples, forget what fell to zero and the channels left without scores
  (\<open>ki\<close> walks the identities a channel has after the additions).\<close>

definition chanfix_sample ::
  "string list \<Rightarrow> (string \<Rightarrow> string list) \<Rightarrow> (string \<Rightarrow> string list) \<Rightarrow> network \<Rightarrow> network" where
  "chanfix_sample kc ko ki w =
     (let decayed = (\<lambda>c. map_option (\<lambda>m i. map_option (\<lambda>n. n - 1) (m i)) (w_chanfix w c));
          added = fold chanfix_add (chanfix_samples kc ko w) decayed;
          kept = (\<lambda>c. map_option (\<lambda>m i. case m i of Some n \<Rightarrow> if n > 0 then Some n else None
                                                    | None \<Rightarrow> None) (added c))
      in w\<lparr>w_chanfix := (\<lambda>c. case kept c of None \<Rightarrow> None
             | Some m \<Rightarrow> if list_all (\<lambda>i. m i = None) (ki c) then None else Some m)\<rparr>)"

definition chanfix_scores :: "string list \<Rightarrow> network \<Rightarrow> string \<Rightarrow> (string \<times> nat) list" where
  "chanfix_scores ki w chan =
     (case w_chanfix w (key chan) of None \<Rightarrow> [] | Some m \<Rightarrow> by_count ki m)"

end
