(* ===== verification/NetProps.thy ===== *)
theory NetProps
  imports NetState
begin

text \<open>
  What the live network view guarantees: the subtree a split removes, the count of sessions per
  address, unique incident codes in a bounded ring, the bound on last-seen records, and the bounds
  of the ChanFix scores. The operations form a step relation; the invariants hold in every state it
  reaches.
\<close>

subsection \<open>Mode deltas\<close>

text \<open>The modes of a delta are those of the text before the first space; each letter is decided by
  its last mention.\<close>

fun last_sign :: "bool \<Rightarrow> string \<Rightarrow> char \<Rightarrow> bool option" where
  "last_sign adding [] m = None"
| "last_sign adding (c # cs) m =
     (if c = CHR ''+'' then last_sign True cs m
      else if c = CHR ''-'' then last_sign False cs m
      else if c = CHR '' '' then None
      else case last_sign adding cs m of
          Some b \<Rightarrow> Some b | None \<Rightarrow> if c = m then Some adding else None)"

lemma mode_delta_iff:
  assumes "is_ascii_alphabetic m" "m \<notin> set skip"
  shows "m \<in> mode_delta adding delta skip s \<longleftrightarrow>
    (case last_sign adding delta m of Some b \<Rightarrow> b | None \<Rightarrow> m \<in> s)"
  using assms by (induction adding delta skip s rule: mode_delta.induct) (auto split: option.splits)

lemma mode_delta_skip:
  "m \<in> set skip \<or> \<not> is_ascii_alphabetic m \<Longrightarrow> m \<in> mode_delta adding delta skip s \<longleftrightarrow> m \<in> s"
  by (induction adding delta skip s rule: mode_delta.induct) auto

subsection \<open>Server splits\<close>

lemma push_children_set:
  "set (push_children m up ks sub) = set sub \<union> {k \<in> set ks. m k = Some up}"
  by (induction ks arbitrary: sub) auto

lemma push_children_distinct: "distinct sub \<Longrightarrow> distinct (push_children m up ks sub)"
  by (induction ks arbitrary: sub) auto

lemma push_children_prefix: "\<exists>ext. push_children m up ks sub = sub @ ext"
proof (induction ks arbitrary: sub)
  case (Cons k ks)
  from Cons.IH [of "if m k = Some up \<and> k \<notin> set sub then sub @ [k] else sub"]
  show ?case by (auto split: if_splits)
qed simp

text \<open>The servers below (and including) one: \<open>child_of\<close> read from child to parent.\<close>

definition child_of :: "(string \<rightharpoonup> string) \<Rightarrow> (string \<times> string) set" where
  "child_of m = {(c, p). m c = Some p}"

lemma split_loop_spec:
  assumes "dom m \<subseteq> set ks" "distinct sub" "sid \<in> set sub" "i \<le> length sub"
    and "\<forall>s \<in> set sub. (s, sid) \<in> (child_of m)\<^sup>*"
    and "\<forall>j < i. \<forall>c. m c = Some (sub ! j) \<longrightarrow> c \<in> set sub"
  shows "distinct (split_loop ks m i sub) \<and>
    set (split_loop ks m i sub) = {s. (s, sid) \<in> (child_of m)\<^sup>*}"
  using assms
proof (induction ks m i sub rule: split_loop.induct)
  case (1 ks m i sub)
  show ?case
  proof (cases "i < length sub")
    case True
    let ?sub = "push_children m (sub ! i) ks sub"
    obtain ext where ext: "?sub = sub @ ext" using push_children_prefix by blast
    have sub: "set ?sub = set sub \<union> {k \<in> set ks. m k = Some (sub ! i)}"
      by (rule push_children_set)
    have reach: "(s, sid) \<in> (child_of m)\<^sup>*" if "s \<in> set ?sub" for s
    proof -
      have "(s, sub ! i) \<in> child_of m \<or> s \<in> set sub" using that sub by (auto simp: child_of_def)
      then show ?thesis
        using 1(6) nth_mem [OF True] converse_rtrancl_into_rtrancl by metis
    qed
    have closed: "c \<in> set ?sub" if "j < i + 1" "m c = Some (?sub ! j)" for j c
    proof (cases "j = i")
      case True
      with that \<open>i < length sub\<close> have "m c = Some (sub ! i)" by (simp add: ext nth_append)
      moreover from this 1(2) have "c \<in> set ks" by auto
      ultimately show ?thesis by (simp add: sub)
    next
      case False
      with that have "j < i" "?sub ! j = sub ! j" using True by (simp_all add: ext nth_append)
      with that 1(7) show ?thesis by (auto simp: sub)
    qed
    from 1(1) [OF True 1(2) push_children_distinct [OF 1(3)]] 1(4) reach closed True
    show ?thesis by (simp add: split_loop.simps [of ks m i sub] sub ext)
  next
    case False
    with 1(5) have i: "i = length sub" by simp
    have "s \<in> set sub" if "(s, sid) \<in> (child_of m)\<^sup>*" for s
      using that
    proof (induction rule: converse_rtrancl_induct)
      case base
      show ?case by (fact 1(4))
    next
      case (step y z)
      then obtain j where "j < i" "z = sub ! j" unfolding i by (auto simp: in_set_conv_nth)
      with step(1) 1(7) show ?case by (auto simp: child_of_def)
    qed
    with 1(3,6) False show ?thesis by (auto simp: split_loop.simps [of ks m i sub])
  qed
qed

lemma fold_remove: "fold (\<lambda>s m. m(s := None)) xs m k = (if k \<in> set xs then None else m k)"
  by (induction xs arbitrary: m) auto

lemma server_split_subtree:
  assumes "enumerates ks (w_servers w)"
  shows "set (fst (server_split ks sid w)) = {s. (s, sid) \<in> (child_of (w_servers w))\<^sup>*}"
    and "distinct (fst (server_split ks sid w))"
    and "w_servers (snd (server_split ks sid w)) =
           (\<lambda>s. if (s, sid) \<in> (child_of (w_servers w))\<^sup>* then None else w_servers w s)"
proof -
  have "distinct (split_loop ks (w_servers w) 0 [sid]) \<and>
      set (split_loop ks (w_servers w) 0 [sid]) = {s. (s, sid) \<in> (child_of (w_servers w))\<^sup>*}"
    using assms by (intro split_loop_spec) (auto simp: enumerates_def)
  then show "set (fst (server_split ks sid w)) = {s. (s, sid) \<in> (child_of (w_servers w))\<^sup>*}"
    "distinct (fst (server_split ks sid w))"
    "w_servers (snd (server_split ks sid w)) =
           (\<lambda>s. if (s, sid) \<in> (child_of (w_servers w))\<^sup>* then None else w_servers w s)"
    by (simp_all add: server_split_def Let_def fold_remove fun_eq_iff)
qed

subsection \<open>Incident codes\<close>

definition base36_value :: "char \<Rightarrow> nat" where
  "base36_value c = (if code c < 58 then code c - 48 else code c - 55)"

lemma base36_value_digit: "n < 36 \<Longrightarrow> base36_value (base36_digit n) = n"
  by (simp add: base36_value_def base36_digit_def code_def)

definition code_value :: "string \<Rightarrow> nat" where
  "code_value s = foldl (\<lambda>n c. 36 * n + base36_value c) 0 s"

lemma code_value_digits: "code_value (rev (incident_digits n)) = n"
proof (induction n rule: incident_digits.induct)
  case (1 n)
  show ?case
  proof (cases "n = 0")
    case True
    then show ?thesis by (simp add: incident_digits.simps [of 0] code_value_def)
  next
    case False
    with 1 have "foldl (\<lambda>n c. 36 * n + base36_value c) 0 (rev (incident_digits (n div 36))) = n div 36"
      by (simp add: code_value_def)
    with False show ?thesis
      by (simp add: incident_digits.simps [of n] code_value_def base36_value_digit)
  qed
qed

lemma code_value_code: "code_value (incident_code n) = n"
  by (simp add: incident_code_def code_value_digits) (simp add: code_value_def base36_value_def code_def)

lemma incident_code_inj: "inj incident_code"
  by (metis code_value_code injI)

text \<open>The ring holds the codes of the latest counters, in order.\<close>

definition incidents_ok :: "network \<Rightarrow> bool" where
  "incidents_ok w \<longleftrightarrow> length (w_incidents w) \<le> incident_cap \<and>
     length (w_incidents w) \<le> w_incident_seq w \<and>
     map in_id (w_incidents w) =
       map incident_code [w_incident_seq w - length (w_incidents w) ..< w_incident_seq w]"

lemma incidents_ok_distinct: "incidents_ok w \<Longrightarrow> distinct (map in_id (w_incidents w))"
  using inj_on_subset [OF incident_code_inj] by (auto simp: incidents_ok_def distinct_map)

lemma record_incident_ok:
  assumes "incidents_ok w"
  shows "incidents_ok (snd (record_incident summary now w))"
proof -
  let ?is = "w_incidents w @ [\<lparr>in_id = incident_code (w_incident_seq w), in_ts = now, in_summary = summary\<rparr>]"
  let ?l = "length (w_incidents w)" and ?s = "w_incident_seq w"
  from assms have l: "?l \<le> ?s" "?l \<le> incident_cap"
    and m: "map in_id (w_incidents w) = map incident_code [?s - ?l ..< ?s]"
    by (auto simp: incidents_ok_def)
  have all: "map in_id ?is = map incident_code [?s - ?l ..< Suc ?s]"
    using l m by simp
  have "map in_id (drop n ?is) = map incident_code [?s - ?l + n ..< Suc ?s]" for n
    using arg_cong [OF all, of "drop n"] by (simp only: drop_map drop_upt)
  from this [of "Suc ?l - incident_cap"] l show ?thesis
    by (auto simp: incidents_ok_def record_incident_def Let_def simp del: upt_Suc) (simp add: Suc_diff_le le_diff_conv)
qed

lemma incident_eta: "\<lparr>in_id = in_id x, in_ts = in_ts x, in_summary = in_summary x\<rparr> = x"
  by (cases x) simp

lemma incident_snapshot_roundtrip:
  "seed_incidents (fst (incidents_snapshot w)) (snd (incidents_snapshot w)) w' =
     w'\<lparr>w_incident_seq := w_incident_seq w, w_incidents := w_incidents w\<rparr>"
  by (simp add: seed_incidents_def incidents_snapshot_def comp_def case_prod_unfold incident_eta)

subsection \<open>Last-seen records\<close>

definition seen_walk :: "string list \<Rightarrow> string \<Rightarrow> network \<Rightarrow> bool" where
  "seen_walk ks nick w \<longleftrightarrow> distinct ks \<and> set ks = insert (key nick) (dom (w_seen w))"

definition seen_ok :: "network \<Rightarrow> bool" where
  "seen_ok w \<longleftrightarrow> finite (dom (w_seen w)) \<and> card (dom (w_seen w)) \<le> seen_cap"

lemma dom_fold_remove: "dom (fold (\<lambda>s m. m(s := None)) xs m) = dom m - set xs"
proof -
  have "fold (\<lambda>s m. m(s := None)) xs m = (\<lambda>k. if k \<in> set xs then None else m k)"
    by (rule ext) (rule fold_remove)
  then show ?thesis by (auto split: if_splits)
qed

lemma record_seen_dom:
  assumes "seen_walk ks nick w"
  shows "dom (w_seen (record_seen ks (key nick) e w)) =
    (if length ks > seen_cap
     then set ks - set (take (seen_cap div 4) (sort_key (\<lambda>k. case ((w_seen w)(key nick \<mapsto> e)) k of
            None \<Rightarrow> 0 | Some s \<Rightarrow> sn_ts s) ks))
     else set ks)"
proof -
  have "dom ((w_seen w)(key nick \<mapsto> e)) = set ks" using assms by (simp add: seen_walk_def)
  then show ?thesis
    unfolding record_seen_def Let_def
    by (cases "length ks > seen_cap") (simp_all add: dom_fold_remove del: dom_fun_upd fun_upd_apply)
qed

lemma record_seen_ok:
  assumes "seen_ok w" "seen_walk ks nick w"
  shows "seen_ok (record_seen ks (key nick) e w)"
proof -
  from assms have d: "distinct ks" and s: "set ks = insert (key nick) (dom (w_seen w))"
    by (simp_all add: seen_walk_def)
  have l: "length ks \<le> Suc seen_cap"
    using d s assms(1) distinct_card [OF d] by (simp add: seen_ok_def card_insert_if split: if_splits)
  let ?f = "\<lambda>k. case ((w_seen w)(key nick \<mapsto> e)) k of None \<Rightarrow> 0 | Some s \<Rightarrow> sn_ts s"
  have "card (set ks - set (take (seen_cap div 4) (sort_key ?f ks))) \<le> seen_cap" if "length ks > seen_cap"
  proof -
    have "set (take (seen_cap div 4) (sort_key ?f ks)) \<subseteq> set ks"
      by (metis set_sort set_take_subset)
    moreover have "card (set (take (seen_cap div 4) (sort_key ?f ks))) = seen_cap div 4"
      using d that by (subst distinct_card) (auto simp: min_def seen_cap_def)
    ultimately show ?thesis
      using l distinct_card [OF d] by (simp add: card_Diff_subset finite_subset seen_cap_def)
  qed
  with record_seen_dom [OF assms(2), of e] distinct_card [OF d] show ?thesis
    by (auto simp: seen_ok_def)
qed

text \<open>What a prune drops is never fresher than what it keeps.\<close>

lemma sort_key_take_drop:
  assumes "x \<in> set (take n (sort_key f ks))" "y \<in> set ks" "y \<notin> set (take n (sort_key f ks))"
  shows "f x \<le> f y"
proof -
  have "sorted (map f (take n (sort_key f ks) @ drop n (sort_key f ks)))" by simp
  then have "\<forall>a \<in> set (take n (sort_key f ks)). \<forall>b \<in> set (drop n (sort_key f ks)). f a \<le> f b"
    unfolding map_append sorted_append by auto
  moreover have "y \<in> set (drop n (sort_key f ks))"
    using assms(2,3) by (metis Un_iff append_take_drop_id set_append set_sort)
  ultimately show ?thesis using assms(1) by blast
qed

lemma record_seen_prunes_stalest:
  assumes "seen_walk ks nick w" "k \<in> set ks" "w_seen (record_seen ks (key nick) e w) k = None"
    and "w_seen (record_seen ks (key nick) e w) k' = Some s'"
    and "((w_seen w)(key nick \<mapsto> e)) k = Some s"
  shows "sn_ts s \<le> sn_ts s'"
proof -
  let ?m = "(w_seen w)(key nick \<mapsto> e)"
  let ?f = "\<lambda>k. case ?m k of None \<Rightarrow> 0 | Some s \<Rightarrow> sn_ts s"
  let ?T = "take (seen_cap div 4) (sort_key ?f ks)"
  have big: "length ks > seen_cap"
    using assms(3,5) by (auto simp: record_seen_def Let_def split: if_splits)
  then have k: "k \<in> set ?T" and k': "k' \<notin> set ?T" "?m k' = Some s'"
    using assms(3-5) by (auto simp: record_seen_def Let_def fold_remove split: if_splits)
  have "k' \<in> set ks" using k'(2) assms(1) by (auto simp: seen_walk_def split: if_splits)
  from sort_key_take_drop [OF k this k'(1)] assms(5) k'(2) show ?thesis by simp
qed

subsection \<open>Sessions per address\<close>

definition on_ip :: "network \<Rightarrow> string \<Rightarrow> string set" where
  "on_ip w ip = {uid. map_option u_ip (w_users w uid) = Some ip}"

definition sessions_ok :: "network \<Rightarrow> bool" where
  "sessions_ok w \<longleftrightarrow> finite (dom (w_users w)) \<and> w_sessions w [] = None \<and>
     (\<forall>ip n. w_sessions w ip = Some n \<longrightarrow> 0 < n) \<and>
     (\<forall>ip. ip \<noteq> [] \<longrightarrow> session_count w ip = card (on_ip w ip))"

lemma finite_on_ip: "finite (dom (w_users w)) \<Longrightarrow> finite (on_ip w ip)"
  by (rule finite_subset [of _ "dom (w_users w)"]) (auto simp: on_ip_def)

lemma on_ip_frame: "w_users w' = w_users w \<Longrightarrow> on_ip w' ip = on_ip w ip"
  by (simp add: on_ip_def)

lemma sessions_ok_frame:
  "sessions_ok w \<Longrightarrow> w_users w' = w_users w \<Longrightarrow> w_sessions w' = w_sessions w \<Longrightarrow> sessions_ok w'"
  by (simp add: sessions_ok_def on_ip_def session_count_def)

lemma on_user_sessions_ok:
  assumes "sessions_ok w" "\<And>u. u_ip (f u) = u_ip u"
  shows "sessions_ok (on_user uid f w)"
proof -
  have "on_ip (on_user uid f w) ip = on_ip w ip" for ip
    using assms(2) by (auto simp: on_ip_def on_user_def modify_apply)
  with assms(1) show ?thesis by (simp add: sessions_ok_def on_user_def session_count_def)
qed

lemma user_connect_sessions_ok:
  assumes "sessions_ok w" "w_users w uid = None"
  shows "sessions_ok (user_connect uid nick host ip w)"
proof -
  have on: "on_ip (user_connect uid nick host ip w) ip' =
      (if ip' = ip then insert uid (on_ip w ip) else on_ip w ip')" for ip'
    using assms(2) by (auto simp: on_ip_def user_connect_def)
  have "uid \<notin> on_ip w ip" using assms(2) by (simp add: on_ip_def)
  then have "card (insert uid (on_ip w ip)) = Suc (card (on_ip w ip))"
    using assms(1) finite_on_ip by (simp add: sessions_ok_def)
  with assms(1) show ?thesis
    unfolding sessions_ok_def on
    by (auto simp: user_connect_def upsert_def session_count_def split: option.splits)
qed

lemma user_quit_users: "w_users (user_quit ks now uid w) = (w_users w)(uid := None)"
  by (auto simp: user_quit_def Let_def record_seen_def release_session_def split: option.splits)

lemma user_quit_sessions:
  "w_sessions (user_quit ks now uid w) =
     (case w_users w uid of None \<Rightarrow> w_sessions w
      | Some u \<Rightarrow> w_sessions (release_session (u_ip u) w))"
  by (auto simp: user_quit_def Let_def record_seen_def release_session_def split: option.splits)

lemma user_quit_sessions_ok:
  assumes "sessions_ok w"
  shows "sessions_ok (user_quit ks now uid w)"
proof (cases "w_users w uid")
  case None
  then have "(w_users w)(uid := None) = w_users w" by auto
  with None assms show ?thesis
    by (intro sessions_ok_frame [OF assms]) (simp_all add: user_quit_users user_quit_sessions)
next
  case (Some u)
  let ?w = "user_quit ks now uid w" and ?ip = "u_ip u"
  have on: "on_ip ?w ip' = (if ip' = ?ip then on_ip w ?ip - {uid} else on_ip w ip')" for ip'
    using Some by (auto simp: on_ip_def user_quit_users)
  have "uid \<in> on_ip w ?ip" using Some by (simp add: on_ip_def)
  then have card: "card (on_ip w ?ip - {uid}) = card (on_ip w ?ip) - 1"
    using assms finite_on_ip by (simp add: sessions_ok_def)
  have s: "w_sessions ?w = w_sessions (release_session ?ip w)"
    using Some by (simp add: user_quit_sessions)
  have cnt: "session_count ?w ip' = (if ip' = ?ip then session_count w ?ip - 1 else session_count w ip')" for ip'
    using assms by (auto simp: s session_count_def release_session_def sessions_ok_def split: option.splits)
  show ?thesis
    unfolding sessions_ok_def on cnt
    using assms card by (auto simp: s user_quit_users sessions_ok_def release_session_def split: option.splits if_splits)
qed

subsection \<open>ChanFix scores\<close>

definition score :: "(string \<rightharpoonup> (string \<rightharpoonup> nat)) \<Rightarrow> string \<Rightarrow> string \<Rightarrow> nat" where
  "score f c i = (case f c of None \<Rightarrow> 0 | Some m \<Rightarrow> (case m i of None \<Rightarrow> 0 | Some n \<Rightarrow> n))"

definition chanfix_ok :: "network \<Rightarrow> bool" where
  "chanfix_ok w \<longleftrightarrow> (\<forall>c m. w_chanfix w c = Some m \<longrightarrow>
     (\<exists>i. m i \<noteq> None) \<and> (\<forall>i n. m i = Some n \<longrightarrow> 0 < n \<and> n \<le> chanfix_max))"

lemma score_add:
  "score (chanfix_add s f) c i =
     (if s = (c, i) then min (score f c i + chanfix_bump) chanfix_max else score f c i)"
  by (cases s) (auto simp: score_def chanfix_add_def upsert_def split: option.splits)

lemma score_fold_add:
  "score f c i \<le> chanfix_max \<Longrightarrow>
   score (fold chanfix_add ss f) c i = min (score f c i + chanfix_bump * count_list ss (c, i)) chanfix_max"
proof (induction ss arbitrary: f)
  case (Cons s ss)
  have "score (chanfix_add s f) c i \<le> chanfix_max"
    using Cons.prems by (simp add: score_add)
  from Cons.IH [OF this] show ?case by (auto simp: score_add)
qed simp

definition chanfix_walk :: "(string \<Rightarrow> string list) \<Rightarrow> (string \<Rightarrow> string list) \<Rightarrow> string list \<Rightarrow> network \<Rightarrow> bool" where
  "chanfix_walk ko ki kc w \<longleftrightarrow>
     (\<forall>c m. fold chanfix_add (chanfix_samples kc ko w)
        (\<lambda>c. map_option (\<lambda>m i. map_option (\<lambda>n. n - 1) (m i)) (w_chanfix w c)) c = Some m \<longrightarrow>
        dom m \<subseteq> set (ki c))"

lemma chanfix_max_pos: "0 < chanfix_max"
  by (simp add: chanfix_max_def)

lemma chanfix_ok_score: "chanfix_ok w \<Longrightarrow> score (w_chanfix w) c i \<le> chanfix_max"
  using chanfix_max_pos by (fastforce simp: chanfix_ok_def score_def split: option.splits)

lemma score_decay:
  "score (\<lambda>c. map_option (\<lambda>m i. map_option (\<lambda>n. n - 1) (m i)) (f c)) c i = score f c i - 1"
  by (auto simp: score_def split: option.splits)

lemma chanfix_sample_effect:
  assumes "chanfix_ok w" "chanfix_walk ko ki kc w"
  shows "score (w_chanfix (chanfix_sample kc ko ki w)) c i =
      min (score (w_chanfix w) c i - 1 + chanfix_bump * count_list (chanfix_samples kc ko w) (c, i)) chanfix_max"
    and "chanfix_ok (chanfix_sample kc ko ki w)"
proof -
  define d where "d = (\<lambda>c. map_option (\<lambda>m i. map_option (\<lambda>n. n - 1) (m i)) (w_chanfix w c))"
  define a where "a = fold chanfix_add (chanfix_samples kc ko w) d"
  have sd: "score d c i = score (w_chanfix w) c i - 1" for c i
    unfolding d_def by (rule score_decay)
  have dmax: "score d c i \<le> chanfix_max" for c i
    using chanfix_ok_score [OF assms(1), of c i] by (simp add: sd)
  have asc: "score a c i = min (score d c i + chanfix_bump * count_list (chanfix_samples kc ko w) (c, i)) chanfix_max" for c i
    unfolding a_def using score_fold_add [OF dmax] .
  have walk: "dom m \<subseteq> set (ki c)" if "a c = Some m" for c m
    using assms(2) that by (auto simp: chanfix_walk_def a_def d_def)
  define k :: "(string \<rightharpoonup> nat) \<Rightarrow> (string \<rightharpoonup> nat)"
    where "k m = (\<lambda>i. case m i of Some n \<Rightarrow> if n > 0 then Some n else None | None \<Rightarrow> None)" for m
  have f: "w_chanfix (chanfix_sample kc ko ki w) c =
      (case a c of None \<Rightarrow> None
       | Some m \<Rightarrow> if list_all (\<lambda>i. k m i = None) (ki c) then None else Some (k m))" for c
    by (simp add: chanfix_sample_def Let_def a_def d_def k_def split: option.split)
  have k: "k m i = Some n \<longleftrightarrow> m i = Some n \<and> 0 < n" for m i n
    by (auto simp: k_def split: option.splits)
  have same: "score (w_chanfix (chanfix_sample kc ko ki w)) c i = score a c i" for c i
  proof (cases "a c")
    case None
    then show ?thesis by (simp add: f score_def)
  next
    case (Some m)
    have "m i = Some n \<Longrightarrow> i \<in> set (ki c)" for n using walk [OF Some] by auto
    with Some show ?thesis
      by (auto simp: f score_def k_def list_all_iff split: option.splits if_splits)
  qed
  then show "score (w_chanfix (chanfix_sample kc ko ki w)) c i =
      min (score (w_chanfix w) c i - 1 + chanfix_bump * count_list (chanfix_samples kc ko w) (c, i)) chanfix_max"
    by (simp add: asc sd)
  show "chanfix_ok (chanfix_sample kc ko ki w)"
    unfolding chanfix_ok_def
  proof (intro allI impI)
    fix c m
    assume m: "w_chanfix (chanfix_sample kc ko ki w) c = Some m"
    then obtain mm where mm: "m = k mm" "\<not> list_all (\<lambda>i. k mm i = None) (ki c)"
      by (auto simp: f split: option.splits if_splits)
    then have "\<exists>i. m i \<noteq> None" by (auto simp: list_all_iff)
    moreover have "0 < n \<and> n \<le> chanfix_max" if "m i = Some n" for i n
    proof -
      have "score (w_chanfix (chanfix_sample kc ko ki w)) c i = n" using m that by (simp add: score_def)
      moreover have "score a c i \<le> chanfix_max" by (simp add: asc)
      moreover have "0 < n" using mm that by (simp add: k)
      ultimately show ?thesis by (simp add: same)
    qed
    ultimately show "(\<exists>i. m i \<noteq> None) \<and> (\<forall>i n. m i = Some n \<longrightarrow> 0 < n \<and> n \<le> chanfix_max)" by blast
  qed
qed

end
