(* ===== verification/NetRun.thy ===== *)
theory NetRun
  imports NetProps
begin

text \<open>
  The live network as a state machine: every operation of \<^verbatim>\<open>Network\<close> that changes it is a step, the
  well-formedness of the view is kept by each, and so holds after any run. A user connects with a
  uid nobody uses, as the protocol promises; the last part shows the session count that is lost
  when that fails.
\<close>

subsection \<open>Well-formed views\<close>

definition folded :: "(string \<rightharpoonup> 'v) \<Rightarrow> bool" where
  "folded m \<longleftrightarrow> (\<forall>k \<in> dom m. key k = k)"

lemma folded_upd: "folded m \<Longrightarrow> folded (m(key k \<mapsto> v))"
  by (auto simp: folded_def)

lemma folded_remove: "folded m \<Longrightarrow> folded (m(k := None))"
  by (auto simp: folded_def)

lemma folded_modify: "folded m \<Longrightarrow> folded (modify k f m)"
  by (simp add: folded_def)

lemma folded_map: "folded m \<Longrightarrow> folded (\<lambda>k. map_option f (m k))"
  by (auto simp: folded_def dom_def)

lemma folded_upsert: "folded m \<Longrightarrow> folded (upsert (key k) v f m)"
  by (simp add: upsert_def folded_upd)

definition names_ok :: "network \<Rightarrow> bool" where
  "names_ok w \<longleftrightarrow> folded (w_channels w) \<and> folded (w_bots w) \<and>
     (\<forall>uid u. w_users w uid = Some u \<longrightarrow> u_uid u = uid)"

definition net_ok :: "network \<Rightarrow> bool" where
  "net_ok w \<longleftrightarrow> names_ok w \<and> sessions_ok w \<and> seen_ok w \<and> incidents_ok w \<and> chanfix_ok w"

lemma net_okI:
  assumes "names_ok w" "sessions_ok w" "seen_ok w" "incidents_ok w" "chanfix_ok w"
  shows "net_ok w"
  using assms by (simp add: net_ok_def)

lemma seen_ok_frame: "seen_ok w \<Longrightarrow> w_seen w' = w_seen w \<Longrightarrow> seen_ok w'"
  by (simp add: seen_ok_def)

lemma incidents_ok_frame:
  "incidents_ok w \<Longrightarrow> w_incidents w' = w_incidents w \<Longrightarrow> w_incident_seq w' = w_incident_seq w \<Longrightarrow>
   incidents_ok w'"
  by (simp add: incidents_ok_def)

lemma chanfix_ok_frame: "chanfix_ok w \<Longrightarrow> w_chanfix w' = w_chanfix w \<Longrightarrow> chanfix_ok w'"
  by (simp add: chanfix_ok_def)

text \<open>Steps that touch none of the bounded tables, steps on one user and steps on one channel.\<close>

lemma net_ok_channels:
  assumes "net_ok w" "folded (w_channels w')"
    and "w_users w' = w_users w" "w_sessions w' = w_sessions w" "w_seen w' = w_seen w"
    and "w_bots w' = w_bots w" "w_incidents w' = w_incidents w"
    and "w_incident_seq w' = w_incident_seq w" "w_chanfix w' = w_chanfix w"
  shows "net_ok w'"
proof (rule net_okI)
  from assms(1) have ok: "sessions_ok w" "seen_ok w" "incidents_ok w" "chanfix_ok w"
    by (simp_all add: net_ok_def)
  show "names_ok w'" using assms by (simp add: net_ok_def names_ok_def)
  show "sessions_ok w'" by (rule sessions_ok_frame [OF ok(1) assms(3,4)])
  show "seen_ok w'" by (rule seen_ok_frame [OF ok(2) assms(5)])
  show "incidents_ok w'" by (rule incidents_ok_frame [OF ok(3) assms(7,8)])
  show "chanfix_ok w'" by (rule chanfix_ok_frame [OF ok(4) assms(9)])
qed

lemma net_ok_plain:
  assumes "net_ok w" "w_channels w' = w_channels w"
    and "w_users w' = w_users w" "w_sessions w' = w_sessions w" "w_seen w' = w_seen w"
    and "w_bots w' = w_bots w" "w_incidents w' = w_incidents w"
    and "w_incident_seq w' = w_incident_seq w" "w_chanfix w' = w_chanfix w"
  shows "net_ok w'"
  using assms by (intro net_ok_channels [OF assms(1)]) (simp_all add: net_ok_def names_ok_def)

lemma net_ok_on_live_channel: "net_ok w \<Longrightarrow> net_ok (on_live_channel chan f w)"
  by (rule net_ok_channels) (simp_all add: on_live_channel_def folded_upsert net_ok_def names_ok_def)

lemma net_ok_on_user:
  assumes "net_ok w" "\<And>u. u_ip (f u) = u_ip u" "\<And>u. u_uid (f u) = u_uid u"
  shows "net_ok (on_user uid f w)"
proof (rule net_okI)
  show "names_ok (on_user uid f w)"
    using assms(1,3) by (auto simp: net_ok_def names_ok_def on_user_def modify_apply split: if_splits)
  show "sessions_ok (on_user uid f w)"
    using assms(1,2) on_user_sessions_ok by (simp add: net_ok_def)
  show "seen_ok (on_user uid f w)" "incidents_ok (on_user uid f w)" "chanfix_ok (on_user uid f w)"
    using assms(1) by (simp_all add: net_ok_def on_user_def seen_ok_def incidents_ok_def chanfix_ok_def)
qed

lemma record_seen_frame [simp]:
  "w_users (record_seen ks k e w) = w_users w" "w_sessions (record_seen ks k e w) = w_sessions w"
  "w_channels (record_seen ks k e w) = w_channels w" "w_bots (record_seen ks k e w) = w_bots w"
  "w_accounts (record_seen ks k e w) = w_accounts w"
  "w_incidents (record_seen ks k e w) = w_incidents w" "w_chanfix (record_seen ks k e w) = w_chanfix w"
  "w_incident_seq (record_seen ks k e w) = w_incident_seq w"
  by (simp_all add: record_seen_def Let_def)

lemma net_ok_record_seen:
  assumes "net_ok w" "seen_walk ks nick w"
  shows "net_ok (record_seen ks (key nick) e w)"
proof (rule net_okI)
  show "seen_ok (record_seen ks (key nick) e w)"
    using assms record_seen_ok by (simp add: net_ok_def)
  show "sessions_ok (record_seen ks (key nick) e w)"
    by (rule sessions_ok_frame [of w]) (use assms(1) in \<open>simp_all add: net_ok_def\<close>)
qed (use assms(1) in \<open>simp_all add: net_ok_def names_ok_def incidents_ok_def chanfix_ok_def\<close>)

subsection \<open>Steps\<close>

inductive net_step :: "network \<Rightarrow> network \<Rightarrow> bool" where
  Connect: "w_users w uid = None \<Longrightarrow> net_step w (user_connect uid nick host ip w)"
| Attrs: "net_step w (set_user_attrs uid ident realhost gecos w)"
| Cert: "net_step w (set_user_cert uid fp w)"
| OperUp: "net_step w (set_user_oper uid ot w)"
| UMode: "net_step w (apply_user_mode uid delta w)"
| Nick: "seen_walk ks nick w \<Longrightarrow> net_step w (user_nick_change ks now uid nick w)"
| Quit: "(\<And>u. w_users w uid = Some u \<Longrightarrow> seen_walk ks (u_nick u) w) \<Longrightarrow> net_step w (user_quit ks now uid w)"
| Login: "net_step w (set_account uid acct w)"
| Logout: "net_step w (clear_account uid w)"
| BotUp: "net_step w (bot_connect nick uid w)"
| BotDown: "net_step w (bot_forget nick_lc w)"
| BotsDown: "net_step w (clear_bots w)"
| Opers: "net_step w (set_config_opers m w)"
| Modules: "net_step w (learn_modules ns w)"
| Bump: "net_step w (bump k w)"
| Incident: "net_step w (snd (record_incident summary now w))"
| ServerName: "net_step w (set_server_name sid n w)"
| ServerLink: "net_step w (server_link sid parent w)"
| ServerSplit: "net_step w (snd (server_split ks sid w))"
| ServersGone: "net_step w (clear_servers w)"
| Topic: "net_step w (set_live_topic chan topic setter w)"
| CMode: "net_step w (apply_channel_mode chan delta w)"
| Join: "(\<And>nick. net_nick_of w uid = Some nick \<Longrightarrow> seen_walk ks nick w) \<Longrightarrow>
     net_step w (channel_join ks now chan uid op w)"
| Part: "(\<And>nick. net_nick_of w uid = Some nick \<Longrightarrow> seen_walk ks nick w) \<Longrightarrow>
     net_step w (channel_part ks now chan uid w)"
| Rename: "net_step w (channel_rename old new w)"
| Gone: "net_step w (remove_channel chan w)"
| Op: "net_step w (set_op chan uid op w)"
| Voice: "net_step w (set_voice chan uid v w)"
| Key: "net_step w (set_channel_key chan k w)"
| Line: "net_step w (record_line kt km now chan nick msg w)"
| ChanFix: "chanfix_walk ko ki kc w \<Longrightarrow> net_step w (chanfix_sample kc ko ki w)"

lemma net_ok_empty: "net_ok network_empty"
  by (simp add: net_ok_def names_ok_def sessions_ok_def seen_ok_def incidents_ok_def chanfix_ok_def
      network_empty_def folded_def session_count_def on_ip_def)

lemma net_ok_connect:
  assumes "net_ok w" "w_users w uid = None"
  shows "net_ok (user_connect uid nick host ip w)"
proof (rule net_okI)
  show "sessions_ok (user_connect uid nick host ip w)"
    using assms user_connect_sessions_ok by (simp add: net_ok_def)
qed (use assms(1) in \<open>auto simp: user_connect_def net_ok_def names_ok_def seen_ok_def incidents_ok_def chanfix_ok_def\<close>)

lemma net_ok_quit:
  assumes "net_ok w" "\<And>u. w_users w uid = Some u \<Longrightarrow> seen_walk ks (u_nick u) w"
  shows "net_ok (user_quit ks now uid w)"
proof (rule net_okI)
  show "names_ok (user_quit ks now uid w)"
    using assms(1)
    by (auto simp: net_ok_def names_ok_def user_quit_users folded_map)
      (auto simp: user_quit_def Let_def release_session_def folded_map split: option.splits)
  show "sessions_ok (user_quit ks now uid w)"
    using assms(1) user_quit_sessions_ok by (simp add: net_ok_def)
  show "seen_ok (user_quit ks now uid w)"
  proof (cases "w_users w uid")
    case None
    with assms(1) show ?thesis by (simp add: net_ok_def user_quit_def seen_ok_def)
  next
    case (Some u)
    with assms have "seen_ok (record_seen ks (key (u_nick u))
        \<lparr>sn_nick = u_nick u, sn_ts = now, sn_what = ''quitting''\<rparr> w)"
      using record_seen_ok by (simp add: net_ok_def)
    with Some show ?thesis
      by (auto simp: user_quit_def Let_def release_session_def seen_ok_def split: option.splits)
  qed
  show "incidents_ok (user_quit ks now uid w)" "chanfix_ok (user_quit ks now uid w)"
    using assms(1)
    by (auto simp: net_ok_def incidents_ok_def chanfix_ok_def user_quit_def Let_def release_session_def
        split: option.splits)
qed

lemma net_step_ok:
  assumes "net_step w w'" "net_ok w"
  shows "net_ok w'"
  using assms
proof (induction rule: net_step.induct)
  case (Connect w uid)
  then show ?case by (simp add: net_ok_connect)
next
  case (Nick ks nick w now uid)
  have "net_ok (on_user uid (\<lambda>u. u\<lparr>u_nick := nick\<rparr>) w)"
    by (rule net_ok_on_user [OF Nick(2)]) simp_all
  moreover have "seen_walk ks nick (on_user uid (\<lambda>u. u\<lparr>u_nick := nick\<rparr>) w)"
    using Nick(1) by (simp add: seen_walk_def on_user_def)
  ultimately show ?case
    using Nick(2) by (auto simp: user_nick_change_def net_ok_record_seen split: option.split)
next
  case (Quit w uid ks now)
  then show ?case by (simp add: net_ok_quit)
next
  case (Incident w summary now)
  let ?w = "snd (record_incident summary now w)"
  have eq: "w_users ?w = w_users w" "w_sessions ?w = w_sessions w" "w_seen ?w = w_seen w"
    "w_chanfix ?w = w_chanfix w" "w_channels ?w = w_channels w" "w_bots ?w = w_bots w"
    by (simp_all add: record_incident_def Let_def)
  from Incident have ok: "names_ok w" "sessions_ok w" "seen_ok w" "incidents_ok w" "chanfix_ok w"
    by (simp_all add: net_ok_def)
  show ?case
  proof (rule net_okI)
    show "names_ok ?w" using ok(1) by (simp add: names_ok_def eq)
    show "sessions_ok ?w" by (rule sessions_ok_frame [OF ok(2) eq(1,2)])
    show "seen_ok ?w" by (rule seen_ok_frame [OF ok(3) eq(3)])
    show "incidents_ok ?w" by (rule record_incident_ok [OF ok(4)])
    show "chanfix_ok ?w" by (rule chanfix_ok_frame [OF ok(5) eq(4)])
  qed
next
  case (Join w uid ks now chan op)
  let ?w = "on_live_channel chan (\<lambda>c. c\<lparr>lc_members := insert uid (lc_members c),
                  lc_ops := (if op then insert uid (lc_ops c) else lc_ops c)\<rparr>) w"
  have "net_ok ?w" by (rule net_ok_on_live_channel [OF Join(2)])
  moreover have "net_nick_of ?w uid = net_nick_of w uid" "seen_walk ks n ?w = seen_walk ks n w" for n
    by (simp_all add: net_nick_of_def on_live_channel_def seen_walk_def)
  ultimately show ?case
    using Join(1) by (auto simp: channel_join_def Let_def net_ok_record_seen split: option.split)
next
  case (Part w uid ks now chan)
  let ?w = "w\<lparr>w_channels := modify (key chan) (leave_channel uid) (w_channels w)\<rparr>"
  have "net_ok ?w"
    by (rule net_ok_channels [OF Part(2)]) (use Part(2) in \<open>simp_all add: net_ok_def names_ok_def folded_modify\<close>)
  moreover have "net_nick_of ?w uid = net_nick_of w uid" "seen_walk ks n ?w = seen_walk ks n w" for n
    by (simp_all add: net_nick_of_def seen_walk_def)
  ultimately show ?case
    using Part(1) by (auto simp: channel_part_def Let_def net_ok_record_seen split: option.split)
next
  case (ChanFix ko ki kc w)
  have "chanfix_ok (chanfix_sample kc ko ki w)"
    using chanfix_sample_effect(2) ChanFix by (simp add: net_ok_def)
  then show ?case
    using ChanFix(2)
    by (intro net_okI) (simp_all add: net_ok_def names_ok_def sessions_ok_def seen_ok_def incidents_ok_def
        chanfix_sample_def Let_def on_ip_def session_count_def)
next
  case (BotUp w nick uid)
  then show ?case
    by (auto simp: net_ok_def bot_connect_def names_ok_def folded_upd sessions_ok_def on_ip_def session_count_def
        seen_ok_def incidents_ok_def chanfix_ok_def)
next
  case (BotDown w nick_lc)
  then show ?case
    by (auto simp: net_ok_def bot_forget_def names_ok_def folded_remove sessions_ok_def on_ip_def session_count_def
        seen_ok_def incidents_ok_def chanfix_ok_def)
next
  case (BotsDown w)
  then show ?case
    by (auto simp: net_ok_def clear_bots_def names_ok_def folded_def sessions_ok_def on_ip_def session_count_def
        seen_ok_def incidents_ok_def chanfix_ok_def)
next
  case (Attrs w)
  then show ?case unfolding set_user_attrs_def by (rule net_ok_on_user) simp_all
next
  case (Cert w)
  then show ?case unfolding set_user_cert_def by (rule net_ok_on_user) simp_all
next
  case (OperUp w)
  then show ?case unfolding set_user_oper_def by (rule net_ok_on_user) simp_all
next
  case (UMode w)
  then show ?case unfolding apply_user_mode_def by (rule net_ok_on_user) (simp_all add: Let_def)
next
  case (Topic w)
  then show ?case by (simp add: set_live_topic_def net_ok_on_live_channel)
next
  case (CMode w)
  then show ?case by (simp add: apply_channel_mode_def net_ok_on_live_channel)
next
  case (Op w)
  then show ?case by (simp add: set_op_def net_ok_on_live_channel)
next
  case (Voice w)
  then show ?case by (simp add: set_voice_def net_ok_on_live_channel)
next
  case (Key w)
  then show ?case by (simp add: set_channel_key_def net_ok_on_live_channel)
next
  case (Rename w old new)
  then have "folded (w_channels w)" by (simp add: net_ok_def names_ok_def)
  then have "folded (w_channels (channel_rename old new w))"
    by (auto simp: channel_rename_def folded_upd folded_remove split: option.split)
  then show ?case
    by (rule net_ok_channels [OF Rename]) (simp_all add: channel_rename_def split: option.split)
next
  case (Gone w chan)
  then have "folded (w_channels (remove_channel chan w))"
    by (simp add: net_ok_def names_ok_def remove_channel_def folded_remove)
  then show ?case
    by (rule net_ok_channels [OF Gone]) (simp_all add: remove_channel_def)
qed (erule net_ok_plain; simp add: set_account_def clear_account_def set_config_opers_def learn_modules_def
    bump_def set_server_name_def server_link_def server_split_def Let_def clear_servers_def record_line_def)+

lemma net_run_ok: "net_step\<^sup>*\<^sup>* w w' \<Longrightarrow> net_ok w \<Longrightarrow> net_ok w'"
  by (induction rule: rtranclp_induct) (auto intro: net_step_ok)

end
