(* ===== verification/Policy.thy ===== *)
theory Policy
  imports NetProps NetworkOps
begin

text \<open>
  Decisions taken from a registered channel's settings: the content kickers and their thresholds
  (\<^verbatim>\<open>KickerSettings\<close>), who holds what on the channel (\<^verbatim>\<open>ChannelInfo\<close> in src/src/engine/db/mod.rs and its
  projection \<^verbatim>\<open>ChannelView\<close> in api/src/lib.rs), and the mode lock with its enforcement.
\<close>

subsection \<open>Kickers\<close>

definition kickers_any :: "kicker_settings \<Rightarrow> bool" where
  "kickers_any k \<longleftrightarrow> k_caps k \<or> k_bolds k \<or> k_colors k \<or> k_underlines k \<or> k_reverses k \<or>
     k_italics k \<or> k_flood k \<or> k_repeat k \<or> k_badwords k"

definition flood_thresholds :: "kicker_settings \<Rightarrow> nat \<times> nat" where
  "flood_thresholds k =
     (if k_flood_lines k < 2 then 6 else k_flood_lines k,
      if k_flood_secs k = 0 then 10 else k_flood_secs k)"

definition repeat_threshold :: "kicker_settings \<Rightarrow> nat" where
  "repeat_threshold k = (if k_repeat_times k = 0 then 3 else k_repeat_times k)"

datatype kick_reason =
  BoldText | ColourText | UnderlineText | ReverseText | ItalicText | CapsText
| BadLanguage | Flooding | Repeating

definition caps_violation :: "kicker_settings \<Rightarrow> string \<Rightarrow> bool" where
  "caps_violation k txt =
     (let lo = (if k_caps_min k = 0 then 10 else k_caps_min k);
          percent = (if k_caps_percent k = 0 then 25 else k_caps_percent k);
          upper = length (filter is_ascii_uppercase txt);
          lower = length (filter is_ascii_lowercase txt)
      in length txt \<ge> lo \<and> upper + lower > 0 \<and> upper * 100 div (upper + lower) \<ge> percent)"

text \<open>The reasons are returned as constructors; the code returns their fixed wording.\<close>

definition violation :: "kicker_settings \<Rightarrow> string \<Rightarrow> kick_reason option" where
  "violation k txt =
     (if k_bolds k \<and> CHR 0x02 \<in> set txt then Some BoldText
      else if k_colors k \<and> CHR 0x03 \<in> set txt then Some ColourText
      else if k_underlines k \<and> CHR 0x1F \<in> set txt then Some UnderlineText
      else if k_reverses k \<and> CHR 0x16 \<in> set txt then Some ReverseText
      else if k_italics k \<and> CHR 0x1D \<in> set txt then Some ItalicText
      else if k_caps k \<and> caps_violation k txt then Some CapsText
      else None)"

subsection \<open>Access, as the channel record answers it\<close>

definition access_entry :: "channel_info \<Rightarrow> string \<Rightarrow> chan_access option" where
  "access_entry c acct = find (\<lambda>a. eq_ignore_ascii_case (ca_account a) acct) (c_access c)"

definition info_join_mode :: "channel_info \<Rightarrow> string \<Rightarrow> string option" where
  "info_join_mode c acct =
     (if eq_ignore_ascii_case (c_founder c) acct then cp_auto (level_caps ''founder'')
      else Option.bind (access_entry c acct) (\<lambda>a. cp_auto (level_caps (ca_level a))))"

definition info_is_op :: "channel_info \<Rightarrow> string \<Rightarrow> bool" where
  "info_is_op c acct \<longleftrightarrow> eq_ignore_ascii_case (c_founder c) acct \<or>
     (case access_entry c acct of None \<Rightarrow> False | Some a \<Rightarrow> cp_op (level_caps (ca_level a)))"

definition info_denied :: "channel_info \<Rightarrow> string \<Rightarrow> bool" where
  "info_denied c acct \<longleftrightarrow>
     (case access_entry c acct of None \<Rightarrow> False
      | Some a \<Rightarrow> flags_has (flags_from_level (ca_level a)) FNoStatus)"

definition akick_match :: "channel_info \<Rightarrow> ban_target \<Rightarrow> chan_akick option" where
  "akick_match c t = find (\<lambda>k. akick_matches (ak_mask k) t) (c_akick c)"

text \<open>\<^verbatim>\<open>channel_view\<close> keeps the LEVELS overrides it can parse; \<^verbatim>\<open>caps_of\<close> adds them to the entry's
  own capabilities.\<close>

definition view_levels :: "channel_info \<Rightarrow> (level_cap \<times> access_role_kind) list" where
  "view_levels c =
     List.map_filter (\<lambda>(cap, role). case (level_cap_parse cap, role_parse role) of
        (Some p, Some r) \<Rightarrow> Some (p, r) | _ \<Rightarrow> None) (c_levels c)"

definition view_caps_of :: "channel_info \<Rightarrow> string option \<Rightarrow> caps" where
  "view_caps_of c account =
     (case account of None \<Rightarrow> caps_default
      | Some acc \<Rightarrow>
          if eq_ignore_ascii_case (c_founder c) acc then level_caps ''founder''
          else case access_entry c acc of None \<Rightarrow> caps_default
            | Some a \<Rightarrow>
                let role = access_role (ca_level a) in
                foldl (\<lambda>caps (cap, r). if role_rank role \<ge> role_rank r then level_cap_grant cap caps else caps)
                  (level_caps (ca_level a)) (view_levels c))"

definition view_join_mode :: "channel_info \<Rightarrow> string \<Rightarrow> string option" where
  "view_join_mode c acct = cp_auto (view_caps_of c (Some acct))"

definition view_access_rank :: "channel_info \<Rightarrow> string option \<Rightarrow> rank" where
  "view_access_rank c account = cp_rank (view_caps_of c account)"

definition view_is_op :: "channel_info \<Rightarrow> string \<Rightarrow> bool" where
  "view_is_op c acct = cp_op (view_caps_of c (Some acct))"

text \<open>The overrides only add, and never touch the mode given on join.\<close>

lemma level_cap_grant_auto [simp]: "cp_auto (level_cap_grant cap c) = cp_auto c"
  and level_cap_grant_rank [simp]: "cp_rank (level_cap_grant cap c) = cp_rank c"
  and level_cap_grant_op: "cp_op c \<Longrightarrow> cp_op (level_cap_grant cap c)"
  by (cases cap; simp)+

lemma foldl_grants:
  "cp_auto (foldl (\<lambda>caps (cap, r). if p r then level_cap_grant cap caps else caps) c ls) = cp_auto c"
  "cp_op c \<Longrightarrow> cp_op (foldl (\<lambda>caps (cap, r). if p r then level_cap_grant cap caps else caps) c ls)"
  by (induction ls arbitrary: c) (auto simp: level_cap_grant_op)

lemma view_join_mode_info: "view_join_mode c acct = info_join_mode c acct"
  by (simp add: view_join_mode_def info_join_mode_def view_caps_of_def caps_default_def Let_def
      foldl_grants split: option.split)

lemma info_op_view_op: "info_is_op c acct \<Longrightarrow> view_is_op c acct"
  by (auto simp: info_is_op_def view_is_op_def view_caps_of_def level_caps_def Let_def foldl_grants
      split: option.splits if_splits)

subsection \<open>The mode lock\<close>

fun lock_param_text :: "(char \<times> string) list \<Rightarrow> string \<Rightarrow> string" where
  "lock_param_text ps [] = []"
| "lock_param_text ps (c # cs) =
     (case map_of ps c of None \<Rightarrow> lock_param_text ps cs
      | Some p \<Rightarrow> CHR '' '' # p @ lock_param_text ps cs)"

definition lock_modes :: "channel_info \<Rightarrow> string" where
  "lock_modes c =
     ''+r'' @ c_lock_on c @ (if c_lock_off c \<noteq> [] then CHR ''-'' # c_lock_off c else []) @
     lock_param_text (c_lock_params c) (c_lock_on c)"

fun enforce_scan :: "channel_info \<Rightarrow> bool \<Rightarrow> string \<Rightarrow> string \<Rightarrow> string \<Rightarrow> string \<times> string" where
  "enforce_scan c adding [] readd reremove = (readd, reremove)"
| "enforce_scan c adding (m # ms) readd reremove =
     (if m = CHR ''+'' then enforce_scan c True ms readd reremove
      else if m = CHR ''-'' then enforce_scan c False ms readd reremove
      else if is_ascii_alphabetic m then
        (if (m = CHR ''r'' \<or> m \<in> set (c_lock_on c)) \<and>
            (\<not> adding \<or> m \<in> fst ` set (c_lock_params c)) \<and> m \<notin> set readd
         then enforce_scan c adding ms (readd @ [m]) reremove
         else if m \<in> set (c_lock_off c) \<and> adding \<and> m \<notin> set reremove
         then enforce_scan c adding ms readd (reremove @ [m])
         else enforce_scan c adding ms readd reremove)
      else enforce_scan c adding ms readd reremove)"

definition enforce :: "channel_info \<Rightarrow> string \<Rightarrow> string option" where
  "enforce c change =
     (let (readd, reremove) = enforce_scan c True change [] [] in
      if readd = [] \<and> reremove = [] then None
      else Some ((if readd \<noteq> [] then CHR ''+'' # readd else []) @
                 (if reremove \<noteq> [] then CHR ''-'' # reremove else []) @
                 lock_param_text (c_lock_params c) readd))"

text \<open>A lock \<^verbatim>\<open>set_mlock\<close> accepts: letters, none both locked on and off, and \<^verbatim>\<open>r\<close> not locked off.\<close>

definition lock_sane :: "channel_info \<Rightarrow> bool" where
  "lock_sane c \<longleftrightarrow> list_all is_ascii_alphabetic (c_lock_on c @ c_lock_off c) \<and>
     set (c_lock_on c) \<inter> set (c_lock_off c) = {} \<and> CHR ''r'' \<notin> set (c_lock_off c)"

definition lock_held :: "channel_info \<Rightarrow> char set \<Rightarrow> bool" where
  "lock_held c s \<longleftrightarrow> CHR ''r'' \<in> s \<and> set (c_lock_on c) \<subseteq> s \<and> set (c_lock_off c) \<inter> s = {}"

text \<open>What the scan collects: the locked-on letters seen under a minus (or, with a parameter, under
  either sign) and the locked-off letters seen under a plus.\<close>

fun mentioned :: "bool \<Rightarrow> string \<Rightarrow> char \<Rightarrow> bool \<Rightarrow> bool" where
  "mentioned adding [] m b \<longleftrightarrow> False"
| "mentioned adding (x # xs) m b \<longleftrightarrow>
     (if x = CHR ''+'' then mentioned True xs m b
      else if x = CHR ''-'' then mentioned False xs m b
      else (x = m \<and> adding = b) \<or> mentioned adding xs m b)"

definition wants_readd :: "channel_info \<Rightarrow> char \<Rightarrow> bool \<Rightarrow> bool" where
  "wants_readd c m adding \<longleftrightarrow> (m = CHR ''r'' \<or> m \<in> set (c_lock_on c)) \<and>
     (\<not> adding \<or> m \<in> fst ` set (c_lock_params c))"

lemma sane_disjoint: "lock_sane c \<Longrightarrow> wants_readd c m b \<Longrightarrow> m \<notin> set (c_lock_off c)"
  by (auto simp: lock_sane_def wants_readd_def)

lemma enforce_scan_letter:
  assumes "lock_sane c" "x \<noteq> CHR ''+''" "x \<noteq> CHR ''-''" "is_ascii_alphabetic x"
  shows "enforce_scan c adding (x # xs) readd reremove = enforce_scan c adding xs
    (if wants_readd c x adding \<and> x \<notin> set readd then readd @ [x] else readd)
    (if x \<in> set (c_lock_off c) \<and> adding \<and> x \<notin> set reremove then reremove @ [x] else reremove)"
proof (cases "wants_readd c x adding")
  case True
  with sane_disjoint [OF assms(1) True] assms(2-4) show ?thesis by (auto simp: wants_readd_def)
next
  case False
  with assms(2-4) show ?thesis by (auto simp: wants_readd_def)
qed

lemma enforce_scan_sets:
  assumes "lock_sane c"
  shows "set (fst (enforce_scan c adding ms readd reremove)) =
      set readd \<union> {m. is_ascii_alphabetic m \<and> (\<exists>b. wants_readd c m b \<and> mentioned adding ms m b)} \<and>
    set (snd (enforce_scan c adding ms readd reremove)) =
      set reremove \<union> {m. is_ascii_alphabetic m \<and> m \<in> set (c_lock_off c) \<and> mentioned adding ms m True}"
proof (induction ms arbitrary: adding readd reremove)
  case (Cons x xs)
  consider "x = CHR ''+''" | "x = CHR ''-''" | "x \<noteq> CHR ''+''" "x \<noteq> CHR ''-''" "\<not> is_ascii_alphabetic x"
    | "x \<noteq> CHR ''+''" "x \<noteq> CHR ''-''" "is_ascii_alphabetic x" by blast
  then show ?case
  proof cases
    case 4
    show ?thesis
      unfolding enforce_scan_letter [OF assms 4] Cons.IH [THEN conjunct1] Cons.IH [THEN conjunct2]
      using 4 by auto
  qed (use Cons.IH in auto)
qed simp

lemma last_sign_mentioned: "last_sign adding ms m = Some b \<Longrightarrow> mentioned adding ms m b"
  by (induction adding ms m rule: last_sign.induct) (auto split: if_splits option.splits)

text \<open>The letters of the answer: those re-added, those removed again, then parameters.\<close>

lemma last_sign_letters:
  "list_all is_ascii_alphabetic xs \<Longrightarrow>
   last_sign adding (xs @ ys) m =
     (case last_sign adding ys m of Some b \<Rightarrow> Some b | None \<Rightarrow> if m \<in> set xs then Some adding else None)"
proof (induction xs)
  case (Cons x xs)
  have "x \<noteq> CHR ''+''" "x \<noteq> CHR ''-''" "x \<noteq> CHR '' ''"
    using Cons.prems by (auto simp: is_ascii_alphabetic_def is_ascii_lowercase_def is_ascii_uppercase_def code_def)
  with Cons show ?case by (auto split: option.splits)
qed (simp split: option.splits)

lemmas last_sign_letters_only = last_sign_letters [where ys = "[]", simplified]

lemma last_sign_params: "last_sign adding (lock_param_text ps xs) m = None"
  by (induction ps xs arbitrary: adding rule: lock_param_text.induct) (auto split: option.splits)

lemma last_sign_answer:
  assumes "list_all is_ascii_alphabetic (on @ off)"
  shows "last_sign True ((if on \<noteq> [] then CHR ''+'' # on else []) @
      (if off \<noteq> [] then CHR ''-'' # off else []) @ lock_param_text ps on) m =
    (if m \<in> set off then Some False else if m \<in> set on then Some True else None)"
  using assms by (auto simp: last_sign_letters last_sign_letters_only last_sign_params split: if_splits)

text \<open>Whatever a channel operator sends, the answer puts the lock back and touches no other mode.\<close>

lemma enforce_restores:
  assumes sane: "lock_sane c" and held: "lock_held c s"
    and answered: "s2 = (case enforce c change of None \<Rightarrow> apply_mode_delta s change []
                   | Some r \<Rightarrow> apply_mode_delta (apply_mode_delta s change []) r [])"
  shows "lock_held c s2"
    and "m \<notin> insert CHR ''r'' (set (c_lock_on c) \<union> set (c_lock_off c)) \<Longrightarrow>
      m \<in> s2 \<longleftrightarrow> m \<in> apply_mode_delta s change []"
proof -
  obtain on off where scan: "enforce_scan c True change [] [] = (on, off)" by force
  have on: "set on = {m. is_ascii_alphabetic m \<and> (\<exists>b. wants_readd c m b \<and> mentioned True change m b)}"
    and off: "set off = {m. is_ascii_alphabetic m \<and> m \<in> set (c_lock_off c) \<and> mentioned True change m True}"
    using enforce_scan_sets [OF sane, of True change "[]" "[]"] by (simp_all add: scan)
  let ?s1 = "apply_mode_delta s change []"
  have alpha: "list_all is_ascii_alphabetic (on @ off)" using on off by (auto simp: list_all_iff)
  have s2: "m \<in> s2 \<longleftrightarrow> (if m \<in> set off then False else if m \<in> set on then True else m \<in> ?s1)" for m
  proof (cases "on = [] \<and> off = []")
    case True
    then show ?thesis by (simp add: answered enforce_def scan)
  next
    case False
    then have e: "s2 = apply_mode_delta ?s1 ((if on \<noteq> [] then CHR ''+'' # on else []) @
        (if off \<noteq> [] then CHR ''-'' # off else []) @ lock_param_text (c_lock_params c) on) []"
      by (auto simp: answered enforce_def scan)
    show ?thesis
    proof (cases "is_ascii_alphabetic m")
      case True
      then show ?thesis
        unfolding e using last_sign_answer [OF alpha, of "c_lock_params c" m]
        by (simp add: apply_mode_delta_def mode_delta_iff split: if_splits)
    next
      case False
      then have "m \<notin> set on" "m \<notin> set off" using alpha by (auto simp: list_all_iff)
      with False show ?thesis unfolding e apply_mode_delta_def by (simp add: mode_delta_skip)
    qed
  qed
  have letters: "is_ascii_alphabetic m" if "m \<in> insert CHR ''r'' (set (c_lock_on c) \<union> set (c_lock_off c))" for m
    using that sane by (auto simp: lock_sane_def list_all_iff is_ascii_alphabetic_def is_ascii_lowercase_def code_def)
  have s1: "m \<in> ?s1 \<longleftrightarrow> (case last_sign True change m of Some b \<Rightarrow> b | None \<Rightarrow> m \<in> s)"
    if "is_ascii_alphabetic m" for m
    using that by (simp add: apply_mode_delta_def mode_delta_iff)
  show "lock_held c s2"
    unfolding lock_held_def
  proof (intro conjI)
    have up: "m \<in> s2" if m: "m = CHR ''r'' \<or> m \<in> set (c_lock_on c)" for m
    proof (cases "m \<in> ?s1")
      case True
      with m sane show ?thesis by (auto simp: s2 off lock_sane_def)
    next
      case False
      have a: "is_ascii_alphabetic m" using letters m by blast
      have "m \<in> s" using held m by (auto simp: lock_held_def)
      with False s1 [OF a] have "last_sign True change m = Some False"
        by (cases "last_sign True change m") auto
      then have "mentioned True change m False" by (rule last_sign_mentioned)
      moreover have "wants_readd c m False" using m by (simp add: wants_readd_def)
      ultimately have "m \<in> set on" using a by (auto simp: on)
      moreover have "m \<notin> set off" using m sane by (auto simp: off lock_sane_def)
      ultimately show ?thesis by (simp add: s2)
    qed
    show "CHR ''r'' \<in> s2" "set (c_lock_on c) \<subseteq> s2" using up by auto
    show "set (c_lock_off c) \<inter> s2 = {}"
    proof -
      have "m \<notin> s2" if m: "m \<in> set (c_lock_off c)" for m
      proof (cases "m \<in> ?s1")
        case True
        have a: "is_ascii_alphabetic m" using letters m by blast
        have "m \<notin> s" using held m by (auto simp: lock_held_def)
        with True s1 [OF a] have "last_sign True change m = Some True"
          by (cases "last_sign True change m") auto
        then have "m \<in> set off" using a m last_sign_mentioned by (simp add: off)
        then show ?thesis by (simp add: s2)
      next
        case False
        moreover have "m \<notin> set on" using sane_disjoint [OF sane] m by (auto simp: on)
        ultimately show ?thesis by (simp add: s2)
      qed
      then show ?thesis by blast
    qed
  qed
  assume "m \<notin> insert CHR ''r'' (set (c_lock_on c) \<union> set (c_lock_off c))"
  then show "m \<in> s2 \<longleftrightarrow> m \<in> ?s1"
    by (auto simp: s2 on off wants_readd_def)
qed

end
