(* ===== verification/Counter.thy ===== *)
theory Counter
  imports Prelude
begin

unbundle bit_operations_syntax

text \<open>
  The sliding-window event counters behind every rate detector (src/src/engine/security/counter.rs):
  the operations with their periodic garbage collection, and their agreement with a counter that
  remembers every event.
\<close>

subsection \<open>Operations\<close>

record counters =
  ct_windows :: "string \<rightharpoonup> nat list"
  ct_ops :: "32 word"

definition counters_empty :: counters where
  "counters_empty = \<lparr>ct_windows = Map.empty, ct_ops = 0\<rparr>"

definition expire :: "nat \<Rightarrow> nat list \<Rightarrow> nat list" where
  "expire cutoff at = dropWhile (\<lambda>t. t < cutoff) at"

definition as_u32 :: "nat \<Rightarrow> nat" where
  "as_u32 n = n mod 2 ^ 32"

definition maybe_gc :: "nat \<Rightarrow> counters \<Rightarrow> counters" where
  "maybe_gc now c =
     (let c1 = c\<lparr>ct_ops := ct_ops c + 1\<rparr> in
      if ct_ops c1 AND 0x3FF \<noteq> 0 then c1
      else c1\<lparr>ct_windows := (\<lambda>k. case ct_windows c1 k of None \<Rightarrow> None
             | Some at \<Rightarrow> if at \<noteq> [] \<and> last at \<ge> now - 3600 then Some at else None)\<rparr>)"

definition hit :: "string \<Rightarrow> nat \<Rightarrow> nat \<Rightarrow> counters \<Rightarrow> nat \<times> counters" where
  "hit k now life c =
     (let at = expire (now - life) (case ct_windows c k of None \<Rightarrow> [] | Some at \<Rightarrow> at) @ [now]
      in (as_u32 (length at), maybe_gc now (c\<lparr>ct_windows := (ct_windows c)(k \<mapsto> at)\<rparr>)))"

definition count :: "string \<Rightarrow> nat \<Rightarrow> nat \<Rightarrow> counters \<Rightarrow> nat \<times> counters" where
  "count k now life c =
     (case ct_windows c k of None \<Rightarrow> (0, c)
      | Some at \<Rightarrow> let at1 = expire (now - life) at
                   in (as_u32 (length at1), c\<lparr>ct_windows := (ct_windows c)(k \<mapsto> at1)\<rparr>))"

subsection \<open>The reference counter\<close>

text \<open>A history is the list of all events so far, oldest first; \<open>seen_by\<close> is what a counter that
  forgets nothing would answer for a key.\<close>

definition times_of :: "string \<Rightarrow> (string \<times> nat) list \<Rightarrow> nat list" where
  "times_of k h = map snd (filter (\<lambda>e. fst e = k) h)"

definition recent :: "string \<Rightarrow> nat \<Rightarrow> nat \<Rightarrow> (string \<times> nat) list \<Rightarrow> nat" where
  "recent k now life h = length (filter (\<lambda>t. now - life \<le> t) (times_of k h))"

definition counters_after :: "(string \<Rightarrow> nat) \<Rightarrow> (string \<times> nat) list \<Rightarrow> counters" where
  "counters_after life h = foldl (\<lambda>c (k, t). snd (hit k t (life k) c)) counters_empty h"

text \<open>Each window is the history of its key, less a prefix of events older than its life.\<close>

definition window :: "counters \<Rightarrow> string \<Rightarrow> nat list" where
  "window c k = (case ct_windows c k of None \<Rightarrow> [] | Some at \<Rightarrow> at)"

definition tracks :: "(string \<Rightarrow> nat) \<Rightarrow> nat \<Rightarrow> (string \<times> nat) list \<Rightarrow> counters \<Rightarrow> bool" where
  "tracks life now h c \<longleftrightarrow>
     (\<forall>k. \<exists>lo. lo \<le> now - life k \<and> window c k = filter (\<lambda>t. lo \<le> t) (times_of k h))"

lemma expire_sorted: "sorted at \<Longrightarrow> expire cutoff at = filter (\<lambda>t. cutoff \<le> t) at"
proof (induction at)
  case (Cons t at)
  then have "cutoff \<le> t \<Longrightarrow> filter (\<lambda>t. cutoff \<le> t) at = at" by (intro filter_True) force
  with Cons show ?case by (auto simp: expire_def)
qed (simp add: expire_def)

lemma sorted_last: "t \<in> set xs \<Longrightarrow> sorted xs \<Longrightarrow> t \<le> last xs"
  by (induction xs) auto

lemma times_of_snoc: "times_of k (h @ [e]) = times_of k h @ (if fst e = k then [snd e] else [])"
  by (simp add: times_of_def)

lemma sorted_times_of: "sorted (map snd h) \<Longrightarrow> sorted (times_of k h)"
  unfolding times_of_def by (metis sorted_filter)

lemma times_of_le: "sorted (map snd (h @ [(k', now)])) \<Longrightarrow> t \<in> set (times_of k h) \<Longrightarrow> t \<le> now"
  by (auto simp: times_of_def sorted_append)

lemma tracks_later: "tracks life now h c \<Longrightarrow> now \<le> later \<Longrightarrow> tracks life later h c"
  unfolding tracks_def by (meson diff_le_mono le_trans)

lemma filter_from: "lo \<le> c \<Longrightarrow> filter (\<lambda>t. c \<le> t) (filter (\<lambda>t. lo \<le> t) xs) = filter (\<lambda>t. c \<le> (t::nat)) xs"
  by (auto intro!: filter_cong)

text \<open>Collection only drops windows whose every event has expired.\<close>

lemma maybe_gc_tracks:
  assumes "tracks life now h c" "\<forall>k. life k \<le> 3600" "\<And>k. sorted (times_of k h)"
  shows "tracks life now h (maybe_gc now c)"
  unfolding tracks_def
proof
  fix k
  from assms(1) obtain lo where f: "lo \<le> now - life k" "window c k = filter (\<lambda>t. lo \<le> t) (times_of k h)"
    unfolding tracks_def by blast
  show "\<exists>lo. lo \<le> now - life k \<and> window (maybe_gc now c) k = filter (\<lambda>t. lo \<le> t) (times_of k h)"
  proof (cases "window (maybe_gc now c) k = window c k")
    case True
    with f show ?thesis by auto
  next
    case False
    then have gone: "window (maybe_gc now c) k = []" and old: "window c k \<noteq> [] \<Longrightarrow> last (window c k) < now - 3600"
      by (auto simp: maybe_gc_def Let_def window_def split: if_splits option.splits)
    from False gone have ne: "window c k \<noteq> []" by auto
    have "t < now - 3600" if t: "t \<in> set (times_of k h)" for t
    proof (cases "lo \<le> t")
      case True
      then have "t \<in> set (window c k)" using t f by simp
      moreover have "sorted (window c k)" using assms(3) f by (metis sorted_wrt_filter)
      ultimately have "t \<le> last (window c k)" by (rule sorted_last)
      with old ne show ?thesis by linarith
    next
      case False
      have "last (window c k) \<in> set (window c k)" using ne by simp
      then have "lo \<le> last (window c k)" using f by auto
      with False old ne show ?thesis by linarith
    qed
    then have "filter (\<lambda>t. now - 3600 \<le> t) (times_of k h) = []" unfolding filter_empty_conv by (meson not_le)
    moreover have "now - 3600 \<le> now - life k" using assms(2) by (simp add: diff_le_mono2)
    ultimately show ?thesis using gone by (metis (no_types, lifting))
  qed
qed

lemma hit_tracks:
  assumes t: "tracks life now h c" and s: "sorted (map snd (h @ [(k, now)]))"
    and l: "\<forall>k. life k \<le> 3600"
  shows "tracks life now (h @ [(k, now)]) (snd (hit k now (life k) c))"
    and "fst (hit k now (life k) c) = as_u32 (recent k now (life k) (h @ [(k, now)]))"
proof -
  have sh: "sorted (map snd h)" using s by (simp add: sorted_append)
  obtain lo where f: "lo \<le> now - life k" "window c k = filter (\<lambda>t. lo \<le> t) (times_of k h)"
    using t unfolding tracks_def by blast
  have "sorted (window c k)" unfolding f(2) by (metis sorted_wrt_filter sorted_times_of [OF sh])
  then have e: "expire (now - life k) (window c k) = filter (\<lambda>t. now - life k \<le> t) (times_of k h)"
    using expire_sorted filter_from [OF f(1)] f(2) by metis
  let ?at = "filter (\<lambda>t. now - life k \<le> t) (times_of k (h @ [(k, now)]))"
  have at: "expire (now - life k) (case ct_windows c k of None \<Rightarrow> [] | Some at \<Rightarrow> at) @ [now] = ?at"
    using e by (simp add: window_def times_of_snoc)
  have h: "hit k now (life k) c = (as_u32 (length ?at), maybe_gc now (c\<lparr>ct_windows := (ct_windows c)(k \<mapsto> ?at)\<rparr>))"
    unfolding hit_def Let_def at by simp
  then show "fst (hit k now (life k) c) = as_u32 (recent k now (life k) (h @ [(k, now)]))"
    by (simp add: recent_def)
  have "tracks life now (h @ [(k, now)]) (c\<lparr>ct_windows := (ct_windows c)(k \<mapsto> ?at)\<rparr>)"
    unfolding tracks_def
  proof
    fix j
    show "\<exists>lo. lo \<le> now - life j \<and> window (c\<lparr>ct_windows := (ct_windows c)(k \<mapsto> ?at)\<rparr>) j =
        filter (\<lambda>t. lo \<le> t) (times_of j (h @ [(k, now)]))"
    proof (cases "j = k")
      case True
      then show ?thesis by (auto simp: window_def)
    next
      case False
      moreover obtain lo where "lo \<le> now - life j" "window c j = filter (\<lambda>t. lo \<le> t) (times_of j h)"
        using t unfolding tracks_def by blast
      ultimately show ?thesis by (auto simp: window_def times_of_snoc)
    qed
  qed
  then show "tracks life now (h @ [(k, now)]) (snd (hit k now (life k) c))"
    unfolding h by (simp add: maybe_gc_tracks l sorted_times_of [OF s])
qed

lemma counters_after_tracks:
  "sorted (map snd h) \<Longrightarrow> \<forall>k. life k \<le> 3600 \<Longrightarrow> \<forall>e \<in> set h. snd e \<le> now \<Longrightarrow>
   tracks life now h (counters_after life h)"
proof (induction h arbitrary: now rule: rev_induct)
  case Nil
  show ?case by (auto simp: tracks_def counters_after_def counters_empty_def window_def times_of_def)
next
  case (snoc e h)
  obtain k t where e: "e = (k, t)" by force
  have "sorted (map snd h)" "\<forall>e \<in> set h. snd e \<le> t" using snoc.prems(1) e by (auto simp: sorted_append)
  then have "tracks life t h (counters_after life h)" using snoc.IH snoc.prems(2) by blast
  then have "tracks life t (h @ [(k, t)]) (snd (hit k t (life k) (counters_after life h)))"
    using hit_tracks(1) snoc.prems(1,2) e by blast
  moreover have "t \<le> now" using snoc.prems(3) e by auto
  ultimately show ?case
    unfolding e by (auto simp: counters_after_def intro: tracks_later)
qed

text \<open>As long as clocks do not run backwards and no window outlives the hour after which windows are
  collected, the windows answer like the reference counter.\<close>

lemma hit_is_recent:
  assumes "sorted (map snd (h @ [(k, now)]))" "\<forall>k. life k \<le> 3600"
  shows "fst (hit k now (life k) (counters_after life h)) = as_u32 (recent k now (life k) (h @ [(k, now)]))"
proof (rule hit_tracks(2))
  show "tracks life now h (counters_after life h)"
    using assms by (intro counters_after_tracks) (auto simp: sorted_append)
qed (use assms in auto)

end
