(* ===== verification/LiveProps.thy ===== *)
theory LiveProps
  imports NetRun Policy Counter Wellformed
begin

text \<open>
  What the live view, the channel policy, the ban vocabulary and the rate counters guarantee, each
  at a concrete input where it has hypotheses.
\<close>

subsection \<open>The live network\<close>

text \<open>Whatever the uplink and the services do, the number of sessions recorded for an address is
  the number of users connected from it, the incident ring holds at most its cap under distinct
  codes, the last-seen table holds at most its cap, and ChanFix scores stay within theirs.\<close>

theorem network_invariant:
  assumes "net_step\<^sup>*\<^sup>* network_empty w"
  shows "(\<forall>ip. ip \<noteq> [] \<longrightarrow>
      session_count w ip = card {uid. \<exists>u. w_users w uid = Some u \<and> u_ip u = ip}) \<and>
    length (w_incidents w) \<le> incident_cap \<and> distinct (map in_id (w_incidents w)) \<and>
    card (dom (w_seen w)) \<le> seen_cap \<and>
    (\<forall>c i. score (w_chanfix w) c i \<le> chanfix_max)"
proof -
  have ok: "net_ok w" using net_run_ok [OF assms net_ok_empty] .
  then have "session_count w ip = card {uid. \<exists>u. w_users w uid = Some u \<and> u_ip u = ip}"
    if "ip \<noteq> []" for ip
    using that by (auto simp: net_ok_def sessions_ok_def on_ip_def intro!: arg_cong [where f = card])
  with ok show ?thesis
    by (simp add: net_ok_def incidents_ok_distinct chanfix_ok_score)
      (simp add: incidents_ok_def seen_ok_def)
qed

definition two_users :: network where
  "two_users = user_connect ''9AAB'' ''bob'' ''h'' ''10.0.0.1''
     (user_connect ''9AAA'' ''alice'' ''h'' ''10.0.0.1'' network_empty)"

lemma two_users_run: "net_step\<^sup>*\<^sup>* network_empty (user_quit [''alice''] 7 ''9AAA'' two_users)"
proof -
  have "net_step network_empty (user_connect ''9AAA'' ''alice'' ''h'' ''10.0.0.1'' network_empty)"
    by (rule net_step.Connect) (simp add: network_empty_def)
  moreover have "net_step (user_connect ''9AAA'' ''alice'' ''h'' ''10.0.0.1'' network_empty) two_users"
    unfolding two_users_def by (rule net_step.Connect) (simp add: network_empty_def user_connect_def)
  moreover have "net_step two_users (user_quit [''alice''] 7 ''9AAA'' two_users)"
    by (rule net_step.Quit)
      (simp add: seen_walk_def two_users_def user_connect_def network_empty_def key_def ascii_simps)
  ultimately show ?thesis by (rule converse_rtranclp_into_rtranclp [OF _ converse_rtranclp_into_rtranclp [OF _ r_into_rtranclp]])
qed

theorem network_invariant_witness:
  "session_count (user_quit [''alice''] 7 ''9AAA'' two_users) ''10.0.0.1'' = 1 \<and>
   card {uid. \<exists>u. w_users (user_quit [''alice''] 7 ''9AAA'' two_users) uid = Some u \<and>
      u_ip u = ''10.0.0.1''} = 1"
proof -
  have "session_count (user_quit [''alice''] 7 ''9AAA'' two_users) ''10.0.0.1'' = 1"
    by (simp add: session_count_def user_quit_sessions two_users_def user_connect_def network_empty_def
        release_session_def upsert_def)
  with network_invariant [OF two_users_run] show ?thesis by auto
qed

text \<open>A netsplit takes away exactly the split server and the servers behind it, each reported once,
  and leaves every other server linked as it was.\<close>

theorem split_takes_the_subtree:
  assumes "enumerates ks (w_servers w)"
  shows "set (fst (server_split ks sid w)) = {s. (s, sid) \<in> {(c, p). w_servers w c = Some p}\<^sup>*} \<and>
    distinct (fst (server_split ks sid w)) \<and>
    (\<forall>s. w_servers (snd (server_split ks sid w)) s =
       (if s \<in> set (fst (server_split ks sid w)) then None else w_servers w s)) \<and>
    (\<forall>s p. w_servers (snd (server_split ks sid w)) s = Some p \<longrightarrow>
       p \<notin> set (fst (server_split ks sid w)))"
proof -
  let ?r = "{(c, p). w_servers w c = Some p}"
  note s = server_split_subtree [OF assms, of sid, unfolded child_of_def]
  have "p \<notin> set (fst (server_split ks sid w))" if "w_servers (snd (server_split ks sid w)) s = Some p" for s p
  proof
    assume "p \<in> set (fst (server_split ks sid w))"
    moreover have "(s, p) \<in> ?r" using that by (simp add: s(3) split: if_splits)
    ultimately have "(s, sid) \<in> ?r\<^sup>*" unfolding s(1) by (metis converse_rtrancl_into_rtrancl mem_Collect_eq)
    with that show False by (simp add: s(3))
  qed
  moreover have "\<forall>x. w_servers (snd (server_split ks sid w)) x =
       (if x \<in> set (fst (server_split ks sid w)) then None else w_servers w x)"
    unfolding s(1) s(3) by simp
  ultimately show ?thesis using s(1,2) by blast
qed

theorem split_takes_the_subtree_witness:
  "''3CC'' \<in> set (fst (server_split [''2BB'', ''3CC'', ''4DD''] ''2BB''
     (server_link ''3CC'' ''2BB'' (server_link ''4DD'' ''1AA'' (server_link ''2BB'' ''1AA'' network_empty)))))"
proof -
  let ?w = "server_link ''3CC'' ''2BB'' (server_link ''4DD'' ''1AA'' (server_link ''2BB'' ''1AA'' network_empty))"
  have e: "enumerates [''2BB'', ''3CC'', ''4DD''] (w_servers ?w)"
    by (auto simp: enumerates_def server_link_def network_empty_def)
  have "(''3CC'', ''2BB'') \<in> {(c, p). w_servers ?w c = Some p}\<^sup>*"
    by (rule r_into_rtrancl) (simp add: server_link_def)
  with split_takes_the_subtree [OF e, of "''2BB''"] show ?thesis by blast
qed

subsection \<open>ChanFix over time\<close>

text \<open>One period of the network: anything that leaves the scores alone, then a sampling pass over the
  channel operators \<open>ss\<close>.\<close>

definition period :: "network \<Rightarrow> (string \<times> string) list \<Rightarrow> network \<Rightarrow> bool" where
  "period w ss w' \<longleftrightarrow> (\<exists>kc ko ki v. net_step\<^sup>*\<^sup>* w v \<and> w_chanfix v = w_chanfix w \<and>
     chanfix_walk ko ki kc v \<and> ss = chanfix_samples kc ko v \<and> w' = chanfix_sample kc ko ki v)"

lemma period_effect:
  assumes "period w ss w'" "net_ok w"
  shows "net_ok w'"
    and "score (w_chanfix w') c i =
      min (score (w_chanfix w) c i - 1 + chanfix_bump * count_list ss (c, i)) chanfix_max"
proof -
  from assms(1) obtain kc ko ki v where v: "net_step\<^sup>*\<^sup>* w v" "w_chanfix v = w_chanfix w"
    "chanfix_walk ko ki kc v" "ss = chanfix_samples kc ko v" "w' = chanfix_sample kc ko ki v"
    unfolding period_def by blast
  have ok: "net_ok v" using net_run_ok [OF v(1) assms(2)] .
  show "net_ok w'" using net_step_ok [OF net_step.ChanFix [OF v(3)] ok] v(5) by simp
  show "score (w_chanfix w') c i =
      min (score (w_chanfix w) c i - 1 + chanfix_bump * count_list ss (c, i)) chanfix_max"
    using chanfix_sample_effect(1) [of v ko ki kc c i] ok v(2-5) by (simp add: net_ok_def)
qed

lemma periods_ok: "net_ok (w 0) \<Longrightarrow> \<forall>n. period (w n) (ss n) (w (Suc n)) \<Longrightarrow> net_ok (w n)"
  by (induction n) (auto intro: period_effect(1))

text \<open>C33. An identity seen as channel operator in every sampling period reaches the top score within
  4999 periods and keeps it; one no longer seen has lost its score after 5000 periods.\<close>

theorem chanfix_remembers_and_forgets:
  assumes "net_ok (w 0)" "\<forall>n. period (w n) (ss n) (w (Suc n))"
  shows "((\<forall>n. (c, i) \<in> set (ss n)) \<longrightarrow> (\<forall>n \<ge> 4999. score (w_chanfix (w n)) c i = 5000)) \<and>
    ((\<forall>n. (c, i) \<notin> set (ss n)) \<longrightarrow> (\<forall>n \<ge> 5000. score (w_chanfix (w n)) c i = 0))"
proof -
  note ok = periods_ok [OF assms]
  note step = period_effect(2) [OF spec [OF assms(2)] ok]
  have top: "score (w_chanfix (w n)) c i \<le> 5000" for n
    using ok [of n] chanfix_ok_score [of "w n"] by (simp add: net_ok_def chanfix_max_def)
  have up: "score (w_chanfix (w n)) c i = 5000" if all: "\<forall>n. (c, i) \<in> set (ss n)" and n: "n \<ge> 4999" for n
  proof -
    have pos: "count_list (ss n) (c, i) \<ge> 1" for n
      using all count_list_0_iff [of "ss n" "(c, i)"] by (metis One_nat_def Suc_leI neq0_conv)
    have "min (n + 2) 5000 \<le> score (w_chanfix (w (Suc n))) c i" for n
    proof (induction n)
      case 0
      show ?case using pos [of 0] by (simp add: step chanfix_bump_def chanfix_max_def)
    next
      case (Suc n)
      then show ?case using pos [of "Suc n"]
        unfolding step [of "Suc n"] chanfix_bump_def chanfix_max_def by linarith
    qed
    from this [of "n - 1"] top [of n] n show ?thesis by simp
  qed
  have down: "score (w_chanfix (w n)) c i \<le> 5000 - n" if "\<forall>n. (c, i) \<notin> set (ss n)" for n
  proof (induction n)
    case 0
    show ?case using top [of 0] by simp
  next
    case (Suc n)
    moreover have "count_list (ss n) (c, i) = 0" using that by (simp add: count_list_0_iff)
    ultimately show ?case by (simp add: step)
  qed
  show ?thesis
  proof (intro conjI impI allI)
    fix n :: nat assume "\<forall>n. (c, i) \<in> set (ss n)" "4999 \<le> n"
    then show "score (w_chanfix (w n)) c i = 5000" by (rule up)
  next
    fix n :: nat assume "\<forall>n. (c, i) \<notin> set (ss n)" "5000 \<le> n"
    with down [of n] show "score (w_chanfix (w n)) c i = 0" by simp
  qed
qed

text \<open>A channel with one operator, sampled for ever.\<close>

fun opped_for :: "nat \<Rightarrow> network" where
  "opped_for 0 = set_op ''#c'' ''9AAA'' True (user_connect ''9AAA'' ''alice'' ''h'' ''10.0.0.1'' network_empty)"
| "opped_for (Suc n) = chanfix_sample [''#c''] (\<lambda>_. [''9AAA'']) (\<lambda>_. [''h'']) (opped_for n)"

lemma opped_for_samples: "chanfix_samples [''#c''] (\<lambda>_. [''9AAA'']) (opped_for n) = [(''#c'', ''h'')]"
proof -
  have "chan_identity (opped_for n) ''9AAA'' = Some ''h''"
  proof (induction n)
    case 0
    show ?case
      by (simp add: chan_identity_def set_op_def on_live_channel_def user_connect_def network_empty_def)
  next
    case (Suc n)
    moreover have "w_accounts (opped_for (Suc n)) = w_accounts (opped_for n)"
      "w_users (opped_for (Suc n)) = w_users (opped_for n)"
      by (simp_all add: chanfix_sample_def Let_def)
    ultimately show ?case by (simp only: chan_identity_def)
  qed
  then show ?thesis by (simp add: chanfix_samples_def List.map_filter_def)
qed

lemma opped_for_dom: "w_chanfix (opped_for n) c = Some m \<Longrightarrow> dom m \<subseteq> {''h''}"
proof (induction n arbitrary: c m)
  case 0
  then show ?case by (simp add: set_op_def on_live_channel_def user_connect_def network_empty_def)
next
  case (Suc n)
  then show ?case
    by (fastforce simp: chanfix_sample_def Let_def opped_for_samples chanfix_add_def upsert_def
        split: option.splits if_splits)
qed

lemma opped_for_period: "period (opped_for n) [(''#c'', ''h'')] (opped_for (Suc n))"
proof -
  have "chanfix_walk (\<lambda>_. [''9AAA'']) (\<lambda>_. [''h'']) [''#c''] (opped_for n)"
    using opped_for_dom [of n]
    by (fastforce simp: chanfix_walk_def opped_for_samples chanfix_add_def upsert_def
        split: option.splits if_splits)
  then show ?thesis unfolding period_def using opped_for_samples by (metis opped_for.simps(2) rtranclp.rtrancl_refl)
qed

theorem chanfix_remembers_and_forgets_witness:
  "score (w_chanfix (opped_for 6000)) ''#c'' ''h'' = 5000 \<and>
   score (w_chanfix (opped_for 6000)) ''#c'' ''other'' = 0"
proof -
  have "net_ok (opped_for 0)"
    unfolding opped_for.simps set_op_def
    by (rule net_ok_on_live_channel) (rule net_ok_connect [OF net_ok_empty], simp add: network_empty_def)
  note eff = chanfix_remembers_and_forgets [of opped_for "\<lambda>_. [(''#c'', ''h'')]", OF this]
  have p: "\<forall>n. period (opped_for n) [(''#c'', ''h'')] (opped_for (Suc n))"
    using opped_for_period by blast
  from eff [OF p, of "''#c''" "''h''"] eff [OF p, of "''#c''" "''other''"] show ?thesis by simp
qed


subsection \<open>Mode lock\<close>

text \<open>The modes of a channel after somebody's change and the services' answer to it.\<close>

definition settled :: "channel_info \<Rightarrow> string \<Rightarrow> char set \<Rightarrow> char set" where
  "settled c change s =
     (let s1 = apply_mode_delta s change [] in
      case enforce c change of None \<Rightarrow> s1 | Some r \<Rightarrow> apply_mode_delta s1 r [])"



subsection \<open>Bans\<close>

text \<open>An extended ban written by its name or its letter is read as that ban with its value untouched,
  a plain hostmask is read as a hostmask even when its host holds colons, and a mask that is left to
  the ircd never matches in the services.\<close>

theorem akick_masks_read_back:
  shows "(\<forall>eb v. eb \<in> set extbans \<longrightarrow> akick_parse (eb_name eb @ '':'' @ v) = MaskExt eb v \<and>
      akick_parse (eb_letter eb # '':'' @ v) = MaskExt eb v) \<and>
    (\<forall>n u h. CHR '':'' \<notin> set (n @ u) \<longrightarrow>
      akick_parse (n @ ''!'' @ u @ ''@'' @ h) = MaskHost (n @ ''!'' @ u @ ''@'' @ h)) \<and>
    (\<forall>msk t. ircd_enforced msk \<longrightarrow> \<not> akick_matches msk t)"
  using akick_parse_ext akick_parse_hostmask ircd_enforced_never_matches by blast

theorem akick_masks_read_back_witness:
  "akick_parse ''account:bob'' = MaskExt \<lparr>eb_name = ''account'', eb_letter = CHR ''R'', eb_kind = ExtAccount\<rparr> ''bob'' \<and>
   akick_parse ''*!*@2001:db8::1'' = MaskHost ''*!*@2001:db8::1'' \<and>
   (\<forall>t. \<not> akick_matches ''asn:12'' t)"
proof -
  let ?a = "\<lparr>eb_name = ''account'', eb_letter = CHR ''R'', eb_kind = ExtAccount\<rparr>"
  have "?a \<in> set extbans" by (simp add: extbans_def)
  moreover have "ircd_enforced ''asn:12''"
    by (simp add: ircd_enforced_def akick_parse_def extban_lookup_def extbans_def matchable_def
        eq_ignore_ascii_case_def key_def ascii_simps)
  ultimately show ?thesis
    using akick_masks_read_back [THEN conjunct1, rule_format, of ?a "''bob''"]
      akick_masks_read_back [THEN conjunct2, THEN conjunct1, rule_format, of "''*''" "''*''" "''2001:db8::1''"]
      akick_masks_read_back [THEN conjunct2, THEN conjunct2, rule_format, of "''asn:12''"]
    by simp
qed

subsection \<open>Rate counters\<close>

text \<open>C34. While the clock does not run backwards and no window outlives the hour after which idle
  windows are collected, the sliding-window counter answers every hit like one that remembers all
  events: the number of events of that key inside its window.\<close>

theorem counter_counts_recent_events:
  assumes "sorted (map snd (h @ [(k, now)]))" "\<forall>k. life k \<le> 3600"
  shows "fst (hit k now (life k) (counters_after life h)) =
    length (filter (\<lambda>e. fst e = k \<and> now - life k \<le> snd e) (h @ [(k, now)])) mod 2 ^ 32"
proof -
  have "recent k now (life k) g = length (filter (\<lambda>e. fst e = k \<and> now - life k \<le> snd e) g)" for g
    by (induction g) (auto simp: recent_def times_of_def)
  then show ?thesis unfolding hit_is_recent [OF assms] as_u32_def by simp
qed

theorem counter_counts_recent_events_witness:
  "fst (hit ''join'' 30 10 (counters_after (\<lambda>_. 10) [(''join'', 5), (''join'', 22), (''nick'', 25)])) = 2"
  using counter_counts_recent_events
    [of "[(''join'', 5), (''join'', 22), (''nick'', 25)]" "''join''" 30 "\<lambda>_. 10"] by simp

subsection \<open>The store\<close>


end
