(* ===== verification/Address.thy ===== *)
theory Address
  imports Strings "HOL-Library.Word"
begin

unbundle bit_operations_syntax

text \<open>
  Network addresses as the standard library reads them (\<^verbatim>\<open>std::net::IpAddr\<close>), and the two questions
  src/src/engine/security/mod.rs asks about them: whether an address lies in a network, and which /24
  or /64 network it belongs to.
\<close>

subsection \<open>Parsing\<close>

datatype ip_addr = V4 "32 word" | V6 "128 word"

definition parse_octet :: "string \<Rightarrow> nat option" where
  "parse_octet s =
     (if s = [] \<or> length s > 3 \<or> \<not> list_all is_ascii_digit s \<or> (hd s = CHR ''0'' \<and> length s > 1) \<or>
         digits_value s > 255
      then None else Some (digits_value s))"

definition parse_v4 :: "string \<Rightarrow> 32 word option" where
  "parse_v4 s =
     (case map parse_octet (split_on (CHR ''.'') s) of
        [Some a, Some b, Some c, Some d] \<Rightarrow> Some (of_nat (((a * 256 + b) * 256 + c) * 256 + d))
      | _ \<Rightarrow> None)"

definition hex_value :: "char \<Rightarrow> nat" where
  "hex_value c = (if is_ascii_digit c then code c - 48
     else if 97 \<le> code c then code c - 87 else code c - 55)"

definition is_hex_digit :: "char \<Rightarrow> bool" where
  "is_hex_digit c \<longleftrightarrow> is_ascii_digit c \<or> (97 \<le> code c \<and> code c \<le> 102) \<or> (65 \<le> code c \<and> code c \<le> 70)"

definition parse_group :: "string \<Rightarrow> nat option" where
  "parse_group s =
     (if s = [] \<or> length s > 4 \<or> \<not> list_all is_hex_digit s then None
      else Some (foldl (\<lambda>n c. 16 * n + hex_value c) 0 s))"

fun sequence_options :: "'a option list \<Rightarrow> 'a list option" where
  "sequence_options [] = Some []"
| "sequence_options (None # xs) = None"
| "sequence_options (Some x # xs) = map_option ((#) x) (sequence_options xs)"

text \<open>Groups of sixteen bits; the last two may be written as a dotted IPv4 address.\<close>

definition parse_groups :: "string list \<Rightarrow> nat list option" where
  "parse_groups ps =
     (case parse_v4 (last ps) of
        Some w \<Rightarrow> map_option (\<lambda>gs. gs @ [unat w div 65536, unat w mod 65536])
                    (sequence_options (map parse_group (butlast ps)))
      | None \<Rightarrow> sequence_options (map parse_group ps))"

definition groups_value :: "nat list \<Rightarrow> 128 word" where
  "groups_value gs = of_nat (foldl (\<lambda>n g. 65536 * n + g) 0 gs)"

fun split_gap :: "string \<Rightarrow> (string \<times> string) option" where
  "split_gap (a # b # s) =
     (if a = CHR '':'' \<and> b = CHR '':'' then Some ([], s)
      else map_option (\<lambda>(x, y). (a # x, y)) (split_gap (b # s)))"
| "split_gap s = None"

definition parse_v6 :: "string \<Rightarrow> 128 word option" where
  "parse_v6 s =
     (case split_gap s of
        None \<Rightarrow> (case parse_groups (split_on (CHR '':'') s) of
            Some gs \<Rightarrow> if length gs = 8 then Some (groups_value gs) else None
          | None \<Rightarrow> None)
      | Some (a, b) \<Rightarrow>
          (case (if a = [] then Some [] else sequence_options (map parse_group (split_on (CHR '':'') a)),
                 if b = [] then Some [] else parse_groups (split_on (CHR '':'') b)) of
             (Some head, Some tail) \<Rightarrow>
               if length head + length tail \<le> 7
               then Some (groups_value (head @ replicate (8 - length head - length tail) 0 @ tail))
               else None
           | _ \<Rightarrow> None))"

definition parse_ip :: "string \<Rightarrow> ip_addr option" where
  "parse_ip s = (case parse_v4 s of Some w \<Rightarrow> Some (V4 w) | None \<Rightarrow> map_option V6 (parse_v6 s))"

subsection \<open>Networks\<close>

definition prefix_of :: "nat \<Rightarrow> string \<Rightarrow> nat" where
  "prefix_of width s = (case parse_unsigned 255 s of None \<Rightarrow> width | Some n \<Rightarrow> min n width)"

text \<open>The network mask of a prefix length.\<close>

definition net_mask :: "nat \<Rightarrow> 'a::len word" where
  "net_mask prefix = (if prefix = 0 then 0 else push_bit (LENGTH('a) - prefix) (- 1))"

definition same_net :: "nat \<Rightarrow> 'a::len word \<Rightarrow> 'a word \<Rightarrow> bool" where
  "same_net prefix a b \<longleftrightarrow> a AND net_mask prefix = b AND net_mask prefix"

definition ip_in_cidr :: "string \<Rightarrow> string \<Rightarrow> bool" where
  "ip_in_cidr ip cidr =
     (let (net, prefix) = (case split_once (CHR ''/'') cidr of None \<Rightarrow> (cidr, []) | Some p \<Rightarrow> p) in
      case (parse_ip ip, parse_ip net) of
        (Some (V4 a), Some (V4 b)) \<Rightarrow> same_net (prefix_of 32 prefix) a b
      | (Some (V6 a), Some (V6 b)) \<Rightarrow> same_net (prefix_of 128 prefix) a b
      | _ \<Rightarrow> False)"

definition hex_char :: "nat \<Rightarrow> char" where
  "hex_char n = char_of (if n < 10 then 48 + n else 87 + n)"

fun show_hex :: "nat \<Rightarrow> string" where
  "show_hex n = (if n < 16 then [hex_char n] else show_hex (n div 16) @ [hex_char (n mod 16)])"

declare show_hex.simps [simp del]

definition octet :: "nat \<Rightarrow> 32 word \<Rightarrow> string" where
  "octet i w = show_nat (unat w div 2 ^ i mod 256)"

definition segment :: "nat \<Rightarrow> 128 word \<Rightarrow> string" where
  "segment i w = show_hex (unat w div 2 ^ i mod 65536)"

definition cidr_of :: "string \<Rightarrow> string" where
  "cidr_of ip =
     (case parse_ip ip of
        Some (V4 w) \<Rightarrow> octet 24 w @ ''.'' @ octet 16 w @ ''.'' @ octet 8 w @ ''.0/24''
      | Some (V6 w) \<Rightarrow> segment 112 w @ '':'' @ segment 96 w @ '':'' @ segment 80 w @ '':'' @ segment 64 w @ ''::/64''
      | None \<Rightarrow> ip)"

subsection \<open>An address and its range\<close>

lemma cut_digits: "n div (k * m) * k + n div m mod k = (n::nat) div m"
  by (metis div_mult2_eq div_mult_mod_eq mult.commute)

lemma and_net_mask:
  "p \<le> LENGTH('a) \<Longrightarrow> (w :: 'a::len word) AND net_mask p = push_bit (LENGTH('a) - p) (drop_bit (LENGTH('a) - p) w)"
  by (rule bit_word_eqI) (auto simp: net_mask_def bit_simps)

lemma same_net_iff:
  assumes "p \<le> LENGTH('a)"
  shows "same_net p (a :: 'a::len word) b \<longleftrightarrow> unat a div 2 ^ (LENGTH('a) - p) = unat b div 2 ^ (LENGTH('a) - p)"
proof -
  have "same_net p a b \<longleftrightarrow> drop_bit (LENGTH('a) - p) a = drop_bit (LENGTH('a) - p) b"
  proof
    assume l: "same_net p a b"
    show "drop_bit (LENGTH('a) - p) a = drop_bit (LENGTH('a) - p) b"
    proof (rule bit_word_eqI)
      fix k assume "k < LENGTH('a)"
      have "bit a i = bit b i" if "LENGTH('a) - p \<le> i" "i < LENGTH('a)" for i
      proof -
        have "bit (push_bit (LENGTH('a) - p) (drop_bit (LENGTH('a) - p) a)) i =
            bit (push_bit (LENGTH('a) - p) (drop_bit (LENGTH('a) - p) b)) i"
          using l unfolding same_net_def and_net_mask [OF assms] by simp
        with that show ?thesis by (simp add: bit_simps)
      qed
      then show "bit (drop_bit (LENGTH('a) - p) a) k = bit (drop_bit (LENGTH('a) - p) b) k"
        by (auto simp: bit_simps) (meson bit_imp_le_length le_add1)+
    qed
  qed (simp add: same_net_def and_net_mask [OF assms])
  also have "\<dots> \<longleftrightarrow> unat (drop_bit (LENGTH('a) - p) a) = unat (drop_bit (LENGTH('a) - p) b)"
    by (simp add: word_unat_eq_iff)
  also have "\<dots> \<longleftrightarrow> unat a div 2 ^ (LENGTH('a) - p) = unat b div 2 ^ (LENGTH('a) - p)"
    by (simp only: unat_drop_bit_eq) (simp only: drop_bit_eq_div)
  finally show ?thesis .
qed

lemma show_nat_length: "0 < k \<Longrightarrow> n < 10 ^ k \<Longrightarrow> length (show_nat n) \<le> k"
proof (induction n arbitrary: k rule: show_nat.induct)
  case (1 n)
  show ?case
  proof (cases "n < 10")
    case False
    then obtain j where k: "k = Suc j" "0 < j" using "1.prems" by (cases k; cases "k - 1") auto
    with 1 False show ?thesis by (auto simp: show_nat.simps [of n] less_mult_imp_div_less mult.commute)
  qed (use 1 in \<open>simp add: show_nat.simps [of n]\<close>)
qed

lemma hd_show_nat: "0 < n \<Longrightarrow> hd (show_nat n) \<noteq> CHR ''0''"
proof (induction n rule: show_nat.induct)
  case (1 n)
  show ?case
  proof (cases "n < 10")
    case True
    then have "code (digit_char n) \<noteq> code (CHR ''0'')" using 1 by (simp add: code_digit_char) (simp add: code_def)
    with True show ?thesis by (auto simp: show_nat.simps [of n])
  qed (use 1 in \<open>simp add: show_nat.simps [of n]\<close>)
qed

lemma show_zero: "show_nat 0 = ''0''"
  by (simp add: show_nat.simps [of 0] digit_char_def char_of_def bit_0)

lemma parse_octet_show:
  assumes "n \<le> 255"
  shows "parse_octet (show_nat n) = Some n"
proof (cases "n = 0")
  case True
  then show ?thesis by (simp add: parse_octet_def show_zero is_ascii_digit_def digits_value_def digit_value_def code_def)
next
  case False
  with assms show ?thesis
    using show_nat_length [of 3 n] hd_show_nat [of n] by (simp add: parse_octet_def show_nat_digits)
qed

lemma dot_not_in_show [simp]: "CHR ''.'' \<notin> set (show_nat n)" "CHR ''/'' \<notin> set (show_nat n)"
  by (auto intro!: not_digit_not_in_show simp: is_ascii_digit_def code_def)

lemma parse_v4_show:
  assumes "a \<le> 255" "b \<le> 255" "c \<le> 255"
  shows "parse_v4 (show_nat a @ ''.'' @ show_nat b @ ''.'' @ show_nat c @ ''.0'') =
    Some (of_nat (((a * 256 + b) * 256 + c) * 256))"
proof -
  have "parse_octet ''0'' = Some 0" using parse_octet_show [of 0] by (simp add: show_zero)
  with assms show ?thesis by (simp add: parse_v4_def split_on_append split_on_single parse_octet_show)
qed

lemma code_hex_char: "n < 16 \<Longrightarrow> code (hex_char n) = (if n < 10 then 48 + n else 87 + n)"
  by (simp add: code_def hex_char_def)

lemma hex_char_digit: "n < 16 \<Longrightarrow> is_hex_digit (hex_char n) \<and> hex_value (hex_char n) = n"
  by (simp add: is_hex_digit_def is_ascii_digit_def hex_value_def code_hex_char)

lemma show_hex_nonempty [simp]: "show_hex n \<noteq> []"
  by (simp add: show_hex.simps [of n])

lemma show_hex_digits: "list_all is_hex_digit (show_hex n)"
proof (induction n rule: show_hex.induct)
  case (1 n)
  then show ?case by (cases "n < 16") (simp_all add: show_hex.simps [of n] hex_char_digit)
qed

lemma show_hex_length: "0 < k \<Longrightarrow> n < 16 ^ k \<Longrightarrow> length (show_hex n) \<le> k"
proof (induction n arbitrary: k rule: show_hex.induct)
  case (1 n)
  show ?case
  proof (cases "n < 16")
    case False
    then obtain j where k: "k = Suc j" "0 < j" using "1.prems" by (cases k; cases "k - 1") auto
    with 1 False show ?thesis by (auto simp: show_hex.simps [of n] less_mult_imp_div_less mult.commute)
  qed (use 1 in \<open>simp add: show_hex.simps [of n]\<close>)
qed

lemma hex_value_show: "foldl (\<lambda>n c. 16 * n + hex_value c) 0 (show_hex n) = n"
proof (induction n rule: show_hex.induct)
  case (1 n)
  then show ?case by (cases "n < 16") (simp_all add: show_hex.simps [of n] hex_char_digit)
qed

lemma parse_group_show: "n < 65536 \<Longrightarrow> parse_group (show_hex n) = Some n"
  using show_hex_length [of 4 n] by (simp add: parse_group_def show_hex_digits hex_value_show)

lemma not_in_show_hex [simp]:
  "CHR '':'' \<notin> set (show_hex n)" "CHR ''.'' \<notin> set (show_hex n)" "CHR ''/'' \<notin> set (show_hex n)"
proof -
  have "\<forall>c\<in>set (show_hex n). is_hex_digit c" using show_hex_digits [of n] by (simp add: list_all_iff)
  then show "CHR '':'' \<notin> set (show_hex n)" "CHR ''.'' \<notin> set (show_hex n)" "CHR ''/'' \<notin> set (show_hex n)"
    by (force simp: is_hex_digit_def is_ascii_digit_def code_def)+
qed

lemma split_gap_skip: "CHR '':'' \<notin> set a \<Longrightarrow> s \<noteq> [] \<Longrightarrow>
   split_gap (a @ s) = map_option (\<lambda>(x, y). (a @ x, y)) (split_gap s)"
proof (induction a)
  case Nil
  then show ?case by (cases "split_gap s") auto
next
  case (Cons c a)
  then show ?case by (cases "a @ s"; cases "split_gap s") auto
qed

lemma split_gap_colon: "s \<noteq> [] \<Longrightarrow> hd s \<noteq> CHR '':'' \<Longrightarrow>
   split_gap (CHR '':'' # s) = map_option (\<lambda>(x, y). (CHR '':'' # x, y)) (split_gap s)"
  by (cases s) simp_all

lemma hd_show_hex [simp]: "hd (show_hex n) \<noteq> CHR '':''"
  by (metis hd_in_set not_in_show_hex(1) show_hex_nonempty)

lemma parse_v6_show:
  assumes "a < 65536" "b < 65536" "c < 65536" "d < 65536"
  shows "parse_v6 (show_hex a @ '':'' @ show_hex b @ '':'' @ show_hex c @ '':'' @ show_hex d @ ''::'') =
    Some (groups_value [a, b, c, d, 0, 0, 0, 0])"
proof -
  have "split_gap (show_hex a @ '':'' @ show_hex b @ '':'' @ show_hex c @ '':'' @ show_hex d @ ''::'') =
    Some (show_hex a @ '':'' @ show_hex b @ '':'' @ show_hex c @ '':'' @ show_hex d, [])"
    by (simp add: split_gap_skip split_gap_colon)
  moreover have "replicate 4 (0 :: nat) = [0, 0, 0, 0]" by (simp add: eval_nat_numeral)
  ultimately show ?thesis
    using assms by (simp add: parse_v6_def split_on_append split_on_single parse_group_show)
qed

lemma v4_fails: "CHR ''.'' \<notin> set s \<Longrightarrow> parse_v4 s = None"
  by (cases "parse_octet s") (simp_all add: parse_v4_def split_on_single)


text \<open>Addresses of one family that agree in the bits of the range they are counted under.\<close>

fun same_range :: "ip_addr \<Rightarrow> ip_addr \<Rightarrow> bool" where
  "same_range (V4 a) (V4 b) = (unat a div 2 ^ 8 = unat b div 2 ^ 8)"
| "same_range (V6 a) (V6 b) = (unat a div 2 ^ 64 = unat b div 2 ^ 64)"
| "same_range _ _ = False"

lemma prefix_lengths: "prefix_of 32 ''24'' = 24" "prefix_of 128 ''64'' = 64"
  by (simp_all add: prefix_of_def parse_unsigned_def is_ascii_digit_def digits_value_def digit_value_def code_def)

lemma octets_value:
  fixes n :: nat assumes "n < 2 ^ 32"
  shows "((n div 2 ^ 24 mod 256 * 256 + n div 2 ^ 16 mod 256) * 256 + n div 2 ^ 8 mod 256) * 256 = n div 2 ^ 8 * 2 ^ 8"
proof -
  have "n div 2 ^ 24 mod 256 = n div 2 ^ 24" using assms by (simp add: less_mult_imp_div_less)
  moreover have "n div 2 ^ 24 * 256 + n div 2 ^ 16 mod 256 = n div 2 ^ 16" using cut_digits [of n 256 "2 ^ 16"] by simp
  moreover have "n div 2 ^ 16 * 256 + n div 2 ^ 8 mod 256 = n div 2 ^ 8" using cut_digits [of n 256 "2 ^ 8"] by simp
  ultimately show ?thesis by simp
qed

lemma segments_value:
  fixes n :: nat assumes "n < 2 ^ 128"
  shows "foldl (\<lambda>n g. 65536 * n + g) 0
    [n div 2 ^ 112 mod 65536, n div 2 ^ 96 mod 65536, n div 2 ^ 80 mod 65536, n div 2 ^ 64 mod 65536, 0, 0, 0, 0] =
    n div 2 ^ 64 * 2 ^ 64"
proof -
  have "n div 2 ^ 112 mod 65536 = n div 2 ^ 112" using assms by (simp add: less_mult_imp_div_less)
  moreover have "65536 * (n div 2 ^ 112) + n div 2 ^ 96 mod 65536 = n div 2 ^ 96" using cut_digits [of n 65536 "2 ^ 96"] by simp
  moreover have "65536 * (n div 2 ^ 96) + n div 2 ^ 80 mod 65536 = n div 2 ^ 80" using cut_digits [of n 65536 "2 ^ 80"] by simp
  moreover have "65536 * (n div 2 ^ 80) + n div 2 ^ 64 mod 65536 = n div 2 ^ 64" using cut_digits [of n 65536 "2 ^ 64"] by simp
  ultimately show ?thesis by simp
qed

lemma octet_small: "unat w div 2 ^ i mod 256 \<le> 255" for w :: "32 word"
  using mod_less_divisor [of 256 "unat w div 2 ^ i"] by linarith

lemma cidr_of_v4:
  assumes "parse_ip ip = Some (V4 x)"
  shows "\<exists>base w. cidr_of ip = base @ ''/24'' \<and> CHR ''/'' \<notin> set base \<and> parse_ip base = Some (V4 w) \<and>
    w = of_nat (unat x div 2 ^ 8 * 2 ^ 8)"
proof -
  let ?b = "octet 24 x @ ''.'' @ octet 16 x @ ''.'' @ octet 8 x @ ''.0''"
  have "unat x < 2 ^ 32" using unsigned_less [of x] by simp
  then have "parse_v4 ?b = Some (of_nat (unat x div 2 ^ 8 * 2 ^ 8))"
    unfolding octet_def using octets_value [of "unat x"] by (subst parse_v4_show) (simp_all only: octet_small)
  then have "parse_ip ?b = Some (V4 (of_nat (unat x div 2 ^ 8 * 2 ^ 8)))" by (simp add: parse_ip_def)
  moreover have "cidr_of ip = ?b @ ''/24''" using assms by (simp add: cidr_of_def)
  ultimately show ?thesis by (intro exI [of _ ?b]) (simp add: octet_def)
qed

lemma cidr_of_v6:
  assumes "parse_ip ip = Some (V6 x)"
  shows "\<exists>base w. cidr_of ip = base @ ''/64'' \<and> CHR ''/'' \<notin> set base \<and> parse_ip base = Some (V6 w) \<and>
    w = of_nat (unat x div 2 ^ 64 * 2 ^ 64)"
proof -
  let ?b = "segment 112 x @ '':'' @ segment 96 x @ '':'' @ segment 80 x @ '':'' @ segment 64 x @ ''::''"
  have small: "unat x div 2 ^ i mod 65536 < 65536" for i by simp
  have "unat x < 2 ^ 128" using unsigned_less [of x] by simp
  then have "parse_v6 ?b = Some (of_nat (unat x div 2 ^ 64 * 2 ^ 64))"
    unfolding segment_def parse_v6_show [OF small small small small] groups_value_def by (simp only: segments_value)
  then have "parse_ip ?b = Some (V6 (of_nat (unat x div 2 ^ 64 * 2 ^ 64)))" by (simp add: parse_ip_def segment_def v4_fails)
  moreover have "cidr_of ip = ?b @ ''/64''" using assms by (simp add: cidr_of_def)
  ultimately show ?thesis by (intro exI [of _ ?b]) (simp add: segment_def)
qed

lemma same_net_base:
  fixes w x y :: "'a::len word"
  assumes "k \<le> LENGTH('a)" "w = of_nat (unat x div 2 ^ k * 2 ^ k)"
  shows "same_net (LENGTH('a) - k) y w = (unat x div 2 ^ k = unat y div 2 ^ k)"
proof -
  have "unat x div 2 ^ k * 2 ^ k < 2 ^ LENGTH('a)"
    by (rule le_less_trans [OF div_times_less_eq_dividend]) (rule unsigned_less)
  then have "unat w = unat x div 2 ^ k * 2 ^ k" unfolding assms(2) by (simp only: unat_of_nat mod_less)
  then show ?thesis using assms(1) by (auto simp: same_net_iff)
qed

lemma ip_in_cidr_split:
  "CHR ''/'' \<notin> set base \<Longrightarrow> parse_ip base = Some (V4 w) \<Longrightarrow>
   ip_in_cidr ip (base @ ''/24'') = (case parse_ip ip of Some (V4 a) \<Rightarrow> same_net 24 a w | _ \<Rightarrow> False)"
  "CHR ''/'' \<notin> set base \<Longrightarrow> parse_ip base = Some (V6 w') \<Longrightarrow>
   ip_in_cidr ip (base @ ''/64'') = (case parse_ip ip of Some (V6 a) \<Rightarrow> same_net 64 a w' | _ \<Rightarrow> False)"
  by (auto simp: ip_in_cidr_def split_once_append prefix_lengths split: option.splits ip_addr.splits)

lemma ip_in_cidr_of:
  assumes "parse_ip a = Some x" "parse_ip b = Some y"
  shows "ip_in_cidr b (cidr_of a) = same_range x y"
proof (cases x)
  case (V4 u)
  then obtain base w where base: "cidr_of a = base @ ''/24''" "CHR ''/'' \<notin> set base" "parse_ip base = Some (V4 w)"
      and w: "w = of_nat (unat u div 2 ^ 8 * 2 ^ 8)"
    using cidr_of_v4 assms(1) by blast
  have "same_net 24 y w \<longleftrightarrow> unat u div 2 ^ 8 = unat y div 2 ^ 8" for y
    using same_net_base [OF _ w, of y] by simp
  then show ?thesis unfolding base(1) ip_in_cidr_split(1) [OF base(2,3)] using assms(2) V4 by (cases y) simp_all
next
  case (V6 u)
  then obtain base w where base: "cidr_of a = base @ ''/64''" "CHR ''/'' \<notin> set base" "parse_ip base = Some (V6 w)"
      and w: "w = of_nat (unat u div 2 ^ 64 * 2 ^ 64)"
    using cidr_of_v6 assms(1) by blast
  have "same_net 64 y w \<longleftrightarrow> unat u div 2 ^ 64 = unat y div 2 ^ 64" for y
    using same_net_base [OF _ w, of y] by simp
  then show ?thesis unfolding base(1) ip_in_cidr_split(2) [OF base(2,3)] using assms(2) V6 by (cases y) simp_all
qed


lemma same_range_cidr: "parse_ip a = Some x \<Longrightarrow> parse_ip b = Some y \<Longrightarrow> same_range x y \<Longrightarrow> cidr_of a = cidr_of b"
proof -
  assume p: "parse_ip a = Some x" "parse_ip b = Some y" and s: "same_range x y"
  have up: "m div 2 ^ (k + j) = n div 2 ^ (k + j)" if "m div 2 ^ k = n div 2 ^ k" for m n :: nat and k j
    using that by (simp add: power_add div_mult2_eq)
  show ?thesis
  proof (cases x)
    case (V4 u)
    then obtain w where y: "y = V4 w" and d: "unat u div 2 ^ 8 = unat w div 2 ^ 8" using s by (cases y) auto
    have "unat u div 2 ^ 16 = unat w div 2 ^ 16" "unat u div 2 ^ 24 = unat w div 2 ^ 24"
      using up [OF d, of 8] up [OF d, of 16] by simp_all
    with p V4 y d show ?thesis by (simp only: cidr_of_def option.case ip_addr.case octet_def)
  next
    case (V6 u)
    then obtain w where y: "y = V6 w" and d: "unat u div 2 ^ 64 = unat w div 2 ^ 64" using s by (cases y) auto
    have "unat u div 2 ^ 80 = unat w div 2 ^ 80" "unat u div 2 ^ 96 = unat w div 2 ^ 96" "unat u div 2 ^ 112 = unat w div 2 ^ 112"
      using up [OF d, of 16] up [OF d, of 32] up [OF d, of 48] by simp_all
    with p V6 y d show ?thesis by (simp only: cidr_of_def option.case ip_addr.case segment_def)
  qed
qed

lemma same_range_refl: "same_range x x"
  by (cases x) simp_all

text \<open>Addresses are counted, and banned, by ranges that part them: an address lies in the range of
  another exactly when the two agree in their first 24 or 64 bits, and then their ranges are written
  the same.\<close>

theorem ranges_part_addresses:
  assumes "parse_ip a = Some x" "parse_ip b = Some y"
  shows "ip_in_cidr b (cidr_of a) = same_range x y \<and> (cidr_of a = cidr_of b) = same_range x y"
  using ip_in_cidr_of [OF assms] ip_in_cidr_of [OF assms(2,2)] same_range_cidr [OF assms] same_range_refl [of y] by metis

theorem ranges_part_addresses_witness:
  "ip_in_cidr ''2001:db8::5'' (cidr_of ''2001:DB8:0:0:1::'') \<and>
   \<not> ip_in_cidr ''10.0.1.7'' (cidr_of ''10.0.0.7'')"
proof -
  have zeros: "replicate 5 (0 :: nat) = [0, 0, 0, 0, 0]" "replicate 3 (0 :: nat) = [0, 0, 0]"
    by (simp_all add: eval_nat_numeral)
  have p: "parse_ip ''2001:db8::5'' = Some (V6 0x20010db8000000000000000000000005)"
    "parse_ip ''2001:DB8:0:0:1::'' = Some (V6 0x20010db8000000000001000000000000)"
    "parse_ip ''10.0.1.7'' = Some (V4 0x0a000107)" "parse_ip ''10.0.0.7'' = Some (V4 0x0a000007)"
    by (simp_all add: zeros parse_ip_def parse_v4_def parse_v6_def parse_octet_def parse_groups_def parse_group_def
        groups_value_def digits_value_def digit_value_def hex_value_def is_hex_digit_def is_ascii_digit_def code_def)
  have "same_range (V6 0x20010db8000000000001000000000000) (V6 0x20010db8000000000000000000000005)"
    "\<not> same_range (V4 0x0a000007) (V4 0x0a000107)" by simp_all
  then show ?thesis using ranges_part_addresses [OF p(2,1)] ranges_part_addresses [OF p(4,3)] by blast
qed

end
