(* ===== verification/Security.thy ===== *)
theory Security
  imports Address Counter Glob Strings
begin

text \<open>
  The state of the abuse detectors (\<^verbatim>\<open>Security\<close> in src/src/engine/security/mod.rs) and its settings
  (src/src/config.rs): the switches, the quiet period after a split, banned accounts, exempt addresses,
  connection patterns, and the scores of a line. The detectors themselves are in theory Screen.

  The share of bad characters in a line is compared in floating point; the settings therefore hold the
  comparison, a predicate of the bad and of all characters.
\<close>

subsection \<open>Settings\<close>

record connect_rules =
  cr_enabled :: bool
  cr_flood_permit :: nat
  cr_flood_life :: nat
  cr_range_permit :: nat
  cr_range_life :: nat
  cr_ban :: nat

definition connect_default :: connect_rules where
  "connect_default = \<lparr>cr_enabled = True, cr_flood_permit = 6, cr_flood_life = 10,
     cr_range_permit = 12, cr_range_life = 20, cr_ban = 3600\<rparr>"

record behavior_rules =
  br_enabled :: bool
  br_nick_permit :: nat
  br_nick_life :: nat
  br_cycle_permit :: nat
  br_cycle_life :: nat
  br_joinpart_permit :: nat
  br_joinpart_life :: nat
  br_joinpart_grace :: nat
  br_massjoin_permit :: nat
  br_massjoin_life :: nat
  br_quit_permit :: nat
  br_quit_life :: nat
  br_quit_reasons :: "string list"
  br_crawl_permit :: nat
  br_crawl_life :: nat
  br_ban :: nat

definition behavior_default :: behavior_rules where
  "behavior_default = \<lparr>br_enabled = True, br_nick_permit = 5, br_nick_life = 30,
     br_cycle_permit = 6, br_cycle_life = 20, br_joinpart_permit = 4, br_joinpart_life = 30,
     br_joinpart_grace = 10, br_massjoin_permit = 8, br_massjoin_life = 8, br_quit_permit = 4,
     br_quit_life = 30, br_quit_reasons = [''Excess Flood'', ''Max SendQ exceeded''],
     br_crawl_permit = 12, br_crawl_life = 15, br_ban = 3600\<rparr>"

record content_rules =
  cn_enabled :: bool
  cn_highlight_nicks :: nat
  cn_highlight_min_len :: nat
  cn_highlight_permit :: nat
  cn_highlight_life :: nat
  cn_badunicode_score :: "nat \<Rightarrow> nat \<Rightarrow> bool"
  cn_badunicode_min :: nat
  cn_badunicode_permit :: nat
  cn_badunicode_life :: nat
  cn_repeat_min :: nat
  cn_repeat_permit :: nat
  cn_repeat_life :: nat
  cn_ban :: nat

definition content_default :: "(nat \<Rightarrow> nat \<Rightarrow> bool) \<Rightarrow> content_rules" where
  "content_default score = \<lparr>cn_enabled = True, cn_highlight_nicks = 6, cn_highlight_min_len = 3,
     cn_highlight_permit = 1, cn_highlight_life = 15, cn_badunicode_score = score,
     cn_badunicode_min = 8, cn_badunicode_permit = 1, cn_badunicode_life = 20,
     cn_repeat_min = 10, cn_repeat_permit = 5, cn_repeat_life = 20, cn_ban = 3600\<rparr>"

record auth_rules =
  ar_enabled :: bool
  ar_fail_permit :: nat
  ar_fail_life :: nat
  ar_register_permit :: nat
  ar_register_life :: nat
  ar_evade_ttl :: nat
  ar_ban :: nat

definition auth_default :: auth_rules where
  "auth_default = \<lparr>ar_enabled = True, ar_fail_permit = 8, ar_fail_life = 60, ar_register_permit = 3,
     ar_register_life = 300, ar_evade_ttl = 172800, ar_ban = 3600\<rparr>"

record pattern_config =
  pc_mask :: string
  pc_field :: string
  pc_regex :: bool
  pc_reason :: string
  pc_ban :: nat

record security_config =
  sc_enabled :: bool
  sc_report_only :: bool
  sc_connect :: connect_rules
  sc_exempt_ips :: "string list"
  sc_pattern :: "pattern_config list"
  sc_behavior :: behavior_rules
  sc_content :: content_rules
  sc_exempt_opers :: bool
  sc_exempt_accounts :: bool
  sc_exempt_voice :: bool
  sc_announce_permit :: nat
  sc_announce_life :: nat
  sc_cascade_permit :: nat
  sc_cascade_life :: nat
  sc_netsplit_grace :: nat
  sc_auth :: auth_rules

text \<open>The settings of an empty section.\<close>

definition security_config_default :: "(nat \<Rightarrow> nat \<Rightarrow> bool) \<Rightarrow> security_config" where
  "security_config_default score = \<lparr>sc_enabled = False, sc_report_only = True,
     sc_connect = connect_default, sc_exempt_ips = [''127.0.0.0/8'', ''::1''], sc_pattern = [],
     sc_behavior = behavior_default, sc_content = content_default score, sc_exempt_opers = True,
     sc_exempt_accounts = False, sc_exempt_voice = True, sc_announce_permit = 8,
     sc_announce_life = 10, sc_cascade_permit = 15, sc_cascade_life = 30, sc_netsplit_grace = 60,
     sc_auth = auth_default\<rparr>"

subsection \<open>Connection patterns\<close>

datatype pat_field = PatMask | PatFull | PatNick | PatIdent | PatHost | PatGecos

definition pat_field_parse :: "string \<Rightarrow> pat_field" where
  "pat_field_parse s =
     (let k = key s in
      if k = ''full'' then PatFull else if k = ''nick'' then PatNick
      else if k = ''ident'' \<or> k = ''user'' then PatIdent else if k = ''host'' then PatHost
      else if k = ''gecos'' \<or> k = ''realname'' then PatGecos else PatMask)"

datatype matcher = MatchGlob string | MatchRegex string

record compiled_pattern =
  cp_field :: pat_field
  cp_matcher :: matcher
  cp_reason :: string
  cp_ban :: nat

text \<open>Patterns whose regular expression the library refuses are left out.\<close>

definition compile_patterns :: "(string \<Rightarrow> bool) \<Rightarrow> pattern_config list \<Rightarrow> compiled_pattern list" where
  "compile_patterns compiles ps =
     map (\<lambda>p. \<lparr>cp_field = pat_field_parse (pc_field p),
                cp_matcher = (if pc_regex p then MatchRegex (pc_mask p) else MatchGlob (pc_mask p)),
                cp_reason = pc_reason p, cp_ban = pc_ban p\<rparr>)
       (filter (\<lambda>p. \<not> pc_regex p \<or> compiles (pc_mask p)) ps)"

definition pattern_target :: "pat_field \<Rightarrow> string \<Rightarrow> string \<Rightarrow> string \<Rightarrow> string \<Rightarrow> string" where
  "pattern_target f nick ident host gecos =
     (let m = nick @ ''!'' @ ident @ ''@'' @ host in
      case f of PatMask \<Rightarrow> m | PatFull \<Rightarrow> m @ ''#'' @ gecos | PatNick \<Rightarrow> nick
      | PatIdent \<Rightarrow> ident | PatHost \<Rightarrow> host | PatGecos \<Rightarrow> gecos)"

definition matcher_hits :: "(string \<Rightarrow> string \<Rightarrow> bool) \<Rightarrow> matcher \<Rightarrow> string \<Rightarrow> bool" where
  "matcher_hits matches m s =
     (case m of MatchGlob g \<Rightarrow> glob_match g s | MatchRegex re \<Rightarrow> matches re s)"

subsection \<open>The state\<close>

record security =
  sy_cfg :: "security_config option"
  sy_counters :: counters
  sy_patterns :: "compiled_pattern list"
  sy_quiet_until :: nat
  sy_evaded :: "string \<rightharpoonup> nat"

definition security_default :: security where
  "security_default = \<lparr>sy_cfg = None, sy_counters = counters_empty, sy_patterns = [],
     sy_quiet_until = 0, sy_evaded = Map.empty\<rparr>"

definition security_configure :: "(string \<Rightarrow> bool) \<Rightarrow> security_config option \<Rightarrow> security \<Rightarrow> security" where
  "security_configure compiles cfg s =
     s\<lparr>sy_patterns := (case cfg of None \<Rightarrow> [] | Some c \<Rightarrow> compile_patterns compiles (sc_pattern c)),
       sy_cfg := cfg\<rparr>"

definition security_on :: "security \<Rightarrow> bool" where
  "security_on s = (case sy_cfg s of None \<Rightarrow> False | Some c \<Rightarrow> sc_enabled c)"

definition security_enforcing :: "security \<Rightarrow> bool" where
  "security_enforcing s = (case sy_cfg s of None \<Rightarrow> False | Some c \<Rightarrow> sc_enabled c \<and> \<not> sc_report_only c)"

definition sat_add :: "nat \<Rightarrow> nat \<Rightarrow> nat" where
  "sat_add a b = min (a + b) u64_max"

definition mark_netsplit :: "nat \<Rightarrow> security \<Rightarrow> security" where
  "mark_netsplit now s =
     (case sy_cfg s of None \<Rightarrow> s
      | Some c \<Rightarrow> s\<lparr>sy_quiet_until := max (sy_quiet_until s) (sat_add now (sc_netsplit_grace c))\<rparr>)"

definition in_netsplit :: "nat \<Rightarrow> security \<Rightarrow> bool" where
  "in_netsplit now s \<longleftrightarrow> now < sy_quiet_until s"

definition remember_ban :: "string \<Rightarrow> nat \<Rightarrow> nat \<Rightarrow> security \<Rightarrow> security" where
  "remember_ban acct now ttl s =
     s\<lparr>sy_evaded := (\<lambda>a. case sy_evaded s a of None \<Rightarrow> None
                        | Some until \<Rightarrow> if until > now then Some until else None)(acct \<mapsto> sat_add now ttl)\<rparr>"

definition is_evader :: "string \<Rightarrow> nat \<Rightarrow> security \<Rightarrow> bool" where
  "is_evader acct now s = (case sy_evaded s acct of None \<Rightarrow> False | Some until \<Rightarrow> now < until)"

definition is_exempt :: "string \<Rightarrow> security \<Rightarrow> bool" where
  "is_exempt ip s = (case sy_cfg s of None \<Rightarrow> False | Some c \<Rightarrow> list_ex (ip_in_cidr ip) (sc_exempt_ips c))"

definition match_pattern ::
  "(string \<Rightarrow> string \<Rightarrow> bool) \<Rightarrow> string \<Rightarrow> string \<Rightarrow> string \<Rightarrow> string \<Rightarrow> security \<Rightarrow> (string \<times> nat) option" where
  "match_pattern matches nick ident host gecos s =
     map_option (\<lambda>p. (cp_reason p, cp_ban p))
       (find (\<lambda>p. matcher_hits matches (cp_matcher p) (pattern_target (cp_field p) nick ident host gecos))
          (sy_patterns s))"

subsection \<open>Scores of a line\<close>

definition quit_matches :: "string \<Rightarrow> string list \<Rightarrow> bool" where
  "quit_matches reason markers = list_ex (\<lambda>m. m \<noteq> [] \<and> contains_sub (key m) (key reason)) markers"

text \<open>\<^verbatim>\<open>char::is_alphanumeric\<close> on the characters up to 255.\<close>

definition is_alphanumeric :: "char \<Rightarrow> bool" where
  "is_alphanumeric c \<longleftrightarrow> is_ascii_alphabetic c \<or> is_ascii_digit c \<or>
     code c \<in> {170, 178, 179, 181, 185, 186, 188, 189, 190} \<or>
     (192 \<le> code c \<and> code c \<noteq> 215 \<and> code c \<noteq> 247)"

definition nick_char :: "char \<Rightarrow> bool" where
  "nick_char c \<longleftrightarrow> is_alphanumeric c \<or> c \<in> set ''[]{}'' \<or> code c = 92 \<or> code c = 96 \<or> c \<in> set ''|^_-''"

text \<open>\<^verbatim>\<open>str::split\<close> with a predicate on characters.\<close>

fun split_where :: "(char \<Rightarrow> bool) \<Rightarrow> string \<Rightarrow> string list" where
  "split_where p [] = [[]]"
| "split_where p (c # s) =
     (if p c then [] # split_where p s
      else case split_where p s of [] \<Rightarrow> [[c]] | w # ws \<Rightarrow> (c # w) # ws)"

definition count_highlights :: "string \<Rightarrow> string set \<Rightarrow> nat" where
  "count_highlights text nicks =
     length (remdups (filter (\<lambda>w. w \<in> nicks)
       (map key (filter (\<lambda>w. w \<noteq> []) (split_where (\<lambda>c. \<not> nick_char c) text)))))"

definition is_formatting :: "nat \<Rightarrow> bool" where
  "is_formatting u \<longleftrightarrow> u \<in> {2, 3, 4, 15, 17, 22, 29, 30, 31}"

definition in_ranges :: "(nat \<times> nat) list \<Rightarrow> nat \<Rightarrow> bool" where
  "in_ranges rs u = list_ex (\<lambda>(lo, hi). lo \<le> u \<and> u \<le> hi) rs"

definition is_combining :: "nat \<Rightarrow> bool" where
  "is_combining = in_ranges [(0x300, 0x36F), (0x483, 0x489), (0x1AB0, 0x1AFF), (0x1DC0, 0x1DFF),
     (0x20D0, 0x20FF), (0xFE20, 0xFE2F)]"

definition is_invisible :: "nat \<Rightarrow> bool" where
  "is_invisible = in_ranges [(0x200B, 0x200F), (0x202A, 0x202E), (0x2060, 0x2064), (0xFEFF, 0xFEFF),
     (0xAD, 0xAD), (0x180E, 0x180E), (0x3164, 0x3164), (0xFFA0, 0xFFA0)]"

text \<open>The bad characters and all characters of a text, given by its code points; their quotient, or 0
  for an empty text, is the score.\<close>

definition bad_unicode_counts :: "nat list \<Rightarrow> nat \<times> nat" where
  "bad_unicode_counts us =
     (let seen = filter (\<lambda>u. \<not> is_formatting u) us
      in (length (filter (\<lambda>u. is_combining u \<or> is_invisible u) seen), length seen))"

definition bad_unicode_reaches :: "(nat \<Rightarrow> nat \<Rightarrow> bool) \<Rightarrow> nat list \<Rightarrow> bool" where
  "bad_unicode_reaches score us = (case bad_unicode_counts us of (bad, n) \<Rightarrow>
     if n = 0 then score 0 1 else score bad n)"

end
