(* ===== verification/Scram.thy ===== *)
theory Scram
  imports Strings "HOL-Library.Word"
begin

unbundle bit_operations_syntax

text \<open>
  The server side of SCRAM-SHA-256 and SCRAM-SHA-512 (src/src/engine/scram.rs): verifiers, the two
  client messages and the server's answers. HMAC, the hash, PBKDF2 and base64 are third-party code:
  the record \<open>crypto\<close> holds them as parameters, and \<open>crypto_ok\<close> states what is relied on. Random bytes
  are arguments.
\<close>

subsection \<open>Bytes and parameters\<close>

type_synonym bytes = "8 word list"

text \<open>UTF-8 over the characters of the model, whose codes are below 256.\<close>

definition utf8_char :: "char \<Rightarrow> bytes" where
  "utf8_char c = (if code c < 128 then [of_nat (code c)]
     else [of_nat (192 + code c div 64), of_nat (128 + code c mod 64)])"

definition as_bytes :: "string \<Rightarrow> bytes" where
  "as_bytes s = concat (map utf8_char s)"

fun from_utf8 :: "bytes \<Rightarrow> string option" where
  "from_utf8 [] = Some []"
| "from_utf8 [b] = (if unat b < 128 then Some [char_of (unat b)] else None)"
| "from_utf8 (b # c # bs) =
     (if unat b < 128 then map_option ((#) (char_of (unat b))) (from_utf8 (c # bs))
      else if 194 \<le> unat b \<and> unat b < 196 \<and> 128 \<le> unat c \<and> unat c < 192
      then map_option ((#) (char_of ((unat b - 192) * 64 + (unat c - 128)))) (from_utf8 bs)
      else None)"

lemma from_utf8_ascii: "unat b < 128 \<Longrightarrow> from_utf8 (b # bs) = map_option ((#) (char_of (unat b))) (from_utf8 bs)"
  by (cases bs) simp_all

lemma code_lt: "code c < 256"
  by (simp add: code_def)

lemma char_of_code [simp]: "char_of (code c) = c"
  by (simp add: code_def)

lemma from_utf8_char: "from_utf8 (utf8_char c @ bs) = map_option ((#) c) (from_utf8 bs)"
proof (cases "code c < 128")
  case True
  then show ?thesis by (simp add: utf8_char_def from_utf8_ascii unat_of_nat)
next
  case False
  have u: "unat (of_nat n :: 8 word) = n" if "n < 256" for n using that by (simp add: unat_of_nat)
  have q: "code c div 64 < 4" "2 \<le> code c div 64" using code_lt [of c] False by auto
  have r: "code c mod 64 < 64" by simp
  have "unat (of_nat (192 + code c div 64) :: 8 word) = 192 + code c div 64"
    "unat (of_nat (128 + code c mod 64) :: 8 word) = 128 + code c mod 64"
    using q r by (intro u; linarith)+
  with q r False show ?thesis by (simp add: utf8_char_def del: of_nat_add)
qed

lemma from_utf8_as_bytes [simp]: "from_utf8 (as_bytes s) = Some s"
  by (induction s) (simp_all add: as_bytes_def from_utf8_char)

lemma as_bytes_inj: "as_bytes s = as_bytes t \<Longrightarrow> s = t"
  by (metis from_utf8_as_bytes option.inject)

datatype hash = Sha256 | Sha512

definition from_mech :: "string \<Rightarrow> hash option" where
  "from_mech m = (if m = ''SCRAM-SHA-256'' then Some Sha256
     else if m = ''SCRAM-SHA-512'' then Some Sha512 else None)"

fun mech :: "hash \<Rightarrow> string" where
  "mech Sha256 = ''SCRAM-SHA-256''"
| "mech Sha512 = ''SCRAM-SHA-512''"

record crypto =
  b64 :: "bytes \<Rightarrow> string"
  unb64 :: "string \<Rightarrow> bytes option"
  hmac :: "hash \<Rightarrow> bytes \<Rightarrow> bytes \<Rightarrow> bytes"
  digest :: "hash \<Rightarrow> bytes \<Rightarrow> bytes"
  pbkdf2 :: "hash \<Rightarrow> bytes \<Rightarrow> bytes \<Rightarrow> nat \<Rightarrow> bytes"

text \<open>Base64 decodes what it encodes and writes neither a comma nor the dash or the null character,
  and all digests of one hash have one length.\<close>

definition crypto_ok :: "crypto \<Rightarrow> bool" where
  "crypto_ok cr \<longleftrightarrow> (\<forall>b. unb64 cr (b64 cr b) = Some b) \<and> (\<forall>b. CHR '','' \<notin> set (b64 cr b)) \<and>
     (\<forall>h k m k' m'. length (hmac cr h k m) = length (hmac cr h k' m'))"

definition xor_bytes :: "bytes \<Rightarrow> bytes \<Rightarrow> bytes" where
  "xor_bytes a b = map2 (XOR) a b"

lemma xor_bytes_cancel: "length a = length b \<Longrightarrow> xor_bytes (xor_bytes a b) b = a"
  by (induction a b rule: list_induct2) (simp_all add: xor_bytes_def xor.assoc)

lemma length_xor_bytes [simp]: "length (xor_bytes a b) = min (length a) (length b)"
  by (simp add: xor_bytes_def)

subsection \<open>Verifiers\<close>

definition default_iterations :: nat where "default_iterations = 1200000"
definition max_verifier_iterations :: nat where "max_verifier_iterations = 5000000"
definition u32_max :: nat where "u32_max = 2 ^ 32 - 1"

record verifier =
  vf_iterations :: nat
  vf_salt :: bytes
  vf_stored :: bytes
  vf_server :: bytes

definition salted_password :: "crypto \<Rightarrow> hash \<Rightarrow> string \<Rightarrow> bytes \<Rightarrow> nat \<Rightarrow> bytes" where
  "salted_password cr h pw salt i = pbkdf2 cr h (as_bytes pw) salt i"

definition client_key :: "crypto \<Rightarrow> hash \<Rightarrow> bytes \<Rightarrow> bytes" where
  "client_key cr h salted = hmac cr h salted (as_bytes ''Client Key'')"

definition server_key :: "crypto \<Rightarrow> hash \<Rightarrow> bytes \<Rightarrow> bytes" where
  "server_key cr h salted = hmac cr h salted (as_bytes ''Server Key'')"

text \<open>The salt is the first of the random draws whose encoding has neither \<^verbatim>\<open>+\<close> nor \<^verbatim>\<open>/\<close>.\<close>

definition draw_salt :: "crypto \<Rightarrow> bytes list \<Rightarrow> bytes option" where
  "draw_salt cr draws = find (\<lambda>s. CHR ''+'' \<notin> set (b64 cr s) \<and> CHR ''/'' \<notin> set (b64 cr s)) draws"

definition encode_verifier :: "crypto \<Rightarrow> hash \<Rightarrow> string \<Rightarrow> nat \<Rightarrow> bytes \<Rightarrow> string" where
  "encode_verifier cr h pw i salt =
     (let salted = salted_password cr h pw salt i in
      ''v=1,i='' @ show_nat i @ '',s='' @ b64 cr salt @
      '',sk='' @ b64 cr (digest cr h (client_key cr h salted)) @
      '',sv='' @ b64 cr (server_key cr h salted))"

definition make_verifier :: "crypto \<Rightarrow> hash \<Rightarrow> string \<Rightarrow> nat \<Rightarrow> bytes list \<Rightarrow> string option" where
  "make_verifier cr h pw i draws = map_option (encode_verifier cr h pw i) (draw_salt cr draws)"

record verifier_parts =
  vp_i :: "nat option"
  vp_s :: "bytes option"
  vp_sk :: "bytes option"
  vp_sv :: "bytes option"

definition parts_empty :: verifier_parts where
  "parts_empty = \<lparr>vp_i = None, vp_s = None, vp_sk = None, vp_sv = None\<rparr>"

fun scan_parts :: "crypto \<Rightarrow> string list \<Rightarrow> verifier_parts \<Rightarrow> verifier_parts option" where
  "scan_parts cr [] p = Some p"
| "scan_parts cr (f # fs) p =
     (case split_once CHR ''='' f of
        None \<Rightarrow> None
      | Some (k, v) \<Rightarrow>
          if k = ''v'' \<and> v \<noteq> ''1'' then None
          else scan_parts cr fs
            (if k = ''v'' then p
             else if k = ''i'' then p\<lparr>vp_i := parse_unsigned u32_max v\<rparr>
             else if k = ''s'' then p\<lparr>vp_s := unb64 cr v\<rparr>
             else if k = ''sk'' then p\<lparr>vp_sk := unb64 cr v\<rparr>
             else if k = ''sv'' then p\<lparr>vp_sv := unb64 cr v\<rparr>
             else p))"

definition parse_verifier :: "crypto \<Rightarrow> string \<Rightarrow> verifier option" where
  "parse_verifier cr encoded =
     (case scan_parts cr (split_on CHR '','' encoded) parts_empty of
        None \<Rightarrow> None
      | Some p \<Rightarrow> (case (vp_i p, vp_s p, vp_sk p, vp_sv p) of
            (Some i, Some s, Some k, Some v) \<Rightarrow>
              Some \<lparr>vf_iterations = i, vf_salt = s, vf_stored = k, vf_server = v\<rparr>
          | _ \<Rightarrow> None))"

definition verifier_ok :: "crypto \<Rightarrow> string \<Rightarrow> bool" where
  "verifier_ok cr encoded =
     (case parse_verifier cr encoded of None \<Rightarrow> False
      | Some v \<Rightarrow> 1000 \<le> vf_iterations v \<and> vf_iterations v \<le> max_verifier_iterations)"

definition verify_plain :: "crypto \<Rightarrow> hash \<Rightarrow> string \<Rightarrow> string \<Rightarrow> bool" where
  "verify_plain cr h encoded pw =
     (case parse_verifier cr encoded of None \<Rightarrow> False
      | Some v \<Rightarrow> digest cr h (client_key cr h (salted_password cr h pw (vf_salt v) (vf_iterations v))) =
          vf_stored v)"

subsection \<open>The exchange\<close>

record client_first =
  cf_username :: string
  cf_gs2_header :: string
  cf_bare :: string
  cf_cnonce :: string

definition unescape_name :: "string \<Rightarrow> string" where
  "unescape_name s = replace_all CHR ''='' ''3D'' ''='' (replace_all CHR ''='' ''2C'' '','' s)"

definition parse_client_first :: "string \<Rightarrow> client_first option" where
  "parse_client_first msg =
     (case split3 CHR '','' msg of
        None \<Rightarrow> None
      | Some (cbflag, authzid, bare) \<Rightarrow>
          if starts_with ''p'' cbflag then None
          else (case split_on CHR '','' bare of
              n # r # _ \<Rightarrow>
                (case (strip_prefix ''n='' n, strip_prefix ''r='' r) of
                   (Some username, Some cnonce) \<Rightarrow>
                     Some \<lparr>cf_username = unescape_name username,
                       cf_gs2_header = cbflag @ '','' @ authzid @ '','',
                       cf_bare = bare, cf_cnonce = cnonce\<rparr>
                 | _ \<Rightarrow> None)
            | _ \<Rightarrow> None))"

text \<open>\<open>draw\<close> is the server's random contribution to the nonce.\<close>

definition server_first :: "crypto \<Rightarrow> bytes \<Rightarrow> string \<Rightarrow> verifier \<Rightarrow> string \<times> string" where
  "server_first cr draw cnonce v =
     (let full = cnonce @ b64 cr draw in
      (''r='' @ full @ '',s='' @ b64 cr (vf_salt v) @ '',i='' @ show_nat (vf_iterations v), full))"

fun scan_final :: "string list \<Rightarrow> string option \<Rightarrow> string option \<Rightarrow> string option \<times> string option" where
  "scan_final [] c r = (c, r)"
| "scan_final (f # fs) c r =
     (case strip_prefix ''c='' f of
        Some x \<Rightarrow> scan_final fs (Some x) r
      | None \<Rightarrow> (case strip_prefix ''r='' f of
            Some x \<Rightarrow> scan_final fs c (Some x)
          | None \<Rightarrow> scan_final fs c r))"

definition verify_final ::
  "crypto \<Rightarrow> hash \<Rightarrow> verifier \<Rightarrow> string \<Rightarrow> string \<Rightarrow> string \<Rightarrow> string \<Rightarrow> string \<Rightarrow> string option" where
  "verify_final cr h v bare sf gs2 full_nonce final =
     (case rsplit_sub '',p='' final of
        None \<Rightarrow> None
      | Some (without_proof, proof64) \<Rightarrow>
      (case unb64 cr proof64 of
        None \<Rightarrow> None
      | Some proof \<Rightarrow>
      (case scan_final (split_on CHR '','' without_proof) None None of
        (Some cbind, Some rnonce) \<Rightarrow>
          if rnonce \<noteq> full_nonce then None
          else if unb64 cr cbind \<noteq> Some (as_bytes gs2) then None
          else
            let auth = as_bytes (bare @ '','' @ sf @ '','' @ without_proof);
                signature = hmac cr h (vf_stored v) auth
            in if length proof \<noteq> length signature then None
               else if digest cr h (xor_bytes proof signature) \<noteq> vf_stored v then None
               else Some (''v='' @ b64 cr (hmac cr h (vf_server v) auth))
      | _ \<Rightarrow> None)))"

subsection \<open>A verifier reads back\<close>

lemma comma_not_in_show [simp]: "CHR '','' \<notin> set (show_nat n)"
  by (rule not_digit_not_in_show) simp

lemma split_on_cons: "c \<notin> set a \<Longrightarrow> split_on c (a @ c # b) = a # split_on c b"
  by (induction a) auto

lemma split_on_plain: "c \<notin> set a \<Longrightarrow> split_on c a = [a]"
  by (induction a) auto

lemma verifier_fields:
  assumes "crypto_ok cr"
  shows "split_on CHR '','' (encode_verifier cr h pw i salt) =
    [''v=1'', ''i='' @ show_nat i, ''s='' @ b64 cr salt,
     ''sk='' @ b64 cr (digest cr h (client_key cr h (salted_password cr h pw salt i))),
     ''sv='' @ b64 cr (server_key cr h (salted_password cr h pw salt i))]"
proof -
  have nc: "CHR '','' \<notin> set (b64 cr b)" for b using assms by (simp add: crypto_ok_def)
  have i: "CHR '','' \<notin> set (''i='' @ show_nat i)" by simp
  have s: "CHR '','' \<notin> set (''s='' @ b64 cr b)" "CHR '','' \<notin> set (''sk='' @ b64 cr b)"
    "CHR '','' \<notin> set (''sv='' @ b64 cr b)" for b
    using nc by simp_all
  have e: "encode_verifier cr h pw i salt = ''v=1'' @ CHR '','' # (''i='' @ show_nat i) @ CHR '','' #
     (''s='' @ b64 cr salt) @ CHR '','' #
     (''sk='' @ b64 cr (digest cr h (client_key cr h (salted_password cr h pw salt i)))) @ CHR '','' #
     (''sv='' @ b64 cr (server_key cr h (salted_password cr h pw salt i)))"
    by (simp add: encode_verifier_def Let_def)
  show ?thesis
    unfolding e by (subst split_on_cons, simp, subst split_on_cons, rule i, subst split_on_cons, rule s,
      subst split_on_cons, rule s, subst split_on_plain, rule s, rule refl)
qed

lemma parse_encode_verifier:
  assumes "crypto_ok cr" "i \<le> u32_max"
  shows "parse_verifier cr (encode_verifier cr h pw i salt) =
    Some \<lparr>vf_iterations = i, vf_salt = salt,
      vf_stored = digest cr h (client_key cr h (salted_password cr h pw salt i)),
      vf_server = server_key cr h (salted_password cr h pw salt i)\<rparr>"
  using assms
  by (simp add: parse_verifier_def verifier_fields parts_empty_def parse_show) (simp add: crypto_ok_def)


subsection \<open>The client's side\<close>

definition escape_char :: "char \<Rightarrow> string" where
  "escape_char c = (if c = CHR ''='' then ''=3D'' else if c = CHR '','' then ''=2C'' else [c])"

definition escape_name :: "string \<Rightarrow> string" where
  "escape_name s = concat (map escape_char s)"

lemma unescape_escape [simp]: "unescape_name (escape_name s) = s"
proof -
  have "replace_all CHR ''='' ''2C'' '','' (escape_name s) =
      concat (map (\<lambda>c. if c = CHR ''='' then ''=3D'' else [c]) s)"
    by (induction s) (simp_all add: escape_name_def escape_char_def)
  moreover have "replace_all CHR ''='' ''3D'' ''='' (concat (map (\<lambda>c. if c = CHR ''='' then ''=3D'' else [c]) s)) = s"
    by (induction s) simp_all
  ultimately show ?thesis by (simp add: unescape_name_def)
qed

lemma escape_no_comma: "CHR '','' \<notin> set (escape_name s)"
  by (auto simp: escape_name_def escape_char_def split: if_splits)

definition client_first_message :: "string \<Rightarrow> string \<Rightarrow> string \<Rightarrow> string \<Rightarrow> string" where
  "client_first_message cbflag authzid user cnonce =
     cbflag @ '','' @ authzid @ '',n='' @ escape_name user @ '',r='' @ cnonce"

lemma parse_client_first_message:
  assumes "CHR '','' \<notin> set (cbflag @ authzid @ cnonce)" "\<not> starts_with ''p'' cbflag"
  shows "parse_client_first (client_first_message cbflag authzid user cnonce) =
    Some \<lparr>cf_username = user, cf_gs2_header = cbflag @ '','' @ authzid @ '','',
      cf_bare = ''n='' @ escape_name user @ '',r='' @ cnonce, cf_cnonce = cnonce\<rparr>"
proof -
  have m: "client_first_message cbflag authzid user cnonce = cbflag @ CHR '','' # authzid @ CHR '','' #
      (''n='' @ escape_name user) @ CHR '','' # (''r='' @ cnonce)"
    by (simp add: client_first_message_def)
  have "split_on CHR '','' ((''n='' @ escape_name user) @ CHR '','' # (''r='' @ cnonce)) =
      [''n='' @ escape_name user, ''r='' @ cnonce]"
    using assms(1) escape_no_comma [of user] by (subst split_on_cons) (simp_all add: split_on_plain)
  then show ?thesis
    using assms
    by (simp add: parse_client_first_def m split3_def split_once_append strip_prefix_def)
qed

definition client_final_without_proof :: "crypto \<Rightarrow> string \<Rightarrow> string \<Rightarrow> string" where
  "client_final_without_proof cr gs2 nonce = ''c='' @ b64 cr (as_bytes gs2) @ '',r='' @ nonce"

definition client_final :: "crypto \<Rightarrow> string \<Rightarrow> string \<Rightarrow> bytes \<Rightarrow> string" where
  "client_final cr gs2 nonce proof = client_final_without_proof cr gs2 nonce @ '',p='' @ b64 cr proof"

definition auth_message :: "crypto \<Rightarrow> string \<Rightarrow> string \<Rightarrow> string \<Rightarrow> string \<Rightarrow> bytes" where
  "auth_message cr bare sf gs2 nonce =
     as_bytes (bare @ '','' @ sf @ '','' @ client_final_without_proof cr gs2 nonce)"

text \<open>The proof a client computes from its password (RFC 5802), with the salt and iteration count of
  the server's message.\<close>

definition client_proof ::
  "crypto \<Rightarrow> hash \<Rightarrow> string \<Rightarrow> bytes \<Rightarrow> nat \<Rightarrow> string \<Rightarrow> string \<Rightarrow> string \<Rightarrow> string \<Rightarrow> bytes" where
  "client_proof cr h pw salt i bare sf gs2 nonce =
     (let ck = client_key cr h (salted_password cr h pw salt i)
      in xor_bytes ck (hmac cr h (digest cr h ck) (auth_message cr bare sf gs2 nonce)))"

lemma split_client_final:
  assumes "crypto_ok cr"
  shows "rsplit_sub '',p='' (client_final cr gs2 nonce proof) =
    Some (client_final_without_proof cr gs2 nonce, b64 cr proof)"
proof -
  have "CHR '','' \<notin> set (b64 cr proof)" using assms by (simp add: crypto_ok_def)
  then show ?thesis unfolding client_final_def by (intro rsplit_sub_append) simp_all
qed

lemma scan_client_final:
  assumes "crypto_ok cr" "CHR '','' \<notin> set nonce"
  shows "scan_final (split_on CHR '','' (client_final_without_proof cr gs2 nonce)) None None =
    (Some (b64 cr (as_bytes gs2)), Some nonce)"
proof -
  have c: "CHR '','' \<notin> set (''c='' @ b64 cr (as_bytes gs2))" using assms(1) by (simp add: crypto_ok_def)
  have e: "client_final_without_proof cr gs2 nonce =
      (''c='' @ b64 cr (as_bytes gs2)) @ CHR '','' # (''r='' @ nonce)"
    by (simp add: client_final_without_proof_def)
  have "split_on CHR '','' (client_final_without_proof cr gs2 nonce) =
      [''c='' @ b64 cr (as_bytes gs2), ''r='' @ nonce]"
    unfolding e split_on_cons [OF c] using assms(2) by (subst split_on_plain) simp_all
  then show ?thesis by (simp add: strip_prefix_def)
qed

text \<open>The check of a client-final message in standard form.\<close>

lemma verify_final_standard:
  assumes "crypto_ok cr" "CHR '','' \<notin> set nonce"
  shows "verify_final cr h v bare sf gs2 full (client_final cr gs2 nonce proof) =
    (let auth = auth_message cr bare sf gs2 nonce; sg = hmac cr h (vf_stored v) auth in
     if nonce = full \<and> length proof = length sg \<and> digest cr h (xor_bytes proof sg) = vf_stored v
     then Some (''v='' @ b64 cr (hmac cr h (vf_server v) auth)) else None)"
  using assms(1)
  by (simp add: verify_final_def split_client_final [OF assms(1)] scan_client_final [OF assms]
      auth_message_def crypto_ok_def Let_def)

subsection \<open>What the exchange guarantees\<close>

lemma scram_exchange_completes_core:
  assumes cr: "crypto_ok cr" and v: "parse_verifier cr enc = Some v" and pw: "verify_plain cr h enc pw"
    and first: "CHR '','' \<notin> set (cbflag @ authzid @ cnonce)" "\<not> starts_with ''p'' cbflag"
    and sf: "server_first cr draw cnonce v = (sf, nonce)"
  shows "verify_final cr h v bare sf gs2 nonce
      (client_final cr gs2 nonce (client_proof cr h pw (vf_salt v) (vf_iterations v) bare sf gs2 nonce)) =
    Some (''v='' @ b64 cr (hmac cr h (vf_server v) (auth_message cr bare sf gs2 nonce)))"
proof -
  let ?ck = "client_key cr h (salted_password cr h pw (vf_salt v) (vf_iterations v))"
  have stored: "digest cr h ?ck = vf_stored v" using pw v by (simp add: verify_plain_def)
  have len: "length ?ck = length (hmac cr h k m)" for k m
    using cr unfolding crypto_ok_def client_key_def by blast
  have "nonce = cnonce @ b64 cr draw" using sf by (simp add: server_first_def Let_def)
  then have n: "CHR '','' \<notin> set nonce" using first(1) cr by (simp add: crypto_ok_def)
  have "xor_bytes (xor_bytes ?ck (hmac cr h (vf_stored v) m)) (hmac cr h (vf_stored v) m) = ?ck" for m
    by (rule xor_bytes_cancel) (rule len)
  with n stored len show ?thesis
    by (simp add: verify_final_standard [OF cr n] client_proof_def Let_def)
qed

text \<open>From the first message to the last: a client that knows a password the verifier accepts in
  plain text is recognised under the name it gave, whatever commas and equals signs that name holds,
  and gets the server's own proof back.\<close>

theorem scram_exchange_completes:
  assumes cr: "crypto_ok cr" and v: "parse_verifier cr enc = Some v" and pw: "verify_plain cr h enc pw"
    and first: "CHR '','' \<notin> set (cbflag @ authzid @ cnonce)" "\<not> starts_with ''p'' cbflag"
    and sf: "server_first cr draw cnonce v = (sf, nonce)"
  shows "\<exists>cf. parse_client_first (client_first_message cbflag authzid user cnonce) = Some cf \<and>
    cf_username cf = user \<and> cf_cnonce cf = cnonce \<and>
    verify_final cr h v (cf_bare cf) sf (cf_gs2_header cf) nonce
      (client_final cr (cf_gs2_header cf) nonce
         (client_proof cr h pw (vf_salt v) (vf_iterations v) (cf_bare cf) sf (cf_gs2_header cf) nonce)) =
    Some (''v='' @ b64 cr (hmac cr h (vf_server v)
      (auth_message cr (cf_bare cf) sf (cf_gs2_header cf) nonce)))"
  unfolding parse_client_first_message [OF first]
  using scram_exchange_completes_core [OF cr v pw first sf] by simp

text \<open>Whatever a client sends, it is accepted only if it echoes the header and the full nonce of this
  exchange and its proof, freed of the signature over all three messages, is a preimage of the stored
  key.\<close>

theorem scram_accepts_only_preimages:
  assumes "verify_final cr h v bare sf gs2 nonce final = Some answer"
  shows "\<exists>wp proof64 proof cbind. final = wp @ '',p='' @ proof64 \<and> unb64 cr proof64 = Some proof \<and>
    (''c='' @ cbind) \<in> set (split_on CHR '','' wp) \<and> unb64 cr cbind = Some (as_bytes gs2) \<and>
    (''r='' @ nonce) \<in> set (split_on CHR '','' wp) \<and>
    digest cr h (xor_bytes proof (hmac cr h (vf_stored v) (as_bytes (bare @ '','' @ sf @ '','' @ wp)))) =
      vf_stored v \<and>
    answer = ''v='' @ b64 cr (hmac cr h (vf_server v) (as_bytes (bare @ '','' @ sf @ '','' @ wp)))"
proof -
  from assms obtain wp p64 where w: "rsplit_sub '',p='' final = Some (wp, p64)"
    unfolding verify_final_def by (cases "rsplit_sub '',p='' final") auto
  from assms w obtain pf where p: "unb64 cr p64 = Some pf"
    unfolding verify_final_def by (cases "unb64 cr p64") auto
  obtain c r where s: "scan_final (split_on CHR '','' wp) None None = (c, r)" by force
  from assms w p s obtain cb rn where cr: "c = Some cb" "r = Some rn"
    unfolding verify_final_def by (cases c; cases r) auto
  have scan: "scan_final fs c0 r0 = (c, r) \<Longrightarrow>
      (c = c0 \<or> (\<exists>x. c = Some x \<and> (''c='' @ x) \<in> set fs)) \<and>
      (r = r0 \<or> (\<exists>x. r = Some x \<and> (''r='' @ x) \<in> set fs))" for fs c0 r0
    by (induction fs c0 r0 rule: scan_final.induct)
      (auto split: option.splits dest: strip_prefix_Some [THEN iffD1])
  from scan [OF s] cr have "(''c='' @ cb) \<in> set (split_on CHR '','' wp)" "(''r='' @ rn) \<in> set (split_on CHR '','' wp)"
    by auto
  moreover have "rn = nonce" "unb64 cr cb = Some (as_bytes gs2)"
    and "digest cr h (xor_bytes pf (hmac cr h (vf_stored v) (as_bytes (bare @ '','' @ sf @ '','' @ wp)))) = vf_stored v"
    and "answer = ''v='' @ b64 cr (hmac cr h (vf_server v) (as_bytes (bare @ '','' @ sf @ '','' @ wp)))"
    using assms w p s cr by (auto simp: verify_final_def Let_def split: if_splits)
  ultimately show ?thesis
    using rsplit_sub_Some [OF w] p by blast
qed

text \<open>A verifier made for a password is stored text that reads back with its cost and salt, accepts
  the password, and passes the check on supplied verifiers exactly when its cost is in the range.\<close>

theorem verifier_roundtrip:
  assumes "crypto_ok cr" "i \<le> u32_max" "make_verifier cr h pw i draws = Some enc"
  shows "\<exists>v. parse_verifier cr enc = Some v \<and> vf_iterations v = i \<and> vf_salt v \<in> set draws \<and>
    verify_plain cr h enc pw \<and> (verifier_ok cr enc \<longleftrightarrow> 1000 \<le> i \<and> i \<le> max_verifier_iterations)"
proof -
  from assms(3) obtain salt where s: "draw_salt cr draws = Some salt" and e: "enc = encode_verifier cr h pw i salt"
    by (auto simp: make_verifier_def)
  have "salt \<in> set draws" using s by (auto simp: draw_salt_def find_Some_iff)
  then show ?thesis
    unfolding e using parse_encode_verifier [OF assms(1,2)] by (simp add: verify_plain_def verifier_ok_def)
qed

subsection \<open>An instance\<close>

definition nibble :: "nat \<Rightarrow> char" where "nibble n = char_of (65 + n)"

fun unhex :: "string \<Rightarrow> bytes option" where
  "unhex [] = Some []"
| "unhex [c] = None"
| "unhex (c # d # s) = map_option ((#) (of_nat ((code c - 65) * 16 + (code d - 65)))) (unhex s)"

definition plain_crypto :: crypto where
  "plain_crypto = \<lparr>b64 = (\<lambda>b. concat (map (\<lambda>x. [nibble (unat x div 16), nibble (unat x mod 16)]) b)),
     unb64 = unhex, hmac = (\<lambda>h k m. [foldr (+) (k @ m) 0]), digest = (\<lambda>h b. [foldr (+) b 0]),
     pbkdf2 = (\<lambda>h p s i. p @ s)\<rparr>"

lemma unat_byte: "unat (x :: 8 word) < 256"
proof -
  have "unat x < 2 ^ LENGTH(8)" by (rule unsigned_less)
  then show ?thesis by simp
qed

lemma code_nibble: "n < 16 \<Longrightarrow> code (nibble n) = 65 + n"
  by (simp add: code_def nibble_def)

lemma nibble_ne: "n < 16 \<Longrightarrow> code c < 65 \<Longrightarrow> c \<noteq> nibble n"
  using code_nibble by fastforce

lemma plain_crypto_ok: "crypto_ok plain_crypto"
proof -
  have "unhex (concat (map (\<lambda>x. [nibble (unat x div 16), nibble (unat x mod 16)]) b)) = Some b" for b :: bytes
  proof (induction b)
    case (Cons x b)
    have "unat x div 16 < 16" using unat_byte [of x] by auto
    with Cons show ?case by (simp add: code_nibble)
  qed simp
  moreover have "CHR '','' \<noteq> nibble (unat (x :: 8 word) div 16)" "CHR '','' \<noteq> nibble (unat x mod 16)" for x
    using unat_byte [of x] by (simp_all add: nibble_ne code_def)
  ultimately show ?thesis by (auto simp: crypto_ok_def plain_crypto_def)
qed

definition example_verifier :: string where
  "example_verifier = encode_verifier plain_crypto Sha256 ''pencil'' 4096 [7]"

lemma example_verifier_parses: "parse_verifier plain_crypto example_verifier =
   Some \<lparr>vf_iterations = 4096, vf_salt = [7],
      vf_stored = digest plain_crypto Sha256 (client_key plain_crypto Sha256 (salted_password plain_crypto Sha256 ''pencil'' [7] 4096)),
      vf_server = server_key plain_crypto Sha256 (salted_password plain_crypto Sha256 ''pencil'' [7] 4096)\<rparr>"
  unfolding example_verifier_def by (rule parse_encode_verifier [OF plain_crypto_ok]) (simp add: u32_max_def)

theorem verifier_roundtrip_witness:
  "verify_plain plain_crypto Sha256 example_verifier ''pencil'' \<and> verifier_ok plain_crypto example_verifier"
proof -
  have "make_verifier plain_crypto Sha256 ''pencil'' 4096 [[7]] = Some example_verifier"
    by (simp add: make_verifier_def draw_salt_def example_verifier_def nibble_ne code_def)
      (simp add: plain_crypto_def nibble_ne code_def)
  from verifier_roundtrip [OF plain_crypto_ok _ this] show ?thesis
    by (auto simp: u32_max_def max_verifier_iterations_def)
qed

theorem scram_exchange_completes_witness:
  "\<exists>v cf answer. parse_verifier plain_crypto example_verifier = Some v \<and>
    parse_client_first (client_first_message ''n'' [] ''al=,ice'' ''abc'') = Some cf \<and> cf_username cf = ''al=,ice'' \<and>
    verify_final plain_crypto Sha256 v (cf_bare cf) (fst (server_first plain_crypto [1, 2] ''abc'' v)) (cf_gs2_header cf)
      (snd (server_first plain_crypto [1, 2] ''abc'' v))
      (client_final plain_crypto (cf_gs2_header cf) (snd (server_first plain_crypto [1, 2] ''abc'' v))
         (client_proof plain_crypto Sha256 ''pencil'' (vf_salt v) (vf_iterations v) (cf_bare cf)
            (fst (server_first plain_crypto [1, 2] ''abc'' v)) (cf_gs2_header cf)
            (snd (server_first plain_crypto [1, 2] ''abc'' v)))) = Some answer"
proof -
  have p: "verify_plain plain_crypto Sha256 example_verifier ''pencil''"
    by (simp add: verify_plain_def example_verifier_parses)
  obtain v where v: "parse_verifier plain_crypto example_verifier = Some v"
    using example_verifier_parses by blast
  have f: "CHR '','' \<notin> set (''n'' @ [] @ ''abc'')" "\<not> starts_with ''p'' ''n''" by (simp_all add: starts_with_def)
  from scram_exchange_completes [OF plain_crypto_ok v p f prod.collapse [symmetric], where draw = "[1, 2]" and user = "''al=,ice''"] v
  show ?thesis by blast
qed

theorem scram_accepts_only_preimages_witness:
  "\<exists>v final wp proof64. parse_verifier plain_crypto example_verifier = Some v \<and>
    verify_final plain_crypto Sha256 v ''n=al,r=x'' ''s'' ''n,,'' ''xy'' final \<noteq> None \<and>
    final = wp @ '',p='' @ proof64 \<and> (''r='' @ ''xy'') \<in> set (split_on CHR '','' wp)"
proof -
  obtain v where v: "parse_verifier plain_crypto example_verifier = Some v"
    and s: "vf_stored v = digest plain_crypto Sha256 (client_key plain_crypto Sha256 (salted_password plain_crypto Sha256 ''pencil'' (vf_salt v) (vf_iterations v)))"
    using example_verifier_parses by auto
  let ?f = "client_final plain_crypto ''n,,'' ''xy'' (client_proof plain_crypto Sha256 ''pencil'' (vf_salt v) (vf_iterations v) ''n=al,r=x'' ''s'' ''n,,'' ''xy'')"
  have "CHR '','' \<notin> set ''xy''" by simp
  note std = verify_final_standard [OF plain_crypto_ok this, of Sha256 v "''n=al,r=x''" "''s''" "''n,,''" "''xy''"]
  let ?ck = "client_key plain_crypto Sha256 (salted_password plain_crypto Sha256 ''pencil'' (vf_salt v) (vf_iterations v))"
  have len: "length (client_key plain_crypto h k) = 1" "length (hmac plain_crypto h k m) = 1" for h k m
    by (simp_all add: client_key_def plain_crypto_def)
  have pr: "client_proof plain_crypto Sha256 ''pencil'' (vf_salt v) (vf_iterations v) ''n=al,r=x'' ''s'' ''n,,'' ''xy'' =
      xor_bytes ?ck (hmac plain_crypto Sha256 (vf_stored v) (auth_message plain_crypto ''n=al,r=x'' ''s'' ''n,,'' ''xy''))"
    by (simp add: client_proof_def s Let_def)
  have "verify_final plain_crypto Sha256 v ''n=al,r=x'' ''s'' ''n,,'' ''xy'' ?f \<noteq> None"
    unfolding std pr using s by (simp add: Let_def len xor_bytes_cancel)
  then obtain answer where a: "verify_final plain_crypto Sha256 v ''n=al,r=x'' ''s'' ''n,,'' ''xy'' ?f = Some answer"
    by blast
  from scram_accepts_only_preimages [OF a] a v show ?thesis by (metis option.distinct(1))
qed

end
