(* ===== verification/Actions.thy ===== *)
theory Actions
  imports ExtBan
begin

text \<open>
  The engine's vocabulary with the link layer (api/src/lib.rs): what arrives (\<^verbatim>\<open>NetEvent\<close>), what is
  sent (\<^verbatim>\<open>NetAction\<close>), and how deferred work is answered (\<^verbatim>\<open>RegReply\<close>, \<^verbatim>\<open>AuthThen\<close>). The wording of a
  message for people is a \<open>message\<close>: its English template, named, with the values put into it; an
  incident id stamped behind it is kept apart.
\<close>

datatype message = Lit string | Msg string "string list" | Stamped message string

datatype reply_kind = Fail | Warn | Note

fun reply_verb :: "reply_kind \<Rightarrow> string" where
  "reply_verb Fail = ''FAIL''"
| "reply_verb Warn = ''WARN''"
| "reply_verb Note = ''NOTE''"

datatype reg_reply_to =
  Relay string string string
| ToNickServ string string string
| ToAdmin string string

datatype auth_then =
  ThenIdentify string string string string
| ThenLogin string string string string string
| ThenSasl string string string bool

datatype channel_action =
  ChannelMode string string string
| KickUser string string string message
| SetTopic string string string string
| Invite string string string
| RenameChannel string string string message
| ServiceJoin string string string
| ServicePart string string

datatype user_action =
  IntroduceUser string string string string string
| OperType string string
| QuitUser string message
| ForceNick string string
| SetHost string string
| SetIdent string string
| ForceJoin string string string
| ForcePart string string message
| UserMode string string
| KillUser string string message

datatype link_action =
  Burst | EndBurst | Pong string "string option" | IdleReply string string nat nat
| Metadata string string string
| AddLine string string string nat message
| DelLine string string
| JupeServer string string message
| Squit string message
| SaslReply string string string "string list"
| AccountResponse string string string string string string message
| Raw string

datatype talk_action =
  Privmsg string string message
| Notice string string message
| StandardReply reply_kind string string string string message
| Redact string string string message

datatype deferred_action =
  DeferRegister string string "string option" reg_reply_to
| DeferPassword string string string string
| DeferAuthenticate string string auth_then
| DeferKeycard string string auth_then
| SendEmail string message
| DictLookup string string string string string
| Shutdown bool message
| Rehash string string

datatype net_action =
  OnChannel channel_action
| OnUser user_action
| OnLink link_action
| Talk talk_action
| Deferred deferred_action
| TaggedAction "(string \<times> string) list" net_action

fun inner :: "net_action \<Rightarrow> net_action" where
  "inner (TaggedAction tags a) = a"
| "inner a = a"

datatype user_event =
  UserConnect string string string string
| UserAttrs string string string string
| UserCert string string
| NickChange string string
| AccountLogin string string
| SignoreSet string "string list"
| UserModeSet string string
| OperUp string string
| Quit string string
| UserKilled string

datatype channel_event_in =
  ChannelCreate string
| Join string string bool
| Part string string string
| Kicked string string string string
| ChannelRename string string
| ChannelOp string string bool
| ChannelVoice string string bool
| ChannelModeChange string string string
| ChannelKey string "string option"
| TopicChange string string string string

datatype server_event =
  Registered | EndOfBurst | Ping string "string option" | Idle string string
| ServerLink string string
| ServerInfo string string
| ServerSplit string
| ExtbanRegistry "extban_cap list"
| ChanModeRegistry "chan_mode_cap list"
| Casemapping string
| ModulesAvailable "string list"
| CapabEnd
| ServProtect char bool

datatype request_event =
  PrivmsgIn string string string "string option"
| AccountRequest string string string string string string
| SaslIn string string "string list"
| Unknown string

datatype net_event =
  UserEv user_event | ChanEv channel_event_in | ServEv server_event | ReqEv request_event

end
