(* ===== verification/Engine.thy ===== *)
theory Engine
  imports Policy Security Scram Actions ChannelOps MemoOps "HOL-Library.Product_Lexorder"
begin

text \<open>
  The engine (\<^verbatim>\<open>Engine\<close> in src/src/engine/mod.rs): the network view, the database and everything kept
  per connection, with the helpers its handlers share. An operation takes the environment of the
  step - clocks, random draws, third-party functions, the order in which hash maps are walked - and
  the engine, and returns the actions for the uplink with the new engine. Actions sent through the
  outbound channel instead of being returned are appended to \<open>g_sent\<close>.

  Wording is a \<open>message\<close>: the name of its template and its arguments. The language it is rendered in
  is left out.
\<close>

subsection \<open>Environment\<close>

record env =
  ev_now :: nat
  ev_instant :: nat
  ev_rand :: bytes
  ev_crypto :: crypto
  ev_point :: "bytes \<Rightarrow> bool"
  ev_der :: "bytes \<Rightarrow> bool"
  ev_signed :: "bytes \<Rightarrow> bytes \<Rightarrow> bytes \<Rightarrow> bool"
  ev_hash :: "string list \<Rightarrow> nat"
  ev_order :: "string set \<Rightarrow> string list"
  ev_pairs :: "(string \<times> string) set \<Rightarrow> (string \<times> string) list"
  ev_compiles :: "string \<Rightarrow> bool"
  ev_set_compiles :: "string list \<Rightarrow> bool"
  ev_matches :: "string \<Rightarrow> string \<Rightarrow> bool"
  ev_captures :: "string \<Rightarrow> string \<Rightarrow> string list option"
  ev_confusable :: "string \<Rightarrow> bool"
  ev_code :: string
  ev_reg_token :: bool
  ev_on_quit :: "string \<Rightarrow> net_action list"

text \<open>\<open>ev_point\<close>, \<open>ev_der\<close> and \<open>ev_signed\<close> are the P-256 library: whether bytes encode a public key, a
  signature, and whether a signature fits. \<open>ev_order\<close> and \<open>ev_pairs\<close> list the keys of a map, or a set, as it is walked. The next four are
  the regular expressions of the regex crate, without regard to case and with its size limit: whether
  one pattern, or a set of them, can be built; whether a pattern occurs in a text; the groups of its
  first occurrence, the whole first. \<open>ev_confusable\<close> tells the look-alike names of Unicode, \<open>ev_code\<close> is the next
  code drawn, \<open>ev_reg_token\<close> whether the registration bucket (kept in floating point) has a token, and
  \<open>ev_on_quit\<close> what the service modules say when a client is gone.\<close>

definition plain_env :: env where
  "plain_env = \<lparr>ev_now = 1000, ev_instant = 5, ev_rand = [], ev_crypto = plain_crypto,
     ev_point = (\<lambda>_. False), ev_der = (\<lambda>_. False), ev_signed = (\<lambda>_ _ _. False), ev_hash = (\<lambda>_. 0),
     ev_order = sorted_list_of_set, ev_pairs = sorted_list_of_set, ev_compiles = (\<lambda>_. True),
     ev_set_compiles = (\<lambda>_. True), ev_matches = (=), ev_captures = (\<lambda>_ _. None),
     ev_confusable = (\<lambda>_. False), ev_code = ''123456'', ev_reg_token = True, ev_on_quit = (\<lambda>_. [])\<rparr>"

definition orders_ok :: "env \<Rightarrow> bool" where
  "orders_ok v \<longleftrightarrow> (\<forall>S. finite S \<longrightarrow> distinct (ev_order v S) \<and> set (ev_order v S) = S) \<and>
     (\<forall>S. finite S \<longrightarrow> distinct (ev_pairs v S) \<and> set (ev_pairs v S) = S)"

subsection \<open>State\<close>

datatype scram_step =
  ClientFirst
| ClientFinal string verifier string string string string
| Ack string

datatype ecdsa_step = AccountName | Signature string string bytes

datatype sasl_session =
  SPlain string
| SScram hash scram_step
| SExternal "string list"
| SEcdsa ecdsa_step

record timed_session =
  ts_touched :: nat
  ts_session :: sasl_session

record service =
  sv_uid :: string
  sv_nick :: string
  sv_host :: string
  sv_gecos :: string
  sv_channels :: bool
  sv_accounts :: bool

record pending_enforce =
  pe_uid :: string
  pe_nick :: string
  pe_deadline :: nat

record pending_unban =
  pu_at :: nat
  pu_from :: string
  pu_channel :: string
  pu_mask :: string

record chatter_state =
  ch_flood_start :: nat
  ch_flood_lines :: nat
  ch_last_hash :: nat
  ch_repeats :: nat
  ch_kicks :: nat
  ch_warned :: bool

definition chatter_default :: chatter_state where
  "chatter_default = \<lparr>ch_flood_start = 0, ch_flood_lines = 0, ch_last_hash = 0, ch_repeats = 0,
     ch_kicks = 0, ch_warned = False\<rparr>"

record vote_state =
  vo_ban :: bool
  vo_voters :: "string set"
  vo_started :: nat

record cached_badwords =
  cb_rev :: "64 word"
  cb_ts :: nat
  cb_set :: "string list"

record trigger_rt =
  tt_pattern :: string
  tt_response :: string
  tt_cooldown :: nat
  tt_last_fired :: nat

record cached_triggers =
  ct_rev :: "64 word"
  ct_ts :: nat
  ct_entries :: "trigger_rt list"

record engine =
  g_services :: "service list"
  g_network :: network
  g_db :: db
  g_caps :: live_caps
  g_sasl :: "string \<rightharpoonup> timed_session"
  g_source :: "string \<rightharpoonup> nat \<times> string"
  g_chan_service :: "string option"
  g_nick_service :: "string option"
  g_sent :: "net_action list"
  g_opers :: "string \<rightharpoonup> privs"
  g_sid :: string
  g_synced :: bool
  g_guest_nick :: string
  g_service_host :: string
  g_service_oper_type :: string
  g_services_channel :: string
  g_standard_replies :: bool
  g_enforce_seq :: nat
  g_pending_enforce :: "pending_enforce list"
  g_bot_uids :: "string \<rightharpoonup> string"
  g_services_signon :: nat
  g_bot_idents :: "string \<rightharpoonup> nat"
  g_next_bot_index :: nat
  g_bot_channels :: "(string \<times> string) set"
  g_chatter :: "string \<rightharpoonup> (string \<rightharpoonup> chatter_state)"
  g_badword_cache :: "string \<rightharpoonup> cached_badwords"
  g_trigger_cache :: "string \<rightharpoonup> cached_triggers"
  g_pending_unbans :: "pending_unban list"
  g_votes :: "string \<times> string \<rightharpoonup> vote_state"
  g_log_channel :: "string option"
  g_debugserv_uid :: string
  g_account_ttl :: "nat option"
  g_channel_ttl :: "nat option"
  g_expire_warn :: "nat option"
  g_session_limit :: "nat option"
  g_security :: security

text \<open>\<^verbatim>\<open>Engine::new\<close>: the persisted statistics and incidents come back, everything else is fresh.\<close>

definition engine_new :: "service list \<Rightarrow> db \<Rightarrow> engine" where
  "engine_new services d =
     \<lparr>g_services = services,
      g_network = seed_incidents (n_incident_seq (net (st d))) (n_incidents (net (st d)))
        (seed_chan_activity (n_chan_stats (net (st d)))
          (seed_stats (n_stats (net (st d))) network_empty)),
      g_db = d, g_caps = \<lparr>lv_extbans = None, lv_chanmodes = None\<rparr>,
      g_sasl = Map.empty, g_source = Map.empty,
      g_chan_service = map_option sv_uid (find sv_channels services),
      g_nick_service = map_option sv_uid (find sv_accounts services),
      g_sent = [], g_opers = Map.empty, g_sid = [], g_synced = False, g_guest_nick = ''Guest'',
      g_service_host = ''services.local'', g_service_oper_type = [], g_services_channel = [],
      g_standard_replies = False, g_enforce_seq = 0, g_pending_enforce = [], g_bot_uids = Map.empty,
      g_services_signon = 0, g_bot_idents = Map.empty, g_next_bot_index = 0, g_bot_channels = {},
      g_chatter = Map.empty, g_badword_cache = Map.empty,
      g_trigger_cache = Map.empty, g_pending_unbans = [], g_votes = Map.empty, g_log_channel = None,
      g_debugserv_uid = [], g_account_ttl = None, g_channel_ttl = None, g_expire_warn = None, g_session_limit = None,
      g_security = security_default\<rparr>"

definition max_authenticate :: nat where "max_authenticate = 400"
definition max_sasl_response :: nat where "max_sasl_response = 8 * 1024"
definition sasl_session_ttl :: nat where "sasl_session_ttl = 60 * nanos"
definition max_sasl_sessions :: nat where "max_sasl_sessions = 4096"
definition vote_ttl :: nat where "vote_ttl = 120"
definition enforce_grace :: nat where "enforce_grace = 60"

text \<open>\<^verbatim>\<open>str::trim\<close>, over 8-bit characters.\<close>

definition is_whitespace :: "char \<Rightarrow> bool" where
  "is_whitespace c \<longleftrightarrow> (9 \<le> code c \<and> code c \<le> 13) \<or> code c = 32 \<or> code c = 133 \<or> code c = 160"

definition trim :: "string \<Rightarrow> string" where
  "trim s = rev (dropWhile is_whitespace (rev (dropWhile is_whitespace s)))"

definition on_network :: "(network \<Rightarrow> network) \<Rightarrow> engine \<Rightarrow> engine" where
  "on_network f g = g\<lparr>g_network := f (g_network g)\<rparr>"

definition on_db :: "(db \<Rightarrow> db) \<Rightarrow> engine \<Rightarrow> engine" where
  "on_db f g = g\<lparr>g_db := f (g_db g)\<rparr>"

definition bump_stat :: "string \<Rightarrow> engine \<Rightarrow> engine" where
  "bump_stat k = on_network (bump k)"

definition emit_irc :: "net_action \<Rightarrow> engine \<Rightarrow> engine" where
  "emit_irc a g = g\<lparr>g_sent := g_sent g @ [a]\<rparr>"

text \<open>A step yields actions and the engine after it; steps run in sequence, or once for each of a list.\<close>

type_synonym step = "engine \<Rightarrow> net_action list \<times> engine"

definition and_also :: "step \<Rightarrow> step \<Rightarrow> step" where
  "and_also f h g = (let (a, g1) = f g; (b, g2) = h g1 in (a @ b, g2))"

definition quietly :: "(engine \<Rightarrow> engine) \<Rightarrow> step" where
  "quietly f g = ([], f g)"

definition say :: "(engine \<Rightarrow> net_action list) \<Rightarrow> step" where
  "say f g = (f g, g)"

fun each :: "('a \<Rightarrow> step) \<Rightarrow> 'a list \<Rightarrow> step" where
  "each f [] g = ([], g)"
| "each f (x # xs) g = and_also (f x) (each f xs) g"

text \<open>\<^verbatim>\<open>for action in ... { self.emit_irc(action) }\<close>: the actions of a step go out at once.\<close>

definition emitting :: "step \<Rightarrow> engine \<Rightarrow> engine" where
  "emitting f g = (let (acts, g1) = f g in fold emit_irc acts g1)"

text \<open>The wording of a message, abbreviated to its name and what is put into it.\<close>

fun text_of :: "message \<Rightarrow> string" where
  "text_of (Lit s) = s"
| "text_of (Msg n as) = n @ concat (map (\<lambda>a. CHR '' '' # a) as)"
| "text_of (Stamped m i) = text_of m @ '' [#'' @ i @ '']''"

text \<open>\<^verbatim>\<open>iter().find\<close> over a map.\<close>

definition walk_accounts :: "env \<Rightarrow> engine \<Rightarrow> string list" where
  "walk_accounts v g = ev_order v (dom (accounts (st (g_db g))))"

definition walk_channels_db :: "env \<Rightarrow> engine \<Rightarrow> string list" where
  "walk_channels_db v g = ev_order v (dom (channels (st (g_db g))))"

definition walk_users :: "env \<Rightarrow> engine \<Rightarrow> string list" where
  "walk_users v g = ev_order v (dom (w_users (g_network g)))"

definition walk_channels :: "env \<Rightarrow> engine \<Rightarrow> string list" where
  "walk_channels v g = ev_order v (dom (w_channels (g_network g)))"

text \<open>The walk of the last-seen table once \<open>nick\<close>, or the nick of \<open>uid\<close>, is in it.\<close>

definition seen_order :: "env \<Rightarrow> engine \<Rightarrow> string \<Rightarrow> string list" where
  "seen_order v g nick = ev_order v (insert (key nick) (dom (w_seen (g_network g))))"

definition seen_order_of :: "env \<Rightarrow> engine \<Rightarrow> string \<Rightarrow> string list" where
  "seen_order_of v g uid =
     (case net_nick_of (g_network g) uid of None \<Rightarrow> [] | Some nick \<Rightarrow> seen_order v g nick)"

definition nick_uid :: "env \<Rightarrow> engine \<Rightarrow> string \<Rightarrow> string option" where
  "nick_uid v g = uid_by_nick (walk_users v g) (g_network g)"

definition fp_owner :: "env \<Rightarrow> engine \<Rightarrow> string \<Rightarrow> string option" where
  "fp_owner v g = certfp_owner (walk_accounts v g) (g_db g)"

definition login_of :: "engine \<Rightarrow> string \<Rightarrow> string option" where
  "login_of g uid = net_account_of (g_network g) uid"

definition channel_rec :: "engine \<Rightarrow> string \<Rightarrow> channel_info option" where
  "channel_rec g chan = channel_of (g_db g) chan"

subsection \<open>Questions to the store\<close>

definition account_wants_autoop :: "db \<Rightarrow> string \<Rightarrow> bool" where
  "account_wants_autoop d acct = (case account_of d acct of None \<Rightarrow> True | Some a \<Rightarrow> \<not> a_no_autoop a)"

definition account_wants_protect :: "db \<Rightarrow> string \<Rightarrow> bool" where
  "account_wants_protect d acct = (case account_of d acct of None \<Rightarrow> True | Some a \<Rightarrow> \<not> a_no_protect a)"

definition swhois_of :: "db \<Rightarrow> string \<Rightarrow> string option" where
  "swhois_of d acct = Option.bind (account_of d acct) a_swhois"

definition signore_of :: "db \<Rightarrow> string \<Rightarrow> string list" where
  "signore_of d acct = (case account_of d acct of None \<Rightarrow> [] | Some a \<Rightarrow> a_signore a)"

definition memo_notify_on :: "db \<Rightarrow> string \<Rightarrow> bool" where
  "memo_notify_on d acct = (case account_of d acct of None \<Rightarrow> True | Some a \<Rightarrow> a_memo_notify a)"

definition certfps_of :: "db \<Rightarrow> string \<Rightarrow> string list" where
  "certfps_of d acct = (case account_of d acct of None \<Rightarrow> [] | Some a \<Rightarrow> a_certfps a)"

definition ajoin_list :: "db \<Rightarrow> string \<Rightarrow> ajoin_entry list" where
  "ajoin_list d acct = (case account_of d acct of None \<Rightarrow> [] | Some a \<Rightarrow> a_ajoin a)"

definition is_verified :: "db \<Rightarrow> string \<Rightarrow> bool" where
  "is_verified d acct = (case account_of d acct of None \<Rightarrow> True | Some a \<Rightarrow> a_verified a)"

definition profile_field_of :: "db \<Rightarrow> string \<Rightarrow> profile_field \<Rightarrow> string option" where
  "profile_field_of d acct f = Option.bind (account_of d acct) (\<lambda>a. profile_get f (a_profile a))"

definition news_of :: "db \<Rightarrow> news_kind \<Rightarrow> news list" where
  "news_of d k = filter (\<lambda>n. nw_kind n = news_wire k) (n_news (net (st d)))"

text \<open>OperServ NOTIFY: the flags of every live watch that covers a user or a channel, unless an
  exclusion does.\<close>

definition names_channel :: "string \<Rightarrow> bool" where
  "names_channel m \<longleftrightarrow> starts_with ''#'' m \<or> starts_with ''&'' m"

definition bare_nick_mask :: "string \<Rightarrow> bool" where
  "bare_nick_mask m \<longleftrightarrow> CHR ''@'' \<notin> set m \<and> CHR ''!'' \<notin> set m"

definition watch_covers :: "string \<Rightarrow> ban_target option \<Rightarrow> string option \<Rightarrow> bool" where
  "watch_covers m target chan =
     (if names_channel m then (case chan of None \<Rightarrow> False | Some c \<Rightarrow> glob_match m c)
      else (case target of None \<Rightarrow> False
        | Some t \<Rightarrow> akick_matches m t \<or> (bare_nick_mask m \<and> glob_match m (bt_nick t))))"

definition server_mask :: "string \<Rightarrow> string option" where
  "server_mask m = (case strip_prefix ''server:'' m of
      Some s \<Rightarrow> Some s | None \<Rightarrow> strip_prefix ''via:'' m)"

definition notify_excluded :: "db \<Rightarrow> ban_target option \<Rightarrow> string option \<Rightarrow> bool" where
  "notify_excluded d target chan =
     list_ex (\<lambda>m. case server_mask m of
         Some s \<Rightarrow> (case target of None \<Rightarrow> False | Some t \<Rightarrow> glob_match (key s) (key (bt_server t)))
       | None \<Rightarrow> watch_covers m target chan) (notify_exclude d)"

definition any_notifies :: "nat \<Rightarrow> db \<Rightarrow> bool" where
  "any_notifies now d = list_ex (\<lambda>n. live_until now (nt_expires n)) (n_notifies (net (st d)))"

definition notify_flags :: "nat \<Rightarrow> db \<Rightarrow> ban_target option \<Rightarrow> string option \<Rightarrow> string" where
  "notify_flags now d target chan =
     (if notify_excluded d target chan then []
      else concat (map nt_flags (filter (\<lambda>n. live_until now (nt_expires n) \<and> watch_covers (nt_mask n) target chan)
             (n_notifies (net (st d))))))"

definition oper_privs :: "nat \<Rightarrow> engine \<Rightarrow> string \<Rightarrow> privs" where
  "oper_privs now g acct =
     (let config = (case g_opers g (key acct) of None \<Rightarrow> 0 | Some p \<Rightarrow> p)
      in case oper_privs_of (g_db g) acct now of Some runtime \<Rightarrow> privs_union config runtime | None \<Rightarrow> config)"

definition is_operator :: "nat \<Rightarrow> engine \<Rightarrow> string \<Rightarrow> bool" where
  "is_operator now g acct = privs_any (oper_privs now g acct)"

subsection \<open>The staff feed\<close>

definition feed :: "engine \<Rightarrow> string \<Rightarrow> message \<Rightarrow> net_action list" where
  "feed g cat text =
     (case g_log_channel g of None \<Rightarrow> []
      | Some channel \<Rightarrow> if g_debugserv_uid g = [] \<or> g_sid g = [] then []
          else [Talk (Privmsg (g_debugserv_uid g) channel (Msg ''feed'' (cat # (case text of Msg n as \<Rightarrow> n # as | Lit s \<Rightarrow> [s] | Stamped m i \<Rightarrow> [i]))))])"

definition safe :: "string \<Rightarrow> string" where
  "safe s = take 48 (filter (\<lambda>c. \<not> is_control c) s)"

definition auth_source :: "engine \<Rightarrow> string \<Rightarrow> string" where
  "auth_source g client =
     (case g_source g client of
        Some (_, src) \<Rightarrow> safe src
      | None \<Rightarrow> (case (net_nick_of (g_network g) client, host_of (g_network g) client) of
            (Some nick, Some host) \<Rightarrow> safe nick @ ''@'' @ safe host
          | (Some nick, None) \<Rightarrow> safe nick
          | _ \<Rightarrow> ''unknown''))"

definition auth_report ::
  "engine \<Rightarrow> bool \<Rightarrow> string option \<Rightarrow> string \<Rightarrow> string \<Rightarrow> string option \<Rightarrow> net_action list" where
  "auth_report g ok acct mechanism client reason =
     (let source = auth_source g client; a = safe (case acct of None \<Rightarrow> ''*'' | Some a \<Rightarrow> a)
      in feed g ''AUTH''
           (if ok then Msg ''login ok'' [a, mechanism, source]
            else Msg ''login failed'' [a, mechanism, source, case reason of None \<Rightarrow> ''denied'' | Some r \<Rightarrow> r]))"

definition notify_line :: "env \<Rightarrow> engine \<Rightarrow> char \<Rightarrow> string \<Rightarrow> string option \<Rightarrow> message \<Rightarrow> net_action list" where
  "notify_line v g flag uid chan what =
     (if \<not> any_notifies (ev_now v) (g_db g) then []
      else case ban_target_of (walk_channels v g) (g_network g) uid of
        None \<Rightarrow> []
      | Some t \<Rightarrow>
          if flag \<notin> set (notify_flags (ev_now v) (g_db g) (Some t) chan) then []
          else feed g ''NOTIFY''
            (Msg ''watch''
              ([bt_nick t, bt_ident t, bt_host t] @
               (case what of Msg n as \<Rightarrow> n # as | Lit s \<Rightarrow> [s] | Stamped m i \<Rightarrow> [i]) @
               (if bt_ip t = [] then []
                else [bt_ip t] @ (if bt_realhost t \<noteq> [] \<and> bt_realhost t \<noteq> bt_ip t then [bt_realhost t] else [])) @
               (case bt_account t of None \<Rightarrow> [] | Some a \<Rightarrow> [a]) @
               (if bt_server t = [] then [] else [bt_server t]))))"

subsection \<open>Logins\<close>

definition sasl_fail :: "string \<Rightarrow> string \<Rightarrow> net_action list" where
  "sasl_fail agent client = [OnLink (SaslReply agent client ''D'' [''F''])]"

definition sasl_success :: "string \<Rightarrow> string \<Rightarrow> string \<Rightarrow> net_action list" where
  "sasl_success agent client acct =
     [OnLink (Metadata client ''accountname'' acct), OnLink (SaslReply agent client ''D'' [''S''])]"

definition sasl_login :: "nat \<Rightarrow> engine \<Rightarrow> string \<Rightarrow> string \<Rightarrow> string \<Rightarrow> string \<Rightarrow> net_action list" where
  "sasl_login now g mechanism agent client acct =
     (if is_suspended now (g_db g) acct
      then sasl_fail agent client @ auth_report g False (Some acct) mechanism client (Some ''account suspended'')
      else sasl_success agent client acct @ auth_report g True (Some acct) mechanism client None)"

definition sasl_deny ::
  "engine \<Rightarrow> string \<Rightarrow> string \<Rightarrow> string \<Rightarrow> string option \<Rightarrow> string \<Rightarrow> net_action list" where
  "sasl_deny g mechanism agent client acct reason =
     sasl_fail agent client @ auth_report g False acct mechanism client (Some reason)"

definition profile_fields :: "profile_field list" where
  "profile_fields = [Avatar, Bio, Pronouns, Timezone, Url]"

definition join_words :: "string list \<Rightarrow> string" where
  "join_words ws = join_with CHR '' '' ws"

text \<open>What a user who is logged in at once on connecting gets: auto-join, vhost, profile, SWHOIS,
  SIGNORE and the notice of waiting memos.\<close>

definition login_connect_effects :: "nat \<Rightarrow> engine \<Rightarrow> string \<Rightarrow> string \<Rightarrow> net_action list" where
  "login_connect_effects now g uid acct =
     map (\<lambda>e. OnUser (ForceJoin uid (aj_channel e) (aj_key e))) (ajoin_list (g_db g) acct) @
     (case active_vhost now (g_db g) acct of None \<Rightarrow> [] | Some h \<Rightarrow> [OnUser (SetHost uid h)]) @
     List.map_filter (\<lambda>f. map_option (\<lambda>x. OnLink (Metadata uid (meta_key f) x)) (profile_field_of (g_db g) acct f))
       profile_fields @
     (case swhois_of (g_db g) acct of None \<Rightarrow> [] | Some s \<Rightarrow> [OnLink (Metadata uid ''swhois'' s)]) @
     (if signore_of (g_db g) acct = [] then []
      else [OnLink (Metadata uid ''signore'' (join_words (signore_of (g_db g) acct)))]) @
     (let unread = unread_memos (g_db g) acct in
      if unread > 0 \<and> memo_notify_on (g_db g) acct
      then (case g_nick_service g of None \<Rightarrow> []
            | Some ns \<Rightarrow> [Talk (Notice ns uid (Msg ''new memos'' [show_nat unread]))])
      else [])"

definition news_notices :: "engine \<Rightarrow> news_kind \<Rightarrow> string \<Rightarrow> string \<Rightarrow> net_action list" where
  "news_notices g k label uid =
     (if g_sid g = [] then []
      else map (\<lambda>n. Talk (Notice (g_sid g) uid (Msg ''news'' [label, nw_text n]))) (news_of (g_db g) k))"

text \<open>The session limit of an address: an exception, or the default, which defence level 2 or lower
  tightens to one session; 0 means none.\<close>

definition session_limit_for :: "engine \<Rightarrow> string \<Rightarrow> nat option" where
  "session_limit_for g ip =
     (case (if defcon (g_db g) \<le> 2 then Some 1 else g_session_limit g) of
        None \<Rightarrow> None
      | Some dflt \<Rightarrow>
          let limit = (case session_exception_for (g_db g) ip of Some l \<Rightarrow> l | None \<Rightarrow> dflt)
          in if limit > 0 then Some limit else None)"

definition is_own_client :: "env \<Rightarrow> engine \<Rightarrow> string \<Rightarrow> bool" where
  "is_own_client v g uid \<longleftrightarrow> list_ex (\<lambda>s. sv_uid s = uid) (g_services g) \<or>
     list_ex (\<lambda>k. g_bot_uids g k = Some uid) (ev_order v (dom (g_bot_uids g)))"

definition is_bot_uid :: "env \<Rightarrow> engine \<Rightarrow> string \<Rightarrow> bool" where
  "is_bot_uid v g uid \<longleftrightarrow> list_ex (\<lambda>k. g_bot_uids g k = Some uid) (ev_order v (dom (g_bot_uids g)))"

definition restore_host_after_deoper :: "nat \<Rightarrow> engine \<Rightarrow> string \<Rightarrow> net_action list" where
  "restore_host_after_deoper now g uid =
     (case (case Option.bind (login_of g uid) (active_vhost now (g_db g)) of
              Some h \<Rightarrow> Some h | None \<Rightarrow> host_of (g_network g) uid) of
        None \<Rightarrow> [] | Some h \<Rightarrow> [OnUser (SetHost uid h)])"

text \<open>Who acts in a channel: its live bot, else the channel service.\<close>

definition channel_mode_source :: "engine \<Rightarrow> string \<Rightarrow> string" where
  "channel_mode_source g chan =
     (case Option.bind (Option.bind (channel_rec g chan) c_assigned_bot) (\<lambda>b. g_bot_uids g (key b)) of
        Some uid \<Rightarrow> uid
      | None \<Rightarrow> (case g_chan_service g of Some cs \<Rightarrow> cs | None \<Rightarrow> []))"

definition greet_on_join :: "env \<Rightarrow> engine \<Rightarrow> string \<Rightarrow> string option \<Rightarrow> net_action option" where
  "greet_on_join v g chan acct =
     (case (acct, channel_rec g chan) of
        (Some acc, Some c) \<Rightarrow>
          if \<not> cs_bot_greet (c_settings c) \<or> info_join_mode c acc = None then None
          else (case (c_assigned_bot c, account_of (g_db g) acc) of
              (Some b, Some a) \<Rightarrow>
                if a_greet a = [] then None
                else map_option (\<lambda>botuid. Talk (Privmsg botuid chan (Msg ''greet'' [acc, a_greet a]))) (nick_uid v g b)
            | _ \<Rightarrow> None)
      | _ \<Rightarrow> None)"

subsection \<open>Chatter\<close>

definition on_chatter :: "string \<Rightarrow> string \<Rightarrow> (chatter_state \<Rightarrow> chatter_state) \<Rightarrow> engine \<Rightarrow> engine" where
  "on_chatter chan uid f g =
     g\<lparr>g_chatter := upsert (key chan) Map.empty (upsert uid chatter_default f) (g_chatter g)\<rparr>"

definition chatter_entry :: "engine \<Rightarrow> string \<Rightarrow> string \<Rightarrow> chatter_state" where
  "chatter_entry g chan uid =
     (case Option.bind (g_chatter g (key chan)) (\<lambda>m. m uid) of None \<Rightarrow> chatter_default | Some s \<Rightarrow> s)"

definition drop_chatter :: "env \<Rightarrow> string \<Rightarrow> (string \<rightharpoonup> chatter_state) \<Rightarrow> (string \<rightharpoonup> chatter_state) option" where
  "drop_chatter v uid bucket =
     (let b = bucket(uid := None) in if ev_order v (dom b) = [] then None else Some b)"

definition forget_chatter :: "env \<Rightarrow> string \<Rightarrow> string \<Rightarrow> engine \<Rightarrow> engine" where
  "forget_chatter v chan uid g =
     (case g_chatter g (key chan) of None \<Rightarrow> g
      | Some b \<Rightarrow> g\<lparr>g_chatter := (g_chatter g)(key chan := drop_chatter v uid b)\<rparr>)"

definition forget_chatter_everywhere :: "env \<Rightarrow> string \<Rightarrow> engine \<Rightarrow> engine" where
  "forget_chatter_everywhere v uid g =
     g\<lparr>g_chatter := (\<lambda>c. Option.bind (g_chatter g c) (drop_chatter v uid))\<rparr>"

end
