(* ===== verification/Sasl.thy ===== *)
theory Sasl
  imports Engine
begin

text \<open>
  The SASL agent (src/src/engine/sasl.rs): the exchange an ircd relays for a client, for PLAIN,
  EXTERNAL, SCRAM and ECDSA-NIST256P-CHALLENGE, and the ECDSA check (src/src/engine/ecdsa.rs).
\<close>

subsection \<open>The table of exchanges\<close>

definition stash_sasl :: "env \<Rightarrow> string \<Rightarrow> sasl_session \<Rightarrow> engine \<Rightarrow> engine" where
  "stash_sasl v client s g =
     g\<lparr>g_sasl := (g_sasl g)(client \<mapsto> \<lparr>ts_touched = ev_instant v, ts_session = s\<rparr>)\<rparr>"

definition unstash_sasl :: "string \<Rightarrow> engine \<Rightarrow> engine" where
  "unstash_sasl client g = g\<lparr>g_sasl := (g_sasl g)(client := None)\<rparr>"

definition remember_sasl_source :: "env \<Rightarrow> string \<Rightarrow> string list \<Rightarrow> engine \<Rightarrow> engine" where
  "remember_sasl_source v client data g =
     (case data of
        [] \<Rightarrow> g
      | host # rest \<Rightarrow>
          let src = (case rest of
              ip # _ \<Rightarrow> if host \<noteq> ip then host @ '' ['' @ ip @ '']'' else host
            | [] \<Rightarrow> host)
          in g\<lparr>g_source := (g_source g)(client \<mapsto> (ev_instant v, src))\<rparr>)"

definition sweep_sasl :: "env \<Rightarrow> engine \<Rightarrow> engine" where
  "sweep_sasl v g =
     g\<lparr>g_sasl := (\<lambda>c. case g_sasl g c of None \<Rightarrow> None
          | Some t \<Rightarrow> if ev_instant v - ts_touched t < sasl_session_ttl then Some t else None),
       g_source := (\<lambda>c. case g_source g c of None \<Rightarrow> None
          | Some (t, s) \<Rightarrow> if ev_instant v - t < sasl_session_ttl then Some (t, s) else None)\<rparr>"

subsection \<open>Decoding\<close>

definition zero_byte :: "8 word" where "zero_byte = 0"

definition decode_plain :: "crypto \<Rightarrow> string \<Rightarrow> (string \<times> string) option" where
  "decode_plain cr s =
     (case unb64 cr s of None \<Rightarrow> None
      | Some raw \<Rightarrow> (case split_on zero_byte raw of
            [_, authcid, passwd] \<Rightarrow>
              (case (from_utf8 authcid, from_utf8 passwd) of
                 (Some a, Some p) \<Rightarrow> Some (a, p) | _ \<Rightarrow> None)
          | _ \<Rightarrow> None))"

definition decode_text :: "crypto \<Rightarrow> string \<Rightarrow> string option" where
  "decode_text cr chunk = Option.bind (unb64 cr chunk) from_utf8"

definition ecdsa_verify :: "env \<Rightarrow> string \<Rightarrow> bytes \<Rightarrow> string \<Rightarrow> bool" where
  "ecdsa_verify v pubkey challenge sig =
     (case unb64 (ev_crypto v) pubkey of None \<Rightarrow> False
      | Some pk \<Rightarrow> if \<not> ev_point v pk then False
          else (case unb64 (ev_crypto v) (trim sig) of None \<Rightarrow> False
            | Some raw \<Rightarrow> ev_der v raw \<and> ev_signed v pk challenge raw))"

definition validate_pubkey :: "env \<Rightarrow> string \<Rightarrow> string option" where
  "validate_pubkey v s =
     (case unb64 (ev_crypto v) (trim s) of None \<Rightarrow> None
      | Some raw \<Rightarrow> if ev_point v raw then Some (b64 (ev_crypto v) raw) else None)"

definition scram_verifier :: "engine \<Rightarrow> string \<Rightarrow> (string \<times> string) option" where
  "scram_verifier g name = scram_lookup (g_db g) name ''SCRAM-SHA-256''"

subsection \<open>The mechanisms\<close>

definition reply :: "string \<Rightarrow> string \<Rightarrow> string \<Rightarrow> string list \<Rightarrow> net_action list" where
  "reply agent client md d = [OnLink (SaslReply agent client md d)]"

definition locked_out :: "env \<Rightarrow> engine \<Rightarrow> string \<Rightarrow> bool" where
  "locked_out v g acct \<longleftrightarrow> auth_lockout (ev_instant v) (g_db g) acct \<noteq> None"

text \<open>The steps below run after the client's exchange was taken out of the table.\<close>

definition sasl_plain :: "env \<Rightarrow> string \<Rightarrow> string \<Rightarrow> string \<Rightarrow> string \<Rightarrow> engine \<Rightarrow> net_action list \<times> engine" where
  "sasl_plain v agent client response0 chunk g =
     (let response = (if chunk \<noteq> ''+'' then response0 @ chunk else response0) in
      if utf8_len response > max_sasl_response then (sasl_fail agent client, g)
      else if utf8_len chunk \<ge> max_authenticate then ([], stash_sasl v client (SPlain response) g)
      else case decode_plain (ev_crypto v) response of
        None \<Rightarrow> (sasl_fail agent client, g)
      | Some (authcid, passwd) \<Rightarrow>
          if starts_with ''kc_'' passwd then
            (let acct = (case resolve_account (g_db g) authcid of Some a \<Rightarrow> a | None \<Rightarrow> authcid)
             in ([Deferred (DeferKeycard passwd acct (ThenSasl agent client acct False))], g))
          else case scram_verifier g authcid of
            Some (acct, verifier) \<Rightarrow>
              if locked_out v g acct
              then (sasl_fail agent client @
                    auth_report g False (Some acct) ''SASL PLAIN'' client (Some ''rate limited''), g)
              else ([Deferred (DeferAuthenticate verifier passwd (ThenSasl agent client acct True))], g)
          | None \<Rightarrow> (sasl_fail agent client @
                    auth_report g False (Some authcid) ''SASL PLAIN'' client (Some ''no such account''), g))"

definition scram_client_first ::
  "env \<Rightarrow> string \<Rightarrow> string \<Rightarrow> hash \<Rightarrow> string \<Rightarrow> engine \<Rightarrow> net_action list \<times> engine" where
  "scram_client_first v agent client h chunk g =
     (case Option.bind (decode_text (ev_crypto v) chunk) parse_client_first of
        None \<Rightarrow> (sasl_fail agent client, g)
      | Some cf \<Rightarrow> (case scram_lookup (g_db g) (cf_username cf) (mech h) of
            None \<Rightarrow> (sasl_fail agent client, g)
          | Some (acct, enc) \<Rightarrow> (case parse_verifier (ev_crypto v) enc of
                None \<Rightarrow> (sasl_fail agent client, g)
              | Some vf \<Rightarrow>
                  if locked_out v g acct then (sasl_fail agent client, g)
                  else let (first, nonce) = server_first (ev_crypto v) (ev_rand v) (cf_cnonce cf) vf
                       in (reply agent client ''C'' [b64 (ev_crypto v) (as_bytes first)],
                           stash_sasl v client (SScram h (ClientFinal acct vf (cf_bare cf) first
                             (cf_gs2_header cf) nonce)) g))))"

definition scram_client_final ::
  "env \<Rightarrow> string \<Rightarrow> string \<Rightarrow> hash \<Rightarrow> string \<Rightarrow> verifier \<Rightarrow> string \<Rightarrow> string \<Rightarrow> string \<Rightarrow> string \<Rightarrow> string \<Rightarrow>
   engine \<Rightarrow> net_action list \<times> engine" where
  "scram_client_final v agent client h acct vf bare first gs2 nonce chunk g =
     (case decode_text (ev_crypto v) chunk of
        None \<Rightarrow> (sasl_fail agent client, g)
      | Some msg \<Rightarrow> (case verify_final (ev_crypto v) h vf bare first gs2 nonce msg of
            Some final \<Rightarrow>
              (reply agent client ''C'' [b64 (ev_crypto v) (as_bytes final)],
               stash_sasl v client (SScram h (Ack acct))
                 (on_db (note_auth (ev_instant v) acct True) g))
          | None \<Rightarrow> (sasl_fail agent client, on_db (note_auth (ev_instant v) acct False) g)))"

fun sasl_scram ::
  "env \<Rightarrow> string \<Rightarrow> string \<Rightarrow> hash \<Rightarrow> scram_step \<Rightarrow> string \<Rightarrow> engine \<Rightarrow> net_action list \<times> engine" where
  "sasl_scram v agent client h ClientFirst chunk g = scram_client_first v agent client h chunk g"
| "sasl_scram v agent client h (ClientFinal acct vf bare first gs2 nonce) chunk g =
     scram_client_final v agent client h acct vf bare first gs2 nonce chunk g"
| "sasl_scram v agent client h (Ack acct) chunk g =
     (sasl_login (ev_now v) g (''SASL '' @ mech h) agent client acct, g)"

definition ecdsa_account_name ::
  "env \<Rightarrow> string \<Rightarrow> string \<Rightarrow> string \<Rightarrow> engine \<Rightarrow> net_action list \<times> engine" where
  "ecdsa_account_name v agent client chunk g =
     (case decode_text (ev_crypto v) chunk of
        None \<Rightarrow> (sasl_fail agent client, g)
      | Some txt \<Rightarrow> (case pubkey_lookup (g_db g) (last (split_on CHR 0x00 txt)) of
            None \<Rightarrow> (sasl_fail agent client, g)
          | Some (acct, pubkey) \<Rightarrow>
              (reply agent client ''C'' [b64 (ev_crypto v) (ev_rand v)],
               stash_sasl v client (SEcdsa (Signature acct pubkey (ev_rand v))) g)))"

fun sasl_ecdsa ::
  "env \<Rightarrow> string \<Rightarrow> string \<Rightarrow> ecdsa_step \<Rightarrow> string \<Rightarrow> engine \<Rightarrow> net_action list \<times> engine" where
  "sasl_ecdsa v agent client AccountName chunk g = ecdsa_account_name v agent client chunk g"
| "sasl_ecdsa v agent client (Signature acct pubkey challenge) chunk g =
     (if ecdsa_verify v pubkey challenge chunk
      then (sasl_login (ev_now v) g ''SASL ECDSA-NIST256P-CHALLENGE'' agent client acct, g)
      else (sasl_fail agent client, g))"

definition authzid_fits :: "engine \<Rightarrow> string \<Rightarrow> string \<Rightarrow> bool" where
  "authzid_fits g authzid acct \<longleftrightarrow> authzid = [] \<or> eq_ignore_ascii_case authzid acct \<or>
     (case resolve_account (g_db g) authzid of None \<Rightarrow> False | Some a \<Rightarrow> eq_ignore_ascii_case a acct)"

definition first_fp_owner :: "env \<Rightarrow> engine \<Rightarrow> string list \<Rightarrow> string option" where
  "first_fp_owner v g fps =
     (case List.map_filter (fp_owner v g) fps of [] \<Rightarrow> None | a # _ \<Rightarrow> Some a)"

definition sasl_external ::
  "env \<Rightarrow> string \<Rightarrow> string \<Rightarrow> string list \<Rightarrow> string \<Rightarrow> engine \<Rightarrow> net_action list" where
  "sasl_external v agent client fingerprints chunk g =
     (case (if chunk = ''+'' \<or> chunk = [] then Some [] else decode_text (ev_crypto v) chunk) of
        None \<Rightarrow> sasl_deny g ''SASL EXTERNAL'' agent client None ''malformed authzid''
      | Some authzid \<Rightarrow> (case first_fp_owner v g fingerprints of
            Some acct \<Rightarrow>
              if authzid_fits g authzid acct
              then sasl_login (ev_now v) g ''SASL EXTERNAL'' agent client acct
              else sasl_deny g ''SASL EXTERNAL'' agent client None ''unknown certificate''
          | None \<Rightarrow> sasl_deny g ''SASL EXTERNAL'' agent client None ''unknown certificate''))"

subsection \<open>The agent\<close>

definition start_session :: "string list \<Rightarrow> sasl_session option" where
  "start_session data =
     (case data of [] \<Rightarrow> None
      | m # rest \<Rightarrow>
          if m = ''PLAIN'' then Some (SPlain [])
          else if m = ''EXTERNAL'' then Some (SExternal (map key rest))
          else case from_mech m of
            Some h \<Rightarrow> Some (SScram h ClientFirst)
          | None \<Rightarrow> if m = ''ECDSA-NIST256P-CHALLENGE'' then Some (SEcdsa AccountName) else None)"

definition sasl_start :: "env \<Rightarrow> string \<Rightarrow> string \<Rightarrow> string list \<Rightarrow> engine \<Rightarrow> net_action list \<times> engine" where
  "sasl_start v agent client data g0 =
     (let g = sweep_sasl v g0 in
      if card (dom (g_sasl g)) \<ge> max_sasl_sessions then (sasl_fail agent client, g)
      else case start_session data of
        Some s \<Rightarrow> (reply agent client ''C'' [''+''], stash_sasl v client s g)
      | None \<Rightarrow> (sasl_fail agent client, g))"

definition sasl_continue :: "env \<Rightarrow> string \<Rightarrow> string \<Rightarrow> string list \<Rightarrow> engine \<Rightarrow> net_action list \<times> engine" where
  "sasl_continue v agent client data g0 =
     (let chunk = (case data of [] \<Rightarrow> [] | c # _ \<Rightarrow> c); g = unstash_sasl client g0 in
      case g_sasl g0 client of
        None \<Rightarrow> (sasl_fail agent client, g)
      | Some t \<Rightarrow> (case ts_session t of
            SPlain response \<Rightarrow> sasl_plain v agent client response chunk g
          | SScram h step \<Rightarrow> sasl_scram v agent client h step chunk g
          | SExternal fps \<Rightarrow> (sasl_external v agent client fps chunk g, g)
          | SEcdsa step \<Rightarrow> sasl_ecdsa v agent client step chunk g))"

definition sasl :: "env \<Rightarrow> string \<Rightarrow> string \<Rightarrow> string list \<Rightarrow> engine \<Rightarrow> net_action list \<times> engine" where
  "sasl v client md data g =
     (case g_services g of
        [] \<Rightarrow> ([], g)
      | s # _ \<Rightarrow>
          if md = ''H'' then ([], remember_sasl_source v client data g)
          else if md = ''S'' then sasl_start v (sv_uid s) client data g
          else if md = ''C'' then sasl_continue v (sv_uid s) client data g
          else if md = ''D''
          then ([], g\<lparr>g_sasl := (g_sasl g)(client := None), g_source := (g_source g)(client := None)\<rparr>)
          else ([], g))"

end
