(* ===== verification/SaslProps.thy ===== *)
theory SaslProps
  imports Sasl
begin

text \<open>
  What the SASL agent guarantees: the table of exchanges is bounded, a login is backed by a proof of
  the account's credential in the same exchange, a client that knows the password gets in, and what
  the throttle does not see.
\<close>

subsection \<open>The effect of a message on the table\<close>

text \<open>A message concerns one client: its entry is kept, dropped or replaced.\<close>

lemma sasl_plain_table:
  "g_sasl (snd (sasl_plain v agent client r chunk g)) =
     (if utf8_len (if chunk \<noteq> ''+'' then r @ chunk else r) \<le> max_sasl_response \<and> utf8_len chunk \<ge> max_authenticate
      then (g_sasl g)(client \<mapsto> \<lparr>ts_touched = ev_instant v,
        ts_session = SPlain (if chunk \<noteq> ''+'' then r @ chunk else r)\<rparr>)
      else g_sasl g)"
  by (auto simp: sasl_plain_def Let_def stash_sasl_def split: option.split)

lemma scram_client_first_table:
  "g_sasl (snd (scram_client_first v agent client h chunk g)) = g_sasl g \<or>
   (\<exists>user enc acct vf bare first gs2 nonce. scram_lookup (g_db g) user (mech h) = Some (acct, enc) \<and>
      parse_verifier (ev_crypto v) enc = Some vf \<and> \<not> locked_out v g acct \<and>
      g_sasl (snd (scram_client_first v agent client h chunk g)) = (g_sasl g)(client \<mapsto>
        \<lparr>ts_touched = ev_instant v, ts_session = SScram h (ClientFinal acct vf bare first gs2 nonce)\<rparr>))"
  unfolding scram_client_first_def Let_def stash_sasl_def
  by (auto split: option.split prod.split) blast+

lemma scram_client_final_table:
  "g_sasl (snd (scram_client_final v agent client h acct vf bare first gs2 nonce chunk g)) =
     (case Option.bind (decode_text (ev_crypto v) chunk)
        (verify_final (ev_crypto v) h vf bare first gs2 nonce) of
        None \<Rightarrow> g_sasl g
      | Some _ \<Rightarrow> (g_sasl g)(client \<mapsto> \<lparr>ts_touched = ev_instant v, ts_session = SScram h (Ack acct)\<rparr>))"
  by (auto simp: scram_client_final_def stash_sasl_def on_db_def split: option.split)

lemma ecdsa_account_name_table:
  "g_sasl (snd (ecdsa_account_name v agent client chunk g)) = g_sasl g \<or>
   (\<exists>name acct pubkey. pubkey_lookup (g_db g) name = Some (acct, pubkey) \<and>
      g_sasl (snd (ecdsa_account_name v agent client chunk g)) = (g_sasl g)(client \<mapsto>
        \<lparr>ts_touched = ev_instant v, ts_session = SEcdsa (Signature acct pubkey (ev_rand v))\<rparr>))"
  unfolding ecdsa_account_name_def stash_sasl_def by (auto split: option.split prod.split)

lemma sasl_scram_frame: "\<exists>e. g_sasl (snd (sasl_scram v agent client h step chunk g)) = g_sasl g \<or>
    g_sasl (snd (sasl_scram v agent client h step chunk g)) = (g_sasl g)(client \<mapsto> e) \<and>
      (\<forall>r. ts_session e \<noteq> SPlain r)"
  using scram_client_first_table [of v agent client h chunk g]
  by (cases step) (fastforce simp: scram_client_final_table split: option.split)+

lemma sasl_ecdsa_frame: "\<exists>e. g_sasl (snd (sasl_ecdsa v agent client step chunk g)) = g_sasl g \<or>
    g_sasl (snd (sasl_ecdsa v agent client step chunk g)) = (g_sasl g)(client \<mapsto> e) \<and>
      (\<forall>r. ts_session e \<noteq> SPlain r)"
  using ecdsa_account_name_table [of v agent client chunk g]
  by (cases step) fastforce+

lemma start_session_plain: "start_session data = Some (SPlain r) \<Longrightarrow> r = []"
  by (auto simp: start_session_def split: list.splits if_splits option.splits)

subsection \<open>Bounds\<close>

definition sasl_bounded :: "engine \<Rightarrow> bool" where
  "sasl_bounded g \<longleftrightarrow> finite (dom (g_sasl g)) \<and> card (dom (g_sasl g)) \<le> max_sasl_sessions \<and>
     (\<forall>c t r. g_sasl g c = Some t \<longrightarrow> ts_session t = SPlain r \<longrightarrow> utf8_len r \<le> max_sasl_response)"

lemma sasl_bounded_shrink:
  assumes "sasl_bounded g" "g_sasl g' \<subseteq>\<^sub>m g_sasl g"
  shows "sasl_bounded g'"
proof -
  have d: "dom (g_sasl g') \<subseteq> dom (g_sasl g)" using assms(2) by (rule map_le_implies_dom_le)
  have "g_sasl g c = Some t" if "g_sasl g' c = Some t" for c t
    using assms(2) that by (metis domI map_le_def)
  moreover have "card (dom (g_sasl g')) \<le> card (dom (g_sasl g))"
    using assms(1) d by (simp add: sasl_bounded_def card_mono)
  ultimately show ?thesis
    using assms(1) d finite_subset unfolding sasl_bounded_def by (meson le_trans)
qed

text \<open>Replacing the entry of a client whose slot is free or that has room.\<close>

lemma sasl_bounded_replace:
  assumes "sasl_bounded g" "card (dom (g_sasl g) - {client}) < max_sasl_sessions"
    and "\<And>r. ts_session e = SPlain r \<Longrightarrow> utf8_len r \<le> max_sasl_response"
    and "g_sasl g' = (g_sasl g)(client \<mapsto> e)"
  shows "sasl_bounded g'"
proof -
  have "dom (g_sasl g') = insert client (dom (g_sasl g))" using assms(4) by auto
  then have "card (dom (g_sasl g')) \<le> max_sasl_sessions"
    using assms(1,2) by (simp add: sasl_bounded_def card.insert_remove)
  with assms(1,3,4) show ?thesis by (auto simp: sasl_bounded_def split: if_splits)
qed

lemma sasl_continue_bounded:
  assumes "sasl_bounded g"
  shows "sasl_bounded (snd (sasl_continue v agent client data g))"
proof (cases "g_sasl g client")
  case None
  then show ?thesis
    using assms by (intro sasl_bounded_shrink [OF assms])
      (auto simp: sasl_continue_def Let_def unstash_sasl_def map_le_def)
next
  case (Some t)
  let ?g = "unstash_sasl client g" and ?chunk = "case data of [] \<Rightarrow> [] | c # _ \<Rightarrow> c"
  have ok: "sasl_bounded ?g"
    by (rule sasl_bounded_shrink [OF assms]) (auto simp: unstash_sasl_def map_le_def)
  have "card (dom (g_sasl g) - {client}) < card (dom (g_sasl g))"
    using Some assms by (intro card_Diff1_less) (auto simp: sasl_bounded_def)
  then have room: "card (dom (g_sasl ?g) - {client}) < max_sasl_sessions"
    using assms by (simp add: unstash_sasl_def sasl_bounded_def)
  note put = sasl_bounded_replace [OF ok room]
  show ?thesis
  proof (cases "ts_session t")
    case (SPlain r)
    then have e: "snd (sasl_continue v agent client data g) = snd (sasl_plain v agent client r ?chunk ?g)"
      using Some by (simp add: sasl_continue_def Let_def)
    show ?thesis
      unfolding e
    proof (cases "utf8_len (if ?chunk \<noteq> ''+'' then r @ ?chunk else r) \<le> max_sasl_response \<and>
        utf8_len ?chunk \<ge> max_authenticate")
      case True
      then show "sasl_bounded (snd (sasl_plain v agent client r ?chunk ?g))"
        by (intro put) (auto simp: sasl_plain_table)
    next
      case False
      then show "sasl_bounded (snd (sasl_plain v agent client r ?chunk ?g))"
        by (intro sasl_bounded_shrink [OF ok]) (auto simp: sasl_plain_table)
    qed
  next
    case (SScram h step)
    then have e: "snd (sasl_continue v agent client data g) = snd (sasl_scram v agent client h step ?chunk ?g)"
      using Some by (simp add: sasl_continue_def Let_def)
    from sasl_scram_frame [of v agent client h step ?chunk ?g] show ?thesis
      unfolding e by (metis put map_le_refl ok sasl_bounded_shrink)
  next
    case (SExternal fps)
    then show ?thesis using Some ok by (simp add: sasl_continue_def Let_def)
  next
    case (SEcdsa step)
    then have e: "snd (sasl_continue v agent client data g) = snd (sasl_ecdsa v agent client step ?chunk ?g)"
      using Some by (simp add: sasl_continue_def Let_def)
    from sasl_ecdsa_frame [of v agent client step ?chunk ?g] show ?thesis
      unfolding e by (metis put map_le_refl ok sasl_bounded_shrink)
  qed
qed

lemma sasl_start_bounded:
  assumes "sasl_bounded g"
  shows "sasl_bounded (snd (sasl_start v agent client data g))"
proof -
  have ok: "sasl_bounded (sweep_sasl v g)"
    by (rule sasl_bounded_shrink [OF assms]) (auto simp: sweep_sasl_def map_le_def split: option.splits if_splits)
  show ?thesis
  proof (cases "card (dom (g_sasl (sweep_sasl v g))) \<ge> max_sasl_sessions \<or> start_session data = None")
    case True
    with ok show ?thesis by (auto simp: sasl_start_def Let_def)
  next
    case False
    then obtain s where s: "start_session data = Some s" by auto
    have "card (dom (g_sasl (sweep_sasl v g)) - {client}) \<le> card (dom (g_sasl (sweep_sasl v g)))"
      using ok by (intro card_mono) (auto simp: sasl_bounded_def)
    with False have room: "card (dom (g_sasl (sweep_sasl v g)) - {client}) < max_sasl_sessions" by auto
    show ?thesis
      using False s start_session_plain [of data]
      by (intro sasl_bounded_replace [OF ok room, where e = "\<lparr>ts_touched = ev_instant v, ts_session = s\<rparr>"])
        (auto simp: sasl_start_def Let_def stash_sasl_def utf8_len_def)
  qed
qed

lemma sasl_bounded_step: "sasl_bounded g \<Longrightarrow> sasl_bounded (snd (sasl v client md data g))"
  using sasl_continue_bounded sasl_start_bounded
  by (auto simp: sasl_def remember_sasl_source_def Let_def map_le_def split: list.splits
      intro: sasl_bounded_shrink)

text \<open>A run: messages of any clients in any order, between which the rest of the engine may do what
  it likes, as long as it only ever forgets exchanges.\<close>

inductive sasl_run :: "engine \<Rightarrow> (env \<times> string \<times> string \<times> string list \<times> engine) list \<Rightarrow> engine \<Rightarrow> bool" where
  Begin: "sasl_run g [] g"
| Message: "sasl_run g0 tr g \<Longrightarrow>
     sasl_run g0 (tr @ [(v, client, md, data, g)]) (snd (sasl v client md data g))"
| Elsewhere: "sasl_run g0 tr g \<Longrightarrow> g_sasl g' \<subseteq>\<^sub>m g_sasl g \<Longrightarrow> sasl_run g0 tr g'"

text \<open>However many clients open exchanges, never more than 4096 are in progress, and no unfinished
  PLAIN response holds more than 8192 bytes.\<close>

theorem sasl_table_bounded:
  assumes "sasl_run g0 tr g" "g_sasl g0 = Map.empty"
  shows "finite (dom (g_sasl g)) \<and> card (dom (g_sasl g)) \<le> 4096 \<and>
    (\<forall>c t r. g_sasl g c = Some t \<and> ts_session t = SPlain r \<longrightarrow> utf8_len r \<le> 8192)"
proof -
  have "sasl_bounded g0" using assms(2) by (simp add: sasl_bounded_def)
  with assms(1) have "sasl_bounded g"
    by (induction rule: sasl_run.induct) (auto intro: sasl_bounded_step sasl_bounded_shrink)
  then show ?thesis by (auto simp: sasl_bounded_def max_sasl_sessions_def max_sasl_response_def)
qed

subsection \<open>Logins are proved\<close>

text \<open>What a run has seen of a client: that a SCRAM exchange was opened for an account that was not
  locked out, against its verifier at the time; that its final message was verified; that an ECDSA
  challenge was issued for the account's key.\<close>

definition opened :: "(env \<times> string \<times> string \<times> string list \<times> engine) list \<Rightarrow> string \<Rightarrow> hash \<Rightarrow> string \<Rightarrow> verifier \<Rightarrow> bool" where
  "opened tr client h acct vf \<longleftrightarrow> (\<exists>v md d g user enc. (v, client, md, d, g) \<in> set tr \<and>
     scram_lookup (g_db g) user (mech h) = Some (acct, enc) \<and>
     parse_verifier (ev_crypto v) enc = Some vf \<and> \<not> locked_out v g acct)"

definition answered :: "(env \<times> string \<times> string \<times> string list \<times> engine) list \<Rightarrow> string \<Rightarrow> hash \<Rightarrow> string \<Rightarrow> bool" where
  "answered tr client h acct \<longleftrightarrow> (\<exists>v md d g vf bare first gs2 nonce msg. (v, client, md, d, g) \<in> set tr \<and>
     opened tr client h acct vf \<and>
     verify_final (ev_crypto v) h vf bare first gs2 nonce msg \<noteq> None)"

definition challenged :: "(env \<times> string \<times> string \<times> string list \<times> engine) list \<Rightarrow> string \<Rightarrow> string \<Rightarrow> string \<Rightarrow> bytes \<Rightarrow> bool" where
  "challenged tr client acct pubkey challenge \<longleftrightarrow> (\<exists>v md d g name. (v, client, md, d, g) \<in> set tr \<and>
     pubkey_lookup (g_db g) name = Some (acct, pubkey) \<and> challenge = ev_rand v)"

lemmas trace_defs = opened_def answered_def challenged_def

lemma trace_mono:
  "opened tr client h acct vf \<Longrightarrow> opened (tr @ ev) client h acct vf"
  "challenged tr client acct pubkey ch \<Longrightarrow> challenged (tr @ ev) client acct pubkey ch"
  unfolding opened_def challenged_def by (force simp del: split_paired_Ex)+

lemma answered_mono: "answered tr client h acct \<Longrightarrow> answered (tr @ ev) client h acct"
  unfolding answered_def using trace_mono(1) by (metis Un_iff set_append)

definition entry_proved ::
  "(env \<times> string \<times> string \<times> string list \<times> engine) list \<Rightarrow> string \<Rightarrow> sasl_session \<Rightarrow> bool" where
  "entry_proved tr client s =
     (case s of
        SScram h (ClientFinal acct vf _ _ _ _) \<Rightarrow> opened tr client h acct vf
      | SScram h (Ack acct) \<Rightarrow> answered tr client h acct
      | SEcdsa (Signature acct pubkey ch) \<Rightarrow> challenged tr client acct pubkey ch
      | _ \<Rightarrow> True)"

definition run_proved :: "(env \<times> string \<times> string \<times> string list \<times> engine) list \<Rightarrow> engine \<Rightarrow> bool" where
  "run_proved tr g \<longleftrightarrow> (\<forall>client t. g_sasl g client = Some t \<longrightarrow> entry_proved tr client (ts_session t))"

lemma entry_proved_mono: "entry_proved tr client s \<Longrightarrow> entry_proved (tr @ ev) client s"
  by (auto simp: entry_proved_def trace_mono answered_mono split: sasl_session.splits scram_step.splits ecdsa_step.splits)

lemma run_proved_replace:
  assumes "run_proved tr g" "g_sasl g' \<subseteq>\<^sub>m (g_sasl g)(client \<mapsto> e)" "entry_proved (tr @ ev) client (ts_session e)"
  shows "run_proved (tr @ ev) g'"
  unfolding run_proved_def
proof (intro allI impI)
  fix c t assume "g_sasl g' c = Some t"
  with assms(2) have "((g_sasl g)(client \<mapsto> e)) c = Some t" by (metis domI map_le_def)
  with assms show "entry_proved (tr @ ev) c (ts_session t)"
    by (auto simp: run_proved_def entry_proved_mono split: if_splits)
qed

lemma run_proved_shrink:
  assumes "run_proved tr g" "g_sasl g' \<subseteq>\<^sub>m g_sasl g"
  shows "run_proved (tr @ ev) g'"
proof -
  have "g_sasl g c = Some t" if "g_sasl g' c = Some t" for c t
    using assms(2) that by (metis domI map_le_def)
  with assms(1) show ?thesis by (auto simp: run_proved_def entry_proved_mono)
qed

text \<open>It is enough that the client's own entry, if it has a new one, is proved.\<close>

lemma run_proved_cases:
  assumes "run_proved tr g" "g_sasl g1 = (g_sasl g)(client := None)"
    and "g_sasl g' = g_sasl g1 \<or>
      (\<exists>e. g_sasl g' = (g_sasl g1)(client \<mapsto> e) \<and> entry_proved (tr @ ev) client (ts_session e))"
  shows "run_proved (tr @ ev) g'"
  using assms(3)
proof
  assume "g_sasl g' = g_sasl g1"
  then show ?thesis using assms(1,2) by (intro run_proved_shrink [OF assms(1)]) (auto simp: map_le_def)
next
  assume "\<exists>e. g_sasl g' = (g_sasl g1)(client \<mapsto> e) \<and> entry_proved (tr @ ev) client (ts_session e)"
  then obtain e where e: "g_sasl g' = (g_sasl g1)(client \<mapsto> e)" "entry_proved (tr @ ev) client (ts_session e)" by blast
  have "g_sasl g' \<subseteq>\<^sub>m (g_sasl g)(client \<mapsto> e)" using e(1) assms(2) by (auto simp: map_le_def)
  from run_proved_replace [OF assms(1) this e(2)] show ?thesis .
qed

lemma run_proved_start:
  assumes "run_proved tr g"
  shows "run_proved (tr @ ev) (snd (sasl_start v agent client data g))"
proof (cases "card (dom (g_sasl (sweep_sasl v g))) \<ge> max_sasl_sessions \<or> start_session data = None")
  case True
  then show ?thesis
    by (intro run_proved_shrink [OF assms])
      (auto simp: sasl_start_def Let_def sweep_sasl_def map_le_def split: option.splits if_splits)
next
  case False
  then obtain s where s: "start_session data = Some s" by auto
  then have p: "entry_proved (tr @ ev) client s"
    by (auto simp: start_session_def entry_proved_def split: list.splits if_splits option.splits)
  have le: "(g_sasl (sweep_sasl v g))(client \<mapsto> e) \<subseteq>\<^sub>m (g_sasl g)(client \<mapsto> e)" for e
    by (auto simp: sweep_sasl_def map_le_def split: option.splits if_splits)
  have "g_sasl (snd (sasl_start v agent client data g)) =
      (g_sasl (sweep_sasl v g))(client \<mapsto> \<lparr>ts_touched = ev_instant v, ts_session = s\<rparr>)"
    using False s by (simp add: sasl_start_def Let_def stash_sasl_def)
  with le p show ?thesis
    by (intro run_proved_replace [OF assms, where e = "\<lparr>ts_touched = ev_instant v, ts_session = s\<rparr>" and client = client]) simp_all
qed

lemma sasl_plain_frame:
  "g_sasl (snd (sasl_plain v agent client r chunk g)) = g_sasl g \<or>
   (\<exists>r'. g_sasl (snd (sasl_plain v agent client r chunk g)) =
     (g_sasl g)(client \<mapsto> \<lparr>ts_touched = ev_instant v, ts_session = SPlain r'\<rparr>))"
  unfolding sasl_plain_table by (auto split: if_splits)

lemma plain_entry: "entry_proved tr client (SPlain r)"
  by (simp add: entry_proved_def)

lemma run_proved_continue:
  assumes "run_proved tr g"
  shows "run_proved (tr @ [(v, client, md, data, g)]) (snd (sasl_continue v agent client data g))"
proof (cases "g_sasl g client")
  case None
  then show ?thesis
    by (intro run_proved_shrink [OF assms]) (auto simp: sasl_continue_def Let_def unstash_sasl_def map_le_def)
next
  case (Some t)
  let ?ev = "[(v, client, md, data, g)]"
  let ?g = "unstash_sasl client g" and ?chunk = "case data of [] \<Rightarrow> [] | c # _ \<Rightarrow> c"
  have g1: "g_sasl ?g = (g_sasl g)(client := None)" and db: "g_db ?g = g_db g" by (simp_all add: unstash_sasl_def)
  have lo: "locked_out v ?g a = locked_out v g a" for a by (simp add: locked_out_def db)
  note by_cases = run_proved_cases [OF assms g1, where ev = ?ev]
  from assms Some have old: "entry_proved tr client (ts_session t)" by (auto simp: run_proved_def)
  show ?thesis
  proof (cases "ts_session t")
    case (SPlain r)
    then have e: "snd (sasl_continue v agent client data g) = snd (sasl_plain v agent client r ?chunk ?g)"
      using Some by (simp add: sasl_continue_def Let_def)
    show ?thesis
      unfolding e using sasl_plain_frame [of v agent client r ?chunk ?g]
      by (intro by_cases) (auto simp: plain_entry)
  next
    case (SExternal fps)
    then have "snd (sasl_continue v agent client data g) = ?g"
      using Some by (simp add: sasl_continue_def Let_def)
    then show ?thesis by (intro by_cases) simp
  next
    case (SScram h step)
    then have e: "snd (sasl_continue v agent client data g) = snd (sasl_scram v agent client h step ?chunk ?g)"
      using Some by (simp add: sasl_continue_def Let_def)
    show ?thesis
      unfolding e
    proof (cases step)
      case ClientFirst
      have o: "opened (tr @ ?ev) client h acct vf"
        if "scram_lookup (g_db g) user (mech h) = Some (acct, enc)" "parse_verifier (ev_crypto v) enc = Some vf"
          "\<not> locked_out v g acct" for user enc acct vf
        using that unfolding opened_def by (metis Un_iff list.set_intros(1) set_append)
      show "run_proved (tr @ ?ev) (snd (sasl_scram v agent client h step ?chunk ?g))"
        using scram_client_first_table [of v agent client h ?chunk ?g] o
        by (intro by_cases) (auto simp: ClientFirst db lo entry_proved_def)
    next
      case (ClientFinal acct vf bare first gs2 nonce)
      with old SScram have "opened tr client h acct vf" by (simp add: entry_proved_def)
      then have o: "opened (tr @ ?ev) client h acct vf" by (rule trace_mono)
      have "answered (tr @ ?ev) client h acct"
        if "verify_final (ev_crypto v) h vf bare first gs2 nonce msg = Some x" for msg x
        unfolding answered_def using o that by (metis Un_iff list.set_intros(1) option.distinct(1) set_append)
      then show "run_proved (tr @ ?ev) (snd (sasl_scram v agent client h step ?chunk ?g))"
        by (intro by_cases) (auto simp: ClientFinal scram_client_final_table entry_proved_def bind_eq_Some_conv
            split: option.split)
    next
      case (Ack acct)
      show "run_proved (tr @ ?ev) (snd (sasl_scram v agent client h step ?chunk ?g))"
        by (intro by_cases) (simp add: Ack)
    qed
  next
    case (SEcdsa step)
    then have e: "snd (sasl_continue v agent client data g) = snd (sasl_ecdsa v agent client step ?chunk ?g)"
      using Some by (simp add: sasl_continue_def Let_def)
    show ?thesis
      unfolding e
    proof (cases step)
      case AccountName
      have "challenged (tr @ ?ev) client acct pubkey (ev_rand v)"
        if "pubkey_lookup (g_db g) name = Some (acct, pubkey)" for name acct pubkey
        using that unfolding challenged_def by (metis Un_iff list.set_intros(1) set_append)
      then show "run_proved (tr @ ?ev) (snd (sasl_ecdsa v agent client step ?chunk ?g))"
        using ecdsa_account_name_table [of v agent client ?chunk ?g]
        by (intro by_cases) (auto simp: AccountName db entry_proved_def)
    next
      case (Signature acct pubkey challenge)
      show "run_proved (tr @ ?ev) (snd (sasl_ecdsa v agent client step ?chunk ?g))"
        by (intro by_cases) (simp add: Signature)
    qed
  qed
qed

lemma run_proved_step:
  "run_proved tr g \<Longrightarrow> run_proved (tr @ [(v, client, md, data, g)]) (snd (sasl v client md data g))"
  using run_proved_start run_proved_continue
  by (auto simp: sasl_def remember_sasl_source_def Let_def map_le_def split: list.splits
      intro: run_proved_shrink)

lemma sasl_run_proved: "sasl_run g0 tr g \<Longrightarrow> g_sasl g0 = Map.empty \<Longrightarrow> run_proved tr g"
proof (induction rule: sasl_run.induct)
  case (Elsewhere g0 tr g g')
  then show ?case using run_proved_shrink [of tr g g' "[]"] by simp
qed (auto simp: run_proved_def [of "[]"] intro: run_proved_step)

text \<open>Only a completed login tells the ircd an account.\<close>

definition logs_in :: "string \<Rightarrow> string \<Rightarrow> net_action list \<Rightarrow> bool" where
  "logs_in client acct out \<longleftrightarrow> OnLink (Metadata client ''accountname'' acct) \<in> set out"

lemma feed_silent [simp]: "OnLink l \<notin> set (feed g cat m)"
  by (auto simp: feed_def split: option.splits)

lemma auth_report_silent [simp]: "OnLink l \<notin> set (auth_report g ok a m c r)"
  by (simp add: auth_report_def Let_def)

lemma logs_in_simps [simp]:
  "\<not> logs_in client acct []" "\<not> logs_in client acct (sasl_fail agent c)"
  "\<not> logs_in client acct (reply agent c md d)" "\<not> logs_in client acct [Deferred q]"
  "\<not> logs_in client acct (auth_report g ok a m c r)" "\<not> logs_in client acct (sasl_deny g m agent c a' r')"
  "logs_in client acct (x @ y) \<longleftrightarrow> logs_in client acct x \<or> logs_in client acct y"
  by (auto simp: logs_in_def sasl_fail_def reply_def sasl_deny_def)

lemma logs_in_sasl_login:
  "logs_in client acct (sasl_login now g m agent c a) \<longleftrightarrow> client = c \<and> acct = a \<and> \<not> is_suspended now (g_db g) a"
  by (auto simp: sasl_login_def sasl_success_def logs_in_def sasl_fail_def)


subsection \<open>A client with the password gets in\<close>

text \<open>The four messages of a SCRAM login: the mechanism, the two client messages and the
  acknowledgement. \<open>v1\<close> to \<open>v4\<close> are the environments they arrive in; the client learns the salt, the
  cost and the nonce from the server's first message.\<close>

definition scram_first_text :: "string \<Rightarrow> string \<Rightarrow> string" where
  "scram_first_text user cnonce = client_first_message ''n'' [] user cnonce"

definition scram_login_run ::
  "env \<Rightarrow> env \<Rightarrow> env \<Rightarrow> env \<Rightarrow> string \<Rightarrow> hash \<Rightarrow> string \<Rightarrow> string \<Rightarrow> string \<Rightarrow> verifier \<Rightarrow> engine \<Rightarrow>
   net_action list \<times> engine" where
  "scram_login_run v1 v2 v3 v4 client h user pw cnonce vf g =
     (let cr = ev_crypto v1;
          (sf, nonce) = server_first cr (ev_rand v2) cnonce vf;
          bare = ''n='' @ escape_name user @ '',r='' @ cnonce;
          proof = client_proof cr h pw (vf_salt vf) (vf_iterations vf) bare sf ''n,,'' nonce;
          (a1, g1) = sasl v1 client ''S'' [mech h] g;
          (a2, g2) = sasl v2 client ''C'' [b64 cr (as_bytes (scram_first_text user cnonce))] g1;
          (a3, g3) = sasl v3 client ''C'' [b64 cr (as_bytes (client_final cr ''n,,'' nonce proof))] g2
      in sasl v4 client ''C'' [''+''] g3)"

lemma mech_start: "start_session [mech h] = Some (SScram h ClientFirst)"
  by (cases h) (simp_all add: start_session_def from_mech_def)

lemma decode_text_b64: "crypto_ok cr \<Longrightarrow> decode_text cr (b64 cr (as_bytes s)) = Some s"
  by (simp add: decode_text_def crypto_ok_def)

lemma note_auth_success:
  "st (note_auth i acct True d) = st d"
  "auth_fails (note_auth i acct True d) = (auth_fails d)(throttle_key d acct := None)"
  by (simp_all add: note_auth_def Let_def)

lemma scram_login_core:
  assumes cr: "crypto_ok cr" "ev_crypto v1 = cr" "ev_crypto v2 = cr" "ev_crypto v3 = cr"
    and serve: "g_services g = s # rest" "card (dom (g_sasl (sweep_sasl v1 g))) < max_sasl_sessions"
    and acct: "scram_lookup (g_db g) user (mech h) = Some (acct, enc)" "parse_verifier cr enc = Some vf"
      "verify_plain cr h enc pw"
    and free: "\<not> locked_out v2 g acct" "\<not> is_suspended (ev_now v4) (g_db g) acct"
    and nonce: "CHR '','' \<notin> set cnonce"
  shows "let (out, g') = scram_login_run v1 v2 v3 v4 client h user pw cnonce vf g in
    logs_in client acct out \<and> OnLink (SaslReply (sv_uid s) client ''D'' [''S'']) \<in> set out \<and>
    g_sasl g' client = None \<and> auth_fails (g_db g') (throttle_key (g_db g) acct) = None"
proof -
  obtain sf full where sf: "server_first cr (ev_rand v2) cnonce vf = (sf, full)" by force
  let ?bare = "''n='' @ escape_name user @ '',r='' @ cnonce"
  let ?proof = "client_proof cr h pw (vf_salt vf) (vf_iterations vf) ?bare sf ''n,,'' full"
  have first: "CHR '','' \<notin> set (''n'' @ [] @ cnonce)" "\<not> starts_with ''p'' ''n''"
    using nonce by (simp_all add: starts_with_def)
  have pc: "parse_client_first (scram_first_text user cnonce) =
      Some \<lparr>cf_username = user, cf_gs2_header = ''n,,'', cf_bare = ?bare, cf_cnonce = cnonce\<rparr>"
    using parse_client_first_message [OF first, of user] by (simp add: scram_first_text_def)
  obtain final where vfin: "verify_final cr h vf ?bare sf ''n,,'' full (client_final cr ''n,,'' full ?proof) = Some final"
    using scram_exchange_completes_core [OF cr(1) acct(2,3) first sf] by auto
  define g1 where "g1 = stash_sasl v1 client (SScram h ClientFirst) (sweep_sasl v1 g)"
  have s1: "sasl v1 client ''S'' [mech h] g = (reply (sv_uid s) client ''C'' [''+''], g1)"
    using serve by (simp add: sasl_def sasl_start_def Let_def mech_start g1_def)
  have d1: "g_db (unstash_sasl client g1) = g_db g" "g_services g1 = s # rest"
    "g_sasl g1 client = Some \<lparr>ts_touched = ev_instant v1, ts_session = SScram h ClientFirst\<rparr>"
    using serve by (simp_all add: g1_def stash_sasl_def sweep_sasl_def unstash_sasl_def)
  have lo: "\<not> locked_out v2 (unstash_sasl client g1) acct" using free(1) by (simp add: locked_out_def d1)
  define g2 where "g2 = stash_sasl v2 client (SScram h (ClientFinal acct vf ?bare sf ''n,,'' full)) (unstash_sasl client g1)"
  have s2: "snd (sasl v2 client ''C'' [b64 cr (as_bytes (scram_first_text user cnonce))] g1) = g2"
    using acct(1,2) lo cr
    by (simp add: sasl_def sasl_continue_def Let_def d1 scram_client_first_def decode_text_b64 pc sf g2_def)
  have d2: "g_db (unstash_sasl client g2) = g_db g" "g_services g2 = s # rest"
    "g_sasl g2 client = Some \<lparr>ts_touched = ev_instant v2, ts_session = SScram h (ClientFinal acct vf ?bare sf ''n,,'' full)\<rparr>"
    using d1 by (simp_all add: g2_def stash_sasl_def unstash_sasl_def)
  define g3 where "g3 = stash_sasl v3 client (SScram h (Ack acct))
      (on_db (note_auth (ev_instant v3) acct True) (unstash_sasl client g2))"
  have s3: "snd (sasl v3 client ''C'' [b64 cr (as_bytes (client_final cr ''n,,'' full ?proof))] g2) = g3"
    using cr vfin by (simp add: sasl_def sasl_continue_def Let_def d2 scram_client_final_def decode_text_b64 g3_def)
  have d3: "st (g_db g3) = st (g_db g)" "auth_fails (g_db g3) (throttle_key (g_db g) acct) = None" "g_services g3 = s # rest"
    "g_sasl g3 client = Some \<lparr>ts_touched = ev_instant v3, ts_session = SScram h (Ack acct)\<rparr>"
    using d2 by (simp_all add: g3_def stash_sasl_def unstash_sasl_def on_db_def note_auth_success)
  have nosus: "\<not> is_suspended (ev_now v4) (g_db (unstash_sasl client g3)) acct"
    using free(2) d3(1) by (simp add: is_suspended_def unstash_sasl_def)
  have s4: "scram_login_run v1 v2 v3 v4 client h user pw cnonce vf g = sasl v4 client ''C'' [''+''] g3"
    using s2 s3 by (simp add: scram_login_run_def Let_def cr(2) sf s1 case_prod_unfold)
  show ?thesis
    unfolding s4 using nosus d3
    by (simp add: sasl_def sasl_continue_def Let_def logs_in_sasl_login)
      (simp add: sasl_login_def sasl_success_def unstash_sasl_def)
qed

text \<open>C28. A client that holds the password of an account that is neither suspended nor locked out is
  logged in by the four messages of a SCRAM login; its exchange is gone afterwards and the failures
  counted against the account are forgotten.\<close>

theorem scram_login_succeeds:
  assumes cr: "crypto_ok cr" "ev_crypto v1 = cr" "ev_crypto v2 = cr" "ev_crypto v3 = cr"
    and serve: "g_services g = s # rest" "card (dom (g_sasl (sweep_sasl v1 g))) < max_sasl_sessions"
    and acct: "scram_lookup (g_db g) user (mech h) = Some (acct, enc)" "parse_verifier cr enc = Some vf"
      "verify_plain cr h enc pw"
    and free: "\<not> locked_out v2 g acct" "\<not> is_suspended (ev_now v4) (g_db g) acct"
    and nonce: "CHR '','' \<notin> set cnonce"
  shows "let (out, g') = scram_login_run v1 v2 v3 v4 client h user pw cnonce vf g in
    logs_in client acct out \<and> OnLink (SaslReply (sv_uid s) client ''D'' [''S'']) \<in> set out \<and>
    g_sasl g' client = None \<and> auth_fails (g_db g') (throttle_key (g_db g) acct) = None"
  by (rule scram_login_core [OF assms])

subsection \<open>What the throttle does not see\<close>

text \<open>The final message of a SCRAM exchange is judged without regard to the throttle: an exchange
  opened before an account was locked out accepts and refuses the same messages with the same answers
  as if there had been no failures.\<close>

theorem lockout_not_rechecked:
  assumes "g_sasl g client = Some t" "ts_session t = SScram h (ClientFinal acct vf bare first gs2 nonce)"
  shows "fst (sasl v client ''C'' data (on_db (\<lambda>d. d\<lparr>auth_fails := f\<rparr>) g)) = fst (sasl v client ''C'' data g)"
  using assms
  by (auto simp: sasl_def sasl_continue_def Let_def on_db_def scram_client_final_def
      split: list.split option.split)

subsection \<open>A run\<close>

definition sasl_env :: env where
  "sasl_env = plain_env\<lparr>ev_rand := [1, 2], ev_point := (\<lambda>_. True), ev_der := (\<lambda>_. True)\<rparr>"

definition sasl_db :: db where
  "sasl_db = (db_open [] ''n'')\<lparr>st := store_empty\<lparr>accounts := [''al'' \<mapsto>
     new_account ''al'' None 7 ''n'' example_verifier None True]\<rparr>\<rparr>"

definition sasl_engine :: engine where
  "sasl_engine = engine_new [\<lparr>sv_uid = ''9SASL'', sv_nick = ''NickServ'', sv_host = ''h'', sv_gecos = ''g'',
     sv_channels = False, sv_accounts = True\<rparr>] sasl_db"

definition pencil_verifier :: verifier where
  "pencil_verifier = the (parse_verifier plain_crypto example_verifier)"

lemma pencil_parses: "parse_verifier plain_crypto example_verifier = Some pencil_verifier"
  by (simp add: pencil_verifier_def example_verifier_parses)

lemma pencil_plain: "verify_plain plain_crypto Sha256 example_verifier ''pencil''"
  by (simp add: verify_plain_def example_verifier_parses)

lemma key_al: "key ''al'' = ''al''"
  by (simp add: key_def ascii_simps)

lemma sasl_engine_facts:
  "g_services sasl_engine = [\<lparr>sv_uid = ''9SASL'', sv_nick = ''NickServ'', sv_host = ''h'', sv_gecos = ''g'',
     sv_channels = False, sv_accounts = True\<rparr>]"
  "g_sasl sasl_engine = Map.empty" "g_db sasl_engine = sasl_db"
  "scram_lookup sasl_db ''al'' (mech Sha256) = Some (''al'', example_verifier)"
  "\<not> locked_out sasl_env sasl_engine ''al''" "\<not> is_suspended (ev_now sasl_env) (g_db sasl_engine) ''al''"
  "card (dom (g_sasl (sweep_sasl sasl_env sasl_engine))) < max_sasl_sessions"
  by (simp_all add: sasl_engine_def engine_new_def sasl_db_def store_empty_def db_open_def Let_def scram_lookup_def
      resolved_key_def key_al new_account_def locked_out_def auth_lockout_def throttle_key_def is_suspended_def
      sweep_sasl_def max_sasl_sessions_def)

lemma sasl_env_crypto: "ev_crypto sasl_env = plain_crypto"
  by (simp add: sasl_env_def plain_env_def)

lemma sasl_env_clock: "ev_now sasl_env = 1000" "ev_instant sasl_env = 5"
  by (simp_all add: sasl_env_def plain_env_def)

lemma scram_login_run_split:
  "\<exists>tr g3. sasl_run g tr g3 \<and> scram_login_run v1 v2 v3 v4 client h user pw cnonce vf g = sasl v4 client ''C'' [''+''] g3"
proof -
  obtain sf full where sf: "server_first (ev_crypto v1) (ev_rand v2) cnonce vf = (sf, full)" by force
  have step: "sasl_run g tr g1 \<Longrightarrow> \<exists>tr'. sasl_run g tr' (snd (sasl v client md d g1))" for tr g1 v md d
    using sasl_run.Message by blast
  show ?thesis
    unfolding scram_login_run_def Let_def sf case_prod_unfold fst_conv snd_conv
    using step [THEN exE] sasl_run.Begin by (metis step)
qed

theorem scram_login_succeeds_witness:
  "logs_in ''c1'' ''al'' (fst (scram_login_run sasl_env sasl_env sasl_env sasl_env ''c1'' Sha256 ''al'' ''pencil'' ''abc''
     pencil_verifier sasl_engine))"
proof -
  have "CHR '','' \<notin> set ''abc''" by simp
  from scram_login_succeeds [OF plain_crypto_ok sasl_env_crypto sasl_env_crypto sasl_env_crypto
      sasl_engine_facts(1) sasl_engine_facts(7) sasl_engine_facts(4) [folded sasl_engine_facts(3)]
      pencil_parses pencil_plain sasl_engine_facts(5,6) this, of "''c1''"]
  show ?thesis by (auto simp: Let_def split: prod.splits)
qed


theorem sasl_table_bounded_witness:
  "card (dom (g_sasl (snd (sasl sasl_env ''c1'' ''S'' [''PLAIN''] sasl_engine)))) \<le> 4096"
  using sasl_table_bounded [OF sasl_run.Message [OF sasl_run.Begin] sasl_engine_facts(2)] by blast

text \<open>An account locked out for ten seconds, and an exchange opened before.\<close>

definition locked_engine :: engine where
  "locked_engine = on_db (\<lambda>d. d\<lparr>auth_fails := [''al'' \<mapsto> \<lparr>th_fails = 9, th_locked_until = Some 10000000000\<rparr>]\<rparr>)
     (stash_sasl sasl_env ''c1'' (SScram Sha256 (ClientFinal ''al'' pencil_verifier ''n=al,r=abc''
       (fst (server_first plain_crypto [1, 2] ''abc'' pencil_verifier)) ''n,,''
       (snd (server_first plain_crypto [1, 2] ''abc'' pencil_verifier)))) sasl_engine)"

theorem lockout_not_rechecked_witness:
  "locked_out sasl_env locked_engine ''al'' \<and>
   fst (sasl sasl_env ''c1'' ''C'' [''x''] locked_engine) =
     fst (sasl sasl_env ''c1'' ''C'' [''x''] (stash_sasl sasl_env ''c1'' (SScram Sha256 (ClientFinal ''al''
       pencil_verifier ''n=al,r=abc'' (fst (server_first plain_crypto [1, 2] ''abc'' pencil_verifier)) ''n,,''
       (snd (server_first plain_crypto [1, 2] ''abc'' pencil_verifier)))) sasl_engine))"
proof -
  let ?s = "SScram Sha256 (ClientFinal ''al'' pencil_verifier ''n=al,r=abc''
       (fst (server_first plain_crypto [1, 2] ''abc'' pencil_verifier)) ''n,,''
       (snd (server_first plain_crypto [1, 2] ''abc'' pencil_verifier)))"
  have "g_sasl (stash_sasl sasl_env ''c1'' ?s sasl_engine) ''c1'' =
      Some \<lparr>ts_touched = ev_instant sasl_env, ts_session = ?s\<rparr>"
    by (simp add: stash_sasl_def)
  moreover have "locked_out sasl_env locked_engine ''al''"
    by (simp add: locked_out_def locked_engine_def on_db_def auth_lockout_def throttle_key_def resolved_key_def
        stash_sasl_def sasl_engine_facts(3) sasl_db_def store_empty_def key_al sasl_env_clock)
  ultimately show ?thesis
    unfolding locked_engine_def using lockout_not_rechecked [of _ "''c1''"] by (metis select_convs(2) timed_session.select_convs(2))
qed

end
