(* ===== verification/Kicker.thy ===== *)
theory Kicker
  imports Engine
begin

text \<open>
  The channel bot at work (src/src/engine/kicker.rs): the verdict on a line said in a channel, the
  automatic responses, and the votes by which a channel kicks or bans somebody.
\<close>

subsection \<open>Verdicts\<close>

fun reason_text :: "kick_reason \<Rightarrow> string" where
  "reason_text BoldText = ''Don't use bold formatting on this channel.''"
| "reason_text ColourText = ''Don't use colour codes on this channel.''"
| "reason_text UnderlineText = ''Don't use underline formatting on this channel.''"
| "reason_text ReverseText = ''Don't use reverse formatting on this channel.''"
| "reason_text ItalicText = ''Don't use italic formatting on this channel.''"
| "reason_text CapsText = ''Turn caps lock off!''"
| "reason_text BadLanguage = ''Watch your language!''"
| "reason_text Flooding = ''Stop flooding!''"
| "reason_text Repeating = ''Stop repeating yourself!''"

definition u16_max :: nat where "u16_max = 2 ^ 16 - 1"

definition sat16 :: "nat \<Rightarrow> nat" where
  "sat16 n = min (n + 1) u16_max"

definition build_badword_set :: "env \<Rightarrow> string list \<Rightarrow> string list" where
  "build_badword_set v ps = (if ev_set_compiles v ps then ps else [])"

definition badword_set :: "env \<Rightarrow> string \<Rightarrow> channel_info \<Rightarrow> engine \<Rightarrow> string list \<times> engine" where
  "badword_set v chan c g =
     (let fresh = \<lparr>cb_rev = c_badwords_rev c, cb_ts = c_ts c, cb_set = build_badword_set v (c_badwords c)\<rparr>;
          rebuilt = (cb_set fresh, g\<lparr>g_badword_cache := (g_badword_cache g)(key chan \<mapsto> fresh)\<rparr>)
      in case g_badword_cache g (key chan) of
           None \<Rightarrow> rebuilt
         | Some cb \<Rightarrow> if cb_rev cb = c_badwords_rev c \<and> cb_ts cb = c_ts c then (cb_set cb, g) else rebuilt)"

definition flood_count :: "nat \<Rightarrow> nat \<times> nat \<Rightarrow> chatter_state \<Rightarrow> bool \<times> chatter_state" where
  "flood_count now limits s =
     (let s1 = (if now - ch_flood_start s > snd limits
                then s\<lparr>ch_flood_start := now, ch_flood_lines := 0\<rparr> else s);
          s2 = s1\<lparr>ch_flood_lines := sat16 (ch_flood_lines s1)\<rparr>
      in (ch_flood_lines s2 \<ge> fst limits, s2))"

definition repeat_count :: "nat \<Rightarrow> nat \<Rightarrow> chatter_state \<Rightarrow> bool \<times> chatter_state" where
  "repeat_count h limit s =
     (let s1 = (if h = ch_last_hash s then s\<lparr>ch_repeats := sat16 (ch_repeats s)\<rparr>
                else s\<lparr>ch_repeats := 0, ch_last_hash := h\<rparr>)
      in (ch_repeats s1 \<ge> limit, s1))"

definition chatter_verdict ::
  "env \<Rightarrow> kicker_settings \<Rightarrow> string \<Rightarrow> chatter_state \<Rightarrow> kick_reason option \<times> chatter_state" where
  "chatter_verdict v k line s =
     (let (flooded, s1) = (if k_flood k then flood_count (ev_now v) (flood_thresholds k) s else (False, s))
      in if flooded then (Some Flooding, s1)
         else let (repeated, s2) = (if k_repeat k
                then repeat_count (ev_hash v [key line]) (repeat_threshold k) s1 else (False, s1))
              in (if repeated then Some Repeating else None, s2))"

text \<open>The three verdicts in the order of the code; the first that trips is the reason.\<close>

definition badword_verdict ::
  "env \<Rightarrow> string \<Rightarrow> string \<Rightarrow> channel_info \<Rightarrow> engine \<Rightarrow> kick_reason option \<times> engine" where
  "badword_verdict v chan line c g =
     (if k_badwords (c_kickers c) \<and> c_badwords c \<noteq> []
      then let (ps, g1) = badword_set v chan c g
           in (if list_ex (\<lambda>p. ev_matches v p line) ps then Some BadLanguage else None, g1)
      else (None, g))"

definition counted_verdict ::
  "env \<Rightarrow> string \<Rightarrow> string \<Rightarrow> string \<Rightarrow> kicker_settings \<Rightarrow> engine \<Rightarrow> kick_reason option \<times> engine" where
  "counted_verdict v uid chan line k g =
     (if k_flood k \<or> k_repeat k
      then let (r, s) = chatter_verdict v k line (chatter_entry g chan uid)
           in (r, on_chatter chan uid (\<lambda>_. s) g)
      else (None, g))"

definition line_verdict ::
  "env \<Rightarrow> string \<Rightarrow> string \<Rightarrow> string \<Rightarrow> channel_info \<Rightarrow> engine \<Rightarrow> kick_reason option \<times> engine" where
  "line_verdict v uid chan line c g =
     (case violation (c_kickers c) line of
        Some r \<Rightarrow> (Some r, g)
      | None \<Rightarrow> (case badword_verdict v chan line c g of
            (Some r, g1) \<Rightarrow> (Some r, g1)
          | (None, g1) \<Rightarrow> counted_verdict v uid chan line (c_kickers c) g1))"

subsection \<open>Punishment\<close>

definition host_mask :: "string \<Rightarrow> string" where
  "host_mask host = ''*!*@'' @ host"

definition times_to_ban ::
  "env \<Rightarrow> kicker_settings \<Rightarrow> string \<Rightarrow> string \<Rightarrow> string \<Rightarrow> engine \<Rightarrow> net_action list \<times> engine" where
  "times_to_ban v k botuid uid chan g =
     (if k_ttb k = 0 then ([], g)
      else let kicks = sat16 (ch_kicks (chatter_entry g chan uid));
               g1 = on_chatter chan uid (\<lambda>s. s\<lparr>ch_kicks := kicks\<rparr>) g
           in if kicks < k_ttb k then ([], g1)
              else let g2 = on_chatter chan uid (\<lambda>s. s\<lparr>ch_kicks := 0\<rparr>) g1
                   in case host_of (g_network g2) uid of
                        None \<Rightarrow> ([], g2)
                      | Some host \<Rightarrow>
                          let g3 = bump_stat ''botserv.ban'' g2;
                              g4 = (if k_ban_expire k > 0
                                    then g3\<lparr>g_pending_unbans := g_pending_unbans g3 @
                                           [\<lparr>pu_at = ev_now v + k_ban_expire k, pu_from = botuid,
                                             pu_channel = chan, pu_mask = host_mask host\<rparr>]\<rparr>
                                    else g3)
                          in ([OnChannel (ChannelMode botuid chan (''+b '' @ host_mask host))], g4))"

definition punish ::
  "env \<Rightarrow> kicker_settings \<Rightarrow> string \<Rightarrow> string \<Rightarrow> string \<Rightarrow> kick_reason \<Rightarrow> engine \<Rightarrow> net_action list \<times> engine" where
  "punish v k botuid uid chan r g =
     (let already = ch_warned (chatter_entry g chan uid);
          g1 = (if k_warn k then on_chatter chan uid (\<lambda>s. s\<lparr>ch_warned := True\<rparr>) g else g)
      in if k_warn k \<and> \<not> already
         then ([Talk (Notice botuid uid (Msg ''mind the channel rules'' [reason_text r]))],
               bump_stat ''botserv.warn'' g1)
         else let (bans, g2) = times_to_ban v k botuid uid chan g1
              in (bans @ [OnChannel (KickUser botuid chan uid (Lit (reason_text r)))],
                  bump_stat ''botserv.kick'' g2))"

definition exempt :: "kicker_settings \<Rightarrow> network \<Rightarrow> string \<Rightarrow> string \<Rightarrow> bool" where
  "exempt k w chan uid \<longleftrightarrow>
     (k_dontkickops k \<and> net_is_op w chan uid) \<or> (k_dontkickvoices k \<and> net_is_voiced w chan uid)"

text \<open>The bot assigned to a channel, if it is on the network.\<close>

definition bot_present :: "env \<Rightarrow> engine \<Rightarrow> channel_info \<Rightarrow> string option" where
  "bot_present v g c = Option.bind (c_assigned_bot c) (nick_uid v g)"

definition kicker_check ::
  "env \<Rightarrow> string \<Rightarrow> string \<Rightarrow> string \<Rightarrow> engine \<Rightarrow> net_action list \<times> engine" where
  "kicker_check v uid chan line g =
     (case channel_rec g chan of
        None \<Rightarrow> ([], g)
      | Some c \<Rightarrow>
          if \<not> kickers_any (c_kickers c) \<or> exempt (c_kickers c) (g_network g) chan uid then ([], g)
          else case bot_present v g c of
            None \<Rightarrow> ([], g)
          | Some botuid \<Rightarrow> (case line_verdict v uid chan line c g of
                (None, g1) \<Rightarrow> ([], g1)
              | (Some r, g1) \<Rightarrow> punish v (c_kickers c) botuid uid chan r g1))"

subsection \<open>Automatic responses\<close>

definition compile_triggers :: "env \<Rightarrow> trigger list \<Rightarrow> trigger_rt list" where
  "compile_triggers v ts =
     map (\<lambda>t. \<lparr>tt_pattern = tr_pattern t, tt_response = tr_response t, tt_cooldown = tr_cooldown t,
                tt_last_fired = 0\<rparr>)
       (filter (\<lambda>t. ev_compiles v (tr_pattern t)) ts)"

definition trigger_entries :: "env \<Rightarrow> string \<Rightarrow> channel_info \<Rightarrow> engine \<Rightarrow> cached_triggers" where
  "trigger_entries v chan c g =
     (let fresh = \<lparr>ct_rev = c_triggers_rev c, ct_ts = c_ts c, ct_entries = compile_triggers v (c_triggers c)\<rparr>
      in case g_trigger_cache g (key chan) of
           None \<Rightarrow> fresh
         | Some ct \<Rightarrow> if ct_rev ct = c_triggers_rev c \<and> ct_ts ct = c_ts c then ct else fresh)"

text \<open>Groups are filled in from the highest number down.\<close>

definition fill_groups :: "string list \<Rightarrow> string \<Rightarrow> string" where
  "fill_groups groups resp =
     foldr (\<lambda>i r. replace_all (CHR ''$'') (show_nat i) (groups ! i) r) [1..<length groups] resp"

fun first_trigger ::
  "env \<Rightarrow> string \<Rightarrow> string \<Rightarrow> trigger_rt list \<Rightarrow> string option \<times> trigger_rt list" where
  "first_trigger v nick line [] = (None, [])"
| "first_trigger v nick line (e # es) =
     (case ev_captures v (tt_pattern e) line of
        None \<Rightarrow> (let (r, es') = first_trigger v nick line es in (r, e # es'))
      | Some groups \<Rightarrow>
          if ev_now v - tt_last_fired e < tt_cooldown e then (None, e # es)
          else (Some (replace_all (CHR ''$'') ''nick'' nick (fill_groups groups (tt_response e))),
                e\<lparr>tt_last_fired := ev_now v\<rparr> # es))"

definition trigger_response ::
  "env \<Rightarrow> string \<Rightarrow> string \<Rightarrow> string \<Rightarrow> engine \<Rightarrow> net_action option \<times> engine" where
  "trigger_response v uid chan line g =
     (case channel_rec g chan of
        None \<Rightarrow> (None, g)
      | Some c \<Rightarrow>
          if c_triggers c = [] then (None, g)
          else case bot_present v g c of
            None \<Rightarrow> (None, g)
          | Some botuid \<Rightarrow>
              let ct = trigger_entries v chan c g;
                  nick = (case net_nick_of (g_network g) uid of None \<Rightarrow> uid | Some n \<Rightarrow> n);
                  (r, es) = first_trigger v nick line (ct_entries ct);
                  g1 = g\<lparr>g_trigger_cache := (g_trigger_cache g)(key chan \<mapsto> ct\<lparr>ct_entries := es\<rparr>)\<rparr>
              in case r of
                   None \<Rightarrow> (None, g1)
                 | Some resp \<Rightarrow> (Some (Talk (Privmsg botuid chan (Lit resp))),
                                 bump_stat ''botserv.trigger'' g1))"

definition prune_kicker_caches :: "engine \<Rightarrow> engine" where
  "prune_kicker_caches g =
     g\<lparr>g_badword_cache := (\<lambda>c. if channel_rec g c = None then None else g_badword_cache g c),
       g_trigger_cache := (\<lambda>c. if channel_rec g c = None then None else g_trigger_cache g c)\<rparr>"

subsection \<open>Votes\<close>

definition parse_vote :: "string \<Rightarrow> (bool \<times> string) option" where
  "parse_vote line =
     (case strip_prefix ''!votekick '' line of
        Some t \<Rightarrow> Some (False, trim t)
      | None \<Rightarrow> map_option (\<lambda>t. (True, trim t)) (strip_prefix ''!voteban '' line))"

definition unvotable :: "env \<Rightarrow> engine \<Rightarrow> string \<Rightarrow> string \<Rightarrow> bool" where
  "unvotable v g chan target =
     (is_bot_uid v g target \<or>
      (case login_of g target of
         None \<Rightarrow> False
       | Some a \<Rightarrow> is_operator (ev_now v) g a \<or>
           (case channel_rec g chan of None \<Rightarrow> False | Some c \<Rightarrow> info_is_op c a)))"

definition sweep_votes ::
  "nat \<Rightarrow> (string \<times> string \<rightharpoonup> vote_state) \<Rightarrow> (string \<times> string \<rightharpoonup> vote_state)" where
  "sweep_votes now votes =
     (\<lambda>k. case votes k of None \<Rightarrow> None
        | Some vs \<Rightarrow> if now - vo_started vs \<le> vote_ttl then Some vs else None)"

definition tally ::
  "nat \<Rightarrow> bool \<Rightarrow> string \<times> string \<Rightarrow> (string \<times> string \<rightharpoonup> vote_state) \<Rightarrow> vote_state" where
  "tally now ban k votes =
     (case votes k of
        None \<Rightarrow> \<lparr>vo_ban = ban, vo_voters = {}, vo_started = now\<rparr>
      | Some vs \<Rightarrow> vs\<lparr>vo_ban := ban\<rparr>)"

definition vote_passed ::
  "string \<Rightarrow> string \<Rightarrow> bool \<Rightarrow> string \<Rightarrow> string \<Rightarrow> nat \<Rightarrow> engine \<Rightarrow> net_action list" where
  "vote_passed botuid chan ban target display votes_cast g =
     (case (ban, host_of (g_network g) target) of
        (True, Some host) \<Rightarrow> [OnChannel (ChannelMode botuid chan (''+b '' @ host_mask host))]
      | _ \<Rightarrow> []) @
     [Talk (Privmsg botuid chan (Msg ''vote passed'' [display, if ban then ''banned'' else ''kicked''])),
      OnChannel (KickUser botuid chan target (Msg ''voted out'' [show_nat votes_cast]))]"

definition count_vote ::
  "env \<Rightarrow> string \<Rightarrow> string \<Rightarrow> bool \<Rightarrow> string \<Rightarrow> string \<Rightarrow> string \<Rightarrow> nat \<Rightarrow> engine \<Rightarrow>
   net_action list option \<times> engine" where
  "count_vote v uid chan ban botuid target display threshold g =
     (let k = (key chan, key display);
          votes = sweep_votes (ev_now v) (g_votes g);
          vs = tally (ev_now v) ban k votes
      in if uid \<in> vo_voters vs then (None, g\<lparr>g_votes := votes(k \<mapsto> vs)\<rparr>)
         else let vs1 = vs\<lparr>vo_voters := insert uid (vo_voters vs)\<rparr>;
                  votes_cast = card (vo_voters vs1) mod 2 ^ 16
              in if votes_cast < threshold
                 then (Some [Talk (Privmsg botuid chan (Msg ''votes''
                         [show_nat votes_cast, show_nat threshold, if ban then ''ban'' else ''kick'', display]))],
                       g\<lparr>g_votes := votes(k \<mapsto> vs1)\<rparr>)
                 else (Some (vote_passed botuid chan ban target display votes_cast g),
                       bump_stat ''botserv.votekick'' (g\<lparr>g_votes := votes(k := None)\<rparr>)))"

definition handle_vote ::
  "env \<Rightarrow> string \<Rightarrow> string \<Rightarrow> string \<Rightarrow> engine \<Rightarrow> net_action list option \<times> engine" where
  "handle_vote v uid chan line g =
     (case parse_vote line of
        None \<Rightarrow> (None, g)
      | Some (ban, nick) \<Rightarrow>
          if nick = [] \<or> CHR '' '' \<in> set nick then (None, g)
          else case channel_rec g chan of
            None \<Rightarrow> (None, g)
          | Some c \<Rightarrow>
              if c_assigned_bot c = None \<or> k_votekick (c_kickers c) = 0 then (None, g)
              else case (bot_present v g c, nick_uid v g nick) of
                (Some botuid, Some target) \<Rightarrow>
                  if target \<notin> channel_members (g_network g) chan then (None, g)
                  else let display = (case net_nick_of (g_network g) target of None \<Rightarrow> nick | Some n \<Rightarrow> n) in
                    if unvotable v g chan target
                    then (Some [Talk (Privmsg botuid chan (Msg ''can't be voted out'' [display]))], g)
                    else count_vote v uid chan ban botuid target display (k_votekick (c_kickers c)) g
              | _ \<Rightarrow> (None, g))"

end
