(* ===== verification/KickerProps.thy ===== *)
theory KickerProps
  imports Example Kicker
begin

text \<open>
  What the channel bot guarantees: how many lines get past the flood kicker, how warnings, kicks and
  bans escalate, what a vote needs to pass, and where the compiled word lists fall short.
\<close>

subsection \<open>Flooding\<close>

text \<open>The verdicts of the flood kicker on lines said at the given times.\<close>

fun flood_flags :: "nat \<times> nat \<Rightarrow> chatter_state \<Rightarrow> nat list \<Rightarrow> bool list" where
  "flood_flags limits s [] = []"
| "flood_flags limits s (t # ts) =
     fst (flood_count t limits s) # flood_flags limits (snd (flood_count t limits s)) ts"

lemma flood_flags_length [simp]: "length (flood_flags limits s ts) = length ts"
  by (induction ts arbitrary: s) simp_all

text \<open>Inside a window that is not reset, at most the lines still missing to the limit go unnoticed.\<close>

lemma flood_in_window:
  assumes "fst limits \<le> u16_max" "\<forall>t\<in>set ts. t - ch_flood_start s \<le> snd limits"
    "True \<notin> set (flood_flags limits s ts)" "ts \<noteq> []"
  shows "ch_flood_lines s + length ts < fst limits"
  using assms
proof (induction ts arbitrary: s)
  case (Cons t ts)
  let ?s = "snd (flood_count t limits s)"
  have "\<not> t - ch_flood_start s > snd limits" using Cons.prems(2) by simp
  then have s: "ch_flood_start ?s = ch_flood_start s" "ch_flood_lines ?s = sat16 (ch_flood_lines s)"
    by (simp_all add: flood_count_def Let_def)
  have small: "sat16 (ch_flood_lines s) < fst limits"
    using Cons.prems(3) \<open>\<not> t - ch_flood_start s > snd limits\<close> by (auto simp: flood_count_def Let_def)
  then have sat: "sat16 (ch_flood_lines s) = ch_flood_lines s + 1"
    using Cons.prems(1) by (auto simp: sat16_def)
  show ?case
  proof (cases "ts = []")
    case True then show ?thesis using small sat by simp
  next
    case False
    then have "ch_flood_lines ?s + length ts < fst limits"
      using Cons.prems s by (intro Cons.IH) auto
    then show ?thesis using s sat by simp
  qed
qed simp

lemma flood_unnoticed:
  assumes "fst limits \<le> u16_max" "1 < fst limits" "\<forall>t\<in>set ts. a \<le> t \<and> t \<le> a + snd limits"
    "True \<notin> set (flood_flags limits s ts)"
  shows "ch_flood_lines s + length ts < 2 * fst limits - 1 \<or> length ts < fst limits"
  using assms(3,4)
proof (induction ts arbitrary: s)
  case Nil then show ?case using assms(2) by simp
next
  case (Cons t ts)
  let ?s = "snd (flood_count t limits s)"
  show ?case
  proof (cases "t - ch_flood_start s > snd limits")
    case True
    then have s: "ch_flood_start ?s = t" "ch_flood_lines ?s = 1"
      using assms(1,2) by (simp_all add: flood_count_def Let_def sat16_def)
    have "t' - ch_flood_start ?s \<le> snd limits" if "t' \<in> set ts" for t'
    proof -
      have "a \<le> t" "t' \<le> a + snd limits" using Cons.prems(1) that by auto
      then show ?thesis using s by simp
    qed
    then have "ts = [] \<or> ch_flood_lines ?s + length ts < fst limits"
      using Cons.prems(2) assms(1) flood_in_window [of limits ts ?s] by auto
    then show ?thesis using s assms(2) by auto
  next
    case False
    then have l: "ch_flood_lines ?s = sat16 (ch_flood_lines s)" "sat16 (ch_flood_lines s) < fst limits"
      using Cons.prems(2) by (auto simp: flood_count_def Let_def)
    then have sat: "sat16 (ch_flood_lines s) = ch_flood_lines s + 1"
      using assms(1) by (auto simp: sat16_def)
    have "ch_flood_lines ?s + length ts < 2 * fst limits - 1 \<or> length ts < fst limits"
      using Cons.prems by (intro Cons.IH) auto
    then show ?thesis using l sat by auto
  qed
qed

text \<open>With the flood kicker set to a number of lines in a number of seconds, whoever says twice that
  many lines but one within those seconds trips it, however the lines fall into the counter's
  windows.\<close>

theorem flood_is_noticed:
  assumes "k_flood_lines k \<le> u16_max" "\<forall>t\<in>set ts. a \<le> t \<and> t \<le> a + snd (flood_thresholds k)"
    "2 * fst (flood_thresholds k) - 1 \<le> length ts"
  shows "True \<in> set (flood_flags (flood_thresholds k) s ts)"
proof (rule ccontr)
  assume "True \<notin> set (flood_flags (flood_thresholds k) s ts)"
  moreover have "1 < fst (flood_thresholds k)" "fst (flood_thresholds k) \<le> u16_max"
    using assms(1) by (auto simp: flood_thresholds_def u16_max_def)
  ultimately show False using flood_unnoticed [OF _ _ assms(2)] assms(3) by fastforce
qed

theorem flood_is_noticed_witness:
  "True \<in> set (flood_flags (flood_thresholds (kicker_settings_default\<lparr>k_flood_lines := 2, k_flood_secs := 5\<rparr>))
     chatter_default [100, 103, 105])"
  by (rule flood_is_noticed [of _ _ 100])
    (simp_all add: u16_max_def flood_thresholds_def kicker_settings_default_def)

subsection \<open>Warnings, kicks and bans\<close>

lemma on_chatter_entry [simp]:
  "chatter_entry (on_chatter chan uid f g) chan uid = f (chatter_entry g chan uid)"
  by (auto simp: chatter_entry_def on_chatter_def upsert_def split: option.split)

lemma on_chatter_frame [simp]:
  "g_db (on_chatter chan uid f g) = g_db g" "g_network (on_chatter chan uid f g) = g_network g"
  by (simp_all add: on_chatter_def)

lemma bump_stat_frame [simp]:
  "g_db (bump_stat s g) = g_db g" "chatter_entry (bump_stat s g) chan uid = chatter_entry g chan uid"
  "host_of (g_network (bump_stat s g)) u = host_of (g_network g) u"
  by (simp_all add: bump_stat_def on_network_def chatter_entry_def host_of_def bump_def)

fun say_all :: "string \<Rightarrow> string \<Rightarrow> (env \<times> string) list \<Rightarrow> engine \<Rightarrow> net_action list \<times> engine" where
  "say_all uid chan [] g = ([], g)"
| "say_all uid chan ((v, line) # ls) g =
     (let (out, g1) = kicker_check v uid chan line g; (rest, g2) = say_all uid chan ls g1
      in (out @ rest, g2))"

fun is_warning :: "net_action \<Rightarrow> bool" where
  "is_warning (Talk (Notice b u m)) = True"
| "is_warning a = False"

fun is_ban :: "net_action \<Rightarrow> bool" where
  "is_ban (OnChannel (ChannelMode b c m)) = True"
| "is_ban a = False"

fun is_kick :: "net_action \<Rightarrow> bool" where
  "is_kick (OnChannel (KickUser b c u m)) = True"
| "is_kick a = False"

definition number_of :: "('a \<Rightarrow> bool) \<Rightarrow> 'a list \<Rightarrow> nat" where
  "number_of p xs = length (filter p xs)"

lemma number_of_simps [simp]:
  "number_of p [] = 0" "number_of p (x # xs) = (if p x then 1 else 0) + number_of p xs"
  "number_of p (xs @ ys) = number_of p xs + number_of p ys"
  by (simp_all add: number_of_def)

text \<open>What a verdict leaves alone.\<close>

lemma badword_set_frame:
  "g_db (snd (badword_set v chan c g)) = g_db g" "g_network (snd (badword_set v chan c g)) = g_network g"
  "g_chatter (snd (badword_set v chan c g)) = g_chatter g"
  by (simp_all add: badword_set_def Let_def split: option.split)

lemma chatter_verdict_frame:
  "ch_kicks (snd (chatter_verdict v k line s)) = ch_kicks s"
  "ch_warned (snd (chatter_verdict v k line s)) = ch_warned s"
  by (simp_all add: chatter_verdict_def flood_count_def repeat_count_def Let_def)

lemma counted_verdict_frame:
  "g_db (snd (counted_verdict v uid chan line k g)) = g_db g"
  "g_network (snd (counted_verdict v uid chan line k g)) = g_network g"
  "ch_kicks (chatter_entry (snd (counted_verdict v uid chan line k g)) chan uid) = ch_kicks (chatter_entry g chan uid)"
  "ch_warned (chatter_entry (snd (counted_verdict v uid chan line k g)) chan uid) = ch_warned (chatter_entry g chan uid)"
  using chatter_verdict_frame [of v k line "chatter_entry g chan uid"]
  by (auto simp: counted_verdict_def split: prod.split)

lemma badword_verdict_frame:
  "g_db (snd (badword_verdict v chan line c g)) = g_db g"
  "g_network (snd (badword_verdict v chan line c g)) = g_network g"
  "g_chatter (snd (badword_verdict v chan line c g)) = g_chatter g"
  using badword_set_frame [of v chan c g]
  by (auto simp: badword_verdict_def split: prod.split)

lemma chatter_entry_cong: "g_chatter g = g_chatter g' \<Longrightarrow> chatter_entry g = chatter_entry g'"
  by (simp add: chatter_entry_def fun_eq_iff)

lemma line_verdict_frame:
  assumes "line_verdict v uid chan line c g = (r, g1)"
  shows "g_db g1 = g_db g" "g_network g1 = g_network g"
    "ch_kicks (chatter_entry g1 chan uid) = ch_kicks (chatter_entry g chan uid)"
    "ch_warned (chatter_entry g1 chan uid) = ch_warned (chatter_entry g chan uid)"
proof -
  obtain rb gb where b: "badword_verdict v chan line c g = (rb, gb)" by force
  note fb = badword_verdict_frame [of v chan line c g, unfolded b snd_conv]
  note fc = counted_verdict_frame [of v uid chan line "c_kickers c" gb]
  note ce = chatter_entry_cong [OF fb(3)]
  have "g1 = g \<or> g1 = gb \<or> g1 = snd (counted_verdict v uid chan line (c_kickers c) gb)"
    using assms b by (auto simp: line_verdict_def split: option.splits)
  then show "g_db g1 = g_db g" "g_network g1 = g_network g"
    "ch_kicks (chatter_entry g1 chan uid) = ch_kicks (chatter_entry g chan uid)"
    "ch_warned (chatter_entry g1 chan uid) = ch_warned (chatter_entry g chan uid)"
    using fb(1,2) fc ce by auto
qed

lemma times_to_ban_effect:
  assumes "0 < k_ttb k" "k_ttb k \<le> u16_max" "host_of (g_network g) uid = Some host"
    "ch_kicks (chatter_entry g chan uid) < k_ttb k"
    "times_to_ban v k botuid uid chan g = (out, g')"
  shows "ch_kicks (chatter_entry g' chan uid) = (ch_kicks (chatter_entry g chan uid) + 1) mod k_ttb k"
    "number_of is_ban out = (ch_kicks (chatter_entry g chan uid) + 1) div k_ttb k"
    "number_of is_kick out = 0" "number_of is_warning out = 0"
    "ch_warned (chatter_entry g' chan uid) = ch_warned (chatter_entry g chan uid)"
    "g_db g' = g_db g" "host_of (g_network g') uid = Some host"
proof -
  let ?n = "ch_kicks (chatter_entry g chan uid)"
  have sat: "sat16 ?n = ?n + 1" using assms(2,4) by (simp add: sat16_def)
  have upd: "chatter_entry (h\<lparr>g_pending_unbans := us\<rparr>) = chatter_entry h" for h us
    by (intro chatter_entry_cong) simp
  have "ch_kicks (chatter_entry g' chan uid) = (?n + 1) mod k_ttb k \<and>
    number_of is_ban out = (?n + 1) div k_ttb k \<and> number_of is_kick out = 0 \<and> number_of is_warning out = 0 \<and>
    ch_warned (chatter_entry g' chan uid) = ch_warned (chatter_entry g chan uid) \<and>
    g_db g' = g_db g \<and> host_of (g_network g') uid = Some host"
  proof (cases "?n + 1 < k_ttb k")
    case True
    with assms sat show ?thesis by (auto simp: times_to_ban_def Let_def)
  next
    case False
    with assms(4) have "?n + 1 = k_ttb k" by simp
    with assms sat show ?thesis by (auto simp: times_to_ban_def Let_def upd split: if_splits)
  qed
  then show "ch_kicks (chatter_entry g' chan uid) = (?n + 1) mod k_ttb k"
    "number_of is_ban out = (?n + 1) div k_ttb k"
    "number_of is_kick out = 0" "number_of is_warning out = 0"
    "ch_warned (chatter_entry g' chan uid) = ch_warned (chatter_entry g chan uid)"
    "g_db g' = g_db g" "host_of (g_network g') uid = Some host" by simp_all
qed

text \<open>One line, then a sequence.\<close>

definition escalated :: "kicker_settings \<Rightarrow> chatter_state \<Rightarrow> net_action list \<Rightarrow> chatter_state \<Rightarrow> bool" where
  "escalated k s out s' \<longleftrightarrow>
     ch_kicks s' = (ch_kicks s + number_of is_kick out) mod k_ttb k \<and>
     number_of is_ban out = (ch_kicks s + number_of is_kick out) div k_ttb k \<and>
     (ch_warned s \<longrightarrow> ch_warned s') \<and>
     (if k_warn k then number_of is_warning out = (if ch_warned s' \<and> \<not> ch_warned s then 1 else 0) \<and>
        (0 < number_of is_kick out \<longrightarrow> ch_warned s')
      else number_of is_warning out = 0)"

lemma carry_div: "0 < m \<Longrightarrow> (a mod m + b) div m + a div m = (a + b) div (m::nat)"
proof -
  assume "0 < m"
  have "a + b = (a mod m + b) + (a div m) * m" by simp
  with \<open>0 < m\<close> show ?thesis by (metis add.commute div_mult_self1 less_irrefl_nat)
qed

lemma escalated_append:
  assumes "escalated k s out s'" "escalated k s' out' s''" "0 < k_ttb k"
  shows "escalated k s (out @ out') s''"
proof -
  have "ch_kicks s'' = (ch_kicks s + number_of is_kick (out @ out')) mod k_ttb k"
    using assms by (simp add: escalated_def mod_add_left_eq add.assoc)
  moreover have "number_of is_ban (out @ out') = (ch_kicks s + number_of is_kick (out @ out')) div k_ttb k"
    using assms carry_div [OF assms(3), of "ch_kicks s + number_of is_kick out" "number_of is_kick out'"]
    unfolding escalated_def by (metis add.assoc add.commute number_of_simps(3))
  ultimately show ?thesis using assms(1,2)
    by (cases "k_warn k"; cases "ch_warned s"; cases "ch_warned s'"; cases "ch_warned s''")
      (simp_all add: escalated_def)
qed

lemma kicker_check_escalates:
  assumes c: "channel_rec g chan = Some c" and k: "k = c_kickers c" "0 < k_ttb k" "k_ttb k \<le> u16_max"
    and host: "host_of (g_network g) uid = Some host"
    and small: "ch_kicks (chatter_entry g chan uid) < k_ttb k"
    and step: "kicker_check v uid chan line g = (out, g')"
  shows "escalated k (chatter_entry g chan uid) out (chatter_entry g' chan uid) \<and>
    channel_rec g' chan = Some c \<and> host_of (g_network g') uid = Some host"
proof -
  have quiet: ?thesis if "out = []" "g_db g' = g_db g" "g_network g' = g_network g"
    "ch_kicks (chatter_entry g' chan uid) = ch_kicks (chatter_entry g chan uid)"
    "ch_warned (chatter_entry g' chan uid) = ch_warned (chatter_entry g chan uid)"
    using that small c host by (simp add: escalated_def channel_rec_def)
  show ?thesis
  proof (cases "kickers_any k \<and> \<not> exempt k (g_network g) chan uid \<and> bot_present v g c \<noteq> None")
    case False
    with step c k(1) have "out = []" "g' = g" by (auto simp: kicker_check_def split: if_splits)
    with quiet show ?thesis by simp
  next
    case True
    then obtain bot r g1 where bot: "bot_present v g c = Some bot" and
      lv: "line_verdict v uid chan line c g = (r, g1)" by fastforce
    note fr = line_verdict_frame [OF lv]
    show ?thesis
    proof (cases r)
      case None
      with step c k(1) True bot lv have "out = []" "g' = g1" by (auto simp: kicker_check_def)
      with quiet fr show ?thesis by simp
    next
      case (Some reason)
      with step c k(1) True bot lv have p: "punish v k bot uid chan reason g1 = (out, g')"
        by (auto simp: kicker_check_def)
      let ?g2 = "if k_warn k then on_chatter chan uid (\<lambda>s. s\<lparr>ch_warned := True\<rparr>) g1 else g1"
      show ?thesis
      proof (cases "k_warn k \<and> \<not> ch_warned (chatter_entry g1 chan uid)")
        case True
        with p fr small c host show ?thesis
          by (auto simp: punish_def Let_def escalated_def channel_rec_def)
      next
        case False
        obtain bans g3 where tb: "times_to_ban v k bot uid chan ?g2 = (bans, g3)" by force
        have s2: "ch_kicks (chatter_entry ?g2 chan uid) < k_ttb k" "host_of (g_network ?g2) uid = Some host"
          using small host fr by simp_all
        note eff = times_to_ban_effect [OF k(2,3) s2(2,1) tb]
        from p False tb have "out = bans @ [OnChannel (KickUser bot chan uid (Lit (reason_text reason)))]"
          "g' = bump_stat ''botserv.kick'' g3" by (auto simp: punish_def Let_def)
        with eff fr False c show ?thesis
          by (auto simp: escalated_def channel_rec_def)
      qed
    qed
  qed
qed

text \<open>However somebody offends in a channel with times-to-ban set, there is one ban for every so many
  kicks, and where warnings are on, exactly one warning before the first kick.\<close>

theorem kicks_escalate:
  assumes "channel_rec g chan = Some c" "0 < k_ttb (c_kickers c)" "k_ttb (c_kickers c) \<le> u16_max"
    and "host_of (g_network g) uid = Some host" "chatter_entry g chan uid = chatter_default"
  shows "number_of is_ban (fst (say_all uid chan ls g)) =
      number_of is_kick (fst (say_all uid chan ls g)) div k_ttb (c_kickers c) \<and>
    number_of is_warning (fst (say_all uid chan ls g)) \<le> (if k_warn (c_kickers c) then 1 else 0) \<and>
    (k_warn (c_kickers c) \<longrightarrow> 0 < number_of is_kick (fst (say_all uid chan ls g)) \<longrightarrow>
      number_of is_warning (fst (say_all uid chan ls g)) = 1)"
proof -
  have "escalated (c_kickers c) (chatter_entry g chan uid) (fst (say_all uid chan ls g))
      (chatter_entry (snd (say_all uid chan ls g)) chan uid)"
    if "channel_rec g chan = Some c" "host_of (g_network g) uid = Some host"
      "ch_kicks (chatter_entry g chan uid) < k_ttb (c_kickers c)" for g
    using that
  proof (induction ls arbitrary: g)
    case Nil
    then show ?case by (simp add: escalated_def)
  next
    case (Cons l ls)
    obtain v line where l: "l = (v, line)" by force
    obtain out g1 where s: "kicker_check v uid chan line g = (out, g1)" by force
    note one = kicker_check_escalates [OF Cons.prems(1) refl assms(2,3) Cons.prems(2,3) s]
    then have "ch_kicks (chatter_entry g1 chan uid) < k_ttb (c_kickers c)"
      using assms(2) by (simp add: escalated_def)
    then have "escalated (c_kickers c) (chatter_entry g chan uid) (out @ fst (say_all uid chan ls g1))
        (chatter_entry (snd (say_all uid chan ls g1)) chan uid)"
      using Cons.IH [of g1] one by (intro escalated_append [OF _ _ assms(2)]) auto
    then show ?case by (simp add: l s case_prod_unfold Let_def)
  qed
  from this [OF assms(1,4)] assms(2,5) show ?thesis
    by (auto simp: escalated_def chatter_default_def split: if_splits)
qed

subsection \<open>Votes\<close>

text \<open>Whom a vote line is about: the folded nick of the client it names.\<close>

definition vote_target :: "env \<Rightarrow> engine \<Rightarrow> string \<Rightarrow> string option" where
  "vote_target v g line =
     (case parse_vote line of None \<Rightarrow> None
      | Some (ban, nick) \<Rightarrow> map_option (\<lambda>t. key (case net_nick_of (g_network g) t of None \<Rightarrow> nick | Some n \<Rightarrow> n))
          (nick_uid v g nick))"

text \<open>Lines said on the network, with the time, the speaker, the folded channel and the target; whatever
  happens in between leaves the tallies alone, and the clock does not run backwards.\<close>

type_synonym said = "nat \<times> string \<times> string \<times> string option"

definition line_said :: "env \<Rightarrow> string \<Rightarrow> string \<Rightarrow> string \<Rightarrow> engine \<Rightarrow> said" where
  "line_said v uid chan line g = (ev_now v, uid, key chan, vote_target v g line)"

inductive vote_run :: "engine \<Rightarrow> said list \<Rightarrow> engine \<Rightarrow> bool" for g0 where
  Begin: "vote_run g0 [] g0"
| Meanwhile: "vote_run g0 tr g \<Longrightarrow> g_votes g' = g_votes g \<Longrightarrow> vote_run g0 tr g'"
| Line: "vote_run g0 tr g \<Longrightarrow> \<forall>e\<in>set tr. fst e \<le> ev_now v \<Longrightarrow>
    vote_run g0 (tr @ [line_said v uid chan line g]) (snd (handle_vote v uid chan line g))"

definition voted :: "said list \<Rightarrow> nat \<Rightarrow> string \<times> string \<Rightarrow> string \<Rightarrow> bool" where
  "voted tr since k u \<longleftrightarrow> (\<exists>t. since \<le> t \<and> (t, u, fst k, Some (snd k)) \<in> set tr)"

definition votes_ok :: "said list \<Rightarrow> (string \<times> string \<rightharpoonup> vote_state) \<Rightarrow> bool" where
  "votes_ok tr votes \<longleftrightarrow> (\<forall>k vs. votes k = Some vs \<longrightarrow>
     finite (vo_voters vs) \<and> vo_voters vs \<noteq> {} \<and> (\<forall>u\<in>vo_voters vs. voted tr (vo_started vs) k u))"

lemma votes_ok_mono: "votes_ok tr votes \<Longrightarrow> votes_ok (tr @ tr') votes"
  by (fastforce simp: votes_ok_def voted_def)

lemma votes_ok_sweep: "votes_ok tr votes \<Longrightarrow> votes_ok tr (sweep_votes now votes)"
  by (simp add: votes_ok_def sweep_votes_def split: option.splits)

lemma votes_ok_upd:
  "votes_ok tr votes \<Longrightarrow> finite (vo_voters vs) \<Longrightarrow> vo_voters vs \<noteq> {} \<Longrightarrow>
   (\<forall>u\<in>vo_voters vs. voted tr (vo_started vs) k u) \<Longrightarrow> votes_ok tr (votes(k \<mapsto> vs))"
  by (simp add: votes_ok_def)

lemma votes_ok_del: "votes_ok tr votes \<Longrightarrow> votes_ok tr (votes(k := None))"
  by (simp add: votes_ok_def)

lemma tally_facts:
  assumes "votes_ok tr votes" "\<forall>e\<in>set tr. fst e \<le> now"
  shows "finite (vo_voters (tally now ban k votes))"
    "\<forall>u\<in>vo_voters (tally now ban k votes). voted tr (vo_started (tally now ban k votes)) k u"
    "vo_started (tally now ban k votes) \<le> now"
proof -
  show "finite (vo_voters (tally now ban k votes))"
    "\<forall>u\<in>vo_voters (tally now ban k votes). voted tr (vo_started (tally now ban k votes)) k u"
    using assms(1) by (auto simp: votes_ok_def tally_def simp del: split_paired_All split: option.splits)
  show "vo_started (tally now ban k votes) \<le> now"
  proof (cases "votes k")
    case (Some vs)
    then have "vo_voters vs \<noteq> {}" "\<forall>u\<in>vo_voters vs. voted tr (vo_started vs) k u"
      using assms(1) unfolding votes_ok_def by blast+
    then obtain u where "voted tr (vo_started vs) k u" by blast
    then show ?thesis using assms(2) Some by (fastforce simp: voted_def tally_def)
  qed (simp add: tally_def)
qed

lemma bump_stat_votes [simp]: "g_votes (bump_stat s g) = g_votes g"
  by (simp add: bump_stat_def on_network_def)

text \<open>Where a vote is counted at all.\<close>

lemma handle_vote_cases:
  obtains (ignored) "snd (handle_vote v uid chan line g) = g"
      "\<forall>out. fst (handle_vote v uid chan line g) = Some out \<longrightarrow> number_of is_kick out = 0"
  | (counted) c ban botuid target display where
      "channel_rec g chan = Some c" "0 < k_votekick (c_kickers c)"
      "target \<in> channel_members (g_network g) chan" "\<not> unvotable v g chan target"
      "vote_target v g line = Some (key display)"
      "handle_vote v uid chan line g =
         count_vote v uid chan ban botuid target display (k_votekick (c_kickers c)) g"
proof (cases "parse_vote line")
  case None
  then show thesis by (intro ignored) (simp_all add: handle_vote_def)
next
  case (Some bn)
  obtain ban nick where bn: "bn = (ban, nick)" by force
  show thesis
  proof (cases "nick = [] \<or> CHR '' '' \<in> set nick")
    case True
    with Some bn show thesis by (intro ignored) (auto simp: handle_vote_def)
  next
    case nick: False
    show thesis
    proof (cases "channel_rec g chan")
      case None
      with Some bn nick show thesis by (intro ignored) (auto simp: handle_vote_def)
    next
      case (Some c)
      note c = this
      show thesis
      proof (cases "c_assigned_bot c = None \<or> k_votekick (c_kickers c) = 0 \<or> bot_present v g c = None \<or>
          nick_uid v g nick = None")
        case True
        with \<open>parse_vote line = Some bn\<close> bn nick c show thesis
          by (intro ignored) (auto simp: handle_vote_def split: option.splits)
      next
        case False
        then obtain botuid target where t: "bot_present v g c = Some botuid" "nick_uid v g nick = Some target"
          by auto
        let ?d = "case net_nick_of (g_network g) target of None \<Rightarrow> nick | Some n \<Rightarrow> n"
        show thesis
        proof (cases "target \<in> channel_members (g_network g) chan \<and> \<not> unvotable v g chan target")
          case True
          with \<open>parse_vote line = Some bn\<close> bn nick c False t show thesis
            by (intro counted [of c target ?d ban botuid])
              (auto simp: handle_vote_def vote_target_def Let_def)
        next
          case F: False
          with \<open>parse_vote line = Some bn\<close> bn nick c False t show thesis
            by (intro ignored) (auto simp: handle_vote_def Let_def)
        qed
      qed
    qed
  qed
qed

lemma vote_passed_kicks: "number_of is_kick (vote_passed b ch ban tgt d n g) = 1"
  by (simp add: vote_passed_def split: option.split bool.split)

lemma count_vote_effect:
  assumes ok: "votes_ok tr (g_votes g)" "\<forall>e\<in>set tr. fst e \<le> ev_now v"
    and this_line: "(ev_now v, uid, key chan, Some (key display)) \<in> set tr'"
    and cv: "count_vote v uid chan ban botuid tgt display threshold g = (out, g')"
  shows "votes_ok (tr @ tr') (g_votes g') \<and>
    (\<forall>acts. out = Some acts \<longrightarrow> 0 < number_of is_kick acts \<longrightarrow>
       (\<exists>V s. threshold \<le> card V \<and> ev_now v - s \<le> vote_ttl \<and>
          (\<forall>u\<in>V. voted (tr @ tr') s (key chan, key display) u)))"
proof -
  let ?k = "(key chan, key display)" and ?votes = "sweep_votes (ev_now v) (g_votes g)"
  let ?vs = "tally (ev_now v) ban ?k ?votes"
  have sw: "votes_ok tr ?votes" using ok(1) by (rule votes_ok_sweep)
  note tf = tally_facts [OF sw ok(2), of ban ?k]
  have old: "\<forall>u\<in>vo_voters ?vs. voted (tr @ tr') (vo_started ?vs) ?k u"
    using tf(2) by (fastforce simp: voted_def)
  have new: "voted (tr @ tr') (vo_started ?vs) ?k uid"
    using this_line tf(3) by (auto simp: voted_def)
  have young: "ev_now v - vo_started ?vs \<le> vote_ttl"
    by (auto simp: tally_def sweep_votes_def split: option.splits if_splits)
  have sw': "votes_ok (tr @ tr') ?votes" using sw by (rule votes_ok_mono)
  let ?V = "insert uid (vo_voters ?vs)"
  have all: "\<forall>u\<in>?V. voted (tr @ tr') (vo_started ?vs) ?k u" using old new by simp
  show ?thesis
  proof (cases "uid \<in> vo_voters ?vs")
    case True
    then have "out = None" "g_votes g' = ?votes(?k \<mapsto> ?vs)" using cv by (auto simp: count_vote_def Let_def)
    then show ?thesis using True old tf(1) by (auto intro!: votes_ok_upd [OF sw'] simp del: fun_upd_apply)
  next
    case False
    show ?thesis
    proof (cases "card ?V mod 2 ^ 16 < threshold")
      case True
      then have "number_of is_kick (the out) = 0" "g_votes g' = ?votes(?k \<mapsto> ?vs\<lparr>vo_voters := ?V\<rparr>)"
        using cv False by (auto simp: count_vote_def Let_def)
      then show ?thesis using all tf(1) by (auto intro!: votes_ok_upd [OF sw'] simp del: fun_upd_apply)
    next
      case F: False
      then have "threshold \<le> card ?V" by (meson leI mod_less_eq_dividend order_trans)
      moreover from F have "g_votes g' = ?votes(?k := None)" using cv False by (auto simp: count_vote_def Let_def)
      ultimately show ?thesis using all young votes_ok_del [OF sw', of ?k] by metis
    qed
  qed
qed

lemma vote_run_ok: "vote_run g0 tr g \<Longrightarrow> g_votes g0 = Map.empty \<Longrightarrow> votes_ok tr (g_votes g)"
proof (induction rule: vote_run.induct)
  case (Line tr g v uid chan line)
  show ?case
  proof (cases rule: handle_vote_cases [of v uid chan line g])
    case ignored
    then show ?thesis using Line votes_ok_mono by simp
  next
    case (counted c ban botuid target display)
    obtain out g' where cv: "handle_vote v uid chan line g = (out, g')" by force
    show ?thesis
      using count_vote_effect [OF Line.IH [OF Line.prems] Line.hyps(2) _ cv [unfolded counted(6)],
          of "[line_said v uid chan line g]"] counted(5) cv
      by (simp add: line_said_def)
  qed
qed (simp_all add: votes_ok_def)


subsection \<open>Word lists\<close>

definition filtered_channel :: "(string \<Rightarrow> bool) \<Rightarrow> nat \<Rightarrow> string \<Rightarrow> string \<Rightarrow> string \<Rightarrow> db \<Rightarrow> db" where
  "filtered_channel ok now chan who w d = snd (badword_add ok chan w (snd (register_channel now chan who d)))"

lemma filtered_channel_rec:
  assumes "writable (lg d)" "channels (st d) (key chan) = None" "ok w"
  obtains c where "writable (lg (filtered_channel ok now chan who w d))"
    "channels (st (filtered_channel ok now chan who w d)) (key chan) = Some c"
    "c_badwords c = [w]" "c_badwords_rev c = 1" "c_ts c = now"
  using assms
  by (simp add: filtered_channel_def register_channel_def badword_add_def write_badwords_def and_then_def
      logged_writable appended on_channel_def on_store_def modify_def new_channel_def)

text \<open>The compiled word list of a channel is kept under the list's revision and the second the
  channel was registered in: a channel dropped and registered anew within that second, with its list
  brought to the same revision, is judged by the list of its predecessor.\<close>

theorem predecessor_word_list:
  assumes "writable (lg d)" "channels (st d) (key chan) = None" "ok w1" "ok w2" "ev_set_compiles v [w1]"
    and "d1 = filtered_channel ok now chan who1 w1 d"
    and "d2 = filtered_channel ok now chan who2 w2 (snd (drop_channel chan d1))"
  shows "\<exists>c1 c2. channel_of d1 chan = Some c1 \<and> channel_of d2 chan = Some c2 \<and>
    c_badwords c1 = [w1] \<and> c_badwords c2 = [w2] \<and>
    (g_badword_cache g (key chan) = None \<longrightarrow>
       fst (badword_set v chan c2 ((snd (badword_set v chan c1 g))\<lparr>g_db := d2\<rparr>)) = [w1])"
proof -
  from filtered_channel_rec [where ok = ok and w = w1 and now = now and who = who1, OF assms(1,2,3), folded assms(6)]
  obtain c1 where c1: "writable (lg d1)" "channels (st d1) (key chan) = Some c1"
    "c_badwords c1 = [w1]" "c_badwords_rev c1 = 1" "c_ts c1 = now" by blast
  have "writable (lg (snd (drop_channel chan d1)))" "channels (st (snd (drop_channel chan d1))) (key chan) = None"
    using c1 by (simp_all add: drop_channel_def logged_writable appended on_store_def)
  from filtered_channel_rec [where ok = ok and w = w2 and now = now and who = who2, OF this assms(4), folded assms(7)]
  obtain c2 where c2: "channels (st d2) (key chan) = Some c2"
    "c_badwords c2 = [w2]" "c_badwords_rev c2 = 1" "c_ts c2 = now" by blast
  show ?thesis
    using c1 c2 assms(5) by (auto simp: channel_of_def badword_set_def build_badword_set_def Let_def)
qed

lemma words_off_step:
  assumes "channel_rec g chan = Some c" "\<not> ev_set_compiles v (c_badwords c)"
    "c_kickers c = kicker_settings_default\<lparr>k_badwords := True\<rparr>"
    "\<forall>cb. g_badword_cache g (key chan) = Some cb \<longrightarrow> cb_rev cb = c_badwords_rev c \<longrightarrow> cb_ts cb = c_ts c \<longrightarrow> cb_set cb = []"
    "kicker_check v uid chan line g = (out, g')"
  shows "out = [] \<and> channel_rec g' chan = Some c \<and>
    (\<forall>cb. g_badword_cache g' (key chan) = Some cb \<longrightarrow> cb_rev cb = c_badwords_rev c \<longrightarrow> cb_ts cb = c_ts c \<longrightarrow> cb_set cb = [])"
  using assms
  by (auto simp: kicker_check_def line_verdict_def badword_verdict_def badword_set_def build_badword_set_def
      violation_def kicker_settings_default_def counted_verdict_def channel_rec_def Let_def
      split: option.splits if_splits)

text \<open>When the patterns of a word list cannot be compiled together, though each was accepted on its
  own, the word kicker of the channel is silently off: no line is kicked for its words.\<close>

theorem words_off_together:
  assumes "channel_rec g chan = Some c" "\<forall>(v, line)\<in>set ls. \<not> ev_set_compiles v (c_badwords c)"
    "c_kickers c = kicker_settings_default\<lparr>k_badwords := True\<rparr>" "g_badword_cache g (key chan) = None"
  shows "fst (say_all uid chan ls g) = []"
proof -
  have "fst (say_all uid chan ls g) = []"
    if "channel_rec g chan = Some c"
      "\<forall>cb. g_badword_cache g (key chan) = Some cb \<longrightarrow> cb_rev cb = c_badwords_rev c \<longrightarrow> cb_ts cb = c_ts c \<longrightarrow> cb_set cb = []" for g
    using that assms(2)
  proof (induction ls arbitrary: g)
    case (Cons l ls)
    obtain v line where l: "l = (v, line)" by force
    obtain out g1 where s: "kicker_check v uid chan line g = (out, g1)" by force
    have "\<not> ev_set_compiles v (c_badwords c)" using Cons.prems(3) l by simp
    from words_off_step [OF Cons.prems(1) this assms(3) Cons.prems(2) s] Cons.IH [of g1] Cons.prems(3)
    show ?case by (simp add: l s case_prod_unfold Let_def)
  qed simp
  then show ?thesis using assms(1,4) by simp
qed

subsection \<open>A channel with a bot\<close>

definition bot_env :: env where
  "bot_env = plain_env\<lparr>ev_order := (\<lambda>S. filter (\<lambda>k. k \<in> S) [''U1'', ''U2'']), ev_set_compiles := (\<lambda>ps. length ps \<le> 1)\<rparr>"

definition bot_channel :: "kicker_settings \<Rightarrow> string list \<Rightarrow> channel_info" where
  "bot_channel k ws = (new_channel ''#c'' ''al'' 7)\<lparr>c_kickers := k, c_badwords := ws, c_assigned_bot := Some ''bot''\<rparr>"

definition bot_user :: "string \<Rightarrow> string \<Rightarrow> user" where
  "bot_user uid nick = \<lparr>u_uid = uid, u_nick = nick, u_ident = ''i'', u_host = ''h'', u_realhost = [],
     u_ip = ''1'', u_gecos = [], u_fingerprint = [], u_oper = [], u_umodes = {}\<rparr>"

definition bot_network :: network where
  "bot_network = network_empty\<lparr>w_users := [''U1'' \<mapsto> bot_user ''U1'' ''eve'', ''U2'' \<mapsto> bot_user ''U2'' ''bob''],
     w_bots := [''bot'' \<mapsto> ''B1''],
     w_channels := [''#c'' \<mapsto> live_channel_default\<lparr>lc_members := {''U1'', ''U2''}\<rparr>]\<rparr>"

definition bot_engine :: "kicker_settings \<Rightarrow> string list \<Rightarrow> engine" where
  "bot_engine k ws = (engine_new [] ((db_open [] ''n'')\<lparr>st := store_empty\<lparr>channels := [''#c'' \<mapsto> bot_channel k ws]\<rparr>\<rparr>))
     \<lparr>g_network := bot_network\<rparr>"

lemma key_c: "key ''#c'' = ''#c''" and key_bot: "key ''bot'' = ''bot''" and key_eve: "key ''eve'' = ''eve''"
  and key_bob: "key ''bob'' = ''bob''"
  by (simp_all add: key_def ascii_simps)

lemma bot_engine_facts:
  "channel_rec (bot_engine k ws) ''#c'' = Some (bot_channel k ws)" "g_network (bot_engine k ws) = bot_network"
  "g_votes (bot_engine k ws) = Map.empty" "g_badword_cache (bot_engine k ws) = Map.empty"
  "chatter_entry (bot_engine k ws) ''#c'' ''U1'' = chatter_default" "g_bot_uids (bot_engine k ws) = Map.empty"
  by (simp_all add: bot_engine_def engine_new_def channel_rec_def channel_of_def chatter_entry_def key_c store_empty_def)

lemma bot_channel_kickers [simp]:
  "c_kickers (bot_channel k ws) = k" "c_badwords (bot_channel k ws) = ws" "c_assigned_bot (bot_channel k ws) = Some ''bot''"
  by (simp_all add: bot_channel_def)

theorem kicks_escalate_witness:
  "number_of is_ban (fst (say_all ''U1'' ''#c'' [(bot_env, [CHR 0x02])]
      (bot_engine (kicker_settings_default\<lparr>k_bolds := True, k_ttb := 1\<rparr>) []))) =
   number_of is_kick (fst (say_all ''U1'' ''#c'' [(bot_env, [CHR 0x02])]
      (bot_engine (kicker_settings_default\<lparr>k_bolds := True, k_ttb := 1\<rparr>) [])))"
  using kicks_escalate [of "bot_engine (kicker_settings_default\<lparr>k_bolds := True, k_ttb := 1\<rparr>) []" "''#c''"
      "bot_channel (kicker_settings_default\<lparr>k_bolds := True, k_ttb := 1\<rparr>) []" "''U1''" "''h''" "[(bot_env, [CHR 0x02])]"]
  by (simp add: bot_engine_facts bot_network_def bot_user_def host_of_def u16_max_def del: say_all.simps)

theorem words_off_together_witness:
  "fst (say_all ''U1'' ''#c'' [(bot_env, ''a''), (bot_env, ''b'')]
     (bot_engine (kicker_settings_default\<lparr>k_badwords := True\<rparr>) [''a'', ''b''])) = []"
  by (rule words_off_together [of _ _ "bot_channel (kicker_settings_default\<lparr>k_badwords := True\<rparr>) [''a'', ''b'']"])
    (simp_all add: bot_engine_facts bot_env_def plain_env_def)

definition vote_engine :: engine where
  "vote_engine = bot_engine (kicker_settings_default\<lparr>k_votekick := 1\<rparr>) []"

lemma vote_facts:
  "parse_vote ''!votekick bob'' = Some (False, ''bob'')"
  "nick_uid bot_env vote_engine ''bot'' = Some ''B1''" "nick_uid bot_env vote_engine ''bob'' = Some ''U2''"
  "\<not> unvotable bot_env vote_engine ''#c'' ''U2''" "channel_members bot_network ''#c'' = {''U1'', ''U2''}"
  "net_nick_of bot_network ''U2'' = Some ''bob''"
proof -
  show "parse_vote ''!votekick bob'' = Some (False, ''bob'')"
    by (simp add: parse_vote_def strip_prefix_def trim_def is_whitespace_def ascii_simps)
  have n: "g_network vote_engine = bot_network" "g_bot_uids vote_engine = Map.empty"
    by (simp_all add: vote_engine_def bot_engine_facts)
  have w: "walk_users bot_env vote_engine = [''U1'', ''U2'']"
    by (simp add: walk_users_def bot_env_def plain_env_def n bot_network_def)
  show "nick_uid bot_env vote_engine ''bot'' = Some ''B1''" "nick_uid bot_env vote_engine ''bob'' = Some ''U2''"
    by (simp_all add: nick_uid_def w uid_by_nick_def n bot_network_def bot_user_def
        eq_ignore_ascii_case_def key_bot key_eve key_bob)
  show "\<not> unvotable bot_env vote_engine ''#c'' ''U2''"
    by (simp add: unvotable_def is_bot_uid_def login_of_def net_account_of_def n
        bot_network_def network_empty_def bot_env_def plain_env_def)
  show "channel_members bot_network ''#c'' = {''U1'', ''U2''}" "net_nick_of bot_network ''U2'' = Some ''bob''"
    by (simp_all add: channel_members_def bot_network_def key_c live_channel_default_def net_nick_of_def bot_user_def)
qed

lemma bot_vote:
  "handle_vote bot_env ''U1'' ''#c'' ''!votekick bob'' vote_engine =
   count_vote bot_env ''U1'' ''#c'' False ''B1'' ''U2'' ''bob'' 1 vote_engine"
  using vote_facts bot_engine_facts(1,2) [of "kicker_settings_default\<lparr>k_votekick := 1\<rparr>" "[]", folded vote_engine_def]
  by (simp add: handle_vote_def bot_present_def)


theorem predecessor_word_list_witness:
  "\<exists>c2. channel_of (filtered_channel (\<lambda>_. True) 9 ''#x'' ''al'' ''b'' (snd (drop_channel ''#x''
       (filtered_channel (\<lambda>_. True) 9 ''#x'' ''al'' ''a'' example_db)))) ''#x'' = Some c2 \<and> c_badwords c2 = [''b'']"
proof -
  have "ev_set_compiles bot_env [''a'']" "channels (st example_db) (key ''#x'') = None"
    by (simp_all add: bot_env_def plain_env_def example_db_st store_empty_def)
  from predecessor_word_list [OF example_db_lg(1) this(2) TrueI TrueI this(1) refl refl] show ?thesis by blast
qed

end
