(* ===== verification/Bots.thy ===== *)
theory Bots
  imports Engine
begin

text \<open>
  The bots of BotServ on the network (src/src/engine/mod.rs): \<^verbatim>\<open>reconcile_bots\<close>, which introduces, quits,
  joins and parts them until they match the registry, and what happens when a member leaves a
  channel. What it achieves is stated in \<open>reconcile_settles\<close>.
\<close>

subsection \<open>The operations\<close>

definition bot_ident :: "env \<Rightarrow> bot \<Rightarrow> nat" where
  "bot_ident v b = ev_hash v [b_user b, b_host b, b_gecos b]"

definition bot_uid :: "string \<Rightarrow> nat \<Rightarrow> string" where
  "bot_uid sid i = sid @ ''B'' @ replicate (5 - length (show_nat i)) (CHR ''0'') @ show_nat i"

definition drop_memberships :: "string \<Rightarrow> engine \<Rightarrow> engine" where
  "drop_memberships k g = g\<lparr>g_bot_channels := {bc \<in> g_bot_channels g. fst bc \<noteq> k}\<rparr>"

definition quit_changed :: "env \<Rightarrow> bot \<Rightarrow> step" where
  "quit_changed v b g =
     (let k = key (b_nick b) in
      case g_bot_uids g k of
        None \<Rightarrow> ([], g)
      | Some uid \<Rightarrow>
          if g_bot_idents g k = Some (bot_ident v b) then ([], g)
          else ([OnUser (QuitUser uid (Lit ''Bot changed''))],
                drop_memberships k (on_network (bot_forget k) (g\<lparr>g_bot_uids := (g_bot_uids g)(k := None)\<rparr>))))"

definition introduce_missing :: "env \<Rightarrow> bot \<Rightarrow> step" where
  "introduce_missing v b g =
     (let k = key (b_nick b); uid = bot_uid (g_sid g) (g_next_bot_index g) in
      if g_bot_uids g k \<noteq> None then ([], g)
      else ([OnUser (IntroduceUser uid (b_nick b) (b_user b) (b_host b) (b_gecos b))],
            on_network (bot_connect (b_nick b) uid)
              (g\<lparr>g_next_bot_index := g_next_bot_index g + 1,
                 g_bot_uids := (g_bot_uids g)(k \<mapsto> uid),
                 g_bot_idents := (g_bot_idents g)(k \<mapsto> bot_ident v b)\<rparr>)))"

definition present_bot :: "env \<Rightarrow> bot \<Rightarrow> step" where
  "present_bot v b = and_also (quit_changed v b) (introduce_missing v b)"

definition quit_removed :: "string \<Rightarrow> step" where
  "quit_removed k g =
     ((case g_bot_uids g k of None \<Rightarrow> [] | Some uid \<Rightarrow> [OnUser (QuitUser uid (Lit ''Bot removed''))]),
      drop_memberships k (on_network (bot_forget k)
        (g\<lparr>g_bot_uids := (g_bot_uids g)(k := None), g_bot_idents := (g_bot_idents g)(k := None)\<rparr>)))"

definition registered_bots :: "env \<Rightarrow> engine \<Rightarrow> bot list" where
  "registered_bots v g = values_of (ev_order v (dom (bots (st (g_db g))))) (bots (st (g_db g)))"

definition desired_memberships :: "env \<Rightarrow> engine \<Rightarrow> (string \<times> string) set" where
  "desired_memberships v g =
     set (List.map_filter (\<lambda>c. case c_assigned_bot c of None \<Rightarrow> None
            | Some b \<Rightarrow> if g_bot_uids g (key b) = None then None else Some (key b, c_name c))
       (values_of (ev_order v (dom (channels (st (g_db g))))) (channels (st (g_db g)))))"

definition join_desired :: "string \<times> string \<Rightarrow> step" where
  "join_desired bc g =
     (if bc \<in> g_bot_channels g then ([], g)
      else case g_bot_uids g (fst bc) of
        None \<Rightarrow> ([], g)
      | Some uid \<Rightarrow>
          (OnChannel (ServiceJoin uid (snd bc) ''ao'') #
           (case channel_rec g (snd bc) of
              None \<Rightarrow> []
            | Some c \<Rightarrow> if lock_modes c = [] then []
                else [OnChannel (ChannelMode (channel_mode_source g (snd bc)) (snd bc) (lock_modes c))]),
           g\<lparr>g_bot_channels := insert bc (g_bot_channels g)\<rparr>))"

definition part_unassigned :: "string \<times> string \<Rightarrow> step" where
  "part_unassigned bc g =
     ((case g_bot_uids g (fst bc) of None \<Rightarrow> [] | Some uid \<Rightarrow> [OnChannel (ServicePart uid (snd bc))]),
      g\<lparr>g_bot_channels := g_bot_channels g - {bc}\<rparr>)"

definition reconcile_bots :: "env \<Rightarrow> step" where
  "reconcile_bots v g =
     (let live = registered_bots v g;
          (a1, g1) = each (present_bot v) live g;
          removed = filter (\<lambda>k. k \<notin> key ` b_nick ` set live) (ev_order v (dom (g_bot_uids g1)));
          (a2, g2) = each quit_removed removed g1;
          desired = desired_memberships v g2;
          (a3, g3) = each join_desired (ev_pairs v desired) g2;
          (a4, g4) = each part_unassigned (ev_pairs v (g_bot_channels g3 - desired)) g3
      in (a1 @ a2 @ a3 @ a4, g4))"

text \<open>A channel without members and without a bot is forgotten.\<close>

definition prune_channel_if_gone :: "env \<Rightarrow> string \<Rightarrow> engine \<Rightarrow> engine" where
  "prune_channel_if_gone v chan g =
     (if ev_order v (channel_members (g_network g) chan) \<noteq> [] \<or>
         list_ex (\<lambda>bc. eq_ignore_ascii_case (snd bc) chan) (ev_pairs v (g_bot_channels g))
      then g else on_network (remove_channel chan) g)"

definition bot_of_uid :: "env \<Rightarrow> engine \<Rightarrow> string \<Rightarrow> string option" where
  "bot_of_uid v g uid = find (\<lambda>k. g_bot_uids g k = Some uid) (ev_order v (dom (g_bot_uids g)))"

definition member_left :: "env \<Rightarrow> string \<Rightarrow> string \<Rightarrow> step" where
  "member_left v chan uid g =
     (let g1 = on_network (channel_part (seen_order_of v g uid) (ev_now v) chan uid) g;
          g2 = forget_chatter v chan uid (prune_channel_if_gone v chan g1)
      in case bot_of_uid v g2 uid of
           Some b \<Rightarrow> if (b, chan) \<in> g_bot_channels g2
             then reconcile_bots v (g2\<lparr>g_bot_channels := g_bot_channels g2 - {(b, chan)}\<rparr>)
             else ([], g2)
         | None \<Rightarrow> ([], g2))"

subsection \<open>Reconciling\<close>

lemma and_also_snd [simp]: "snd (and_also f h g) = snd (h (snd (f g)))"
  and and_also_fst [simp]: "fst (and_also f h g) = fst (f g) @ fst (h (snd (f g)))"
  by (simp_all add: and_also_def case_prod_beta)

lemma on_network_frame [simp]:
  "g_db (on_network f g) = g_db g" "g_bot_uids (on_network f g) = g_bot_uids g"
  "g_bot_idents (on_network f g) = g_bot_idents g" "g_bot_channels (on_network f g) = g_bot_channels g"
  "g_network (on_network f g) = f (g_network g)"
  by (simp_all add: on_network_def)

lemma drop_memberships_frame [simp]:
  "g_db (drop_memberships k g) = g_db g" "g_bot_uids (drop_memberships k g) = g_bot_uids g"
  "g_bot_idents (drop_memberships k g) = g_bot_idents g" "g_network (drop_memberships k g) = g_network g"
  "g_bot_channels (drop_memberships k g) = {bc \<in> g_bot_channels g. fst bc \<noteq> k}"
  by (simp_all add: drop_memberships_def)

text \<open>The network knows the live bots by the uids they were introduced with.\<close>

definition bots_synced :: "engine \<Rightarrow> bool" where
  "bots_synced g \<longleftrightarrow> w_bots (g_network g) = g_bot_uids g"

definition bot_present_as :: "env \<Rightarrow> engine \<Rightarrow> bot \<Rightarrow> bool" where
  "bot_present_as v g b \<longleftrightarrow>
     g_bot_uids g (key (b_nick b)) \<noteq> None \<and> g_bot_idents g (key (b_nick b)) = Some (bot_ident v b)"

lemma present_bot_done: "bot_present_as v g b \<Longrightarrow> present_bot v b g = ([], g)"
  by (auto simp: bot_present_as_def present_bot_def and_also_def quit_changed_def introduce_missing_def Let_def)

lemma present_bot_effect:
  fixes v g b defines "g' \<equiv> snd (present_bot v b g)"
  shows "bot_present_as v g' b" "j \<noteq> key (b_nick b) \<Longrightarrow> g_bot_uids g' j = g_bot_uids g j"
    "j \<noteq> key (b_nick b) \<Longrightarrow> g_bot_idents g' j = g_bot_idents g j" "g_db g' = g_db g"
    "bots_synced g \<Longrightarrow> bots_synced g'" "g_bot_channels g' \<subseteq> g_bot_channels g"
    "finite (dom (g_bot_uids g)) \<Longrightarrow> finite (dom (g_bot_uids g'))"
  unfolding g'_def bot_present_as_def bots_synced_def
  by (auto simp: present_bot_def quit_changed_def introduce_missing_def bot_forget_def bot_connect_def
      Let_def split: option.splits if_splits)

lemma bot_present_as_frame:
  "g_bot_uids g' (key (b_nick b)) = g_bot_uids g (key (b_nick b)) \<Longrightarrow>
   g_bot_idents g' (key (b_nick b)) = g_bot_idents g (key (b_nick b)) \<Longrightarrow>
   bot_present_as v g' b = bot_present_as v g b"
  by (simp add: bot_present_as_def)

lemma each_present:
  assumes "distinct (map (\<lambda>b. key (b_nick b)) bs)"
  shows "(\<forall>b\<in>set bs. bot_present_as v (snd (each (present_bot v) bs g)) b) \<and>
    (\<forall>j. j \<notin> key ` b_nick ` set bs \<longrightarrow> g_bot_uids (snd (each (present_bot v) bs g)) j = g_bot_uids g j \<and>
       g_bot_idents (snd (each (present_bot v) bs g)) j = g_bot_idents g j) \<and>
    g_db (snd (each (present_bot v) bs g)) = g_db g \<and>
    (bots_synced g \<longrightarrow> bots_synced (snd (each (present_bot v) bs g))) \<and>
    g_bot_channels (snd (each (present_bot v) bs g)) \<subseteq> g_bot_channels g \<and>
    (finite (dom (g_bot_uids g)) \<longrightarrow> finite (dom (g_bot_uids (snd (each (present_bot v) bs g)))))"
  using assms
proof (induction bs arbitrary: g)
  case (Cons b bs)
  let ?g = "snd (present_bot v b g)"
  note eff = present_bot_effect [where v = v and b = b and g = g]
  have dist: "distinct (map (\<lambda>b. key (b_nick b)) bs)" and new: "key (b_nick b) \<notin> key ` b_nick ` set bs"
    using Cons.prems by (auto simp: image_image)
  note IH = Cons.IH [OF dist, of ?g]
  have b: "bot_present_as v (snd (each (present_bot v) bs ?g)) b"
    using bot_present_as_frame [of "snd (each (present_bot v) bs ?g)" b ?g v] IH new eff(1) by simp
  show ?case using IH b eff(2-7) by (auto simp: subset_iff)
qed simp

lemma each_quit_removed:
  shows "g_bot_uids (snd (each quit_removed ks g)) = (\<lambda>k. if k \<in> set ks then None else g_bot_uids g k) \<and>
    g_bot_idents (snd (each quit_removed ks g)) = (\<lambda>k. if k \<in> set ks then None else g_bot_idents g k) \<and>
    g_db (snd (each quit_removed ks g)) = g_db g \<and>
    (bots_synced g \<longrightarrow> bots_synced (snd (each quit_removed ks g))) \<and>
    g_bot_channels (snd (each quit_removed ks g)) = {bc \<in> g_bot_channels g. fst bc \<notin> set ks}"
  by (induction ks arbitrary: g) (auto simp: quit_removed_def bots_synced_def bot_forget_def fun_eq_iff)

lemma each_join:
  assumes "\<forall>bc\<in>set ps. g_bot_uids g (fst bc) \<noteq> None"
  shows "g_bot_channels (snd (each join_desired ps g)) = g_bot_channels g \<union> set ps \<and>
    g_bot_uids (snd (each join_desired ps g)) = g_bot_uids g \<and>
    g_bot_idents (snd (each join_desired ps g)) = g_bot_idents g \<and>
    g_db (snd (each join_desired ps g)) = g_db g \<and> g_network (snd (each join_desired ps g)) = g_network g"
  using assms
  by (induction ps arbitrary: g) (auto simp: join_desired_def split: option.splits)

lemma each_part:
  "g_bot_channels (snd (each part_unassigned ps g)) = g_bot_channels g - set ps \<and>
    g_bot_uids (snd (each part_unassigned ps g)) = g_bot_uids g \<and>
    g_bot_idents (snd (each part_unassigned ps g)) = g_bot_idents g \<and>
    g_db (snd (each part_unassigned ps g)) = g_db g \<and> g_network (snd (each part_unassigned ps g)) = g_network g"
  by (induction ps arbitrary: g) (auto simp: part_unassigned_def)

lemma each_idle: "(\<And>x. x \<in> set xs \<Longrightarrow> f x g = ([], g)) \<Longrightarrow> each f xs g = ([], g)"
  by (induction xs) (simp_all add: and_also_def)

lemma desired_cong:
  "g_db g' = g_db g \<Longrightarrow> g_bot_uids g' = g_bot_uids g \<Longrightarrow> desired_memberships v g' = desired_memberships v g"
  by (simp add: desired_memberships_def cong: if_cong option.case_cong)

lemma desired_live: "bc \<in> desired_memberships v g \<Longrightarrow> g_bot_uids g (fst bc) \<noteq> None"
  by (auto simp: desired_memberships_def List.map_filter_def split: option.splits if_splits)

lemma registered_bots_set:
  assumes "orders_ok v" "finite (dom (bots (st (g_db g))))" "keyed_by b_nick (bots (st (g_db g)))"
  shows "key ` b_nick ` set (registered_bots v g) = dom (bots (st (g_db g)))"
    "distinct (map (\<lambda>b. key (b_nick b)) (registered_bots v g))"
proof -
  have o: "distinct (ev_order v (dom (bots (st (g_db g)))))" "set (ev_order v (dom (bots (st (g_db g))))) = dom (bots (st (g_db g)))"
    using assms(1,2) by (auto simp: orders_ok_def)
  have k: "\<forall>k b. bots (st (g_db g)) k = Some b \<longrightarrow> key (b_nick b) = k" using assms(3) by (simp add: keyed_by_def)
  show "key ` b_nick ` set (registered_bots v g) = dom (bots (st (g_db g)))"
    using k o(2) by (force simp: registered_bots_def set_values_of image_iff)
  show "distinct (map (\<lambda>b. key (b_nick b)) (registered_bots v g))"
    using distinct_values_of [OF k] o(1) by (simp add: registered_bots_def)
qed

lemma registered_bots_cong: "g_db g' = g_db g \<Longrightarrow> registered_bots v g' = registered_bots v g"
  by (simp add: registered_bots_def)

lemma reconcile_effect:
  assumes o: "orders_ok v" and reg: "finite (dom (bots (st (g_db g))))" "keyed_by b_nick (bots (st (g_db g)))"
    and fin: "finite (dom (g_bot_uids g))" "finite (g_bot_channels g)"
  defines "g' \<equiv> snd (reconcile_bots v g)"
  shows "g_db g' = g_db g" "\<forall>b\<in>set (registered_bots v g). bot_present_as v g' b"
    "dom (g_bot_uids g') = dom (bots (st (g_db g)))" "g_bot_channels g' = desired_memberships v g'"
    "bots_synced g \<Longrightarrow> bots_synced g'"
proof -
  define live where "live = registered_bots v g"
  define g1 where "g1 = snd (each (present_bot v) live g)"
  define gone where "gone = filter (\<lambda>k. k \<notin> key ` b_nick ` set live) (ev_order v (dom (g_bot_uids g1)))"
  define g2 where "g2 = snd (each quit_removed gone g1)"
  define want where "want = desired_memberships v g2"
  define g3 where "g3 = snd (each join_desired (ev_pairs v want) g2)"
  define extra where "extra = ev_pairs v (g_bot_channels g3 - want)"
  note reg_live = registered_bots_set [OF o reg, folded live_def]
  note e1 = each_present [OF reg_live(2), where v = v and g = g, folded g1_def]
  note e2 = each_quit_removed [of gone g1, folded g2_def]
  have fin1: "finite (dom (g_bot_uids g1))" "finite (g_bot_channels g1)"
    using e1 fin finite_subset by blast+
  have gone: "set gone = dom (g_bot_uids g1) - key ` b_nick ` set live"
    using o fin1(1) by (auto simp: gone_def orders_ok_def)
  have fin_want: "finite want" by (simp add: want_def desired_memberships_def)
  then have want_set: "set (ev_pairs v want) = want" using o by (simp add: orders_ok_def)
  have "\<forall>bc\<in>set (ev_pairs v want). g_bot_uids g2 (fst bc) \<noteq> None"
    using desired_live want_set unfolding want_def by blast
  note e3 = each_join [OF this, folded g3_def]
  have "finite (g_bot_channels g3 - want)" using e3 e2 fin1(2) fin_want want_set by simp
  then have extra: "set extra = g_bot_channels g3 - want" using o by (simp add: orders_ok_def extra_def)
  note e4 = each_part [of extra g3]
  have g': "g' = snd (each part_unassigned extra g3)"
    by (simp add: g'_def reconcile_bots_def Let_def case_prod_unfold live_def g1_def gone_def g2_def want_def g3_def extra_def)
  have uids2: "g_bot_uids g2 k = (if k \<in> key ` b_nick ` set live then g_bot_uids g1 k else None)"
    "k \<in> key ` b_nick ` set live \<Longrightarrow> g_bot_idents g2 k = g_bot_idents g1 k" for k
    using e2 gone by (auto simp: dom_def)
  have same: "g_bot_uids g' = g_bot_uids g2" "g_bot_idents g' = g_bot_idents g2" "g_db g' = g_db g2"
    "g_network g' = g_network g2"
    using e3 e4 unfolding g' by metis+
  show db: "g_db g' = g_db g" using same(3) e2 e1 by simp
  show present: "\<forall>b\<in>set (registered_bots v g). bot_present_as v g' b"
  proof
    fix b assume "b \<in> set (registered_bots v g)" then have b: "b \<in> set live" by (simp add: live_def)
    from b have "key (b_nick b) \<in> key ` b_nick ` set live" by blast
    then have "bot_present_as v g' b = bot_present_as v g1 b"
      using uids2 same(1,2) by (intro bot_present_as_frame) simp_all
    then show "bot_present_as v g' b" using e1 b by blast
  qed
  then have "\<forall>k\<in>key ` b_nick ` set live. g_bot_uids g' k \<noteq> None" by (auto simp: bot_present_as_def live_def)
  then have "g_bot_uids g' k \<noteq> None \<longleftrightarrow> k \<in> key ` b_nick ` set live" for k
    using uids2(1) [of k] same(1) by metis
  then show "dom (g_bot_uids g') = dom (bots (st (g_db g)))"
    using reg_live(1) by (auto simp: dom_def)
  have "g_bot_channels g' = want" using e3 e4 extra want_set unfolding g' by auto
  also have "want = desired_memberships v g'" unfolding want_def using same by (intro desired_cong [symmetric]) simp_all
  finally show "g_bot_channels g' = desired_memberships v g'" .
  show "bots_synced g \<Longrightarrow> bots_synced g'"
    using e1 e2 same(1,4) by (simp add: bots_synced_def)
qed

text \<open>After a reconciliation the bots on the network are those of the registry, each with the identity
  it has there, they sit in exactly the channels they are assigned to, the network knows them by their
  uids, and a second reconciliation has nothing to do.\<close>

theorem reconcile_settles:
  assumes "orders_ok v" "finite (dom (bots (st (g_db g))))" "keyed_by b_nick (bots (st (g_db g)))"
    and "finite (dom (g_bot_uids g))" "finite (g_bot_channels g)" "bots_synced g"
    and "g' = snd (reconcile_bots v g)"
  shows "dom (g_bot_uids g') = dom (bots (st (g_db g))) \<and> w_bots (g_network g') = g_bot_uids g' \<and>
    (\<forall>k b. bots (st (g_db g)) k = Some b \<longrightarrow> g_bot_idents g' k = Some (bot_ident v b)) \<and>
    g_bot_channels g' = desired_memberships v g' \<and> reconcile_bots v g' = ([], g')"
proof -
  note e = reconcile_effect [OF assms(1-5), folded assms(7)]
  have k: "\<forall>k b. bots (st (g_db g)) k = Some b \<longrightarrow> key (b_nick b) = k" using assms(3) by (simp add: keyed_by_def)
  have order: "set (ev_order v (dom (bots (st (g_db g))))) = dom (bots (st (g_db g)))"
    using assms(1,2) by (simp add: orders_ok_def)
  have reg: "b \<in> set (registered_bots v g)" if "bots (st (g_db g)) k = Some b" for k b
    using that order by (auto simp: registered_bots_def set_values_of intro!: bexI [of _ k])
  have live: "registered_bots v g' = registered_bots v g" using e(1) by (rule registered_bots_cong)
  have fin: "finite (dom (g_bot_uids g'))" "finite (g_bot_channels g')"
    using e(3,4) assms(2) by (simp_all add: desired_memberships_def)
  have p: "each (present_bot v) (registered_bots v g') g' = ([], g')"
    using e(2) live by (intro each_idle present_bot_done) simp
  have r: "filter (\<lambda>k. k \<notin> key ` b_nick ` set (registered_bots v g')) (ev_order v (dom (g_bot_uids g'))) = []"
    using assms(1) fin(1) live e(3) registered_bots_set(1) [OF assms(1-3)] by (auto simp: orders_ok_def filter_empty_conv)
  have d: "set (ev_pairs v (desired_memberships v g')) = g_bot_channels g'" "ev_pairs v {} = []"
    using assms(1) fin(2) e(4) by (auto simp: orders_ok_def)
  have j: "each join_desired (ev_pairs v (desired_memberships v g')) g' = ([], g')"
    using d(1) by (intro each_idle) (simp add: join_desired_def)
  have "reconcile_bots v g' = ([], g')"
    using e(4) d(2) by (simp add: reconcile_bots_def p r j Let_def)
  moreover have "g_bot_idents g' k = Some (bot_ident v b)" if "bots (st (g_db g)) k = Some b" for k b
    using e(2) reg [OF that] k that by (auto simp: bot_present_as_def)
  ultimately show ?thesis using e(3,4) e(5) [OF assms(6)] by (auto simp: bots_synced_def)
qed

definition tidy_engine :: engine where
  "tidy_engine = engine_new [] ((db_open [] ''n'')\<lparr>st := store_empty
     \<lparr>bots := [''bot'' \<mapsto> \<lparr>b_nick = ''Bot'', b_user = ''u'', b_host = ''h'', b_gecos = ''g'', b_private = False\<rparr>],
      channels := [''#c'' \<mapsto> (new_channel ''#c'' ''al'' 7)\<lparr>c_assigned_bot := Some ''BOT''\<rparr>]\<rparr>\<rparr>)"

theorem reconcile_settles_witness:
  "let g' = snd (reconcile_bots plain_env tidy_engine) in
   dom (g_bot_uids g') = {''bot''} \<and> g_bot_channels g' = desired_memberships plain_env g' \<and>
   reconcile_bots plain_env g' = ([], g')"
proof -
  have k: "key ''Bot'' = ''bot''" by (simp add: key_def ascii_simps)
  have b: "bots (st (g_db tidy_engine)) =
      [''bot'' \<mapsto> \<lparr>b_nick = ''Bot'', b_user = ''u'', b_host = ''h'', b_gecos = ''g'', b_private = False\<rparr>]"
    and u: "g_bot_uids tidy_engine = Map.empty" and c: "g_bot_channels tidy_engine = {}"
    by (simp_all add: tidy_engine_def engine_new_def)
  have "w_bots (g_network tidy_engine) = Map.empty"
    by (simp add: tidy_engine_def engine_new_def seed_incidents_def seed_chan_activity_def seed_stats_def network_empty_def)
  then have s: "bots_synced tidy_engine" by (simp add: bots_synced_def u)
  have "keyed_by b_nick (bots (st (g_db tidy_engine)))" by (simp add: keyed_by_def b k)
  moreover have "orders_ok plain_env" by (simp add: orders_ok_def plain_env_def)
  ultimately show ?thesis
    using reconcile_settles [OF _ _ _ _ _ s refl, of plain_env] by (simp add: b u c Let_def)
qed

end
