(* ===== verification/Sessions.thy ===== *)
theory Sessions
  imports Bots Kicker
begin

text \<open>
  Sessions and what ends them (src/src/engine/mod.rs, api/src/lib.rs): logging a client out, cleaning
  up after an account that is gone, nick protection, the sweeps that run on a timer, entries arriving
  from a peer, and the common tail of the event handler.
\<close>

subsection \<open>Logging out\<close>

definition vhost_restore_actions :: "nat \<Rightarrow> engine \<Rightarrow> string \<Rightarrow> string \<Rightarrow> net_action list" where
  "vhost_restore_actions now g uid acct =
     (case active_vhost now (g_db g) acct of
        None \<Rightarrow> []
      | Some vhost \<Rightarrow> (case host_of (g_network g) uid of
            None \<Rightarrow> []
          | Some host \<Rightarrow>
              if host = [] then []
              else [OnUser (SetHost uid (case ident_of (g_network g) uid of
                      None \<Rightarrow> host
                    | Some ident \<Rightarrow> if ident \<noteq> [] \<and> CHR ''@'' \<in> set vhost then ident @ ''@'' @ host else host))]))"

definition emit_all :: "net_action list \<Rightarrow> engine \<Rightarrow> engine" where
  "emit_all acts g = fold emit_irc acts g"

definition logout_uid :: "env \<Rightarrow> string \<Rightarrow> string \<Rightarrow> string \<Rightarrow> engine \<Rightarrow> engine" where
  "logout_uid v uid acct why g =
     (let g1 = emit_all (feed g ''SESS'' (Msg ''logged out'' [uid, acct, why]) @
                         vhost_restore_actions (ev_now v) g uid acct) g;
          g2 = emit_irc (OnLink (Metadata uid ''accountname'' [])) (on_network (clear_account uid) g1)
      in case g_nick_service g2 of
           None \<Rightarrow> g2
         | Some ns \<Rightarrow> emit_irc (Talk (Notice ns uid (Msg ''you have been logged out'' [acct, why]))) g2)"

definition sessions_of :: "env \<Rightarrow> engine \<Rightarrow> string \<Rightarrow> string list" where
  "sessions_of v g acct =
     uids_logged_into (ev_order v (dom (w_accounts (g_network g)))) (g_network g) acct"

definition logout_account_sessions :: "env \<Rightarrow> string \<Rightarrow> string \<Rightarrow> engine \<Rightarrow> engine" where
  "logout_account_sessions v acct why g = fold (\<lambda>uid. logout_uid v uid acct why) (sessions_of v g acct) g"

subsection \<open>An account that is gone\<close>

definition tell_successor :: "env \<Rightarrow> string \<Rightarrow> string \<times> string \<Rightarrow> engine \<Rightarrow> engine" where
  "tell_successor v acct cs g =
     (case (g_nick_service g, sessions_of v g (snd cs)) of
        (Some ns, uid # _) \<Rightarrow> emit_irc (Talk (Notice ns uid (Msg ''you are now the founder'' [fst cs, acct]))) g
      | _ \<Rightarrow> g)"

definition tell_released :: "string \<Rightarrow> string list \<Rightarrow> string \<Rightarrow> engine \<Rightarrow> engine" where
  "tell_released acct orphaned uid g =
     (case g_nick_service g of
        Some ns \<Rightarrow> if orphaned = [] then g
          else emit_irc (Talk (Notice ns uid (Msg ''channels released'' (acct # orphaned)))) g
      | None \<Rightarrow> g)"

definition release_mode :: "string \<Rightarrow> engine \<Rightarrow> engine" where
  "release_mode chan g =
     (case g_chan_service g of None \<Rightarrow> g | Some cs \<Rightarrow> emit_irc (OnChannel (ChannelMode cs chan ''-r'')) g)"

definition handle_account_gone :: "env \<Rightarrow> string \<Rightarrow> string \<Rightarrow> bool \<Rightarrow> engine \<Rightarrow> engine" where
  "handle_account_gone v acct why release g =
     (let victims = sessions_of v g acct;
          ((inherited, orphaned), d) =
            (if release then release_founded_channels (walk_channels_db v g) acct (g_db g) else (([], []), g_db g));
          g1 = fold release_mode orphaned (g\<lparr>g_db := d\<rparr>);
          g2 = fold (tell_successor v acct) inherited g1
      in fold (\<lambda>uid g. tell_released acct orphaned uid (logout_uid v uid acct why g)) victims g2)"

subsection \<open>Entries from a peer\<close>

definition gossip_ingest :: "env \<Rightarrow> log_entry \<Rightarrow> engine \<Rightarrow> (io_error + unit) \<times> engine" where
  "gossip_ingest v entry g =
     (case db_ingest (ev_now v) entry (g_db g) of
        (Inl e, d) \<Rightarrow> (Inl e, g\<lparr>g_db := d\<rparr>)
      | (Inr eff, d) \<Rightarrow>
          let g1 = g\<lparr>g_db := d\<rparr> in
          (Inr (), case eff of
             Some (TakenOver a) \<Rightarrow> handle_account_gone v a ''collided with another network'' False g1
           | Some (Dropped a) \<Rightarrow> emitting (reconcile_bots v) (handle_account_gone v a ''was dropped'' True g1)
           | Some (Suspended a) \<Rightarrow> logout_account_sessions v a ''was suspended'' g1
           | Some (BanAdded kind m setter duration why) \<Rightarrow>
               emit_irc (OnLink (AddLine kind m setter duration (Lit why))) g1
           | Some (BanLifted kind m) \<Rightarrow> emit_irc (OnLink (DelLine kind m)) g1
           | None \<Rightarrow> g1))"

subsection \<open>Clients leaving\<close>

definition forget_user :: "env \<Rightarrow> string \<Rightarrow> step" where
  "forget_user v uid g =
     (let chans = channels_of (walk_channels v g) (g_network g) uid;
          g1 = on_network (user_quit (seen_order_of v g uid) (ev_now v) uid) g;
          g2 = fold (prune_channel_if_gone v) chans g1;
          g3 = g2\<lparr>g_sasl := (g_sasl g2)(uid := None), g_source := (g_source g2)(uid := None),
                  g_pending_enforce := filter (\<lambda>p. pe_uid p \<noteq> uid) (g_pending_enforce g2)\<rparr>
      in (ev_on_quit v uid, forget_chatter_everywhere v uid g3))"

subsection \<open>Nick protection\<close>

definition no_longer_pending :: "string \<Rightarrow> engine \<Rightarrow> engine" where
  "no_longer_pending uid g = g\<lparr>g_pending_enforce := filter (\<lambda>p. pe_uid p \<noteq> uid) (g_pending_enforce g)\<rparr>"

definition enforce_registered_nick :: "env \<Rightarrow> string \<Rightarrow> string \<Rightarrow> step" where
  "enforce_registered_nick v uid nick g =
     (if \<not> g_synced g then ([], g)
      else case resolve_account (g_db g) nick of
        None \<Rightarrow> ([], g)
      | Some acct \<Rightarrow>
          if login_of g uid = Some acct \<or> \<not> account_wants_protect (g_db g) acct then ([], g)
          else case g_nick_service g of
            None \<Rightarrow> ([], g)
          | Some ns \<Rightarrow>
              ([Talk (Notice ns uid (Msg ''this nickname is registered'' [acct, show_nat enforce_grace]))],
               (let g1 = no_longer_pending uid g in
                g1\<lparr>g_pending_enforce := g_pending_enforce g1 @
                  [\<lparr>pe_uid = uid, pe_nick = nick, pe_deadline = ev_now v + enforce_grace\<rparr>]\<rparr>)))"

definition u32_succ :: "nat \<Rightarrow> nat" where
  "u32_succ n = (n + 1) mod 2 ^ 32"

fun guest_loop :: "nat \<Rightarrow> env \<Rightarrow> engine \<Rightarrow> nat \<Rightarrow> string \<times> nat" where
  "guest_loop 0 v g s = (g_guest_nick g @ show_nat s, u32_succ s)"
| "guest_loop (Suc n) v g s =
     (let candidate = g_guest_nick g @ show_nat s in
      if nick_uid v g candidate = None \<and> \<not> exists_account (g_db g) candidate
      then (candidate, u32_succ s)
      else guest_loop n v g (u32_succ s))"

definition next_guest_nick :: "env \<Rightarrow> engine \<Rightarrow> string \<times> engine" where
  "next_guest_nick v g =
     (let (nick, s) = guest_loop 100000 v g (g_enforce_seq g) in (nick, g\<lparr>g_enforce_seq := s\<rparr>))"

definition overdue :: "env \<Rightarrow> engine \<Rightarrow> pending_enforce \<Rightarrow> bool" where
  "overdue v g p \<longleftrightarrow> nick_uid v g (pe_nick p) = Some (pe_uid p) \<and>
     login_of g (pe_uid p) \<noteq> resolve_account (g_db g) (pe_nick p) \<and>
     (case resolve_account (g_db g) (pe_nick p) of None \<Rightarrow> False | Some a \<Rightarrow> account_wants_protect (g_db g) a)"

definition rename_to_guest :: "env \<Rightarrow> string \<Rightarrow> engine \<Rightarrow> engine" where
  "rename_to_guest v uid g =
     (let (guest, g1) = next_guest_nick v g;
          g2 = (case g_nick_service g1 of None \<Rightarrow> g1
                | Some ns \<Rightarrow> emit_irc (Talk (Notice ns uid (Msg ''you've been renamed'' []))) g1)
      in emit_irc (OnUser (ForceNick uid guest)) g2)"

definition enforce_sweep :: "env \<Rightarrow> engine \<Rightarrow> engine" where
  "enforce_sweep v g =
     (let due = filter (\<lambda>p. pe_deadline p \<le> ev_now v) (g_pending_enforce g);
          g1 = g\<lparr>g_pending_enforce := filter (\<lambda>p. \<not> pe_deadline p \<le> ev_now v) (g_pending_enforce g)\<rparr>
      in fold (rename_to_guest v) (map pe_uid (filter (overdue v g1) due)) g1)"

subsection \<open>Expiry\<close>

definition server_notice :: "message \<Rightarrow> engine \<Rightarrow> net_action list" where
  "server_notice m g =
     (case g_log_channel g of
        Some chan \<Rightarrow> if g_sid g = [] then [] else [Talk (Notice (g_sid g) chan m)]
      | None \<Rightarrow> [])"

definition feed_or_notice :: "string \<Rightarrow> message \<Rightarrow> engine \<Rightarrow> net_action list" where
  "feed_or_notice cat m g = (let f = feed g cat m in if f \<noteq> [] then f else server_notice m g)"

definition record_text :: "env \<Rightarrow> message \<Rightarrow> engine \<Rightarrow> string \<times> engine" where
  "record_text v m g = (let (id, w) = record_incident (text_of m) (ev_now v) (g_network g) in (id, g\<lparr>g_network := w\<rparr>))"

definition audit :: "env \<Rightarrow> message \<Rightarrow> engine \<Rightarrow> engine" where
  "audit v m g = (let g1 = snd (record_text v m g) in emit_all (feed_or_notice ''SVC'' m g1) g1)"

definition warn_account :: "string \<times> string \<times> nat \<Rightarrow> engine \<Rightarrow> engine" where
  "warn_account = (\<lambda>(acct, email, left) g.
     on_db (mark_account_warned acct)
       (emit_irc (Deferred (SendEmail email (Msg ''account expiry'' [acct, show_nat left]))) g))"

definition warn_channel :: "string \<times> string \<times> nat \<times> string \<Rightarrow> engine \<Rightarrow> engine" where
  "warn_channel = (\<lambda>(chan, email, left, lang) g.
     on_db (mark_channel_warned chan)
       (emit_irc (Deferred (SendEmail email (Msg ''channel expiry'' [chan, show_nat left]))) g))"

definition warn_phase :: "env \<Rightarrow> engine \<Rightarrow> engine" where
  "warn_phase v g =
     (case g_expire_warn g of
        None \<Rightarrow> g
      | Some lead \<Rightarrow>
          if \<not> email_enabled (g_db g) then g
          else let g1 = (case g_account_ttl g of None \<Rightarrow> g
                 | Some ttl \<Rightarrow> fold warn_account (accounts_to_warn (walk_accounts v g) (ev_now v) ttl lead (g_db g)) g)
               in case g_channel_ttl g1 of None \<Rightarrow> g1
                  | Some ttl \<Rightarrow> fold warn_channel (channels_to_warn (walk_channels_db v g1) (ev_now v) ttl lead (g_db g1)) g1)"

definition expire_account :: "env \<Rightarrow> string \<Rightarrow> engine \<Rightarrow> engine" where
  "expire_account v acct g =
     (if is_operator (ev_now v) g acct \<or> sessions_of v g acct \<noteq> [] then g
      else case drop_account acct (g_db g) of
        (Inr True, d) \<Rightarrow> audit v (Msg ''account expired'' [acct])
            (handle_account_gone v acct ''expired after a long period of inactivity'' True (g\<lparr>g_db := d\<rparr>))
      | (_, d) \<Rightarrow> g\<lparr>g_db := d\<rparr>)"

definition expire_channel :: "env \<Rightarrow> string \<Rightarrow> engine \<Rightarrow> engine" where
  "expire_channel v chan g =
     (if ev_order v (channel_members (g_network g) chan) \<noteq> [] then g
      else case drop_channel chan (g_db g) of
        (Inr _, d) \<Rightarrow> audit v (Msg ''channel expired'' [chan]) (release_mode chan (g\<lparr>g_db := d\<rparr>))
      | (Inl _, d) \<Rightarrow> g\<lparr>g_db := d\<rparr>)"

definition expire_sweep :: "env \<Rightarrow> engine \<Rightarrow> engine" where
  "expire_sweep v g =
     (let g1 = warn_phase v g;
          g2 = (case g_account_ttl g1 of None \<Rightarrow> g1
            | Some ttl \<Rightarrow> fold (expire_account v) (expired_accounts (walk_accounts v g1) (ev_now v) ttl (g_db g1)) g1);
          g3 = (case g_channel_ttl g2 of None \<Rightarrow> g2
            | Some ttl \<Rightarrow> fold (expire_channel v) (expired_channels (walk_channels_db v g2) (ev_now v) ttl (g_db g2)) g2)
      in prune_kicker_caches (emitting (reconcile_bots v) g3))"

subsection \<open>Auto-kicks\<close>

definition akick_reason :: "chan_akick \<Rightarrow> message" where
  "akick_reason k = Lit (if ak_reason k = [] then ''You are banned from this channel.'' else ak_reason k)"

definition akick_hit :: "env \<Rightarrow> string \<Rightarrow> string \<Rightarrow> step" where
  "akick_hit v uid chan g =
     (case Option.bind (ban_target_of (walk_channels v g) (g_network g) uid)
             (\<lambda>t. Option.bind (channel_rec g chan) (\<lambda>c. akick_match c t)) of
        None \<Rightarrow> ([], g)
      | Some k \<Rightarrow>
          let src = channel_mode_source g chan in
          ([OnChannel (ChannelMode src chan (''+b '' @ ak_mask k)),
            OnChannel (KickUser src chan uid (akick_reason k))],
           on_network (channel_part (seen_order_of v g uid) (ev_now v) chan uid) g))"

definition akick_unless_access :: "env \<Rightarrow> string \<Rightarrow> string option \<Rightarrow> string \<Rightarrow> step" where
  "akick_unless_access v uid acct chan g =
     (if is_channel_suspended (ev_now v) (g_db g) chan \<or>
         Option.bind acct (channel_join_mode (g_db g) chan) \<noteq> None
      then ([], g) else akick_hit v uid chan g)"

definition enforce_akick_on_nick :: "env \<Rightarrow> string \<Rightarrow> step" where
  "enforce_akick_on_nick v uid g =
     each (akick_unless_access v uid (login_of g uid)) (channels_of (walk_channels v g) (g_network g) uid) g"

subsection \<open>The tail of the handler\<close>

definition sweep_unbans :: "env \<Rightarrow> step" where
  "sweep_unbans v g =
     (map (\<lambda>u. OnChannel (ChannelMode (pu_from u) (pu_channel u) (''-b '' @ pu_mask u)))
        (filter (\<lambda>u. pu_at u \<le> ev_now v) (g_pending_unbans g)),
      g\<lparr>g_pending_unbans := filter (\<lambda>u. \<not> pu_at u \<le> ev_now v) (g_pending_unbans g)\<rparr>)"

definition track_account :: "env \<Rightarrow> net_action \<Rightarrow> engine \<Rightarrow> engine" where
  "track_account v a g =
     (case a of
        OnLink (Metadata uid k val) \<Rightarrow>
          if k = ''accountname'' \<and> uid \<noteq> ''*'' then
            if val = [] then emit_irc (OnUser (UserMode uid ''-r'')) (on_network (clear_account uid) g)
            else let g1 = emit_irc (OnUser (UserMode uid ''+r'')) (on_network (set_account uid val) g);
                     g2 = on_db (mark_account_seen val (ev_now v)) (no_longer_pending uid g1)
                 in if is_operator (ev_now v) g2 val
                    then emit_all (news_notices g2 NewsOper ''Staff News'' uid) g2 else g2
          else g
      | _ \<Rightarrow> g)"

definition track_accounts :: "env \<Rightarrow> net_action list \<Rightarrow> engine \<Rightarrow> engine" where
  "track_accounts v = fold (track_account v)"

definition shown_nick :: "engine \<Rightarrow> string \<Rightarrow> string" where
  "shown_nick g uid = (case net_nick_of (g_network g) uid of None \<Rightarrow> uid | Some n \<Rightarrow> n)"

definition stamp_incident :: "env \<Rightarrow> net_action \<Rightarrow> engine \<Rightarrow> net_action \<times> engine" where
  "stamp_incident v a g =
     (case a of
        OnChannel (KickUser src chan uid why) \<Rightarrow>
          let (id, g1) = record_text v (Msg ''kicked'' [shown_nick g uid, chan, text_of why]) g
          in (OnChannel (KickUser src chan uid (Stamped why id)), g1)
      | OnUser (KillUser src uid why) \<Rightarrow>
          let (id, g1) = record_text v (Msg ''killed'' [shown_nick g uid, text_of why]) g
          in (OnUser (KillUser src uid (Stamped why id)), g1)
      | _ \<Rightarrow> (a, g))"

fun stamp_incidents :: "env \<Rightarrow> net_action list \<Rightarrow> step" where
  "stamp_incidents v [] g = ([], g)"
| "stamp_incidents v (a # as) g =
     (let (a', g1) = stamp_incident v a g; (as', g2) = stamp_incidents v as g1 in (a' # as', g2))"

fun degrade :: "net_action \<Rightarrow> net_action" where
  "degrade (TaggedAction tags a) =
     (case a of Talk (StandardReply k src dst cmd c m) \<Rightarrow> TaggedAction tags (degrade a) | _ \<Rightarrow> TaggedAction tags a)"
| "degrade (Talk (StandardReply k src dst cmd c m)) =
     Talk (Notice src dst (Msg ''***'' ((if cmd = [] \<or> cmd = ''*'' then [] else [cmd]) @ [text_of m])))"
| "degrade a = a"

definition finish :: "env \<Rightarrow> net_action list \<Rightarrow> net_action list \<Rightarrow> step" where
  "finish v out evout g =
     (let (acts, g1) = stamp_incidents v (out @ evout) (track_accounts v evout g)
      in (if g_standard_replies g1 then acts else map degrade acts, g1))"

subsection \<open>Looking up a login for the website\<close>

definition web_auth_lookup :: "nat \<Rightarrow> engine \<Rightarrow> string \<Rightarrow> (string \<times> string \<times> bool) option" where
  "web_auth_lookup now g name =
     (case account_of (g_db g) name of
        None \<Rightarrow> None
      | Some a \<Rightarrow>
          if \<not> a_verified a \<or> a_suspension a \<noteq> None then None
          else map_option (\<lambda>ver. (a_name a, ver, is_operator now g (a_name a))) (a_scram256 a))"

end
