(* ===== verification/SessionProps.thy ===== *)
theory SessionProps
  imports Example Sessions
begin

text \<open>
  What ends a session, and only that: gossip that takes an account away logs its clients out, nick
  protection renames only those it warned, expiry spares operators and accounts in use, and every
  removal carries an incident number of its own.
\<close>

subsection \<open>Logging out\<close>

lemma emit_irc_frame [simp]:
  "g_db (emit_irc a g) = g_db g" "g_network (emit_irc a g) = g_network g" "g_sent (emit_irc a g) = g_sent g @ [a]"
  "g_opers (emit_irc a g) = g_opers g" "g_nick_service (emit_irc a g) = g_nick_service g"
  "g_chan_service (emit_irc a g) = g_chan_service g" "g_pending_enforce (emit_irc a g) = g_pending_enforce g"
  "g_guest_nick (emit_irc a g) = g_guest_nick g" "g_account_ttl (emit_irc a g) = g_account_ttl g"
  "g_channel_ttl (emit_irc a g) = g_channel_ttl g" "g_enforce_seq (emit_irc a g) = g_enforce_seq g"
  by (simp_all add: emit_irc_def)

lemma emit_all_frame [simp]:
  "g_db (emit_all as g) = g_db g" "g_network (emit_all as g) = g_network g" "g_sent (emit_all as g) = g_sent g @ as"
  "g_opers (emit_all as g) = g_opers g" "g_nick_service (emit_all as g) = g_nick_service g"
  by (induction as arbitrary: g) (simp_all add: emit_all_def)

text \<open>What was sent between two states.\<close>

definition sent_between :: "engine \<Rightarrow> engine \<Rightarrow> net_action list" where
  "sent_between g g' = drop (length (g_sent g)) (g_sent g')"

definition sends :: "engine \<Rightarrow> engine \<Rightarrow> bool" where
  "sends g g' \<longleftrightarrow> (\<exists>acts. g_sent g' = g_sent g @ acts)"

lemma sends_refl [simp]: "sends g g"
  by (simp add: sends_def)

lemma sends_trans: "sends g g1 \<Longrightarrow> sends g1 g2 \<Longrightarrow> sends g g2"
  by (auto simp: sends_def)

lemma sent_between_trans:
  "sends g g1 \<Longrightarrow> sends g1 g2 \<Longrightarrow> sent_between g g2 = sent_between g g1 @ sent_between g1 g2"
  by (auto simp: sends_def sent_between_def)

lemma sends_fold: "(\<And>x g. sends g (f x g)) \<Longrightarrow> sends g (fold f xs g)"
  by (induction xs arbitrary: g) (auto intro: sends_trans)

lemma sent_fold:
  assumes "\<And>x g. sends g (f x g)" "\<And>x g. I g \<Longrightarrow> I (f x g)" "I g" "a \<in> set (sent_between g (fold f xs g))"
  shows "\<exists>x \<in> set xs. \<exists>h. I h \<and> a \<in> set (sent_between h (f x h))"
  using assms(3,4)
proof (induction xs arbitrary: g)
  case (Cons x xs)
  have "sent_between g (fold f xs (f x g)) = sent_between g (f x g) @ sent_between (f x g) (fold f xs (f x g))"
    by (rule sent_between_trans [OF assms(1) sends_fold [OF assms(1)]])
  with Cons.prems(2) have "a \<in> set (sent_between g (f x g)) \<or> a \<in> set (sent_between (f x g) (fold f xs (f x g)))" by simp
  then show ?case
  proof
    assume "a \<in> set (sent_between (f x g) (fold f xs (f x g)))"
    from Cons.IH [OF assms(2) [OF Cons.prems(1)] this] show ?thesis by auto
  qed (use Cons.prems(1) in auto)
qed (simp add: sent_between_def)

lemma logout_uid_frame [simp]:
  "g_db (logout_uid v uid acct why g) = g_db g" "g_opers (logout_uid v uid acct why g) = g_opers g"
  "w_accounts (g_network (logout_uid v uid acct why g)) = (w_accounts (g_network g))(uid := None)"
  "g_nick_service (logout_uid v uid acct why g) = g_nick_service g"
  by (simp_all add: logout_uid_def Let_def on_network_def clear_account_def split: option.split)

lemma logout_uid_sent:
  "g_sent (logout_uid v uid acct why g) = g_sent g @ feed g ''SESS'' (Msg ''logged out'' [uid, acct, why]) @
     vhost_restore_actions (ev_now v) g uid acct @ OnLink (Metadata uid ''accountname'' []) #
     (case g_nick_service g of None \<Rightarrow> []
      | Some ns \<Rightarrow> [Talk (Notice ns uid (Msg ''you have been logged out'' [acct, why]))])"
  by (simp add: logout_uid_def Let_def on_network_def split: option.split)

lemma logout_uid_sends: "sends g (logout_uid v uid acct why g)"
  by (simp add: sends_def logout_uid_sent)

text \<open>A session the services end is told to the uplink, but unlike a logout by command it does not take
  the registered mode from the client.\<close>

theorem forced_logout_keeps_mode:
  "\<exists>acts. g_sent (logout_uid v uid acct why g) = g_sent g @ acts \<and>
     OnLink (Metadata uid ''accountname'' []) \<in> set acts \<and> (\<forall>u m. OnUser (UserMode u m) \<notin> set acts)"
  "OnUser (UserMode uid ''-r'') \<in> set (g_sent (track_account v (OnLink (Metadata uid ''accountname'' [])) g)) \<or> uid = ''*''"
proof -
  have "OnUser (UserMode u m) \<notin> set (feed g c t)" "OnUser (UserMode u m) \<notin> set (vhost_restore_actions n g uid acct)" for u m c t n
    by (auto simp: feed_def vhost_restore_actions_def split: option.splits)
  then show "\<exists>acts. g_sent (logout_uid v uid acct why g) = g_sent g @ acts \<and>
     OnLink (Metadata uid ''accountname'' []) \<in> set acts \<and> (\<forall>u m. OnUser (UserMode u m) \<notin> set acts)"
    by (auto simp: logout_uid_sent split: option.split)
qed (simp add: track_account_def)

lemma sessions_of_set:
  assumes "orders_ok v" "finite (dom (w_accounts (g_network g)))"
  shows "uid \<in> set (sessions_of v g acct) \<longleftrightarrow>
    (case login_of g uid of None \<Rightarrow> False | Some a \<Rightarrow> eq_ignore_ascii_case a acct)"
  using assms by (auto simp: sessions_of_def uids_logged_into_def login_of_def net_account_of_def orders_ok_def
      split: option.splits)

definition without_sessions :: "engine \<Rightarrow> string list \<Rightarrow> string \<Rightarrow> string option" where
  "without_sessions g uids uid = (if uid \<in> set uids then None else login_of g uid)"

lemma fold_logout:
  assumes "\<And>uid g. w_accounts (g_network (f uid g)) = (w_accounts (g_network g))(uid := None)"
    and "\<And>uid g. sends g (f uid g)" "\<And>uid g. g_db (f uid g) = g_db g" "\<And>uid g. g_opers (f uid g) = g_opers g"
    and "\<And>uid g. OnLink (Metadata uid ''accountname'' []) \<in> set (sent_between g (f uid g))"
  shows "login_of (fold f uids g) = without_sessions g uids \<and> sends g (fold f uids g) \<and>
    g_db (fold f uids g) = g_db g \<and> g_opers (fold f uids g) = g_opers g \<and>
    (\<forall>uid\<in>set uids. OnLink (Metadata uid ''accountname'' []) \<in> set (sent_between g (fold f uids g)))"
proof (induction uids arbitrary: g)
  case Nil
  then show ?case by (simp add: without_sessions_def fun_eq_iff)
next
  case (Cons u us)
  let ?g = "f u g"
  have "login_of ?g = (login_of g)(u := None)"
    by (simp add: login_of_def net_account_of_def fun_eq_iff assms(1))
  moreover have "sent_between g (fold f us ?g) = sent_between g ?g @ sent_between ?g (fold f us ?g)"
    by (rule sent_between_trans [OF assms(2) sends_fold [OF assms(2)]])
  ultimately show ?case
    using Cons.IH [of ?g] assms(2-5) [where uid = u and g = g] sends_trans [of g ?g] by (auto simp: without_sessions_def fun_eq_iff)
qed

lemma logout_uid_told: "OnLink (Metadata uid ''accountname'' []) \<in> set (sent_between g (logout_uid v uid acct why g))"
  by (simp add: sent_between_def logout_uid_sent)

subsection \<open>An account that is gone\<close>

lemma each_keeps: "(\<And>x g. F (snd (f x g)) = F g) \<Longrightarrow> F (snd (each f xs g)) = F g"
  by (induction xs arbitrary: g) simp_all

lemma fold_keeps: "(\<And>x g. F (f x g) = F g) \<Longrightarrow> F (fold f xs g) = F g"
  by (induction xs arbitrary: g) simp_all

definition beside_bots :: "engine \<Rightarrow> (string \<rightharpoonup> string) \<times> db \<times> net_action list \<times> (string \<rightharpoonup> privs)" where
  "beside_bots g = (w_accounts (g_network g), g_db g, g_sent g, g_opers g)"

lemma reconcile_beside_bots: "beside_bots (snd (reconcile_bots v g)) = beside_bots g"
proof -
  have "beside_bots (snd (present_bot v b g)) = beside_bots g" "beside_bots (snd (quit_removed k g)) = beside_bots g"
    "beside_bots (snd (join_desired bc g)) = beside_bots g" "beside_bots (snd (part_unassigned bc g)) = beside_bots g" for b k bc g
    by (auto simp: beside_bots_def present_bot_def quit_changed_def introduce_missing_def quit_removed_def
        join_desired_def part_unassigned_def on_network_def drop_memberships_def bot_forget_def bot_connect_def Let_def
        split: option.split)
  then show ?thesis
    by (simp add: reconcile_bots_def case_prod_beta Let_def each_keeps [where F = beside_bots])
qed

lemma emitting_reconcile:
  "w_accounts (g_network (emitting (reconcile_bots v) g)) = w_accounts (g_network g)"
  "g_db (emitting (reconcile_bots v) g) = g_db g" "sends g (emitting (reconcile_bots v) g)"
  "g_opers (emitting (reconcile_bots v) g) = g_opers g"
proof -
  have e: "emitting (reconcile_bots v) g = emit_all (fst (reconcile_bots v g)) (snd (reconcile_bots v g))"
    by (simp add: emitting_def emit_all_def case_prod_beta)
  show "w_accounts (g_network (emitting (reconcile_bots v) g)) = w_accounts (g_network g)"
    "g_db (emitting (reconcile_bots v) g) = g_db g" "sends g (emitting (reconcile_bots v) g)"
    "g_opers (emitting (reconcile_bots v) g) = g_opers g"
    using reconcile_beside_bots [of v g] by (simp_all add: e beside_bots_def sends_def)
qed

lemma telling_frame [simp]:
  "g_db (release_mode c g) = g_db g" "g_network (release_mode c g) = g_network g" "g_opers (release_mode c g) = g_opers g"
  "g_db (tell_successor v a cs g) = g_db g" "g_network (tell_successor v a cs g) = g_network g"
  "g_opers (tell_successor v a cs g) = g_opers g"
  "g_db (tell_released a os u g) = g_db g" "g_network (tell_released a os u g) = g_network g"
  "g_opers (tell_released a os u g) = g_opers g"
  by (simp_all add: release_mode_def tell_successor_def tell_released_def case_prod_beta split: option.split list.split)

lemma telling_sends: "sends g (release_mode c g)" "sends g (tell_successor v a cs g)" "sends g (tell_released a os u g)"
  by (simp_all add: sends_def release_mode_def tell_successor_def tell_released_def split: option.split list.split)

definition released_db :: "env \<Rightarrow> string \<Rightarrow> bool \<Rightarrow> engine \<Rightarrow> db" where
  "released_db v acct release g =
     (if release then snd (release_founded_channels (walk_channels_db v g) acct (g_db g)) else g_db g)"

lemma account_gone_effect:
  fixes v acct why release g
  defines "g' \<equiv> handle_account_gone v acct why release g"
  shows "login_of g' = without_sessions g (sessions_of v g acct)" "sends g g'"
    "g_db g' = released_db v acct release g" "g_opers g' = g_opers g"
    "uid \<in> set (sessions_of v g acct) \<Longrightarrow> OnLink (Metadata uid ''accountname'' []) \<in> set (sent_between g g')"
proof -
  define rel where "rel = (if release then release_founded_channels (walk_channels_db v g) acct (g_db g) else (([], []), g_db g))"
  define g2 where "g2 = fold (tell_successor v acct) (fst (fst rel)) (fold release_mode (snd (fst rel)) (g\<lparr>g_db := snd rel\<rparr>))"
  let ?f = "\<lambda>uid g. tell_released acct (snd (fst rel)) uid (logout_uid v uid acct why g)"
  have g': "g' = fold ?f (sessions_of v g acct) g2"
    unfolding g'_def handle_account_gone_def g2_def rel_def by (simp add: case_prod_beta Let_def)
  have frame: "g_network g2 = g_network g" "g_db g2 = snd rel" "g_opers g2 = g_opers g"
    by (simp_all add: g2_def fold_keeps [where F = g_network] fold_keeps [where F = g_db] fold_keeps [where F = g_opers])
  have "sends (g\<lparr>g_db := snd rel\<rparr>) g2"
    unfolding g2_def by (intro sends_trans [OF sends_fold sends_fold] telling_sends)
  then have s2: "sends g g2" by (simp add: sends_def)
  have told: "OnLink (Metadata uid ''accountname'' []) \<in> set (sent_between g (?f uid g))" for uid g
    using logout_uid_told [of uid g v acct why] sent_between_trans [OF logout_uid_sends telling_sends(3)] by simp
  have sf: "sends g (?f uid g)" for uid g by (rule sends_trans [OF logout_uid_sends telling_sends(3)])
  have f: "login_of g' = without_sessions g2 (sessions_of v g acct) \<and> sends g2 g' \<and> g_db g' = g_db g2 \<and>
      g_opers g' = g_opers g2 \<and>
      (\<forall>uid\<in>set (sessions_of v g acct). OnLink (Metadata uid ''accountname'' []) \<in> set (sent_between g2 g'))"
    unfolding g' by (rule fold_logout) (simp_all add: sf told)
  have "without_sessions g2 uids = without_sessions g uids" for uids
    by (simp add: without_sessions_def login_of_def frame fun_eq_iff)
  then show "login_of g' = without_sessions g (sessions_of v g acct)" using f by simp
  show "sends g g'" using s2 f sends_trans by blast
  show "g_db g' = released_db v acct release g" "g_opers g' = g_opers g"
    using f frame by (simp_all add: released_db_def rel_def)
  show "OnLink (Metadata uid ''accountname'' []) \<in> set (sent_between g g')" if "uid \<in> set (sessions_of v g acct)"
    using f that sent_between_trans [OF s2, of g'] by simp
qed

text \<open>C38. When an entry from a peer takes an account away - it lost to a rival registration, was dropped
  or suspended - every client logged in to it here is logged out and the uplink is told; nobody else is.\<close>

theorem gossip_ends_exactly_its_sessions:
  assumes "orders_ok v" "finite (dom (w_accounts (g_network g)))"
    and "db_ingest (ev_now v) entry (g_db g) = (Inr (Some eff), d)" "eff \<in> {TakenOver a, Dropped a, Suspended a}"
    and "gossip_ingest v entry g = (r, g')"
  shows "r = Inr () \<and> sends g g' \<and>
    (\<forall>uid. if (case login_of g uid of None \<Rightarrow> False | Some b \<Rightarrow> eq_ignore_ascii_case b a)
       then login_of g' uid = None \<and> OnLink (Metadata uid ''accountname'' []) \<in> set (sent_between g g')
       else login_of g' uid = login_of g uid)"
proof -
  let ?g = "g\<lparr>g_db := d\<rparr>" and ?us = "sessions_of v (g\<lparr>g_db := d\<rparr>) a"
  have us: "?us = sessions_of v g a" by (simp add: sessions_of_def)
  have effect: "login_of g' = without_sessions ?g ?us \<and> sends ?g g' \<and>
      (\<forall>uid\<in>set ?us. OnLink (Metadata uid ''accountname'' []) \<in> set (sent_between ?g g'))"
  proof -
    consider "eff = TakenOver a" | "eff = Dropped a" | "eff = Suspended a" using assms(4) by auto
    then show ?thesis
    proof cases
      case 1
      then show ?thesis using assms(3,5) account_gone_effect by (auto simp: gossip_ingest_def)
    next
      case 2
      let ?h = "handle_account_gone v a ''was dropped'' True ?g"
      have g': "g' = emitting (reconcile_bots v) ?h" using 2 assms(3,5) by (auto simp: gossip_ingest_def)
      note gone = account_gone_effect(1,2,5) [where v = v and acct = a and why = "''was dropped''"
          and release = True and g = ?g]
      have h: "sends ?h g'" unfolding g' by (rule emitting_reconcile)
      have "login_of g' = login_of ?h" by (simp add: g' login_of_def net_account_of_def emitting_reconcile fun_eq_iff)
      moreover have "sent_between ?g g' = sent_between ?g ?h @ sent_between ?h g'"
        by (rule sent_between_trans [OF gone(2) h])
      ultimately show ?thesis using gone(1,3) sends_trans [OF gone(2) h] by simp
    next
      case 3
      then have "g' = fold (\<lambda>uid. logout_uid v uid a ''was suspended'') ?us ?g"
        using assms(3,5) by (auto simp: gossip_ingest_def logout_account_sessions_def Let_def)
      then show ?thesis
        using fold_logout [of "\<lambda>uid. logout_uid v uid a ''was suspended''" ?us ?g, OF _ logout_uid_sends _ _ logout_uid_told]
        by simp
    qed
  qed
  have "r = Inr ()" using assms(3,5) by (simp add: gossip_ingest_def Let_def)
  moreover have "sends g g'" "sent_between ?g g' = sent_between g g'" using effect by (simp_all add: sends_def sent_between_def)
  moreover have "login_of ?g = login_of g" by (simp add: login_of_def fun_eq_iff)
  ultimately show ?thesis
    using effect sessions_of_set [OF assms(1,2)] unfolding us without_sessions_def by (auto split: option.splits)
qed

definition gone_engine :: engine where
  "gone_engine = (engine_new [] example_arrived)\<lparr>g_network := network_empty\<lparr>w_accounts := [''9AA'' \<mapsto> ''Bob'', ''9AB'' \<mapsto> ''al'']\<rparr>\<rparr>"

definition drop_entry :: log_entry where
  "drop_entry = \<lparr>le_origin = ''n2'', le_seq = 1, le_lamport = 3, le_epoch = 0, le_sig = None,
     le_event = AccountDropped ''bob''\<rparr>"

theorem gossip_ends_exactly_its_sessions_witness:
  "let g' = snd (gossip_ingest plain_env drop_entry gone_engine) in
   login_of gone_engine ''9AA'' = Some ''Bob'' \<and> login_of g' ''9AA'' = None \<and> login_of g' ''9AB'' = Some ''al''"
proof -
  have "fst (db_ingest (ev_now plain_env) drop_entry (g_db gone_engine)) = Inr (Some (Dropped ''bob''))"
    by (simp add: gone_engine_def engine_new_def drop_entry_def db_ingest_def takeover_effect_def
        account_of_def on_store_def purge_account_refs_def example_arrived_db log_empty_def log_ingest_def entry_cursor_def entry_global_def
        persist.simps log_notify_def Let_def plain_env_def example_keys)
  then obtain d where d: "db_ingest (ev_now plain_env) drop_entry (g_db gone_engine) = (Inr (Some (Dropped ''bob'')), d)"
    by (metis prod.collapse)
  have a: "w_accounts (g_network gone_engine) = [''9AA'' \<mapsto> ''Bob'', ''9AB'' \<mapsto> ''al'']" by (simp add: gone_engine_def)
  have o: "orders_ok plain_env" by (simp add: orders_ok_def plain_env_def)
  have k: "eq_ignore_ascii_case ''Bob'' ''bob''" "\<not> eq_ignore_ascii_case ''al'' ''bob''"
    by (simp_all add: eq_ignore_ascii_case_def key_def ascii_simps)
  have "finite (dom (w_accounts (g_network gone_engine)))" by (simp add: a)
  from gossip_ends_exactly_its_sessions [OF o this d, of "''bob''", OF _ prod.collapse [symmetric]] show ?thesis
    using k by (auto simp: login_of_def net_account_of_def a Let_def dest: spec [of _ "''9AA''"] spec [of _ "''9AB''"])
qed

subsection \<open>Nick protection\<close>

definition taken :: "env \<Rightarrow> engine \<Rightarrow> string \<Rightarrow> bool" where
  "taken v g nick \<longleftrightarrow> nick_uid v g nick \<noteq> None \<or> exists_account (g_db g) nick"

lemma guest_loop_taken:
  assumes "s < 2 ^ 32" "taken v g (fst (guest_loop n v g s))" "k < n"
  shows "taken v g (g_guest_nick g @ show_nat ((s + k) mod 2 ^ 32))"
  using assms
proof (induction n arbitrary: s k)
  case (Suc n)
  have t: "taken v g (g_guest_nick g @ show_nat s)" and r: "taken v g (fst (guest_loop n v g (u32_succ s)))"
    using Suc.prems(2) by (auto simp: taken_def Let_def split: if_splits)
  show ?case
  proof (cases k)
    case 0
    with t Suc.prems(1) show ?thesis by simp
  next
    case (Suc j)
    then have "taken v g (g_guest_nick g @ show_nat ((u32_succ s + j) mod 2 ^ 32))"
      using Suc.IH [OF _ r] Suc.prems(3) by (simp add: u32_succ_def)
    moreover have "(u32_succ s + j) mod 2 ^ 32 = (s + k) mod 2 ^ 32"
      unfolding u32_succ_def Suc by (metis add.assoc add.commute mod_add_left_eq plus_1_eq_Suc)
    ultimately show ?thesis by simp
  qed
qed simp

lemma guest_loop_seq: "snd (guest_loop n v g s) < 2 ^ 32"
  by (induction n arbitrary: s) (simp_all add: u32_succ_def Let_def)

definition sweeping :: "engine \<Rightarrow> engine \<Rightarrow> bool" where
  "sweeping g h \<longleftrightarrow> g_network h = g_network g \<and> g_db h = g_db g \<and> g_guest_nick h = g_guest_nick g \<and>
     g_pending_enforce h = g_pending_enforce g \<and> g_enforce_seq h < 2 ^ 32"

lemma rename_sends:
  "sends g (rename_to_guest v uid g)"
  "OnUser (ForceNick u n) \<in> set (sent_between g (rename_to_guest v uid g)) \<longleftrightarrow>
     u = uid \<and> n = fst (guest_loop 100000 v g (g_enforce_seq g))"
  by (auto simp: rename_to_guest_def next_guest_nick_def case_prod_beta Let_def sends_def sent_between_def split: option.split)

lemma rename_sweeping: "sweeping g h \<Longrightarrow> sweeping g (rename_to_guest v uid h)"
  using guest_loop_seq [of 100000 v h "g_enforce_seq h"]
  by (auto simp: sweeping_def rename_to_guest_def next_guest_nick_def case_prod_beta Let_def split: option.split)

lemma sweeping_taken: "sweeping g h \<Longrightarrow> taken v h = taken v g"
  by (simp add: sweeping_def taken_def nick_uid_def walk_users_def fun_eq_iff)

definition unprotected :: "env \<Rightarrow> engine \<Rightarrow> engine" where
  "unprotected v g = g\<lparr>g_pending_enforce := filter (\<lambda>p. \<not> pe_deadline p \<le> ev_now v) (g_pending_enforce g)\<rparr>"

lemma enforce_sweep_fold:
  "enforce_sweep v g = fold (rename_to_guest v)
     (map pe_uid (filter (overdue v g) (filter (\<lambda>p. pe_deadline p \<le> ev_now v) (g_pending_enforce g)))) (unprotected v g)"
proof -
  have "overdue v (g\<lparr>g_pending_enforce := ps\<rparr>) = overdue v g" for ps
    by (simp add: overdue_def nick_uid_def walk_users_def login_of_def fun_eq_iff split: option.split)
  then show ?thesis by (simp add: enforce_sweep_def unprotected_def Let_def)
qed

lemma enforce_sweep_pending:
  assumes "g_enforce_seq g < 2 ^ 32"
  shows "g_pending_enforce (enforce_sweep v g) = filter (\<lambda>p. ev_now v < pe_deadline p) (g_pending_enforce g)"
proof -
  have "sweeping (unprotected v g) (fold (rename_to_guest v) us h)" if "sweeping (unprotected v g) h" for us h
    using that by (induction us arbitrary: h) (simp_all add: rename_sweeping)
  then show ?thesis using assms by (simp add: enforce_sweep_fold sweeping_def unprotected_def not_le)
qed

lemma enforce_sweep_renames:
  assumes seq: "g_enforce_seq g < 2 ^ 32"
    and "OnUser (ForceNick uid nick) \<in> set (sent_between g (enforce_sweep v g))"
  shows "\<exists>p\<in>set (g_pending_enforce g). pe_uid p = uid \<and> pe_deadline p \<le> ev_now v \<and> overdue v g p"
    "taken v g nick \<Longrightarrow> \<exists>s. \<forall>k<100000. taken v g (g_guest_nick g @ show_nat ((s + k) mod 2 ^ 32))"
proof -
  let ?h = "unprotected v g"
  have s: "sent_between g g' = sent_between ?h g'" for g' by (simp add: sent_between_def unprotected_def)
  have "sweeping ?h ?h" using seq by (simp add: sweeping_def unprotected_def)
  from sent_fold [OF rename_sends(1) rename_sweeping [where g = ?h] this assms(2) [unfolded s enforce_sweep_fold]]
  obtain x h where x: "x \<in> set (map pe_uid (filter (overdue v g) (filter (\<lambda>p. pe_deadline p \<le> ev_now v) (g_pending_enforce g))))"
    and h: "sweeping ?h h" "OnUser (ForceNick uid nick) \<in> set (sent_between h (rename_to_guest v x h))" by blast
  then show "\<exists>p\<in>set (g_pending_enforce g). pe_uid p = uid \<and> pe_deadline p \<le> ev_now v \<and> overdue v g p"
    by (auto simp: rename_sends(2))
  have u: "taken v ?h = taken v g" by (simp add: taken_def nick_uid_def walk_users_def unprotected_def fun_eq_iff)
  have n: "g_guest_nick h = g_guest_nick g" "g_enforce_seq h < 2 ^ 32" using h(1) by (simp_all add: sweeping_def unprotected_def)
  assume "taken v g nick"
  then have "taken v h (fst (guest_loop 100000 v h (g_enforce_seq h)))"
    using h(2) by (simp add: rename_sends(2) sweeping_taken [OF h(1)] u)
  from guest_loop_taken [OF n(2) this] have "\<forall>k<100000. taken v g (g_guest_nick g @ show_nat ((g_enforce_seq h + k) mod 2 ^ 32))"
    by (simp add: sweeping_taken [OF h(1)] u n(1))
  then show "\<exists>s. \<forall>k<100000. taken v g (g_guest_nick g @ show_nat ((s + k) mod 2 ^ 32))" by blast
qed

text \<open>C39. Nick protection renames only a client it warned whose time is up, who still wears the nick, is
  not logged in to its account, and whose account still wants protection; the new nick is neither worn
  nor registered, unless a hundred thousand in a row are; and who logs in first is never renamed.\<close>

theorem renamed_only_when_due:
  assumes "g_enforce_seq g < 2 ^ 32" "OnUser (ForceNick uid nick) \<in> set (sent_between g (enforce_sweep v g))"
  shows "(\<exists>p\<in>set (g_pending_enforce g). pe_uid p = uid \<and> pe_deadline p \<le> ev_now v \<and>
      nick_uid v g (pe_nick p) = Some uid \<and> login_of g uid \<noteq> resolve_account (g_db g) (pe_nick p) \<and>
      (\<exists>a. resolve_account (g_db g) (pe_nick p) = Some a \<and> account_wants_protect (g_db g) a)) \<and>
    (\<not> taken v g nick \<or> (\<exists>s. \<forall>k<100000. taken v g (g_guest_nick g @ show_nat ((s + k) mod 2 ^ 32)))) \<and>
    (\<forall>h w acct. g = track_account w (OnLink (Metadata uid ''accountname'' acct)) h \<longrightarrow> acct = [] \<or> uid = ''*'')"
proof (intro conjI allI impI)
  obtain p where p: "p \<in> set (g_pending_enforce g)" "pe_uid p = uid" "pe_deadline p \<le> ev_now v" "overdue v g p"
    using enforce_sweep_renames(1) [OF assms] by blast
  then show "\<exists>p\<in>set (g_pending_enforce g). pe_uid p = uid \<and> pe_deadline p \<le> ev_now v \<and>
      nick_uid v g (pe_nick p) = Some uid \<and> login_of g uid \<noteq> resolve_account (g_db g) (pe_nick p) \<and>
      (\<exists>a. resolve_account (g_db g) (pe_nick p) = Some a \<and> account_wants_protect (g_db g) a)"
    by (intro bexI [of _ p]) (auto simp: overdue_def split: option.splits)
  show "\<not> taken v g nick \<or> (\<exists>s. \<forall>k<100000. taken v g (g_guest_nick g @ show_nat ((s + k) mod 2 ^ 32)))"
    using enforce_sweep_renames(2) [OF assms] by blast
  fix h w acct assume g: "g = track_account w (OnLink (Metadata uid ''accountname'' acct)) h"
  have all: "g_pending_enforce (emit_all as g) = g_pending_enforce g" for as g
    by (induction as arbitrary: g) (simp_all add: emit_all_def)
  show "acct = [] \<or> uid = ''*''"
    using p(1,2) unfolding g
    by (auto simp: track_account_def no_longer_pending_def on_network_def on_db_def all Let_def split: if_splits)
qed

definition late_engine :: engine where
  "late_engine = (engine_new [] example_arrived)\<lparr>g_network := network_empty\<lparr>w_users := [''9AA'' \<mapsto>
       \<lparr>u_uid = ''9AA'', u_nick = ''Bob'', u_ident = [], u_host = [], u_realhost = [], u_ip = [], u_gecos = [],
        u_fingerprint = [], u_oper = [], u_umodes = {}\<rparr>]\<rparr>,
     g_pending_enforce := [\<lparr>pe_uid = ''9AA'', pe_nick = ''bob'', pe_deadline = 900\<rparr>]\<rparr>"

theorem renamed_only_when_due_witness:
  "\<exists>nick. OnUser (ForceNick ''9AA'' nick) \<in> set (sent_between late_engine (enforce_sweep plain_env late_engine)) \<and>
     login_of late_engine ''9AA'' \<noteq> resolve_account (g_db late_engine) ''bob''"
proof -
  let ?u = "\<lparr>u_uid = ''9AA'', u_nick = ''Bob'', u_ident = [], u_host = [], u_realhost = [], u_ip = [], u_gecos = [],
        u_fingerprint = [], u_oper = [], u_umodes = {}\<rparr>"
  have e: "g_pending_enforce late_engine = [\<lparr>pe_uid = ''9AA'', pe_nick = ''bob'', pe_deadline = 900\<rparr>]"
    "g_db late_engine = example_arrived" "w_users (g_network late_engine) = [''9AA'' \<mapsto> ?u]"
    "w_accounts (g_network late_engine) = Map.empty" "g_enforce_seq late_engine = 0"
    by (simp_all add: late_engine_def engine_new_def network_empty_def)
  have "nick_uid plain_env late_engine ''bob'' = Some ''9AA''"
    by (simp add: nick_uid_def walk_users_def uid_by_nick_def e values_of_def plain_env_def eq_ignore_ascii_case_def
        key_def ascii_simps)
  moreover have "resolve_account (g_db late_engine) ''bob'' = Some ''bob''"
    by (simp add: e resolve_account_def resolved_key_def example_arrived_db example_keys example_account_def new_account_def)
  moreover have "account_wants_protect (g_db late_engine) ''bob''"
    by (simp add: e account_wants_protect_def account_of_def example_arrived_db example_keys example_account_def new_account_def)
  ultimately have "overdue plain_env late_engine \<lparr>pe_uid = ''9AA'', pe_nick = ''bob'', pe_deadline = 900\<rparr>"
    by (simp add: overdue_def login_of_def net_account_of_def e)
  then have "enforce_sweep plain_env late_engine = rename_to_guest plain_env ''9AA'' (unprotected plain_env late_engine)"
    by (simp add: enforce_sweep_fold e plain_env_def)
  moreover have "sent_between late_engine g' = sent_between (unprotected plain_env late_engine) g'" for g'
    by (simp add: sent_between_def unprotected_def)
  ultimately obtain nick where
    n: "OnUser (ForceNick ''9AA'' nick) \<in> set (sent_between late_engine (enforce_sweep plain_env late_engine))"
    by (simp add: rename_sends(2))
  from renamed_only_when_due [OF _ n] have "login_of late_engine ''9AA'' \<noteq> resolve_account (g_db late_engine) ''bob''"
    by (simp add: e)
  with n show ?thesis by blast
qed

subsection \<open>Expiry\<close>

text \<open>What expiry may not take from an account: its record, its operator standing, its sessions.\<close>

definition in_use :: "env \<Rightarrow> string \<Rightarrow> engine \<Rightarrow> bool" where
  "in_use v acct g \<longleftrightarrow> is_operator (ev_now v) g acct \<or> (\<exists>uid. (case login_of g uid of None \<Rightarrow> False
     | Some a \<Rightarrow> eq_ignore_ascii_case a acct))"

definition leaves :: "string \<Rightarrow> db \<Rightarrow> db \<Rightarrow> bool" where
  "leaves acct d d' \<longleftrightarrow> (accounts (st d) (key acct) \<noteq> None \<longrightarrow> accounts (st d') (key acct) \<noteq> None) \<and>
     n_opers (net (st d')) = n_opers (net (st d))"

lemma leaves_refl [simp]: "leaves acct d d"
  by (simp add: leaves_def)

lemma leaves_trans: "leaves acct d d1 \<Longrightarrow> leaves acct d1 d2 \<Longrightarrow> leaves acct d d2"
  by (simp add: leaves_def)

lemma leaves_logged:
  "(\<And>l. leaves acct d (snd (k (d\<lparr>lg := l\<rparr>)))) \<Longrightarrow> leaves acct d (snd (logged err ev k d))"
  by (auto simp: logged_def leaves_def split: prod.split sum.split)

lemma leaves_channels: "leaves acct d (on_store (\<lambda>s. s\<lparr>channels := f (channels s)\<rparr>) (d\<lparr>lg := l\<rparr>))"
  by (simp add: leaves_def on_store_def)

lemma leaves_drop_channel: "leaves acct d (snd (drop_channel chan d))"
  by (auto simp: drop_channel_def intro!: leaves_logged leaves_channels)

lemma leaves_channel_setters: "leaves acct d (snd (set_founder chan s d))" "leaves acct d (snd (set_successor chan t d))"
  by (auto simp: set_founder_def set_successor_def channel_set_def on_channel_def intro!: leaves_logged leaves_channels
      split: option.split)

lemma leaves_release_loop: "leaves acct d (snd (release_loop a cs d))"
proof (induction cs arbitrary: d)
  case (Cons chan cs)
  have fall: "leaves acct d (snd (release_loop a cs (snd (drop_channel chan d1))))" if "leaves acct d d1" for d1
    using leaves_trans [OF leaves_trans [OF that leaves_drop_channel] Cons.IH] .
  have move: "leaves acct d (snd (release_loop a cs (snd (set_successor chan None d1))))" if "leaves acct d d1" for d1
    using leaves_trans [OF leaves_trans [OF that leaves_channel_setters(2)] Cons.IH] .
  show ?case
  proof (cases "valid_successor d a chan")
    case (Some s)
    obtain r d1 where r: "set_founder chan s d = (r, d1)" by (cases "set_founder chan s d")
    then have "leaves acct d d1" using leaves_channel_setters(1) by (metis snd_conv)
    with fall move Some r show ?thesis by (auto simp: release_loop.simps Let_def case_prod_beta split: sum.split)
  qed (use fall in \<open>simp add: release_loop.simps Let_def case_prod_beta\<close>)
qed (simp add: release_loop.simps)

lemma leaves_drop_account: "key a \<noteq> key acct \<Longrightarrow> leaves acct d (snd (drop_account a d))"
proof -
  assume "key a \<noteq> key acct"
  then have "leaves acct d (snd (logged RegInternal (AccountDropped a) (\<lambda>d. (Inr True,
      on_store (\<lambda>s. purge_account_refs a (s\<lparr>accounts := (accounts s)(key a := None)\<rparr>)) d)) d))"
    by (intro leaves_logged) (simp add: leaves_def on_store_def purge_account_refs_def)
  then show ?thesis by (simp add: drop_account_def)
qed

lemma leaves_warned: "leaves acct d (mark_account_warned a d)" "leaves acct d (mark_channel_warned c d)"
  by (auto simp: mark_account_warned_def mark_channel_warned_def leaves_def on_account_def on_channel_def on_store_def
      logged_ignore_def modify_def split: option.split)

definition spared :: "env \<Rightarrow> string \<Rightarrow> engine \<Rightarrow> bool" where
  "spared v acct g \<longleftrightarrow> accounts (st (g_db g)) (key acct) \<noteq> None \<and> in_use v acct g \<and>
     finite (dom (w_accounts (g_network g)))"

lemma spared_frame:
  assumes "spared v acct g" "leaves acct (g_db g) (g_db g')" "g_opers g' = g_opers g"
    "\<And>uid a. login_of g uid = Some a \<Longrightarrow> eq_ignore_ascii_case a acct \<Longrightarrow> login_of g' uid = Some a"
    "dom (w_accounts (g_network g')) \<subseteq> dom (w_accounts (g_network g))"
  shows "spared v acct g'"
proof -
  have "is_operator (ev_now v) g' acct = is_operator (ev_now v) g acct"
    using assms(2,3) by (simp add: is_operator_def oper_privs_def oper_privs_of_def leaves_def)
  moreover have "\<exists>uid. case login_of g' uid of None \<Rightarrow> False | Some a \<Rightarrow> eq_ignore_ascii_case a acct"
    if "\<exists>uid. case login_of g uid of None \<Rightarrow> False | Some a \<Rightarrow> eq_ignore_ascii_case a acct"
    using that assms(4) by (metis option.case_eq_if option.collapse option.distinct(1) option.sel)
  ultimately show ?thesis
    using assms(1,2,5) finite_subset by (auto simp: spared_def in_use_def leaves_def)
qed

lemma spared_plain:
  "spared v acct g \<Longrightarrow> leaves acct (g_db g) (g_db g') \<Longrightarrow> g_opers g' = g_opers g \<Longrightarrow>
   w_accounts (g_network g') = w_accounts (g_network g) \<Longrightarrow> spared v acct g'"
  by (erule spared_frame) (auto simp: login_of_def net_account_of_def)

lemma audit_frame:
  "g_db (audit v m g) = g_db g" "g_opers (audit v m g) = g_opers g"
  "w_accounts (g_network (audit v m g)) = w_accounts (g_network g)"
  by (simp_all add: audit_def record_text_def record_incident_def case_prod_beta Let_def)

lemma spared_account:
  assumes o: "orders_ok v" and s: "spared v acct g"
  shows "spared v acct (expire_account v a g)"
proof (cases "is_operator (ev_now v) g a \<or> sessions_of v g a \<noteq> []")
  case True
  then show ?thesis using s by (simp add: expire_account_def)
next
  case False
  have k: "key a \<noteq> key acct"
  proof
    assume k: "key a = key acct"
    have op: "is_operator (ev_now v) g a = is_operator (ev_now v) g acct"
      using k by (simp add: is_operator_def oper_privs_def oper_privs_of_def)
    moreover have "\<not> (case login_of g uid of None \<Rightarrow> False | Some b \<Rightarrow> eq_ignore_ascii_case b a)" for uid
      using sessions_of_set [OF o, of g uid a] s False by (auto simp: spared_def)
    moreover have "(\<lambda>b. eq_ignore_ascii_case b a) = (\<lambda>b. eq_ignore_ascii_case b acct)"
      by (simp add: eq_ignore_ascii_case_def k)
    ultimately show False using s False unfolding spared_def in_use_def by metis
  qed
  obtain r d where d: "drop_account a (g_db g) = (r, d)" by (cases "drop_account a (g_db g)")
  then have ld: "leaves acct (g_db g) d" using leaves_drop_account [OF k, of "g_db g"] by simp
  then have plain: "spared v acct (g\<lparr>g_db := d\<rparr>)" using s by (intro spared_plain [OF s]) simp_all
  show ?thesis
  proof (cases "r = Inr True")
    case True
    let ?h = "handle_account_gone v a ''expired after a long period of inactivity'' True (g\<lparr>g_db := d\<rparr>)"
    note e = account_gone_effect [where v = v and acct = a and release = True and g = "g\<lparr>g_db := d\<rparr>"
        and why = "''expired after a long period of inactivity''"]
    have "spared v acct ?h"
    proof (rule spared_frame [OF plain])
      show "leaves acct (g_db (g\<lparr>g_db := d\<rparr>)) (g_db ?h)"
        by (simp add: e(3) released_db_def release_founded_channels_def leaves_release_loop)
      show "login_of ?h uid = Some b" if "login_of (g\<lparr>g_db := d\<rparr>) uid = Some b" "eq_ignore_ascii_case b acct" for uid b
        using that k sessions_of_set [OF o] plain
        by (auto simp: e(1) without_sessions_def spared_def eq_ignore_ascii_case_def)
      have "dom (login_of ?h) \<subseteq> dom (login_of (g\<lparr>g_db := d\<rparr>))"
        by (auto simp: e(1) without_sessions_def split: if_splits)
      then show "dom (w_accounts (g_network ?h)) \<subseteq> dom (w_accounts (g_network (g\<lparr>g_db := d\<rparr>)))"
        by (simp add: login_of_def net_account_of_def dom_def)
    qed (simp add: e(4))
    then show ?thesis
      using False d True by (simp add: expire_account_def) (erule spared_plain; simp add: audit_frame)
  qed (use False d plain in \<open>auto simp: expire_account_def split: sum.split bool.split\<close>)
qed

lemma spared_channel: "spared v acct g \<Longrightarrow> spared v acct (expire_channel v chan g)"
proof -
  assume s: "spared v acct g"
  obtain r d where d: "drop_channel chan (g_db g) = (r, d)" by (cases "drop_channel chan (g_db g)")
  then have "leaves acct (g_db g) d" using leaves_drop_channel [of acct "g_db g" chan] by simp
  then show ?thesis
    using s d by (auto simp: expire_channel_def audit_frame intro: spared_plain split: sum.split)
qed

lemma spared_fold: "(\<And>x g. spared v acct g \<Longrightarrow> spared v acct (f x g)) \<Longrightarrow> spared v acct g \<Longrightarrow> spared v acct (fold f xs g)"
  by (induction xs arbitrary: g) simp_all

lemma spared_warn: "spared v acct g \<Longrightarrow> spared v acct (warn_phase v g)"
proof -
  have "spared v acct (warn_account x g)" "spared v acct (warn_channel y g)" if "spared v acct g" for x y g
    using that leaves_warned
    by (auto simp: warn_account_def warn_channel_def on_db_def split: prod.split intro!: spared_plain [OF that])
  then show "spared v acct g \<Longrightarrow> spared v acct (warn_phase v g)"
    by (auto simp: warn_phase_def Let_def intro!: spared_fold split: option.split)
qed

text \<open>The expiry sweep never takes an account whose owner is a configured or granted operator or has a
  client logged in, whatever else it drops on the way.\<close>

theorem expiry_spares_accounts_in_use:
  assumes "orders_ok v" "finite (dom (w_accounts (g_network g)))" "accounts (st (g_db g)) (key acct) \<noteq> None"
    and "is_operator (ev_now v) g acct \<or> (\<exists>uid a. login_of g uid = Some a \<and> eq_ignore_ascii_case a acct)"
  shows "accounts (st (g_db (expire_sweep v g))) (key acct) \<noteq> None"
proof -
  have "spared v acct g" using assms(2-4) by (auto simp: spared_def in_use_def) (metis option.simps(5))
  then have 1: "spared v acct (warn_phase v g)" by (rule spared_warn)
  let ?g1 = "warn_phase v g"
  define g2 where "g2 = (case g_account_ttl ?g1 of None \<Rightarrow> ?g1
      | Some ttl \<Rightarrow> fold (expire_account v) (expired_accounts (walk_accounts v ?g1) (ev_now v) ttl (g_db ?g1)) ?g1)"
  define g3 where "g3 = (case g_channel_ttl g2 of None \<Rightarrow> g2
      | Some ttl \<Rightarrow> fold (expire_channel v) (expired_channels (walk_channels_db v g2) (ev_now v) ttl (g_db g2)) g2)"
  have "spared v acct g2" unfolding g2_def using 1 spared_account [OF assms(1)] by (auto intro: spared_fold split: option.split)
  then have "spared v acct g3" unfolding g3_def using spared_channel by (auto intro: spared_fold split: option.split)
  moreover have "expire_sweep v g = prune_kicker_caches (emitting (reconcile_bots v) g3)"
    unfolding expire_sweep_def Let_def g3_def g2_def by (rule refl)
  then have "g_db (expire_sweep v g) = g_db g3" by (simp add: prune_kicker_caches_def emitting_reconcile)
  ultimately show ?thesis by (simp add: spared_def)
qed

theorem expiry_spares_accounts_in_use_witness:
  "expired_accounts [''bob''] 1000 10 example_arrived = [''bob''] \<and>
   accounts (st (g_db (expire_sweep plain_env (gone_engine\<lparr>g_account_ttl := Some 10\<rparr>)))) (key ''bob'') \<noteq> None"
proof -
  let ?g = "gone_engine\<lparr>g_account_ttl := Some 10\<rparr>"
  have "expired_accounts [''bob''] 1000 10 example_arrived = [''bob'']"
    by (simp add: expired_accounts_def values_of_def example_arrived_db example_account_def new_account_def account_idle_def)
  moreover have "orders_ok plain_env" by (simp add: orders_ok_def plain_env_def)
  moreover have "accounts (st (g_db ?g)) (key ''bob'') \<noteq> None"
    by (simp add: gone_engine_def engine_new_def example_arrived_db example_keys)
  moreover have "login_of ?g ''9AA'' = Some ''Bob''" "finite (dom (w_accounts (g_network ?g)))"
    by (simp_all add: gone_engine_def login_of_def net_account_of_def)
  moreover have "eq_ignore_ascii_case ''Bob'' ''bob''"
    by (simp add: eq_ignore_ascii_case_def key_def ascii_simps)
  ultimately show ?thesis using expiry_spares_accounts_in_use by blast
qed

subsection \<open>Incident numbers\<close>

fun removal_id :: "net_action \<Rightarrow> string option" where
  "removal_id (OnChannel (KickUser _ _ _ (Stamped _ i))) = Some i"
| "removal_id (OnUser (KillUser _ _ (Stamped _ i))) = Some i"
| "removal_id _ = None"

fun removes :: "net_action \<Rightarrow> bool" where
  "removes (OnChannel (KickUser _ _ _ _)) = True"
| "removes (OnUser (KillUser _ _ _)) = True"
| "removes _ = False"

lemma stamp_incident_effect:
  "stamp_incident v a g = (a', g') \<Longrightarrow>
   (if removes a then removal_id a' = Some (incident_code (w_incident_seq (g_network g))) \<and>
       w_incident_seq (g_network g') = w_incident_seq (g_network g) + 1
     else a' = a \<and> g' = g) \<and> removes a' = removes a"
  by (cases a rule: removes.cases)
    (auto simp: stamp_incident_def record_text_def record_incident_def case_prod_beta Let_def)

lemma stamp_incidents_effect:
  "stamp_incidents v acts g = (acts', g') \<Longrightarrow>
   map removal_id (filter removes acts') =
     map (Some \<circ> incident_code) [w_incident_seq (g_network g) ..< w_incident_seq (g_network g')] \<and>
   map removes acts' = map removes acts \<and> w_incident_seq (g_network g) \<le> w_incident_seq (g_network g')"
proof (induction acts arbitrary: g acts')
  case (Cons a as)
  obtain a1 g1 where 1: "stamp_incident v a g = (a1, g1)" by (cases "stamp_incident v a g")
  obtain as1 where 2: "stamp_incidents v as g1 = (as1, g')" "acts' = a1 # as1"
    using Cons.prems 1 by (auto split: prod.splits)
  show ?case using stamp_incident_effect [OF 1] Cons.IH [OF 2(1)] 2(2) by (auto simp: upt_conv_Cons)
qed simp

lemma degrade_removes: "removes (degrade a) = removes a" "removal_id (degrade a) = removal_id a"
proof -
  show "removes (degrade a) = removes a"
    by (cases a rule: degrade.cases) (auto split: net_action.split talk_action.split)
  show "removal_id (degrade a) = removal_id a"
    by (cases a rule: degrade.cases) (auto split: net_action.split talk_action.split)
qed

lemma degrade_removals: "map removal_id (filter removes (map degrade acts)) = map removal_id (filter removes acts)"
  by (induction acts) (simp_all add: degrade_removes)

lemma track_accounts_seq: "w_incident_seq (g_network (track_accounts v acts g)) = w_incident_seq (g_network g)"
proof -
  have "w_incident_seq (g_network (track_account v a g)) = w_incident_seq (g_network g)" for a g
    by (auto simp: track_account_def no_longer_pending_def on_network_def on_db_def clear_account_def set_account_def Let_def
        split: net_action.split link_action.split)
  then show ?thesis unfolding track_accounts_def by (rule fold_keeps [where F = "\<lambda>g. w_incident_seq (g_network g)"])
qed

text \<open>Of the actions that leave the event handler every kick and every kill carries an incident number,
  and no two removals, of one event or of two, carry the same.\<close>

theorem removals_are_numbered:
  "case finish v out1 evout1 g of (acts1, g1) \<Rightarrow> (case finish v out2 evout2 g1 of (acts2', g2) \<Rightarrow>
     None \<notin> set (map removal_id (filter removes (acts1 @ acts2'))) \<and>
     distinct (map removal_id (filter removes (acts1 @ acts2'))))"
proof -
  let ?t = "track_accounts v evout1 g"
  obtain as1 h1 where 1: "stamp_incidents v (out1 @ evout1) ?t = (as1, h1)" by fastforce
  let ?u = "track_accounts v evout2 h1"
  obtain as2 h2 where 2: "stamp_incidents v (out2 @ evout2) ?u = (as2, h2)" by fastforce
  let ?seq = "\<lambda>g. w_incident_seq (g_network g)"
  have u: "?seq ?u = ?seq h1" by (rule track_accounts_seq)
  have m: "map removal_id (filter removes (as1 @ as2)) = map (Some \<circ> incident_code) [?seq ?t ..< ?seq h2]"
    using stamp_incidents_effect [OF 1] stamp_incidents_effect [OF 2] u
      upt_add_eq_append [of "?seq ?t" "?seq h1" "?seq h2 - ?seq h1"] by simp
  have fin: "map removal_id (filter removes (fst (finish v out evout g))) =
      map removal_id (filter removes (fst (stamp_incidents v (out @ evout) (track_accounts v evout g))))" for out evout g
    by (simp add: finish_def case_prod_beta Let_def degrade_removals)
  have "snd (finish v out1 evout1 g) = h1" by (simp add: finish_def 1)
  then have f: "map removal_id (filter removes (fst (finish v out1 evout1 g) @ fst (finish v out2 evout2 (snd (finish v out1 evout1 g))))) =
      map (Some \<circ> incident_code) [?seq ?t ..< ?seq h2]"
    using m by (simp add: fin 1 2)
  have "inj (Some \<circ> incident_code)" using incident_code_inj by (simp add: inj_compose)
  then have "distinct (map (Some \<circ> incident_code) [?seq ?t ..< ?seq h2])"
    by (simp add: distinct_map inj_on_subset [of _ UNIV])
  moreover have "None \<notin> set (map (Some \<circ> incident_code) [?seq ?t ..< ?seq h2])" by auto
  ultimately show ?thesis unfolding case_prod_beta f [symmetric] by blast
qed

end
