(* ===== verification/Screen.thy ===== *)
theory Screen
  imports Engine NetworkOps
begin

text \<open>
  The abuse detectors as the engine runs them (src/src/engine/security/mod.rs): who is trusted, the
  report-or-enforce step every detector ends in, and the detectors for connections, nick changes, joins,
  parts, quits, channel lines, failed logins, registrations and evaded bans.
\<close>

subsection \<open>Trust and the shared step\<close>

definition on_security :: "(security \<Rightarrow> security) \<Rightarrow> engine \<Rightarrow> engine" where
  "on_security f g = g\<lparr>g_security := f (g_security g)\<rparr>"

definition count_event :: "env \<Rightarrow> string \<Rightarrow> nat \<Rightarrow> engine \<Rightarrow> nat \<times> engine" where
  "count_event v k life g =
     (let (n, c) = hit k (ev_now v) life (sy_counters (g_security g))
      in (n, on_security (\<lambda>s. s\<lparr>sy_counters := c\<rparr>) g))"

definition trusted_identity :: "engine \<Rightarrow> string \<Rightarrow> string option \<Rightarrow> bool" where
  "trusted_identity g uid chan =
     (case sy_cfg (g_security g) of
        None \<Rightarrow> False
      | Some c \<Rightarrow>
          sc_exempt_opers c \<and> net_is_oper (g_network g) uid \<or>
          sc_exempt_accounts c \<and> login_of g uid \<noteq> None \<or>
          (case chan of None \<Rightarrow> False
           | Some ch \<Rightarrow> sc_exempt_voice c \<and> (net_is_op (g_network g) ch uid \<or> net_is_voiced (g_network g) ch uid)))"

definition security_identity :: "env \<Rightarrow> engine \<Rightarrow> string \<Rightarrow> string option \<Rightarrow> (string \<times> string) option" where
  "security_identity v g uid chan =
     (if in_netsplit (ev_now v) (g_security g) then None
      else case abuse_ident (g_network g) uid of
        None \<Rightarrow> None
      | Some (ip, who) \<Rightarrow>
          if ip = [] \<or> is_exempt ip (g_security g) \<or> trusted_identity g uid chan then None
          else Some (ip, who))"

definition announce :: "env \<Rightarrow> string \<Rightarrow> string \<Rightarrow> message \<Rightarrow> step" where
  "announce v kind who why g =
     (let (permit, life, casc_permit, casc_life) = (case sy_cfg (g_security g) of
            None \<Rightarrow> (0, 1, 2 ^ 32 - 1, 1)
          | Some c \<Rightarrow> (sc_announce_permit c, sc_announce_life c, sc_cascade_permit c, sc_cascade_life c));
          verb = (if security_enforcing (g_security g) then ''acting on'' else ''would act on (report-only)'');
          (shown, g1) = count_event v ''sec|announce'' life g;
          (trips, g2) = count_event v ''sec|cascade'' casc_life g1
      in ((if shown \<le> permit then feed g ''SECURITY'' (Msg kind [verb, who, text_of why])
           else if shown = permit + 1 then feed g ''SECURITY'' (Msg ''alerts muted'' [show_nat life, show_nat permit])
           else []) @
          (if trips = min (casc_permit + 1) (2 ^ 32 - 1)
           then feed g ''SECURITY'' (Msg ''abuse cascade'' [show_nat trips, show_nat casc_life]) else []),
          g2))"

definition remember_offender :: "env \<Rightarrow> string \<Rightarrow> engine \<Rightarrow> engine" where
  "remember_offender v uid g =
     (case (sy_cfg (g_security g), login_of g uid) of
        (Some c, Some acct) \<Rightarrow> on_security (remember_ban acct (ev_now v) (ar_evade_ttl (sc_auth c))) g
      | _ \<Rightarrow> g)"

definition strike :: "env \<Rightarrow> string \<Rightarrow> string \<Rightarrow> string \<Rightarrow> message \<Rightarrow> nat \<Rightarrow> step" where
  "strike v uid msk kind why ban g =
     (if security_enforcing (g_security g) \<and> g_sid g \<noteq> [] then
        let reason = Msg ''Security'' [kind, text_of why];
            g1 = (if ban > 0
                  then on_db (snd \<circ> akill_add (ev_now v) Gline msk ''Security'' (text_of reason)
                         (Some ((ev_now v + ban) mod 2 ^ 64))) g
                  else g)
        in (OnUser (KillUser (g_sid g) uid reason) #
              (if ban > 0 then [OnLink (AddLine ''G'' msk ''Security'' ban reason)] else []),
            remember_offender v uid g1)
      else ([], g))"

definition security_act ::
  "env \<Rightarrow> string \<Rightarrow> string \<Rightarrow> string \<Rightarrow> string \<Rightarrow> message \<Rightarrow> nat \<Rightarrow> step" where
  "security_act v who uid msk kind why ban =
     and_also (announce v kind who why) (strike v uid msk kind why ban)"

text \<open>A counted event above its permit trips: the trip is counted in the statistics and acted on.\<close>

definition trip ::
  "env \<Rightarrow> string \<Rightarrow> nat \<Rightarrow> nat \<Rightarrow> string \<Rightarrow> (nat \<Rightarrow> step) \<Rightarrow> step \<Rightarrow> step" where
  "trip v k life permit stat act otherwise g =
     (let (n, g1) = count_event v k life g in
      if n > permit then act n (bump_stat (''security.'' @ stat) g1) else otherwise g1)"

definition nothing :: step where "nothing g = ([], g)"

subsection \<open>Connections\<close>

definition connection_flood :: "env \<Rightarrow> connect_rules \<Rightarrow> string \<Rightarrow> string \<Rightarrow> string \<Rightarrow> step" where
  "connection_flood v r uid ip who g =
     (let (n_ip, g1) = count_event v (''cf|'' @ ip) (cr_flood_life r) g;
          range = cidr_of ip;
          (n_range, g2) = count_event v (''cr|'' @ range) (cr_range_life r) g1
      in if n_ip > cr_flood_permit r
         then security_act v who uid (''*@'' @ ip) ''connection flood''
                (Msg ''connections from'' [show_nat n_ip, show_nat (cr_flood_life r), ip]) (cr_ban r)
                (bump_stat ''security.connect.trips'' g2)
         else if n_range > cr_range_permit r
         then security_act v who uid (''*@'' @ range) ''connection flood''
                (Msg ''connections from range'' [show_nat n_range, show_nat (cr_range_life r), range]) (cr_ban r)
                (bump_stat ''security.connect.trips'' g2)
         else ([], g2))"

definition security_screen_connect :: "env \<Rightarrow> string \<Rightarrow> step" where
  "security_screen_connect v uid g =
     (if \<not> security_on (g_security g) \<or> in_netsplit (ev_now v) (g_security g) then ([], g)
      else case ban_target_of (walk_channels v g) (g_network g) uid of
        None \<Rightarrow> ([], g)
      | Some t \<Rightarrow>
          if bt_ip t = [] \<or> is_exempt (bt_ip t) (g_security g) \<or> trusted_identity g uid None then ([], g)
          else let who = bt_nick t @ ''!'' @ bt_ident t @ ''@'' @ bt_host t in
          case match_pattern (ev_matches v) (bt_nick t) (bt_ident t) (bt_host t) (bt_gecos t) (g_security g) of
            Some (reason, ban) \<Rightarrow>
              security_act v who uid (''*@'' @ bt_ip t) ''connection pattern'' (Lit reason) ban
                (bump_stat ''security.pattern.hits'' g)
          | None \<Rightarrow> (case sy_cfg (g_security g) of
                None \<Rightarrow> ([], g)
              | Some c \<Rightarrow>
                  if \<not> cr_enabled (sc_connect c) then ([], g)
                  else connection_flood v (sc_connect c) uid (bt_ip t) who g))"

subsection \<open>Behaviour\<close>

definition active_behavior :: "engine \<Rightarrow> behavior_rules option" where
  "active_behavior g =
     (case sy_cfg (g_security g) of
        None \<Rightarrow> None
      | Some c \<Rightarrow> if sc_enabled c \<and> br_enabled (sc_behavior c) then Some (sc_behavior c) else None)"

definition screened ::
  "'r option \<Rightarrow> env \<Rightarrow> string \<Rightarrow> string option \<Rightarrow> ('r \<Rightarrow> string \<Rightarrow> string \<Rightarrow> step) \<Rightarrow> step" where
  "screened rules v uid chan act g =
     (case rules of
        None \<Rightarrow> ([], g)
      | Some r \<Rightarrow> (case security_identity v g uid chan of
            None \<Rightarrow> ([], g)
          | Some (ip, who) \<Rightarrow> act r ip who g))"

definition security_screen_nick :: "env \<Rightarrow> string \<Rightarrow> step" where
  "security_screen_nick v uid g =
     screened (active_behavior g) v uid None (\<lambda>r ip who.
       trip v (''nf|'' @ uid) (br_nick_life r) (br_nick_permit r) ''nick.trips''
         (\<lambda>n. security_act v who uid (''*@'' @ ip) ''nick-change flood''
            (Msg ''nick changes'' [show_nat (br_nick_permit r), show_nat (br_nick_life r)]) (br_ban r))
         nothing) g"

definition security_screen_join :: "env \<Rightarrow> string \<Rightarrow> string \<Rightarrow> step" where
  "security_screen_join v uid chan g =
     screened (active_behavior g) v uid None (\<lambda>r ip who g.
       let g1 = snd (count_event v (''jj|'' @ uid @ ''|'' @ chan) (br_joinpart_grace r) g) in
       trip v (''mj|'' @ chan @ ''|'' @ cidr_of ip) (br_massjoin_life r) (br_massjoin_permit r) ''massjoin.trips''
         (\<lambda>n. security_act v who uid (''*@'' @ cidr_of ip) ''mass-join flood''
            (Msg ''joins from range'' [show_nat n, chan, cidr_of ip, show_nat (br_massjoin_life r)]) (br_ban r))
         (trip v (''cw|'' @ uid) (br_crawl_life r) (br_crawl_permit r) ''crawl.trips''
            (\<lambda>n. security_act v who uid (''*@'' @ ip) ''channel crawl''
               (Msg ''joined too many channels'' [show_nat (br_crawl_life r)]) (br_ban r))
            nothing) g1) g"

definition quick_part :: "env \<Rightarrow> behavior_rules \<Rightarrow> string \<Rightarrow> string \<Rightarrow> engine \<Rightarrow> bool \<times> engine" where
  "quick_part v r uid chan g =
     (let (n, c) = count (''jj|'' @ uid @ ''|'' @ chan) (ev_now v) (br_joinpart_grace r) (sy_counters (g_security g))
      in (n > 0, on_security (\<lambda>s. s\<lparr>sy_counters := c\<rparr>) g))"

definition security_screen_part :: "env \<Rightarrow> string \<Rightarrow> string \<Rightarrow> step" where
  "security_screen_part v uid chan g =
     screened (active_behavior g) v uid None (\<lambda>r ip who.
       trip v (''cy|'' @ uid) (br_cycle_life r) (br_cycle_permit r) ''cycle.trips''
         (\<lambda>n. security_act v who uid (''*@'' @ ip) ''join/part cycle''
            (Msg ''parts'' [show_nat (br_cycle_permit r), show_nat (br_cycle_life r)]) (br_ban r))
         (\<lambda>g. let (quick, g1) = quick_part v r uid chan g in
            if \<not> quick then ([], g1)
            else trip v (''jsp|'' @ uid) (br_joinpart_life r) (br_joinpart_permit r) ''joinspampart.trips''
              (\<lambda>n. security_act v who uid (''*@'' @ ip) ''join-spam-part''
                 (Msg ''repeated quick join/part'' [chan]) (br_ban r))
              nothing g1)) g"

definition security_screen_quit :: "env \<Rightarrow> string \<Rightarrow> string \<Rightarrow> step" where
  "security_screen_quit v uid reason g =
     (case active_behavior g of
        None \<Rightarrow> ([], g)
      | Some r \<Rightarrow>
          if \<not> quit_matches reason (br_quit_reasons r) then ([], g)
          else screened (Some r) v uid None (\<lambda>r ip who.
            trip v (''qf|'' @ ip) (br_quit_life r) (br_quit_permit r) ''quitflood.trips''
              (\<lambda>n. security_act v who uid (''*@'' @ ip) ''broken-client quit flood''
                 (Msg ''repeated quits'' [reason, ip]) (br_ban r))
              nothing) g)"

subsection \<open>Channel lines\<close>

definition active_content :: "engine \<Rightarrow> content_rules option" where
  "active_content g =
     (case sy_cfg (g_security g) of
        None \<Rightarrow> None
      | Some c \<Rightarrow> if sc_enabled c \<and> cn_enabled (sc_content c) then Some (sc_content c) else None)"

definition channel_highlights :: "engine \<Rightarrow> string \<Rightarrow> string \<Rightarrow> nat \<Rightarrow> nat" where
  "channel_highlights g chan text min_len =
     count_highlights text (key ` {n \<in> Option.these (net_nick_of (g_network g) ` channel_members (g_network g) chan).
       min_len \<le> length n})"

definition repeat_wave :: "env \<Rightarrow> content_rules \<Rightarrow> string \<Rightarrow> string \<Rightarrow> string \<Rightarrow> string \<Rightarrow> string \<Rightarrow> step" where
  "repeat_wave v r uid chan text ip who g =
     (let norm = key (trim text) in
      if length norm < cn_repeat_min r then ([], g)
      else trip v (''rp|'' @ chan @ ''|'' @ show_hex (ev_hash v [norm])) (cn_repeat_life r) (cn_repeat_permit r)
        ''repeat.trips''
        (\<lambda>n. security_act v who uid (''*@'' @ ip) ''repeat-spam wave''
           (Msg ''line repeated'' [chan, take 50 norm]) (cn_ban r))
        nothing g)"

definition bad_unicode :: "env \<Rightarrow> content_rules \<Rightarrow> string \<Rightarrow> string \<Rightarrow> string \<Rightarrow> string \<Rightarrow> string \<Rightarrow> step" where
  "bad_unicode v r uid chan text ip who g =
     (if length text \<ge> cn_badunicode_min r \<and> bad_unicode_reaches (cn_badunicode_score r) (map code text)
      then trip v (''bu|'' @ uid) (cn_badunicode_life r) (cn_badunicode_permit r) ''badunicode.trips''
        (\<lambda>n. security_act v who uid (''*@'' @ ip) ''bad-unicode spam''
           (Msg ''zalgo/zero-width text'' [chan]) (cn_ban r))
        (repeat_wave v r uid chan text ip who) g
      else repeat_wave v r uid chan text ip who g)"

definition security_screen_message :: "env \<Rightarrow> string \<Rightarrow> string \<Rightarrow> string \<Rightarrow> step" where
  "security_screen_message v uid chan text g =
     screened (active_content g) v uid (Some chan) (\<lambda>r ip who g.
       let n = channel_highlights g chan text (cn_highlight_min_len r) in
       if n \<ge> cn_highlight_nicks r
       then trip v (''hl|'' @ uid) (cn_highlight_life r) (cn_highlight_permit r) ''highlight.trips''
         (\<lambda>_. security_act v who uid (''*@'' @ ip) ''highlight spam''
            (Msg ''pinged'' [show_nat n, chan]) (cn_ban r))
         (bad_unicode v r uid chan text ip who) g
       else bad_unicode v r uid chan text ip who g) g"

subsection \<open>Logins and registrations\<close>

definition active_auth :: "engine \<Rightarrow> auth_rules option" where
  "active_auth g =
     (case sy_cfg (g_security g) of
        None \<Rightarrow> None
      | Some c \<Rightarrow> if sc_enabled c \<and> ar_enabled (sc_auth c) then Some (sc_auth c) else None)"

definition security_screen_auth :: "env \<Rightarrow> string \<Rightarrow> step" where
  "security_screen_auth v uid g =
     screened (active_auth g) v uid None (\<lambda>r ip who.
       trip v (''af|'' @ ip) (ar_fail_life r) (ar_fail_permit r) ''authfail.trips''
         (\<lambda>n. security_act v who uid (''*@'' @ ip) ''auth brute-force''
            (Msg ''repeated failed logins'' [ip]) (ar_ban r))
         nothing) g"

text \<open>\<open>None\<close>: the registration may go on.\<close>

definition security_register_flood :: "env \<Rightarrow> string \<Rightarrow> engine \<Rightarrow> net_action list option \<times> engine" where
  "security_register_flood v uid g =
     (case active_auth g of
        None \<Rightarrow> (None, g)
      | Some r \<Rightarrow> (case security_identity v g uid None of
            None \<Rightarrow> (None, g)
          | Some (ip, who) \<Rightarrow>
              let (n, g1) = count_event v (''rf|'' @ ip) (ar_register_life r) g in
              if n > ar_register_permit r
              then let g2 = bump_stat ''security.regflood.trips'' g1
                   in (Some (feed g2 ''SECURITY'' (Msg ''registration flood'' [who, ip, show_nat (ar_register_life r)])), g2)
              else (None, g1)))"

definition security_screen_login :: "env \<Rightarrow> string \<Rightarrow> string \<Rightarrow> step" where
  "security_screen_login v uid acct g =
     (if \<not> security_enforcing (g_security g) \<or> \<not> is_evader acct (ev_now v) (g_security g) then ([], g)
      else case security_identity v g uid None of
        None \<Rightarrow> ([], g)
      | Some (ip, who) \<Rightarrow>
          let g1 = (case sy_cfg (g_security g) of None \<Rightarrow> g
                | Some c \<Rightarrow> on_security (remember_ban acct (ev_now v) (ar_evade_ttl (sc_auth c))) g);
              ban = (case sy_cfg (g_security g) of None \<Rightarrow> 0 | Some c \<Rightarrow> ar_ban (sc_auth c))
          in security_act v who uid (''*@'' @ ip) ''ban evasion'' (Msg ''banned account logged back in'' [acct]) ban
               (bump_stat ''security.evasion.trips'' g1))"

text \<open>What is screened, and the detector it goes to.\<close>

datatype sighting =
  Connecting | NickChanging | Joining string | Parting string | Quitting string | Saying string string
| FailingLogin | LoggingIn string | Registering

fun screen :: "env \<Rightarrow> string \<Rightarrow> sighting \<Rightarrow> step" where
  "screen v uid Connecting = security_screen_connect v uid"
| "screen v uid NickChanging = security_screen_nick v uid"
| "screen v uid (Joining chan) = security_screen_join v uid chan"
| "screen v uid (Parting chan) = security_screen_part v uid chan"
| "screen v uid (Quitting reason) = security_screen_quit v uid reason"
| "screen v uid (Saying chan line) = security_screen_message v uid chan line"
| "screen v uid FailingLogin = security_screen_auth v uid"
| "screen v uid (LoggingIn acct) = security_screen_login v uid acct"
| "screen v uid Registering =
     (\<lambda>g. case security_register_flood v uid g of (r, g1) \<Rightarrow> (case r of None \<Rightarrow> [] | Some acts \<Rightarrow> acts, g1))"

end
