(* ===== verification/ScreenProps.thy ===== *)
theory ScreenProps
  imports Screen
begin

text \<open>
  What the abuse detectors may and may not do: they leave trusted clients alone, only an armed
  subsystem strikes, it strikes the offender and bans only the offender's address or range, and an
  account once struck is struck again when it comes back.
\<close>

subsection \<open>What a detector touches\<close>

text \<open>A quiet change: statistics and rate counters.\<close>

definition calm :: "engine \<Rightarrow> engine \<Rightarrow> bool" where
  "calm g g' \<longleftrightarrow> (\<exists>m c. g' = g\<lparr>g_network := (g_network g)\<lparr>w_stats := m\<rparr>,
     g_security := (g_security g)\<lparr>sy_counters := c\<rparr>\<rparr>)"

lemma calm_refl [simp]: "calm g g"
  unfolding calm_def by (rule exI [of _ "w_stats (g_network g)"], rule exI [of _ "sy_counters (g_security g)"]) simp

lemma calm_trans: "calm g g1 \<Longrightarrow> calm g1 g2 \<Longrightarrow> calm g g2"
  unfolding calm_def by (elim exE, simp, intro exI, rule refl)

lemma calm_count: "calm g (snd (count_event v k life g))"
  unfolding calm_def count_event_def on_security_def case_prod_beta Let_def
  by (rule exI [of _ "w_stats (g_network g)"]) auto

lemma calm_bump: "calm g (bump_stat k g)"
  unfolding calm_def bump_stat_def on_network_def bump_def
  by (rule exI, rule exI [of _ "sy_counters (g_security g)"]) simp

lemma calm_quick: "calm g (snd (quick_part v r uid chan g))"
  unfolding calm_def quick_part_def on_security_def case_prod_beta Let_def
  by (rule exI [of _ "w_stats (g_network g)"]) auto

lemma calm_frame:
  assumes "calm g g'"
  shows "g_db g' = g_db g" "g_sid g' = g_sid g" "sy_cfg (g_security g') = sy_cfg (g_security g)"
    "sy_evaded (g_security g') = sy_evaded (g_security g)" "login_of g' uid = login_of g uid"
    "security_enforcing (g_security g') = security_enforcing (g_security g)"
    "security_identity v g' uid chan = security_identity v g uid chan" "feed g' = feed g"
proof -
  obtain m c where g': "g' = g\<lparr>g_network := (g_network g)\<lparr>w_stats := m\<rparr>,
      g_security := (g_security g)\<lparr>sy_counters := c\<rparr>\<rparr>"
    using assms unfolding calm_def by blast
  show "g_db g' = g_db g" "g_sid g' = g_sid g" "sy_cfg (g_security g') = sy_cfg (g_security g)"
    "sy_evaded (g_security g') = sy_evaded (g_security g)" "login_of g' uid = login_of g uid"
    "security_enforcing (g_security g') = security_enforcing (g_security g)"
    by (simp_all add: g' login_of_def net_account_of_def security_enforcing_def)
  show "feed g' = feed g" by (simp add: g' feed_def fun_eq_iff split: option.split)
  have "is_exempt ip (g_security g') = is_exempt ip (g_security g)" for ip by (simp add: g' is_exempt_def)
  moreover have "trusted_identity g' uid chan = trusted_identity g uid chan"
    by (simp add: g' trusted_identity_def net_is_oper_def net_is_op_def net_is_voiced_def login_of_def net_account_of_def
        split: option.split)
  moreover have "in_netsplit now (g_security g') = in_netsplit now (g_security g)" for now by (simp add: g' in_netsplit_def)
  moreover have "abuse_ident (g_network g') = abuse_ident (g_network g)" by (simp add: g' abuse_ident_def fun_eq_iff)
  ultimately show "security_identity v g' uid chan = security_identity v g uid chan"
    unfolding security_identity_def by presburger
qed

definition feed_only :: "net_action list \<Rightarrow> bool" where
  "feed_only acts \<longleftrightarrow> list_all (\<lambda>a. case a of Talk (Privmsg _ _ _) \<Rightarrow> True | _ \<Rightarrow> False) acts"

lemma feed_only_simps [simp]:
  "feed_only []" "feed_only (as @ bs) \<longleftrightarrow> feed_only as \<and> feed_only bs" "feed_only (feed g cat m)"
  by (auto simp: feed_only_def feed_def split: option.splits)

text \<open>What a strike does: the offender is killed, banned for the given time, and remembered.\<close>

definition struck :: "env \<Rightarrow> string \<Rightarrow> string \<Rightarrow> message \<Rightarrow> nat \<Rightarrow> net_action list \<Rightarrow> engine \<Rightarrow> engine \<Rightarrow> bool" where
  "struck v uid msk reason ban acts g g' \<longleftrightarrow>
     (\<exists>talk. feed_only talk \<and> acts = talk @ OnUser (KillUser (g_sid g) uid reason) #
        (if ban > 0 then [OnLink (AddLine ''G'' msk ''Security'' ban reason)] else [])) \<and>
     g_db g' = (if ban > 0 then snd (akill_add (ev_now v) Gline msk ''Security'' (text_of reason)
        (Some ((ev_now v + ban) mod 2 ^ 64)) (g_db g)) else g_db g) \<and>
     (\<forall>acct c. login_of g uid = Some acct \<longrightarrow> sy_cfg (g_security g) = Some c \<longrightarrow>
        sy_evaded (g_security g') acct = Some (sat_add (ev_now v) (ar_evade_ttl (sc_auth c))))"

text \<open>The two outcomes of a detector for a client with an address.\<close>

definition judged :: "env \<Rightarrow> string \<Rightarrow> string \<Rightarrow> engine \<Rightarrow> net_action list \<times> engine \<Rightarrow> bool" where
  "judged v uid ip g r \<longleftrightarrow>
     feed_only (fst r) \<and> g_db (snd r) = g_db g \<or>
     security_enforcing (g_security g) \<and> g_sid g \<noteq> [] \<and>
     (\<exists>msk \<in> {''*@'' @ ip, ''*@'' @ cidr_of ip}. \<exists>reason ban. struck v uid msk reason ban (fst r) g (snd r))"

lemma judged_cong:
  assumes "g_db g1 = g_db g" "g_sid g1 = g_sid g" "sy_cfg (g_security g1) = sy_cfg (g_security g)"
    "login_of g1 uid = login_of g uid"
  shows "judged v uid ip g1 r = judged v uid ip g r"
  unfolding judged_def struck_def security_enforcing_def assms ..

lemma judged_calm: "calm g g1 \<Longrightarrow> judged v uid ip g1 r = judged v uid ip g r"
  by (rule judged_cong) (simp_all add: calm_frame)

lemma announce_effect: "feed_only (fst (announce v kind who why g)) \<and> calm g (snd (announce v kind who why g))"
  unfolding announce_def Let_def case_prod_beta
  by (auto intro: calm_trans [OF calm_count calm_count])

lemma remember_offender_frame [simp]:
  "g_db (remember_offender v uid g) = g_db g" "g_sid (remember_offender v uid g) = g_sid g"
  "sy_cfg (g_security (remember_offender v uid g)) = sy_cfg (g_security g)"
  by (auto simp: remember_offender_def on_security_def remember_ban_def split: option.splits)

lemma on_db_frame [simp]:
  "g_db (on_db f g) = f (g_db g)" "g_sid (on_db f g) = g_sid g" "g_security (on_db f g) = g_security g"
  "login_of (on_db f g) uid = login_of g uid"
  by (simp_all add: on_db_def login_of_def)

lemma remember_offender_evaded:
  "login_of g uid = Some acct \<Longrightarrow> sy_cfg (g_security g) = Some c \<Longrightarrow>
   sy_evaded (g_security (remember_offender v uid g)) acct = Some (sat_add (ev_now v) (ar_evade_ttl (sc_auth c)))"
  by (simp add: remember_offender_def on_security_def remember_ban_def)

lemma security_act_judged:
  assumes "msk \<in> {''*@'' @ ip, ''*@'' @ cidr_of ip}"
  shows "judged v uid ip g (security_act v who uid msk kind why ban g)"
proof -
  define a where "a = announce v kind who why g"
  have a: "feed_only (fst a)" "calm g (snd a)" using announce_effect by (simp_all add: a_def)
  have r: "security_act v who uid msk kind why ban g =
      (fst a @ fst (strike v uid msk kind why ban (snd a)), snd (strike v uid msk kind why ban (snd a)))"
    by (simp add: security_act_def and_also_def a_def case_prod_beta Let_def)
  show ?thesis
  proof (cases "security_enforcing (g_security g) \<and> g_sid g \<noteq> []")
    case True
    then have "struck v uid msk (Msg ''Security'' [kind, text_of why]) ban (fst a @ fst (strike v uid msk kind why ban (snd a))) g
        (snd (strike v uid msk kind why ban (snd a)))"
      using a by (auto simp: struck_def strike_def calm_frame [OF a(2)] Let_def remember_offender_evaded)
    then show ?thesis unfolding judged_def r using True assms by auto
  next
    case False
    then have "strike v uid msk kind why ban (snd a) = ([], snd a)"
      unfolding strike_def calm_frame [OF a(2)] by argo
    then show ?thesis using a by (simp add: judged_def r calm_frame [OF a(2)])
  qed
qed

subsection \<open>The contract of a detector\<close>

text \<open>A judgement on what comes out of a detector for an address that survives statistics, counters and
  words to the staff, and holds of the shared step, holds of every detector.\<close>

locale screening =
  fixes ok :: "string \<Rightarrow> engine \<Rightarrow> net_action list \<times> engine \<Rightarrow> bool" and v :: env and uid :: string
  assumes calm: "calm g g1 \<Longrightarrow> ok ip g1 r \<Longrightarrow> ok ip g r"
    and quiet: "feed_only acts \<Longrightarrow> calm g g1 \<Longrightarrow> ok ip g (acts, g1)"
    and act: "msk \<in> {''*@'' @ ip, ''*@'' @ cidr_of ip} \<Longrightarrow> ok ip g (security_act v who uid msk kind why ban g)"
    and remembered: "sy_cfg (g_security g) = Some c \<Longrightarrow>
      ok ip (on_security (remember_ban acct (ev_now v) (ar_evade_ttl (sc_auth c))) g) r \<Longrightarrow> ok ip g r"
begin

lemma nothing_ok: "ok ip g (nothing g)"
  by (simp add: nothing_def quiet)

lemma trip_ok:
  assumes "\<And>n g. ok ip g (act n g)" "\<And>g. ok ip g (otherwise g)"
  shows "ok ip g (trip v k life permit stat act otherwise g)"
proof -
  let ?c = "count_event v k life g"
  have "ok ip g (act (fst ?c) (bump_stat (''security.'' @ stat) (snd ?c)))"
    using assms(1) calm [OF calm_trans [OF calm_count calm_bump]] by blast
  moreover have "ok ip g (otherwise (snd ?c))" using assms(2) calm [OF calm_count] by blast
  ultimately show ?thesis by (simp add: trip_def case_prod_beta Let_def)
qed

lemmas trips = trip_ok act nothing_ok

definition fair :: "engine \<Rightarrow> net_action list \<times> engine \<Rightarrow> bool" where
  "fair g r \<longleftrightarrow> r = ([], g) \<or> (\<exists>ip who. security_identity v g uid None = Some (ip, who) \<and> ok ip g r)"

lemma screened_fair:
  assumes "\<And>r ip who g. rules = Some r \<Longrightarrow> ok ip g (act r ip who g)"
  shows "fair g (screened rules v uid chan act g)"
proof -
  have "security_identity v g uid chan = Some p \<Longrightarrow> security_identity v g uid None = Some p" for p
    by (cases chan) (auto simp: security_identity_def trusted_identity_def split: option.splits if_splits)
  with assms show ?thesis unfolding fair_def by (auto simp: screened_def split: option.splits)
qed

lemma connection_flood_ok: "ok ip g (connection_flood v r uid ip who g)"
proof -
  define g2 where "g2 = snd (count_event v (''cr|'' @ cidr_of ip) (cr_range_life r) (snd (count_event v (''cf|'' @ ip) (cr_flood_life r) g)))"
  have c: "calm g g2" unfolding g2_def by (rule calm_trans [OF calm_count calm_count])
  have "ok ip g (security_act v who uid m k why b (bump_stat s g2))"
    if "m \<in> {''*@'' @ ip, ''*@'' @ cidr_of ip}" for m k why b s
    using act [OF that] calm [OF calm_trans [OF c calm_bump]] by blast
  then show ?thesis
    using quiet [OF _ c, of "[]"] unfolding connection_flood_def Let_def case_prod_beta g2_def by auto
qed

lemma connect_fair: "fair g (security_screen_connect v uid g)"
proof (cases "security_screen_connect v uid g = ([], g)")
  case False
  then obtain t c where t: "ban_target_of (walk_channels v g) (g_network g) uid = Some t" "sy_cfg (g_security g) = Some c"
      "\<not> in_netsplit (ev_now v) (g_security g)" "bt_ip t \<noteq> []" "\<not> is_exempt (bt_ip t) (g_security g)"
      "\<not> trusted_identity g uid None" "security_on (g_security g)"
    by (auto simp: security_screen_connect_def security_on_def split: option.splits if_splits)
  let ?who = "bt_nick t @ ''!'' @ bt_ident t @ ''@'' @ bt_host t"
  have "security_identity v g uid None = Some (bt_ip t, ?who)"
    using t by (auto simp: security_identity_def ban_target_of_def abuse_ident_def)
  moreover have "ok (bt_ip t) g (security_act v who uid (''*@'' @ bt_ip t) kd w b (bump_stat k g))" for kd w b k who
    using act [of "''*@'' @ bt_ip t" "bt_ip t"] calm [OF calm_bump] by blast
  then have "ok (bt_ip t) g (security_screen_connect v uid g)"
    using connection_flood_ok t False
    by (auto simp: security_screen_connect_def Let_def split: option.splits if_splits)
  ultimately show ?thesis unfolding fair_def by blast
qed (simp add: fair_def)

lemma part_fair: "fair g (security_screen_part v uid chan g)"
proof -
  have "ok ip g (let (quick, g1) = quick_part v r uid chan g in
          if \<not> quick then ([], g1)
          else trip v k l p s (\<lambda>n. security_act v who uid (''*@'' @ ip) kd w b) nothing g1)" for r ip k l p s who kd w b g
  proof -
    have "ok ip g1 (trip v k l p s (\<lambda>n. security_act v who uid (''*@'' @ ip) kd w b) nothing g1)" for g1
      by (intro trips) simp
    then have "ok ip g (trip v k l p s (\<lambda>n. security_act v who uid (''*@'' @ ip) kd w b) nothing (snd (quick_part v r uid chan g)))"
      using calm [OF calm_quick] by blast
    then show ?thesis unfolding case_prod_beta Let_def by (simp add: quiet calm_quick)
  qed
  then show ?thesis unfolding security_screen_part_def by (intro screened_fair trips) auto
qed

lemma join_fair: "fair g (security_screen_join v uid chan g)"
  unfolding security_screen_join_def Let_def
proof (rule screened_fair)
  fix r ip who g
  let ?trip = "trip v (''mj|'' @ chan @ ''|'' @ cidr_of ip) (br_massjoin_life r) (br_massjoin_permit r) ''massjoin.trips''
         (\<lambda>n. security_act v who uid (''*@'' @ cidr_of ip) ''mass-join flood''
            (Msg ''joins from range'' [show_nat n, chan, cidr_of ip, show_nat (br_massjoin_life r)]) (br_ban r))
         (trip v (''cw|'' @ uid) (br_crawl_life r) (br_crawl_permit r) ''crawl.trips''
            (\<lambda>n. security_act v who uid (''*@'' @ ip) ''channel crawl''
               (Msg ''joined too many channels'' [show_nat (br_crawl_life r)]) (br_ban r))
            nothing)"
  have "ok ip g1 (?trip g1)" for g1 by (intro trips) simp_all
  then show "ok ip g (?trip (snd (count_event v (''jj|'' @ uid @ ''|'' @ chan) (br_joinpart_grace r) g)))"
    using calm [OF calm_count] by blast
qed

lemma bad_unicode_ok: "ok ip g (bad_unicode v r uid chan line ip who g)"
proof -
  have "ok ip g (repeat_wave v r uid chan line ip who g)" for g
    by (auto simp: repeat_wave_def Let_def intro!: trips quiet)
  then show ?thesis by (auto simp: bad_unicode_def intro!: trips)
qed

lemma message_fair: "fair g (security_screen_message v uid chan line g)"
  unfolding security_screen_message_def Let_def
  by (rule screened_fair) (auto intro!: trips bad_unicode_ok)

lemma quit_fair: "fair g (security_screen_quit v uid reason g)"
  unfolding security_screen_quit_def
  by (auto split: option.split simp: fair_def [of _ "([], _)"] intro!: screened_fair trips)

lemma nick_fair: "fair g (security_screen_nick v uid g)"
  unfolding security_screen_nick_def by (auto intro!: screened_fair trips)

lemma auth_fair: "fair g (security_screen_auth v uid g)"
  unfolding security_screen_auth_def by (auto intro!: screened_fair trips)

lemma login_fair: "fair g (security_screen_login v uid acct g)"
proof (cases "security_screen_login v uid acct g = ([], g)")
  case False
  then obtain ip who c where i: "security_identity v g uid None = Some (ip, who)" "sy_cfg (g_security g) = Some c"
    by (auto simp: security_screen_login_def security_enforcing_def split: option.splits if_splits)
  let ?g1 = "on_security (remember_ban acct (ev_now v) (ar_evade_ttl (sc_auth c))) g"
  have "security_screen_login v uid acct g = security_act v who uid (''*@'' @ ip) ''ban evasion''
      (Msg ''banned account logged back in'' [acct]) (ar_ban (sc_auth c)) (bump_stat ''security.evasion.trips'' ?g1)"
    using False i by (auto simp: security_screen_login_def Let_def split: if_splits)
  moreover have "ok ip g (security_act v who uid (''*@'' @ ip) ''ban evasion''
      (Msg ''banned account logged back in'' [acct]) (ar_ban (sc_auth c)) (bump_stat ''security.evasion.trips'' ?g1))"
    using remembered [OF i(2) calm [OF calm_bump act]] by blast
  ultimately show ?thesis using i unfolding fair_def by auto
qed (simp add: fair_def)

lemma register_fair: "fair g (screen v uid Registering g)"
proof -
  have "fair g (screened (active_auth g) v uid None (\<lambda>r ip who.
       trip v (''rf|'' @ ip) (ar_register_life r) (ar_register_permit r) ''regflood.trips''
         (\<lambda>n g. (feed g ''SECURITY'' (Msg ''registration flood'' [who, ip, show_nat (ar_register_life r)]), g)) nothing) g)"
    by (intro screened_fair trips quiet) simp_all
  moreover have "screen v uid Registering g = screened (active_auth g) v uid None (\<lambda>r ip who.
       trip v (''rf|'' @ ip) (ar_register_life r) (ar_register_permit r) ''regflood.trips''
         (\<lambda>n g. (feed g ''SECURITY'' (Msg ''registration flood'' [who, ip, show_nat (ar_register_life r)]), g)) nothing) g"
    by (auto simp: security_register_flood_def screened_def trip_def nothing_def Let_def split: option.splits prod.splits)
  ultimately show ?thesis by simp
qed

lemma screen_ok:
  "screen v uid s g = ([], g) \<or>
   (\<exists>ip who. security_identity v g uid None = Some (ip, who) \<and> ok ip g (screen v uid s g))"
  using connect_fair nick_fair join_fair part_fair quit_fair message_fair auth_fair login_fair register_fair
  unfolding fair_def by (cases s) (simp_all del: screen.simps(9))

end

subsection \<open>Whom a detector may strike\<close>

interpretation strikes: screening "judged v uid" v uid for v uid
proof unfold_locales
  fix g ip acct r and c :: security_config
  assume "sy_cfg (g_security g) = Some c"
    and "judged v uid ip (on_security (remember_ban acct (ev_now v) (ar_evade_ttl (sc_auth c))) g) r"
  then show "judged v uid ip g r"
    using judged_cong [of "on_security (remember_ban acct (ev_now v) (ar_evade_ttl (sc_auth c))) g" g uid]
    by (simp add: on_security_def remember_ban_def login_of_def)
next
  fix g g1 ip r assume "calm g g1" "judged v uid ip g1 r" then show "judged v uid ip g r" using judged_calm by blast
next
  fix g g1 ip acts assume "feed_only acts" "calm g g1"
  then show "judged v uid ip g (acts, g1)" by (simp add: judged_def calm_frame(1))
qed (rule security_act_judged)


subsection \<open>Evading a ban\<close>

text \<open>What no detector changes, and what it does not forget before the time \<open>T\<close>.\<close>

definition steady :: "nat \<Rightarrow> engine \<Rightarrow> engine \<Rightarrow> bool" where
  "steady T g g' \<longleftrightarrow> sy_cfg (g_security g') = sy_cfg (g_security g) \<and> g_sid g' = g_sid g \<and>
     (\<forall>acct. is_evader acct T (g_security g) \<longrightarrow> is_evader acct T (g_security g'))"

lemma steady_refl [simp]: "steady T g g"
  by (simp add: steady_def)

lemma steady_trans: "steady T g g1 \<Longrightarrow> steady T g1 g2 \<Longrightarrow> steady T g g2"
  by (auto simp: steady_def)

lemma calm_steady: "calm g g' \<Longrightarrow> steady T g g'"
  by (simp add: steady_def calm_frame is_evader_def)

definition within :: "env \<Rightarrow> nat \<Rightarrow> engine \<Rightarrow> bool" where
  "within v T g \<longleftrightarrow> ev_now v \<le> T \<and>
     (case sy_cfg (g_security g) of None \<Rightarrow> True | Some c \<Rightarrow> T < sat_add (ev_now v) (ar_evade_ttl (sc_auth c)))"

lemma within_cong: "steady T g g' \<Longrightarrow> within v T g' = within v T g"
  by (simp add: steady_def within_def)

lemma remember_steady:
  assumes "within v T g" "sy_cfg (g_security g) = Some c"
  shows "steady T g (on_security (remember_ban acct (ev_now v) (ar_evade_ttl (sc_auth c))) g)"
  using assms by (auto simp: steady_def within_def on_security_def remember_ban_def is_evader_def split: option.splits)

lemma offender_steady: "within v T g \<Longrightarrow> steady T g (remember_offender v uid g)"
  using remember_steady by (auto simp: remember_offender_def split: option.splits)

lemma security_act_steady:
  assumes "within v T g"
  shows "steady T g (snd (security_act v who uid msk kind why ban g))"
proof -
  define g1 where "g1 = snd (announce v kind who why g)"
  have s: "steady T g g1" unfolding g1_def using announce_effect calm_steady by blast
  have db: "steady T h (on_db f h)" for f h by (simp add: steady_def)
  have "snd (strike v uid msk kind why ban g1) = g1 \<or>
      (\<exists>f. snd (strike v uid msk kind why ban g1) = remember_offender v uid (on_db f g1))"
    unfolding strike_def Let_def by (auto simp: on_db_def intro: exI [of _ id])
  moreover have "steady T g (remember_offender v uid (on_db f g1))" for f
    using steady_trans [OF s steady_trans [OF db offender_steady]] assms within_cong [OF steady_trans [OF s db]] by blast
  ultimately have "steady T g (snd (strike v uid msk kind why ban g1))" using s by metis
  then show ?thesis by (simp add: security_act_def and_also_def g1_def case_prod_beta Let_def)
qed

interpretation steadies: screening "\<lambda>_ g r. within v T g \<longrightarrow> steady T g (snd r)" v uid for v uid T
proof unfold_locales
  fix g ip acct and c :: security_config and r :: "net_action list \<times> engine"
  let ?g1 = "on_security (remember_ban acct (ev_now v) (ar_evade_ttl (sc_auth c))) g"
  assume "sy_cfg (g_security g) = Some c" and "within v T ?g1 \<longrightarrow> steady T ?g1 (snd r)"
  then show "within v T g \<longrightarrow> steady T g (snd r)"
    using remember_steady steady_trans within_cong by metis
next
  fix g g1 ip and r :: "net_action list \<times> engine"
  assume "calm g g1" "within v T g1 \<longrightarrow> steady T g1 (snd r)"
  then show "within v T g \<longrightarrow> steady T g (snd r)"
    using calm_steady steady_trans within_cong by metis
qed (use security_act_steady calm_steady in auto)

lemma screen_steady: "within v T g \<Longrightarrow> steady T g (snd (screen v uid s g))"
  using steadies.screen_ok [of v uid s g T] by auto

text \<open>Detectors at work, in any order and for any clients, while everything else about the engine may
  change as it likes.\<close>

inductive screen_run :: "nat \<Rightarrow> engine \<Rightarrow> engine \<Rightarrow> bool" for T where
  start: "screen_run T g g"
| seen: "screen_run T g g1 \<Longrightarrow> within v T g1 \<Longrightarrow> screen_run T g (snd (screen v uid s g1))"
| other: "screen_run T g g1 \<Longrightarrow> g_security g2 = g_security g1 \<Longrightarrow> g_sid g2 = g_sid g1 \<Longrightarrow> screen_run T g g2"

lemma screen_run_steady: "screen_run T g g' \<Longrightarrow> steady T g g'"
proof (induction rule: screen_run.induct)
  case (seen g g1 v uid s)
  then show ?case using screen_steady steady_trans by blast
next
  case (other g g1 g2)
  then show ?case by (simp add: steady_def)
qed simp

lemma security_act_kills:
  assumes "security_enforcing (g_security g)" "g_sid g \<noteq> []"
  shows "\<exists>why'. OnUser (KillUser (g_sid g) uid why') \<in> set (fst (security_act v who uid msk kind why ban g))"
proof -
  have c: "calm g (snd (announce v kind who why g))" using announce_effect by blast
  show ?thesis using assms
    by (auto simp: security_act_def and_also_def strike_def calm_frame [OF c] case_prod_beta Let_def)
qed

lemma no_kill_in_feed: "feed_only acts \<Longrightarrow> OnUser a \<notin> set acts"
  by (auto simp: feed_only_def list_all_iff)

text \<open>An account whose client was killed by a detector is not forgotten: whoever logs in to it before
  the evasion memory runs out is killed too, whatever happened in between, unless that client is exempt.\<close>

theorem banned_account_struck_again:
  assumes "screen v uid s g = (acts, g1)" "OnUser (KillUser src u why) \<in> set acts" "login_of g uid = Some acct"
    and "within v (ev_now v') g" "screen_run (ev_now v') g1 g2" "security_identity v' g2 uid' None \<noteq> None"
  shows "\<exists>why'. OnUser (KillUser (g_sid g) uid' why') \<in> set (fst (screen v' uid' (LoggingIn acct) g2))"
proof -
  let ?T = "ev_now v'"
  have "steady ?T g g1" using screen_steady [OF assms(4), of uid s] assms(1) by simp
  moreover note screen_run_steady [OF assms(5)]
  ultimately have st: "steady ?T g g2" "steady ?T g1 g2" using steady_trans by blast+
  have "\<not> (acts = [] \<and> g1 = g)" "\<not> feed_only acts" using assms(2) no_kill_in_feed by auto
  then obtain reason ban msk where k: "security_enforcing (g_security g)" "g_sid g \<noteq> []" "struck v uid msk reason ban acts g g1"
    using strikes.screen_ok [of v uid s g] assms(1) by (auto simp: judged_def)
  from k(1) obtain c where c: "sy_cfg (g_security g) = Some c" by (auto simp: security_enforcing_def split: option.splits)
  have "is_evader acct ?T (g_security g1)"
    using k(3) c assms(3,4) by (auto simp: struck_def is_evader_def within_def)
  then have e: "is_evader acct ?T (g_security g2)" "security_enforcing (g_security g2)" "g_sid g2 = g_sid g"
      "sy_cfg (g_security g2) = Some c"
    using st k(1) c by (auto simp: steady_def security_enforcing_def)
  obtain ip who where i: "security_identity v' g2 uid' None = Some (ip, who)" using assms(6) by auto
  let ?g = "bump_stat ''security.evasion.trips'' (on_security (remember_ban acct ?T (ar_evade_ttl (sc_auth c))) g2)"
  have f: "security_enforcing (g_security ?g)" "g_sid ?g = g_sid g"
    using e by (simp_all add: security_enforcing_def bump_stat_def on_network_def on_security_def remember_ban_def)
  have "screen v' uid' (LoggingIn acct) g2 = security_act v' who uid' (''*@'' @ ip) ''ban evasion''
      (Msg ''banned account logged back in'' [acct]) (ar_ban (sc_auth c)) ?g"
    using e i by (simp add: security_screen_login_def)
  then show ?thesis using security_act_kills [OF f(1)] k(2) f(2) by metis
qed

definition armed_config :: security_config where
  "armed_config = (security_config_default (\<lambda>_ _. False))\<lparr>sc_enabled := True, sc_report_only := False,
     sc_exempt_ips := [], sc_pattern := [\<lparr>pc_mask = ''evil'', pc_field = ''nick'', pc_regex = True,
       pc_reason = ''known'', pc_ban = 60\<rparr>]\<rparr>"

definition client :: "string \<Rightarrow> string \<Rightarrow> user" where
  "client uid nick = \<lparr>u_uid = uid, u_nick = nick, u_ident = ''u'', u_host = ''h'', u_realhost = ''h'',
     u_ip = ''10.0.0.7'', u_gecos = [], u_fingerprint = [], u_oper = [], u_umodes = {}\<rparr>"

definition armed_engine :: engine where
  "armed_engine = (engine_new [] (db_open [] ''n''))\<lparr>g_sid := ''1SV'',
     g_network := network_empty\<lparr>w_users := [''9AA'' \<mapsto> client ''9AA'' ''evil''], w_accounts := [''9AA'' \<mapsto> ''bob'']\<rparr>,
     g_security := security_configure (\<lambda>_. True) (Some armed_config) security_default\<rparr>"

definition back_again :: "engine \<Rightarrow> engine" where
  "back_again g = g\<lparr>g_network := network_empty\<lparr>w_users := [''9AB'' \<mapsto> client ''9AB'' ''nice'']\<rparr>\<rparr>"

lemma armed_facts:
  "login_of armed_engine ''9AA'' = Some ''bob''" "sy_cfg (g_security armed_engine) = Some armed_config"
  "g_sid armed_engine = ''1SV''" "security_enforcing (g_security armed_engine)"
  by (simp_all add: armed_engine_def login_of_def net_account_of_def security_configure_def security_enforcing_def
      armed_config_def engine_new_def)

lemma armed_connect:
  "screen plain_env ''9AA'' Connecting armed_engine = security_act plain_env ''evil!u@h'' ''9AA'' ''*@10.0.0.7''
     ''connection pattern'' (Lit ''known'') 60 (bump_stat ''security.pattern.hits'' armed_engine)"
proof -
  have p: "sy_patterns (g_security armed_engine) =
      [\<lparr>cp_field = PatNick, cp_matcher = MatchRegex ''evil'', cp_reason = ''known'', cp_ban = 60\<rparr>]"
    by (simp add: armed_engine_def engine_new_def security_configure_def armed_config_def compile_patterns_def
        pat_field_parse_def key_def ascii_simps)
  have s: "security_on (g_security armed_engine)" "sy_quiet_until (g_security armed_engine) = 0"
    "w_users (g_network armed_engine) = [''9AA'' \<mapsto> client ''9AA'' ''evil'']"
    by (simp_all add: security_on_def armed_engine_def engine_new_def security_configure_def armed_config_def security_default_def)
  have "match_pattern (ev_matches plain_env) ''evil'' ''u'' ''h'' [] (g_security armed_engine) = Some (''known'', 60)"
    by (simp add: match_pattern_def p pattern_target_def matcher_hits_def plain_env_def)
  moreover have "\<not> is_exempt ''10.0.0.7'' (g_security armed_engine)"
    by (simp add: is_exempt_def armed_facts(2)) (simp add: armed_config_def)
  moreover have "\<not> trusted_identity armed_engine ''9AA'' None"
    by (simp add: trusted_identity_def armed_facts(2) net_is_oper_def s(3) client_def)
      (simp add: armed_config_def security_config_default_def)
  ultimately show ?thesis
    by (simp add: security_screen_connect_def s(1,2) in_netsplit_def ban_target_of_def s(3) client_def)
qed

theorem banned_account_struck_again_witness:
  "\<exists>why. OnUser (KillUser ''1SV'' ''9AB'' why) \<in> set (fst (screen (plain_env\<lparr>ev_now := 2000\<rparr>) ''9AB'' (LoggingIn ''bob'')
     (back_again (snd (screen plain_env ''9AA'' Connecting armed_engine)))))"
proof -
  define r where "r = screen plain_env ''9AA'' Connecting armed_engine"
  let ?v = "plain_env\<lparr>ev_now := 2000\<rparr>" and ?g2 = "back_again (snd r)"
  have r: "screen plain_env ''9AA'' Connecting armed_engine = (fst r, snd r)" by (simp add: r_def)
  have b: "calm armed_engine (bump_stat ''security.pattern.hits'' armed_engine)" by (rule calm_bump)
  have e: "security_enforcing (g_security (bump_stat ''security.pattern.hits'' armed_engine))"
    "g_sid (bump_stat ''security.pattern.hits'' armed_engine) \<noteq> []"
    using armed_facts(3,4) by (simp_all add: calm_frame [OF b])
  have "\<exists>why. OnUser (KillUser ''1SV'' ''9AA'' why) \<in> set (fst r)"
    using security_act_kills [OF e, unfolded calm_frame(2) [OF b] armed_facts(3)] unfolding r_def armed_connect by blast
  then obtain why where k: "OnUser (KillUser ''1SV'' ''9AA'' why) \<in> set (fst r)" by blast
  have w: "within plain_env (ev_now ?v) armed_engine"
    by (simp add: within_def armed_facts plain_env_def armed_config_def security_config_default_def auth_default_def
        sat_add_def u64_max_def)
  have run: "screen_run (ev_now ?v) (snd r) ?g2"
    by (rule screen_run.other [OF screen_run.start]) (simp_all add: back_again_def)
  have st: "steady (ev_now ?v) armed_engine (snd r)" unfolding r_def by (rule screen_steady [OF w])
  then have c: "sy_cfg (g_security ?g2) = Some armed_config" by (simp add: steady_def back_again_def armed_facts)
  have "sy_quiet_until (g_security (snd r)) = 0"
    unfolding r_def armed_connect
    by (simp add: security_act_def and_also_def announce_def strike_def remember_offender_def case_prod_beta Let_def
        count_event_def on_security_def remember_ban_def bump_stat_def on_network_def armed_engine_def engine_new_def
        security_configure_def security_default_def on_db_def split: option.split)
  then have "\<not> in_netsplit 2000 (g_security ?g2)" by (simp add: in_netsplit_def back_again_def)
  moreover have "sc_exempt_ips armed_config = []" "\<not> sc_exempt_accounts armed_config"
    by (simp_all add: armed_config_def security_config_default_def)
  then have "\<not> is_exempt ''10.0.0.7'' (g_security ?g2)" "\<not> trusted_identity ?g2 ''9AB'' None"
    by (simp_all add: is_exempt_def trusted_identity_def c) (simp add: net_is_oper_def back_again_def client_def)
  moreover have "abuse_ident (g_network ?g2) ''9AB'' = Some (''10.0.0.7'', ''nice!u@h'')"
    by (simp add: abuse_ident_def back_again_def client_def)
  ultimately have "security_identity ?v ?g2 ''9AB'' None \<noteq> None" by (simp add: security_identity_def)
  from banned_account_struck_again [OF r k armed_facts(1) w run this] show ?thesis
    by (simp add: armed_facts r_def)
qed

end
