(* ===== verification/Limiter.thy ===== *)
theory Limiter
  imports Complex_Main Prelude
begin

text \<open>
  The token buckets of src/src/engine/mod.rs: the global ones for registrations and dictionary lookups,
  and the one per host for anonymous commands with its warnings and its sweep. Time is the monotonic clock in
  nanoseconds; the code's floating-point token counts are read as exact rationals.
\<close>

subsection \<open>The buckets\<close>

record token_bucket =
  tb_tokens :: rat
  tb_last :: nat

definition seconds :: "nat \<Rightarrow> rat" where
  "seconds n = of_nat n / 1000000000"

definition refilled :: "rat \<Rightarrow> rat \<Rightarrow> rat \<Rightarrow> nat \<Rightarrow> nat \<Rightarrow> rat" where
  "refilled burst rate tokens earlier now = min (tokens + seconds (now - earlier) * rate) burst"

definition bucket_allow :: "rat \<Rightarrow> rat \<Rightarrow> nat \<Rightarrow> token_bucket \<Rightarrow> bool \<times> token_bucket" where
  "bucket_allow burst rate now b =
     (let t = refilled burst rate (tb_tokens b) (tb_last b) now
      in if t \<ge> 1 then (True, \<lparr>tb_tokens = t - 1, tb_last = now\<rparr>) else (False, \<lparr>tb_tokens = t, tb_last = now\<rparr>))"

definition reg_limiter_new :: "nat \<Rightarrow> token_bucket" where
  "reg_limiter_new now = \<lparr>tb_tokens = 8, tb_last = now\<rparr>"

definition reg_allow :: "nat \<Rightarrow> token_bucket \<Rightarrow> bool \<times> token_bucket" where
  "reg_allow = bucket_allow 8 (1 / 2)"

definition dict_limiter_new :: "nat \<Rightarrow> token_bucket" where
  "dict_limiter_new now = \<lparr>tb_tokens = 6, tb_last = now\<rparr>"

definition dict_allow :: "nat \<Rightarrow> token_bucket \<Rightarrow> bool \<times> token_bucket" where
  "dict_allow = bucket_allow 6 1"

subsection \<open>Anonymous commands\<close>

datatype cmd_verdict = CmdAllow | CmdWarn | CmdDrop

record cmd_bucket =
  cb_tokens :: rat
  cb_last :: nat
  cb_warn :: "nat option"

record cmd_limiter =
  cl_buckets :: "string \<rightharpoonup> cmd_bucket"
  cl_last_sweep :: "nat option"

definition cmd_limiter_new :: cmd_limiter where
  "cmd_limiter_new = \<lparr>cl_buckets = Map.empty, cl_last_sweep = None\<rparr>"

definition cmd_warn_every :: nat where "cmd_warn_every = 30 * 1000000000"
definition cmd_sweep_every :: nat where "cmd_sweep_every = 60 * 1000000000"

definition cmd_sweep :: "nat \<Rightarrow> cmd_limiter \<Rightarrow> cmd_limiter" where
  "cmd_sweep now c =
     (if case cl_last_sweep c of None \<Rightarrow> False | Some t \<Rightarrow> now - t < cmd_sweep_every then c
      else \<lparr>cl_buckets = (\<lambda>k. case cl_buckets c k of None \<Rightarrow> None
                | Some b \<Rightarrow> if cb_tokens b + seconds (now - cb_last b) * (1 / 2) < 15 then Some b else None),
            cl_last_sweep = Some now\<rparr>)"

definition cmd_check :: "string \<Rightarrow> nat \<Rightarrow> cmd_limiter \<Rightarrow> cmd_verdict \<times> cmd_limiter" where
  "cmd_check k now c =
     (let c1 = cmd_sweep now c;
          b = (case cl_buckets c1 k of None \<Rightarrow> \<lparr>cb_tokens = 15, cb_last = now, cb_warn = None\<rparr> | Some b \<Rightarrow> b);
          t = refilled 15 (1 / 2) (cb_tokens b) (cb_last b) now;
          (verdict, b1) =
            (if t \<ge> 1 then (CmdAllow, b\<lparr>cb_tokens := t - 1, cb_last := now\<rparr>)
             else if case cb_warn b of None \<Rightarrow> True | Some w \<Rightarrow> now - w \<ge> cmd_warn_every
             then (CmdWarn, b\<lparr>cb_tokens := t, cb_last := now, cb_warn := Some now\<rparr>)
             else (CmdDrop, b\<lparr>cb_tokens := t, cb_last := now\<rparr>))
      in (verdict, c1\<lparr>cl_buckets := (cl_buckets c1)(k \<mapsto> b1)\<rparr>))"

text \<open>A run of commands: who spoke, and when.\<close>

fun cmd_run :: "(string \<times> nat) list \<Rightarrow> cmd_limiter \<Rightarrow> cmd_verdict list \<times> cmd_limiter" where
  "cmd_run [] c = ([], c)"
| "cmd_run ((k, now) # es) c =
     (let (verdict, c1) = cmd_check k now c; (vs, c2) = cmd_run es c1 in (verdict # vs, c2))"

subsection \<open>The tokens of a host\<close>

text \<open>What the next command of a host would find, were it sent at \<open>now\<close>.\<close>

definition tokens_at :: "string \<Rightarrow> nat \<Rightarrow> cmd_limiter \<Rightarrow> rat" where
  "tokens_at k now c =
     (case cl_buckets c k of None \<Rightarrow> 15 | Some b \<Rightarrow> refilled 15 (1 / 2) (cb_tokens b) (cb_last b) now)"

definition used_by :: "nat \<Rightarrow> cmd_limiter \<Rightarrow> bool" where
  "used_by now c \<longleftrightarrow> (\<forall>k b. cl_buckets c k = Some b \<longrightarrow> 0 \<le> cb_tokens b \<and> cb_tokens b \<le> 15 \<and> cb_last b \<le> now)"

lemma seconds_mono: "m \<le> n \<Longrightarrow> seconds m \<le> seconds n"
  by (simp add: seconds_def divide_right_mono)

lemma seconds_nonneg [simp]: "0 \<le> seconds n"
  by (simp add: seconds_def)

lemma seconds_add: "seconds (m + n) = seconds m + seconds n"
  by (simp add: seconds_def add_divide_distrib)

lemma seconds_0 [simp]: "seconds 0 = 0"
  by (simp add: seconds_def)

lemma tokens_at_le: "tokens_at k now c \<le> 15"
  by (auto simp: tokens_at_def refilled_def split: option.split)

lemma tokens_at_nonneg: "used_by now c \<Longrightarrow> 0 \<le> tokens_at k t c"
  by (auto simp: tokens_at_def refilled_def used_by_def split: option.split)

text \<open>The sweep is not felt: the bucket of a host that could use it in full is as good as none.\<close>

lemma sweep_tokens:
  assumes "used_by now c" "now \<le> later"
  shows "tokens_at k later (cmd_sweep now c) = tokens_at k later c"
proof -
  have "refilled 15 (1 / 2) (cb_tokens b) (cb_last b) later = 15"
    if "cl_buckets c k = Some b" "\<not> cb_tokens b + seconds (now - cb_last b) * (1 / 2) < 15" for b
    using that seconds_mono [of "now - cb_last b" "later - cb_last b"] assms(2)
    by (simp add: refilled_def diff_le_mono)
  then show ?thesis
    by (auto simp: cmd_sweep_def tokens_at_def split: option.split)
qed

lemma used_by_sweep: "used_by now c \<Longrightarrow> used_by now (cmd_sweep now c)"
  by (auto simp: cmd_sweep_def used_by_def split: option.splits if_splits)

lemma used_by_mono: "used_by now c \<Longrightarrow> now \<le> later \<Longrightarrow> used_by later c"
  unfolding used_by_def by (meson le_trans)

text \<open>The effect of one command.\<close>

lemma cmd_check_effect:
  assumes "used_by now c"
  shows "fst (cmd_check k now c) = CmdAllow \<longleftrightarrow> 1 \<le> tokens_at k now c"
    and "used_by now (snd (cmd_check k now c))"
    and "now \<le> later \<Longrightarrow> tokens_at h later (snd (cmd_check k now c)) =
      (if h = k then refilled 15 (1 / 2) (tokens_at k now c - (if 1 \<le> tokens_at k now c then 1 else 0)) now later
       else tokens_at h later c)"
proof -
  define c1 where "c1 = cmd_sweep now c"
  define b where "b = (case cl_buckets c1 k of None \<Rightarrow> \<lparr>cb_tokens = 15, cb_last = now, cb_warn = None\<rparr> | Some b \<Rightarrow> b)"
  define t where "t = refilled 15 (1 / 2) (cb_tokens b) (cb_last b) now"
  have t: "t = tokens_at k now c"
    using sweep_tokens [OF assms order_refl, of k]
    by (auto simp: t_def b_def tokens_at_def refilled_def c1_def split: option.splits)
  have le: "0 \<le> t" "t \<le> 15" unfolding t using tokens_at_nonneg [OF assms] tokens_at_le by auto
  have u: "used_by now c1" unfolding c1_def using assms by (rule used_by_sweep)
  have same: "tokens_at h later c1 = tokens_at h later c" if "now \<le> later"
    unfolding c1_def using assms that by (rule sweep_tokens)
  have e: "cmd_check k now c =
      (let (verdict, b1) =
            (if t \<ge> 1 then (CmdAllow, b\<lparr>cb_tokens := t - 1, cb_last := now\<rparr>)
             else if case cb_warn b of None \<Rightarrow> True | Some w \<Rightarrow> now - w \<ge> cmd_warn_every
             then (CmdWarn, b\<lparr>cb_tokens := t, cb_last := now, cb_warn := Some now\<rparr>)
             else (CmdDrop, b\<lparr>cb_tokens := t, cb_last := now\<rparr>))
       in (verdict, c1\<lparr>cl_buckets := (cl_buckets c1)(k \<mapsto> b1)\<rparr>))"
    by (simp add: cmd_check_def Let_def c1_def b_def t_def)
  show "fst (cmd_check k now c) = CmdAllow \<longleftrightarrow> 1 \<le> tokens_at k now c"
    unfolding e t [symmetric] by (simp split: prod.split)
  show "used_by now (snd (cmd_check k now c))"
    unfolding e using u le by (auto simp: used_by_def)
  show "tokens_at h later (snd (cmd_check k now c)) =
      (if h = k then refilled 15 (1 / 2) (tokens_at k now c - (if 1 \<le> tokens_at k now c then 1 else 0)) now later
       else tokens_at h later c)" if "now \<le> later"
    unfolding e t [symmetric] using same [OF that] by (auto simp: tokens_at_def)
qed

lemma tokens_at_later:
  assumes "now \<le> later" "used_by now c"
  shows "tokens_at k later c \<le> tokens_at k now c + seconds (later - now) * (1 / 2)"
proof -
  have step: "min (x + (s + d) * (1 / 2)) y \<le> min (x + s * (1 / 2)) y + d * (1 / 2)" if "0 \<le> d" for x s d y :: rat
    using that by (simp add: min_def field_simps)
  have later: "refilled 15 (1 / 2) (cb_tokens b) (cb_last b) later \<le>
      refilled 15 (1 / 2) (cb_tokens b) (cb_last b) now + seconds (later - now) * (1 / 2)" if "cb_last b \<le> now" for b
  proof -
    have "seconds (later - cb_last b) = seconds (now - cb_last b) + seconds (later - now)"
      using that assms(1) seconds_add [of "now - cb_last b" "later - now"] by simp
    then show ?thesis unfolding refilled_def by (simp only:) (rule step, simp)
  qed
  show ?thesis
  proof (cases "cl_buckets c k")
    case (Some b)
    with assms(2) later [of b] show ?thesis by (auto simp: tokens_at_def used_by_def)
  qed (simp add: tokens_at_def)
qed

subsection \<open>At most a burst and the rate\<close>

definition allowed_of :: "string \<Rightarrow> (string \<times> nat) list \<Rightarrow> cmd_limiter \<Rightarrow> nat" where
  "allowed_of k es c = length (filter (\<lambda>((h, _), v). h = k \<and> v = CmdAllow) (zip es (fst (cmd_run es c))))"

lemma last_latest: "sorted (x # xs) \<Longrightarrow> x \<le> last (x # xs)" for x :: nat
  using last_in_set [of "x # xs"] by (auto split: if_splits)

lemma cmd_run_bound:
  assumes "used_by now c" "sorted (now # map snd es)"
  shows "of_nat (allowed_of k es c) \<le> tokens_at k now c + seconds (last (now # map snd es) - now) * (1 / 2) \<and>
    used_by (last (now # map snd es)) (snd (cmd_run es c))"
  using assms
proof (induction es arbitrary: now c)
  case Nil
  then show ?case using tokens_at_nonneg by (simp add: allowed_of_def)
next
  case (Cons x es)
  obtain h tm where x: "x = (h, tm)" by force
  have le: "now \<le> tm" "sorted (tm # map snd es)" using Cons.prems(2) by (simp_all add: x)
  have u: "used_by tm c" using Cons.prems(1) le(1) by (rule used_by_mono)
  note eff = cmd_check_effect [OF u]
  define c1 where "c1 = snd (cmd_check h tm c)"
  define spent where "spent = (if h = k \<and> 1 \<le> tokens_at k tm c then 1 else (0::rat))"
  have tok: "tokens_at k tm c1 = tokens_at k tm c - spent"
    using eff(3) [of tm k h] tokens_at_le [of k tm c] by (auto simp: c1_def spent_def refilled_def)
  have "of_nat (allowed_of k (x # es) c) = spent + of_nat (allowed_of k es c1)"
    using eff(1) [of h] by (auto simp: allowed_of_def x c1_def spent_def Let_def case_prod_beta)
  moreover have ih: "of_nat (allowed_of k es c1) \<le> tokens_at k tm c1 + seconds (last (tm # map snd es) - tm) * (1 / 2)"
      "used_by (last (tm # map snd es)) (snd (cmd_run es c1))"
    using Cons.IH [of tm c1] eff(2) [of h] le(2) by (simp_all add: c1_def)
  moreover have "tokens_at k tm c \<le> tokens_at k now c + seconds (tm - now) * (1 / 2)"
    using tokens_at_later [OF le(1) Cons.prems(1)] .
  moreover have "tm \<le> last (tm # map snd es)"
    using le(2) by (rule last_latest)
  then have "seconds (last (tm # map snd es) - now) = seconds (tm - now) + seconds (last (tm # map snd es) - tm)"
    using seconds_add [of "tm - now" "last (tm # map snd es) - tm"] le(1) by simp
  ultimately show ?case
    using tok by (simp add: x c1_def case_prod_beta Let_def add_divide_distrib)
qed

subsection \<open>The sweep forgets nothing that matters\<close>

text \<open>The reference: one bucket per host, full at first, never dropped.\<close>

fun unswept_run :: "(string \<times> nat) list \<Rightarrow> (string \<Rightarrow> rat \<times> nat) \<Rightarrow> bool list" where
  "unswept_run [] r = []"
| "unswept_run ((k, now) # es) r =
     (let t = refilled 15 (1 / 2) (fst (r k)) (snd (r k)) now
      in (1 \<le> t) # unswept_run es (r(k := (if 1 \<le> t then t - 1 else t, now))))"

definition agrees :: "nat \<Rightarrow> cmd_limiter \<Rightarrow> (string \<Rightarrow> rat \<times> nat) \<Rightarrow> bool" where
  "agrees now c r \<longleftrightarrow> (\<forall>k later. now \<le> later \<longrightarrow> tokens_at k later c = refilled 15 (1 / 2) (fst (r k)) (snd (r k)) later)"

lemma unswept_same:
  assumes "used_by now c" "agrees now c r" "sorted (now # map snd es)"
  shows "map (\<lambda>v. v = CmdAllow) (fst (cmd_run es c)) = unswept_run es r"
  using assms
proof (induction es arbitrary: now c r)
  case (Cons x es)
  obtain h tm where x: "x = (h, tm)" by force
  have le: "now \<le> tm" "sorted (tm # map snd es)" using Cons.prems(3) by (simp_all add: x)
  have u: "used_by tm c" using Cons.prems(1) le(1) by (rule used_by_mono)
  note eff = cmd_check_effect [OF u]
  define t where "t = refilled 15 (1 / 2) (fst (r h)) (snd (r h)) tm"
  have tk: "tokens_at h tm c = t" using Cons.prems(2) le(1) by (simp add: agrees_def t_def)
  let ?r = "r(h := (if 1 \<le> t then t - 1 else t, tm))"
  have "agrees tm (snd (cmd_check h tm c)) ?r"
    using eff(3) Cons.prems(2) le(1) by (auto simp: agrees_def tk)
  from Cons.IH [OF eff(2) this le(2)] eff(1) [of h] show ?case
    by (simp add: x case_prod_beta Let_def tk t_def [symmetric] fun_upd_def)
qed simp

text \<open>Dropping the buckets of hosts that have been silent never changes whether a command is answered:
  the limiter with its sweep admits exactly what one would that keeps a bucket for every host for ever.\<close>

theorem sweep_admits_the_same:
  assumes "sorted (map snd es)"
  shows "map (\<lambda>v. v = CmdAllow) (fst (cmd_run es cmd_limiter_new)) = unswept_run es (\<lambda>_. (15, 0))"
proof (rule unswept_same)
  show "used_by 0 cmd_limiter_new" by (simp add: used_by_def cmd_limiter_new_def)
  show "agrees 0 cmd_limiter_new (\<lambda>_. (15, 0))"
    by (simp add: agrees_def tokens_at_def cmd_limiter_new_def refilled_def)
  show "sorted (0 # map snd es)" using assms by simp
qed

theorem sweep_admits_the_same_witness:
  "map (\<lambda>v. v = CmdAllow) (fst (cmd_run [(''g'', 0), (''h'', 5), (''g'', 70000000000)] cmd_limiter_new)) =
   unswept_run [(''g'', 0), (''h'', 5), (''g'', 70000000000)] (\<lambda>_. (15, 0))"
  using sweep_admits_the_same [of "[(''g'', 0), (''h'', 5), (''g'', 70000000000)]"] by simp

text \<open>It does change the warnings: a host can be told to slow down twice within thirty seconds, because
  its bucket, full again, was dropped together with the time of the first warning.\<close>

definition quiet_sweep :: "nat \<Rightarrow> cmd_limiter \<Rightarrow> bool" where
  "quiet_sweep now c \<longleftrightarrow> (\<exists>t. cl_last_sweep c = Some t \<and> now - t < cmd_sweep_every)"

lemma quiet_sweep_same: "quiet_sweep now c \<Longrightarrow> cmd_sweep now c = c"
  by (auto simp: quiet_sweep_def cmd_sweep_def)

lemma quiet_sweep_upd [simp]: "quiet_sweep now (c\<lparr>cl_buckets := m\<rparr>) = quiet_sweep now c"
  by (simp add: quiet_sweep_def)

lemma drain:
  assumes "quiet_sweep now c" "cl_buckets c k = Some \<lparr>cb_tokens = of_nat n + x, cb_last = now, cb_warn = w\<rparr>"
    and "0 \<le> x" "of_nat n + x \<le> 15"
  shows "cmd_run (replicate n (k, now)) c =
    (replicate n CmdAllow, c\<lparr>cl_buckets := (cl_buckets c)(k \<mapsto> \<lparr>cb_tokens = x, cb_last = now, cb_warn = w\<rparr>)\<rparr>)"
  using assms
proof (induction n arbitrary: c)
  case 0
  then show ?case by (simp add: fun_upd_idem)
next
  case (Suc n)
  let ?c = "c\<lparr>cl_buckets := (cl_buckets c)(k \<mapsto> \<lparr>cb_tokens = of_nat n + x, cb_last = now, cb_warn = w\<rparr>)\<rparr>"
  have "cmd_check k now c = (CmdAllow, ?c)"
    using Suc.prems by (simp add: cmd_check_def quiet_sweep_same refilled_def Let_def)
  with Suc.IH [of ?c] Suc.prems show ?case by (simp add: fun_upd_def cong: if_cong)
qed

text \<open>A host without a bucket, or whose bucket is dropped now, has a burst of fifteen.\<close>

lemma replicate_15: "replicate 15 x = x # replicate 14 x"
  using replicate_Suc [of 14 x] by simp

lemma burst_of_fifteen:
  assumes "cl_buckets (cmd_sweep now c) k = None" "quiet_sweep now (cmd_sweep now c)"
  shows "cmd_run (replicate 15 (k, now)) c = (replicate 15 CmdAllow,
    (cmd_sweep now c)\<lparr>cl_buckets := (cl_buckets (cmd_sweep now c))(k \<mapsto> \<lparr>cb_tokens = 0, cb_last = now, cb_warn = None\<rparr>)\<rparr>)"
proof -
  let ?c = "cmd_sweep now c"
  let ?d = "?c\<lparr>cl_buckets := (cl_buckets ?c)(k \<mapsto> \<lparr>cb_tokens = 14, cb_last = now, cb_warn = None\<rparr>)\<rparr>"
  have "cmd_check k now c = (CmdAllow, ?d)"
    using assms(1) by (simp add: cmd_check_def refilled_def Let_def)
  moreover have "cmd_run (replicate 14 (k, now)) ?d = (replicate 14 CmdAllow,
      ?c\<lparr>cl_buckets := (cl_buckets ?c)(k \<mapsto> \<lparr>cb_tokens = 0, cb_last = now, cb_warn = None\<rparr>)\<rparr>)"
    using drain [of now ?d k 14 0 None] assms(2) by (simp add: fun_upd_def cong: if_cong)
  ultimately show ?thesis unfolding replicate_15 by simp
qed

lemma cmd_run_split:
  "cmd_run (es @ fs) c = (fst (cmd_run es c) @ fst (cmd_run fs (snd (cmd_run es c))), snd (cmd_run fs (snd (cmd_run es c))))"
  by (induction es arbitrary: c) (auto simp: case_prod_beta Let_def)

definition twice_warned :: "(string \<times> nat) list" where
  "twice_warned = [(''g'', 0)] @ (replicate 15 (''h'', 30000000000) @ ([(''h'', 31900000000)] @
     (replicate 15 (''h'', 60000000000) @ [(''h'', 60000000000)])))"

lemmas limiter_defs =
  cmd_check_def cmd_sweep_def cmd_sweep_every_def cmd_warn_every_def refilled_def seconds_def cmd_limiter_new_def

lemma warned_twice_run:
  "fst (cmd_run twice_warned cmd_limiter_new) =
     [CmdAllow] @ replicate 15 CmdAllow @ [CmdWarn] @ replicate 15 CmdAllow @ [CmdWarn]"
proof -
  define c1 where "c1 = snd (cmd_check ''g'' 0 cmd_limiter_new)"
  have c1: "cmd_check ''g'' 0 cmd_limiter_new = (CmdAllow, c1)"
    "c1 = \<lparr>cl_buckets = [''g'' \<mapsto> \<lparr>cb_tokens = 14, cb_last = 0, cb_warn = None\<rparr>], cl_last_sweep = Some 0\<rparr>"
    by (simp_all add: c1_def limiter_defs)
  define c2 where "c2 = c1\<lparr>cl_buckets := (cl_buckets c1)(''h'' \<mapsto> \<lparr>cb_tokens = 0, cb_last = 30000000000, cb_warn = None\<rparr>)\<rparr>"
  have c2: "cmd_run (replicate 15 (''h'', 30000000000)) c1 = (replicate 15 CmdAllow, c2)"
    using burst_of_fifteen [of 30000000000 c1 "''h''"]
    by (simp add: c1(2) c2_def quiet_sweep_def limiter_defs)
  define c3 where "c3 = c1\<lparr>cl_buckets := (cl_buckets c1)(''h'' \<mapsto>
     \<lparr>cb_tokens = 95 / 100, cb_last = 31900000000, cb_warn = Some 31900000000\<rparr>)\<rparr>"
  have c3: "cmd_check ''h'' 31900000000 c2 = (CmdWarn, c3)"
    by (simp add: c3_def c2_def c1(2) limiter_defs Let_def)
  define c4 where "c4 = \<lparr>cl_buckets = [''h'' \<mapsto> \<lparr>cb_tokens = 0, cb_last = 60000000000, cb_warn = None\<rparr>],
     cl_last_sweep = Some 60000000000\<rparr>"
  have sw: "cmd_sweep 60000000000 c3 = \<lparr>cl_buckets = Map.empty, cl_last_sweep = Some 60000000000\<rparr>"
    by (auto simp: c3_def c1(2) limiter_defs)
  have c4: "cmd_run (replicate 15 (''h'', 60000000000)) c3 = (replicate 15 CmdAllow, c4)"
    using burst_of_fifteen [of 60000000000 c3 "''h''"] unfolding sw
    by (simp add: quiet_sweep_def cmd_sweep_every_def c4_def)
  have c5: "fst (cmd_check ''h'' 60000000000 c4) = CmdWarn"
    by (simp add: c4_def limiter_defs Let_def)
  show ?thesis
    unfolding twice_warned_def cmd_run_split by (simp add: c1(1) c2 c3 c4 c5 case_prod_beta Let_def)
qed

theorem warned_twice_within_the_window:
  "\<exists>i j. i < j \<and> fst (cmd_run twice_warned cmd_limiter_new) ! i = CmdWarn \<and>
     fst (cmd_run twice_warned cmd_limiter_new) ! j = CmdWarn \<and> fst (twice_warned ! i) = fst (twice_warned ! j) \<and>
     snd (twice_warned ! j) - snd (twice_warned ! i) < cmd_warn_every"
  unfolding warned_twice_run
  by (rule exI [of _ 16], rule exI [of _ 32]) (simp add: twice_warned_def nth_append cmd_warn_every_def)

subsection \<open>A burst and the rate\<close>



end
