(* ===== verification/Register.thy ===== *)
theory Register
  imports Sasl Screen Sessions
begin

text \<open>
  Accounts from the outside (src/src/engine/register.rs): the account authority a website speaks to,
  the registration relay of the uplink, and the work that is finished once a password has been derived or
  verified away from the engine: registrations, password changes and logins. The rendering of a
  registration's outcome (\<^verbatim>\<open>reg_reply\<close>, src/src/engine/mod.rs) is here too.

  Whether the registration bucket has a token, which the code decides in floating point, is a field of
  the environment; so are the look-alike names of Unicode.
\<close>

subsection \<open>Outcomes\<close>

datatype authority_status = AuthOk | AuthExists | AuthNotFound | AuthRateLimited | AuthInvalid | AuthInternal

datatype reg_outcome =
  RegisteredOk | VerifyRequired | ForbiddenName | ForbiddenEmail | AlreadyThere | Busy | Frozen
| ExternalAccounts | InternalError

fun relay_reply :: "reg_outcome \<Rightarrow> string \<times> string \<times> string" where
  "relay_reply RegisteredOk = (''success'', ''*'', ''Account registered.'')"
| "relay_reply VerifyRequired =
     (''verification_required'', ''VERIFICATION_REQUIRED'', ''Registered - check your email for a code, then VERIFY.'')"
| "relay_reply ForbiddenName = (''error'', ''BAD_ACCOUNT_NAME'', ''That account name is forbidden by network policy.'')"
| "relay_reply ForbiddenEmail = (''error'', ''BAD_EMAIL'', ''That email address is forbidden by network policy.'')"
| "relay_reply AlreadyThere = (''error'', ''ACCOUNT_EXISTS'', ''That account name is already registered.'')"
| "relay_reply Busy = (''error'', ''TEMPORARILY_UNAVAILABLE'', ''Too many registrations, please wait a moment.'')"
| "relay_reply Frozen =
     (''error'', ''TEMPORARILY_UNAVAILABLE'', ''Registrations are temporarily frozen by network staff.'')"
| "relay_reply ExternalAccounts =
     (''error'', ''ACCOUNT_REGISTRATION_DISABLED'', ''Accounts are managed on the website; register there.'')"
| "relay_reply InternalError =
     (''error'', ''TEMPORARILY_UNAVAILABLE'', ''Registration is unavailable, try again later.'')"

fun nickserv_reply :: "string \<Rightarrow> string \<Rightarrow> string \<Rightarrow> reg_outcome \<Rightarrow> net_action list" where
  "nickserv_reply agent uid nick RegisteredOk =
     [OnLink (Metadata uid ''accountname'' nick), Talk (Notice agent uid (Msg ''nick registered, logged in'' [nick]))]"
| "nickserv_reply agent uid nick VerifyRequired =
     [OnLink (Metadata uid ''accountname'' nick), Talk (Notice agent uid (Msg ''nick registered, logged in'' [nick]))]"
| "nickserv_reply agent uid nick ForbiddenName = [Talk (Notice agent uid (Msg ''nick forbidden'' []))]"
| "nickserv_reply agent uid nick ForbiddenEmail = [Talk (Notice agent uid (Msg ''email forbidden'' []))]"
| "nickserv_reply agent uid nick AlreadyThere = [Talk (Notice agent uid (Msg ''already registered'' [nick]))]"
| "nickserv_reply agent uid nick Busy = [Talk (Notice agent uid (Msg ''registrations busy'' []))]"
| "nickserv_reply agent uid nick Frozen = [Talk (Notice agent uid (Msg ''registrations frozen'' []))]"
| "nickserv_reply agent uid nick ExternalAccounts = [Talk (Notice agent uid (Msg ''accounts on the website'' []))]"
| "nickserv_reply agent uid nick InternalError = [Talk (Notice agent uid (Msg ''did not work'' []))]"

fun admin_reply :: "string \<Rightarrow> reg_outcome \<Rightarrow> message" where
  "admin_reply acct RegisteredOk = Msg ''account created'' [acct]"
| "admin_reply acct VerifyRequired = Msg ''account created'' [acct]"
| "admin_reply acct ForbiddenName = Msg ''forbidden account name'' [acct]"
| "admin_reply acct ForbiddenEmail = Msg ''email forbidden'' []"
| "admin_reply acct AlreadyThere = Msg ''already registered'' [acct]"
| "admin_reply acct Busy = Msg ''registrations busy'' []"
| "admin_reply acct Frozen = Msg ''registrations frozen'' []"
| "admin_reply acct ExternalAccounts = Msg ''accounts on the website'' []"
| "admin_reply acct InternalError = Msg ''did not work'' []"

definition reg_reply :: "reg_reply_to \<Rightarrow> reg_outcome \<Rightarrow> string \<Rightarrow> net_action list" where
  "reg_reply to outcome acct =
     (case to of
        Relay reqid kind origin \<Rightarrow>
          (case relay_reply outcome of (status, token, m) \<Rightarrow>
            [OnLink (AccountResponse reqid origin kind acct status token (Lit m))])
      | ToNickServ agent uid nick \<Rightarrow> nickserv_reply agent uid nick outcome
      | ToAdmin agent uid \<Rightarrow> [Talk (Notice agent uid (admin_reply acct outcome))])"

subsection \<open>The store behind a step\<close>

definition in_db :: "(db \<Rightarrow> 'a \<times> db) \<Rightarrow> engine \<Rightarrow> 'a \<times> engine" where
  "in_db f g = (let (r, d) = f (g_db g) in (r, g\<lparr>g_db := d\<rparr>))"

text \<open>A fresh confirmation code and the mail that carries it.\<close>

definition confirm_mail :: "env \<Rightarrow> string \<Rightarrow> string \<Rightarrow> step" where
  "confirm_mail v acct addr g =
     (let (gen, g1) = in_db (issue_code (ev_code v) (ev_instant v) acct Confirm) g
      in ([Deferred (SendEmail addr (Msg ''confirm your account'' [acct, gen]))], g1))"

subsection \<open>The account authority\<close>

definition authority_name_ok :: "env \<Rightarrow> db \<Rightarrow> string \<Rightarrow> bool" where
  "authority_name_ok v d name \<longleftrightarrow>
     name \<noteq> [] \<and> \<not> list_ex is_control name \<and> is_forbidden d ForbidNick name = None \<and>
     \<not> (confusable_check d \<and> ev_confusable v name)"

definition authority_pre_check :: "env \<Rightarrow> db \<Rightarrow> string \<Rightarrow> authority_status + unit" where
  "authority_pre_check v d name =
     (if exists_account d name then Inl AuthExists
      else if registrations_frozen d \<or> l_readonly (lg d) then Inl AuthInvalid
      else if \<not> authority_name_ok v d name then Inl AuthInvalid
      else if \<not> ev_reg_token v then Inl AuthRateLimited
      else Inr ())"

fun reg_status :: "reg_error + 'a \<Rightarrow> authority_status" where
  "reg_status (Inr _) = AuthOk"
| "reg_status (Inl RegExists) = AuthExists"
| "reg_status (Inl _) = AuthInternal"

fun or_not_found :: "reg_error + 'a \<Rightarrow> authority_status" where
  "or_not_found (Inr _) = AuthOk"
| "or_not_found (Inl _) = AuthNotFound"

definition email_ok :: "(string \<Rightarrow> bool) \<Rightarrow> string option \<Rightarrow> bool" where
  "email_ok p email = (case email of None \<Rightarrow> True | Some addr \<Rightarrow> p addr)"

definition allowed_email :: "db \<Rightarrow> string \<Rightarrow> bool" where
  "allowed_email d addr \<longleftrightarrow> valid_email addr \<and> is_forbidden d ForbidEmail addr = None"

definition authority_provision ::
  "env \<Rightarrow> string \<Rightarrow> string \<Rightarrow> string \<Rightarrow> string option \<Rightarrow> engine \<Rightarrow> authority_status \<times> engine" where
  "authority_provision v name s256 s512 email g =
     (if \<not> exists_account (g_db g) name \<and> \<not> authority_name_ok v (g_db g) name then (AuthInvalid, g)
      else if \<not> email_ok valid_email email then (AuthInvalid, g)
      else if \<not> verifier_ok (ev_crypto v) s256 \<or> (s512 \<noteq> [] \<and> \<not> verifier_ok (ev_crypto v) s512) then (AuthInvalid, g)
      else let (r, g1) = in_db (provision_account (ev_now v) name s256 s512 email) g in (reg_status r, g1))"

definition authority_register ::
  "env \<Rightarrow> string \<Rightarrow> credentials option \<Rightarrow> string option \<Rightarrow> engine \<Rightarrow> authority_status \<times> engine" where
  "authority_register v name creds email g =
     (case creds of
        None \<Rightarrow> (AuthInternal, g)
      | Some cr \<Rightarrow>
          if registrations_frozen (g_db g) \<or> l_readonly (lg (g_db g)) then (AuthInvalid, g)
          else if \<not> email_ok (allowed_email (g_db g)) email then (AuthInvalid, g)
          else let (r, g1) = in_db (register_prepared (ev_now v) name cr email) g; status = reg_status r
               in (status,
                   case email of
                     Some addr \<Rightarrow> if status = AuthOk \<and> \<not> is_verified (g_db g1) name
                       then emitting (confirm_mail v name addr) g1 else g1
                   | None \<Rightarrow> g1))"

definition authority_auth_begin :: "env \<Rightarrow> engine \<Rightarrow> string \<Rightarrow> (string \<times> string) option" where
  "authority_auth_begin v g name =
     (if (case resolve_account (g_db g) name of None \<Rightarrow> False | Some acct \<Rightarrow> is_suspended (ev_now v) (g_db g) acct)
      then None
      else if locked_out v g name then None
      else scram_verifier g name)"

definition authority_note_auth :: "env \<Rightarrow> string \<Rightarrow> bool \<Rightarrow> engine \<Rightarrow> engine" where
  "authority_note_auth v name ok = on_db (note_auth (ev_instant v) name ok)"

definition authority_set_password :: "string \<Rightarrow> credentials option \<Rightarrow> engine \<Rightarrow> authority_status \<times> engine" where
  "authority_set_password acct creds g =
     (case creds of
        None \<Rightarrow> (AuthInternal, g)
      | Some cr \<Rightarrow> let (r, g1) = in_db (set_credentials acct cr) g in (or_not_found r, g1))"

definition authority_set_email :: "string \<Rightarrow> string option \<Rightarrow> engine \<Rightarrow> authority_status \<times> engine" where
  "authority_set_email acct email g =
     (if \<not> email_ok (allowed_email (g_db g)) email then (AuthInvalid, g)
      else let (r, g1) = in_db (set_email acct email) g in (or_not_found r, g1))"

definition authority_confirm :: "env \<Rightarrow> string \<Rightarrow> string \<Rightarrow> engine \<Rightarrow> authority_status \<times> engine" where
  "authority_confirm v acct given g =
     (if \<not> exists_account (g_db g) acct then (AuthNotFound, g)
      else if is_verified (g_db g) acct then (AuthOk, g)
      else let (taken, g1) = in_db (take_code (ev_instant v) acct Confirm given) g in
        if \<not> taken then (AuthInvalid, g1)
        else let (r, g2) = in_db (verify_account acct) g1 in (case r of Inr _ \<Rightarrow> AuthOk | Inl _ \<Rightarrow> AuthInternal, g2))"

definition authority_drop :: "env \<Rightarrow> string \<Rightarrow> engine \<Rightarrow> authority_status \<times> engine" where
  "authority_drop v acct g =
     (let (r, g1) = in_db (drop_account acct) g in
      case r of
        Inr True \<Rightarrow> (AuthOk, handle_account_gone v acct ''was dropped'' True g1)
      | Inr False \<Rightarrow> (AuthNotFound, g1)
      | Inl _ \<Rightarrow> (AuthInternal, g1))"

definition authority_force_logout :: "env \<Rightarrow> string \<Rightarrow> engine \<Rightarrow> nat \<times> engine" where
  "authority_force_logout v acct g =
     (let victims = sessions_of v g acct in
      (length victims mod 2 ^ 32,
       fold (\<lambda>uid g. case g_nick_service g of
               None \<Rightarrow> emit_irc (OnLink (Metadata uid ''accountname'' [])) (on_network (clear_account uid) g)
             | Some ns \<Rightarrow> emit_irc (Talk (Notice ns uid (Msg ''you have been logged out'' [acct])))
                 (emit_irc (OnLink (Metadata uid ''accountname'' [])) (on_network (clear_account uid) g)))
         victims g))"

definition authority_group_nick :: "env \<Rightarrow> string \<Rightarrow> string \<Rightarrow> engine \<Rightarrow> authority_status \<times> engine" where
  "authority_group_nick v nick acct g =
     (if account_of (g_db g) nick \<noteq> None then (AuthInvalid, g)
      else if \<not> authority_name_ok v (g_db g) nick then (AuthInvalid, g)
      else if length (grouped_nicks (ev_order v (dom (grouped (st (g_db g))))) (g_db g) acct) \<ge> 25 then (AuthInvalid, g)
      else let (r, g1) = in_db (group_nick nick acct) g in (or_not_found r, g1))"

definition authority_ungroup_nick :: "string \<Rightarrow> engine \<Rightarrow> authority_status \<times> engine" where
  "authority_ungroup_nick nick g =
     (let (r, g1) = in_db (ungroup_nick nick) g in
      (case r of Inr True \<Rightarrow> AuthOk | Inr False \<Rightarrow> AuthNotFound | Inl _ \<Rightarrow> AuthInternal, g1))"

subsection \<open>The registration relay\<close>

definition relay_resend :: "env \<Rightarrow> (string \<Rightarrow> string \<Rightarrow> string \<Rightarrow> net_action list) \<Rightarrow> string \<Rightarrow> step" where
  "relay_resend v resp acct g =
     (case account_of (g_db g) acct of
        None \<Rightarrow> (resp ''error'' ''ACCOUNT_UNKNOWN'' ''No such account.'', g)
      | Some a \<Rightarrow>
          if a_verified a then (resp ''error'' ''ALREADY_VERIFIED'' ''That account is already verified.'', g)
          else case a_email a of
            None \<Rightarrow> (resp ''error'' ''NO_EMAIL'' ''No email address is on file for that account.'', g)
          | Some addr \<Rightarrow>
              if code_issue_wait (ev_instant v) (g_db g) acct > 0
              then (resp ''error'' ''TEMPORARILY_UNAVAILABLE'' ''A code was just sent - please wait a moment before requesting another.'', g)
              else and_also
                (say (\<lambda>_. resp ''verification_required'' ''VERIFICATION_REQUIRED'' ''A new confirmation code has been emailed.''))
                (confirm_mail v acct addr) g)"

definition relay_verify :: "env \<Rightarrow> (string \<Rightarrow> string \<Rightarrow> string \<Rightarrow> net_action list) \<Rightarrow> string \<Rightarrow> string \<Rightarrow> step" where
  "relay_verify v resp acct given g =
     (if account_of (g_db g) acct = None then (resp ''error'' ''ACCOUNT_UNKNOWN'' ''No such account.'', g)
      else let (taken, g1) = in_db (take_code (ev_instant v) acct Confirm given) g in
        if taken then (resp ''success'' ''*'' ''Account verified.'', on_db (snd \<circ> verify_account acct) g1)
        else (resp ''error'' ''INVALID_CODE'' ''That verification code is wrong or has expired.'', g1))"

definition relay_status :: "(string \<Rightarrow> string \<Rightarrow> string \<Rightarrow> net_action list) \<Rightarrow> string \<Rightarrow> step" where
  "relay_status resp acct g =
     ((case map_option a_verified (account_of (g_db g) acct) of
         None \<Rightarrow> resp ''error'' ''ACCOUNT_UNKNOWN'' ''No such account.''
       | Some True \<Rightarrow> resp ''success'' ''VERIFIED'' ''Account is registered and verified.''
       | Some False \<Rightarrow> resp ''verification_required'' ''VERIFICATION_REQUIRED''
           ''Account is registered but not yet verified.''), g)"

definition account_request ::
  "env \<Rightarrow> string \<Rightarrow> string \<Rightarrow> string \<Rightarrow> string \<Rightarrow> string \<Rightarrow> string \<Rightarrow> step" where
  "account_request v reqid origin kind acct p2 p3 g =
     (let resp = (\<lambda>status token m. [OnLink (AccountResponse reqid origin kind acct status token (Lit m))]);
          k = to_ascii_uppercase kind
      in if eq_ignore_ascii_case kind ''REGISTER''
         then ([Deferred (DeferRegister acct p3 (if p2 = [] \<or> p2 = ''*'' then None else Some p2)
                  (Relay reqid kind origin))], g)
         else if external_accounts (g_db g)
         then (resp ''error'' ''ACCOUNT_REGISTRATION_DISABLED'' ''Accounts are managed on the website.'', g)
         else if k = ''VERIFY'' then relay_verify v resp acct (if p2 \<noteq> [] then p2 else p3) g
         else if k = ''RESEND'' then relay_resend v resp acct g
         else if k = ''STATUS'' then relay_status resp acct g
         else ([], g))"

subsection \<open>Registration\<close>

text \<open>\<open>None\<close>: the registration may go on.\<close>

definition pre_register_check :: "env \<Rightarrow> string \<Rightarrow> reg_reply_to \<Rightarrow> engine \<Rightarrow> net_action list option \<times> engine" where
  "pre_register_check v acct to g =
     (if external_accounts (g_db g) then (Some (reg_reply to ExternalAccounts acct), g)
      else if registrations_frozen (g_db g) \<or> l_readonly (lg (g_db g)) then (Some (reg_reply to Frozen acct), g)
      else if exists_account (g_db g) acct then (Some (reg_reply to AlreadyThere acct), g)
      else if is_forbidden (g_db g) ForbidNick acct \<noteq> None then (Some (reg_reply to ForbiddenName acct), g)
      else if \<not> ev_reg_token v then (Some (reg_reply to Busy acct), g)
      else case to of
        ToNickServ agent uid nick \<Rightarrow>
          (let (alert, g1) = security_register_flood v uid g
           in (map_option (\<lambda>acts. reg_reply to Busy acct @ acts) alert, g1))
      | _ \<Rightarrow> (None, g))"

definition reject_register_email :: "engine \<Rightarrow> string \<Rightarrow> string \<Rightarrow> string \<Rightarrow> reg_reply_to \<Rightarrow> net_action list" where
  "reject_register_email g acct email reason to =
     reg_reply to ForbiddenEmail acct @
     feed g ''SECURITY'' (Msg ''registration blocked'' [acct, email, reason])"

text \<open>The account is entered: the outcome, and the engine after it.\<close>

definition commit_registration ::
  "env \<Rightarrow> string \<Rightarrow> credentials \<Rightarrow> string option \<Rightarrow> reg_reply_to \<Rightarrow> engine \<Rightarrow> reg_outcome \<times> engine" where
  "commit_registration v acct cr email to g =
     (let (r, g1) = in_db (register_prepared (ev_now v) acct cr email) g in
      case r of
        Inl RegExists \<Rightarrow> (AlreadyThere, g1)
      | Inl _ \<Rightarrow> (InternalError, g1)
      | Inr _ \<Rightarrow>
          if is_verified (g_db g1) acct then (RegisteredOk, g1)
          else (case to of
              ToAdmin agent uid \<Rightarrow> (RegisteredOk, on_db (snd \<circ> verify_account acct) g1)
            | _ \<Rightarrow> (VerifyRequired, g1)))"

definition tell_registrant :: "reg_reply_to \<Rightarrow> message \<Rightarrow> net_action list" where
  "tell_registrant to m = (case to of ToNickServ agent uid nick \<Rightarrow> [Talk (Notice agent uid m)] | _ \<Rightarrow> [])"

definition ask_confirmation :: "env \<Rightarrow> string \<Rightarrow> string option \<Rightarrow> reg_reply_to \<Rightarrow> step" where
  "ask_confirmation v acct email to g =
     (if registration_vouch (g_db g) then (tell_registrant to (Msg ''ask a member to vouch'' [acct]), g)
      else case email of
        None \<Rightarrow> ([], g)
      | Some addr \<Rightarrow> and_also (confirm_mail v acct addr)
            (say (\<lambda>_. tell_registrant to (Msg ''confirmation code emailed'' []))) g)"

definition complete_register ::
  "env \<Rightarrow> string \<Rightarrow> credentials option \<Rightarrow> string option \<Rightarrow> reg_reply_to \<Rightarrow> step" where
  "complete_register v acct creds email to g =
     (case creds of
        None \<Rightarrow> (reg_reply to InternalError acct, g)
      | Some cr \<Rightarrow>
          if \<not> email_ok (\<lambda>addr. is_forbidden (g_db g) ForbidEmail addr = None) email
          then (reg_reply to ForbiddenEmail acct, g)
          else let (outcome, g1) = commit_registration v acct cr email to g;
                   out = reg_reply to outcome acct;
                   g2 = track_accounts v out g1
               in if outcome = VerifyRequired
                  then and_also (say (\<lambda>_. out)) (ask_confirmation v acct email to) g2
                  else (out, g2))"

definition complete_password_change :: "string \<Rightarrow> credentials option \<Rightarrow> string \<Rightarrow> string \<Rightarrow> step" where
  "complete_password_change acct creds agent uid g =
     (case creds of
        None \<Rightarrow> ([Talk (Notice agent uid (Msg ''did not work'' []))], g)
      | Some cr \<Rightarrow> (case in_db (set_credentials acct cr) g of
            (Inr _, g1) \<Rightarrow> ([Talk (Notice agent uid (Msg ''password changed'' [acct]))], g1)
          | (Inl _, g1) \<Rightarrow> ([Talk (Notice agent uid (Msg ''did not work'' []))], g1)))"

subsection \<open>Logging in\<close>

definition identify_effects :: "nat \<Rightarrow> engine \<Rightarrow> string \<Rightarrow> string \<Rightarrow> string \<Rightarrow> net_action list" where
  "identify_effects now g uid agent acct =
     [OnLink (Metadata uid ''accountname'' acct), Talk (Notice agent uid (Msg ''identified'' [acct]))] @
     map (\<lambda>e. OnUser (ForceJoin uid (aj_channel e) (aj_key e))) (ajoin_list (g_db g) acct) @
     (case Option.bind (account_of (g_db g) acct) a_vhost of
        None \<Rightarrow> []
      | Some vh \<Rightarrow> if live_until now (vh_expires vh) then [OnUser (SetHost uid (vh_host vh))] else []) @
     List.map_filter (\<lambda>f. map_option (\<lambda>x. OnLink (Metadata uid (meta_key f) x)) (profile_field_of (g_db g) acct f))
       profile_fields @
     (case swhois_of (g_db g) acct of None \<Rightarrow> [] | Some s \<Rightarrow> [OnLink (Metadata uid ''swhois'' s)]) @
     (if signore_of (g_db g) acct = [] then []
      else [OnLink (Metadata uid ''signore'' (join_words (signore_of (g_db g) acct)))]) @
     (let unread = unread_memos (g_db g) acct in
      if unread > 0 \<and> memo_notify_on (g_db g) acct
      then [Talk (Notice agent uid (Msg ''new memos'' [show_nat unread]))] else [])"

definition finish_identify :: "env \<Rightarrow> bool \<Rightarrow> string \<Rightarrow> string \<Rightarrow> string \<Rightarrow> string \<Rightarrow> step" where
  "finish_identify v ok uid agent name acct g =
     (let g1 = on_db (note_auth (ev_instant v) name ok) g in
      if ok
      then let g2 = bump_stat ''nickserv.identify'' g1
           in (identify_effects (ev_now v) g1 uid agent acct @
               auth_report g2 True (Some acct) ''NickServ IDENTIFY'' uid None, g2)
      else let g2 = bump_stat ''nickserv.identify_fail'' g1
           in ([Talk (StandardReply Fail agent uid ''IDENTIFY'' ''INVALID_CREDENTIALS'' (Msg ''invalid password'' []))] @
               auth_report g2 False (Some name) ''NickServ IDENTIFY'' uid (Some ''bad password''), g2))"

definition recover_nick :: "env \<Rightarrow> string \<Rightarrow> string \<Rightarrow> step" where
  "recover_nick v uid nick g =
     (let (out, g1) = (case nick_uid v g nick of
            None \<Rightarrow> ([], g)
          | Some ghost \<Rightarrow>
              if ghost = uid then ([], g)
              else let (guest, g1) = next_guest_nick v g in ([OnUser (ForceNick ghost guest)], g1))
      in (out @ (if net_nick_of (g_network g1) uid \<noteq> Some nick then [OnUser (ForceNick uid nick)] else []), g1))"

text \<open>Who tried a password, when a failure counts against the address.\<close>

fun password_attempt :: "auth_then \<Rightarrow> string option" where
  "password_attempt (ThenIdentify uid agent name acct) = Some uid"
| "password_attempt (ThenLogin uid agent name acct nick) = Some uid"
| "password_attempt (ThenSasl agent client acct password) = (if password then Some client else None)"

fun authenticated :: "env \<Rightarrow> bool \<Rightarrow> auth_then \<Rightarrow> step" where
  "authenticated v ok (ThenIdentify uid agent name acct) = finish_identify v ok uid agent name acct"
| "authenticated v ok (ThenLogin uid agent name acct nick) =
     and_also (finish_identify v ok uid agent name acct) (if ok then recover_nick v uid nick else nothing)"
| "authenticated v ok (ThenSasl agent client acct password) = (\<lambda>g.
     let g1 = (if password then on_db (note_auth (ev_instant v) acct ok) g else g) in
     (if ok then sasl_login (ev_now v) g1 ''SASL PLAIN'' agent client acct
      else sasl_deny g1 ''SASL PLAIN'' agent client (Some acct) ''bad password'', g1))"

definition complete_authenticate :: "env \<Rightarrow> bool \<Rightarrow> auth_then \<Rightarrow> step" where
  "complete_authenticate v ok how g =
     (let (acts, g1) = authenticated v ok how g;
          g2 = track_accounts v acts g1
      in and_also (say (\<lambda>_. acts))
           (case password_attempt how of
              Some uid \<Rightarrow> if ok then nothing else security_screen_auth v uid
            | None \<Rightarrow> nothing) g2)"

end
