(* ===== verification/StaffFeed.thy ===== *)
theory StaffFeed
  imports Sessions
begin

text \<open>
  The audit feed (\<^verbatim>\<open>audit_feed\<close>, \<^verbatim>\<open>audit_summary\<close> and \<^verbatim>\<open>event_category\<close> of src/src/engine/mod.rs): every
  event a command commits is summed up in a line for the staff, except private ones. A summary is a
  message, named, with the values the line shows. The theorems state which parts of an event reach the
  staff, and that each public event is announced and recorded once, in order.
\<close>

subsection \<open>The summary of an event\<close>

fun xline_label :: "xline_kind \<Rightarrow> string" where
  "xline_label Gline = ''network ban''"
| "xline_label Qline = ''nick ban''"
| "xline_label Rline = ''realname ban''"
| "xline_label Shun = ''shun''"
| "xline_label Cban = ''channel ban''"

definition ban_kind_label :: "string \<Rightarrow> string" where
  "ban_kind_label kind = (case xline_from_wire kind of Some k \<Rightarrow> xline_label k | None \<Rightarrow> ''network ban'')"

definition if_temporary :: "nat option \<Rightarrow> string list" where
  "if_temporary expires = (if expires = None then [] else [''(temporary)''])"

definition pinned :: "bool \<Rightarrow> string" where
  "pinned on = (if on then ''pinned'' else ''unpinned'')"

text \<open>A field that was set, without its value, or cleared.\<close>

definition set_or_cleared :: "string \<Rightarrow> 'a option \<Rightarrow> string \<Rightarrow> message" where
  "set_or_cleared field x on = Msg ((if x = None then ''cleared the '' else ''set the '') @ field) [on]"

text \<open>A field that was set to a value, or cleared.\<close>

definition set_to_or_cleared :: "string \<Rightarrow> string list \<Rightarrow> string option \<Rightarrow> message" where
  "set_to_or_cleared field on x =
     (case x of Some t \<Rightarrow> Msg (''set the '' @ field) (on @ [t]) | None \<Rightarrow> Msg (''cleared the '' @ field) on)"

fun audit_account :: "account_event \<Rightarrow> message option" where
  "audit_account (AccountRegistered a) = Some (Msg ''registered account'' [a_name a])"
| "audit_account (AccountVerified acct) = Some (Msg ''verified account'' [acct])"
| "audit_account (AccountPasswordSet acct _ _) = Some (Msg ''changed the password on'' [acct])"
| "audit_account (AccountEmailSet acct email) = Some (set_or_cleared ''email'' email acct)"
| "audit_account (AccountPubkeySet acct pubkey) = Some (set_or_cleared ''SASL public key'' pubkey acct)"
| "audit_account (AccountSwhoisSet acct line) = Some (set_to_or_cleared ''SWHOIS'' [acct] line)"
| "audit_account (CertAdded acct fp) = Some (Msg ''added cert'' [fp, acct])"
| "audit_account (CertRemoved acct fp) = Some (Msg ''removed cert'' [fp, acct])"
| "audit_account (AccountSuspended acct _ reason _ _) = Some (Msg ''suspended account'' [acct, reason])"
| "audit_account (AccountUnsuspended acct) = Some (Msg ''unsuspended account'' [acct])"
| "audit_account (VhostSet acct host _ _ expires) = Some (Msg ''set vhost'' ([host, acct] @ if_temporary expires))"
| "audit_account (VhostDeleted acct) = Some (Msg ''removed the vhost on'' [acct])"
| "audit_account (AccountOperNoteSet acct note) = Some (set_or_cleared ''staff note'' note acct)"
| "audit_account (AccountNoExpire acct on) = Some (Msg (pinned on @ '' account against expiry'') [acct])"
| "audit_account (AjoinAdded _ _ _) = None"
| "audit_account (AjoinRemoved _ _) = None"
| "audit_account (AccountGreetSet _ _) = None"
| "audit_account (AccountSignoreSet _ _) = None"
| "audit_account (AccountLanguageSet _ _) = None"
| "audit_account (AccountProfileSet _ _ _) = None"
| "audit_account (AccountAutoOpSet _ _) = None"
| "audit_account (AccountKillSet _ _) = None"
| "audit_account (AccountHideStatusSet _ _) = None"
| "audit_account (AccountSnoticeSet _ _) = None"
| "audit_account (VhostRequested _ _ _) = None"
| "audit_account (VhostRequestCleared _) = None"
| "audit_account (MemoSent _ _ _ _ _) = None"
| "audit_account (MemoRead _ _) = None"
| "audit_account (MemoDeleted _ _) = None"
| "audit_account (MemoIgnoreAdd _ _) = None"
| "audit_account (MemoIgnoreDel _ _) = None"
| "audit_account (MemoPrefsSet _ _ _) = None"
| "audit_account (AccountSeen _ _) = None"
| "audit_account (AccountExpiryWarned _) = None"

fun audit_channel :: "channel_event \<Rightarrow> message option" where
  "audit_channel (ChannelRegistered name founder _) = Some (Msg ''registered channel'' [name, founder])"
| "audit_channel (ChannelDropped name) = Some (Msg ''dropped channel'' [name])"
| "audit_channel (ChannelRenamed old new) = Some (Msg ''renamed channel'' [old, new])"
| "audit_channel (ChannelFounderSet chan founder) = Some (Msg ''set founder of'' [chan, founder])"
| "audit_channel (ChannelSuccessorSet chan successor) = Some (set_to_or_cleared ''successor of'' [chan] successor)"
| "audit_channel (ChannelAccessAdd chan acct level) = Some (Msg ''set access'' [acct, level, chan])"
| "audit_channel (ChannelAccessDel chan acct) = Some (Msg ''removed from access'' [acct, chan])"
| "audit_channel (ChannelAkickAdd chan msk reason) = Some (Msg ''added akick'' [msk, chan, reason])"
| "audit_channel (ChannelAkickDel chan msk) = Some (Msg ''removed akick'' [msk, chan])"
| "audit_channel (ChannelLevelSet chan cap role) = Some (Msg ''set level'' [cap, role, chan])"
| "audit_channel (ChannelLevelReset chan cap) = Some (Msg ''reset level'' [cap, chan])"
| "audit_channel (ChannelSuspended chan _ reason _ _) = Some (Msg ''suspended channel'' [chan, reason])"
| "audit_channel (ChannelUnsuspended chan) = Some (Msg ''unsuspended channel'' [chan])"
| "audit_channel (ChannelBotAssigned chan b) = Some (Msg ''assigned bot'' [b, chan])"
| "audit_channel (ChannelBotUnassigned chan) = Some (Msg ''removed the bot from'' [chan])"
| "audit_channel (ChannelOperNoteSet chan note) = Some (set_or_cleared ''staff note'' note chan)"
| "audit_channel (ChannelNoExpire chan on) = Some (Msg (pinned on @ '' channel against expiry'') [chan])"
| "audit_channel (ChannelMlock _ _ _ _) = None"
| "audit_channel (ChannelDescSet _ _) = None"
| "audit_channel (ChannelEntryMsgSet _ _) = None"
| "audit_channel (ChannelUrlSet _ _) = None"
| "audit_channel (ChannelEmailSet _ _) = None"
| "audit_channel (ChannelSettingsSet _ _) = None"
| "audit_channel (ChannelKickerSet _ _) = None"
| "audit_channel (ChannelBadwordsSet _ _) = None"
| "audit_channel (ChannelTriggersSet _ _) = None"
| "audit_channel (ChannelTopicSet _ _ _) = None"
| "audit_channel (ChannelUsed _ _) = None"
| "audit_channel (ChannelExpiryWarned _) = None"

fun audit_host :: "host_event \<Rightarrow> message option" where
  "audit_host (VhostOfferAdded host) = Some (Msg ''added vhost offer'' [host])"
| "audit_host (VhostOfferRemoved host) = Some (Msg ''removed vhost offer'' [host])"
| "audit_host (VhostForbidAdded pat) = Some (Msg ''forbade vhost pattern'' [pat])"
| "audit_host (VhostForbidRemoved pat) = Some (Msg ''un-forbade vhost pattern'' [pat])"
| "audit_host (VhostTemplateSet template) = Some (set_to_or_cleared ''vhost template'' [] template)"

fun audit_net :: "Events.net_event \<Rightarrow> message option" where
  "audit_net (AkillAdded kind msk _ reason _ expires) =
     Some (Msg ''set a ban'' ([ban_kind_label kind, msk] @ if_temporary expires @ [reason]))"
| "audit_net (AkillRemoved kind msk) = Some (Msg ''lifted the ban'' [ban_kind_label kind, msk])"
| "audit_net (FilterAdded pat action _ _ reason _ _) = Some (Msg ''added a spam filter'' [action, pat, reason])"
| "audit_net (FilterRemoved pat) = Some (Msg ''removed the spam filter on'' [pat])"
| "audit_net (ForbidAdded kind msk _ reason _) = Some (Msg ''forbade'' [key kind, msk, reason])"
| "audit_net (ForbidRemoved kind msk) = Some (Msg ''un-forbade'' [key kind, msk])"
| "audit_net (NotifyAdded msk flags _ _ _ _) = Some (Msg ''added a notify watch on'' [msk, flags])"
| "audit_net (NotifyRemoved msk) = Some (Msg ''removed the notify watch on'' [msk])"
| "audit_net (JupeAdded name _ reason) = Some (Msg ''juped server'' [name, reason])"
| "audit_net (JupeRemoved name) = Some (Msg ''lifted the jupe on'' [name])"
| "audit_net (NewsAdded _ kind _ _ _) = Some (Msg ''added a bulletin'' [kind])"
| "audit_net (NewsDeleted _) = Some (Msg ''removed a bulletin'' [])"
| "audit_net (ReportFiled _ reporter target reason _) = Some (Msg ''reported'' [reporter, target, reason])"
| "audit_net (ReportClosed i) = Some (Msg ''closed report'' [show_nat i])"
| "audit_net (ReportDeleted i) = Some (Msg ''deleted report'' [show_nat i])"
| "audit_net (HelpRequested _ requester m _) = Some (Msg ''asked for help'' [requester, m])"
| "audit_net (HelpTaken i handler) = Some (Msg ''took help ticket'' [handler, show_nat i])"
| "audit_net (HelpClosed i) = Some (Msg ''closed help ticket'' [show_nat i])"
| "audit_net (GroupRegistered name founder _ _) = Some (Msg ''registered group'' [name, founder])"
| "audit_net (GroupDropped name) = Some (Msg ''dropped group'' [name])"
| "audit_net (GroupFounderSet name founder) = Some (Msg ''set founder of'' [name, founder])"
| "audit_net (GroupFlagsSet name acct flags) =
     Some (if flags = [] then Msg ''added to group'' [acct, name] else Msg ''set in group'' [acct, name, flags])"
| "audit_net (GroupMemberDel name acct) = Some (Msg ''removed from group'' [acct, name])"
| "audit_net (OperGranted acct prvs _) = Some (Msg ''granted operator'' (acct # prvs))"
| "audit_net (OperRevoked acct) = Some (Msg ''revoked operator access'' [acct])"
| "audit_net (SessionExceptionAdded msk limit _) = Some (Msg ''set a session exception'' [msk, show_nat limit])"
| "audit_net (SessionExceptionRemoved msk) = Some (Msg ''removed the session exception'' [msk])"
| "audit_net (StatsSet _ _) = None"
| "audit_net (IncidentsSet _ _) = None"

fun audit_summary :: "event \<Rightarrow> message option" where
  "audit_summary (AccountEvent e) = audit_account e"
| "audit_summary (AccountDropped acct) = Some (Msg ''dropped account'' [acct])"
| "audit_summary (NickGrouped nick acct) = Some (Msg ''grouped nick'' [nick, acct])"
| "audit_summary (NickUngrouped nick) = Some (Msg ''ungrouped nick'' [nick])"
| "audit_summary (ChannelEvent e) = audit_channel e"
| "audit_summary (BotAdded b) = Some (Msg ''added bot'' [b_nick b])"
| "audit_summary (BotRemoved nick) = Some (Msg ''removed bot'' [nick])"
| "audit_summary (DefaultBotSet b) = Some (set_to_or_cleared ''auto-assign bot'' [] b)"
| "audit_summary (HostEvent e) = audit_host e"
| "audit_summary (NetEvent e) = audit_net e"

fun event_category :: "event \<Rightarrow> string" where
  "event_category (AccountEvent e) =
     (case e of
        AccountRegistered _ \<Rightarrow> ''ACCT'' | AccountVerified _ \<Rightarrow> ''ACCT'' | AccountPasswordSet _ _ _ \<Rightarrow> ''ACCT''
      | AccountEmailSet _ _ \<Rightarrow> ''ACCT'' | CertAdded _ _ \<Rightarrow> ''ACCT'' | CertRemoved _ _ \<Rightarrow> ''ACCT''
      | AccountSuspended _ _ _ _ _ \<Rightarrow> ''ACCT'' | AccountUnsuspended _ \<Rightarrow> ''ACCT'' | VhostSet _ _ _ _ _ \<Rightarrow> ''ACCT''
      | VhostDeleted _ \<Rightarrow> ''ACCT'' | AccountOperNoteSet _ _ \<Rightarrow> ''ACCT'' | _ \<Rightarrow> ''OPER'')"
| "event_category (AccountDropped _) = ''ACCT''"
| "event_category (NickGrouped _ _) = ''ACCT''"
| "event_category (NickUngrouped _) = ''ACCT''"
| "event_category (ChannelEvent e) =
     (case e of
        ChannelRegistered _ _ _ \<Rightarrow> ''CHAN'' | ChannelDropped _ \<Rightarrow> ''CHAN'' | ChannelFounderSet _ _ \<Rightarrow> ''CHAN''
      | ChannelSuccessorSet _ _ \<Rightarrow> ''CHAN'' | ChannelAccessAdd _ _ _ \<Rightarrow> ''CHAN'' | ChannelAccessDel _ _ \<Rightarrow> ''CHAN''
      | ChannelAkickAdd _ _ _ \<Rightarrow> ''CHAN'' | ChannelAkickDel _ _ \<Rightarrow> ''CHAN'' | ChannelSuspended _ _ _ _ _ \<Rightarrow> ''CHAN''
      | ChannelUnsuspended _ \<Rightarrow> ''CHAN'' | ChannelBotAssigned _ _ \<Rightarrow> ''CHAN'' | ChannelBotUnassigned _ \<Rightarrow> ''CHAN''
      | ChannelOperNoteSet _ _ \<Rightarrow> ''CHAN'' | _ \<Rightarrow> ''OPER'')"
| "event_category _ = ''OPER''"

subsection \<open>The feed\<close>

definition audit_actor :: "string \<Rightarrow> string option \<Rightarrow> string list" where
  "audit_actor nick acct =
     (case acct of
        Some a \<Rightarrow> if eq_ignore_ascii_case a nick then [nick] else [nick, a]
      | None \<Rightarrow> [nick])"

fun audit_line :: "string list \<Rightarrow> message \<Rightarrow> message" where
  "audit_line actor (Msg n as) = Msg (''audit: '' @ n) (actor @ as)"
| "audit_line actor m = Msg ''audit'' (actor @ [text_of m])"

definition audit_one :: "env \<Rightarrow> string list \<Rightarrow> string \<times> message \<Rightarrow> step" where
  "audit_one v actor tagged g =
     (let line = audit_line actor (snd tagged); g1 = snd (record_text v line g)
      in (feed_or_notice (fst tagged) line g1, g1))"

definition audit_feed :: "env \<Rightarrow> nat \<Rightarrow> string \<Rightarrow> string option \<Rightarrow> step" where
  "audit_feed v mark nick acct g =
     each (audit_one v (audit_actor nick acct))
       (List.map_filter (\<lambda>e. map_option (Pair (event_category e)) (audit_summary e)) (events_from mark (lg (g_db g)))) g"

end
