(* ===== verification/Dates.thy ===== *)
theory Dates
  imports Strings
begin

text \<open>
  Dates as the services print them (\<^verbatim>\<open>human_time\<close> of src/api/src/lib.rs). The days since 1970 come from a
  \<^verbatim>\<open>u64\<close> divided by 86400, so the code's signed arithmetic never leaves the naturals. The rest shows that the formula for the civil date is
  the calendar: day after day, with its months and leap years.
\<close>

definition year_of_era :: "nat \<Rightarrow> nat" where
  "year_of_era doe = (doe - doe div 1460 + doe div 36524 - doe div 146096) div 365"

definition day_of_year :: "nat \<Rightarrow> nat \<Rightarrow> nat" where
  "day_of_year doe yoe = doe - (365 * yoe + yoe div 4 - yoe div 100)"

text \<open>The month and day of a day counted from the first of March.\<close>

definition month_day :: "nat \<Rightarrow> nat \<times> nat" where
  "month_day doy =
     (let mp = (5 * doy + 2) div 153 in
      (if mp < 10 then mp + 3 else mp - 9, doy - (153 * mp + 2) div 5 + 1))"

definition civil :: "nat \<Rightarrow> nat \<times> nat \<times> nat" where
  "civil days =
     (let z = days + 719468; era = z div 146097; doe = z - era * 146097; yoe = year_of_era doe;
          (m, d) = month_day (day_of_year doe yoe)
      in (yoe + era * 400 + (if m \<le> 2 then 1 else 0), m, d))"

definition padded :: "nat \<Rightarrow> nat \<Rightarrow> string" where
  "padded w n = replicate (w - length (show_nat n)) (CHR ''0'') @ show_nat n"

definition human_time :: "nat \<Rightarrow> string" where
  "human_time ts =
     (case civil (ts div 86400) of (y, m, d) \<Rightarrow>
        let left = ts mod 86400 in
        padded 4 y @ ''-'' @ padded 2 m @ ''-'' @ padded 2 d @ '' '' @
        padded 2 (left div 3600) @ '':'' @ padded 2 (left mod 3600 div 60) @ '':'' @ padded 2 (left mod 60) @ '' UTC'')"

subsection \<open>The years of an era\<close>

text \<open>An era is 400 years counted from the first of March; \<open>first_day\<close> is the day of the era on which a year
  begins.\<close>

definition first_day :: "nat \<Rightarrow> nat" where
  "first_day y = 365 * y + y div 4 - y div 100"

definition year_end :: "nat \<Rightarrow> nat" where
  "year_end y = (if y = 399 then 146097 else first_day (y + 1))"

lemma step_le: "a' \<le> a + 1 \<Longrightarrow> b \<le> b' \<Longrightarrow> a \<le> n \<Longrightarrow> n - a + b - 0 \<le> Suc n - a' + b' - (0::nat)"
  by linarith

lemma era_mono_step:
  assumes "doe < 146097"
  shows "doe - doe div 1460 + doe div 36524 - doe div 146096 \<le>
    Suc doe - Suc doe div 1460 + Suc doe div 36524 - Suc doe div 146096"
proof (cases "doe < 146095")
  case True
  then have z: "doe div 146096 = 0" "Suc doe div 146096 = 0" by simp_all
  have "Suc doe div 1460 \<le> doe div 1460 + 1" by (simp add: div_Suc)
  then show ?thesis unfolding z by (rule step_le) (simp_all add: div_le_mono)
next
  case False
  with assms consider "doe = 146095" | "doe = 146096" by linarith
  then show ?thesis
  proof cases
    case 1
    then have "Suc doe = 146096" by simp
    then show ?thesis unfolding \<open>Suc doe = 146096\<close> unfolding 1 by simp
  next
    case 2
    then have "Suc doe = 146097" by simp
    then show ?thesis unfolding \<open>Suc doe = 146097\<close> unfolding 2 by simp
  qed
qed

lemma era_mono:
  fixes d e :: nat
  shows "d \<le> e \<Longrightarrow> e < 146098 \<Longrightarrow> d - d div 1460 + d div 36524 - d div 146096 \<le> e - e div 1460 + e div 36524 - e div 146096"
proof (induction e)
  case (Suc e)
  show ?case
  proof (cases "d = Suc e")
    case False
    with Suc.prems have "d \<le> e" "e < 146098" by simp_all
    then have "d - d div 1460 + d div 36524 - d div 146096 \<le> e - e div 1460 + e div 36524 - e div 146096" by (rule Suc.IH)
    also have "\<dots> \<le> Suc e - Suc e div 1460 + Suc e div 36524 - Suc e div 146096"
      using Suc.prems by (intro era_mono_step) simp
    finally show ?thesis .
  qed simp
qed simp

lemma year_of_era_mono: "d \<le> e \<Longrightarrow> e < 146098 \<Longrightarrow> year_of_era d \<le> year_of_era e"
  unfolding year_of_era_def by (rule div_le_mono) (rule era_mono)

lemma first_day_parts:
  assumes "y = 100 * c + 4 * a + r" "r < 4" "a < 25"
  shows "first_day y = 36524 * c + 1461 * a + 365 * r" "y div 4 = 25 * c + a" "y div 100 = c"
proof -
  show "y div 4 = 25 * c + a" by (rule div_nat_eqI) (use assms in simp_all)
  moreover show "y div 100 = c" by (rule div_nat_eqI) (use assms in simp_all)
  ultimately show "first_day y = 36524 * c + 1461 * a + 365 * r"
    using assms(1) by (simp add: first_day_def)
qed

lemma year_parts:
  obtains c a r where "y = 100 * c + 4 * a + r" "r < 4" "a < (25::nat)"
proof
  show "y = 100 * (y div 100) + 4 * (y mod 100 div 4) + y mod 100 mod 4" by simp
qed simp_all

lemma year_starts: "y < 400 \<Longrightarrow> year_of_era (first_day y) = y"
proof -
  assume y: "y < 400"
  obtain c a r where p: "y = 100 * c + 4 * a + r" "r < 4" "a < 25" by (rule year_parts)
  have q: "first_day y div 1460 = 25 * c + a" "first_day y div 36524 = c" "first_day y div 146096 = 0"
    unfolding first_day_parts(1) [OF p] by (rule div_nat_eqI; use y p in simp)+
  have "first_day y - (25 * c + a) + c - 0 = 365 * y"
    unfolding first_day_parts(1) [OF p] using p(1) by simp
  then show ?thesis unfolding year_of_era_def q by simp
qed

lemma year_ends: "y < 400 \<Longrightarrow> year_of_era (year_end y - 1) = y"
proof (cases "y = 399")
  case False
  assume "y < 400"
  with False have y: "y + 1 < 400" by simp
  obtain c a r where p: "y + 1 = 100 * c + 4 * a + r" "r < 4" "a < 25" by (rule year_parts)
  let ?d = "first_day (y + 1) - 1"
  have d: "?d + 1 = 36524 * c + 1461 * a + 365 * r" unfolding first_day_parts(1) [OF p] using p by auto
  have q: "?d div 1460 = 25 * c + a" "?d div 146096 = 0" by (rule div_nat_eqI; use y p d in simp)+
  have "?d div 36524 \<le> c" using d p less_mult_imp_div_less [of ?d "c + 1" 36524] by simp
  moreover have "36524 * c \<le> ?d + 1" using d by simp
  moreover have "c \<le> ?d div 36524 + 1" if "36524 * c \<le> ?d + 1"
    using that div_le_mono [of "36524 * c" "?d + 1" 36524] by (simp add: div_Suc split: if_splits)
  ultimately obtain k where k: "?d div 36524 = k" "k \<le> c" "c \<le> k + 1" by blast
  have "?d - (25 * c + a) + k - 0 < 365 * Suc y" "365 * y \<le> ?d - (25 * c + a) + k - 0"
    using d p k by simp_all
  then have "(?d - (25 * c + a) + k - 0) div 365 = y" by (intro div_nat_eqI) simp_all
  then have "(?d - ?d div 1460 + ?d div 36524 - ?d div 146096) div 365 = y" unfolding q k .
  with False show ?thesis by (simp add: year_of_era_def year_end_def)
qed (simp add: year_of_era_def year_end_def)

lemma year_of_era_bounds:
  assumes "doe < 146097"
  shows "year_of_era doe < 400" "first_day (year_of_era doe) \<le> doe" "doe < year_end (year_of_era doe)"
proof -
  let ?y = "year_of_era doe"
  have "?y \<le> year_of_era (year_end 399 - 1)" using assms by (intro year_of_era_mono) (simp_all add: year_end_def)
  then show lt: "?y < 400" using year_ends [of 399] by simp
  show "first_day ?y \<le> doe"
  proof (rule ccontr)
    assume a: "\<not> first_day ?y \<le> doe"
    then have "?y \<noteq> 0" by (cases "?y = 0") (simp_all add: first_day_def)
    then obtain x where x: "?y = x + 1" by (cases ?y) simp_all
    with lt have "year_end x = first_day ?y" by (simp add: year_end_def)
    with a have "doe \<le> year_end x - 1" "year_end x - 1 < 146098"
      using lt x by (auto simp: first_day_def)
    with year_of_era_mono year_ends [of x] lt x show False by (metis Suc_eq_plus1 Suc_lessD not_less_eq_eq order_refl)
  qed
  show "doe < year_end ?y"
  proof (rule ccontr)
    assume a: "\<not> doe < year_end ?y"
    with assms have n: "?y \<noteq> 399" by (auto simp: year_end_def)
    with a have "first_day (?y + 1) \<le> doe" by (simp add: year_end_def)
    then have "year_of_era (first_day (?y + 1)) \<le> ?y" using assms by (intro year_of_era_mono) simp_all
    with year_starts [of "?y + 1"] lt n show False by simp
  qed
qed

lemma year_of_era_eq:
  assumes "y < 400" "first_day y \<le> doe" "doe < year_end y"
  shows "year_of_era doe = y"
proof (rule antisym)
  have "year_end y \<le> 146097" using assms(1) by (auto simp: year_end_def first_day_def)
  with assms(2,3) show "year_of_era doe \<le> y" "y \<le> year_of_era doe"
    using year_of_era_mono [of doe "year_end y - 1"] year_of_era_mono [of "first_day y" doe]
      year_ends [OF assms(1)] year_starts [OF assms(1)] by simp_all
qed

subsection \<open>The calendar\<close>

definition leap_year :: "nat \<Rightarrow> bool" where
  "leap_year y \<longleftrightarrow> y mod 4 = 0 \<and> (y mod 100 \<noteq> 0 \<or> y mod 400 = 0)"

definition month_length :: "nat \<Rightarrow> nat \<Rightarrow> nat" where
  "month_length y m =
     (if m = 2 then (if leap_year y then 29 else 28) else if m \<in> {4, 6, 9, 11} then 30 else 31)"

fun next_day :: "nat \<times> nat \<times> nat \<Rightarrow> nat \<times> nat \<times> nat" where
  "next_day (y, m, d) =
     (if d < month_length y m then (y, m, d + 1) else if m < 12 then (y, m + 1, 1) else (y + 1, 1, 1))"

lemma month_day_table:
  assumes "doy < 366"
  shows "month_day doy =
    (if doy < 31 then (3, doy + 1) else if doy < 61 then (4, doy - 30) else if doy < 92 then (5, doy - 60)
     else if doy < 122 then (6, doy - 91) else if doy < 153 then (7, doy - 121) else if doy < 184 then (8, doy - 152)
     else if doy < 214 then (9, doy - 183) else if doy < 245 then (10, doy - 213) else if doy < 275 then (11, doy - 244)
     else if doy < 306 then (12, doy - 274) else if doy < 337 then (1, doy - 305) else (2, doy - 336))"
proof -
  have mp: "(5 * doy + 2) div 153 = k" if "153 * k \<le> 5 * doy + 2" "5 * doy + 2 < 153 * Suc k" for k
    using that by (intro div_nat_eqI) simp_all
  show ?thesis
    using mp [of 0] mp [of 1] mp [of 2] mp [of 3] mp [of 4] mp [of 5] mp [of 6] mp [of 7] mp [of 8] mp [of 9]
      mp [of 10] mp [of 11] assms
    by (simp add: month_day_def Let_def) auto
qed

lemma year_length:
  assumes "y < 400"
  shows "year_end y = first_day y + (if leap_year (y + 1) then 366 else 365)"
proof (cases "y = 399")
  case False
  then show ?thesis
    using assms mod_mod_cancel [of 4 100 y]
    by (auto simp: year_end_def first_day_def leap_year_def div_Suc mod_Suc ac_simps)
qed (simp add: year_end_def first_day_def leap_year_def)

lemma month_step:
  assumes "doy < 365" "month_day doy = (m, d)"
  shows "month_day (doy + 1) =
      (if d < (if m = 2 then 29 else if m \<in> {4, 6, 9, 11} then 30 else 31) then (m, d + 1)
       else (if m < 12 then m + 1 else 1, 1))"
    and "1 \<le> m \<and> m \<le> 12" "m = 2 \<and> d = 28 \<longleftrightarrow> doy = 364" "m \<noteq> 2 \<or> d < 29"
proof -
  have b: "doy < 366" "doy + 1 < 366" using assms(1) by simp_all
  note t = month_day_table [OF b(1), unfolded assms(2)] month_day_table [OF b(2)]
  show "month_day (doy + 1) =
      (if d < (if m = 2 then 29 else if m \<in> {4, 6, 9, 11} then 30 else 31) then (m, d + 1)
       else (if m < 12 then m + 1 else 1, 1))"
    unfolding t(2) using t(1) assms(1) by (auto split: if_splits)
  show "1 \<le> m \<and> m \<le> 12" "m = 2 \<and> d = 28 \<longleftrightarrow> doy = 364" "m \<noteq> 2 \<or> d < 29"
    using t(1) assms(1) by (auto split: if_splits)
qed

text \<open>The date of a day of an era, and of the first of March its year begins with.\<close>

definition era_date :: "nat \<Rightarrow> nat \<Rightarrow> nat \<times> nat \<times> nat" where
  "era_date era doe =
     (let y = year_of_era doe; (m, d) = month_day (doe - first_day y)
      in (y + era * 400 + (if m \<le> 2 then 1 else 0), m, d))"

lemma civil_era: "civil n = era_date ((n + 719468) div 146097) ((n + 719468) mod 146097)"
  by (simp add: civil_def era_date_def Let_def day_of_year_def first_day_def minus_div_mult_eq_mod [symmetric]
      mult.commute)

lemma leap_shift [simp]: "leap_year (y + era * 400) = leap_year y"
proof -
  have "(y + era * 400) mod 4 = y mod 4" "(y + era * 400) mod 100 = y mod 100"
    using mod_mult_self1 [of y "era * 100" 4] mod_mult_self1 [of y "era * 4" 100] by (simp_all add: ac_simps)
  then show ?thesis by (simp add: leap_year_def)
qed

lemma leap_shift_Suc [simp]: "leap_year (Suc (y + era * 400)) = leap_year (Suc y)"
  using leap_shift [of "Suc y" era] by (simp del: leap_shift)

lemma month_length_shift: "month_length (y + era * 400 + 1) m = month_length (y + 1) m"
  using leap_shift [of "y + 1" era] by (simp add: month_length_def del: leap_shift)

lemma within_year:
  assumes "y < 400" "first_day y \<le> doe" "doe + 1 < year_end y"
  shows "era_date era (doe + 1) = next_day (era_date era doe)"
proof -
  let ?doy = "doe - first_day y"
  have y: "year_of_era doe = y" "year_of_era (Suc doe) = y"
    using assms by (auto intro!: year_of_era_eq)
  obtain m d where md: "month_day ?doy = (m, d)" by force
  have doy: "?doy < 365" "Suc doe - first_day y = Suc ?doy" "?doy = 364 \<longrightarrow> leap_year (y + 1)"
    using assms year_length [OF assms(1)] by (auto split: if_splits)
  note s = month_step [OF doy(1) md]
  have "(if m = 2 then 29 else if m \<in> {4, 6, 9, 11} then 30 else 31) = month_length (y + era * 400 + 1) m \<or>
      m = 2 \<and> d < 28"
    using s(3,4) doy(3) by (auto simp: month_length_shift month_length_def)
  then show ?thesis
    using s(1,2,4) md by (auto simp: era_date_def Let_def y doy(2) month_length_def split: if_splits)
qed

lemma year_turns:
  assumes "y < 400" "doe + 1 = year_end y"
  shows "next_day (era_date era doe) = (y + era * 400 + 1, 3, 1)"
proof -
  have "first_day y < year_end y" using year_length [OF assms(1)] by auto
  then have y: "year_of_era doe = y" using assms by (intro year_of_era_eq) simp_all
  have doy: "doe - first_day y = (if leap_year (y + 1) then 365 else 364)"
    using assms year_length [OF assms(1)] by (auto split: if_splits)
  have "month_day 365 = (2, 29)" "month_day 364 = (2, 28)" by (simp_all add: month_day_def)
  then show ?thesis
    by (auto simp: era_date_def Let_def y doy month_length_def)
qed

lemma march_first: "month_day 0 = (3, 1)"
  by (simp add: month_day_def)

lemma Suc_div_mod:
  "z mod k + 1 = k \<Longrightarrow> Suc z div k = z div k + 1 \<and> Suc z mod k = 0"
  "z mod k + 1 \<noteq> k \<Longrightarrow> Suc z div k = z div k \<and> Suc z mod k = z mod k + 1"
  by (auto simp: div_Suc mod_Suc)

lemma civil_Suc: "civil (Suc n) = next_day (civil n)"
proof -
  let ?z = "n + 719468"
  let ?era = "?z div 146097" and ?doe = "?z mod 146097"
  let ?y = "year_of_era ?doe"
  have doe: "?doe < 146097" by simp
  note y = year_of_era_bounds [OF doe]
  show ?thesis
  proof (cases "?doe + 1 = 146097")
    case True
    then have z: "(Suc n + 719468) div 146097 = ?era + 1" "(Suc n + 719468) mod 146097 = 0"
      using Suc_div_mod(1) unfolding add_Suc by blast+
    have "year_of_era ?doe = 399"
      by (rule year_of_era_eq) (use True in \<open>simp_all add: year_end_def first_day_def\<close>)
    with y(3) True have "next_day (era_date ?era ?doe) = (399 + ?era * 400 + 1, 3, 1)"
      by (intro year_turns) (simp_all add: year_end_def)
    moreover have "era_date (?era + 1) 0 = (399 + ?era * 400 + 1, 3, 1)"
      by (simp add: era_date_def year_of_era_def first_day_def march_first)
    ultimately show ?thesis unfolding civil_era z by simp
  next
    case False
    then have z: "(Suc n + 719468) div 146097 = ?era" "(Suc n + 719468) mod 146097 = ?doe + 1"
      using Suc_div_mod(2) unfolding add_Suc by blast+
    show ?thesis
    proof (cases "?doe + 1 < year_end ?y")
      case True
      with y show ?thesis unfolding civil_era z by (intro within_year) simp_all
    next
      case last: False
      with y(3) have e: "?doe + 1 = year_end ?y" by simp
      with False have "?y \<noteq> 399" by (auto simp: year_end_def)
      with y(1) have n: "?y + 1 < 400" by simp
      with e have f: "?doe + 1 = first_day (?y + 1)" by (simp add: year_end_def)
      have "year_of_era (?doe + 1) = ?y + 1" unfolding f by (rule year_starts [OF n])
      moreover have "month_day (?doe + 1 - first_day (?y + 1)) = (3, 1)" unfolding f using march_first by simp
      ultimately have "era_date ?era (?doe + 1) = (?y + 1 + ?era * 400, 3, 1)"
        by (simp add: era_date_def)
      with year_turns [OF y(1) e] show ?thesis unfolding civil_era z by simp
    qed
  qed
qed

text \<open>The date printed for a timestamp is the date a calendar reaches by counting: the first of
  January 1970, moved on by one day at a time for as many days as have gone by, with the leap years of the
  Gregorian calendar, however far the timestamp lies in the future.\<close>

theorem dates_count_days: "civil n = (next_day ^^ n) (1970, 1, 1)"
proof (induction n)
  case 0
  have "(0 + 719468) div 146097 = (4::nat)" "(0 + 719468) mod 146097 = (135080::nat)" by simp_all
  moreover have "year_of_era 135080 = 369" by (simp add: year_of_era_def)
  moreover have "first_day 369 = 134774" "month_day 306 = (1, 1)" by (simp_all add: first_day_def month_day_def)
  ultimately show ?case unfolding civil_era era_date_def by simp
next
  case (Suc n)
  then show ?case by (simp add: civil_Suc)
qed
end
