(* ===== verification/Dispatch.thy ===== *)
theory Dispatch
  imports Limiter Register StaffFeed Dates
begin

text \<open>
  From a line said to a service or in a channel to the command behind it (src/src/engine/dispatch.rs):
  votes, fantasy commands, kickers and triggers of a channel; ignores, flood control, CTCP and the
  routing of a service's own commands; and what follows every command: statistics, the bots, the audit
  feed, alerts and the styling of notices. The tables of words fantasy listens to are those of
  src/modules/chanserv/src/lib.rs and src/modules/dictserv/src/lib.rs.

  What a service answers, and what it does to the store, is the argument \<open>md_command\<close> of the record
  \<open>modules\<close>; a service sees the network but cannot change it. The answers of the rate limiters, which theory
  Limiter models, are arguments too.
\<close>

subsection \<open>The services\<close>

record sender =
  sd_uid :: string
  sd_nick :: string
  sd_account :: "string option"
  sd_privs :: privs

type_synonym auth_rep = "bool \<times> string option \<times> string \<times> string \<times> string option"

record command_result =
  rs_actions :: "net_action list"
  rs_stats :: "string list"
  rs_alerts :: "(string \<times> message) list"
  rs_auth :: "auth_rep list"

definition no_result :: command_result where
  "no_result = \<lparr>rs_actions = [], rs_stats = [], rs_alerts = [], rs_auth = []\<rparr>"

definition acting :: "net_action list \<Rightarrow> command_result" where
  "acting acts = no_result\<lparr>rs_actions := acts\<rparr>"

definition with_actions :: "command_result \<Rightarrow> net_action list \<Rightarrow> command_result" where
  "with_actions r acts = r\<lparr>rs_actions := rs_actions r @ acts\<rparr>"

record modules =
  md_command :: "string \<Rightarrow> sender \<Rightarrow> string option \<Rightarrow> string list \<Rightarrow> network \<Rightarrow> db \<Rightarrow> command_result \<times> db"
  md_version :: string
  md_verdict :: "string \<Rightarrow> cmd_verdict"
  md_dict_token :: "nat \<Rightarrow> bool"

text \<open>\<^verbatim>\<open>split_whitespace\<close>.\<close>

definition split_whitespace :: "string \<Rightarrow> string list" where
  "split_whitespace s = filter (\<lambda>w. w \<noteq> []) (split_where is_whitespace s)"

definition service_uid :: "engine \<Rightarrow> string \<Rightarrow> string option" where
  "service_uid g nick = map_option sv_uid (find (\<lambda>s. eq_ignore_ascii_case (sv_nick s) nick) (g_services g))"

definition addressed :: "engine \<Rightarrow> string \<Rightarrow> service option" where
  "addressed g to = find (\<lambda>s. eq_ignore_ascii_case to (sv_uid s) \<or> eq_ignore_ascii_case to (sv_nick s)) (g_services g)"

definition route_to ::
  "modules \<Rightarrow> string \<Rightarrow> sender \<Rightarrow> string option \<Rightarrow> string list \<Rightarrow> engine \<Rightarrow> command_result \<times> engine" where
  "route_to md uid sd msgid args g =
     (case find (\<lambda>s. sv_uid s = uid) (g_services g) of
        None \<Rightarrow> (no_result, g)
      | Some s \<Rightarrow> in_db (md_command md (sv_uid s) sd msgid args (g_network g)) g)"

subsection \<open>CTCP\<close>

definition trim_ctcp :: "string \<Rightarrow> string" where
  "trim_ctcp s = rev (dropWhile (\<lambda>c. c = CHR 0x01) (rev (dropWhile (\<lambda>c. c = CHR 0x01) s)))"

text \<open>The longest prefix of at most so many bytes.\<close>

fun take_bytes :: "nat \<Rightarrow> string \<Rightarrow> string" where
  "take_bytes n [] = []"
| "take_bytes n (c # s) = (let k = utf8_len [c] in if k \<le> n then c # take_bytes (n - k) s else [])"

definition ctcp_reply :: "env \<Rightarrow> modules \<Rightarrow> string \<Rightarrow> string \<Rightarrow> string \<Rightarrow> net_action list" where
  "ctcp_reply v md svc to line =
     (let (cmd, arg) = (case split_once CHR '' '' (trim_ctcp line) of
            Some (c, a) \<Rightarrow> (to_ascii_uppercase c, a) | None \<Rightarrow> (to_ascii_uppercase (trim_ctcp line), []));
          answer = (if cmd = ''VERSION'' then Some (''VERSION '' @ md_version md)
            else if cmd = ''PING'' then Some (''PING '' @ take_bytes 200 arg)
            else if cmd = ''TIME'' then Some (''TIME '' @ human_time (ev_now v))
            else if cmd = ''CLIENTINFO'' then Some ''CLIENTINFO ACTION CLIENTINFO PING TIME VERSION''
            else None)
      in case answer of
           None \<Rightarrow> []
         | Some a \<Rightarrow> [Talk (Notice svc to (Lit ([CHR 0x01] @ a @ [CHR 0x01])))])"

subsection \<open>Fantasy\<close>

definition chanserv_commands :: "string list" where
  "chanserv_commands =
     [''REGISTER'', ''INFO'', ''DROP'', ''MLOCK'', ''MODE'', ''ACCESS'', ''FLAGS'', ''OP'', ''DEOP'', ''VOICE'',
      ''DEVOICE'', ''UP'', ''DOWN'', ''OWNER'', ''DEOWNER'', ''PROTECT'', ''ADMIN'', ''DEPROTECT'', ''DEADMIN'',
      ''HALFOP'', ''DEHALFOP'', ''KICK'', ''BAN'', ''UNBAN'', ''TOPIC'', ''INVITE'', ''AKICK'', ''LEVELS'',
      ''STATUS'', ''SUSPEND'', ''UNSUSPEND'', ''NOEXPIRE'', ''LIST'', ''SET'', ''ENTRYMSG'', ''GETKEY'',
      ''SEEN'', ''ENFORCE'', ''SYNC'', ''CLONE'', ''RENAME'', ''SOP'', ''AOP'', ''HOP'', ''VOP'', ''HELP'']"

definition is_chanserv_command :: "string \<Rightarrow> bool" where
  "is_chanserv_command cmd = list_ex (\<lambda>c. eq_ignore_ascii_case cmd c) chanserv_commands"

definition lookups :: "(string \<times> string \<times> string) list" where
  "lookups =
     [(''dict'', ''wn'', ''WordNet''), (''define'', ''gcide'', ''GCIDE''),
      (''definitions'', ''*'', ''all dictionaries''), (''thes'', ''moby-thesaurus'', ''Thesaurus''),
      (''element'', ''elements'', ''Elements''), (''acronym'', ''vera'', ''Acronyms''),
      (''jargon'', ''jargon'', ''Jargon File''), (''term'', ''foldoc'', ''Computing''),
      (''bible'', ''easton'', ''Easton's Bible''), (''biblename'', ''hitchcock'', ''Bible Names''),
      (''law'', ''bouvier'', ''Bouvier's Law''), (''ciainfo'', ''world02'', ''CIA Factbook''),
      (''counties'', ''gaz2k-counties'', ''US Counties''), (''places'', ''gaz2k-places'', ''US Places''),
      (''zipcodes'', ''gaz2k-zips'', ''US ZIP codes'')]"

definition lookup_for :: "string \<Rightarrow> (string \<times> string \<times> string) option" where
  "lookup_for cmd = find (\<lambda>l. eq_ignore_ascii_case (fst l) cmd) lookups"

definition dict_db_for :: "string \<Rightarrow> (string \<times> string) option" where
  "dict_db_for lang =
     (if lang = ''fr'' then Some (''wikt-fr'', ''Wiktionnaire'')
      else if lang = ''es'' \<or> lang = ''es-ar'' then Some (''fd-spa-eng'', ''espa'' @ [CHR 0xF1] @ ''ol'')
      else if lang = ''pt'' \<or> lang = ''pt-br'' then Some (''fd-por-eng'', ''portugu'' @ [CHR 0xEA] @ ''s'')
      else if lang = ''de'' then Some (''fd-deu-eng'', ''Deutsch'') else None)"

definition database_for :: "string \<times> string \<times> string \<Rightarrow> string \<Rightarrow> string \<times> string" where
  "database_for l lang =
     (if fst l = ''dict'' then (case dict_db_for lang of Some loc \<Rightarrow> loc | None \<Rightarrow> snd l) else snd l)"

definition sender_lang :: "db \<Rightarrow> string option \<Rightarrow> string" where
  "sender_lang d acct =
     (case Option.bind (Option.bind acct (account_of d)) a_language of Some l \<Rightarrow> l | None \<Rightarrow> default_language d)"

fun on_inner :: "(net_action \<Rightarrow> net_action) \<Rightarrow> net_action \<Rightarrow> net_action" where
  "on_inner f (TaggedAction tags a) = TaggedAction tags (f a)"
| "on_inner f a = f a"

definition swap :: "string \<Rightarrow> string \<Rightarrow> string \<Rightarrow> string" where
  "swap old new src = (if src = old then new else src)"

fun resourced :: "string \<Rightarrow> string \<Rightarrow> net_action \<Rightarrow> net_action" where
  "resourced old new (Talk (Notice src dst m)) = Talk (Notice (swap old new src) dst m)"
| "resourced old new (Talk (Privmsg src dst m)) = Talk (Privmsg (swap old new src) dst m)"
| "resourced old new (OnChannel (ChannelMode src chan ms)) = OnChannel (ChannelMode (swap old new src) chan ms)"
| "resourced old new (OnChannel (KickUser src chan uid why)) = OnChannel (KickUser (swap old new src) chan uid why)"
| "resourced old new (OnChannel (SetTopic src chan topic setter)) =
     OnChannel (SetTopic (swap old new src) chan topic setter)"
| "resourced old new (OnChannel (Invite src uid chan)) = OnChannel (Invite (swap old new src) uid chan)"
| "resourced old new a = a"

text \<open>Private notices become the bot speaking to the channel.\<close>

fun spoken :: "string \<Rightarrow> string \<Rightarrow> net_action \<Rightarrow> net_action" where
  "spoken botuid chan (Talk (Notice src dst m)) = Talk (Privmsg botuid chan m)"
| "spoken botuid chan a = a"

fun spoken_as :: "string \<Rightarrow> string \<Rightarrow> string \<Rightarrow> net_action \<Rightarrow> net_action" where
  "spoken_as cs botuid chan (Talk (Notice src dst m)) = Talk (Privmsg botuid chan m)"
| "spoken_as cs botuid chan a = resourced cs botuid a"

definition on_actions :: "(net_action \<Rightarrow> net_action) \<Rightarrow> command_result \<Rightarrow> command_result" where
  "on_actions f r = r\<lparr>rs_actions := map f (rs_actions r)\<rparr>"

definition fantasy_command ::
  "modules \<Rightarrow> sender \<Rightarrow> string option \<Rightarrow> string \<Rightarrow> string \<Rightarrow> string \<Rightarrow> string list \<Rightarrow> engine \<Rightarrow> command_result \<times> engine" where
  "fantasy_command md sd msgid chan botuid cmd args g =
     (if to_ascii_uppercase cmd \<in> {''ROLL'', ''CALC'', ''EXROLL'', ''EXCALC''}
      then (case service_uid g ''DiceServ'' of
          None \<Rightarrow> (no_result, g)
        | Some ds \<Rightarrow> (let (r, g1) = route_to md ds sd msgid (cmd # args) g
                      in (on_actions (on_inner (spoken botuid chan)) r, g1)))
      else case lookup_for cmd of
        Some l \<Rightarrow>
          (if service_uid g ''DictServ'' \<noteq> None \<and> trim (join_words args) \<noteq> []
           then let (dbname, label) = database_for l (sender_lang (g_db g) (sd_account sd))
                in (acting [Deferred (DictLookup botuid chan dbname label (join_words args))], g)
           else (no_result, g))
      | None \<Rightarrow>
          if \<not> is_chanserv_command cmd then (no_result, g)
          else case service_uid g ''ChanServ'' of
            None \<Rightarrow> (no_result, g)
          | Some cs \<Rightarrow> (let (r, g1) = route_to md cs sd msgid (cmd # chan # args) g
                        in (on_actions (on_inner (spoken_as cs botuid chan)) r, g1)))"

definition fantasy ::
  "env \<Rightarrow> modules \<Rightarrow> sender \<Rightarrow> string option \<Rightarrow> string \<Rightarrow> string \<Rightarrow> engine \<Rightarrow> command_result \<times> engine" where
  "fantasy v md sd msgid chan line g =
     (case map_option split_whitespace (strip_prefix ''!'' line) of
        Some (cmd # args) \<Rightarrow>
          (case Option.bind (Option.bind (channel_rec g chan) c_assigned_bot) (nick_uid v g) of
             None \<Rightarrow> (no_result, g)
           | Some botuid \<Rightarrow> fantasy_command md sd msgid chan botuid cmd args g)
      | _ \<Rightarrow> (no_result, g))"

subsection \<open>A line in a channel\<close>

fun is_kick :: "net_action \<Rightarrow> bool" where
  "is_kick (OnChannel (KickUser src chan uid why)) = True"
| "is_kick a = False"

definition kicked_or_answered :: "env \<Rightarrow> string \<Rightarrow> string \<Rightarrow> string \<Rightarrow> step" where
  "kicked_or_answered v uid chan line g =
     (let (kicks, g1) = kicker_check v uid chan line g in
      if list_ex is_kick kicks then (kicks, g1)
      else let (resp, g2) = trigger_response v uid chan line g1
           in (kicks @ (case resp of None \<Rightarrow> [] | Some a \<Rightarrow> [a]), g2))"

definition record_bot_line :: "env \<Rightarrow> string \<Rightarrow> string \<Rightarrow> string \<Rightarrow> engine \<Rightarrow> engine" where
  "record_bot_line v chan nick line g =
     (case channel_rec g chan of
        None \<Rightarrow> g
      | Some c \<Rightarrow>
          if c_assigned_bot c = None then g
          else let talkers = (case w_chan_activity (g_network g) (key chan) of None \<Rightarrow> {} | Some a \<Rightarrow> dom (cx_talkers a));
                   heard = (case w_chan_seen (g_network g) (key chan) of None \<Rightarrow> {} | Some m \<Rightarrow> dom m)
               in bump_stat ''botserv.messages''
                    (on_network (record_line (ev_order v talkers) (ev_order v heard) (ev_now v) chan nick line) g))"

definition channel_line ::
  "env \<Rightarrow> modules \<Rightarrow> sender \<Rightarrow> string option \<Rightarrow> string \<Rightarrow> string \<Rightarrow> engine \<Rightarrow> command_result \<times> engine" where
  "channel_line v md sd msgid chan line g =
     (let (r1, g1) = (case handle_vote v (sd_uid sd) chan line g of
            (Some acts, g1) \<Rightarrow> (acting acts, g1)
          | (None, g1) \<Rightarrow>
              let (r, g2) = fantasy v md sd msgid chan line g1;
                  (acts, g3) = kicked_or_answered v (sd_uid sd) chan line g2
              in (with_actions r acts, g3));
          (acts, g2) = security_screen_message v (sd_uid sd) chan line g1
      in (with_actions r1 acts, record_bot_line v chan (sd_nick sd) line g2))"

subsection \<open>The styling of notices\<close>

definition account_wants_snotice :: "db \<Rightarrow> string \<Rightarrow> bool" where
  "account_wants_snotice d acct = (case account_of d acct of None \<Rightarrow> False | Some a \<Rightarrow> a_snotice a)"

definition server_styled :: "engine \<Rightarrow> string \<Rightarrow> string \<Rightarrow> string option" where
  "server_styled g src dst =
     (case login_of g dst of
        None \<Rightarrow> None
      | Some acct \<Rightarrow>
          if \<not> account_wants_snotice (g_db g) acct then None
          else map_option sv_nick (find (\<lambda>s. sv_uid s = src) (g_services g)))"

definition styled :: "engine \<Rightarrow> (string \<times> string) set \<Rightarrow> net_action \<Rightarrow> net_action \<times> (string \<times> string) set" where
  "styled g named a =
     (case inner a of
        Talk (Notice src dst m) \<Rightarrow>
          (case server_styled g src dst of
             None \<Rightarrow> (a, named)
           | Some nick \<Rightarrow>
               (on_inner (\<lambda>_. Talk (Notice (g_sid g) dst
                  (Msg ''***'' ((if (src, dst) \<in> named then [] else [nick @ '':'']) @ [text_of m])))) a,
                insert (src, dst) named))
      | _ \<Rightarrow> (a, named))"

fun apply_msg_style :: "engine \<Rightarrow> (string \<times> string) set \<Rightarrow> net_action list \<Rightarrow> net_action list" where
  "apply_msg_style g named [] = []"
| "apply_msg_style g named (a # as) =
     (let (a', named') = styled g named a in a' # apply_msg_style g named' as)"

subsection \<open>A line to a service\<close>

text \<open>What comes of a line: an answer, and nothing more; or a result that goes on.\<close>

datatype line_outcome = AnswerOnly "net_action list" | GoesOn command_result

definition service_line ::
  "env \<Rightarrow> modules \<Rightarrow> sender \<Rightarrow> string option \<Rightarrow> string \<Rightarrow> string \<Rightarrow> engine \<Rightarrow> line_outcome \<times> engine" where
  "service_line v md sd msgid to line g =
     (if starts_with [CHR 0x01] line
      then (AnswerOnly (case addressed g to of None \<Rightarrow> [] | Some s \<Rightarrow> ctcp_reply v md (sv_uid s) (sd_uid sd) line), g)
      else case addressed g to of
        None \<Rightarrow> (GoesOn no_result, g)
      | Some s \<Rightarrow>
          let (r, g1) = in_db (md_command md (sv_uid s) sd msgid (split_whitespace line) (g_network g)) g;
              g2 = bump_stat (key (sv_nick s) @ ''.command'') g1;
              verb = (case split_whitespace line of [] \<Rightarrow> [] | w # _ \<Rightarrow> key w)
          in (GoesOn (with_actions r (notify_line v g2 (if verb = ''set'' then CHR ''S'' else CHR ''s'') (sd_uid sd) None
                (Msg ''used'' [sv_nick s @ '':'' @ verb]))), g2))"

text \<open>A services ignore and the flood control come first; an operator is spared both.\<close>

definition guarded_line ::
  "env \<Rightarrow> modules \<Rightarrow> sender \<Rightarrow> string option \<Rightarrow> string \<Rightarrow> string \<Rightarrow> engine \<Rightarrow> line_outcome \<times> engine" where
  "guarded_line v md sd msgid to line g =
     (if privs_any (sd_privs sd) then service_line v md sd msgid to line g
      else let host = (case host_of (g_network g) (sd_uid sd) of None \<Rightarrow> [] | Some h \<Rightarrow> h);
               (ignored, g1) = in_db (is_ignored (ev_now v) (sd_nick sd) host) g
           in if ignored then (AnswerOnly [], g1)
              else if sd_account sd \<noteq> None then service_line v md sd msgid to line g1
              else case addressed g1 to of
                None \<Rightarrow> service_line v md sd msgid to line g1
              | Some s \<Rightarrow> (case md_verdict md host of
                    CmdAllow \<Rightarrow> service_line v md sd msgid to line g1
                  | CmdWarn \<Rightarrow> (AnswerOnly (apply_msg_style g1 {}
                        [Talk (Notice (sv_uid s) (sd_uid sd) (Msg ''too fast'' []))]), g1)
                  | CmdDrop \<Rightarrow> (AnswerOnly [], g1)))"

subsection \<open>After a command\<close>

fun is_lookup :: "net_action \<Rightarrow> bool" where
  "is_lookup (Deferred (DictLookup speaker target dbname label query)) = True"
| "is_lookup a = False"

text \<open>\<open>tokens i\<close>: the bucket had a token for the \<open>i\<close>-th lookup.\<close>

fun dict_limited :: "(nat \<Rightarrow> bool) \<Rightarrow> nat \<Rightarrow> net_action list \<Rightarrow> net_action list" where
  "dict_limited tokens i [] = []"
| "dict_limited tokens i (a # as) =
     (if is_lookup a
      then (if tokens i then a # dict_limited tokens (i + 1) as else dict_limited tokens (i + 1) as)
      else a # dict_limited tokens i as)"

definition shown_user :: "engine \<Rightarrow> string \<Rightarrow> string list" where
  "shown_user g uid =
     (case net_nick_of (g_network g) uid of None \<Rightarrow> ''?'' | Some n \<Rightarrow> n) #
     (case host_of (g_network g) uid of None \<Rightarrow> [] | Some h \<Rightarrow> [h])"

definition raise_alert :: "env \<Rightarrow> string \<Rightarrow> string \<times> message \<Rightarrow> step" where
  "raise_alert v uid alert g =
     (let full = Msg ''alert'' (shown_user g uid @ [text_of (snd alert)]);
          g1 = snd (record_text v (Msg (''['' @ fst alert @ '']'') [text_of full]) g)
      in (feed g1 (fst alert) full, g1))"

definition report_auth :: "auth_rep \<Rightarrow> step" where
  "report_auth r g = (case r of (ok, acct, how, client, reason) \<Rightarrow> (auth_report g ok acct how client reason, g))"

definition after_command :: "env \<Rightarrow> modules \<Rightarrow> nat \<Rightarrow> sender \<Rightarrow> command_result \<Rightarrow> step" where
  "after_command v md mark sd r g =
     (let g1 = fold bump_stat (rs_stats r) g;
          (out, g2) = and_also (say (\<lambda>_. rs_actions r)) (and_also (reconcile_bots v)
            (and_also (audit_feed v mark (sd_nick sd) (sd_account sd))
              (and_also (each (raise_alert v (sd_uid sd)) (rs_alerts r)) (each report_auth (rs_auth r))))) g1
      in (apply_msg_style g2 {} (dict_limited (md_dict_token md) 0 out), g2))"

definition sender_of :: "env \<Rightarrow> engine \<Rightarrow> string \<Rightarrow> sender" where
  "sender_of v g uid =
     \<lparr>sd_uid = uid, sd_nick = shown_nick g uid, sd_account = login_of g uid,
      sd_privs = (case login_of g uid of None \<Rightarrow> 0 | Some a \<Rightarrow> oper_privs (ev_now v) g a)\<rparr>"

definition dispatch :: "env \<Rightarrow> modules \<Rightarrow> string \<Rightarrow> string \<Rightarrow> string \<Rightarrow> string option \<Rightarrow> step" where
  "dispatch v md uid to line msgid g =
     (let sd = sender_of v g uid; mark = length (l_entries (lg (g_db g)));
          (outcome, g1) =
            (if starts_with ''#'' to \<or> starts_with ''&'' to
             then let (r, g1) = channel_line v md sd msgid to line g in (GoesOn r, g1)
             else guarded_line v md sd msgid to line g)
      in case outcome of
           AnswerOnly acts \<Rightarrow> (acts, g1)
         | GoesOn r \<Rightarrow> after_command v md mark sd r g1)"

end
