(* ===== verification/Handle.thy ===== *)
theory Handle
  imports Dispatch
begin

text \<open>
  What the engine does with everything the uplink reports (\<^verbatim>\<open>handle\<close> of src/src/engine/mod.rs), event by
  event, and what it says when the link comes up (\<^verbatim>\<open>startup_actions\<close>). Every event ends in \<open>finish\<close> of
  theory Sessions, except where a certificate logs nobody in: there the code returns at once.
\<close>

subsection \<open>The link comes up\<close>

definition sasl_mechs :: string where "sasl_mechs = ''EXTERNAL,SCRAM-SHA-512,SCRAM-SHA-256,PLAIN''"

definition introduce_service :: "engine \<Rightarrow> service \<Rightarrow> net_action list" where
  "introduce_service g s =
     [OnUser (IntroduceUser (sv_uid s) (sv_nick s) ''services'' (g_service_host g) (sv_gecos s))] @
     (if g_service_oper_type g = [] then [] else [OnUser (OperType (sv_uid s) (g_service_oper_type g))]) @
     (if g_services_channel g = [] then [] else [OnChannel (ServiceJoin (sv_uid s) (g_services_channel g) ''o'')])"

definition fresh_link :: "env \<Rightarrow> engine \<Rightarrow> engine" where
  "fresh_link v g =
     on_network (clear_servers \<circ> clear_bots)
       (g\<lparr>g_services_signon := ev_now v, g_bot_uids := Map.empty, g_bot_idents := Map.empty,
          g_bot_channels := {}, g_sasl := Map.empty, g_source := Map.empty, g_pending_enforce := [],
          g_next_bot_index := 0\<rparr>)"

definition join_log_channel :: "engine \<Rightarrow> net_action list" where
  "join_log_channel g =
     (case g_log_channel g of
        Some chan \<Rightarrow>
          if g_debugserv_uid g = [] \<or> eq_ignore_ascii_case chan (g_services_channel g) then []
          else [OnChannel (ServiceJoin (g_debugserv_uid g) chan ''o'')]
      | None \<Rightarrow> [])"

definition remaining :: "nat \<Rightarrow> nat option \<Rightarrow> nat" where
  "remaining now expires = (case expires of None \<Rightarrow> 0 | Some e \<Rightarrow> e - now)"

definition standing_bans :: "nat \<Rightarrow> db \<Rightarrow> net_action list" where
  "standing_bans now d =
     map (\<lambda>(k, a). OnLink (AddLine (xline_wire k) (kl_mask a) (kl_setter a) (remaining now (kl_expires a))
            (Lit (kl_reason a)))) (akills now d) @
     map (\<lambda>f. OnLink (AddLine (xline_wire Qline) (fb_mask f) (fb_setter f) 0 (Lit (fb_reason f))))
       (filter (\<lambda>f. forbid_from_name (fb_kind f) = Some ForbidNick) (n_forbids (net (st d)))) @
     map (\<lambda>f. OnLink (Metadata ''*'' ''filter''
            (encode_filter (fi_pattern f) (fi_action f) (fi_flags f) (remaining now (fi_expires f)) (fi_reason f))))
       (filters now d) @
     map (\<lambda>j. OnLink (JupeServer (ju_name j) (ju_sid j) (Lit (ju_reason j)))) (n_jupes (net (st d)))"

definition startup_actions :: "env \<Rightarrow> step" where
  "startup_actions v g =
     (let g1 = fresh_link v g; (bots_acts, g2) = reconcile_bots v g1
      in ([OnLink Burst] @ concat (map (introduce_service g1) (g_services g1)) @ bots_acts @ join_log_channel g2 @
          standing_bans (ev_now v) (g_db g2) @
          [OnLink (Metadata ''*'' ''saslmechlist'' sasl_mechs), OnLink EndBurst], g2))"

subsection \<open>Clients\<close>

definition watching :: "env \<Rightarrow> char \<Rightarrow> string \<Rightarrow> string option \<Rightarrow> message \<Rightarrow> step" where
  "watching v flag uid chan what = say (\<lambda>g. notify_line v g flag uid chan what)"

definition handle_idle :: "env \<Rightarrow> string \<Rightarrow> string \<Rightarrow> step" where
  "handle_idle v requester target =
     say (\<lambda>g. if is_own_client v g target then [OnLink (IdleReply target requester (g_services_signon g) 0)] else [])"

definition handle_attrs :: "env \<Rightarrow> string \<Rightarrow> string \<Rightarrow> string \<Rightarrow> string \<Rightarrow> step" where
  "handle_attrs v uid ident realhost gecos =
     and_also (quietly (on_network (set_user_attrs uid ident realhost gecos)))
       (and_also (watching v (CHR ''c'') uid None (Msg ''connected'' [])) (security_screen_connect v uid))"

text \<open>\<open>None\<close>: the handler returned before its common tail.\<close>

definition handle_cert :: "env \<Rightarrow> string \<Rightarrow> string \<Rightarrow> engine \<Rightarrow> net_action list option \<times> engine" where
  "handle_cert v uid fp g =
     (let g1 = on_network (set_user_cert uid fp) g in
      if fp = [] \<or> login_of g1 uid \<noteq> None then (None, g1)
      else case fp_owner v g1 fp of
        None \<Rightarrow> (None, g1)
      | Some acct \<Rightarrow>
          if is_suspended (ev_now v) (g_db g1) acct then (None, g1)
          else let g2 = on_network (set_account uid acct) g1
               in (Some ([OnLink (Metadata uid ''accountname'' acct)] @
                     (case g_nick_service g2 of None \<Rightarrow> []
                      | Some ns \<Rightarrow> [Talk (Notice ns uid (Msg ''identified by certificate'' [acct]))]) @
                     auth_report g2 True (Some acct) ''CERTFP'' uid None @
                     login_connect_effects (ev_now v) g2 uid acct), g2))"

definition lockdown :: "engine \<Rightarrow> string \<Rightarrow> net_action list" where
  "lockdown g uid = [OnUser (KillUser (g_sid g) uid (Msg ''lockdown'' []))]"

definition over_limit :: "engine \<Rightarrow> string \<Rightarrow> nat option" where
  "over_limit g ip =
     (case session_limit_for g ip of
        None \<Rightarrow> None
      | Some limit \<Rightarrow> if session_count (g_network g) ip > limit then Some limit else None)"

definition handle_connect :: "env \<Rightarrow> string \<Rightarrow> string \<Rightarrow> string \<Rightarrow> string \<Rightarrow> step" where
  "handle_connect v uid nick host ip g =
     (let g1 = on_network (user_connect uid nick host ip) g in
      if defcon (g_db g1) = 1 \<and> g_sid g1 \<noteq> [] then (lockdown g1 uid, g1)
      else case over_limit g1 ip of
        Some limit \<Rightarrow> ([OnUser (KillUser (g_sid g1) uid (Msg ''session limit exceeded'' [show_nat limit, ip]))], g1)
      | None \<Rightarrow>
          and_also (say (\<lambda>g. news_notices g NewsLogon ''News'' uid))
            (and_also (enforce_registered_nick v uid nick)
              (say (\<lambda>g. case login_of g uid of None \<Rightarrow> []
                   | Some acct \<Rightarrow> login_connect_effects (ev_now v) g uid acct))) g1)"

definition handle_login :: "env \<Rightarrow> string \<Rightarrow> string \<Rightarrow> step" where
  "handle_login v uid acct g =
     (if acct = [] then ([], on_network (clear_account uid) g)
      else security_screen_login v uid acct (no_longer_pending uid (on_network (set_account uid acct) g)))"

definition handle_signore :: "string \<Rightarrow> string list \<Rightarrow> step" where
  "handle_signore uid masks =
     quietly (\<lambda>g. case login_of g uid of None \<Rightarrow> g | Some acct \<Rightarrow> on_db (snd \<circ> set_signore acct masks) g)"

definition handle_nick :: "env \<Rightarrow> string \<Rightarrow> string \<Rightarrow> step" where
  "handle_nick v uid nick g =
     (let old = (case net_nick_of (g_network g) uid of None \<Rightarrow> ''?'' | Some n \<Rightarrow> n);
          g1 = no_longer_pending uid (on_network (user_nick_change (seen_order v g nick) (ev_now v) uid nick) g)
      in and_also (enforce_registered_nick v uid nick)
           (and_also (enforce_akick_on_nick v uid)
             (and_also (say (\<lambda>g. if login_of g uid \<noteq> None then [OnUser (UserMode uid ''+r'')] else []))
               (and_also (watching v (CHR ''n'') uid None (Msg ''changed nick'' [old]))
                 (security_screen_nick v uid)))) g1)"

definition with_reason :: "string \<Rightarrow> string list" where
  "with_reason reason = (if reason = [] then [] else [reason])"

definition handle_quit :: "env \<Rightarrow> string \<Rightarrow> string \<Rightarrow> step" where
  "handle_quit v uid reason =
     and_also (watching v (CHR ''d'') uid None (Msg ''disconnected'' (with_reason reason)))
       (and_also (security_screen_quit v uid reason) (forget_user v uid))"

fun mode_removed_from :: "bool \<Rightarrow> string \<Rightarrow> char \<Rightarrow> bool" where
  "mode_removed_from adding [] l = False"
| "mode_removed_from adding (c # cs) l =
     (if c = CHR ''+'' then mode_removed_from True cs l
      else if c = CHR ''-'' then mode_removed_from False cs l
      else if c = l \<and> \<not> adding then True
      else mode_removed_from adding cs l)"

definition mode_removed :: "string \<Rightarrow> char \<Rightarrow> bool" where
  "mode_removed ms l = mode_removed_from True ms l"

definition handle_user_mode :: "env \<Rightarrow> string \<Rightarrow> string \<Rightarrow> step" where
  "handle_user_mode v uid ms =
     and_also (quietly (on_network (apply_user_mode uid ms)))
       (and_also (watching v (CHR ''u'') uid None (Msg ''set user mode'' [ms]))
         (say (\<lambda>g. if \<not> is_own_client v g uid \<and> mode_removed ms (CHR ''o'')
                   then restore_host_after_deoper (ev_now v) g uid else [])))"

definition warn_unknown_cert :: "engine \<Rightarrow> string \<Rightarrow> net_action list" where
  "warn_unknown_cert g uid =
     (if \<not> g_synced g then []
      else case (g_nick_service g, login_of g uid, map_option key (fingerprint_of (g_network g) uid)) of
        (Some ns, Some acct, Some fp) \<Rightarrow>
          if certfps_of (g_db g) acct \<noteq> [] \<and> fp \<notin> set (certfps_of (g_db g) acct)
          then [Talk (Notice ns uid (Msg ''opered up with an unknown certificate'' []))] else []
      | _ \<Rightarrow> [])"

definition handle_oper_up :: "env \<Rightarrow> string \<Rightarrow> string \<Rightarrow> step" where
  "handle_oper_up v uid oper_type =
     and_also (quietly (on_network (set_user_oper uid oper_type)))
       (and_also (watching v (CHR ''o'') uid None (Msg ''opered up'' (with_reason oper_type)))
         (say (\<lambda>g. warn_unknown_cert g uid)))"

definition handle_killed :: "env \<Rightarrow> string \<Rightarrow> step" where
  "handle_killed v uid g =
     (case find (\<lambda>s. sv_uid s = uid) (g_services g) of
        Some s \<Rightarrow> ([OnUser (IntroduceUser (sv_uid s) (sv_nick s) ''services'' (sv_host s) (sv_gecos s))], g)
      | None \<Rightarrow> (case bot_of_uid v g uid of
            Some b \<Rightarrow> reconcile_bots v (drop_memberships b (on_network (bot_forget b)
                (g\<lparr>g_bot_uids := (g_bot_uids g)(b := None), g_bot_idents := (g_bot_idents g)(b := None)\<rparr>)))
          | None \<Rightarrow> forget_user v uid g))"

fun handle_user :: "env \<Rightarrow> user_event \<Rightarrow> engine \<Rightarrow> net_action list option \<times> engine" where
  "handle_user v (UserConnect uid nick host ip) g = apfst Some (handle_connect v uid nick host ip g)"
| "handle_user v (UserAttrs uid ident realhost gecos) g = apfst Some (handle_attrs v uid ident realhost gecos g)"
| "handle_user v (UserCert uid fp) g = handle_cert v uid fp g"
| "handle_user v (NickChange uid nick) g = apfst Some (handle_nick v uid nick g)"
| "handle_user v (AccountLogin uid acct) g = apfst Some (handle_login v uid acct g)"
| "handle_user v (SignoreSet uid masks) g = apfst Some (handle_signore uid masks g)"
| "handle_user v (UserModeSet uid ms) g = apfst Some (handle_user_mode v uid ms g)"
| "handle_user v (OperUp uid oper_type) g = apfst Some (handle_oper_up v uid oper_type g)"
| "handle_user v (Quit uid reason) g = apfst Some (handle_quit v uid reason g)"
| "handle_user v (UserKilled uid) g = apfst Some (handle_killed v uid g)"

subsection \<open>Channels\<close>

definition handle_create :: "string \<Rightarrow> step" where
  "handle_create chan =
     say (\<lambda>g. case channel_rec g chan of
          None \<Rightarrow> []
        | Some c \<Rightarrow>
            let src = channel_mode_source g chan in
            [OnChannel (ChannelMode src chan (lock_modes c))] @
            (if cs_keeptopic (c_settings c) \<and> c_topic c \<noteq> []
             then [OnChannel (SetTopic src chan (c_topic c) (c_topic_setter c))] else []))"

definition handle_mode :: "env \<Rightarrow> string \<Rightarrow> string \<Rightarrow> string \<Rightarrow> step" where
  "handle_mode v chan ms setter =
     and_also (quietly (on_network (apply_channel_mode chan ms)))
       (and_also (watching v (CHR ''m'') setter (Some chan) (Msg ''set mode'' [ms, chan]))
         (say (\<lambda>g. case Option.bind (channel_rec g chan) (\<lambda>c. enforce c ms) of
              None \<Rightarrow> []
            | Some revert \<Rightarrow> [OnChannel (ChannelMode (channel_mode_source g chan) chan revert)])))"

text \<open>A status bit is taken from a client that the access list denies it, or, under the secure option,
  does not grant it.\<close>

definition strips_op :: "channel_info option \<Rightarrow> string option \<Rightarrow> bool" where
  "strips_op info acct =
     (case info of None \<Rightarrow> False
      | Some c \<Rightarrow> (case acct of None \<Rightarrow> cs_secureops (c_settings c)
          | Some a \<Rightarrow> info_denied c a \<or> cs_secureops (c_settings c) \<and> \<not> info_is_op c a))"

definition strips_voice :: "channel_info option \<Rightarrow> string option \<Rightarrow> bool" where
  "strips_voice info acct =
     (case info of None \<Rightarrow> False
      | Some c \<Rightarrow> (case acct of None \<Rightarrow> cs_securevoices (c_settings c)
          | Some a \<Rightarrow> info_denied c a \<or> cs_securevoices (c_settings c) \<and> info_join_mode c a = None))"

definition handle_op :: "env \<Rightarrow> string \<Rightarrow> string \<Rightarrow> bool \<Rightarrow> step" where
  "handle_op v chan uid op =
     and_also (quietly (on_network (set_op chan uid op)))
       (say (\<lambda>g. if op \<and> \<not> is_bot_uid v g uid \<and> strips_op (channel_rec g chan) (login_of g uid)
          then [OnChannel (ChannelMode (case g_chan_service g of None \<Rightarrow> [] | Some cs \<Rightarrow> cs) chan (''-o '' @ uid))]
          else []))"

definition handle_voice :: "env \<Rightarrow> string \<Rightarrow> string \<Rightarrow> bool \<Rightarrow> step" where
  "handle_voice v chan uid voice =
     and_also (quietly (on_network (set_voice chan uid voice)))
       (say (\<lambda>g. if voice \<and> \<not> is_bot_uid v g uid \<and> strips_voice (channel_rec g chan) (login_of g uid)
          then [OnChannel (ChannelMode (case g_chan_service g of None \<Rightarrow> [] | Some cs \<Rightarrow> cs) chan (''-v '' @ uid))]
          else []))"

definition entry_notice :: "string \<Rightarrow> string \<Rightarrow> channel_info option \<Rightarrow> net_action list" where
  "entry_notice src uid info =
     (case info of None \<Rightarrow> []
      | Some c \<Rightarrow> if c_entrymsg c = [] then [] else [Talk (Notice src uid (Lit (c_entrymsg c)))])"

definition may_autoop :: "engine \<Rightarrow> channel_info option \<Rightarrow> string option \<Rightarrow> bool" where
  "may_autoop g info acct \<longleftrightarrow>
     (case info of None \<Rightarrow> True | Some c \<Rightarrow> \<not> cs_noautoop (c_settings c)) \<and>
     (case acct of None \<Rightarrow> True | Some a \<Rightarrow> account_wants_autoop (g_db g) a)"

text \<open>What a member gets who was neither stripped of the channel nor turned away.\<close>

definition receive_member :: "env \<Rightarrow> string \<Rightarrow> string \<Rightarrow> string \<Rightarrow> channel_info option \<Rightarrow> string option \<Rightarrow> string option \<Rightarrow> step" where
  "receive_member v src chan uid info acct md g =
     (case md of
        Some m \<Rightarrow>
          (entry_notice src uid info @
           (if may_autoop g info acct then [OnChannel (ChannelMode src chan (status_mode m uid))] else []), g)
      | None \<Rightarrow>
          (let (hit, g1) = akick_hit v uid chan g
           in (if hit \<noteq> [] then hit else entry_notice src uid info, g1)))"

definition show_greet :: "net_action option \<Rightarrow> step" where
  "show_greet greet g = (case greet of None \<Rightarrow> ([], g) | Some a \<Rightarrow> ([a], bump_stat ''botserv.greet'' g))"

definition turned_away :: "env \<Rightarrow> engine \<Rightarrow> channel_info option \<Rightarrow> string option \<Rightarrow> string option \<Rightarrow> bool" where
  "turned_away v g info acct md \<longleftrightarrow>
     md = None \<and> (case info of None \<Rightarrow> False | Some c \<Rightarrow> cs_restricted (c_settings c)) \<and>
     (case acct of None \<Rightarrow> True | Some a \<Rightarrow> \<not> is_operator (ev_now v) g a)"

definition admit :: "env \<Rightarrow> string \<Rightarrow> string \<Rightarrow> bool \<Rightarrow> step" where
  "admit v uid chan op g =
     (let acct = login_of g uid; src = channel_mode_source g chan; info = channel_rec g chan;
          md = Option.bind acct (channel_join_mode (g_db g) chan); greet = greet_on_join v g chan acct
      in and_also (security_screen_join v uid chan)
           (\<lambda>g. let is_bot = is_bot_uid v g uid;
                strip = (if op \<and> \<not> is_bot \<and> strips_op info acct
                  then [OnChannel (ChannelMode src chan (''-o '' @ uid))] else [])
            in if \<not> is_bot \<and> turned_away v g info acct md
               then (strip @ [OnChannel (KickUser src chan uid (Msg ''channel is restricted'' []))], g)
               else and_also (say (\<lambda>_. strip))
                      (and_also (receive_member v src chan uid info acct md) (show_greet greet)) g) g)"

definition handle_join :: "env \<Rightarrow> string \<Rightarrow> string \<Rightarrow> bool \<Rightarrow> step" where
  "handle_join v uid chan op g =
     (let g1 = on_network (channel_join (seen_order_of v g uid) (ev_now v) chan uid op) g in
      and_also (watching v (CHR ''j'') uid (Some chan) (Msg ''joined'' [chan]))
        (\<lambda>g. let g2 = (if channel_rec g chan \<noteq> None then on_db (mark_channel_used chan (ev_now v)) g else g)
             in if is_channel_suspended (ev_now v) (g_db g2) chan then ([], g2) else admit v uid chan op g2) g1)"

definition handle_part :: "env \<Rightarrow> string \<Rightarrow> string \<Rightarrow> string \<Rightarrow> step" where
  "handle_part v uid chan reason =
     and_also (watching v (CHR ''p'') uid (Some chan) (Msg ''left'' (chan # with_reason reason)))
       (and_also (member_left v chan uid) (security_screen_part v uid chan))"

definition handle_kicked :: "env \<Rightarrow> string \<Rightarrow> string \<Rightarrow> string \<Rightarrow> string \<Rightarrow> step" where
  "handle_kicked v chan uid who reason g =
     and_also (watching v (CHR ''k'') uid (Some chan) (Msg ''was kicked'' ([chan, shown_nick g who] @ with_reason reason)))
       (and_also (watching v (CHR ''k'') who (Some chan) (Msg ''kicked'' ([shown_nick g uid, chan] @ with_reason reason)))
         (member_left v chan uid)) g"

definition handle_rename :: "string \<Rightarrow> string \<Rightarrow> step" where
  "handle_rename old new =
     quietly (\<lambda>g. let g1 = on_network (channel_rename old new) g in
        if channel_rec g1 old \<noteq> None \<and> channel_rec g1 new = None then on_db (snd \<circ> rename_channel old new) g1 else g1)"

definition topic_author :: "engine \<Rightarrow> string \<Rightarrow> string \<Rightarrow> string" where
  "topic_author g setter setby =
     (if setby \<noteq> [] then setby
      else case net_nick_of (g_network g) setter of
        None \<Rightarrow> []
      | Some nick \<Rightarrow> (case (ident_of (g_network g) setter, host_of (g_network g) setter) of
            (Some ident, Some host) \<Rightarrow> nick @ ''!'' @ ident @ ''@'' @ host
          | _ \<Rightarrow> nick))"

definition may_set_topic :: "engine \<Rightarrow> string \<Rightarrow> string \<Rightarrow> bool" where
  "may_set_topic g chan setter =
     (case (login_of g setter, channel_rec g chan) of (Some a, Some c) \<Rightarrow> info_is_op c a | _ \<Rightarrow> False)"

definition keep_topic :: "string \<Rightarrow> string \<Rightarrow> string \<Rightarrow> string \<Rightarrow> step" where
  "keep_topic chan setter topic author g =
     (case channel_rec g chan of
        None \<Rightarrow> ([], g)
      | Some c \<Rightarrow>
          if cs_topiclock (c_settings c) \<and> \<not> may_set_topic g chan setter
          then ([OnChannel (SetTopic (case g_chan_service g of None \<Rightarrow> [] | Some cs \<Rightarrow> cs) chan
                   (c_topic c) (c_topic_setter c))], g)
          else if cs_keeptopic (c_settings c) \<or> cs_topiclock (c_settings c)
          then ([], on_db (snd \<circ> set_channel_topic chan topic author) g)
          else ([], g))"

definition handle_topic :: "env \<Rightarrow> string \<Rightarrow> string \<Rightarrow> string \<Rightarrow> string \<Rightarrow> step" where
  "handle_topic v chan setter topic setby g =
     (let watch = notify_line v g (CHR ''t'') setter (Some chan) (Msg ''changed the topic of'' [chan]);
          author = topic_author g setter setby;
          g1 = on_network (set_live_topic chan topic author) g
      in and_also (keep_topic chan setter topic author) (say (\<lambda>_. watch)) g1)"

fun handle_channel :: "env \<Rightarrow> channel_event_in \<Rightarrow> step" where
  "handle_channel v (ChannelCreate chan) = handle_create chan"
| "handle_channel v (Join uid chan op) = handle_join v uid chan op"
| "handle_channel v (Part uid chan reason) = handle_part v uid chan reason"
| "handle_channel v (Kicked chan uid who reason) = handle_kicked v chan uid who reason"
| "handle_channel v (Actions.ChannelRename old new) = handle_rename old new"
| "handle_channel v (ChannelOp chan uid op) = handle_op v chan uid op"
| "handle_channel v (ChannelVoice chan uid voice) = handle_voice v chan uid voice"
| "handle_channel v (ChannelModeChange chan ms setter) = handle_mode v chan ms setter"
| "handle_channel v (ChannelKey chan k) = quietly (on_network (set_channel_key chan k))"
| "handle_channel v (TopicChange chan setter topic setby) = handle_topic v chan setter topic setby"

subsection \<open>Servers and requests\<close>

definition on_split :: "env \<Rightarrow> engine \<Rightarrow> engine" where
  "on_split v g = g\<lparr>g_security := mark_netsplit (ev_now v) (g_security g)\<rparr>"

text \<open>The clients of one server are forgotten; what the services say about it is swallowed.\<close>

definition forget_server :: "env \<Rightarrow> string \<Rightarrow> engine \<Rightarrow> engine" where
  "forget_server v sid g = fold (\<lambda>uid g. snd (forget_user v uid g)) (uids_on_server (walk_users v g) (g_network g) sid) g"

definition handle_split :: "env \<Rightarrow> string \<Rightarrow> step" where
  "handle_split v server =
     quietly (\<lambda>g. let g1 = on_split v g;
          (gone, w) = server_split (ev_order v (dom (w_servers (g_network g1)))) server (g_network g1)
        in fold (forget_server v) gone (g1\<lparr>g_network := w\<rparr>))"

fun handle_server :: "env \<Rightarrow> server_event \<Rightarrow> step" where
  "handle_server v (Ping token src) = say (\<lambda>_. [OnLink (Pong token src)])"
| "handle_server v (Idle requester target) = handle_idle v requester target"
| "handle_server v EndOfBurst = quietly (\<lambda>g. g\<lparr>g_synced := True\<rparr>)"
| "handle_server v (ServerInfo sid name) = quietly (on_network (set_server_name sid name))"
| "handle_server v (ExtbanRegistry es) = quietly (\<lambda>g. g\<lparr>g_caps := set_live_extbans es (g_caps g)\<rparr>)"
| "handle_server v (ChanModeRegistry ms) = quietly (\<lambda>g. g\<lparr>g_caps := set_live_chanmodes ms (g_caps g)\<rparr>)"
| "handle_server v (ModulesAvailable ms) = quietly (on_network (learn_modules ms))"
| "handle_server v (ServerLink sid parent) = quietly (on_split v \<circ> on_network (server_link sid parent))"
| "handle_server v (ServerSplit server) = handle_split v server"
| "handle_server v (Casemapping name) = nothing"
| "handle_server v CapabEnd = nothing"
| "handle_server v (ServProtect l requested) = nothing"
| "handle_server v Registered = nothing"

fun handle_request :: "env \<Rightarrow> modules \<Rightarrow> request_event \<Rightarrow> step" where
  "handle_request v md (PrivmsgIn uid to line msgid) = dispatch v md uid to line msgid"
| "handle_request v md (AccountRequest reqid origin kind acct p2 p3) = account_request v reqid origin kind acct p2 p3"
| "handle_request v md (SaslIn client m data) = sasl v client m data"
| "handle_request v md (Unknown line) = nothing"

subsection \<open>The handler\<close>

fun handle_event :: "env \<Rightarrow> modules \<Rightarrow> net_event \<Rightarrow> engine \<Rightarrow> net_action list option \<times> engine" where
  "handle_event v md (UserEv e) g = handle_user v e g"
| "handle_event v md (ChanEv e) g = apfst Some (handle_channel v e g)"
| "handle_event v md (ServEv e) g = apfst Some (handle_server v e g)"
| "handle_event v md (ReqEv e) g = apfst Some (handle_request v md e g)"

definition handle :: "env \<Rightarrow> modules \<Rightarrow> net_event \<Rightarrow> step" where
  "handle v md e g =
     (let (swept, g1) = sweep_unbans v g; (acts, g2) = handle_event v md e g1
      in case acts of None \<Rightarrow> ([], g2) | Some as \<Rightarrow> finish v swept as g2)"

end
