(* ===== verification/Contract.thy ===== *)
theory Contract
  imports Handle NetRun Run
begin

text \<open>
  What the engine promises the parts it is made of, stated once as a locale: whatever the engine does, it
  changes the store only by operations of the database, the live view only by operations of the
  network, and the table of SASL exchanges only through the agent or by forgetting. An invariant of the
  store, of the view or of the exchanges is then kept by every function of the engine.
\<close>

locale engine_contract =
  fixes D :: "db \<Rightarrow> bool" and W :: "network \<Rightarrow> bool" and T :: "engine \<Rightarrow> bool"
  assumes account: "D d \<Longrightarrow> account_step d d' \<Longrightarrow> D d'"
    and channel: "D d \<Longrightarrow> channel_step d d' \<Longrightarrow> D d'"
    and network: "D d \<Longrightarrow> network_step d d' \<Longrightarrow> D d'"
    and online: "D d \<Longrightarrow> online_step d d' \<Longrightarrow> D d'"
    and gossip: "D d \<Longrightarrow> foreign e (lg d) \<Longrightarrow> D (snd (db_ingest now e d))"
    and view: "W w \<Longrightarrow> net_step w w' \<Longrightarrow> W w'"
    and seen: "W w \<Longrightarrow> finite (dom (w_seen w))"
    and forget: "T g \<Longrightarrow> g_sasl g' \<subseteq>\<^sub>m g_sasl g \<Longrightarrow> T g'"
    and agent: "T g \<Longrightarrow> T (snd (sasl v client md data g))"
begin

definition ok :: "engine \<Rightarrow> bool" where
  "ok g \<longleftrightarrow> D (g_db g) \<and> W (g_network g) \<and> T g"

lemma ok_cong:
  "ok g \<Longrightarrow> g_db g' = g_db g \<Longrightarrow> g_network g' = g_network g \<Longrightarrow> g_sasl g' \<subseteq>\<^sub>m g_sasl g \<Longrightarrow> ok g'"
  using forget by (auto simp: ok_def)

lemma T_cong: "g_sasl g' = g_sasl g \<Longrightarrow> T g' = T g"
  by (auto intro: forget [of g g'] forget [of g' g])

lemma ok_eq: "g_db g' = g_db g \<Longrightarrow> g_network g' = g_network g \<Longrightarrow> g_sasl g' = g_sasl g \<Longrightarrow> ok g' = ok g"
  using T_cong [of g' g] by (simp add: ok_def)

lemma ok_fields [simp]:
  "ok (g\<lparr>g_services := a1\<rparr>) = ok g" "ok (g\<lparr>g_caps := a2\<rparr>) = ok g" "ok (g\<lparr>g_source := a3\<rparr>) = ok g"
  "ok (g\<lparr>g_sent := a4\<rparr>) = ok g" "ok (g\<lparr>g_synced := a5\<rparr>) = ok g" "ok (g\<lparr>g_enforce_seq := a6\<rparr>) = ok g"
  "ok (g\<lparr>g_pending_enforce := a7\<rparr>) = ok g" "ok (g\<lparr>g_bot_uids := a8\<rparr>) = ok g"
  "ok (g\<lparr>g_services_signon := a9\<rparr>) = ok g" "ok (g\<lparr>g_bot_idents := a10\<rparr>) = ok g"
  "ok (g\<lparr>g_next_bot_index := a11\<rparr>) = ok g" "ok (g\<lparr>g_bot_channels := a12\<rparr>) = ok g"
  "ok (g\<lparr>g_chatter := a13\<rparr>) = ok g" "ok (g\<lparr>g_badword_cache := a14\<rparr>) = ok g"
  "ok (g\<lparr>g_trigger_cache := a15\<rparr>) = ok g" "ok (g\<lparr>g_pending_unbans := a16\<rparr>) = ok g"
  "ok (g\<lparr>g_votes := a17\<rparr>) = ok g" "ok (g\<lparr>g_security := a18\<rparr>) = ok g"
  by (rule ok_eq; simp)+

lemma ok_db: "ok g \<Longrightarrow> D d \<Longrightarrow> ok (g\<lparr>g_db := d\<rparr>)"
  using T_cong [of "g\<lparr>g_db := d\<rparr>" g] by (simp add: ok_def)

lemma ok_net: "ok g \<Longrightarrow> W w \<Longrightarrow> ok (g\<lparr>g_network := w\<rparr>)"
  using T_cong [of "g\<lparr>g_network := w\<rparr>" g] by (simp add: ok_def)

lemma ok_sasl: "ok g \<Longrightarrow> m \<subseteq>\<^sub>m g_sasl g \<Longrightarrow> ok (g\<lparr>g_sasl := m\<rparr>)"
  using forget [of g "g\<lparr>g_sasl := m\<rparr>"] by (simp add: ok_def)

lemma okD: "ok g \<Longrightarrow> D (g_db g)" "ok g \<Longrightarrow> W (g_network g)"
  by (simp_all add: ok_def)

subsection \<open>The store and the view behind a step\<close>

lemma ok_on_db: "ok g \<Longrightarrow> (D (g_db g) \<Longrightarrow> D (f (g_db g))) \<Longrightarrow> ok (on_db f g)"
  by (simp add: on_db_def ok_db okD)

lemma ok_in_db: "ok g \<Longrightarrow> (D (g_db g) \<Longrightarrow> D (snd (f (g_db g)))) \<Longrightarrow> ok (snd (in_db f g))"
  by (simp add: in_db_def case_prod_beta Let_def ok_db okD)

lemma ok_on_network: "ok g \<Longrightarrow> (W (g_network g) \<Longrightarrow> W (f (g_network g))) \<Longrightarrow> ok (on_network f g)"
  by (simp add: on_network_def ok_net okD)

lemma ok_view: "ok g \<Longrightarrow> net_step (g_network g) w \<Longrightarrow> ok (g\<lparr>g_network := w\<rparr>)"
  by (rule ok_net [OF _ view [OF okD(2)]])

lemma ok_step: "ok g \<Longrightarrow> (\<And>w. net_step w (f w)) \<Longrightarrow> ok (on_network f g)"
  by (rule ok_on_network [OF _ view])

lemma ok_emit [simp]: "ok (emit_irc a g) = ok g" "ok (emit_all as g) = ok g"
proof -
  show "ok (emit_irc a g) = ok g" for a g by (simp add: emit_irc_def)
  then show "ok (emit_all as g) = ok g" by (induction as arbitrary: g) (simp_all add: emit_all_def)
qed

lemma ok_bump: "ok g \<Longrightarrow> ok (bump_stat k g)"
  unfolding bump_stat_def by (rule ok_step) (assumption, rule net_step.Bump)

lemma ok_fold: "ok g \<Longrightarrow> (\<And>x g. x \<in> set xs \<Longrightarrow> ok g \<Longrightarrow> ok (f x g)) \<Longrightarrow> ok (fold f xs g)"
  by (induction xs arbitrary: g) auto

lemma ok_each: "ok g \<Longrightarrow> (\<And>x g. x \<in> set xs \<Longrightarrow> ok g \<Longrightarrow> ok (snd (f x g))) \<Longrightarrow> ok (snd (each f xs g))"
  by (induction xs arbitrary: g) (auto simp: and_also_def case_prod_beta Let_def)

lemma ok_and_also: "ok g \<Longrightarrow> (\<And>g. ok g \<Longrightarrow> ok (snd (f g))) \<Longrightarrow> (\<And>g. ok g \<Longrightarrow> ok (snd (h g))) \<Longrightarrow> ok (snd (and_also f h g))"
  by (simp add: and_also_def case_prod_beta Let_def)

lemma ok_trivial [simp]: "ok (snd (say f g)) = ok g" "ok (snd (nothing g)) = ok g" "ok (snd (quietly h g)) = ok (h g)"
  by (simp_all add: say_def nothing_def quietly_def)

lemma ok_emitting: "ok (snd (f g)) \<Longrightarrow> ok (emitting f g)"
  using ok_emit(2) by (simp add: emitting_def emit_all_def case_prod_beta Let_def)

lemma ok_security [simp]: "ok (on_security f g) = ok g"
  by (simp add: on_security_def)

lemma ok_record_text: "ok g \<Longrightarrow> ok (snd (record_text v m g))"
  by (simp add: record_text_def case_prod_beta Let_def ok_view [OF _ net_step.Incident])

text \<open>The walk of the last-seen table is complete.\<close>

lemma seen_order:
  assumes "orders_ok v" "W (g_network g)"
  shows "seen_walk (seen_order v g nick) nick (g_network g)"
  using assms seen by (simp add: seen_walk_def seen_order_def orders_ok_def)

lemma seen_order_of:
  assumes "orders_ok v" "W (g_network g)" "net_nick_of (g_network g) uid = Some nick"
  shows "seen_walk (seen_order_of v g uid) nick (g_network g)"
  using seen_order [OF assms(1,2)] assms(3) by (simp add: seen_order_of_def)

lemma ok_part: "orders_ok v \<Longrightarrow> ok g \<Longrightarrow> ok (on_network (channel_part (seen_order_of v g uid) now chan uid) g)"
  by (rule ok_on_network, assumption) (blast intro: view net_step.Part seen_order_of)

lemma ok_join: "orders_ok v \<Longrightarrow> ok g \<Longrightarrow> ok (on_network (channel_join (seen_order_of v g uid) now chan uid op) g)"
  by (rule ok_on_network, assumption) (blast intro: view net_step.Join seen_order_of)

lemma ok_quit: "orders_ok v \<Longrightarrow> ok g \<Longrightarrow> ok (on_network (user_quit (seen_order_of v g uid) now uid) g)"
  by (rule ok_on_network, assumption, erule view, rule net_step.Quit, erule seen_order_of)
    (simp_all add: net_nick_of_def ok_def)

lemma ok_rename: "orders_ok v \<Longrightarrow> ok g \<Longrightarrow> ok (on_network (user_nick_change (seen_order v g nick) now uid nick) g)"
  by (rule ok_on_network, assumption) (blast intro: view net_step.Nick seen_order)

lemmas ok_views =
  ok_step [OF _ net_step.Attrs] ok_step [OF _ net_step.Cert] ok_step [OF _ net_step.OperUp]
  ok_step [OF _ net_step.UMode] ok_step [OF _ net_step.Login] ok_step [OF _ net_step.Logout]
  ok_step [OF _ net_step.BotUp] ok_step [OF _ net_step.BotDown] ok_step [OF _ net_step.Modules]
  ok_step [OF _ net_step.ServerName] ok_step [OF _ net_step.ServerLink] ok_step [OF _ net_step.Topic]
  ok_step [OF _ net_step.CMode] ok_step [OF _ net_step.Rename] ok_step [OF _ net_step.Gone]
  ok_step [OF _ net_step.Op] ok_step [OF _ net_step.Voice] ok_step [OF _ net_step.Key]
  ok_step [OF _ net_step.Line]

lemma D_account:
  "D d \<Longrightarrow> D (snd (register_prepared now name cr email d))"
  "D d \<Longrightarrow> D (snd (provision_account now name s256 s512 email d))"
  "D d \<Longrightarrow> D (snd (verify_account acct d))" "D d \<Longrightarrow> D (snd (set_email acct email d))"
  "D d \<Longrightarrow> D (snd (set_signore acct ms d))" "D d \<Longrightarrow> D (snd (drop_account acct d))"
  "D d \<Longrightarrow> D (snd (issue_code gen i acct kind d))" "D d \<Longrightarrow> D (snd (take_code i acct kind given d))"
  "D d \<Longrightarrow> D (note_auth i acct success d)" "D d \<Longrightarrow> D (snd (group_nick nick acct d))"
  "D d \<Longrightarrow> D (snd (ungroup_nick nick d))"
  "D d \<Longrightarrow> cr_scram512 cr \<noteq> [] \<Longrightarrow> D (snd (set_credentials acct cr d))"
  by (erule account, (rule account_step.intros; assumption?))+

lemma D_channel:
  "D d \<Longrightarrow> D (snd (drop_channel chan d))" "D d \<Longrightarrow> D (snd (rename_channel old new d))"
  "D d \<Longrightarrow> D (snd (release_founded_channels ks acct d))" "D d \<Longrightarrow> D (snd (set_channel_topic chan topic setter d))"
  by (erule channel, rule channel_step.intros)+

lemma D_network:
  "D d \<Longrightarrow> D (snd (akill_add now kind msk setter reason expires d))" "D d \<Longrightarrow> D (snd (is_ignored now nick host d))"
  by (erule network, rule network_step.intros)+

lemma D_online:
  "D d \<Longrightarrow> D (mark_account_seen acct now d)" "D d \<Longrightarrow> D (mark_account_warned acct d)"
  "D d \<Longrightarrow> D (mark_channel_used chan now d)" "D d \<Longrightarrow> D (mark_channel_warned chan d)"
  by (erule online, rule online_step.intros)+

lemmas D_ops = D_account D_channel D_network D_online

end

end
