(* ===== verification/EngineOps.thy ===== *)
theory EngineOps
  imports Contract
begin

text \<open>
  Every function of the engine keeps the contract of theory Contract, from the bots up to the handler.
\<close>

context engine_contract
begin

subsection \<open>Bots\<close>

lemma ok_drop_memberships [simp]: "ok (drop_memberships k g) = ok g"
  by (simp add: drop_memberships_def)

lemma ok_reconcile_bots: "ok g \<Longrightarrow> ok (snd (reconcile_bots v g))"
proof -
  have "ok g \<Longrightarrow> ok (snd (quit_changed v b g))" "ok g \<Longrightarrow> ok (snd (introduce_missing v b g))"
    "ok g \<Longrightarrow> ok (snd (quit_removed k g))" "ok g \<Longrightarrow> ok (snd (join_desired bc g))"
    "ok g \<Longrightarrow> ok (snd (part_unassigned bc g))" for b k bc g
    by (auto simp: quit_changed_def introduce_missing_def quit_removed_def join_desired_def part_unassigned_def Let_def
        split: option.split intro!: ok_views)
  then have "ok g \<Longrightarrow> ok (snd (present_bot v b g))" "ok g \<Longrightarrow> ok (snd (quit_removed k g))"
    "ok g \<Longrightarrow> ok (snd (join_desired bc g))" "ok g \<Longrightarrow> ok (snd (part_unassigned bc g))" for b k bc g
    by (simp_all add: present_bot_def ok_and_also)
  then show "ok g \<Longrightarrow> ok (snd (reconcile_bots v g))"
    by (simp add: reconcile_bots_def case_prod_beta Let_def ok_each)
qed

lemma ok_prune: "ok g \<Longrightarrow> ok (prune_channel_if_gone v chan g)"
  by (simp add: prune_channel_if_gone_def ok_views)

lemma ok_chatter [simp]: "ok (forget_chatter v chan uid g) = ok g" "ok (forget_chatter_everywhere v uid g) = ok g"
  "ok (on_chatter chan uid f g) = ok g"
  by (simp_all add: forget_chatter_def forget_chatter_everywhere_def on_chatter_def split: option.split)

lemma ok_member_left: "orders_ok v \<Longrightarrow> ok g \<Longrightarrow> ok (snd (member_left v chan uid g))"
  by (simp add: member_left_def Let_def ok_reconcile_bots ok_prune ok_part split: option.split)

subsection \<open>Kickers\<close>

lemma ok_badword_verdict: "ok g \<Longrightarrow> ok (snd (badword_verdict v chan line c g))"
  by (simp add: badword_verdict_def badword_set_def Let_def case_prod_beta split: option.split)

lemma ok_line_verdict: "ok g \<Longrightarrow> ok (snd (line_verdict v uid chan line c g))"
  using ok_badword_verdict [of g v chan line c]
  by (auto simp: line_verdict_def counted_verdict_def case_prod_beta split: option.split)

lemma ok_kicker_check: "ok g \<Longrightarrow> ok (snd (kicker_check v uid chan line g))"
proof -
  have "ok g \<Longrightarrow> ok (snd (times_to_ban v k b uid chan g))" for k b g
    by (auto simp: times_to_ban_def Let_def ok_bump split: option.split)
  then have "ok g \<Longrightarrow> ok (snd (punish v k b uid chan r g))" for k b r g
    by (simp add: punish_def Let_def case_prod_beta ok_bump)
  then show "ok g \<Longrightarrow> ok (snd (kicker_check v uid chan line g))"
    using ok_line_verdict [of g v uid chan line]
    by (auto simp: kicker_check_def case_prod_beta split: option.split prod.split)
qed

lemma ok_trigger_response: "ok g \<Longrightarrow> ok (snd (trigger_response v uid chan line g))"
  by (auto simp: trigger_response_def Let_def case_prod_beta ok_bump split: option.split)

lemma ok_handle_vote: "ok g \<Longrightarrow> ok (snd (handle_vote v uid chan line g))"
  by (auto simp: handle_vote_def count_vote_def Let_def case_prod_beta ok_bump split: option.split)

subsection \<open>Sessions\<close>

lemma ok_no_longer_pending [simp]: "ok (no_longer_pending uid g) = ok g"
  by (simp add: no_longer_pending_def)

lemma ok_logout_uid: "ok g \<Longrightarrow> ok (logout_uid v uid acct why g)"
  by (simp add: logout_uid_def Let_def ok_views split: option.split)

lemma ok_logout_account_sessions: "ok g \<Longrightarrow> ok (logout_account_sessions v acct why g)"
  by (simp add: logout_account_sessions_def ok_fold ok_logout_uid)

lemma ok_telling [simp]: "ok (release_mode chan g) = ok g" "ok (tell_successor v acct cs g) = ok g"
  "ok (tell_released acct os uid g) = ok g"
  by (simp_all add: release_mode_def tell_successor_def tell_released_def split: option.split list.split)

lemma ok_handle_account_gone: "ok g \<Longrightarrow> ok (handle_account_gone v acct why release g)"
  by (auto simp: handle_account_gone_def Let_def case_prod_beta
      intro!: ok_fold ok_logout_uid ok_db D_ops dest: okD)

lemma ok_gossip_ingest:
  assumes "ok g" "foreign e (lg (g_db g))"
  shows "ok (snd (gossip_ingest v e g))"
proof -
  have "D (snd (db_ingest (ev_now v) e (g_db g)))" using gossip assms okD by blast
  then have "ok (g\<lparr>g_db := snd (db_ingest (ev_now v) e (g_db g))\<rparr>)" using assms(1) ok_db by blast
  then show ?thesis
    by (auto simp: gossip_ingest_def Let_def split: prod.split sum.split option.split ingest_effect.split
        intro!: ok_handle_account_gone ok_logout_account_sessions ok_emitting ok_reconcile_bots)
qed

lemma ok_forget_user: "orders_ok v \<Longrightarrow> ok g \<Longrightarrow> ok (snd (forget_user v uid g))"
proof -
  assume v: "orders_ok v" and g: "ok g"
  let ?g = "fold (prune_channel_if_gone v) (channels_of (walk_channels v g) (g_network g) uid)
    (on_network (user_quit (seen_order_of v g uid) (ev_now v) uid) g)"
  have "ok ?g" using v g by (simp add: ok_fold ok_prune ok_quit)
  then show ?thesis
    by (simp add: forget_user_def Let_def) (intro ok_sasl; auto simp: map_le_def)
qed

lemma ok_enforce_registered_nick: "ok g \<Longrightarrow> ok (snd (enforce_registered_nick v uid nick g))"
  by (simp add: enforce_registered_nick_def Let_def split: option.split)

lemma ok_next_guest_nick: "ok g \<Longrightarrow> ok (snd (next_guest_nick v g))"
  by (simp add: next_guest_nick_def case_prod_beta Let_def)

lemma ok_enforce_sweep: "ok g \<Longrightarrow> ok (enforce_sweep v g)"
proof -
  have "ok g \<Longrightarrow> ok (rename_to_guest v uid g)" for uid g
    by (simp add: rename_to_guest_def Let_def case_prod_beta ok_next_guest_nick split: option.split)
  then show "ok g \<Longrightarrow> ok (enforce_sweep v g)"
    by (simp add: enforce_sweep_def Let_def ok_fold)
qed

lemma ok_audit: "ok g \<Longrightarrow> ok (audit v m g)"
  by (simp add: audit_def Let_def ok_record_text)

lemma ok_expire_sweep: "ok g \<Longrightarrow> ok (expire_sweep v g)"
proof -
  have 1: "ok g \<Longrightarrow> ok (expire_account v acct g)" for acct g
    using ok_db [of g "snd (drop_account acct (g_db g))"] D_ops(6) okD
    by (auto simp: expire_account_def split: prod.split sum.split bool.split
        intro!: ok_audit ok_handle_account_gone)
  have 2: "ok g \<Longrightarrow> ok (expire_channel v chan g)" for chan g
    using ok_db [of g "snd (drop_channel chan (g_db g))"] D_channel(1) okD
    by (auto simp: expire_channel_def split: prod.split sum.split intro!: ok_audit)
  have 3: "ok g \<Longrightarrow> ok (warn_account x g)" "ok g \<Longrightarrow> ok (warn_channel y g)" for x y g
    by (auto simp: warn_account_def warn_channel_def split: prod.split intro!: ok_on_db D_ops)
  have 4: "ok g \<Longrightarrow> ok (warn_phase v g)" for g
    by (auto simp: warn_phase_def Let_def split: option.split intro!: ok_fold 3)
  have 5: "ok (prune_kicker_caches g) = ok g" for g by (simp add: prune_kicker_caches_def)
  show "ok g \<Longrightarrow> ok (expire_sweep v g)"
    by (auto simp: expire_sweep_def Let_def 5 split: option.split
        intro!: ok_emitting ok_reconcile_bots ok_fold 1 2 4)
qed

lemma ok_akick_hit: "orders_ok v \<Longrightarrow> ok g \<Longrightarrow> ok (snd (akick_hit v uid chan g))"
  by (simp add: akick_hit_def Let_def ok_part split: option.split)

lemma ok_enforce_akick_on_nick: "orders_ok v \<Longrightarrow> ok g \<Longrightarrow> ok (snd (enforce_akick_on_nick v uid g))"
  by (simp add: enforce_akick_on_nick_def akick_unless_access_def ok_each ok_akick_hit)

lemma ok_sweep_unbans [simp]: "ok (snd (sweep_unbans v g)) = ok g"
  by (simp add: sweep_unbans_def)

lemma ok_track_accounts: "ok g \<Longrightarrow> ok (track_accounts v acts g)"
proof -
  have "ok g \<Longrightarrow> ok (track_account v a g)" for a g
    by (auto simp: track_account_def Let_def split: net_action.split link_action.split
        intro!: ok_on_db D_ops ok_views)
  then show "ok g \<Longrightarrow> ok (track_accounts v acts g)"
    by (simp add: track_accounts_def ok_fold)
qed

lemma ok_finish: "ok g \<Longrightarrow> ok (snd (finish v out evout g))"
proof -
  have 1: "ok g \<Longrightarrow> ok (snd (stamp_incident v a g))" for a g
    by (auto simp: stamp_incident_def case_prod_beta Let_def ok_record_text
        split: net_action.split channel_action.split user_action.split)
  have "ok g \<Longrightarrow> ok (snd (stamp_incidents v acts g))" for acts g
    by (induction acts arbitrary: g) (auto simp: case_prod_beta Let_def 1)
  then show "ok g \<Longrightarrow> ok (snd (finish v out evout g))"
    by (simp add: finish_def case_prod_beta Let_def ok_track_accounts)
qed

end

end
