(* ===== verification/Config.thy ===== *)
theory Config
  imports Screen Sessions
begin

text \<open>
  The configuration (src/src/config.rs) as far as it reaches the engine, its validation, and what
  \<^verbatim>\<open>Engine::rehash\<close> and the setters of src/src/engine/mod.rs make of it. Reading the file and parsing TOML
  are an argument: the outcome of \<^verbatim>\<open>toml::from_str\<close>. Sections that only the front ends read (gossip,
  gRPC, JSON-RPC, panel, e-mail, keycards, dictionaries) are left out.
\<close>

subsection \<open>Sections\<close>

record uplink_section =
  up_host :: string
  up_port :: nat
  up_password :: string
  up_tls :: bool
  up_spki :: string

record server_section =
  se_name :: string
  se_sid :: string
  se_description :: string
  se_protocol :: nat
  se_scram_iterations :: nat
  se_guest_nick :: string
  se_service_host :: string
  se_service_modes :: string
  se_service_oper_type :: string
  se_services_channel :: string
  se_standard_replies :: bool

record oper_section =
  op_account :: string
  op_privs :: "string list"
  op_type :: "string option"

record log_section =
  lo_channel :: string
  lo_notify_exclude :: "string list"

record expire_section =
  ex_accounts_days :: nat
  ex_channels_days :: nat
  ex_warn_days :: nat

record register_section =
  re_confusable_check :: bool
  re_vouch :: bool

record config =
  cfg_uplink :: uplink_section
  cfg_server :: server_section
  cfg_services :: "string list"
  cfg_oper :: "oper_section list"
  cfg_log :: "log_section option"
  cfg_expire :: "expire_section option"
  cfg_session :: "nat option"
  cfg_external :: "bool option"
  cfg_register :: register_section
  cfg_extban :: "string list option"
  cfg_security :: "security_config option"

text \<open>What an omitted section or key means.\<close>

definition server_default :: "string \<Rightarrow> string \<Rightarrow> string \<Rightarrow> server_section" where
  "server_default name sid description =
     \<lparr>se_name = name, se_sid = sid, se_description = description, se_protocol = 1206,
      se_scram_iterations = default_iterations, se_guest_nick = ''Guest'', se_service_host = [],
      se_service_modes = ''iHkB'', se_service_oper_type = ''Network Service'',
      se_services_channel = ''#services'', se_standard_replies = True\<rparr>"

definition register_default :: register_section where
  "register_default = \<lparr>re_confusable_check = True, re_vouch = False\<rparr>"

definition default_services :: "string list" where
  "default_services =
     [''nickserv'', ''chanserv'', ''botserv'', ''hostserv'', ''memoserv'', ''operserv'', ''statserv'',
      ''groupserv'', ''infoserv'', ''reportserv'', ''helpserv'', ''chanfix'', ''diceserv'', ''gameserv'',
      ''debugserv'']"

subsection \<open>Derived settings\<close>

text \<open>A limit of zero is no limit; days become seconds, capped at the width of \<^verbatim>\<open>u64\<close>.\<close>

definition session_limit_of :: "nat \<Rightarrow> nat option" where
  "session_limit_of n = (if n > 0 then Some n else None)"

definition days_ttl :: "nat \<Rightarrow> nat option" where
  "days_ttl days = (if days > 0 then Some (min (days * 86400) (2 ^ 64 - 1)) else None)"

definition all_priv_names :: "oper_section \<Rightarrow> string list" where
  "all_priv_names op = op_privs op @ (case op_type op of None \<Rightarrow> [] | Some t \<Rightarrow> [t])"

definition config_opers :: "config \<Rightarrow> string \<rightharpoonup> privs" where
  "config_opers c = fold (\<lambda>op m. m(key (op_account op) \<mapsto> privs_from_names (all_priv_names op))) (cfg_oper c) Map.empty"

definition oper_priv_warnings :: "config \<Rightarrow> (string \<times> string) list" where
  "oper_priv_warnings c =
     concat (map (\<lambda>op. map (Pair (op_account op)) (snd (privs_parse_names (all_priv_names op)))) (cfg_oper c))"

subsection \<open>Loading\<close>

datatype config_error =
  Unreadable string
| BadSid string
| NoServerName
| NoUplinkHost
| WeakScram nat

definition config_validate :: "config \<Rightarrow> config_error + unit" where
  "config_validate c =
     (let sid = se_sid (cfg_server c) in
      if utf8_len sid \<noteq> 3 \<or> \<not> list_all (\<lambda>c. is_ascii_alphabetic c \<or> is_ascii_digit c) sid then Inl (BadSid sid)
      else if trim (se_name (cfg_server c)) = [] then Inl NoServerName
      else if trim (up_host (cfg_uplink c)) = [] then Inl NoUplinkHost
      else if se_scram_iterations (cfg_server c) < 1000 then Inl (WeakScram (se_scram_iterations (cfg_server c)))
      else Inr ())"

definition config_load :: "(string + config) \<Rightarrow> config_error + config" where
  "config_load parsed =
     (case parsed of
        Inl e \<Rightarrow> Inl (Unreadable e)
      | Inr c \<Rightarrow> (case config_validate c of Inl e \<Rightarrow> Inl e | Inr _ \<Rightarrow> Inr c))"

subsection \<open>Applying settings\<close>

definition set_opers :: "(string \<rightharpoonup> privs) \<Rightarrow> engine \<Rightarrow> engine" where
  "set_opers m g = (on_network (set_config_opers m) g)\<lparr>g_opers := m\<rparr>"

definition set_sid :: "string \<Rightarrow> engine \<Rightarrow> engine" where
  "set_sid sid g = g\<lparr>g_sid := sid\<rparr>"

definition set_log_channel :: "string option \<Rightarrow> engine \<Rightarrow> engine" where
  "set_log_channel chan g = g\<lparr>g_log_channel := chan\<rparr>"

definition set_debugserv_uid :: "string \<Rightarrow> engine \<Rightarrow> engine" where
  "set_debugserv_uid uid g = g\<lparr>g_debugserv_uid := uid\<rparr>"

definition set_expiry :: "nat option \<Rightarrow> nat option \<Rightarrow> nat option \<Rightarrow> engine \<Rightarrow> engine" where
  "set_expiry acct chan warn g = g\<lparr>g_account_ttl := acct, g_channel_ttl := chan, g_expire_warn := warn\<rparr>"

definition set_session_limit :: "nat option \<Rightarrow> engine \<Rightarrow> engine" where
  "set_session_limit limit g = g\<lparr>g_session_limit := limit\<rparr>"

definition set_security :: "(string \<Rightarrow> bool) \<Rightarrow> security_config option \<Rightarrow> engine \<Rightarrow> engine" where
  "set_security compiles cfg = on_security (security_configure compiles cfg)"

definition set_guest_nick :: "string \<Rightarrow> engine \<Rightarrow> engine" where
  "set_guest_nick base g = (if base \<noteq> [] then g\<lparr>g_guest_nick := base\<rparr> else g)"

definition set_service_host :: "string \<Rightarrow> engine \<Rightarrow> engine" where
  "set_service_host host g = (if host \<noteq> [] then g\<lparr>g_service_host := host\<rparr> else g)"

definition set_service_oper_type :: "string \<Rightarrow> engine \<Rightarrow> engine" where
  "set_service_oper_type ot g = g\<lparr>g_service_oper_type := ot\<rparr>"

definition set_services_channel :: "string \<Rightarrow> engine \<Rightarrow> engine" where
  "set_services_channel chan g = g\<lparr>g_services_channel := chan\<rparr>"

definition set_standard_replies :: "bool \<Rightarrow> engine \<Rightarrow> engine" where
  "set_standard_replies on g = g\<lparr>g_standard_replies := on\<rparr>"

definition set_notify_exclude :: "string list \<Rightarrow> db \<Rightarrow> db" where
  "set_notify_exclude ms d = d\<lparr>notify_exclude := ms\<rparr>"

definition set_confusable_check :: "bool \<Rightarrow> db \<Rightarrow> db" where
  "set_confusable_check on d = d\<lparr>confusable_check := on\<rparr>"

definition set_registration_vouch :: "bool \<Rightarrow> db \<Rightarrow> db" where
  "set_registration_vouch on d = d\<lparr>registration_vouch := on\<rparr>"

text \<open>The reloadable settings, in the order \<^verbatim>\<open>rehash\<close> applies them. A section that is absent resets
  the log channel and the detectors, and leaves the expiry and the session limit as they are.\<close>

definition apply_config :: "(string \<Rightarrow> bool) \<Rightarrow> config \<Rightarrow> engine \<Rightarrow> engine" where
  "apply_config compiles c g =
     (let s = cfg_server c;
          g1 = set_opers (config_opers c) g;
          g2 = set_standard_replies (se_standard_replies s)
                 (set_services_channel (se_services_channel s)
                   (set_service_oper_type (se_service_oper_type s) g1));
          g3 = set_log_channel (map_option lo_channel (cfg_log c)) g2;
          g4 = on_db (set_registration_vouch (re_vouch (cfg_register c))
                 \<circ> set_confusable_check (re_confusable_check (cfg_register c))
                 \<circ> set_notify_exclude (case cfg_log c of None \<Rightarrow> [] | Some l \<Rightarrow> lo_notify_exclude l)) g3;
          g5 = set_guest_nick (se_guest_nick s) g4;
          g6 = (case cfg_expire c of None \<Rightarrow> g5
                | Some e \<Rightarrow> set_expiry (days_ttl (ex_accounts_days e)) (days_ttl (ex_channels_days e))
                    (days_ttl (ex_warn_days e)) g5);
          g7 = (case cfg_session c of None \<Rightarrow> g6 | Some n \<Rightarrow> set_session_limit (session_limit_of n) g6)
      in set_security compiles (cfg_security c) g7)"

text \<open>What is announced after a successful reload.\<close>

definition rehash_report :: "config \<Rightarrow> string \<Rightarrow> string \<Rightarrow> (message \<Rightarrow> net_action) \<Rightarrow> engine \<Rightarrow> net_action list" where
  "rehash_report c path oper notice g =
     (let n = length (remdups (map (key \<circ> op_account) (cfg_oper c)));
          word = (if n = 1 then ''oper'' else ''opers'');
          sr = (if g_standard_replies g then ''on'' else ''off'');
          chan = (if g_services_channel g = [] then ''(none)'' else g_services_channel g);
          ot = (if g_service_oper_type g = [] then ''(none)'' else g_service_oper_type g)
      in feed g ''OPER'' (Msg ''reloaded the configuration live'' [oper, show_nat n, word, sr, chan]) @
         [notice (Msg ''configuration reloaded from'' [path]),
          notice (Msg ''applied'' [show_nat n, sr, chan, ot]),
          notice (Msg ''not reloadable'' [])] @
         map (\<lambda>(acct, name). notice (Msg ''unknown privilege'' [acct, name])) (oper_priv_warnings c))"

fun error_text :: "config_error \<Rightarrow> string" where
  "error_text (Unreadable e) = e"
| "error_text (BadSid sid) = ''server.sid must be exactly 3 alphanumeric characters'' @ sid"
| "error_text NoServerName = ''server.name must not be empty''"
| "error_text NoUplinkHost = ''uplink.host must not be empty''"
| "error_text (WeakScram n) = ''server.scram_iterations is too low'' @ show_nat n"

definition rehash ::
  "(string \<Rightarrow> bool) \<Rightarrow> (string + config) \<Rightarrow> string \<Rightarrow> string \<Rightarrow> string \<Rightarrow> engine \<Rightarrow> (bool \<times> net_action list) \<times> engine" where
  "rehash compiles parsed path requester agent g =
     (let oper = (case login_of g requester of Some a \<Rightarrow> a
                  | None \<Rightarrow> (case net_nick_of (g_network g) requester of Some n \<Rightarrow> n | None \<Rightarrow> ''an operator''));
          notice = (\<lambda>m. Talk (Notice agent requester m))
      in case config_load parsed of
           Inl e \<Rightarrow> ((False, feed g ''OPER'' (Msg ''failed to parse'' [oper, error_text e]) @
                       [notice (Msg ''REHASH failed'' [error_text e])]), g)
         | Inr c \<Rightarrow> (let g1 = apply_config compiles c g in ((True, rehash_report c path oper notice g1), g1)))"

definition is_privmsg :: "net_action \<Rightarrow> bool" where
  "is_privmsg a \<longleftrightarrow> (case a of Talk (Privmsg _ _ _) \<Rightarrow> True | _ \<Rightarrow> False)"

definition control_rehash :: "(string \<Rightarrow> bool) \<Rightarrow> (string + config) \<Rightarrow> string \<Rightarrow> engine \<Rightarrow> (bool \<times> message) \<times> engine" where
  "control_rehash compiles parsed path g =
     (let ((done_ok, actions), g1) = rehash compiles parsed path ''gRPC control'' [] g
      in ((done_ok, if done_ok then Msg ''configuration reloaded'' []
                    else Msg ''reload failed; running configuration unchanged'' []),
          emit_all (filter is_privmsg actions) g1))"

text \<open>The settings \<^verbatim>\<open>main\<close> applies once, before the link comes up.\<close>

definition boot_config :: "(string \<Rightarrow> bool) \<Rightarrow> config \<Rightarrow> engine \<Rightarrow> engine" where
  "boot_config compiles c g =
     (let s = cfg_server c;
          g1 = set_guest_nick (se_guest_nick s) (set_sid (se_sid s) (set_opers (config_opers c) g));
          g2 = set_service_host (if se_service_host s = [] then se_name s else se_service_host s) g1;
          g3 = set_standard_replies (se_standard_replies s)
                 (set_services_channel (se_services_channel s) (set_service_oper_type (se_service_oper_type s) g2));
          g4 = set_log_channel (map_option lo_channel (cfg_log c)) g3;
          g5 = (if ''debugserv'' \<in> set (cfg_services c) then set_debugserv_uid (se_sid s @ ''AAAAAO'') g4 else g4);
          g6 = (case cfg_expire c of None \<Rightarrow> g5
                | Some e \<Rightarrow> set_expiry (days_ttl (ex_accounts_days e)) (days_ttl (ex_channels_days e))
                    (days_ttl (ex_warn_days e)) g5);
          g7 = (case cfg_session c of None \<Rightarrow> g6 | Some n \<Rightarrow> set_session_limit (session_limit_of n) g6)
      in set_security compiles (cfg_security c) g7)"

end
