(* ===== verification/Timers.thy ===== *)
theory Timers
  imports Compaction Config
begin

text \<open>
  What the process does with the engine outside the uplink (src/src/engine/mod.rs): the gauges of the
  health endpoint, the periodic snapshots, ChanFix passes and compaction, and the replication
  pass-throughs. Hash maps are walked in an order that is an argument.
\<close>

subsection \<open>Gauges\<close>

definition stats_snapshot :: "engine \<Rightarrow> (string \<rightharpoonup> nat)" where
  "stats_snapshot g = (w_stats (g_network g))
     (''accounts.total'' \<mapsto> card (dom (accounts (st (g_db g)))),
      ''channels.total'' \<mapsto> card (dom (channels (st (g_db g)))),
      ''bots.total'' \<mapsto> card (dom (bots (st (g_db g)))),
      ''opers.total'' \<mapsto> card (dom (g_opers g)))"

definition health_metrics :: "engine \<Rightarrow> (string \<rightharpoonup> nat)" where
  "health_metrics g = (stats_snapshot g)
     (''event.lamport'' \<mapsto> l_lamport (lg (g_db g)),
      ''log.entries'' \<mapsto> length (l_entries (lg (g_db g))))"

definition linked :: "engine \<Rightarrow> bool" where
  "linked g \<longleftrightarrow> g_services_signon g > 0"

definition uptime_secs :: "nat \<Rightarrow> engine \<Rightarrow> nat" where
  "uptime_secs now g = (if g_services_signon g = 0 then 0 else now - g_services_signon g)"

subsection \<open>Periodic work\<close>

definition engine_persist_stats ::
  "string list \<Rightarrow> string list \<Rightarrow> (string \<Rightarrow> string list) \<Rightarrow> engine \<Rightarrow> engine" where
  "engine_persist_stats ks kc kt g =
     (let counters = w_stats (g_network g); chans = chan_activity_snapshot kc kt (g_network g)
      in if ks = [] \<and> chans = [] then g else on_db (snd \<circ> persist_stats ks counters chans) g)"

definition engine_persist_incidents :: "engine \<Rightarrow> engine" where
  "engine_persist_incidents g =
     (let (sq, incidents) = incidents_snapshot (g_network g)
      in if incidents = [] then g else on_db (snd \<circ> persist_incidents sq incidents) g)"

definition chanfix_tick ::
  "string list \<Rightarrow> (string \<Rightarrow> string list) \<Rightarrow> (string \<Rightarrow> string list) \<Rightarrow> engine \<Rightarrow> engine" where
  "chanfix_tick kc ko ki = on_network (chanfix_sample kc ko ki)"

definition maybe_compact :: "walks \<Rightarrow> nat \<Rightarrow> string list \<Rightarrow> string list \<Rightarrow> engine \<Rightarrow> (io_error + bool) \<times> engine" where
  "maybe_compact w now accs chans g =
     (if should_compact accs chans (g_db g)
      then (case db_compact w now (g_db g) of
              (Inl e, d) \<Rightarrow> (Inl e, g\<lparr>g_db := d\<rparr>)
            | (Inr _, d) \<Rightarrow> (Inr True, g\<lparr>g_db := d\<rparr>))
      else (Inr False, g))"

subsection \<open>The peers and the panel\<close>

definition gossip_digest :: "engine \<Rightarrow> string \<rightharpoonup> cursor" where
  "gossip_digest g = l_versions (lg (g_db g))"

definition gossip_missing :: "(string \<rightharpoonup> cursor) \<Rightarrow> engine \<Rightarrow> log_entry list" where
  "gossip_missing peer g = missing_for (lg (g_db g)) peer"

definition recent_incidents :: "engine \<Rightarrow> nat \<Rightarrow> incident list" where
  "recent_incidents g limit = search_incidents (g_network g) [] limit"

end
