(* ===== verification/EngineRun.thy ===== *)
theory EngineRun
  imports EngineOps SaslProps Timers
begin

text \<open>
  The engine as a state machine: a run brings the link up, handles any events in any order, finishes work
  deferred to other threads, serves the account authority, takes entries from peers and runs its timers.
  Interpreting the contract of theory Contract carries the invariants of the database, of the live view
  and of the SASL exchanges over to it.
\<close>

text \<open>A password derived by the code yields both verifiers.\<close>

definition derived :: "credentials option \<Rightarrow> bool" where
  "derived creds \<longleftrightarrow> (case creds of None \<Rightarrow> True | Some cr \<Rightarrow> cr_scram512 cr \<noteq> [])"

text \<open>The uplink never connects a client under a uid in use.\<close>

definition fresh_event :: "net_event \<Rightarrow> engine \<Rightarrow> bool" where
  "fresh_event e g \<longleftrightarrow> (\<forall>uid nick host ip. e = UserEv (UserConnect uid nick host ip) \<longrightarrow> w_users (g_network g) uid = None)"

context engine_contract
begin

subsection \<open>Detectors\<close>

lemma ok_count_event [simp]: "ok (snd (count_event v k life g)) = ok g"
  by (simp add: count_event_def case_prod_beta Let_def)

lemma ok_security_act: "ok g \<Longrightarrow> ok (snd (security_act v who uid msk kind why ban g))"
proof -
  have 1: "ok g \<Longrightarrow> ok (snd (announce v kind who why g))" for g
    by (simp add: announce_def case_prod_beta Let_def)
  have 2: "ok (remember_offender v uid g) = ok g" for g
    by (simp add: remember_offender_def split: option.split)
  have "ok g \<Longrightarrow> ok (snd (strike v uid msk kind why ban g))" for g
    by (auto simp: strike_def Let_def 2 intro!: ok_on_db D_ops)
  with 1 show "ok g \<Longrightarrow> ok (snd (security_act v who uid msk kind why ban g))"
    by (simp add: security_act_def ok_and_also)
qed

lemma ok_trip:
  "ok g \<Longrightarrow> (\<And>n g. ok g \<Longrightarrow> ok (snd (act n g))) \<Longrightarrow> (\<And>g. ok g \<Longrightarrow> ok (snd (otherwise g))) \<Longrightarrow>
   ok (snd (trip v k life permit stat act otherwise g))"
  by (simp add: trip_def case_prod_beta Let_def ok_bump)

lemma ok_screened:
  "ok g \<Longrightarrow> (\<And>r ip who g. ok g \<Longrightarrow> ok (snd (act r ip who g))) \<Longrightarrow> ok (snd (screened rules v uid chan act g))"
  by (simp add: screened_def case_prod_beta split: option.split)

lemma ok_screens:
  assumes g: "ok g"
  shows "ok (snd (security_screen_connect v uid g))" "ok (snd (security_screen_nick v uid g))"
    "ok (snd (security_screen_join v uid chan g))" "ok (snd (security_screen_part v uid chan g))"
    "ok (snd (security_screen_quit v uid reason g))" "ok (snd (security_screen_message v uid chan line g))"
    "ok (snd (security_screen_auth v uid g))" "ok (snd (security_register_flood v uid g))"
    "ok (snd (security_screen_login v uid acct g))"
proof -
  note act = ok_security_act ok_bump
  have flood: "ok (snd (connection_flood v r u ip who h))" if "ok h" for r u ip who h
    using that by (simp add: connection_flood_def case_prod_beta Let_def act)
  show "ok (snd (security_screen_connect v uid g))"
    using g by (auto simp: security_screen_connect_def Let_def act flood split: option.split)
  show "ok (snd (security_screen_nick v uid g))"
    unfolding security_screen_nick_def by (intro ok_screened ok_trip g ok_security_act) (simp_all add: g)
  show "ok (snd (security_screen_join v uid chan g))"
    unfolding security_screen_join_def Let_def by (intro ok_screened ok_trip g ok_security_act) (simp_all add: g)
  have "ok (snd (quick_part v r u c h)) = ok h" for r u c h
    by (simp add: quick_part_def case_prod_beta Let_def)
  then show "ok (snd (security_screen_part v uid chan g))"
    unfolding security_screen_part_def
    by (intro ok_screened ok_trip g ok_security_act) (auto simp: case_prod_beta Let_def intro!: ok_trip ok_security_act)
  show "ok (snd (security_screen_quit v uid reason g))"
    unfolding security_screen_quit_def using g
    by (auto split: option.split intro!: ok_screened ok_trip ok_security_act)
  have wave: "ok (snd (repeat_wave v r u c l ip who h))" if "ok h" for r u c l ip who h
    unfolding repeat_wave_def Let_def using that by (auto intro!: ok_trip ok_security_act)
  have uni: "ok (snd (bad_unicode v r u c l ip who h))" if "ok h" for r u c l ip who h
    unfolding bad_unicode_def using that by (auto intro!: ok_trip ok_security_act wave)
  show "ok (snd (security_screen_message v uid chan line g))"
    unfolding security_screen_message_def Let_def
    by (intro ok_screened g) (auto intro!: ok_trip ok_security_act uni)
  show "ok (snd (security_screen_auth v uid g))"
    unfolding security_screen_auth_def by (intro ok_screened ok_trip g ok_security_act) (simp_all add: g)
  show "ok (snd (security_register_flood v uid g))"
    using g by (auto simp: security_register_flood_def case_prod_beta Let_def ok_bump split: option.split)
  show "ok (snd (security_screen_login v uid acct g))"
    using g by (auto simp: security_screen_login_def Let_def split: option.split intro!: act)
qed

subsection \<open>SASL\<close>

lemma ok_agent: "ok g \<Longrightarrow> ok (snd (sasl v client md data g))"
proof -
  have plain: "g_db (snd (sasl_plain v a c r x g)) = g_db g" "g_network (snd (sasl_plain v a c r x g)) = g_network g"
    for a c r x g
    by (auto simp: sasl_plain_def stash_sasl_def Let_def split: option.split)
  have scram: "D (g_db g) \<Longrightarrow> D (g_db (snd (sasl_scram v a c h s x g)))"
    "g_network (snd (sasl_scram v a c h s x g)) = g_network g" for a c h s x g
    by (cases s; auto simp: scram_client_first_def scram_client_final_def stash_sasl_def on_db_def case_prod_beta Let_def
        split: option.split intro: D_ops)+
  have ecdsa: "g_db (snd (sasl_ecdsa v a c s x g)) = g_db g" "g_network (snd (sasl_ecdsa v a c s x g)) = g_network g"
    for a c s x g
    by (cases s; auto simp: ecdsa_account_name_def stash_sasl_def split: option.split)+
  have continue: "D (g_db g) \<Longrightarrow> D (g_db (snd (sasl_continue v a c ds g)))"
    "g_network (snd (sasl_continue v a c ds g)) = g_network g" for a c ds g
    by (auto simp: sasl_continue_def Let_def plain ecdsa scram(2) unstash_sasl_def
        split: option.split sasl_session.split intro: scram(1))
  have start: "g_db (snd (sasl_start v a c ds g)) = g_db g" "g_network (snd (sasl_start v a c ds g)) = g_network g"
    for a c ds g
    by (auto simp: sasl_start_def Let_def sweep_sasl_def stash_sasl_def split: option.split)
  have "D (g_db g) \<Longrightarrow> D (g_db (snd (sasl v client md data g)))" "g_network (snd (sasl v client md data g)) = g_network g"
    by (auto simp: sasl_def remember_sasl_source_def Let_def start continue split: list.split)
  then show "ok g \<Longrightarrow> ok (snd (sasl v client md data g))"
    using agent by (simp add: ok_def)
qed

subsection \<open>Registration and the account authority\<close>

lemma ok_confirm_mail: "ok g \<Longrightarrow> ok (snd (confirm_mail v acct addr g))"
  by (simp add: confirm_mail_def case_prod_beta Let_def ok_in_db D_ops)

lemma ok_authority:
  assumes g: "ok g"
  shows "ok (snd (authority_provision v name s256 s512 email g))" "ok (snd (authority_register v name creds email g))"
    "ok (authority_note_auth v name success g)" "ok (snd (authority_set_email acct email g))"
    "ok (snd (authority_confirm v acct given g))" "ok (snd (authority_drop v acct g))"
    "ok (snd (authority_force_logout v acct g))" "ok (snd (authority_group_nick v nick acct g))"
    "ok (snd (authority_ungroup_nick nick g))"
proof -
  note store = ok_in_db ok_on_db D_ops
  show "ok (snd (authority_provision v name s256 s512 email g))"
    using g by (simp add: authority_provision_def case_prod_beta Let_def store)
  show "ok (snd (authority_register v name creds email g))"
    using g by (auto simp: authority_register_def case_prod_beta Let_def split: option.split
        intro!: ok_emitting ok_confirm_mail store)
  show "ok (authority_note_auth v name success g)" using g by (simp add: authority_note_auth_def store)
  show "ok (snd (authority_set_email acct email g))"
    using g by (simp add: authority_set_email_def case_prod_beta Let_def store)
  show "ok (snd (authority_confirm v acct given g))"
    using g by (simp add: authority_confirm_def case_prod_beta Let_def store)
  show "ok (snd (authority_drop v acct g))"
    using g by (auto simp: authority_drop_def case_prod_beta Let_def split: sum.split bool.split
        intro!: ok_handle_account_gone store)
  show "ok (snd (authority_force_logout v acct g))"
    using g by (auto simp: authority_force_logout_def Let_def split: option.split intro!: ok_fold ok_views)
  show "ok (snd (authority_group_nick v nick acct g))"
    using g by (simp add: authority_group_nick_def case_prod_beta Let_def store)
  show "ok (snd (authority_ungroup_nick nick g))"
    using g by (simp add: authority_ungroup_nick_def case_prod_beta Let_def store)
qed

lemma ok_set_password:
  assumes "ok g" "derived creds"
  shows "ok (snd (authority_set_password acct creds g))" "ok (snd (complete_password_change acct creds agt uid g))"
proof -
  have "ok (snd (in_db (set_credentials acct cr) g))" if "creds = Some cr" for cr
    using assms that by (intro ok_in_db D_ops(12)) (auto simp: derived_def)
  with assms(1) show "ok (snd (authority_set_password acct creds g))"
    "ok (snd (complete_password_change acct creds agt uid g))"
    by (auto simp: authority_set_password_def complete_password_change_def case_prod_beta Let_def
        split: option.split sum.split prod.split)
qed

lemma ok_account_request: "ok g \<Longrightarrow> ok (snd (account_request v reqid origin kind acct p2 p3 g))"
proof -
  note store = ok_in_db ok_on_db D_ops
  have "ok g \<Longrightarrow> ok (snd (relay_verify v resp acct gv g))" "ok g \<Longrightarrow> ok (snd (relay_resend v resp acct g))"
    "ok g \<Longrightarrow> ok (snd (relay_status resp acct g))" for resp gv g
    by (auto simp: relay_verify_def relay_resend_def relay_status_def case_prod_beta Let_def split: option.split
        intro!: ok_and_also ok_confirm_mail store)
  then show "ok g \<Longrightarrow> ok (snd (account_request v reqid origin kind acct p2 p3 g))"
    by (simp add: account_request_def Let_def)
qed

lemma ok_pre_register_check: "ok g \<Longrightarrow> ok (snd (pre_register_check v acct to g))"
  by (simp add: pre_register_check_def case_prod_beta Let_def ok_screens split: reg_reply_to.split)

lemma ok_complete_register: "ok g \<Longrightarrow> ok (snd (complete_register v acct creds email to g))"
proof -
  note store = ok_in_db ok_on_db D_ops
  have 1: "ok g \<Longrightarrow> ok (snd (commit_registration v acct cr email to g))" for cr g
    by (auto simp: commit_registration_def case_prod_beta Let_def split: sum.split reg_error.split reg_reply_to.split
        intro!: store)
  have 2: "ok g \<Longrightarrow> ok (snd (ask_confirmation v acct email to g))" for g
    by (auto simp: ask_confirmation_def split: option.split intro!: ok_and_also ok_confirm_mail)
  show "ok g \<Longrightarrow> ok (snd (complete_register v acct creds email to g))"
    by (auto simp: complete_register_def case_prod_beta Let_def split: option.split
        intro!: ok_and_also ok_track_accounts 1 2)
qed

lemma ok_complete_authenticate: "ok g \<Longrightarrow> ok (snd (complete_authenticate v success how g))"
proof -
  have 1: "ok g \<Longrightarrow> ok (snd (finish_identify v b uid agt name acct g))" for b uid agt name acct g
    by (auto simp: finish_identify_def Let_def intro!: ok_bump ok_on_db D_ops)
  have 2: "ok g \<Longrightarrow> ok (snd (recover_nick v uid nick g))" for uid nick g
    by (auto simp: recover_nick_def case_prod_beta Let_def split: option.split intro!: ok_next_guest_nick)
  have "ok g \<Longrightarrow> ok (snd (authenticated v success how g))" for g
    by (cases how) (auto simp: Let_def intro!: ok_and_also 1 2 ok_on_db D_ops)
  then show "ok g \<Longrightarrow> ok (snd (complete_authenticate v success how g))"
    by (auto simp: complete_authenticate_def case_prod_beta Let_def split: option.split
        intro!: ok_and_also ok_track_accounts ok_screens)
qed

subsection \<open>Commands\<close>

text \<open>The services change the store only as the database allows.\<close>

definition services_keep :: "modules \<Rightarrow> bool" where
  "services_keep md \<longleftrightarrow> (\<forall>svc sd msgid args w d. D d \<longrightarrow> D (snd (md_command md svc sd msgid args w d)))"

lemma ok_audit_feed: "ok g \<Longrightarrow> ok (snd (audit_feed v mark nick acct g))"
  by (auto simp: audit_feed_def audit_one_def Let_def intro!: ok_each ok_record_text)

lemma ok_route_to: "services_keep md \<Longrightarrow> ok g \<Longrightarrow> ok (snd (route_to md uid sd msgid args g))"
  by (auto simp: route_to_def services_keep_def split: option.split intro!: ok_in_db)

lemma ok_fantasy: "services_keep md \<Longrightarrow> ok g \<Longrightarrow> ok (snd (fantasy v md sd msgid chan line g))"
  by (auto simp: fantasy_def fantasy_command_def case_prod_beta Let_def ok_route_to split: option.split list.split)

lemma ok_channel_line:
  assumes md: "services_keep md" and g: "ok g"
  shows "ok (snd (channel_line v md sd msgid chan line g))"
proof -
  have 1: "ok (snd (kicked_or_answered v uid c l h))" if "ok h" for uid c l h
    using that ok_kicker_check ok_trigger_response by (simp add: kicked_or_answered_def case_prod_beta Let_def)
  have 2: "ok (record_bot_line v c n l h)" if "ok h" for c n l h
    using that by (auto simp: record_bot_line_def Let_def split: option.split intro!: ok_bump ok_views)
  have "ok (snd (handle_vote v (sd_uid sd) chan line g))" by (rule ok_handle_vote [OF g])
  then show ?thesis
    by (auto simp: channel_line_def case_prod_beta Let_def split: option.split
        intro!: 2 ok_screens 1 ok_fantasy [OF md])
qed

lemma ok_guarded_line:
  assumes md: "services_keep md" and g: "ok g"
  shows "ok (snd (guarded_line v md sd msgid to line g))"
proof -
  have 1: "ok (snd (service_line v md sd msgid to line h))" if "ok h" for h
    using that md by (auto simp: service_line_def case_prod_beta Let_def services_keep_def split: option.split
        intro!: ok_bump ok_in_db)
  have "ok (snd (in_db (is_ignored now nick host) g))" for now nick host
    using g by (simp add: ok_in_db D_ops)
  then show ?thesis
    using g by (auto simp: guarded_line_def case_prod_beta Let_def split: option.split cmd_verdict.split intro!: 1)
qed

lemma ok_dispatch:
  assumes "services_keep md" "ok g"
  shows "ok (snd (dispatch v md uid to line msgid g))"
proof -
  have bumps: "ok (fold bump_stat ks h)" if "ok h" for ks h using that by (simp add: ok_fold ok_bump)
  have alert: "ok (snd (raise_alert v u a h))" "ok (snd (report_auth r h))" if "ok h" for u a r h
    using that by (simp_all add: raise_alert_def report_auth_def Let_def ok_record_text split: prod.split)
  have "ok (snd (after_command v md mark sd r h))" if "ok h" for mark sd r h
    using that by (auto simp: after_command_def case_prod_beta Let_def
        intro!: ok_and_also ok_reconcile_bots ok_audit_feed ok_each alert bumps)
  then show ?thesis
    using ok_channel_line [OF assms] ok_guarded_line [OF assms]
    by (auto simp: dispatch_def case_prod_beta Let_def split: line_outcome.split)
qed

subsection \<open>Events\<close>

lemma ok_handle_user:
  assumes v: "orders_ok v" and g: "ok g"
    and new: "\<And>uid nick host ip. e = UserConnect uid nick host ip \<Longrightarrow> w_users (g_network g) uid = None"
  shows "ok (snd (handle_user v e g))"
proof (cases e)
  case (UserConnect uid nick host ip)
  then have "ok (on_network (user_connect uid nick host ip) g)"
    using new g by (intro ok_on_network) (auto intro: view net_step.Connect)
  then show ?thesis
    by (auto simp: UserConnect handle_connect_def Let_def split: option.split
        intro!: ok_and_also ok_enforce_registered_nick)
next
  case UserAttrs
  show ?thesis by (auto simp: UserAttrs handle_attrs_def watching_def intro!: ok_and_also ok_views ok_screens g)
next
  case UserCert
  show ?thesis by (auto simp: UserCert handle_cert_def Let_def split: option.split intro!: ok_views g)
next
  case NickChange
  show ?thesis
    by (auto simp: NickChange handle_nick_def Let_def watching_def
        intro!: ok_and_also ok_enforce_registered_nick ok_enforce_akick_on_nick [OF v] ok_screens ok_rename [OF v] g)
next
  case AccountLogin
  show ?thesis by (auto simp: AccountLogin handle_login_def intro!: ok_screens ok_views g)
next
  case SignoreSet
  show ?thesis by (auto simp: SignoreSet handle_signore_def split: option.split intro!: ok_on_db D_ops g)
next
  case UserModeSet
  show ?thesis by (auto simp: UserModeSet handle_user_mode_def watching_def intro!: ok_and_also ok_views g)
next
  case OperUp
  show ?thesis by (auto simp: OperUp handle_oper_up_def watching_def intro!: ok_and_also ok_views g)
next
  case Quit
  show ?thesis
    by (auto simp: Quit handle_quit_def watching_def intro!: ok_and_also ok_screens ok_forget_user [OF v] g)
next
  case (UserKilled uid)
  show ?thesis
    by (auto simp: UserKilled handle_killed_def split: option.split
        intro!: ok_reconcile_bots ok_forget_user [OF v] ok_views g)
qed

lemma ok_admit:
  assumes v: "orders_ok v" and g: "ok g"
  shows "ok (snd (admit v uid chan op g))"
proof -
  have greet: "ok (snd (show_greet gr h))" if "ok h" for gr h
    using that by (simp add: show_greet_def ok_bump split: option.split prod.split)
  have member: "ok (snd (receive_member v src chan uid info acct m h))" if "ok h" for src info acct m h
    using that by (simp add: receive_member_def case_prod_beta Let_def ok_akick_hit [OF v] split: option.split)
  have entry: "ok (snd (and_also (say e) (and_also (receive_member v src chan uid info acct m) (show_greet gr)) h))"
    if "ok h" for e src info acct m gr h
    by (rule ok_and_also [OF that]) (simp, rule ok_and_also, simp_all add: member greet)
  show ?thesis
    unfolding admit_def Let_def
    by (rule ok_and_also [OF g], erule ok_screens) (simp only: snd_conv entry simp_thms split: if_split)
qed

lemma ok_handle_join:
  assumes v: "orders_ok v" and g: "ok g"
  shows "ok (snd (handle_join v uid chan op g))"
proof -
  have used: "ok (on_db (mark_channel_used chan (ev_now v)) h)" if "ok h" for h
    using that by (rule ok_on_db) (rule D_ops)
  show ?thesis
    unfolding handle_join_def Let_def
    by (rule ok_and_also [OF ok_join [OF v g]]) (simp_all add: watching_def ok_admit [OF v] used)
qed

lemma ok_handle_channel:
  assumes v: "orders_ok v" and g: "ok g"
  shows "ok (snd (handle_channel v e g))"
proof (cases e)
  case Join
  with ok_handle_join [OF v g] show ?thesis by simp
next
  case (TopicChange chan setter topic setby)
  have topic: "ok (snd (keep_topic chan setter topic author h))" if "ok h" for author h
    using that by (auto simp: keep_topic_def split: option.split intro!: ok_on_db D_ops)
  show ?thesis
    by (auto simp: TopicChange handle_topic_def Let_def intro!: ok_and_also topic ok_views g)
next
  case ChannelRename
  show ?thesis
    by (auto simp: ChannelRename handle_rename_def Let_def intro!: ok_on_db D_ops ok_views g)
qed (auto simp: handle_create_def handle_part_def handle_kicked_def handle_op_def handle_voice_def handle_mode_def watching_def
    intro!: ok_and_also ok_member_left [OF v] ok_screens ok_views g)

lemma ok_handle_server:
  assumes v: "orders_ok v" and g: "ok g"
  shows "ok (snd (handle_server v e g))"
proof (cases e)
  case (ServerSplit server)
  have gone: "ok (forget_server v sid h)" if "ok h" for sid h
    using that by (auto simp: forget_server_def intro!: ok_fold ok_forget_user [OF v])
  let ?g = "on_split v g"
  have "ok ?g" using g by (simp add: on_split_def)
  then have "ok (?g\<lparr>g_network := snd (server_split ks server (g_network ?g))\<rparr>)" for ks
    by (rule ok_view) (rule net_step.ServerSplit)
  then show ?thesis
    by (auto simp: ServerSplit handle_split_def Let_def case_prod_beta intro!: ok_fold gone)
qed (auto simp: handle_idle_def on_split_def intro!: ok_views g)

lemma ok_handle:
  assumes "orders_ok v" "services_keep md" "fresh_event e g" "ok g"
  shows "ok (snd (handle v md e g))"
proof -
  let ?g = "snd (sweep_unbans v g)"
  have g: "ok ?g" "g_network ?g = g_network g" using assms(4) by (simp_all add: sweep_unbans_def)
  have "ok (snd (handle_event v md e ?g))"
  proof (cases e)
    case (UserEv u)
    with assms(1,3) g show ?thesis by (auto simp: fresh_event_def intro!: ok_handle_user)
  next
    case (ReqEv r)
    then show ?thesis
      using ok_dispatch [OF assms(2) g(1)] ok_account_request [OF g(1)] ok_agent [OF g(1)] g(1)
      by (cases r) simp_all
  qed (use ok_handle_channel ok_handle_server assms(1) g in simp_all)
  then show ?thesis
    by (auto simp: handle_def case_prod_beta Let_def split: option.split intro!: ok_finish)
qed

lemma ok_startup: "ok g \<Longrightarrow> ok (snd (startup_actions v g))"
proof -
  assume g: "ok g"
  let ?g = "g\<lparr>g_services_signon := ev_now v, g_bot_uids := Map.empty, g_bot_idents := Map.empty,
    g_bot_channels := {}, g_sasl := Map.empty, g_source := Map.empty, g_pending_enforce := [], g_next_bot_index := 0\<rparr>"
  have "ok (g\<lparr>g_sasl := Map.empty\<rparr>)" using g by (rule ok_sasl) (simp add: map_le_def)
  then have "ok ?g" by (rule ok_cong) simp_all
  then have "ok (on_network (clear_servers \<circ> clear_bots) ?g)"
    by (rule ok_on_network) (simp, blast intro: view net_step.BotsDown net_step.ServersGone)
  then show ?thesis
    by (simp add: startup_actions_def fresh_link_def case_prod_beta Let_def ok_reconcile_bots)
qed

subsection \<open>Settings and timers\<close>

lemma ok_db_only: "ok g \<Longrightarrow> (D (g_db g) \<Longrightarrow> D d) \<Longrightarrow> ok (g\<lparr>g_db := d\<rparr>)"
  by (simp add: ok_db okD)

lemma ok_config_fields [simp]:
  "ok (g\<lparr>g_opers := a1\<rparr>) = ok g" "ok (g\<lparr>g_sid := a2\<rparr>) = ok g" "ok (g\<lparr>g_guest_nick := a3\<rparr>) = ok g"
  "ok (g\<lparr>g_service_host := a4\<rparr>) = ok g" "ok (g\<lparr>g_service_oper_type := a5\<rparr>) = ok g"
  "ok (g\<lparr>g_services_channel := a6\<rparr>) = ok g" "ok (g\<lparr>g_standard_replies := a7\<rparr>) = ok g"
  "ok (g\<lparr>g_log_channel := a8\<rparr>) = ok g" "ok (g\<lparr>g_debugserv_uid := a9\<rparr>) = ok g"
  "ok (g\<lparr>g_account_ttl := b1\<rparr>) = ok g" "ok (g\<lparr>g_channel_ttl := b2\<rparr>) = ok g"
  "ok (g\<lparr>g_expire_warn := b3\<rparr>) = ok g" "ok (g\<lparr>g_session_limit := b4\<rparr>) = ok g"
  by (rule ok_eq; simp)+

lemma ok_settings [simp]:
  "ok (set_sid a1 g) = ok g" "ok (set_log_channel a2 g) = ok g" "ok (set_debugserv_uid a3 g) = ok g"
  "ok (set_expiry a4 a5 a6 g) = ok g" "ok (set_session_limit a7 g) = ok g" "ok (set_security a8 a9 g) = ok g"
  "ok (set_guest_nick b1 g) = ok g" "ok (set_service_host b2 g) = ok g" "ok (set_service_oper_type b3 g) = ok g"
  "ok (set_services_channel b4 g) = ok g" "ok (set_standard_replies b5 g) = ok g"
  by (simp_all add: set_sid_def set_log_channel_def set_debugserv_uid_def set_expiry_def set_session_limit_def
      set_security_def set_guest_nick_def set_service_host_def set_service_oper_type_def set_services_channel_def
      set_standard_replies_def)

lemma ok_set_opers: "ok g \<Longrightarrow> ok (set_opers m g)"
proof -
  assume "ok g"
  then have "ok (on_network (set_config_opers m) g)" by (rule ok_step) (rule net_step.Opers)
  then show ?thesis by (simp add: set_opers_def)
qed

lemma ok_boot_config: "ok g \<Longrightarrow> ok (boot_config compiles c g)"
  by (simp add: boot_config_def Let_def ok_set_opers split: option.split)

lemma ok_apply_config:
  assumes g: "ok g" and same: "\<And>d d'. D d \<Longrightarrow> st d' = st d \<Longrightarrow> lg d' = lg d \<Longrightarrow> D d'"
  shows "ok (apply_config compiles c g)"
proof -
  have "ok (on_db (set_registration_vouch a \<circ> set_confusable_check b \<circ> set_notify_exclude ms) h)" if "ok h" for a b ms h
    using that by (rule ok_on_db)
      (erule same, simp_all add: set_registration_vouch_def set_confusable_check_def set_notify_exclude_def)
  then show ?thesis
    using g by (simp add: apply_config_def Let_def ok_set_opers split: option.split)
qed

lemma ok_timers:
  assumes g: "ok g"
  shows "enumerates ks (network.w_stats (g_network g)) \<Longrightarrow> ok (engine_persist_stats ks kc kt g)"
    "ok (engine_persist_incidents g)"
    "chanfix_walk ko ki kc (g_network g) \<Longrightarrow> ok (chanfix_tick kc ko ki g)"
proof -
  show "ok (engine_persist_stats ks kc kt g)" if "enumerates ks (network.w_stats (g_network g))"
    unfolding engine_persist_stats_def Let_def using g that
    by (simp add: ok_on_db network [OF _ network_step.intros(9)])
  show "ok (engine_persist_incidents g)"
    unfolding engine_persist_incidents_def incidents_snapshot_def Let_def using g
    by (simp add: ok_on_db network [OF _ network_step.intros(10)])
  show "ok (chanfix_tick kc ko ki g)" if "chanfix_walk ko ki kc (g_network g)"
    unfolding chanfix_tick_def using g that by (intro ok_on_network) (auto intro: view net_step.ChanFix)
qed

end

subsection \<open>The life of the engine\<close>

text \<open>Everything the process asks of the engine, one request at a time (it is behind one lock): \<^verbatim>\<open>link\<close>
  brings the uplink up and hands over its events, other threads return derived credentials and verified
  passwords, the gRPC interface speaks for the account authority, peers push entries, timers fire and
  operators reload the configuration.\<close>

datatype duty =
  LinkUp
| Happens net_event
| AskRegister string reg_reply_to
| Registered string "credentials option" "string option" reg_reply_to
| PasswordChanged string "credentials option" string string
| Authenticated bool auth_then
| Provision string string string "string option"
| RemoteRegister string "credentials option" "string option"
| RemoteAuth string bool
| RemotePassword string "credentials option"
| RemoteEmail string "string option"
| RemoteConfirm string string
| RemoteDrop string
| RemoteLogout string
| RemoteGroup string string
| RemoteUngroup string
| Peer log_entry
| EnforceTimer
| ExpireTimer
| StatsTimer "string list" "string list" "string \<Rightarrow> string list"
| IncidentTimer
| ChanfixTimer "string list" "string \<Rightarrow> string list" "string \<Rightarrow> string list"
| Boot "string \<Rightarrow> bool" config
| Reload "string \<Rightarrow> bool" "string + config" string string string

fun perform :: "env \<Rightarrow> modules \<Rightarrow> duty \<Rightarrow> engine \<Rightarrow> engine" where
  "perform v md LinkUp g = snd (startup_actions v g)"
| "perform v md (Happens e) g = snd (handle v md e g)"
| "perform v md (AskRegister acct to) g = snd (pre_register_check v acct to g)"
| "perform v md (Registered acct creds email to) g = snd (complete_register v acct creds email to g)"
| "perform v md (PasswordChanged acct creds agt uid) g = snd (complete_password_change acct creds agt uid g)"
| "perform v md (Authenticated success how) g = snd (complete_authenticate v success how g)"
| "perform v md (Provision name s256 s512 email) g = snd (authority_provision v name s256 s512 email g)"
| "perform v md (RemoteRegister name creds email) g = snd (authority_register v name creds email g)"
| "perform v md (RemoteAuth name success) g = authority_note_auth v name success g"
| "perform v md (RemotePassword acct creds) g = snd (authority_set_password acct creds g)"
| "perform v md (RemoteEmail acct email) g = snd (authority_set_email acct email g)"
| "perform v md (RemoteConfirm acct given) g = snd (authority_confirm v acct given g)"
| "perform v md (RemoteDrop acct) g = snd (authority_drop v acct g)"
| "perform v md (RemoteLogout acct) g = snd (authority_force_logout v acct g)"
| "perform v md (RemoteGroup nick acct) g = snd (authority_group_nick v nick acct g)"
| "perform v md (RemoteUngroup nick) g = snd (authority_ungroup_nick nick g)"
| "perform v md (Peer e) g = snd (gossip_ingest v e g)"
| "perform v md EnforceTimer g = enforce_sweep v g"
| "perform v md ExpireTimer g = expire_sweep v g"
| "perform v md (StatsTimer ks kc kt) g = engine_persist_stats ks kc kt g"
| "perform v md IncidentTimer g = engine_persist_incidents g"
| "perform v md (ChanfixTimer kc ko ki) g = chanfix_tick kc ko ki g"
| "perform v md (Boot compiles c) g = boot_config compiles c g"
| "perform v md (Reload compiles parsed path requester agent) g = snd (rehash compiles parsed path requester agent g)"

text \<open>What the surroundings keep: clients connect under free uids, a derived password has both
  verifiers, peers send entries of other origins, and hash maps are walked completely.\<close>

fun permitted :: "duty \<Rightarrow> engine \<Rightarrow> bool" where
  "permitted (Happens e) g = fresh_event e g"
| "permitted (PasswordChanged acct creds agt uid) g = derived creds"
| "permitted (RemotePassword acct creds) g = derived creds"
| "permitted (Peer e) g = foreign e (lg (g_db g))"
| "permitted (StatsTimer ks kc kt) g = enumerates ks (network.w_stats (g_network g))"
| "permitted (ChanfixTimer kc ko ki) g = chanfix_walk ko ki kc (g_network g)"
| "permitted _ g = True"

text \<open>The service modules reach the store only through the operations of the database.\<close>

definition store_step :: "db \<Rightarrow> db \<Rightarrow> bool" where
  "store_step d d' \<longleftrightarrow> account_step d d' \<or> channel_step d d' \<or> network_step d d' \<or> online_step d d'"

definition services_step :: "modules \<Rightarrow> bool" where
  "services_step md \<longleftrightarrow> (\<forall>svc sd msgid args w d. store_step\<^sup>*\<^sup>* d (snd (md_command md svc sd msgid args w d)))"

inductive engine_run :: "modules \<Rightarrow> string \<Rightarrow> engine \<Rightarrow> bool" for md :: modules and own :: string where
  Start: "db_run own d \<Longrightarrow> writable (lg d) \<Longrightarrow> net_ok (g_network (engine_new services d)) \<Longrightarrow>
    engine_run md own (engine_new services d)"
| Duty: "engine_run md own g \<Longrightarrow> orders_ok v \<Longrightarrow> permitted dt g \<Longrightarrow> engine_run md own (perform v md dt g)"
| Restart: "engine_run md own g \<Longrightarrow> d = db_open (l_disk (lg (g_db g))) own \<Longrightarrow>
    net_ok (g_network (engine_new services d)) \<Longrightarrow> engine_run md own (engine_new services d)"

definition store_sound :: "string \<Rightarrow> db \<Rightarrow> bool" where
  "store_sound own d \<longleftrightarrow> good_own own (st d) (lg d) \<and> writable (lg d)"

lemma store_sound_kept: "store_sound own = owned_live.kept own"
  by (rule ext) (simp add: store_sound_def owned_live.kept_def)

lemma store_sound_step: "store_sound own d \<Longrightarrow> store_step d d' \<Longrightarrow> store_sound own d'"
  unfolding store_sound_kept store_step_def
  using owned_live.kept_account_step owned_live.kept_channel_step owned_live.kept_network_step
    owned_live.kept_online_step by blast

interpretation served: engine_contract "store_sound own" net_ok sasl_bounded for own
proof unfold_locales
  fix d d' assume d: "store_sound own d"
  show "store_sound own d'" if "account_step d d'" using d that store_sound_step by (simp add: store_step_def)
  show "store_sound own d'" if "channel_step d d'" using d that store_sound_step by (simp add: store_step_def)
  show "store_sound own d'" if "network_step d d'" using d that store_sound_step by (simp add: store_step_def)
  show "store_sound own d'" if "online_step d d'" using d that store_sound_step by (simp add: store_step_def)
next
  fix d e now assume "store_sound own d" "foreign e (lg d)"
  then show "store_sound own (snd (db_ingest now e d))"
    unfolding store_sound_kept by (rule owned_live.kept_db_ingest)
next
  fix w w' assume "net_ok w" "net_step w w'"
  then show "net_ok w'" by (rule net_step_ok [rotated])
next
  fix w assume "net_ok w"
  then show "finite (dom (w_seen w))" by (simp add: net_ok_def seen_ok_def)
qed (erule sasl_bounded_shrink sasl_bounded_step; assumption?)+

lemma services_step_keep: "services_step md \<Longrightarrow> served.services_keep own md"
  unfolding served.services_keep_def services_step_def
proof (intro allI impI)
  fix svc sd msgid args w d
  assume "\<forall>svc sd msgid args w d. store_step\<^sup>*\<^sup>* d (snd (md_command md svc sd msgid args w d))"
  then have "store_step\<^sup>*\<^sup>* d (snd (md_command md svc sd msgid args w d))" by blast
  then show "store_sound own d \<Longrightarrow> store_sound own (snd (md_command md svc sd msgid args w d))"
    by (induction rule: rtranclp_induct) (auto intro: store_sound_step)
qed

lemma served_new: "store_sound own d \<Longrightarrow> net_ok (g_network (engine_new services d)) \<Longrightarrow> served.ok own (engine_new services d)"
  by (simp add: served.ok_def engine_new_def sasl_bounded_def)

lemma served_perform:
  assumes "services_step md" "orders_ok v" "permitted dt g" "served.ok own g"
  shows "served.ok own (perform v md dt g)"
proof (cases dt)
  case (Reload compiles parsed path requester agent)
  have "served.ok own (apply_config compiles c g)" for c
    by (rule served.ok_apply_config [OF assms(4)]) (simp add: store_sound_def)
  then show ?thesis
    using assms(4) by (simp add: Reload rehash_def Let_def split: sum.split)
next
  case (Happens e)
  with assms services_step_keep show ?thesis by (auto intro: served.ok_handle)
qed (use assms in \<open>simp_all add: served.ok_startup served.ok_pre_register_check served.ok_complete_register
      served.ok_set_password served.ok_complete_authenticate served.ok_authority served.ok_gossip_ingest
      served.ok_enforce_sweep served.ok_expire_sweep served.ok_timers served.ok_boot_config\<close>)

lemma writable_log_open: "writable (log_open es own)"
proof -
  have "l_readonly (fold (\<lambda>e l. (absorb e l)\<lparr>l_entries := l_entries l @ [e]\<rparr>) es l0) = l_readonly l0" for l0
    by (induction es arbitrary: l0) (auto simp: absorb_def Let_def)
  then have "\<not> l_readonly (log_open es own)" by (simp add: log_open_def log_empty_def)
  then show ?thesis by (simp add: writable_def log_open_io)
qed

lemma store_sound_reopened:
  assumes "store_sound own d"
  shows "st (db_open (l_disk (lg d)) own) = st d" "store_sound own (db_open (l_disk (lg d)) own)"
proof -
  have g: "log_ok (lg d)" "l_origin (lg d) = own" "st d = replay (log_events (lg d)) store_empty"
    using assms by (simp_all add: store_sound_def good_own_def good_def in_step_replay)
  from reopened_events [OF g(1)] g(2,3) show "st (db_open (l_disk (lg d)) own) = st d"
    by (simp add: db_open_def Let_def)
  have "log_ok (log_open (l_disk (lg d)) own)" using reopen_recovers_log_aux [OF g(1)] g(2) by auto
  then have "good_own own (st (db_open (l_disk (lg d)) own)) (lg (db_open (l_disk (lg d)) own))"
    using good_db_open log_open_io(2) [of "l_disk (lg d)" own] by (simp add: good_own_def db_open_def Let_def)
  moreover have "writable (lg (db_open (l_disk (lg d)) own))"
    by (simp add: db_open_def Let_def writable_log_open)
  ultimately show "store_sound own (db_open (l_disk (lg d)) own)" by (simp add: store_sound_def)
qed

lemma engine_run_ok:
  assumes "services_step md" "engine_run md own g"
  shows "served.ok own g"
  using assms(2)
proof (induction rule: engine_run.induct)
  case (Start d services)
  then have "store_sound own d" using db_run_good by (simp add: store_sound_def)
  with Start show ?case by (simp add: served_new)
next
  case (Duty g v dt)
  with assms(1) show ?case by (simp add: served_perform)
next
  case (Restart g d services)
  then have "store_sound own d" using store_sound_reopened(2) by (simp add: served.ok_def)
  from this Restart(3) show ?case by (rule served_new)
qed

end
