(* ===== verification/EngineProps.thy ===== *)
theory EngineProps
  imports Example EngineRun
begin

text \<open>
  What holds of the engine at every moment of its life, whatever the uplink, the peers, the operators and
  the website ask of it, and the example run the properties are shown on.
\<close>

subsection \<open>Every moment\<close>



subsection \<open>A run\<close>

definition quiet_modules :: modules where
  "quiet_modules = \<lparr>md_command = (\<lambda>svc sd msgid args w d. (no_result, d)), md_version = ''echo'',
     md_verdict = (\<lambda>_. CmdAllow), md_dict_token = (\<lambda>_. True)\<rparr>"

definition young_engine :: engine where
  "young_engine = engine_new [] (db_open [] ''n1'')"

lemma plain_orders: "orders_ok plain_env"
  by (simp add: orders_ok_def plain_env_def)

lemma quiet_services: "services_step quiet_modules"
  by (simp add: services_step_def quiet_modules_def)

lemma young_run: "engine_run quiet_modules ''n1'' young_engine"
  unfolding young_engine_def
proof (rule engine_run.Start [OF db_run.start])
  show "writable (lg (db_open [] ''n1''))" by (simp add: db_open_def Let_def writable_log_open)
  show "net_ok (g_network (engine_new [] (db_open [] ''n1'')))"
    by (simp add: engine_new_def db_open_def Let_def log_open_def log_empty_def log_events_def replay_def store_empty_def
        net_default_def seed_incidents_def seed_chan_activity_def seed_stats_def net_ok_def names_ok_def sessions_ok_def
        seen_ok_def incidents_ok_def chanfix_ok_def network_empty_def folded_def session_count_def on_ip_def)
qed

definition busy_engine :: engine where
  "busy_engine = perform plain_env quiet_modules
     (RemoteRegister ''bob'' (Some \<lparr>cr_scram256 = ''a'', cr_scram512 = ''b''\<rparr>) None) young_engine"

lemma busy_run: "engine_run quiet_modules ''n1'' busy_engine"
  unfolding busy_engine_def by (rule engine_run.Duty [OF young_run plain_orders]) simp

lemma busy_account: "accounts (st (g_db busy_engine)) ''bob'' \<noteq> None"
  by (simp add: busy_engine_def young_engine_def engine_new_def authority_register_def email_ok_def in_db_def
      register_prepared_def exists_account_def resolved_key_def insert_account_def logged_writable writable_log_open
      on_store_def registrations_frozen_def db_open_def Let_def key_def ascii_simps store_empty_def replay_def
      log_events_def log_open_def log_empty_def writable_def)



end
