(* ===== verification/RegisterProps.thy ===== *)
theory RegisterProps
  imports Register Example SessionProps
begin

text \<open>
  What the registration flow promises: an existing account survives every attempt to register over it,
  and an account registered with an e-mail address is verified by exactly the code that was mailed.
\<close>

subsection \<open>What a step leaves of an account\<close>

text \<open>The stamps of activity may move; nothing else of an account does.\<close>

definition touched :: "account \<Rightarrow> account \<Rightarrow> bool" where
  "touched a b \<longleftrightarrow> b = a\<lparr>a_last_seen := a_last_seen b, a_expiry_warned := a_expiry_warned b\<rparr>"

lemma touched_refl [simp]: "touched a a"
  by (simp add: touched_def)

lemma touched_trans: "touched a b \<Longrightarrow> touched b c \<Longrightarrow> touched a c"
  by (cases a; cases b; cases c) (simp add: touched_def)

lemma touched_seen: "touched b (b\<lparr>a_last_seen := x, a_expiry_warned := y\<rparr>)"
  by (simp add: touched_def)

definition held :: "string \<Rightarrow> account \<Rightarrow> db \<Rightarrow> bool" where
  "held k a d \<longleftrightarrow> (\<exists>b. accounts (st d) k = Some b \<and> touched a b)"

lemma held_seen:
  assumes "held k a d"
  shows "held k a (mark_account_seen acct now d)"
proof -
  from assms obtain b where b: "accounts (st d) k = Some b" "touched a b" by (auto simp: held_def)
  show ?thesis
    using b touched_trans [OF b(2) touched_seen]
    by (auto simp: held_def mark_account_seen_def Let_def on_account_def on_store_def modify_apply split: option.split)
qed

lemma seen_frame [simp]:
  "codes (mark_account_seen acct now d) = codes d"
  "registration_vouch (mark_account_seen acct now d) = registration_vouch d"
  by (simp_all add: mark_account_seen_def Let_def on_account_def on_store_def logged_ignore_def)

lemma writable_seen: "writable (lg d) \<Longrightarrow> writable (lg (mark_account_seen acct now d))"
  by (simp add: mark_account_seen_def Let_def on_account_def on_store_def appended)

lemma track_account_db: "\<exists>acct. g_db (track_account v x g) \<in> {g_db g, mark_account_seen acct (ev_now v) (g_db g)}"
  by (auto simp: track_account_def Let_def no_longer_pending_def on_network_def on_db_def
      split: net_action.split link_action.split)

lemma track_accounts_db:
  assumes "P (g_db g)" "\<And>acct d. P d \<Longrightarrow> P (mark_account_seen acct (ev_now v) d)"
  shows "P (g_db (track_accounts v acts g))"
  using assms(1)
proof (induction acts arbitrary: g)
  case (Cons x acts)
  then have "P (g_db (track_account v x g))" using track_account_db [of v x g] assms(2) by auto
  with Cons.IH show ?case by (simp add: track_accounts_def)
qed (simp add: track_accounts_def)

subsection \<open>Entering an account\<close>

lemma register_prepared_Inr:
  assumes "register_prepared now name cr email d = (Inr u, d')"
  shows "accounts (st d) (key name) = None"
    and "\<exists>a. st d' = (st d)\<lparr>accounts := (accounts (st d))(key name \<mapsto> a)\<rparr> \<and>
      a_verified a = (\<not> (registration_vouch d \<or> email_enabled d \<and> email \<noteq> None))"
  using assms
  by (auto simp: register_prepared_def exists_account_def resolved_key_def insert_account_def logged_def on_store_def
      Let_def new_account_def split: if_splits prod.splits sum.splits)

lemma register_prepared_Inl: "register_prepared now name cr email d = (Inl e, d') \<Longrightarrow> st d' = st d"
  by (auto simp: register_prepared_def insert_account_def logged_def on_store_def Let_def
      split: if_splits prod.splits sum.splits)

lemma held_register:
  assumes "held k a d"
  shows "held k a (snd (register_prepared now name cr email d))"
    and "fst (register_prepared now name cr email d) = Inr u \<Longrightarrow> k \<noteq> key name"
proof -
  obtain r d' where e: "register_prepared now name cr email d = (r, d')" by force
  show "held k a (snd (register_prepared now name cr email d))"
  proof (cases r)
    case (Inl x)
    with e register_prepared_Inl have "st d' = st d" by blast
    with e assms show ?thesis by (simp add: held_def)
  next
    case (Inr u)
    with e register_prepared_Inr [of now name cr email d u d'] obtain a' where
      "accounts (st d) (key name) = None" "st d' = (st d)\<lparr>accounts := (accounts (st d))(key name \<mapsto> a')\<rparr>" by blast
    with e assms show ?thesis by (cases "k = key name") (simp_all add: held_def)
  qed
  show "k \<noteq> key name" if "fst (register_prepared now name cr email d) = Inr u"
    using that e register_prepared_Inr(1) [of now name cr email d u d'] assms by (auto simp: held_def)
qed

lemma held_verify: "held k a d \<Longrightarrow> k \<noteq> key acct \<Longrightarrow> held k a (snd (verify_account acct d))"
  by (auto simp: held_def verify_account_def account_set_def logged_def on_account_def on_store_def modify_apply
      split: prod.split sum.split)

lemma held_commit: "held k a (g_db g) \<Longrightarrow> held k a (g_db (snd (commit_registration v acct cr email to g)))"
proof -
  assume h: "held k a (g_db g)"
  note reg = held_register [OF h, of "ev_now v" acct cr email]
  show ?thesis
    using reg held_verify [OF reg(1)]
    by (auto simp: commit_registration_def in_db_def on_db_def Let_def split: prod.splits sum.splits reg_error.splits
        reg_reply_to.splits)
qed

lemma held_confirm_mail: "held k a (g_db g) \<Longrightarrow> held k a (g_db (snd (confirm_mail v acct addr g)))"
  by (simp add: confirm_mail_def in_db_def issue_code_def held_def)

lemma held_ask: "held k a (g_db g) \<Longrightarrow> held k a (g_db (snd (ask_confirmation v acct email to g)))"
  by (simp add: ask_confirmation_def and_also_def case_prod_beta Let_def say_def held_confirm_mail split: option.split)

text \<open>C30. No registration, from the uplink, from NickServ, by an administrator or by the website,
  overwrites an account that exists: whatever name, credentials and e-mail address it carries, every
  account there was is still there, with its name, credentials, address, verification, suspension, memos
  and settings as they were; only the stamps of its last activity may have moved.\<close>

theorem registration_spares_accounts:
  assumes "accounts (st (g_db g)) k = Some a"
  shows "held k a (g_db (snd (complete_register v acct creds email to g))) \<and>
    held k a (g_db (snd (authority_register v acct creds email g)))"
proof
  have h: "held k a (g_db g)" using assms by (simp add: held_def)
  show "held k a (g_db (snd (complete_register v acct creds email to g)))"
    using h by (auto simp: complete_register_def case_prod_beta Let_def and_also_def say_def
        intro!: held_ask track_accounts_db [where P = "held k a"] held_seen held_commit split: option.split)
  show "held k a (g_db (snd (authority_register v acct creds email g)))"
    using h by (auto simp: authority_register_def case_prod_beta Let_def in_db_def held_register(1) emitting_def
        emit_all_frame(1) [unfolded emit_all_def] held_confirm_mail split: option.split)
qed

subsection \<open>The mailed code\<close>

definition awaiting :: "string \<Rightarrow> db \<Rightarrow> bool" where
  "awaiting k d \<longleftrightarrow> (\<exists>a. accounts (st d) k = Some a \<and> \<not> a_verified a) \<and> writable (lg d) \<and> \<not> registration_vouch d"

lemma touched_verified: "touched a b \<Longrightarrow> a_verified b = a_verified a"
  unfolding touched_def by (drule arg_cong [where f = a_verified]) simp

lemma awaiting_seen:
  assumes "awaiting k d"
  shows "awaiting k (mark_account_seen acct now d)"
proof -
  from assms obtain a where a: "accounts (st d) k = Some a" "\<not> a_verified a" by (auto simp: awaiting_def)
  have "held k a (mark_account_seen acct now d)" by (rule held_seen) (simp add: held_def a(1))
  with a(2) assms show ?thesis by (auto simp: held_def awaiting_def writable_seen dest: touched_verified)
qed

lemma committed_awaiting:
  assumes d: "writable (lg (g_db g))" "email_enabled (g_db g)" "\<not> registration_vouch (g_db g)"
    and free: "\<not> exists_account (g_db g) acct" and to: "\<And>agent uid. to \<noteq> ToAdmin agent uid"
  shows "\<exists>g1. commit_registration v acct cr (Some addr) to g = (VerifyRequired, g1) \<and> awaiting (key acct) (g_db g1)"
proof -
  let ?r = "register_prepared (ev_now v) acct cr (Some addr) (g_db g)"
  have e: "\<exists>d'. ?r = (Inr (), d') \<and> awaiting (key acct) d'"
    using free d by (simp add: register_prepared_def insert_account_def logged_writable on_store_def awaiting_def
        new_account_def appended Let_def)
  then obtain d' where "?r = (Inr (), d')" "awaiting (key acct) d'" by blast
  with to show ?thesis
    by (auto simp: commit_registration_def in_db_def is_verified_def account_of_def awaiting_def split: reg_reply_to.split)
qed

lemma confirm_with_code:
  assumes "awaiting (key acct) d"
  shows "let right = (given = ev_code v \<and> ev_instant w < ev_instant v + 900 * nanos);
             (status, g2) = authority_confirm w acct given (g\<lparr>g_db := snd (issue_code (ev_code v) (ev_instant v) acct Confirm d)\<rparr>)
         in status = (if right then AuthOk else AuthInvalid) \<and> is_verified (g_db g2) acct = right"
proof -
  from assms obtain a where a: "accounts (st d) (key acct) = Some a" "\<not> a_verified a" "writable (lg d)"
    by (auto simp: awaiting_def)
  then show ?thesis
    by (auto simp: authority_confirm_def exists_account_def resolved_key_def is_verified_def account_of_def in_db_def
        issue_code_def take_code_def Let_def verify_account_def account_set_def logged_writable on_account_def on_store_def
        modify_apply)
qed

text \<open>C31. An account registered with an e-mail address starts unverified, the confirmation code goes to
  that address, and exactly that code, within fifteen minutes, verifies the account; any other code, or
  the right one too late, is refused and leaves it unverified.\<close>

theorem mailed_code_verifies:
  assumes "writable (lg (g_db g))" "email_enabled (g_db g)" "\<not> registration_vouch (g_db g)"
    and "\<not> exists_account (g_db g) acct" "is_forbidden (g_db g) ForbidEmail addr = None"
    and "\<And>agent uid. to \<noteq> ToAdmin agent uid"
  shows "let (out, g1) = complete_register v acct (Some cr) (Some addr) to g;
             right = (given = ev_code v \<and> ev_instant w < ev_instant v + 900 * nanos);
             (status, g2) = authority_confirm w acct given g1
         in Deferred (SendEmail addr (Msg ''confirm your account'' [acct, ev_code v])) \<in> set out \<and>
            \<not> is_verified (g_db g1) acct \<and>
            status = (if right then AuthOk else AuthInvalid) \<and> is_verified (g_db g2) acct = right"
proof -
  obtain g1 where g1: "commit_registration v acct cr (Some addr) to g = (VerifyRequired, g1)" "awaiting (key acct) (g_db g1)"
    using committed_awaiting [OF assms(1-4,6)] by blast
  define g2 where "g2 = track_accounts v (reg_reply to VerifyRequired acct) g1"
  have w: "awaiting (key acct) (g_db g2)"
    unfolding g2_def using g1(2) by (intro track_accounts_db [where P = "awaiting (key acct)"] awaiting_seen)
  then have "\<not> registration_vouch (g_db g2)" by (simp add: awaiting_def)
  then have "complete_register v acct (Some cr) (Some addr) to g =
      (reg_reply to VerifyRequired acct @
         [Deferred (SendEmail addr (Msg ''confirm your account'' [acct, ev_code v]))] @
         tell_registrant to (Msg ''confirmation code emailed'' []),
       g2\<lparr>g_db := snd (issue_code (ev_code v) (ev_instant v) acct Confirm (g_db g2))\<rparr>)"
    using g1(1) assms(5)
    by (simp add: complete_register_def email_ok_def g2_def and_also_def say_def ask_confirmation_def confirm_mail_def
        in_db_def issue_code_def Let_def)
  moreover have "\<not> is_verified (snd (issue_code (ev_code v) (ev_instant v) acct Confirm (g_db g2))) acct"
    using w by (auto simp: is_verified_def account_of_def issue_code_def awaiting_def)
  ultimately show ?thesis
    using confirm_with_code [OF w, of given v w g2] by (simp add: case_prod_beta Let_def)
qed

subsection \<open>A network with mail\<close>

definition mail_engine :: engine where
  "mail_engine = engine_new [] ((db_open [] ''n1'')\<lparr>email_enabled := True,
     st := store_empty\<lparr>accounts := [''bob'' \<mapsto> example_account]\<rparr>\<rparr>)"

lemma mail_engine_facts:
  "accounts (st (g_db mail_engine)) ''bob'' = Some example_account" "writable (lg (g_db mail_engine))"
  "email_enabled (g_db mail_engine)" "\<not> registration_vouch (g_db mail_engine)"
  "\<not> exists_account (g_db mail_engine) ''al''" "is_forbidden (g_db mail_engine) ForbidEmail ''al@x.org'' = None"
  by (simp_all add: mail_engine_def engine_new_def db_open_def Let_def writable_def log_open_def log_empty_def
      exists_account_def resolved_key_def key_def ascii_simps store_empty_def is_forbidden_def net_default_def)

theorem registration_spares_accounts_witness:
  "held ''bob'' example_account (g_db (snd (authority_register plain_env ''Bob''
     (Some \<lparr>cr_scram256 = ''a'', cr_scram512 = ''b''\<rparr>) None mail_engine)))"
  using registration_spares_accounts [OF mail_engine_facts(1)] by (rule conjunct2)

theorem mailed_code_verifies_witness:
  "\<not> is_verified (g_db (snd (complete_register plain_env ''al'' (Some \<lparr>cr_scram256 = ''a'', cr_scram512 = ''b''\<rparr>)
      (Some ''al@x.org'') (ToNickServ ''9NS'' ''u1'' ''al'') mail_engine))) ''al'' \<and>
   fst (authority_confirm plain_env ''al'' ''123456'' (snd (complete_register plain_env ''al''
      (Some \<lparr>cr_scram256 = ''a'', cr_scram512 = ''b''\<rparr>) (Some ''al@x.org'') (ToNickServ ''9NS'' ''u1'' ''al'') mail_engine))) = AuthOk"
  using mailed_code_verifies [OF mail_engine_facts(2-6), where to = "ToNickServ ''9NS'' ''u1'' ''al''" and v = plain_env and
      w = plain_env and given = "''123456''" and cr = "\<lparr>cr_scram256 = ''a'', cr_scram512 = ''b''\<rparr>"]
  by (simp add: case_prod_beta Let_def plain_env_def nanos_def)

end
