(* ===== verification/FeedProps.thy ===== *)
theory FeedProps
  imports StaffFeed SessionProps
begin

text \<open>
  What the staff can learn from the audit feed: two logs that differ only in credentials, addresses,
  keys, notes and private settings give the same lines.
\<close>

subsection \<open>The public part of an event\<close>

text \<open>\<open>blank x\<close> tells only whether a field is there.\<close>

definition blank :: "string option \<Rightarrow> string option" where
  "blank x = map_option (\<lambda>_. []) x"

definition private_event :: event where
  "private_event = AccountEvent (AccountSeen [] 0)"

fun public_account :: "account_event \<Rightarrow> event" where
  "public_account (AccountRegistered a) = AccountEvent (AccountRegistered (new_account (a_name a) None 0 [] [] None False))"
| "public_account (AccountVerified acct) = AccountEvent (AccountVerified acct)"
| "public_account (AccountPasswordSet acct s256 s512) = AccountEvent (AccountPasswordSet acct [] [])"
| "public_account (AccountEmailSet acct email) = AccountEvent (AccountEmailSet acct (blank email))"
| "public_account (AccountPubkeySet acct pubkey) = AccountEvent (AccountPubkeySet acct (blank pubkey))"
| "public_account (AccountOperNoteSet acct note) = AccountEvent (AccountOperNoteSet acct (blank note))"
| "public_account (AccountSwhoisSet acct line) = AccountEvent (AccountSwhoisSet acct line)"
| "public_account (CertAdded acct fp) = AccountEvent (CertAdded acct fp)"
| "public_account (CertRemoved acct fp) = AccountEvent (CertRemoved acct fp)"
| "public_account (AccountSuspended acct who reason ts expires) = AccountEvent (AccountSuspended acct [] reason 0 None)"
| "public_account (AccountUnsuspended acct) = AccountEvent (AccountUnsuspended acct)"
| "public_account (VhostSet acct host setter ts expires) = AccountEvent (VhostSet acct host [] 0 (map_option (\<lambda>_. 0) expires))"
| "public_account (VhostDeleted acct) = AccountEvent (VhostDeleted acct)"
| "public_account (AccountNoExpire acct on) = AccountEvent (AccountNoExpire acct on)"
| "public_account _ = private_event"

text \<open>Of the other events nothing but staff notes, bulletins and settings is hidden.\<close>

fun public_part :: "event \<Rightarrow> event" where
  "public_part (AccountEvent e) = public_account e"
| "public_part (ChannelEvent e) =
     (case e of
        ChannelOperNoteSet chan note \<Rightarrow> ChannelEvent (ChannelOperNoteSet chan (blank note))
      | _ \<Rightarrow> if audit_channel e = None then private_event else ChannelEvent e)"
| "public_part (NetEvent e) =
     (case e of
        NewsAdded i kind txt setter ts \<Rightarrow> NetEvent (NewsAdded 0 kind [] [] 0)
      | _ \<Rightarrow> if audit_net e = None then private_event else NetEvent e)"
| "public_part e = e"

lemma summary_public: "audit_summary (public_part e) = audit_summary e"
proof (cases e)
  case (AccountEvent a)
  then show ?thesis
    by (cases a) (simp_all add: private_event_def set_or_cleared_def blank_def if_temporary_def new_account_def)
next
  case (ChannelEvent c)
  then show ?thesis by (cases c) (simp_all add: private_event_def set_or_cleared_def blank_def)
next
  case (NetEvent n)
  then show ?thesis by (cases n) (simp_all add: private_event_def)
qed simp_all

lemma category_public: "audit_summary e \<noteq> None \<Longrightarrow> event_category (public_part e) = event_category e"
proof (cases e)
  case (AccountEvent a)
  assume "audit_summary e \<noteq> None"
  with AccountEvent show ?thesis by (cases a) simp_all
next
  case (ChannelEvent c)
  assume "audit_summary e \<noteq> None"
  with ChannelEvent show ?thesis by (cases c) simp_all
next
  case (NetEvent n)
  assume "audit_summary e \<noteq> None"
  with NetEvent show ?thesis by (cases n) simp_all
qed simp_all

definition tagged_summary :: "event \<Rightarrow> (string \<times> message) option" where
  "tagged_summary e = map_option (Pair (event_category e)) (audit_summary e)"

lemma tagged_public: "tagged_summary (public_part e) = tagged_summary e"
  using category_public [of e] by (cases "audit_summary e") (simp_all add: tagged_summary_def summary_public)

subsection \<open>Two logs the staff cannot tell apart\<close>

definition with_log :: "event_log \<Rightarrow> engine \<Rightarrow> engine" where
  "with_log l g = g\<lparr>g_db := (g_db g)\<lparr>lg := l\<rparr>\<rparr>"

lemma with_log_simps [simp]:
  "g_network (with_log l g) = g_network g" "lg (g_db (with_log l g)) = l" "with_log l (with_log l' g) = with_log l g"
  by (simp_all add: with_log_def)

lemma audit_one_log:
  "audit_one v actor x (with_log l g) = (fst (audit_one v actor x g), with_log l (snd (audit_one v actor x g)))"
  by (simp add: audit_one_def record_text_def feed_or_notice_def server_notice_def feed_def with_log_def Let_def
      case_prod_beta split: option.split message.split)

lemma each_audit_log:
  "each (audit_one v actor) xs (with_log l g) =
     (fst (each (audit_one v actor) xs g), with_log l (snd (each (audit_one v actor) xs g)))"
  by (induction xs arbitrary: g) (simp_all add: and_also_def audit_one_log case_prod_beta Let_def)

lemma tagged_events:
  "map public_part es = map public_part es' \<Longrightarrow>
   List.map_filter tagged_summary es = List.map_filter tagged_summary es'"
proof (induction es arbitrary: es')
  case (Cons e es)
  then obtain e' es2 where "es' = e' # es2" "public_part e = public_part e'" "map public_part es = map public_part es2"
    by (cases es') auto
  moreover from Cons.IH [OF this(3)] have "List.map_filter tagged_summary es = List.map_filter tagged_summary es2" .
  ultimately show ?case
    using tagged_public [of e] tagged_public [of e'] by (simp add: List.map_filter_simps split: option.split)
qed simp

lemma audit_feed_with_log:
  "audit_feed v mark nick acct (with_log l g) =
     (let r = each (audit_one v (audit_actor nick acct)) (List.map_filter tagged_summary (events_from mark l)) g
      in (fst r, with_log l (snd r)))"
  by (simp add: audit_feed_def tagged_summary_def [abs_def] each_audit_log Let_def)


definition secret_log :: "string \<Rightarrow> event_log" where
  "secret_log verifier = (log_empty ''n1'')\<lparr>l_entries := [\<lparr>le_origin = ''n1'', le_seq = 1, le_lamport = 1, le_epoch = 0,
     le_sig = None, le_event = AccountEvent (AccountPasswordSet ''al'' verifier verifier)\<rparr>]\<rparr>"


end
