(* ===== verification/Wire.thy ===== *)
theory Wire
  imports Dispatch
begin

text \<open>
  The InspIRCd link protocol (src/modules/protocol/inspircd/src/lib.rs): what the lines of the uplink mean
  to the engine (\<^verbatim>\<open>parse\<close>) and how its actions are written (\<^verbatim>\<open>serialize\<close>). The state is that of the struct
  \<^verbatim>\<open>InspIrcd\<close>: the credentials of the link, the counter of memberships, and what the uplink said of its
  modes and modules. The words of a message for people are an argument, \<open>words\<close>, and so is the clock.
\<close>

subsection \<open>State\<close>

record protocol =
  pr_sid :: string
  pr_name :: string
  pr_description :: string
  pr_password :: string
  pr_protocol :: nat
  pr_ts :: nat
  pr_service_modes :: string
  pr_membid :: nat
  pr_chanmodes :: "char \<rightharpoonup> chan_mode_cap"
  pr_ctctags :: bool

definition protocol_new :: "string \<Rightarrow> string \<Rightarrow> string \<Rightarrow> string \<Rightarrow> nat \<Rightarrow> nat \<Rightarrow> string \<Rightarrow> protocol" where
  "protocol_new name description sid password version ts service_modes =
     \<lparr>pr_sid = sid, pr_name = name, pr_description = description, pr_password = password, pr_protocol = version,
      pr_ts = ts, pr_service_modes = service_modes, pr_membid = 0, pr_chanmodes = Map.empty, pr_ctctags = False\<rparr>"

definition sourced :: "protocol \<Rightarrow> string \<Rightarrow> string" where
  "sourced p cmd = '':'' @ pr_sid p @ '' '' @ cmd"

definition handshake :: "protocol \<Rightarrow> string list" where
  "handshake p =
     [''CAPAB START '' @ show_nat (pr_protocol p), ''CAPAB CAPABILITIES :PROTOCOL='' @ show_nat (pr_protocol p),
      ''CAPAB END'',
      ''SERVER '' @ pr_name p @ '' '' @ pr_password p @ '' '' @ pr_sid p @ '' :'' @ pr_description p]"

subsection \<open>Words of a line\<close>

text \<open>\<^verbatim>\<open>split_once\<close> at a string: what comes before its first occurrence and after it.\<close>

fun split_sub :: "string \<Rightarrow> string \<Rightarrow> (string \<times> string) option" where
  "split_sub w [] = (if w = [] then Some ([], []) else None)"
| "split_sub w (c # s) =
     (if starts_with w (c # s) then Some ([], drop (length w) (c # s))
      else map_option (apfst (Cons c)) (split_sub w s))"

definition field :: "string list \<Rightarrow> nat \<Rightarrow> string option" where
  "field ts i = (if i < length ts then Some (ts ! i) else None)"

definition field_or :: "string list \<Rightarrow> nat \<Rightarrow> string" where
  "field_or ts i = (if i < length ts then ts ! i else [])"

text \<open>The free text at the end of a line: behind the first \<open> :\<close>, or else the last word; a reason that is
  missing is empty.\<close>

definition trailing :: "string \<Rightarrow> string" where
  "trailing rest = (case split_sub '' :'' rest of Some (_, t) \<Rightarrow> t | None \<Rightarrow> last (split_on CHR '' '' rest))"

definition reason_of :: "string \<Rightarrow> string" where
  "reason_of rest = (case split_sub '' :'' rest of Some (_, t) \<Rightarrow> t | None \<Rightarrow> [])"

definition is_chan :: "string \<Rightarrow> bool" where
  "is_chan s = starts_with ''#'' s"

definition from_us :: "protocol \<Rightarrow> string \<Rightarrow> bool" where
  "from_us p src = starts_with (pr_sid p) src"

subsection \<open>Modes and their parameters\<close>

definition arity :: "(char \<rightharpoonup> chan_mode_cap) \<Rightarrow> char \<Rightarrow> bool \<Rightarrow> bool" where
  "arity learned c adding =
     (case learned c of Some cap \<Rightarrow> takes_param cap adding | None \<Rightarrow> chanmode_takes_param c adding)"

text \<open>One pass over the letters with the parameters still to be read; \<open>found\<close> is the last key change.\<close>

fun scan_key_from ::
  "(char \<rightharpoonup> chan_mode_cap) \<Rightarrow> bool \<Rightarrow> string option option \<Rightarrow> string \<Rightarrow> string list \<Rightarrow> string option option" where
  "scan_key_from learned adding found [] ps = found"
| "scan_key_from learned adding found (m # ms) ps =
     (if m = CHR ''+'' then scan_key_from learned True found ms ps
      else if m = CHR ''-'' then scan_key_from learned False found ms ps
      else if m = CHR ''k'' then scan_key_from learned adding (Some (if adding then field ps 0 else None)) ms (drop 1 ps)
      else if arity learned m adding then scan_key_from learned adding found ms (drop 1 ps)
      else scan_key_from learned adding found ms ps)"

definition scan_key :: "string \<Rightarrow> string list \<Rightarrow> (char \<rightharpoonup> chan_mode_cap) \<Rightarrow> string option option" where
  "scan_key ms ps learned = scan_key_from learned True None ms ps"

fun scan_status_from ::
  "(char \<rightharpoonup> chan_mode_cap) \<Rightarrow> char \<Rightarrow> bool \<Rightarrow> string \<Rightarrow> string list \<Rightarrow> (bool \<times> string) list" where
  "scan_status_from learned want adding [] ps = []"
| "scan_status_from learned want adding (m # ms) ps =
     (if m = CHR ''+'' then scan_status_from learned want True ms ps
      else if m = CHR ''-'' then scan_status_from learned want False ms ps
      else if m = want then
        (case field ps 0 of Some u \<Rightarrow> [(adding, u)] | None \<Rightarrow> []) @ scan_status_from learned want adding ms (drop 1 ps)
      else if arity learned m adding then scan_status_from learned want adding ms (drop 1 ps)
      else scan_status_from learned want adding ms ps)"

definition scan_status :: "string \<Rightarrow> string list \<Rightarrow> char \<Rightarrow> (char \<rightharpoonup> chan_mode_cap) \<Rightarrow> (bool \<times> string) list" where
  "scan_status ms ps want learned = scan_status_from learned want True ms ps"

subsection \<open>What the uplink can do\<close>

definition parse_extban_cap :: "string \<Rightarrow> extban_cap option" where
  "parse_extban_cap token =
     Option.bind (split_once CHR '':'' token) (\<lambda>(ty, spec).
       if ty \<noteq> ''acting'' \<and> ty \<noteq> ''matching'' then None
       else let (name, letter) = (case split_once CHR ''='' spec of
                  Some (n, l) \<Rightarrow> (n, case l of [] \<Rightarrow> None | c # _ \<Rightarrow> Some c)
                | None \<Rightarrow> (spec, None))
            in if name = [] then None
               else Some \<lparr>ec_name = name, ec_letter = letter, ec_acting = (ty = ''acting'')\<rparr>)"

definition servprotect_letter :: "string \<Rightarrow> char option" where
  "servprotect_letter token =
     Option.bind (split_once CHR '':'' token) (\<lambda>(_, spec).
       Option.bind (split_once CHR ''='' spec) (\<lambda>(name, val).
         if eq_ignore_ascii_case name ''servprotect'' then (case val of [] \<Rightarrow> None | c # _ \<Rightarrow> Some c) else None))"

definition bare_module :: "string \<Rightarrow> string" where
  "bare_module token =
     (let name = (case split_once CHR ''='' token of Some (n, _) \<Rightarrow> n | None \<Rightarrow> token);
          bare = (case strip_prefix ''m_'' name of Some n \<Rightarrow> n | None \<Rightarrow> name)
      in case strip_prefix (rev ''.so'') (rev bare) of Some n \<Rightarrow> rev n | None \<Rightarrow> bare)"

definition parse_chanmode_cap :: "string \<Rightarrow> chan_mode_cap option" where
  "parse_chanmode_cap token =
     Option.bind (split_once CHR '':'' token) (\<lambda>(ty, spec).
       if ty = ''prefix'' then
         Option.bind (split_once CHR '':'' spec) (\<lambda>(rank, r).
           Option.bind (split_once CHR ''='' r) (\<lambda>(_, val).
             case val of
               symbol # letter # _ \<Rightarrow>
                 map_option (\<lambda>n. \<lparr>cm_letter = letter, cm_kind = Prefix symbol n\<rparr>) (parse_unsigned (2 ^ 32 - 1) rank)
             | _ \<Rightarrow> None))
       else
         Option.bind (split_once CHR ''='' spec) (\<lambda>(_, val).
           case val of
             [] \<Rightarrow> None
           | letter # _ \<Rightarrow>
               map_option (\<lambda>k. \<lparr>cm_letter = letter, cm_kind = k\<rparr>)
                 (if ty = ''list'' then Some ModeList else if ty = ''param'' then Some ParamAlways
                  else if ty = ''param-set'' then Some ParamSet else if ty = ''simple'' then Some Simple else None)))"

definition parse_capab :: "protocol \<Rightarrow> string \<Rightarrow> string list \<Rightarrow> net_event list \<times> protocol" where
  "parse_capab p rest ts =
     (let words = split_whitespace (trailing rest); sub = field_or ts 0 in
      if ts = [] then ([], p)
      else if eq_ignore_ascii_case sub ''EXTBANS'' then
        (case List.map_filter parse_extban_cap words of [] \<Rightarrow> [] | es \<Rightarrow> [ServEv (ExtbanRegistry es)], p)
      else if eq_ignore_ascii_case sub ''CHANMODES'' then
        (case List.map_filter parse_chanmode_cap words of
           [] \<Rightarrow> ([], p)
         | ms \<Rightarrow> ([ServEv (ChanModeRegistry ms)],
             p\<lparr>pr_chanmodes := map_of (rev (map (\<lambda>c. (cm_letter c, c)) ms))\<rparr>))
      else if eq_ignore_ascii_case sub ''CAPABILITIES'' then
        (case List.map_filter (\<lambda>t. strip_prefix ''CASEMAPPING='' (dropWhile (\<lambda>c. c = CHR '':'') t)) (split_whitespace rest) of
           [] \<Rightarrow> [] | name # _ \<Rightarrow> [ServEv (Casemapping name)], p)
      else if eq_ignore_ascii_case sub ''MODULES'' \<or> eq_ignore_ascii_case sub ''MODSUPPORT'' then
        (let ms = map bare_module words in
         (if ms = [] then [] else [ServEv (ModulesAvailable ms)],
          if ''ircv3_ctctags'' \<in> set ms then p\<lparr>pr_ctctags := True\<rparr> else p))
      else if eq_ignore_ascii_case sub ''USERMODES'' then
        (case List.map_filter servprotect_letter words of
           [] \<Rightarrow> [] | l # _ \<Rightarrow> [ServEv (ServProtect l (l \<in> set (pr_service_modes p)))], p)
      else if eq_ignore_ascii_case sub ''END'' then ([ServEv CapabEnd], p)
      else ([], p))"

subsection \<open>Lines about servers and clients\<close>

definition parse_server :: "string option \<Rightarrow> string list \<Rightarrow> net_event list" where
  "parse_server source ts =
     (case source of
        Some parent \<Rightarrow>
          (case field ts 1 of
             Some sid \<Rightarrow> if sid = [] then [] else [ServEv (ServerLink sid parent), ServEv (ServerInfo sid (field_or ts 0))]
           | None \<Rightarrow> [])
      | None \<Rightarrow>
          ServEv Registered #
          (if field_or ts 2 = [] then [] else [ServEv (ServerInfo (field_or ts 2) (field_or ts 0))]))"

definition parse_idle :: "string option \<Rightarrow> string list \<Rightarrow> net_event list" where
  "parse_idle source ts =
     (case source of
        Some requester \<Rightarrow>
          if field_or ts 0 \<noteq> [] \<and> length ts \<le> 1 then [ServEv (Idle requester (field_or ts 0))] else []
      | None \<Rightarrow> [])"

definition parse_uid :: "string \<Rightarrow> string list \<Rightarrow> net_event list" where
  "parse_uid rest a =
     (case (field a 0, field a 2) of
        (Some uid, Some nick) \<Rightarrow>
          [UserEv (UserConnect uid nick (field_or a 4) (field_or a 7)),
           UserEv (UserAttrs uid (field_or a 6) (field_or a 3) (reason_of rest))]
      | _ \<Rightarrow> [])"

definition parse_nick :: "string option \<Rightarrow> string list \<Rightarrow> net_event list" where
  "parse_nick source ts =
     (case (source, field ts 0) of
        (Some uid, Some nick) \<Rightarrow> if nick = [] then [] else [UserEv (NickChange uid nick)]
      | _ \<Rightarrow> [])"

definition parse_mode :: "protocol \<Rightarrow> string option \<Rightarrow> string list \<Rightarrow> net_event list" where
  "parse_mode p source a =
     (case (source, field a 0) of
        (Some src, Some target) \<Rightarrow>
          if from_us p src \<or> is_chan target then []
          else let ms = join_with CHR '' '' (drop 1 a) in if ms = [] then [] else [UserEv (UserModeSet target ms)]
      | _ \<Rightarrow> [])"

definition cert_fingerprint :: "string \<Rightarrow> string" where
  "cert_fingerprint val =
     (let ws = split_whitespace val in
      if CHR ''E'' \<in> set (field_or ws 0) then [] else hd (split_on CHR '','' (field_or ws 1)))"

definition parse_metadata :: "protocol \<Rightarrow> string option \<Rightarrow> string \<Rightarrow> string list \<Rightarrow> net_event list" where
  "parse_metadata p source rest a =
     (case (source, field a 0, field a 1) of
        (Some src, Some target, Some k) \<Rightarrow>
          if from_us p src \<or> target = ''*'' then []
          else if eq_ignore_ascii_case k ''accountname'' then [UserEv (AccountLogin target (trailing rest))]
          else if eq_ignore_ascii_case k ''ssl_cert'' then [UserEv (UserCert target (cert_fingerprint (trailing rest)))]
          else if eq_ignore_ascii_case k ''signore''
          then [UserEv (SignoreSet target (filter (\<lambda>m. m \<noteq> []) (split_on CHR '' '' (trailing rest))))]
          else []
      | _ \<Rightarrow> [])"

definition parse_encap :: "string \<Rightarrow> string \<Rightarrow> string list \<Rightarrow> net_event list" where
  "parse_encap line rest ts =
     (if map_option to_ascii_uppercase (field ts 1) = Some ''SWACCTREG'' then
        (case take 5 (drop 2 ts) of
           [reqid, origin, kind, acct, p2] \<Rightarrow> [ReqEv (AccountRequest reqid origin kind acct p2 (trailing rest))]
         | _ \<Rightarrow> [])
      else if map_option to_ascii_uppercase (field ts 1) = Some ''SASL'' then
        (case drop 2 ts of
           client # agent # m # data \<Rightarrow> [ReqEv (SaslIn client m data)]
         | _ \<Rightarrow> [])
      else [ReqEv (Unknown line)])"

subsection \<open>Lines about channels\<close>

definition parse_member :: "string \<Rightarrow> string \<Rightarrow> net_event list" where
  "parse_member chan m =
     (case split_once CHR '','' m of
        None \<Rightarrow> []
      | Some (prefix, member) \<Rightarrow>
          (let uid = hd (split_on CHR '':'' member) in
           if uid = [] then []
           else ChanEv (Join uid chan (CHR ''o'' \<in> set prefix)) #
             (if CHR ''v'' \<in> set prefix then [ChanEv (ChannelVoice chan uid True)] else [])))"

definition key_events :: "string \<Rightarrow> string option option \<Rightarrow> net_event list" where
  "key_events chan k = (case k of None \<Rightarrow> [] | Some v \<Rightarrow> [ChanEv (ChannelKey chan v)])"

definition parse_fjoin :: "protocol \<Rightarrow> string \<Rightarrow> net_event list" where
  "parse_fjoin p rest =
     (let head = split_whitespace (case split_sub '' :'' rest of Some (h, _) \<Rightarrow> h | None \<Rightarrow> rest);
          chan = field_or head 1
      in if chan = [] then []
         else [ChanEv (ChannelCreate chan)] @
           (case field head 3 of None \<Rightarrow> []
            | Some ms \<Rightarrow> key_events chan (scan_key ms (drop 4 head) (pr_chanmodes p))) @
           concat (map (parse_member chan) (split_whitespace (trailing rest))))"

definition parse_ijoin :: "string option \<Rightarrow> string list \<Rightarrow> net_event list" where
  "parse_ijoin source ts =
     (case (source, field ts 0) of
        (Some uid, Some chan) \<Rightarrow> if is_chan chan then [ChanEv (Join uid chan False)] else []
      | _ \<Rightarrow> [])"

definition parse_part :: "string option \<Rightarrow> string \<Rightarrow> string list \<Rightarrow> net_event list" where
  "parse_part source rest ts =
     (case (source, field ts 0) of
        (Some uid, Some chan) \<Rightarrow> if is_chan chan then [ChanEv (Part uid chan (reason_of rest))] else []
      | _ \<Rightarrow> [])"

definition parse_kick :: "string option \<Rightarrow> string \<Rightarrow> string list \<Rightarrow> net_event list" where
  "parse_kick source rest ts =
     (case field ts 1 of
        Some uid \<Rightarrow>
          if is_chan (field_or ts 0)
          then [ChanEv (Kicked (field_or ts 0) uid (case source of Some s \<Rightarrow> s | None \<Rightarrow> []) (reason_of rest))]
          else []
      | None \<Rightarrow> [])"

definition parse_rename :: "protocol \<Rightarrow> string option \<Rightarrow> string list \<Rightarrow> net_event list" where
  "parse_rename p source ts =
     (case source of
        Some src \<Rightarrow>
          if \<not> from_us p src \<and> is_chan (field_or ts 0) \<and> is_chan (field_or ts 1)
          then [ChanEv (Actions.ChannelRename (field_or ts 0) (field_or ts 1))] else []
      | None \<Rightarrow> [])"

definition parse_fmode :: "protocol \<Rightarrow> string option \<Rightarrow> string list \<Rightarrow> net_event list" where
  "parse_fmode p source a =
     (case (source, field a 0, field a 2) of
        (Some src, Some chan, Some ms) \<Rightarrow>
          if from_us p src \<or> \<not> is_chan chan then []
          else [ChanEv (ChannelModeChange chan ms src)] @ key_events chan (scan_key ms (drop 3 a) (pr_chanmodes p)) @
            map (\<lambda>(op, uid). ChanEv (ChannelOp chan uid op)) (scan_status ms (drop 3 a) CHR ''o'' (pr_chanmodes p)) @
            map (\<lambda>(voice, uid). ChanEv (ChannelVoice chan uid voice)) (scan_status ms (drop 3 a) CHR ''v'' (pr_chanmodes p))
      | _ \<Rightarrow> [])"

definition digit_led :: "string \<Rightarrow> bool" where
  "digit_led s = (case s of [] \<Rightarrow> False | c # _ \<Rightarrow> is_ascii_digit c)"

definition parse_ftopic :: "protocol \<Rightarrow> string option \<Rightarrow> string \<Rightarrow> string list \<Rightarrow> net_event list" where
  "parse_ftopic p source rest a =
     (case (source, field a 0) of
        (Some src, Some chan) \<Rightarrow>
          if from_us p src \<or> \<not> is_chan chan then []
          else let by_whom = field_or a 3
               in [ChanEv (TopicChange chan src (trailing rest)
                    (if starts_with '':'' by_whom \<or> digit_led by_whom then [] else by_whom))]
      | _ \<Rightarrow> [])"

subsection \<open>A line\<close>

definition strip_tags :: "string \<Rightarrow> string \<times> string" where
  "strip_tags line =
     (case strip_prefix ''@'' line of
        None \<Rightarrow> ([], line)
      | Some r \<Rightarrow> (case split_once CHR '' '' r of Some (tags, l) \<Rightarrow> (tags, l) | None \<Rightarrow> (r, [])))"

definition msgid_of :: "string \<Rightarrow> string option" where
  "msgid_of tags =
     (case List.map_filter (strip_prefix ''msgid='') (split_on CHR '';'' tags) of [] \<Rightarrow> None | m # _ \<Rightarrow> Some m)"

definition strip_source :: "string \<Rightarrow> string option \<times> string" where
  "strip_source line =
     (case strip_prefix '':'' line of
        None \<Rightarrow> (None, line)
      | Some s \<Rightarrow> (case split_once CHR '' '' s of Some (src, r) \<Rightarrow> (Some src, r) | None \<Rightarrow> (Some s, [])))"

definition parse_channel ::
  "protocol \<Rightarrow> string \<Rightarrow> string option \<Rightarrow> string \<Rightarrow> string list \<Rightarrow> net_event list option" where
  "parse_channel p cmd source rest ts =
     (if cmd = ''FJOIN'' then Some (parse_fjoin p rest)
      else if cmd = ''IJOIN'' then Some (parse_ijoin source ts)
      else if cmd = ''PART'' then Some (parse_part source rest ts)
      else if cmd = ''KICK'' then Some (parse_kick source rest ts)
      else if cmd = ''RENAME'' then Some (parse_rename p source ts)
      else if cmd = ''FMODE'' then Some (parse_fmode p source ts)
      else if cmd = ''FTOPIC'' then Some (parse_ftopic p source rest ts)
      else None)"

definition parse_user ::
  "protocol \<Rightarrow> string \<Rightarrow> string option \<Rightarrow> string \<Rightarrow> string list \<Rightarrow> net_event list option" where
  "parse_user p cmd source rest ts =
     (if cmd = ''UID'' then Some (parse_uid rest ts)
      else if cmd = ''NICK'' then Some (parse_nick source ts)
      else if cmd = ''MODE'' then Some (parse_mode p source ts)
      else if cmd = ''OPERTYPE'' then
        Some (case source of Some src \<Rightarrow> if from_us p src then [] else [UserEv (OperUp src (trailing rest))] | None \<Rightarrow> [])
      else if cmd = ''METADATA'' then Some (parse_metadata p source rest ts)
      else if cmd = ''QUIT'' then Some [UserEv (Quit (case source of Some s \<Rightarrow> s | None \<Rightarrow> []) (reason_of rest))]
      else if cmd = ''KILL'' then Some (if field_or ts 0 = [] then [] else [UserEv (UserKilled (field_or ts 0))])
      else None)"

definition parse_other ::
  "string option \<Rightarrow> string \<Rightarrow> string option \<Rightarrow> string \<Rightarrow> string \<Rightarrow> string list \<Rightarrow> net_event list" where
  "parse_other msgid cmd source line rest ts =
     (if cmd = ''SERVER'' then parse_server source ts
      else if cmd = ''ENDBURST'' then [ServEv EndOfBurst]
      else if cmd = ''PING'' then [ServEv (Ping (dropWhile (\<lambda>c. c = CHR '':'') (field_or ts 0)) source)]
      else if cmd = ''IDLE'' then parse_idle source ts
      else if cmd = ''PRIVMSG'' \<or> cmd = ''SQUERY'' then
        [ReqEv (PrivmsgIn (case source of Some s \<Rightarrow> s | None \<Rightarrow> []) (field_or ts 0) (trailing rest) msgid)]
      else if cmd = ''SQUIT'' then (if field_or ts 0 = [] then [] else [ServEv (ServerSplit (field_or ts 0))])
      else if cmd = ''ENCAP'' then parse_encap line rest ts
      else [ReqEv (Unknown line)])"

definition parse_command ::
  "protocol \<Rightarrow> string option \<Rightarrow> string \<Rightarrow> string option \<Rightarrow> string \<Rightarrow> string \<Rightarrow> string list \<Rightarrow> net_event list \<times> protocol" where
  "parse_command p msgid cmd source line rest ts =
     (if cmd = ''CAPAB'' then parse_capab p rest ts
      else (case parse_channel p cmd source rest ts of
          Some es \<Rightarrow> es
        | None \<Rightarrow> (case parse_user p cmd source rest ts of
              Some es \<Rightarrow> es
            | None \<Rightarrow> parse_other msgid cmd source line rest ts), p))"

definition parse :: "protocol \<Rightarrow> string \<Rightarrow> net_event list \<times> protocol" where
  "parse p raw =
     (let (tags, line) = strip_tags raw; (source, rest) = strip_source line; ws = split_on CHR '' '' rest
      in parse_command p (msgid_of tags) (to_ascii_uppercase (hd ws)) source line rest (tl ws))"

subsection \<open>Bodies of messages\<close>

definition max_msg_text :: nat where "max_msg_text = 400"

text \<open>Where an over-long body is cut: at the last space in the back half of the window, or else at its end.\<close>

definition cut_at :: "string \<Rightarrow> string" where
  "cut_at s =
     (let window = take_bytes max_msg_text s in
      case rsplit_sub '' '' window of
        Some (h, _) \<Rightarrow> if utf8_len h \<ge> max_msg_text div 2 then h else window
      | None \<Rightarrow> window)"

lemma take_bytes_prefix: "\<exists>r. s = take_bytes n s @ r"
  by (induction n s rule: take_bytes.induct) (auto simp: Let_def)

lemma take_bytes_nonempty: "s \<noteq> [] \<Longrightarrow> 2 \<le> n \<Longrightarrow> take_bytes n s \<noteq> []"
  by (cases s) (simp_all add: Let_def utf8_len_def)

lemma cut_at_prefix: "\<exists>r. take_bytes max_msg_text s = cut_at s @ r"
proof (cases "rsplit_sub '' '' (take_bytes max_msg_text s)")
  case (Some x)
  then obtain a b where x: "rsplit_sub '' '' (take_bytes max_msg_text s) = Some (a, b)" by (cases x) auto
  from rsplit_sub_Some [OF x] have "take_bytes max_msg_text s = a @ '' '' @ b" by simp
  with x show ?thesis by (auto simp: cut_at_def Let_def)
qed (simp add: cut_at_def)

lemma cut_at_nonempty: "s \<noteq> [] \<Longrightarrow> cut_at s \<noteq> []"
  using take_bytes_nonempty [of s max_msg_text]
  by (auto simp: cut_at_def Let_def max_msg_text_def utf8_len_def split: option.splits)

lemma cut_at_split: "s = cut_at s @ drop (length (cut_at s)) s"
proof -
  obtain r r' where "s = take_bytes max_msg_text s @ r" "take_bytes max_msg_text s = cut_at s @ r'"
    using take_bytes_prefix cut_at_prefix by blast
  then show ?thesis by (metis append.assoc append_eq_conv_conj)
qed

lemma cut_at_shrinks:
  assumes "s \<noteq> []"
  shows "length (dropWhile p (drop (length (cut_at s)) s)) < length s"
proof -
  have "0 < length (cut_at s)" "0 < length s" using cut_at_nonempty [OF assms] assms by simp_all
  moreover have "length (dropWhile p (drop (length (cut_at s)) s)) \<le> length s - length (cut_at s)"
    using length_dropWhile_le [of p "drop (length (cut_at s)) s"] by simp
  ultimately show ?thesis by linarith
qed

function split_long :: "string \<Rightarrow> string list" where
  "split_long s =
     (if utf8_len s > max_msg_text
      then cut_at s # split_long (dropWhile (\<lambda>c. c = CHR '' '') (drop (length (cut_at s)) s))
      else if s = [] then [] else [s])"
  by pat_completeness auto
termination
proof (relation "measure length")
  fix s :: string
  assume "max_msg_text < utf8_len s"
  then have "s \<noteq> []" by (auto simp: utf8_len_def)
  from cut_at_shrinks [OF this] show "(dropWhile (\<lambda>c. c = CHR '' '') (drop (length (cut_at s)) s), s) \<in> measure length"
    by simp
qed simp

declare split_long.simps [simp del]

text \<open>A CTCP body is never split.\<close>

definition split_body :: "string \<Rightarrow> string list" where
  "split_body s = (if utf8_len s \<le> max_msg_text \<or> CHR 0x01 \<in> set s then [s] else split_long s)"

subsection \<open>Actions\<close>

fun escape_tag_value :: "string \<Rightarrow> string" where
  "escape_tag_value [] = []"
| "escape_tag_value (c # s) =
     (if c = CHR '';'' then [CHR 0x5C, CHR '':'']
      else if c = CHR '' '' then [CHR 0x5C, CHR ''s'']
      else if c = CHR 0x5C then [CHR 0x5C, CHR 0x5C]
      else if c = CHR 0x0D then [CHR 0x5C, CHR ''r'']
      else if c = CHR 0x0A then [CHR 0x5C, CHR ''n'']
      else [c]) @ escape_tag_value s"

text \<open>CR, LF and NUL never leave.\<close>

definition clean :: "string \<Rightarrow> string" where
  "clean l = filter (\<lambda>c. c \<noteq> CHR 0x0D \<and> c \<noteq> CHR 0x0A \<and> c \<noteq> CHR 0x00) l"

definition sid_of_uid :: "string \<Rightarrow> string" where
  "sid_of_uid uid = (if utf8_len (take_bytes 3 uid) = 3 then take_bytes 3 uid else uid)"

definition says :: "string \<Rightarrow> string \<Rightarrow> string" where
  "says src cmd = '':'' @ src @ '' '' @ cmd"

fun write_channel :: "(message \<Rightarrow> string) \<Rightarrow> nat \<Rightarrow> protocol \<Rightarrow> channel_action \<Rightarrow> string list \<times> protocol" where
  "write_channel words now p (ServiceJoin uid chan ms) =
     (let n = (pr_membid p + 1) mod 2 ^ 64
      in ([says uid (''IJOIN '' @ chan @ '' '' @ show_nat n @ '' 1 '' @ ms)], p\<lparr>pr_membid := n\<rparr>))"
| "write_channel words now p (ServicePart uid chan) = ([says uid (''PART '' @ chan)], p)"
| "write_channel words now p (ChannelMode src chan ms) =
     (let cmd = ''FMODE '' @ chan @ '' 1 '' @ ms in ([if src = [] then sourced p cmd else says src cmd], p))"
| "write_channel words now p (KickUser src chan uid why) =
     ([says src (''KICK '' @ chan @ '' '' @ uid @ '' :'' @ words why)], p)"
| "write_channel words now p (SetTopic src chan topic setter) =
     ([says src (''FTOPIC '' @ chan @ '' 1 '' @ show_nat now @
         (if setter = [] \<or> digit_led setter then [] else '' '' @ setter) @ '' :'' @ topic)], p)"
| "write_channel words now p (Invite src uid chan) = ([says src (''INVITE '' @ uid @ '' '' @ chan @ '' 1 0'')], p)"
| "write_channel words now p (RenameChannel src old new why) =
     ([says src (''RENAME '' @ old @ '' '' @ new @ '' :'' @ words why)], p)"

fun write_user :: "(message \<Rightarrow> string) \<Rightarrow> nat \<Rightarrow> protocol \<Rightarrow> user_action \<Rightarrow> string list" where
  "write_user words now p (IntroduceUser uid nick ident host gecos) =
     [sourced p (''UID '' @ uid @ '' '' @ show_nat (pr_ts p) @ '' '' @ nick @ '' '' @ host @ '' '' @ host @ '' '' @ ident @
        '' '' @ ident @ '' 0.0.0.0 '' @ show_nat (pr_ts p) @ '' +'' @ pr_service_modes p @ '' :'' @ gecos)]"
| "write_user words now p (OperType uid oper_type) = [says uid (''OPERTYPE :'' @ oper_type)]"
| "write_user words now p (QuitUser uid why) = [says uid (''QUIT :'' @ words why)]"
| "write_user words now p (ForceNick uid nick) = [sourced p (''SVSNICK '' @ uid @ '' '' @ nick @ '' '' @ show_nat now)]"
| "write_user words now p (SetHost uid host) =
     [sourced p (''ENCAP '' @ sid_of_uid uid @ '' CHGHOST '' @ uid @ '' '' @ host)]"
| "write_user words now p (SetIdent uid ident) =
     [sourced p (''ENCAP '' @ sid_of_uid uid @ '' CHGIDENT '' @ uid @ '' '' @ ident)]"
| "write_user words now p (ForceJoin uid chan k) =
     [sourced p (''SVSJOIN '' @ uid @ '' '' @ chan @ (if k = [] then [] else '' '' @ k))]"
| "write_user words now p (ForcePart uid chan why) =
     [sourced p (''SVSPART '' @ uid @ '' '' @ chan @ (if words why = [] then [] else '' :'' @ words why))]"
| "write_user words now p (UserMode uid ms) = [sourced p (''MODE '' @ uid @ '' '' @ ms)]"
| "write_user words now p (KillUser src uid why) = [says src (''KILL '' @ uid @ '' :'' @ words why)]"

fun write_link :: "(message \<Rightarrow> string) \<Rightarrow> nat \<Rightarrow> protocol \<Rightarrow> link_action \<Rightarrow> string list" where
  "write_link words now p Burst = [sourced p (''BURST '' @ show_nat (pr_ts p))]"
| "write_link words now p EndBurst = [sourced p ''ENDBURST'']"
| "write_link words now p (Pong token src) =
     [sourced p (''PONG '' @ (case src of Some s \<Rightarrow> s | None \<Rightarrow> pr_sid p) @ '' '' @ token)]"
| "write_link words now p (IdleReply target requester signon idle) =
     [says target (''IDLE '' @ requester @ '' '' @ show_nat signon @ '' '' @ show_nat idle)]"
| "write_link words now p (Metadata target k val) = [sourced p (''METADATA '' @ target @ '' '' @ k @ '' :'' @ val)]"
| "write_link words now p (AddLine kind msk setter duration why) =
     [sourced p (''ADDLINE '' @ kind @ '' '' @ msk @ '' '' @ setter @ '' '' @ show_nat now @ '' '' @ show_nat duration @
        '' :'' @ words why)]"
| "write_link words now p (DelLine kind msk) = [sourced p (''DELLINE '' @ kind @ '' '' @ msk)]"
| "write_link words now p (JupeServer name sid why) =
     [sourced p (''SERVER '' @ name @ '' '' @ sid @ '' :JUPED: '' @ words why)]"
| "write_link words now p (Squit target why) = [sourced p (''SQUIT '' @ target @ '' :'' @ words why)]"
| "write_link words now p (SaslReply agent client m data) =
     [sourced p (''ENCAP * SASL '' @ agent @ '' '' @ client @ '' '' @ m @ concat (map (\<lambda>d. '' '' @ d) data))]"
| "write_link words now p (AccountResponse reqid origin kind acct status token m) =
     [sourced p (''ENCAP '' @ origin @ '' SWACCTRES '' @ reqid @ '' '' @ kind @ '' '' @ acct @ '' '' @ status @ '' '' @
        token @ '' :'' @ words m)]"
| "write_link words now p (Raw l) = [l]"

definition or_star :: "string \<Rightarrow> string" where
  "or_star s = (if s = [] then ''*'' else s)"

fun write_talk :: "(message \<Rightarrow> string) \<Rightarrow> protocol \<Rightarrow> talk_action \<Rightarrow> string list" where
  "write_talk words p (Privmsg src to m) = map (\<lambda>t. says src (''PRIVMSG '' @ to @ '' :'' @ t)) (split_body (words m))"
| "write_talk words p (Notice src to m) = map (\<lambda>t. says src (''NOTICE '' @ to @ '' :'' @ t)) (split_body (words m))"
| "write_talk words p (StandardReply kind src to cmd token m) =
     [sourced p (''ENCAP * SWSTDRPL '' @ to @ '' '' @ or_star src @ '' '' @ reply_verb kind @ '' '' @ or_star cmd @
        '' '' @ token @ '' :'' @ words m)]"
| "write_talk words p (Redact src target msgid why) =
     [says src (''REDACT '' @ target @ '' '' @ msgid @ (if words why = [] then [] else '' :'' @ words why))]"

definition tag_prefix :: "(string \<times> string) list \<Rightarrow> string" where
  "tag_prefix tags = join_with CHR '';'' (map (\<lambda>(k, v). k @ ''='' @ escape_tag_value v) tags)"

fun serialize :: "(message \<Rightarrow> string) \<Rightarrow> nat \<Rightarrow> protocol \<Rightarrow> net_action \<Rightarrow> string list \<times> protocol" where
  "serialize words now p (OnChannel a) = apfst (map clean) (write_channel words now p a)"
| "serialize words now p (OnUser a) = (map clean (write_user words now p a), p)"
| "serialize words now p (OnLink a) = (map clean (write_link words now p a), p)"
| "serialize words now p (Talk a) = (map clean (write_talk words p a), p)"
| "serialize words now p (Deferred a) = ([], p)"
| "serialize words now p (TaggedAction tags a) =
     (let (ls, p1) = serialize words now p a
      in (map clean (if \<not> pr_ctctags p1 \<or> tags = [] then ls else map (\<lambda>l. ''@'' @ tag_prefix tags @ '' '' @ l) ls), p1))"

end
