(* ===== verification/Uplink.thy ===== *)
theory Uplink
  imports Wire EngineRun
begin

text \<open>
  The link to the uplink (src/src/link.rs): frames, the redaction of what is logged, and the loop that turns
  lines into events, hands them to the engine, resolves the work that is done off the engine's lock, and
  writes the answers. The engine is locked per operation, so between any two of them the timers, the
  peers and the front ends may run: the loop is a step relation in which each acquisition of the lock is
  a step of its own, and \<open>Elsewhere\<close> is a step of anybody else.

  The third parties are the record \<open>outside\<close>: the words of messages, the derivation of a password, the
  MX block list, the keycard service, and the configuration file.
\<close>

subsection \<open>Frames\<close>

definition max_uplink_line :: nat where "max_uplink_line = 16 * 1024"

definition lf :: "8 word" where "lf = 10"
definition cr :: "8 word" where "cr = 13"

definition strip_cr :: "bytes \<Rightarrow> bytes" where
  "strip_cr buf = (if buf \<noteq> [] \<and> last buf = cr then butlast buf else buf)"

text \<open>Bytes beyond the cap are dropped; the end of the stream ends a last, unfinished line.\<close>

fun read_uplink_line :: "nat \<Rightarrow> bytes \<Rightarrow> bytes \<Rightarrow> bytes option \<times> bytes" where
  "read_uplink_line cap buf [] = (if buf = [] then None else Some (strip_cr buf), [])"
| "read_uplink_line cap buf (b # s) =
     (if b = lf then (Some (strip_cr buf), s)
      else read_uplink_line cap (if length buf < cap then buf @ [b] else buf) s)"

lemma read_uplink_line_shorter: "s \<noteq> [] \<Longrightarrow> length (snd (read_uplink_line cap buf s)) < length s"
proof (induction cap buf s rule: read_uplink_line.induct)
  case (2 cap buf b s)
  then show ?case by (cases s) (auto simp: less_Suc_eq)
qed simp

function frames :: "nat \<Rightarrow> bytes \<Rightarrow> bytes list" where
  "frames cap s =
     (if s = [] then []
      else (case fst (read_uplink_line cap [] s) of None \<Rightarrow> [] | Some l \<Rightarrow> [l]) @
        frames cap (snd (read_uplink_line cap [] s)))"
  by pat_completeness auto
termination by (relation "measure (\<lambda>(cap, s). length s)") (auto simp: read_uplink_line_shorter)

declare frames.simps [simp del]

definition send :: "string \<Rightarrow> bytes" where
  "send line = as_bytes line @ [cr, lf]"

subsection \<open>What is logged\<close>

definition secret_cmds :: "string list" where
  "secret_cmds =
     [''identify'', ''id'', ''login'', ''auth'', ''register'', ''regain'', ''ghost'', ''release'',
      ''recover'', ''setpass'', ''spassword'', ''resetpass'', ''confirm'', ''sidentify'']"

text \<open>Whether the words of a message carry a credential; a leading \<open>NS\<close> or \<open>NICKSERV\<close> is skipped.\<close>

definition command_words :: "string \<Rightarrow> string list" where
  "command_words text =
     (let ws = split_whitespace text in
      if key (field_or ws 0) = ''ns'' \<or> key (field_or ws 0) = ''nickserv'' then drop 1 ws else ws)"

definition credential_bearing :: "string \<Rightarrow> bool" where
  "credential_bearing text =
     (let ws = command_words text; cmd = key (field_or ws 0) in
      cmd \<in> set secret_cmds \<or> cmd = ''set'' \<and> eq_ignore_ascii_case (field_or ws 1) ''password'')"

fun trim_colons :: "string \<Rightarrow> string" where
  "trim_colons (c # d # s) = (if c = CHR '':'' \<and> d = CHR '' '' then trim_colons s else c # d # s)"
| "trim_colons s = s"

definition redact_message :: "string \<Rightarrow> string \<Rightarrow> string option" where
  "redact_message kw line =
     Option.bind (split_sub kw line) (\<lambda>(h, after).
       Option.bind (split_sub '' :'' after) (\<lambda>(target, text).
         if credential_bearing text
         then Some (rev (trim_colons (rev (h @ kw @ target @ '' :''))) @ '' :[REDACTED]'') else None))"

definition redact_auth :: "string \<Rightarrow> string option" where
  "redact_auth line =
     Option.bind (split_sub ''AUTHENTICATE '' line) (\<lambda>(h, r).
       let tok = hd (split_on CHR '' '' r) in
       if tok = ''+'' \<or> tok = ''*'' \<or> tok = [] \<or> starts_with ''PLAIN'' tok \<or> starts_with ''EXTERNAL'' tok \<or>
          starts_with ''SCRAM'' tok then None
       else Some (h @ ''AUTHENTICATE [REDACTED]''))"

definition redact_sasl :: "string \<Rightarrow> string \<Rightarrow> string option" where
  "redact_sasl md line =
     Option.bind (split_sub '' SASL '' line) (\<lambda>(h, r).
       Option.bind (split_sub md ('' SASL '' @ r)) (\<lambda>(h2, r2).
         let tok = hd (split_on CHR '' '' r2) in
         if tok = [] \<or> tok = ''+'' then None else Some (h @ h2 @ md @ ''[REDACTED]'')))"

fun first_some :: "'a option list \<Rightarrow> 'a option" where
  "first_some [] = None"
| "first_some (x # xs) = (case x of None \<Rightarrow> first_some xs | Some y \<Rightarrow> Some y)"

definition redact :: "string \<Rightarrow> string" where
  "redact line =
     (case first_some
        (map (\<lambda>kw. redact_message kw line) ['' PRIVMSG '', '' NOTICE '', '' SQUERY ''] @
         [redact_auth line, redact_sasl '' C '' line, redact_sasl '' S '' line]) of
        Some r \<Rightarrow> r | None \<Rightarrow> line)"

subsection \<open>The loop\<close>

record outside =
  ot_words :: "message \<Rightarrow> string"
  ot_mx :: "string \<Rightarrow> string option"
  ot_derive :: "string \<Rightarrow> credentials option"
  ot_redeem :: "string \<Rightarrow> string \<Rightarrow> bool"
  ot_compiles :: "string \<Rightarrow> bool"
  ot_config :: "string + config"
  ot_path :: string

text \<open>Behind the engine and the protocol: the events of the line being handled, the actions of the event
  being handled, the actions being written, a registration whose password is being derived, the
  keycards being redeemed, the channel of actions the services initiate, and what has gone out.\<close>

record uplink =
  ul_engine :: engine
  ul_protocol :: protocol
  ul_events :: "net_event list"
  ul_actions :: "net_action list"
  ul_outs :: "net_action list"
  ul_deriving :: "(string \<times> string \<times> string option \<times> reg_reply_to) option"
  ul_redeeming :: "(string \<times> string \<times> auth_then) list"
  ul_irc :: "net_action list"
  ul_lines :: "string list"
  ul_mails :: "(string \<times> message) list"
  ul_lookups :: "(string \<times> string \<times> string \<times> string \<times> string) list"
  ul_stopped :: "bool option"

text \<open>What an operation of the engine emits enters the channel in order.\<close>

definition put_engine :: "engine \<Rightarrow> uplink \<Rightarrow> uplink" where
  "put_engine g u = u\<lparr>ul_engine := g, ul_irc := ul_irc u @ drop (length (g_sent (ul_engine u))) (g_sent g)\<rparr>"

definition write_lines :: "outside \<Rightarrow> nat \<Rightarrow> net_action list \<Rightarrow> uplink \<Rightarrow> uplink" where
  "write_lines ot now acts u =
     fold (\<lambda>a u. let (ls, p) = serialize (ot_words ot) now (ul_protocol u) a
        in u\<lparr>ul_lines := ul_lines u @ ls, ul_protocol := p\<rparr>) acts u"

definition resolve :: "env \<Rightarrow> outside \<Rightarrow> net_action \<Rightarrow> uplink \<Rightarrow> uplink" where
  "resolve v ot a u =
     (let g = ul_engine u; answer = (\<lambda>(outs, g1). (put_engine g1 u)\<lparr>ul_outs := outs\<rparr>) in
      case a of
        Deferred (DeferRegister acct pw email to) \<Rightarrow>
          (case pre_register_check v acct to g of
             (Some rejection, g1) \<Rightarrow> answer (rejection, g1)
           | (None, g1) \<Rightarrow> (put_engine g1 u)\<lparr>ul_deriving := Some (acct, pw, email, to)\<rparr>)
      | Deferred (DeferPassword acct pw agent uid) \<Rightarrow>
          answer (complete_password_change acct (ot_derive ot pw) agent uid g)
      | Deferred (DeferAuthenticate verifier pw how) \<Rightarrow>
          answer (complete_authenticate v (verify_plain (ev_crypto v) Sha256 verifier pw) how g)
      | Deferred (DeferKeycard token acct how) \<Rightarrow> u\<lparr>ul_redeeming := ul_redeeming u @ [(token, acct, how)]\<rparr>
      | Deferred (Rehash requester agent) \<Rightarrow>
          answer (let ((_, acts), g1) = rehash (ot_compiles ot) (ot_config ot) (ot_path ot) requester agent g in (acts, g1))
      | _ \<Rightarrow> u\<lparr>ul_outs := [a]\<rparr>)"

text \<open>A registration that passed its check: the mail server of the address is looked up, and the password
  derived, before the engine is locked again.\<close>

definition finish_register ::
  "env \<Rightarrow> outside \<Rightarrow> string \<times> string \<times> string option \<times> reg_reply_to \<Rightarrow> uplink \<Rightarrow> uplink" where
  "finish_register v ot job u =
     (case job of (acct, pw, email, to) \<Rightarrow>
       (case Option.bind email (\<lambda>addr. map_option (Pair addr) (ot_mx ot addr)) of
          Some (addr, reason) \<Rightarrow> u\<lparr>ul_outs := reject_register_email (ul_engine u) acct addr reason to, ul_deriving := None\<rparr>
        | None \<Rightarrow>
            (let (outs, g1) = complete_register v acct (ot_derive ot pw) email to (ul_engine u)
             in (put_engine g1 u)\<lparr>ul_outs := outs, ul_deriving := None\<rparr>)))"

definition persist_all :: "string list \<Rightarrow> string list \<Rightarrow> (string \<Rightarrow> string list) \<Rightarrow> engine \<Rightarrow> engine" where
  "persist_all ks kc kt g = engine_persist_incidents (engine_persist_stats ks kc kt g)"

definition transmit ::
  "outside \<Rightarrow> nat \<Rightarrow> string list \<Rightarrow> string list \<Rightarrow> (string \<Rightarrow> string list) \<Rightarrow> net_action \<Rightarrow> uplink \<Rightarrow> uplink" where
  "transmit ot now ks kc kt a u =
     (case a of
        Deferred (SendEmail addr m) \<Rightarrow> u\<lparr>ul_mails := ul_mails u @ [(addr, m)]\<rparr>
      | Deferred (DictLookup speaker target dbname label query) \<Rightarrow>
          u\<lparr>ul_lookups := ul_lookups u @ [(speaker, target, dbname, label, query)]\<rparr>
      | Deferred (Shutdown restart why) \<Rightarrow>
          (put_engine (persist_all ks kc kt (ul_engine u)) u)\<lparr>ul_stopped := Some restart\<rparr>
      | _ \<Rightarrow> write_lines ot now [a] u)"

text \<open>An action the services initiated: lookups are not started here.\<close>

definition drain_one ::
  "outside \<Rightarrow> nat \<Rightarrow> string list \<Rightarrow> string list \<Rightarrow> (string \<Rightarrow> string list) \<Rightarrow> net_action \<Rightarrow> uplink \<Rightarrow> uplink" where
  "drain_one ot now ks kc kt a u =
     (case a of
        Deferred (DictLookup _ _ _ _ _) \<Rightarrow> write_lines ot now [a] u
      | _ \<Rightarrow> transmit ot now ks kc kt a u)"

text \<open>The answer to a lookup is spoken in a channel and noticed to a client; it enters the channel of actions
  when it comes.\<close>

definition dict_answer :: "string \<times> string \<times> string \<times> string \<times> string \<Rightarrow> string \<Rightarrow> net_action" where
  "dict_answer job found =
     (case job of (speaker, target, dbname, label, query) \<Rightarrow>
        (let m = Lit ([CHR 0x02] @ query @ [CHR 0x02] @ '' ('' @ label @ ''): '' @ found)
         in if starts_with ''#'' target \<or> starts_with ''&'' target then Talk (Privmsg speaker target m)
            else Talk (Notice speaker target m)))"

definition busy :: "uplink \<Rightarrow> bool" where
  "busy u \<longleftrightarrow> ul_events u \<noteq> [] \<or> ul_actions u \<noteq> [] \<or> ul_outs u \<noteq> [] \<or> ul_deriving u \<noteq> None"

definition link_up :: "env \<Rightarrow> outside \<Rightarrow> protocol \<Rightarrow> engine \<Rightarrow> uplink" where
  "link_up v ot p g =
     (let (acts, g1) = startup_actions v g
      in write_lines ot (ev_now v) acts
        \<lparr>ul_engine = g1, ul_protocol = p, ul_events = [], ul_actions = [], ul_outs = [], ul_deriving = None,
         ul_redeeming = [], ul_irc = g_sent g1, ul_lines = handshake p, ul_mails = [], ul_lookups = [],
         ul_stopped = None\<rparr>)"

inductive uplink_run :: "modules \<Rightarrow> outside \<Rightarrow> string \<Rightarrow> protocol \<Rightarrow> uplink \<Rightarrow> bool"
  for md :: modules and ot :: outside and own :: string and p :: protocol where
  Connect: "engine_run md own g \<Longrightarrow> orders_ok v \<Longrightarrow> uplink_run md ot own p (link_up v ot p g)"
| Receive: "uplink_run md ot own p u \<Longrightarrow> ul_stopped u = None \<Longrightarrow> \<not> busy u \<Longrightarrow>
    parse (ul_protocol u) line = (es, q) \<Longrightarrow> uplink_run md ot own p (u\<lparr>ul_events := es, ul_protocol := q\<rparr>)"
| Event: "uplink_run md ot own p u \<Longrightarrow> ul_stopped u = None \<Longrightarrow> orders_ok v \<Longrightarrow> ul_events u = e # es \<Longrightarrow>
    ul_actions u = [] \<Longrightarrow> ul_outs u = [] \<Longrightarrow> ul_deriving u = None \<Longrightarrow> fresh_event e (ul_engine u) \<Longrightarrow>
    handle v md e (ul_engine u) = (acts, g) \<Longrightarrow>
    uplink_run md ot own p ((put_engine g u)\<lparr>ul_events := es, ul_actions := acts\<rparr>)"
| Resolve: "uplink_run md ot own p u \<Longrightarrow> ul_stopped u = None \<Longrightarrow> orders_ok v \<Longrightarrow> ul_actions u = a # acts \<Longrightarrow>
    ul_outs u = [] \<Longrightarrow> ul_deriving u = None \<Longrightarrow> uplink_run md ot own p ((resolve v ot a u)\<lparr>ul_actions := acts\<rparr>)"
| Derived: "uplink_run md ot own p u \<Longrightarrow> ul_stopped u = None \<Longrightarrow> orders_ok v \<Longrightarrow> ul_deriving u = Some job \<Longrightarrow>
    uplink_run md ot own p (finish_register v ot job u)"
| Transmit: "uplink_run md ot own p u \<Longrightarrow> ul_stopped u = None \<Longrightarrow> ul_outs u = a # outs \<Longrightarrow>
    enumerates ks (network.w_stats (g_network (ul_engine u))) \<Longrightarrow>
    uplink_run md ot own p (transmit ot now ks kc kt a (u\<lparr>ul_outs := outs\<rparr>))"
| Drain: "uplink_run md ot own p u \<Longrightarrow> ul_stopped u = None \<Longrightarrow> \<not> busy u \<Longrightarrow> ul_irc u = a # acts \<Longrightarrow>
    enumerates ks (network.w_stats (g_network (ul_engine u))) \<Longrightarrow>
    uplink_run md ot own p (drain_one ot now ks kc kt a (u\<lparr>ul_irc := acts\<rparr>))"
| Redeemed: "uplink_run md ot own p u \<Longrightarrow> ul_stopped u = None \<Longrightarrow> orders_ok v \<Longrightarrow>
    ul_redeeming u = before @ (token, acct, how) # after \<Longrightarrow>
    complete_authenticate v (ot_redeem ot acct token) how (ul_engine u) = (acts, g) \<Longrightarrow>
    u1 = put_engine g u \<Longrightarrow>
    uplink_run md ot own p (u1\<lparr>ul_redeeming := before @ after, ul_irc := ul_irc u1 @ acts\<rparr>)"
| LookedUp: "uplink_run md ot own p u \<Longrightarrow> ul_stopped u = None \<Longrightarrow> ul_lookups u = before @ job # after \<Longrightarrow>
    outs = (case found of None \<Rightarrow> [] | Some r \<Rightarrow> [dict_answer job r]) \<Longrightarrow>
    uplink_run md ot own p (u\<lparr>ul_lookups := before @ after, ul_irc := ul_irc u @ outs\<rparr>)"
| Elsewhere: "uplink_run md ot own p u \<Longrightarrow> ul_stopped u = None \<Longrightarrow> orders_ok v \<Longrightarrow> permitted dt (ul_engine u) \<Longrightarrow>
    uplink_run md ot own p (put_engine (perform v md dt (ul_engine u)) u)"

end
