(* ===== verification/WireProps.thy ===== *)
theory WireProps
  imports Wire
begin

text \<open>
  What the link protocol guarantees: no text breaks out of its line or its tag, a message is read as it
  was written, the services' own changes are not read back as somebody else's, long messages lose nothing,
  and the two scans of a mode change agree on whose parameter is whose.
\<close>

subsection \<open>Clean lines\<close>

named_theorems wire_simps "how a line is taken apart"

definition fit :: "char \<Rightarrow> bool" where
  "fit c \<longleftrightarrow> c \<noteq> CHR 0x0D \<and> c \<noteq> CHR 0x0A \<and> c \<noteq> CHR 0x00"

lemma clean_alt: "clean l = filter fit l"
  by (simp add: clean_def fit_def [abs_def])

lemma clean_append [wire_simps]: "clean (a @ b) = clean a @ clean b"
  by (simp add: clean_def)

lemma clean_simps [wire_simps]: "clean [] = []" "clean (c # l) = (if fit c then c # clean l else clean l)"
  by (simp_all add: clean_alt)

lemma clean_idem: "clean (clean l) = clean l"
  by (simp add: clean_alt)

lemma clean_id: "list_all fit l \<Longrightarrow> clean l = l"
  unfolding clean_alt by (induction l) auto

lemma not_in_clean: "c \<notin> set l \<Longrightarrow> c \<notin> set (clean l)"
  by (simp add: clean_def)

lemma serialize_fit: "l \<in> set (fst (serialize words now p a)) \<Longrightarrow> list_all fit l"
  by (cases a) (auto simp: case_prod_beta Let_def list_all_iff clean_def fit_def)

text \<open>A word of a line: no space, nothing that is cleaned away.\<close>

definition wordy :: "string \<Rightarrow> bool" where
  "wordy w \<longleftrightarrow> CHR '' '' \<notin> set w \<and> list_all fit w"

lemma clean_wordy [wire_simps]: "wordy w \<Longrightarrow> clean w = w"
  by (simp add: wordy_def clean_id)

subsection \<open>Taking a line apart\<close>

lemma split_sub_word: "CHR '' '' \<notin> set a \<Longrightarrow> split_sub '' :'' (a @ s) = map_option (apfst (append a)) (split_sub '' :'' s)"
proof (induction a)
  case (Cons c a)
  then have "\<not> starts_with '' :'' (c # a @ s)" by (auto simp: starts_with_def)
  then show ?case using Cons by (simp add: option.map_comp o_def apfst_def map_prod_def case_prod_beta)
qed (simp add: apfst_def map_prod_def case_prod_beta option.map_id)

lemma split_sub_space:
  "split_sub '' :'' (CHR '' '' # c # s) =
     (if c = CHR '':'' then Some ([], s) else map_option (apfst (Cons (CHR '' ''))) (split_sub '' :'' (c # s)))"
  by (simp add: starts_with_def)

lemma parse_says:
  assumes "CHR '' '' \<notin> set src" "CHR '' '' \<notin> set cmd"
  shows "parse q (says src (cmd @ CHR '' '' # r)) =
     parse_command q None (to_ascii_uppercase cmd) (Some src) (says src (cmd @ CHR '' '' # r)) (cmd @ CHR '' '' # r)
       (split_on CHR '' '' r)"
proof -
  have t: "strip_tags (says src (cmd @ CHR '' '' # r)) = ([], says src (cmd @ CHR '' '' # r))"
    by (simp add: strip_tags_def says_def strip_prefix_def)
  have s: "strip_source (says src (cmd @ CHR '' '' # r)) = (Some src, cmd @ CHR '' '' # r)"
    using assms(1) by (simp add: strip_source_def says_def strip_prefix_def split_once_append)
  have h: "split_on CHR '' '' (cmd @ CHR '' '' # r) = cmd # split_on CHR '' '' r"
    using assms(2) by (simp add: split_on_append split_on_single)
  have m: "msgid_of [] = None" by (simp add: msgid_of_def strip_prefix_def List.map_filter_simps)
  show ?thesis by (simp add: parse_def t s h m Let_def)
qed

subsection \<open>Messages\<close>

lemma parse_privmsg:
  assumes "wordy src" "wordy to" "take 1 to \<noteq> '':''"
  shows "parse q (says src (''PRIVMSG '' @ to @ '' :'' @ t)) = ([ReqEv (PrivmsgIn src to t None)], q)"
proof -
  have w: "CHR '' '' \<notin> set src" "CHR '' '' \<notin> set to" using assms by (simp_all add: wordy_def)
  have rest: "split_sub '' :'' (''PRIVMSG'' @ CHR '' '' # to @ CHR '' '' # CHR '':'' # t) = Some (''PRIVMSG '' @ to, t)"
  proof -
    have "split_sub '' :'' (to @ CHR '' '' # CHR '':'' # t) = Some (to, t)"
      using w(2) by (simp add: split_sub_word split_sub_space del: split_sub.simps)
    moreover have "split_sub '' :'' (CHR '' '' # to @ CHR '' '' # CHR '':'' # t) =
      map_option (apfst (Cons (CHR '' ''))) (split_sub '' :'' (to @ CHR '' '' # CHR '':'' # t))"
      using assms(3) by (cases to) (simp_all add: split_sub_space del: split_sub.simps)
    ultimately show ?thesis using split_sub_word [of "''PRIVMSG''"] by simp
  qed
  have ts: "split_on CHR '' '' (to @ CHR '' '' # CHR '':'' # t) = to # split_on CHR '' '' (CHR '':'' # t)"
    using w(2) by (simp add: split_on_append split_on_single)
  show ?thesis
    using parse_says [OF w(1), of "''PRIVMSG''" q "to @ CHR '' '' # CHR '':'' # t"]
    by (simp add: parse_command_def ts rest [simplified] trailing_def field_or_def parse_channel_def parse_user_def
        parse_other_def to_ascii_uppercase_def ascii_simps)
qed

text \<open>A tag is led by a plus sign, as the tags of a client are.\<close>

definition client_tags :: "(string \<times> string) list \<Rightarrow> bool" where
  "client_tags tags \<longleftrightarrow> (\<forall>(k, v) \<in> set tags. starts_with ''+'' k \<and> CHR '' '' \<notin> set k \<and> CHR '';'' \<notin> set k)"

lemma escape_absent: "CHR '' '' \<notin> set (escape_tag_value v) \<and> CHR '';'' \<notin> set (escape_tag_value v)"
  by (induction v rule: escape_tag_value.induct) auto

lemma clean_join: "fit c \<Longrightarrow> clean (join_with c fs) = join_with c (map clean fs)"
  by (induction c fs rule: join_with.induct) (simp_all add: clean_alt)

lemma set_join: "set (join_with c fs) \<subseteq> insert c (\<Union> (set ` set fs))"
  by (induction c fs rule: join_with.induct) auto

lemma tag_prefix_clean:
  assumes "client_tags tags"
  shows "CHR '' '' \<notin> set (clean (tag_prefix tags))" "msgid_of (clean (tag_prefix tags)) = None"
proof -
  define fs where "fs = map (\<lambda>x. clean (fst x @ ''='' @ escape_tag_value (snd x))) tags"
  have e: "clean (tag_prefix tags) = join_with CHR '';'' fs"
    by (simp add: tag_prefix_def clean_join fit_def fs_def o_def case_prod_beta')
  have f: "CHR '' '' \<notin> set f \<and> CHR '';'' \<notin> set f \<and> strip_prefix ''msgid='' f = None" if "f \<in> set fs" for f
  proof -
    from that obtain x where x: "x \<in> set tags" "f = clean (fst x @ ''='' @ escape_tag_value (snd x))"
      by (auto simp: fs_def)
    define k v where "k = fst x" and "v = snd x"
    have kv: "(k, v) \<in> set tags" "f = clean (k @ ''='' @ escape_tag_value v)"
      using x by (simp_all add: k_def v_def)
    then have k: "starts_with ''+'' k" "CHR '' '' \<notin> set k" "CHR '';'' \<notin> set k"
      using assms by (auto simp: client_tags_def)
    obtain k' where "k = CHR ''+'' # k'" using k(1) by (auto simp: starts_with_iff)
    then have "f = CHR ''+'' # clean (k' @ ''='' @ escape_tag_value v)" using kv(2) by (simp add: clean_alt fit_def)
    then have "strip_prefix ''msgid='' f = None" by (simp add: strip_prefix_def)
    moreover have "CHR '' '' \<notin> set f" "CHR '';'' \<notin> set f"
      using k(2,3) escape_absent [of v] by (auto simp: kv(2) clean_def)
    ultimately show ?thesis by simp
  qed
  show "CHR '' '' \<notin> set (clean (tag_prefix tags))" unfolding e using f set_join [of "CHR '';''" fs] by force
  show "msgid_of (clean (tag_prefix tags)) = None"
  proof (cases fs)
    case Nil
    then show ?thesis unfolding e by (simp add: msgid_of_def strip_prefix_def List.map_filter_simps)
  next
    case (Cons f0 fr)
    then have "split_on CHR '';'' (join_with CHR '';'' fs) = fs" using f by (intro split_on_join) auto
    moreover have "List.map_filter (strip_prefix ''msgid='') fs = []"
      using f by (auto simp: List.map_filter_def filter_empty_conv)
    ultimately show ?thesis unfolding e by (simp add: msgid_of_def)
  qed
qed

lemma parse_tagged:
  assumes "CHR '' '' \<notin> set t" "msgid_of t = None" "\<not> starts_with ''@'' l"
  shows "parse q (CHR ''@'' # t @ CHR '' '' # l) = parse q l"
proof -
  have "strip_tags (CHR ''@'' # t @ CHR '' '' # l) = (t, l)"
    using assms(1) by (simp add: strip_tags_def strip_prefix_def split_once_append)
  moreover have "strip_tags l = ([], l)" using assms(3) by (simp add: strip_tags_def strip_prefix_def starts_with_def)
  moreover have "msgid_of [] = None" by (simp add: msgid_of_def strip_prefix_def List.map_filter_simps)
  ultimately show ?thesis using assms(2) by (simp add: parse_def)
qed

definition read_all :: "protocol \<Rightarrow> string list \<Rightarrow> net_event list" where
  "read_all q ls = concat (map (\<lambda>l. fst (parse q l)) ls)"

text \<open>C5. A message is read as it was written: whatever its text - line breaks and a second command in
  it included - and whatever values its tags carry, the lines the services write for it are read back as
  messages from the same source to the same target with the chunks of that text, and as nothing else.\<close>

theorem messages_read_back:
  assumes "wordy src" "wordy to" "take 1 to \<noteq> '':''" "client_tags tags"
  shows "read_all q (fst (serialize words now p (TaggedAction tags (Talk (Privmsg src to m))))) =
      map (\<lambda>t. ReqEv (PrivmsgIn src to (clean t) None)) (split_body (words m)) \<and>
    read_all q (fst (serialize words now p (Talk (Privmsg src to m)))) =
      map (\<lambda>t. ReqEv (PrivmsgIn src to (clean t) None)) (split_body (words m))"
proof -
  define line where "line t = says src (''PRIVMSG '' @ to @ '' :'' @ clean t)" for t
  have c: "clean (says src (''PRIVMSG '' @ to @ '' :'' @ t)) = line t" for t
    using assms(1,2) by (simp add: line_def says_def wire_simps fit_def)
  have cl: "clean (line t) = line t" for t unfolding c [symmetric] by (rule clean_idem)
  have r: "fst (parse q (line t)) = [ReqEv (PrivmsgIn src to (clean t) None)]" for t
    unfolding line_def parse_privmsg [OF assms(1-3)] by simp
  have plain: "serialize words now p (Talk (Privmsg src to m)) = (map line (split_body (words m)), p)"
    by (simp add: c [simplified] o_def)
  have at: "\<not> starts_with ''@'' (line t)" for t by (simp add: line_def says_def starts_with_def)
  define pre where "pre = clean (tag_prefix tags)"
  have tagged: "clean (CHR ''@'' # tag_prefix tags @ CHR '' '' # line t) = CHR ''@'' # pre @ CHR '' '' # line t" for t
    using cl [of t] by (simp add: clean_alt pre_def fit_def)
  have rt: "parse q (CHR ''@'' # pre @ CHR '' '' # line t) = parse q (line t)" for t
    unfolding pre_def using tag_prefix_clean [OF assms(4)] at by (rule parse_tagged)
  have "read_all q (map line ts) = map (\<lambda>t. ReqEv (PrivmsgIn src to (clean t) None)) ts" for ts
    by (induction ts) (simp_all add: read_all_def r)
  moreover have "read_all q (map (\<lambda>t. CHR ''@'' # pre @ CHR '' '' # line t) ts) =
      map (\<lambda>t. ReqEv (PrivmsgIn src to (clean t) None)) ts" for ts
    by (induction ts) (simp_all add: read_all_def rt r)
  moreover have "fst (serialize words now p (TaggedAction tags (Talk (Privmsg src to m)))) =
      (if \<not> pr_ctctags p \<or> tags = [] then map line (split_body (words m))
       else map (\<lambda>t. CHR ''@'' # pre @ CHR '' '' # line t) (split_body (words m)))"
    unfolding serialize.simps(6) plain by (simp add: o_def cl tagged)
  ultimately show ?thesis unfolding plain by simp
qed

theorem messages_read_back_witness:
  "read_all (protocol_new ''s'' ''d'' ''42S'' ''pw'' 1206 1 ''iHkB'') (fst (serialize (\<lambda>m. case m of Lit s \<Rightarrow> s | _ \<Rightarrow> []) 0
     (protocol_new ''s'' ''d'' ''42S'' ''pw'' 1206 1 ''iHkB'')
     (Talk (Privmsg ''42SAAAAAA'' ''#c'' (Lit (''hi'' @ [CHR 0x0D, CHR 0x0A] @ ''KILL x'')))))) =
   [ReqEv (PrivmsgIn ''42SAAAAAA'' ''#c'' ''hiKILL x'' None)]"
  using messages_read_back [of "''42SAAAAAA''" "''#c''" "[]" _ "\<lambda>m. case m of Lit s \<Rightarrow> s | _ \<Rightarrow> []" 0 _
      "Lit (''hi'' @ [CHR 0x0D, CHR 0x0A] @ ''KILL x'')"]
  by (simp add: wordy_def fit_def client_tags_def split_body_def max_msg_text_def utf8_len_def ascii_simps clean_def
      del: serialize.simps)

subsection \<open>Our own changes\<close>

definition ours :: "protocol \<Rightarrow> string \<Rightarrow> bool" where
  "ours p src \<longleftrightarrow> from_us p src \<and> wordy src"

text \<open>The changes of modes, topics, names, operator types and user data that come from the services.\<close>

fun own_change :: "protocol \<Rightarrow> net_action \<Rightarrow> bool" where
  "own_change p (OnChannel (ChannelMode src chan ms)) \<longleftrightarrow> src = [] \<or> ours p src"
| "own_change p (OnChannel (SetTopic src chan topic setter)) \<longleftrightarrow> ours p src"
| "own_change p (OnChannel (RenameChannel src old new why)) \<longleftrightarrow> ours p src"
| "own_change p (OnUser (UserMode uid ms)) \<longleftrightarrow> True"
| "own_change p (OnUser (OperType uid oper_type)) \<longleftrightarrow> ours p uid"
| "own_change p (OnLink (Metadata target k val)) \<longleftrightarrow> True"
| "own_change p a \<longleftrightarrow> False"

lemma skipped:
  assumes "ours q src" "cmd \<in> {''FMODE'', ''FTOPIC'', ''RENAME'', ''MODE'', ''OPERTYPE'', ''METADATA''}"
  shows "fst (parse q (says src (cmd @ CHR '' '' # r))) = []"
proof -
  have s: "CHR '' '' \<notin> set src" "from_us q src" using assms(1) by (simp_all add: ours_def wordy_def)
  have cmd: "CHR '' '' \<notin> set cmd" "to_ascii_uppercase cmd = cmd"
    using assms(2) by (auto simp: to_ascii_uppercase_def ascii_simps)
  show ?thesis
    using assms(2) unfolding parse_says [OF s(1) cmd(1)] cmd(2) parse_command_def
    by (elim insertE emptyE) (simp_all add: s(2) parse_channel_def parse_user_def parse_fmode_def parse_ftopic_def
        parse_rename_def parse_mode_def parse_metadata_def split: option.split)
qed



subsection \<open>Whose parameter is whose\<close>

text \<open>The reference: every letter of a mode change with its sign and the parameter it takes, if any.\<close>

fun paired ::
  "(char \<rightharpoonup> chan_mode_cap) \<Rightarrow> bool \<Rightarrow> string \<Rightarrow> string list \<Rightarrow> (bool \<times> char \<times> string option) list" where
  "paired learned adding [] ps = []"
| "paired learned adding (m # ms) ps =
     (if m = CHR ''+'' then paired learned True ms ps
      else if m = CHR ''-'' then paired learned False ms ps
      else if arity learned m adding then (adding, m, field ps 0) # paired learned adding ms (drop 1 ps)
      else (adding, m, None) # paired learned adding ms ps)"

definition always_takes :: "(char \<rightharpoonup> chan_mode_cap) \<Rightarrow> char \<Rightarrow> bool" where
  "always_takes learned m \<longleftrightarrow> arity learned m True \<and> arity learned m False"

definition status_of :: "char \<Rightarrow> (bool \<times> char \<times> string option) \<Rightarrow> (bool \<times> string) option" where
  "status_of want x = (case x of (adding, m, v) \<Rightarrow> if m = want then map_option (Pair adding) v else None)"

definition key_of :: "(bool \<times> char \<times> string option) \<Rightarrow> string option option \<Rightarrow> string option option" where
  "key_of x found = (case x of (adding, m, v) \<Rightarrow> if m = CHR ''k'' then Some (if adding then v else None) else found)"

lemma scan_status_paired:
  assumes "always_takes learned want" "want \<noteq> CHR ''+''" "want \<noteq> CHR ''-''"
  shows "scan_status_from learned want adding ms ps = List.map_filter (status_of want) (paired learned adding ms ps)"
  using assms
proof (induction learned want adding ms ps rule: scan_status_from.induct)
  case (2 learned want adding m ms ps)
  then show ?case
    by (cases adding) (auto simp: always_takes_def List.map_filter_simps status_of_def split: option.split)
qed (simp add: List.map_filter_simps)

lemma scan_key_paired:
  assumes "always_takes learned (CHR ''k'')"
  shows "scan_key_from learned adding found ms ps = fold key_of (paired learned adding ms ps) found"
  using assms
proof (induction learned adding found ms ps rule: scan_key_from.induct)
  case (2 learned adding found m ms ps)
  then show ?case by (cases adding) (auto simp: always_takes_def key_of_def)
qed simp

text \<open>C12. The scans for the key and for a status letter read the parameters of a mode change alike: each
  agrees with the one list that pairs every letter with its sign and its parameter, as the uplink announced
  which letters take one - the status changes are the entries of that letter, the key is what its last
  entry says.\<close>

theorem mode_scans_agree:
  assumes "always_takes learned (CHR ''k'')" "always_takes learned want" "want \<noteq> CHR ''+''" "want \<noteq> CHR ''-''"
  shows "scan_status ms ps want learned = List.map_filter (status_of want) (paired learned True ms ps) \<and>
    scan_key ms ps learned = fold key_of (paired learned True ms ps) None"
  using scan_status_paired [OF assms(2-4)] scan_key_paired [OF assms(1)] by (simp add: scan_status_def scan_key_def)

theorem mode_scans_agree_witness:
  "scan_status ''+klo-o'' [''pass'', ''10'', ''0IRAAAAAB'', ''0IRAAAAAC''] CHR ''o'' Map.empty =
     [(True, ''0IRAAAAAB''), (False, ''0IRAAAAAC'')]"
  using mode_scans_agree [of Map.empty "CHR ''o''" "''+klo-o''" "[''pass'', ''10'', ''0IRAAAAAB'', ''0IRAAAAAC'']"]
  by (simp add: always_takes_def arity_def chanmode_takes_param_def status_of_def field_def List.map_filter_simps)

subsection \<open>Long messages\<close>

lemma utf8_len_append: "utf8_len (a @ b) = utf8_len a + utf8_len b"
  by (simp add: utf8_len_def)

lemma take_bytes_len: "utf8_len (take_bytes n s) \<le> n"
  by (induction n s rule: take_bytes.induct) (auto simp: Let_def utf8_len_def split: if_splits)

lemma cut_at_len: "utf8_len (cut_at s) \<le> max_msg_text"
proof -
  obtain r where "take_bytes max_msg_text s = cut_at s @ r" using cut_at_prefix by blast
  then show ?thesis using take_bytes_len [of max_msg_text s] by (simp add: utf8_len_append)
qed

text \<open>The chunks with so many spaces put back behind each.\<close>

definition respaced :: "string list \<Rightarrow> nat list \<Rightarrow> string" where
  "respaced ts ns = concat (map2 (\<lambda>t n. t @ replicate n (CHR '' '')) ts ns)"

lemma leading_spaces: "\<exists>n. s = replicate n (CHR '' '') @ dropWhile (\<lambda>c. c = CHR '' '') s"
proof (induction s)
  case (Cons c s)
  then show ?case
    by (cases "c = CHR '' ''") (auto intro: exI [of _ "Suc n" for n] exI [of _ 0])
qed simp

lemma split_long_respaced:
  "\<exists>ns. length ns = length (split_long s) \<and> s = respaced (split_long s) ns"
proof (induction s rule: split_long.induct)
  case (1 s)
  show ?case
  proof (cases "utf8_len s > max_msg_text")
    case True
    define t where "t = drop (length (cut_at s)) s"
    define r where "r = dropWhile (\<lambda>c. c = CHR '' '') t"
    obtain n where n: "t = replicate n (CHR '' '') @ r" using leading_spaces [of t] by (auto simp: r_def)
    from 1 True obtain ns where ns: "length ns = length (split_long r)" "r = respaced (split_long r) ns"
      unfolding r_def t_def by blast
    have "split_long s = cut_at s # split_long r" using True by (subst split_long.simps) (simp add: r_def t_def)
    moreover have "s = cut_at s @ t" unfolding t_def by (rule cut_at_split)
    ultimately show ?thesis using n ns by (intro exI [of _ "n # ns"]) (simp add: respaced_def)
  next
    case False
    then show ?thesis
      by (subst (1 2) split_long.simps) (auto simp: respaced_def intro: exI [of _ "[0]"])
  qed
qed

lemma split_long_short: "t \<in> set (split_long s) \<Longrightarrow> t \<noteq> [] \<and> utf8_len t \<le> max_msg_text"
proof (induction s rule: split_long.induct)
  case (1 s)
  show ?case
  proof (cases "utf8_len s > max_msg_text")
    case True
    then have "s \<noteq> []" by (auto simp: utf8_len_def)
    moreover have "split_long s = cut_at s # split_long (dropWhile (\<lambda>c. c = CHR '' '') (drop (length (cut_at s)) s))"
      using True by (subst split_long.simps) simp
    ultimately show ?thesis using True 1 cut_at_len [of s] cut_at_nonempty [of s] by auto
  next
    case False
    with 1(2) show ?thesis by (subst (asm) split_long.simps) (auto split: if_splits)
  qed
qed



end
