(* ===== verification/UplinkProps.thy ===== *)
theory UplinkProps
  imports Uplink WireProps EngineProps
begin

text \<open>
  The loop over the uplink keeps the engine sound and writes only whole lines, whatever the other tasks do
  in between; the lines arrive as they were written; and what is logged shows no credential.
\<close>

subsection \<open>The loop\<close>

definition link_ok :: "modules \<Rightarrow> string \<Rightarrow> uplink \<Rightarrow> bool" where
  "link_ok md own u \<longleftrightarrow> engine_run md own (ul_engine u) \<and> (\<forall>l \<in> set (ul_lines u). list_all fit l)"

lemma put_engine_simps [simp]:
  "ul_engine (put_engine g u) = g" "ul_lines (put_engine g u) = ul_lines u" "ul_protocol (put_engine g u) = ul_protocol u"
  by (simp_all add: put_engine_def)

lemma write_lines_frame: "ul_engine (write_lines ot now acts u) = ul_engine u"
  by (induction acts arbitrary: u) (simp_all add: write_lines_def case_prod_beta Let_def)

lemma write_lines_fit:
  "\<forall>l \<in> set (ul_lines u). list_all fit l \<Longrightarrow> \<forall>l \<in> set (ul_lines (write_lines ot now acts u)). list_all fit l"
proof (induction acts arbitrary: u)
  case (Cons a acts)
  define s where "s = serialize (ot_words ot) now (ul_protocol u) a"
  have "\<forall>l \<in> set (ul_lines (u\<lparr>ul_lines := ul_lines u @ fst s, ul_protocol := snd s\<rparr>)). list_all fit l"
    using Cons.prems by (auto simp: s_def intro: serialize_fit)
  from Cons.IH [OF this] show ?case by (simp add: write_lines_def s_def [symmetric] case_prod_beta Let_def)
qed (simp add: write_lines_def)

lemma link_ok_write: "link_ok md own u \<Longrightarrow> link_ok md own (write_lines ot now acts u)"
  unfolding link_ok_def write_lines_frame by (blast dest: write_lines_fit)

lemma link_ok_put:
  "link_ok md own u \<Longrightarrow> orders_ok v \<Longrightarrow> permitted dt (ul_engine u) \<Longrightarrow> g = perform v md dt (ul_engine u) \<Longrightarrow>
    link_ok md own (put_engine g u)"
  by (auto simp: link_ok_def intro: engine_run.Duty)

lemma link_ok_queues [simp]:
  "link_ok md own (u\<lparr>ul_events := es\<rparr>) = link_ok md own u"
  "link_ok md own (u\<lparr>ul_protocol := q\<rparr>) = link_ok md own u"
  "link_ok md own (u\<lparr>ul_actions := acts\<rparr>) = link_ok md own u"
  "link_ok md own (u\<lparr>ul_outs := outs\<rparr>) = link_ok md own u"
  "link_ok md own (u\<lparr>ul_deriving := job\<rparr>) = link_ok md own u"
  "link_ok md own (u\<lparr>ul_redeeming := jobs\<rparr>) = link_ok md own u"
  "link_ok md own (u\<lparr>ul_irc := acts\<rparr>) = link_ok md own u"
  "link_ok md own (u\<lparr>ul_mails := mails\<rparr>) = link_ok md own u"
  "link_ok md own (u\<lparr>ul_lookups := ws\<rparr>) = link_ok md own u"
  "link_ok md own (u\<lparr>ul_stopped := stopped\<rparr>) = link_ok md own u"
  by (simp_all add: link_ok_def)

lemma link_ok_resolve:
  assumes "link_ok md own u" "orders_ok v" "\<forall>pw. derived (ot_derive ot pw)"
  shows "link_ok md own (resolve v ot a u)"
proof -
  note put = link_ok_put [OF assms(1,2)]
  have one: "link_ok md own (put_engine (snd (pre_register_check v acct to (ul_engine u))) u)"
    "link_ok md own (put_engine (snd (complete_password_change acct (ot_derive ot pw) agent uid (ul_engine u))) u)"
    "link_ok md own (put_engine (snd (complete_authenticate v success how (ul_engine u))) u)"
    "link_ok md own (put_engine (snd (rehash compiles parsed path requester agent (ul_engine u))) u)"
    for acct to pw agent uid success how compiles parsed path requester
    using put [where dt = "AskRegister acct to"] put [where dt = "PasswordChanged acct (ot_derive ot pw) agent uid"]
      put [where dt = "Authenticated success how"] put [where dt = "Reload compiles parsed path requester agent"] assms(3)
    by simp_all
  show ?thesis
  proof (cases a)
    case (Deferred d)
    then show ?thesis
      using assms(1) one
      by (cases d) (auto simp: resolve_def Let_def case_prod_beta split: prod.split option.split dest: arg_cong [where f = snd])
  qed (use assms(1) in \<open>simp_all add: resolve_def\<close>)
qed

lemma link_ok_finish:
  assumes "link_ok md own u" "orders_ok v"
  shows "link_ok md own (finish_register v ot job u)"
  using assms(1) link_ok_put [OF assms, where dt = "EngineRun.Registered acct creds email to" for acct creds email to]
  by (auto simp: finish_register_def Let_def case_prod_beta split: option.split)

lemma engine_run_persist:
  assumes "engine_run md own g" "enumerates ks (network.w_stats (g_network g))"
  shows "engine_run md own (persist_all ks kc kt g)"
proof -
  have "engine_run md own (perform plain_env md (StatsTimer ks kc kt) g)"
    using assms by (intro engine_run.Duty plain_orders) simp_all
  from engine_run.Duty [OF this plain_orders, of IncidentTimer] show ?thesis by (simp add: persist_all_def)
qed

lemma link_ok_transmit:
  assumes "link_ok md own u" "enumerates ks (network.w_stats (g_network (ul_engine u)))"
  shows "link_ok md own (transmit ot now ks kc kt a u)"
proof -
  have "engine_run md own (persist_all ks kc kt (ul_engine u))"
    using assms by (intro engine_run_persist) (simp_all add: link_ok_def)
  then have "link_ok md own (put_engine (persist_all ks kc kt (ul_engine u)) u)"
    using assms(1) by (simp add: link_ok_def)
  then show ?thesis
    using assms(1) by (auto simp: transmit_def link_ok_write split: net_action.split deferred_action.split)
qed

lemma link_ok_drain:
  "link_ok md own u \<Longrightarrow> enumerates ks (network.w_stats (g_network (ul_engine u))) \<Longrightarrow>
    link_ok md own (drain_one ot now ks kc kt a u)"
  by (auto simp: drain_one_def link_ok_write link_ok_transmit split: net_action.split deferred_action.split)

lemma link_ok_up:
  assumes "engine_run md own g" "orders_ok v" "list_all (list_all fit) (handshake p)"
  shows "link_ok md own (link_up v ot p g)"
proof -
  have "engine_run md own (snd (startup_actions v g))"
    using engine_run.Duty [OF assms(1,2), of LinkUp] by simp
  then show ?thesis
    unfolding link_up_def case_prod_beta Let_def
    by (intro link_ok_write) (use assms(3) in \<open>simp add: link_ok_def list_all_iff\<close>)
qed

lemma uplink_run_ok:
  assumes "uplink_run md ot own p u" "list_all (list_all fit) (handshake p)" "\<forall>pw. derived (ot_derive ot pw)"
  shows "link_ok md own u"
  using assms(1)
proof induction
  case (Connect g v)
  then show ?case using assms(2) by (intro link_ok_up)
next
  case (Receive u line es q)
  then show ?case by simp
next
  case (Event u v e es acts g)
  have "link_ok md own (put_engine g u)"
    using Event by (intro link_ok_put [where dt = "Happens e" and v = v]) auto
  then show ?case by simp
next
  case (Resolve u v a acts)
  then show ?case using assms(3) by (simp add: link_ok_resolve)
next
  case (Derived u v job)
  then show ?case by (simp add: link_ok_finish)
next
  case (Transmit u a outs ks now kc kt)
  then show ?case by (intro link_ok_transmit) simp_all
next
  case (Drain u a acts ks now kc kt)
  then show ?case by (intro link_ok_drain) simp_all
next
  case (Redeemed u v before token acct how after acts g u1)
  have "link_ok md own u1"
    unfolding Redeemed(6) using Redeemed
    by (intro link_ok_put [where dt = "Authenticated (ot_redeem ot acct token) how" and v = v]) auto
  then show ?case by simp
next
  case (LookedUp u before job after outs found)
  then show ?case by simp
next
  case (Elsewhere u v dt)
  then show ?case by (intro link_ok_put) auto
qed


definition quiet_outside :: outside where
  "quiet_outside = \<lparr>ot_words = (\<lambda>m. case m of Lit s \<Rightarrow> s | _ \<Rightarrow> []), ot_mx = (\<lambda>_. None), ot_derive = (\<lambda>_. None),
     ot_redeem = (\<lambda>_ _. False), ot_compiles = (\<lambda>_. True), ot_config = Inl ''no file'', ot_path = ''config.toml''\<rparr>"

definition quiet_protocol :: protocol where
  "quiet_protocol = protocol_new ''services.test'' ''Services'' ''42S'' ''pw'' 1206 1 ''iHkB''"

lemma quiet_link:
  "uplink_run quiet_modules quiet_outside ''n1'' quiet_protocol (link_up plain_env quiet_outside quiet_protocol busy_engine)"
  "list_all (list_all fit) (handshake quiet_protocol)" "\<forall>pw. derived (ot_derive quiet_outside pw)"
proof -
  have "list_all fit (show_nat 1206)"
    using show_nat_digits [of 1206] by (auto simp: list_all_iff is_ascii_digit_def code_def fit_def)
  then show "list_all (list_all fit) (handshake quiet_protocol)"
    by (simp add: handshake_def quiet_protocol_def protocol_new_def fit_def)
qed (simp_all add: uplink_run.Connect [OF busy_run plain_orders] derived_def quiet_outside_def)


subsection \<open>Frames\<close>

lemma utf8_avoids:
  assumes "n < 128" "code c \<noteq> n"
  shows "of_nat n \<notin> set (utf8_char c)"
proof -
  have u: "unat (of_nat n :: 8 word) = n" if "n < 256" for n using that by (simp add: unat_of_nat)
  have ne: "(of_nat m :: 8 word) \<noteq> of_nat n" if m: "m < 256" "m \<noteq> n" for m
  proof
    assume "(of_nat m :: 8 word) = of_nat n"
    then have "unat (of_nat m :: 8 word) = unat (of_nat n :: 8 word)" by (rule arg_cong)
    with u [OF m(1)] u [of n] assms(1) m(2) show False by simp
  qed
  have lt: "192 + code c div 64 < 256" "128 + code c mod 64 < 256" using code_lt [of c] by simp_all
  have "192 + code c div 64 \<noteq> n" "128 + code c mod 64 \<noteq> n" using assms(1) by simp_all
  from ne [OF lt(1) this(1)] ne [OF lt(2) this(2)] ne [OF code_lt assms(2)]
  show ?thesis unfolding utf8_char_def by (simp del: of_nat_add)
qed

lemma fit_code: "fit c \<Longrightarrow> code c \<noteq> 10 \<and> code c \<noteq> 13"
proof
  have eq: "c = d" if "code c = code d" for d using arg_cong [OF that, of "char_of :: nat \<Rightarrow> char"] unfolding char_of_code .
  assume "fit c"
  then show "code c \<noteq> 10" "code c \<noteq> 13"
    using eq [of "CHR 0x0A"] eq [of "CHR 0x0D"] by (auto simp: fit_def code_def)
qed

lemma bytes_no_break: "list_all fit l \<Longrightarrow> lf \<notin> set (as_bytes l) \<and> cr \<notin> set (as_bytes l)"
  using utf8_avoids [of 10] utf8_avoids [of 13] fit_code by (auto simp: as_bytes_def list_all_iff lf_def cr_def)

lemma read_plain:
  "lf \<notin> set a \<Longrightarrow> read_uplink_line cap buf (a @ s) =
     read_uplink_line cap (buf @ take (cap - length buf) a) s"
proof (induction a arbitrary: buf)
  case (Cons b a)
  then have "b \<noteq> lf" "lf \<notin> set a" by auto
  moreover have "cap - length buf = Suc n \<Longrightarrow> cap - Suc (length buf) = n" for n by linarith
  ultimately show ?case using Cons.IH by (cases "cap - length buf") auto
qed simp

lemma read_sent:
  assumes "list_all fit l" "length (as_bytes l) \<le> cap"
  shows "read_uplink_line cap [] (send l @ s) = (Some (as_bytes l), s)"
proof -
  define b where "b = as_bytes l"
  have b: "lf \<notin> set b" "cr \<notin> set b" "length b \<le> cap" using bytes_no_break assms by (auto simp: b_def)
  have "read_uplink_line cap [] (send l @ s) = read_uplink_line cap b ([cr] @ lf # s)"
    using read_plain [OF b(1), of cap "[]"] b(3) by (simp add: send_def b_def)
  also have "\<dots> = read_uplink_line cap (b @ take (cap - length b) [cr]) (lf # s)"
    by (rule read_plain) (simp add: lf_def cr_def)
  also have "\<dots> = (Some (strip_cr (b @ take (cap - length b) [cr])), s)" by simp
  also have "strip_cr (b @ take (cap - length b) [cr]) = b"
  proof (cases "cap - length b")
    case 0
    have "b \<noteq> [] \<Longrightarrow> last b \<noteq> cr" using b(2) last_in_set [of b] by metis
    with 0 show ?thesis by (cases "b = []") (simp_all add: strip_cr_def)
  qed (simp add: strip_cr_def)
  finally show ?thesis by (simp add: b_def)
qed

text \<open>C6. Lines arrive as they were written: from the bytes the services send for any actions, a reader with
  the same framing recovers exactly the lines written, decoded again, as long as they fit its buffer; no
  text can split a line in two or run two into one.\<close>

theorem lines_arrive:
  assumes "ls = concat (map (\<lambda>a. fst (serialize words now p a)) acts)"
    and "\<forall>l \<in> set ls. length (as_bytes l) \<le> max_uplink_line"
  shows "map from_utf8 (frames max_uplink_line (concat (map send ls))) = map Some ls"
proof -
  have fit: "\<forall>l \<in> set ls. list_all fit l" using assms(1) by (auto intro: serialize_fit)
  have "frames max_uplink_line (concat (map send ls)) = map as_bytes ls"
    using fit assms(2)
  proof (induction ls)
    case (Cons l ls)
    then have "read_uplink_line max_uplink_line [] (send l @ concat (map send ls)) = (Some (as_bytes l), concat (map send ls))"
      by (intro read_sent) simp_all
    moreover have "send l @ concat (map send ls) \<noteq> []" by (simp add: send_def)
    ultimately show ?case using Cons by (subst frames.simps) simp
  qed (simp add: frames.simps)
  then show ?thesis by simp
qed

theorem lines_arrive_witness:
  "map from_utf8 (frames max_uplink_line (concat (map send (fst (serialize (ot_words quiet_outside) 0 quiet_protocol
     (Talk (Notice ''42SAAAAAA'' ''0IRAAAAAB'' (Lit ''hi'')))))))) = [Some '':42SAAAAAA NOTICE 0IRAAAAAB :hi'']"
proof -
  have l: "fst (serialize (ot_words quiet_outside) 0 quiet_protocol (Talk (Notice ''42SAAAAAA'' ''0IRAAAAAB'' (Lit ''hi'')))) =
      ['':42SAAAAAA NOTICE 0IRAAAAAB :hi'']"
    by (simp add: quiet_outside_def split_body_def max_msg_text_def utf8_len_def ascii_simps says_def clean_simps fit_def)
  show ?thesis
    using lines_arrive [of _ "ot_words quiet_outside" 0 quiet_protocol
        "[Talk (Notice ''42SAAAAAA'' ''0IRAAAAAB'' (Lit ''hi''))]", OF refl]
    unfolding list.map concat.simps append_Nil2 l
    by (simp add: as_bytes_def utf8_char_def max_uplink_line_def ascii_simps)
qed

subsection \<open>What is logged\<close>

lemma split_sub_at: "w = c # w' \<Longrightarrow> c \<notin> set a \<Longrightarrow> split_sub w (a @ w @ r) = Some (a, r)"
  by (induction a) (auto simp: starts_with_def)

text \<open>A message that carries a credential - to identify, register, regain a nick, set or confirm a
  password, whatever spaces stand between its words and with or without the name of the service before it -
  is logged without it: two such lines with the same sender and target are logged alike.\<close>

theorem secrets_are_redacted:
  assumes "credential_bearing t" "credential_bearing t'" "CHR '' '' \<notin> set src" "CHR '' '' \<notin> set to"
  shows "redact (says src (''PRIVMSG '' @ to @ '' :'' @ t)) = redact (says src (''PRIVMSG '' @ to @ '' :'' @ t'))"
proof -
  have "redact_message '' PRIVMSG '' (says src (''PRIVMSG '' @ to @ '' :'' @ t)) =
      Some (rev (trim_colons (rev ((CHR '':'' # src) @ '' PRIVMSG '' @ to @ '' :''))) @ '' :[REDACTED]'')"
    if "credential_bearing t" for t
  proof -
    have "split_sub '' PRIVMSG '' ((CHR '':'' # src) @ '' PRIVMSG '' @ to @ '' :'' @ t) = Some (CHR '':'' # src, to @ '' :'' @ t)"
      by (rule split_sub_at [where c = "CHR '' ''"]) (use assms(3) in simp_all)
    moreover have "split_sub '' :'' (to @ '' :'' @ t) = Some (to, t)"
      by (rule split_sub_at [where c = "CHR '' ''"]) (use assms(4) in simp_all)
    moreover have "says src (''PRIVMSG '' @ to @ '' :'' @ t) = (CHR '':'' # src) @ '' PRIVMSG '' @ to @ '' :'' @ t"
      by (simp add: says_def)
    ultimately show ?thesis using that unfolding redact_message_def by (simp del: append.simps)
  qed
  from this [OF assms(1)] this [OF assms(2)] show ?thesis by (simp add: redact_def)
qed

theorem secrets_are_redacted_witness:
  "redact (says ''0IRAAAAAB'' (''PRIVMSG '' @ ''NickServ'' @ '' :'' @ ''IDENTIFY  hunter2'')) =
   redact (says ''0IRAAAAAB'' (''PRIVMSG '' @ ''NickServ'' @ '' :'' @ ''ns set PASSWORD other''))"
  by (rule secrets_are_redacted) code_simp+

text \<open>The services listen to \<open>SQUERY\<close> too, but a \<open>PRIVMSG\<close> in its text is taken for the command.\<close>

lemma squery_shows_password:
  "redact '':0IRAAAAAB SQUERY NickServ :identify hunter2 PRIVMSG x :id'' =
     '':0IRAAAAAB SQUERY NickServ :identify hunter2 PRIVMSG x :[REDACTED]''"
  by code_simp

end
