(* ===== verification/Gossip.thy ===== *)
theory Gossip
  imports Uplink
begin

text \<open>
  The links between nodes (src/src/gossip.rs): capped lines, the mutual challenge-response over the shared
  secret, and the exchange of digests and log entries behind it. A link is one side of a connection, what
  \<^verbatim>\<open>session\<close> keeps in its local variables. HMAC-SHA256 with its base64 is the parameter \<open>hm\<close>; JSON is outside:
  a line is the message it encodes, or none. \<open>gossip_run\<close> puts the links of every holder of the secret on
  one wire that belongs to an adversary: it sees everything, drops, reorders and makes up messages, and
  can do all but compute a proof it has not seen.
\<close>

subsection \<open>Lines\<close>

definition max_gossip_line :: nat where "max_gossip_line = 2 ^ 20"

datatype capped = Whole bytes | Ended | Oversized

fun read_line_capped :: "nat \<Rightarrow> bytes \<Rightarrow> bytes \<Rightarrow> capped \<times> bytes" where
  "read_line_capped cap buf [] = (if buf = [] then Ended else Whole buf, [])"
| "read_line_capped cap buf (b # s) =
     (if b = lf then (Whole buf, s)
      else if length (buf @ [b]) > cap then (Oversized, s)
      else read_line_capped cap (buf @ [b]) s)"

subsection \<open>Messages and sides\<close>

datatype gossip_msg =
  Hello string string
| Auth string
| Digest "string \<rightharpoonup> cursor" bool
| Entry log_entry

definition auth_proof :: "(string \<Rightarrow> string \<Rightarrow> string) \<Rightarrow> string \<Rightarrow> string \<Rightarrow> string \<Rightarrow> string" where
  "auth_proof hm secret direction nonce = hm secret (direction @ [CHR 0x00] @ nonce)"

datatype gossip_phase = AwaitHello | AwaitAuth | Authenticated_peer | Hung_up

record link =
  lk_listener :: bool
  lk_nonce :: string
  lk_peer_nonce :: "string option"
  lk_phase :: gossip_phase
  lk_sent :: "gossip_msg list"

definition my_direction :: "link \<Rightarrow> string" where
  "my_direction l = (if lk_listener l then ''L'' else ''D'')"

definition peer_direction :: "link \<Rightarrow> string" where
  "peer_direction l = (if lk_listener l then ''D'' else ''L'')"

definition tell :: "gossip_msg \<Rightarrow> link \<Rightarrow> link" where
  "tell m l = l\<lparr>lk_sent := lk_sent l @ [m]\<rparr>"

definition gossip_start :: "string \<Rightarrow> bool \<Rightarrow> string \<Rightarrow> link" where
  "gossip_start origin listener nonce =
     \<lparr>lk_listener = listener, lk_nonce = nonce, lk_peer_nonce = None, lk_phase = AwaitHello,
      lk_sent = [Hello origin nonce]\<rparr>"

subsection \<open>What is read\<close>

definition read_hello ::
  "(string \<Rightarrow> string \<Rightarrow> string) \<Rightarrow> string \<Rightarrow> gossip_msg option \<Rightarrow> link \<Rightarrow> link" where
  "read_hello hm secret m l =
     (case m of
        Some (Hello _ nonce) \<Rightarrow>
          if nonce = lk_nonce l then l\<lparr>lk_phase := Hung_up\<rparr>
          else tell (Auth (auth_proof hm secret (my_direction l) nonce))
            (l\<lparr>lk_peer_nonce := Some nonce, lk_phase := AwaitAuth\<rparr>)
      | _ \<Rightarrow> l\<lparr>lk_phase := Hung_up\<rparr>)"

definition read_auth ::
  "(string \<Rightarrow> string \<Rightarrow> string) \<Rightarrow> string \<Rightarrow> gossip_msg option \<Rightarrow> link \<Rightarrow> link" where
  "read_auth hm secret m l =
     (case m of
        Some (Auth token) \<Rightarrow>
          l\<lparr>lk_phase := if token = auth_proof hm secret (peer_direction l) (lk_nonce l) then Authenticated_peer else Hung_up\<rparr>
      | _ \<Rightarrow> l\<lparr>lk_phase := Hung_up\<rparr>)"

text \<open>A digest is answered with what the peer lacks and, when it asks, with our own digest; the engine is
  locked anew for the latter (\<open>later\<close>). A write error of an ingested entry is logged and no more.\<close>

definition read_peer :: "env \<Rightarrow> gossip_msg option \<Rightarrow> engine \<Rightarrow> link \<Rightarrow> engine \<Rightarrow> link \<times> engine" where
  "read_peer v m later l g =
     (case m of
        Some (Digest versions wanted) \<Rightarrow>
          (let l1 = fold (tell \<circ> Entry) (gossip_missing versions g) l
           in (if wanted then tell (Digest (gossip_digest later) False) l1 else l1, g))
      | Some (Entry e) \<Rightarrow> (l, snd (gossip_ingest v e g))
      | _ \<Rightarrow> (l, g))"

fun gossip_read ::
  "(string \<Rightarrow> string \<Rightarrow> string) \<Rightarrow> string \<Rightarrow> env \<Rightarrow> gossip_msg option \<Rightarrow> engine \<Rightarrow> link \<Rightarrow> engine \<Rightarrow> link \<times> engine" where
  "gossip_read hm secret v m later l g =
     (case lk_phase l of
        AwaitHello \<Rightarrow> (read_hello hm secret m l, g)
      | AwaitAuth \<Rightarrow> (read_auth hm secret m l, g)
      | Authenticated_peer \<Rightarrow> read_peer v m later l g
      | Hung_up \<Rightarrow> (l, g))"

declare gossip_read.simps [simp del]

subsection \<open>The ticker and the forwarder, which start behind the handshake\<close>

definition gossip_tick :: "engine \<Rightarrow> link \<Rightarrow> link" where
  "gossip_tick g l = (if lk_phase l = Authenticated_peer then tell (Digest (gossip_digest g) False) l else l)"

definition gossip_push :: "log_entry \<Rightarrow> link \<Rightarrow> link" where
  "gossip_push e l = (if lk_phase l = Authenticated_peer \<and> entry_global e then tell (Entry e) l else l)"

definition gossip_lagged :: "engine \<Rightarrow> link \<Rightarrow> link" where
  "gossip_lagged g l = (if lk_phase l = Authenticated_peer then tell (Digest (gossip_digest g) True) l else l)"

subsection \<open>The wire\<close>

text \<open>A proof that somebody holding the secret could have made comes only from somebody who did. Nonces
  are 24 random bytes, so no two links draw the same.\<close>

definition possible :: "(string \<Rightarrow> string \<Rightarrow> string) \<Rightarrow> string \<Rightarrow> link list \<Rightarrow> gossip_msg option \<Rightarrow> bool" where
  "possible hm secret ls m \<longleftrightarrow>
     (\<forall>token. m = Some (Auth token) \<longrightarrow> token \<in> range (hm secret) \<longrightarrow> (\<exists>l \<in> set ls. Auth token \<in> set (lk_sent l)))"

inductive gossip_run :: "(string \<Rightarrow> string \<Rightarrow> string) \<Rightarrow> string \<Rightarrow> link list \<Rightarrow> bool"
  for hm :: "string \<Rightarrow> string \<Rightarrow> string" and secret :: string where
  Quiet: "gossip_run hm secret []"
| Start: "gossip_run hm secret ls \<Longrightarrow> nonce \<notin> lk_nonce ` set ls \<Longrightarrow>
    gossip_run hm secret (gossip_start origin listener nonce # ls)"
| Read: "gossip_run hm secret (before @ l # after) \<Longrightarrow> possible hm secret (before @ l # after) m \<Longrightarrow>
    gossip_run hm secret (before @ fst (gossip_read hm secret v m later l g) # after)"
| Tick: "gossip_run hm secret (before @ l # after) \<Longrightarrow> gossip_run hm secret (before @ gossip_tick g l # after)"
| Push: "gossip_run hm secret (before @ l # after) \<Longrightarrow> gossip_run hm secret (before @ gossip_push e l # after)"
| Lag: "gossip_run hm secret (before @ l # after) \<Longrightarrow> gossip_run hm secret (before @ gossip_lagged g l # after)"
| Close: "gossip_run hm secret (before @ l # after) \<Longrightarrow> gossip_run hm secret (before @ l\<lparr>lk_phase := Hung_up\<rparr> # after)"

end
