(* ===== verification/GossipProps.thy ===== *)
theory GossipProps
  imports Gossip Replication SessionProps
begin

text \<open>
  Links between nodes: nothing of the log passes a link before somebody who holds the secret, in the other
  role, has answered its nonce; honest peers come through the handshake, and a digest then closes the gap
  between their logs, whatever the entries set off at the receiver.
\<close>

subsection \<open>Lines\<close>

lemma read_line_capped_bounded:
  "length buf \<le> cap \<Longrightarrow> fst (read_line_capped cap buf s) = Whole l \<Longrightarrow> length l \<le> cap"
  by (induction cap buf s rule: read_line_capped.induct) (auto simp: Let_def split: if_splits)

subsection \<open>The handshake under attack\<close>

definition vouched :: "(string \<Rightarrow> string \<Rightarrow> string) \<Rightarrow> string \<Rightarrow> link list \<Rightarrow> link \<Rightarrow> bool" where
  "vouched hm secret ls l \<longleftrightarrow>
     (\<exists>l' \<in> set ls. Auth (auth_proof hm secret (peer_direction l) (lk_nonce l)) \<in> set (lk_sent l'))"

definition talks :: "link \<Rightarrow> bool" where
  "talks l \<longleftrightarrow> lk_phase l = Authenticated_peer \<or> (\<exists>m \<in> set (lk_sent l). case m of Digest _ _ \<Rightarrow> True | Entry _ \<Rightarrow> True | _ \<Rightarrow> False)"

definition answers :: "(string \<Rightarrow> string \<Rightarrow> string) \<Rightarrow> string \<Rightarrow> link \<Rightarrow> bool" where
  "answers hm secret l \<longleftrightarrow>
     (lk_phase l = AwaitHello \<longrightarrow> lk_peer_nonce l = None) \<and>
     (\<forall>token. Auth token \<in> set (lk_sent l) \<longrightarrow>
        (\<exists>n. lk_peer_nonce l = Some n \<and> token = auth_proof hm secret (my_direction l) n))"

definition links_ok :: "(string \<Rightarrow> string \<Rightarrow> string) \<Rightarrow> string \<Rightarrow> link list \<Rightarrow> bool" where
  "links_ok hm secret ls \<longleftrightarrow> distinct (map lk_nonce ls) \<and>
     (\<forall>l \<in> set ls. answers hm secret l \<and> (talks l \<longrightarrow> vouched hm secret ls l))"

definition grows :: "link \<Rightarrow> link \<Rightarrow> bool" where
  "grows l k \<longleftrightarrow> lk_listener k = lk_listener l \<and> lk_nonce k = lk_nonce l \<and> (\<exists>ms. lk_sent k = lk_sent l @ ms)"

lemma grows_refl [simp]: "grows l l"
  by (simp add: grows_def)

lemma grows_trans: "grows l k \<Longrightarrow> grows k j \<Longrightarrow> grows l j"
  by (auto simp: grows_def)

lemma grows_simps [simp]:
  "grows l (tell m l)" "grows l (l\<lparr>lk_phase := ph\<rparr>)" "grows l (l\<lparr>lk_peer_nonce := n, lk_phase := ph\<rparr>)"
  by (simp_all add: grows_def tell_def)

lemma vouched_grows:
  assumes "vouched hm secret (before @ l # after) j" "grows l k" "peer_direction i = peer_direction j" "lk_nonce i = lk_nonce j"
  shows "vouched hm secret (before @ k # after) i"
  using assms by (auto simp: vouched_def grows_def)

lemma grows_direction: "grows l k \<Longrightarrow> peer_direction k = peer_direction l \<and> lk_nonce k = lk_nonce l"
  by (simp add: grows_def peer_direction_def)

lemma links_ok_step:
  assumes "links_ok hm secret (before @ l # after)" "grows l k" "answers hm secret k"
    and "talks k \<Longrightarrow> vouched hm secret (before @ l # after) l"
  shows "links_ok hm secret (before @ k # after)"
proof -
  note v = vouched_grows [OF _ assms(2)]
  have "lk_nonce k = lk_nonce l" using assms(2) by (simp add: grows_def)
  then have "distinct (map lk_nonce (before @ k # after))" using assms(1) by (simp add: links_ok_def)
  moreover have "talks j \<longrightarrow> vouched hm secret (before @ k # after) j" if "j \<in> set before \<union> set after" for j
    using assms(1) that v [of hm secret before after j j] by (auto simp: links_ok_def)
  moreover have "talks k \<longrightarrow> vouched hm secret (before @ k # after) k"
    using assms(4) v [of hm secret before after l k] grows_direction [OF assms(2)] by blast
  ultimately show ?thesis using assms(1,3) by (auto simp: links_ok_def)
qed

lemma answers_tell: "answers hm secret l \<Longrightarrow> (\<And>token. m \<noteq> Auth token) \<Longrightarrow> answers hm secret (tell m l)"
  by (auto simp: answers_def tell_def my_direction_def)

lemma answers_phase: "answers hm secret l \<Longrightarrow> ph \<noteq> AwaitHello \<Longrightarrow> answers hm secret (l\<lparr>lk_phase := ph\<rparr>)"
  by (auto simp: answers_def my_direction_def)

lemma talks_phase: "talks (l\<lparr>lk_phase := ph\<rparr>) \<Longrightarrow> ph \<noteq> Authenticated_peer \<Longrightarrow> talks l"
  by (simp add: talks_def)

lemma phase_tell [simp]: "lk_phase (tell m l) = lk_phase l" "lk_peer_nonce (tell m l) = lk_peer_nonce l"
  by (simp_all add: tell_def)

lemma tell_entries:
  "answers hm secret l \<Longrightarrow> answers hm secret (fold (tell \<circ> Entry) es l)"
  "grows l (fold (tell \<circ> Entry) es l)" "lk_phase (fold (tell \<circ> Entry) es l) = lk_phase l"
proof -
  show "answers hm secret l \<Longrightarrow> answers hm secret (fold (tell \<circ> Entry) es l)"
    by (induction es arbitrary: l) (auto intro: answers_tell)
  show "grows l (fold (tell \<circ> Entry) es l)"
    by (induction es arbitrary: l) (auto intro: grows_trans [OF grows_simps(1)])
  show "lk_phase (fold (tell \<circ> Entry) es l) = lk_phase l"
    by (induction es arbitrary: l) simp_all
qed

lemma read_peer_keeps:
  assumes "answers hm secret l"
  shows "answers hm secret (fst (read_peer v m later l g)) \<and> grows l (fst (read_peer v m later l g))"
proof -
  have "answers hm secret (tell (Digest d False) (fold (tell \<circ> Entry) es l))" "grows l (tell (Digest d False) (fold (tell \<circ> Entry) es l))"
    for d es
    using assms by (auto intro: answers_tell tell_entries(1) grows_trans [OF tell_entries(2) grows_simps(1)])
  then show ?thesis
    using assms by (auto simp: read_peer_def Let_def tell_entries(1,2) split: option.split gossip_msg.split)
qed

text \<open>What one link says when it has not yet authenticated its peer.\<close>

lemma read_hello_keeps:
  assumes "answers hm secret l" "lk_phase l = AwaitHello" "\<not> talks l"
  shows "answers hm secret (read_hello hm secret m l) \<and> grows l (read_hello hm secret m l) \<and> \<not> talks (read_hello hm secret m l)"
proof -
  have "grows l (tell a (l\<lparr>lk_peer_nonce := n, lk_phase := ph\<rparr>))" for a n ph
    by (simp add: grows_def tell_def)
  moreover have "Auth token \<notin> set (lk_sent l)" for token using assms(1,2) by (auto simp: answers_def)
  ultimately show ?thesis
    using assms
    by (auto simp: read_hello_def answers_def talks_def tell_def my_direction_def grows_def
        split: option.split gossip_msg.split)
qed

lemma read_auth_keeps:
  assumes "answers hm secret l"
  shows "answers hm secret (read_auth hm secret m l) \<and> grows l (read_auth hm secret m l)"
  using assms answers_phase [OF assms] by (auto simp: read_auth_def split: option.split gossip_msg.split)

lemma read_auth_vouched:
  assumes "possible hm secret ls m" "lk_phase (read_auth hm secret m l) = Authenticated_peer"
  shows "vouched hm secret ls l"
proof -
  have "m = Some (Auth (auth_proof hm secret (peer_direction l) (lk_nonce l)))"
    using assms(2) by (auto simp: read_auth_def split: option.splits gossip_msg.splits if_splits)
  then show ?thesis using assms(1) by (auto simp: possible_def vouched_def auth_proof_def)
qed

definition meek :: "link list \<Rightarrow> bool" where
  "meek ls \<longleftrightarrow> (\<forall>l \<in> set ls. lk_phase l \<in> {AwaitHello, AwaitAuth} \<longrightarrow> \<not> talks l)"

lemma meek_step: "meek (before @ l # after) \<Longrightarrow> (lk_phase k \<in> {AwaitHello, AwaitAuth} \<Longrightarrow> \<not> talks k) \<Longrightarrow> meek (before @ k # after)"
  by (auto simp: meek_def)

text \<open>The ticker, the forwarder and a hang-up.\<close>

definition chimes :: "link \<Rightarrow> link \<Rightarrow> bool" where
  "chimes l k \<longleftrightarrow> k = l \<or> k = l\<lparr>lk_phase := Hung_up\<rparr> \<or>
     lk_phase l = Authenticated_peer \<and> (\<exists>m. k = tell m l \<and> (\<forall>token. m \<noteq> Auth token))"

lemma chimes_intros [simp]:
  "chimes l (gossip_tick g l)" "chimes l (gossip_push e l)" "chimes l (gossip_lagged g l)" "chimes l (l\<lparr>lk_phase := Hung_up\<rparr>)"
  by (auto simp: chimes_def gossip_tick_def gossip_push_def gossip_lagged_def)

lemma chimes_ok:
  assumes "links_ok hm secret (before @ l # after) \<and> meek (before @ l # after)" "chimes l k"
  shows "links_ok hm secret (before @ k # after) \<and> meek (before @ k # after)"
proof -
  have a: "answers hm secret l" and t: "talks l \<longrightarrow> vouched hm secret (before @ l # after) l"
    and mk: "lk_phase l \<in> {AwaitHello, AwaitAuth} \<longrightarrow> \<not> talks l"
    using assms(1) by (auto simp: links_ok_def meek_def)
  have "answers hm secret k \<and> grows l k \<and> (talks k \<longrightarrow> talks l) \<and> (lk_phase k \<in> {AwaitHello, AwaitAuth} \<longrightarrow> \<not> talks k)"
    using assms(2) a mk talks_phase [where l = l and ph = Hung_up]
    by (auto simp: chimes_def answers_tell answers_phase) (simp_all add: talks_def)
  then show ?thesis using assms(1) t links_ok_step meek_step by metis
qed

lemma gossip_run_ok: "gossip_run hm secret ls \<Longrightarrow> links_ok hm secret ls \<and> meek ls"
proof (induction rule: gossip_run.induct)
  case Quiet
  then show ?case by (simp add: links_ok_def meek_def)
next
  case (Start ls nonce origin listener)
  have "vouched hm secret (gossip_start origin listener nonce # ls) j" if "vouched hm secret ls j" for j
    using that by (auto simp: vouched_def)
  moreover have "answers hm secret (gossip_start origin listener nonce)" "\<not> talks (gossip_start origin listener nonce)"
    by (simp_all add: answers_def talks_def gossip_start_def)
  ultimately show ?case using Start by (auto simp: links_ok_def meek_def gossip_start_def)
next
  case (Read before l after m v later g)
  let ?k = "fst (gossip_read hm secret v m later l g)"
  have a: "answers hm secret l" and t: "talks l \<longrightarrow> vouched hm secret (before @ l # after) l"
    and mk: "lk_phase l \<in> {AwaitHello, AwaitAuth} \<longrightarrow> \<not> talks l"
    using Read.IH by (auto simp: links_ok_def meek_def)
  have "answers hm secret ?k \<and> grows l ?k \<and> (talks ?k \<longrightarrow> vouched hm secret (before @ l # after) l) \<and>
    (lk_phase ?k \<in> {AwaitHello, AwaitAuth} \<longrightarrow> \<not> talks ?k)"
  proof (cases "lk_phase l")
    case AwaitHello
    then show ?thesis using read_hello_keeps [OF a AwaitHello] mk by (simp add: gossip_read.simps)
  next
    case AwaitAuth
    have quiet: "talks (read_auth hm secret m l) \<longleftrightarrow> lk_phase (read_auth hm secret m l) = Authenticated_peer"
      using mk AwaitAuth
      by (auto simp: read_auth_def talks_def split: option.splits gossip_msg.splits)
    then show ?thesis
      using AwaitAuth read_auth_keeps [OF a] read_auth_vouched [OF Read.hyps(2)]
      by (auto simp: gossip_read.simps)
  next
    case Authenticated_peer
    then have "vouched hm secret (before @ l # after) l" using t by (simp add: talks_def)
    moreover have "lk_phase (fst (read_peer v m later l g)) = Authenticated_peer"
      using Authenticated_peer tell_entries(3) [of _ l]
      by (auto simp: read_peer_def Let_def split: option.split gossip_msg.split)
    ultimately show ?thesis
      using Authenticated_peer read_peer_keeps [OF a] by (simp add: gossip_read.simps)
  qed (use a t in \<open>simp add: gossip_read.simps\<close>)
  then show ?case using Read.IH links_ok_step meek_step by metis
next
  case (Tick before l after g)
  from Tick.IH show ?case by (rule chimes_ok) simp
next
  case (Push before l after e)
  from Push.IH show ?case by (rule chimes_ok) simp
next
  case (Lag before l after g)
  from Lag.IH show ?case by (rule chimes_ok) simp
next
  case (Close before l after)
  from Close.IH show ?case by (rule chimes_ok) simp
qed

lemma direction_inj:
  "my_direction k @ [CHR 0x00] @ n = peer_direction l @ [CHR 0x00] @ n' \<Longrightarrow> lk_listener k \<noteq> lk_listener l \<and> n = n'"
  by (auto simp: my_direction_def peer_direction_def split: if_splits)


definition answered_dialer :: link where
  "answered_dialer = read_hello (@) ''pw'' (Some (Hello ''n1'' ''na'')) (gossip_start ''n2'' False ''nb'')"

definition proved_listener :: link where
  "proved_listener = read_auth (@) ''pw'' (Some (Auth (auth_proof (@) ''pw'' ''D'' ''na'')))
     (read_hello (@) ''pw'' (Some (Hello ''n2'' ''nb'')) (gossip_start ''n1'' True ''na''))"

lemma proved_run: "gossip_run (@) ''pw'' [answered_dialer, proved_listener]"
proof -
  let ?a = "gossip_start ''n1'' True ''na''" and ?b = "gossip_start ''n2'' False ''nb''"
  have "gossip_run (@) ''pw'' ([] @ ?b # [?a])"
    by (simp, intro gossip_run.Start gossip_run.Quiet) (simp_all add: gossip_start_def)
  from gossip_run.Read [OF this, of "Some (Hello ''n1'' ''na'')" undefined undefined undefined]
  have "gossip_run (@) ''pw'' ([answered_dialer] @ ?a # [])"
    by (simp add: possible_def gossip_read.simps answered_dialer_def gossip_start_def)
  from gossip_run.Read [OF this, of "Some (Hello ''n2'' ''nb'')" undefined undefined undefined]
  have "gossip_run (@) ''pw'' ([answered_dialer] @ read_hello (@) ''pw'' (Some (Hello ''n2'' ''nb'')) ?a # [])"
    by (simp add: possible_def gossip_read.simps gossip_start_def)
  from gossip_run.Read [OF this, of "Some (Auth (auth_proof (@) ''pw'' ''D'' ''na''))" undefined undefined undefined]
  show ?thesis
    by (simp add: possible_def gossip_read.simps proved_listener_def)
      (simp add: answered_dialer_def read_hello_def gossip_start_def tell_def my_direction_def)
qed


subsection \<open>Honest peers\<close>

text \<open>What an engine does beside an entry it takes in - logging clients out, handing channels on - is of
  local scope: versions, signer and disk are those the entry alone would leave.\<close>

definition abreast :: "event_log \<Rightarrow> event_log \<Rightarrow> bool" where
  "abreast l k \<longleftrightarrow> l_io l = [] \<and> l_versions k = l_versions l \<and> l_io k = [] \<and> l_signing k = l_signing l"

lemma abreast_trans: "abreast l k \<Longrightarrow> abreast k j \<Longrightarrow> abreast l j"
  by (simp add: abreast_def)

lemma abreast_refl: "l_io l = [] \<Longrightarrow> abreast l l"
  by (simp add: abreast_def)

lemma append_abreast: "scope ev = Local \<Longrightarrow> l_io l = [] \<Longrightarrow> abreast l (snd (log_append ev l))"
  by (simp add: abreast_def log_append_def persist.simps log_notify_def Let_def split: option.split)

lemma logged_abreast:
  "scope ev = Local \<Longrightarrow> l_io (lg d) = [] \<Longrightarrow> (\<And>d. lg (snd (k d)) = lg d) \<Longrightarrow> abreast (lg d) (lg (snd (logged err ev k d)))"
  using append_abreast [of ev "lg d"] by (auto simp: logged_def split: prod.split sum.split)

lemma channel_abreast:
  assumes "l_io (lg d) = []"
  shows "abreast (lg d) (lg (snd (drop_channel c d)))" "abreast (lg d) (lg (snd (set_founder c a d)))"
    "abreast (lg d) (lg (snd (set_successor c s d)))"
  using assms by (simp_all add: drop_channel_def set_founder_def set_successor_def channel_set_def on_store_def
      on_channel_def abreast_refl logged_abreast)

lemma release_abreast: "l_io (lg d) = [] \<Longrightarrow> abreast (lg d) (lg (snd (release_loop acct cs d)))"
proof (induction cs arbitrary: d)
  case (Cons c cs)
  have fall: "abreast (lg d) (lg (snd (release_loop acct cs (snd (drop_channel c d1)))))"
    if "abreast (lg d) (lg d1)" for d1
    using that Cons.IH [of "snd (drop_channel c d1)"] channel_abreast(1) [of d1 c] by (auto simp: abreast_def)
  have move: "abreast (lg d) (lg (snd (release_loop acct cs (snd (set_successor c None d1)))))"
    if "abreast (lg d) (lg d1)" for d1
    using that Cons.IH [of "snd (set_successor c None d1)"] channel_abreast(3) [of d1 c] by (auto simp: abreast_def)
  have "abreast (lg d) (lg d)" using Cons.prems by (rule abreast_refl)
  then show ?case
    using fall move channel_abreast(2) [OF Cons.prems, of c]
    by (auto simp: release_loop.simps Let_def case_prod_beta split: option.split sum.split dest: arg_cong [where f = snd])
qed (simp add: release_loop.simps abreast_def)

lemma ingest_abreast:
  assumes "abreast l k"
  shows "abreast (snd (log_ingest e l)) (snd (log_ingest e k))"
  using assms by (auto simp: abreast_def log_ingest_def persist.simps log_notify_def Let_def split: option.split)

lemma logout_account_sessions_db: "g_db (logout_account_sessions v a why g) = g_db g"
  by (simp add: logout_account_sessions_def fold_keeps [where F = g_db])

lemma gossip_ingest_abreast:
  assumes "l_io (lg (g_db g)) = []"
  shows "abreast (snd (log_ingest e (lg (g_db g)))) (lg (g_db (snd (gossip_ingest v e g))))"
proof -
  obtain r d where d: "db_ingest (ev_now v) e (g_db g) = (r, d)" by (cases "db_ingest (ev_now v) e (g_db g)")
  have l: "lg d = snd (log_ingest e (lg (g_db g)))"
    using arg_cong [OF d, of snd]
    by (auto simp: db_ingest_state on_store_def split: prod.splits sum.splits option.splits)
  have io: "l_io (lg d) = []" using ingest_abreast [of "lg (g_db g)" "lg (g_db g)" e] assms l by (simp add: abreast_def)
  have "abreast (lg d) (lg (g_db (handle_account_gone v a why release (g\<lparr>g_db := d\<rparr>))))" for a why release
    using release_abreast [OF io] io by (simp add: account_gone_effect(3) released_db_def release_founded_channels_def abreast_def)
  moreover have "abreast (lg d) (lg d)" using io by (rule abreast_refl)
  ultimately have "abreast (lg d) (lg (g_db (snd (gossip_ingest v e g))))"
    unfolding gossip_ingest_def d
    by (auto simp: Let_def emitting_reconcile(2) logout_account_sessions_db split: sum.split option.split ingest_effect.split)
  then show ?thesis by (simp add: l)
qed

fun gossip_reads ::
  "(string \<Rightarrow> string \<Rightarrow> string) \<Rightarrow> string \<Rightarrow> env \<Rightarrow> gossip_msg list \<Rightarrow> link \<Rightarrow> engine \<Rightarrow> link \<times> engine" where
  "gossip_reads hm secret v [] l g = (l, g)"
| "gossip_reads hm secret v (m # ms) l g =
     (let (l1, g1) = gossip_read hm secret v (Some m) g l g in gossip_reads hm secret v ms l1 g1)"

lemma reads_entries:
  assumes "lk_phase l = Authenticated_peer" "abreast b (lg (g_db g))"
  shows "fst (gossip_reads hm secret v (map Entry es) l g) = l \<and>
    abreast (snd (deliver es b)) (lg (g_db (snd (gossip_reads hm secret v (map Entry es) l g))))"
  using assms
proof (induction es arbitrary: b g)
  case (Cons e es)
  have "abreast (snd (log_ingest e b)) (lg (g_db (snd (gossip_ingest v e g))))"
    using abreast_trans [OF ingest_abreast [OF Cons.prems(2)] gossip_ingest_abreast] Cons.prems(2) by (simp add: abreast_def)
  from Cons.IH [OF Cons.prems(1) this] show ?case
    using Cons.prems(1) by (simp add: gossip_read.simps read_peer_def case_prod_beta Let_def)
qed simp

lemma tell_entries_sent: "fold (tell \<circ> Entry) es l = l\<lparr>lk_sent := lk_sent l @ map Entry es\<rparr>"
  by (induction es arbitrary: l) (simp_all add: tell_def)

definition sent_since :: "link \<Rightarrow> link \<Rightarrow> gossip_msg list" where
  "sent_since l k = drop (length (lk_sent l)) (lk_sent k)"

text \<open>A listener and a dialer read what the other says: both nonces, both proofs, then the digest of the
  listener and the answer to it.\<close>

definition catch_up ::
  "(string \<Rightarrow> string \<Rightarrow> string) \<Rightarrow> string \<Rightarrow> env \<Rightarrow> string \<Rightarrow> string \<Rightarrow> engine \<Rightarrow> engine \<Rightarrow> link \<times> link \<times> engine" where
  "catch_up hm secret v na nb ga gb =
     (let a0 = gossip_start (l_origin (lg (g_db ga))) True na; b0 = gossip_start (l_origin (lg (g_db gb))) False nb;
          a1 = fst (gossip_reads hm secret v (lk_sent b0) a0 ga); b1 = fst (gossip_reads hm secret v (lk_sent a0) b0 gb);
          a2 = fst (gossip_reads hm secret v (sent_since b0 b1) a1 ga);
          b2 = fst (gossip_reads hm secret v (sent_since a0 a1) b1 gb);
          b3 = fst (gossip_reads hm secret v (sent_since a2 (gossip_tick ga a2)) b2 gb)
      in (a2, b2, snd (gossip_reads hm secret v (sent_since b2 b3) a2 ga)))"

text \<open>C8. Peers that hold the secret come through the handshake, and then one digest closes the gap: the
  listener reads what the dialer sends in answer to its digest - logging out, handing on channels and
  whatever else those entries set off - and has for every origin the newer of the two cursors.\<close>

theorem honest_peers_catch_up:
  assumes "na \<noteq> nb" "log_ok (lg (g_db gb))" "l_io (lg (g_db ga)) = []"
    and "\<forall>e \<in> set (l_entries (lg (g_db gb))). trusted (lg (g_db ga)) e"
    and "catch_up hm secret v na nb ga gb = (a, b, ga')"
  shows "lk_phase a = Authenticated_peer \<and> lk_phase b = Authenticated_peer \<and>
    gossip_digest ga' = (\<lambda>org. newest (gossip_digest ga org) (gossip_digest gb org))"
proof -
  define a1 b1 where "a1 = \<lparr>lk_listener = True, lk_nonce = na, lk_peer_nonce = Some nb, lk_phase = AwaitAuth,
      lk_sent = [Hello (l_origin (lg (g_db ga))) na, Auth (auth_proof hm secret ''L'' nb)]\<rparr>"
    and "b1 = \<lparr>lk_listener = False, lk_nonce = nb, lk_peer_nonce = Some na, lk_phase = AwaitAuth,
      lk_sent = [Hello (l_origin (lg (g_db gb))) nb, Auth (auth_proof hm secret ''D'' na)]\<rparr>"
  define a2 b2 where "a2 = a1\<lparr>lk_phase := Authenticated_peer\<rparr>" and "b2 = b1\<lparr>lk_phase := Authenticated_peer\<rparr>"
  let ?es = "gossip_missing (gossip_digest ga) gb"
  have "catch_up hm secret v na nb ga gb = (a2, b2, snd (gossip_reads hm secret v (map Entry ?es) a2 ga))"
    using assms(1)
    by (simp add: catch_up_def gossip_start_def gossip_read.simps read_hello_def read_auth_def read_peer_def
        my_direction_def peer_direction_def tell_def sent_since_def gossip_tick_def tell_entries_sent Let_def
        a1_def b1_def a2_def b2_def)
  then have r: "a = a2" "b = b2" "ga' = snd (gossip_reads hm secret v (map Entry ?es) a2 ga)"
    using assms(5) by simp_all
  from reads_entries [OF _ abreast_refl [OF assms(3)], of a2 hm secret v ?es]
  have "abreast (snd (deliver ?es (lg (g_db ga)))) (lg (g_db ga'))" by (simp add: r(3) a2_def)
  moreover obtain k where "deliver ?es (lg (g_db ga)) = (map le_event ?es, k)"
    "\<forall>org. l_versions k org = newest (l_versions (lg (g_db ga)) org) (l_versions (lg (g_db gb)) org)"
    using deliver_missing [of "l_entries (lg (g_db gb))" "lg (g_db ga)"] log_okD(1,2) [OF assms(2)] assms(3,4)
    by (auto simp: gossip_missing_def gossip_digest_def missing_for_def)
  ultimately show ?thesis by (auto simp: r(1,2) a2_def b2_def abreast_def gossip_digest_def)
qed

definition bare_engine :: engine where
  "bare_engine = engine_new [] (db_open [] ''n3'')"

theorem honest_peers_catch_up_witness:
  "gossip_digest (snd (snd (catch_up (@) ''pw'' plain_env ''na'' ''nb'' bare_engine gone_engine))) = [''n2'' \<mapsto> (0, 0)]"
proof -
  obtain a b ga' where c: "catch_up (@) ''pw'' plain_env ''na'' ''nb'' bare_engine gone_engine = (a, b, ga')"
    using prod_cases3 by blast
  have l: "lg (g_db gone_engine) = lg example_arrived" "lg (g_db bare_engine) = log_empty ''n3''"
    by (simp_all add: gone_engine_def bare_engine_def engine_new_def db_open_def log_open_def log_empty_def Let_def)
  have "db_run ''n1'' example_arrived"
    unfolding example_arrived_def by (intro db_run.gossip db_run.start)
      (simp add: foreign_def example_entry_def db_open_def Let_def log_open_io u64_max_def)
  then have "log_ok (lg (g_db gone_engine))" unfolding l using db_run_good by (auto simp: good_own_def good_def)
  from honest_peers_catch_up [OF _ this _ _ c] show ?thesis
    by (simp add: c l gossip_digest_def trusted_def log_empty_def example_arrived_db newest_def fun_eq_iff)
qed

end
