(* ===== verification/Serve.thy ===== *)
theory Serve
  imports Dispatch
begin

text \<open>
  What the service modules share (\<^verbatim>\<open>ServiceCtx\<close> and its helpers in api/src/lib.rs). A handler returns the
  actions it pushed, in order, with the new database. A reply that goes back to the client whose line is
  handled carries the identifier of that line, when the line had one.
\<close>

definition tagged :: "sender \<Rightarrow> string option \<Rightarrow> string \<Rightarrow> net_action \<Rightarrow> net_action" where
  "tagged sd msgid to a =
     (case msgid of
        Some i \<Rightarrow> if to = sd_uid sd then TaggedAction [(''+draft/reply'', i)] a else a
      | None \<Rightarrow> a)"

definition notice :: "sender \<Rightarrow> string option \<Rightarrow> string \<Rightarrow> string \<Rightarrow> message \<Rightarrow> net_action" where
  "notice sd msgid me to m = tagged sd msgid to (Talk (Notice me to m))"

text \<open>A topic is a command, or several with \<open>/\<close> between them, and the number of lines of its detail.\<close>

definition help_topic :: "(string \<times> nat) list \<Rightarrow> string \<Rightarrow> (string \<times> nat) option" where
  "help_topic topics t = find (\<lambda>(cmd, n). list_ex (\<lambda>c. eq_ignore_ascii_case c t) (split_on CHR ''/'' cmd)) topics"

definition help_reply :: "string \<Rightarrow> (string \<times> nat) list \<Rightarrow> string option \<Rightarrow> message list" where
  "help_reply service topics topic =
     (case topic of
        None \<Rightarrow> Msg ''blurb'' [service] # map (\<lambda>(cmd, _). Msg ''help summary'' [service, cmd]) topics @ [Msg ''help hint'' []]
      | Some t \<Rightarrow>
          (case help_topic topics t of
             Some (cmd, n) \<Rightarrow> map (\<lambda>i. Msg ''help detail'' [service, cmd, show_nat i]) [0..<n]
           | None \<Rightarrow> [Msg ''no help'' [to_ascii_uppercase t]]))"

text \<open>\<^verbatim>\<open>args.get(i).map(to_ascii_uppercase)\<close>\<close>

definition arg :: "string list \<Rightarrow> nat \<Rightarrow> string option" where
  "arg args i = (if i < length args then Some (args ! i) else None)"

definition word :: "string list \<Rightarrow> nat \<Rightarrow> string option" where
  "word args i = map_option to_ascii_uppercase (arg args i)"


text \<open>A number counted from one.\<close>

definition ordinal :: "string \<Rightarrow> nat option" where
  "ordinal s = (case parse_unsigned u64_max s of Some n \<Rightarrow> if n \<ge> 1 then Some n else None | None \<Rightarrow> None)"

end
