(* ===== verification/MemoServ.thy ===== *)
theory MemoServ
  imports Serve
begin

text \<open>
  MemoServ (src/modules/memoserv/src/), command by command: the store is reached only through the
  operations of theory MemoOps, the network is looked at for the configured operators. \<open>now\<close> is the clock,
  \<open>ka\<close>, \<open>ko\<close> and \<open>kg\<close> are the orders in which accounts, configured operators and operator grants are walked.
\<close>

definition max_memos :: nat where "max_memos = 30"
definition max_ignore :: nat where "max_ignore = 50"

definition memo_limit_of :: "db \<Rightarrow> string \<Rightarrow> nat option" where
  "memo_limit_of d acct = Option.bind (accounts (st d) (key acct)) a_memo_limit"

definition memo_ignores :: "db \<Rightarrow> string \<Rightarrow> string list" where
  "memo_ignores d acct = (case accounts (st d) (key acct) of None \<Rightarrow> [] | Some a \<Rightarrow> a_memo_ignore a)"

definition opers_list :: "nat \<Rightarrow> string list \<Rightarrow> db \<Rightarrow> string list" where
  "opers_list now kg d =
     filter (\<lambda>k. case n_opers (net (st d)) k of None \<Rightarrow> False
       | Some r \<Rightarrow> (case og_expires r of None \<Rightarrow> True | Some e \<Rightarrow> e > now)) kg"

definition oper_accounts :: "string list \<Rightarrow> network \<Rightarrow> string list" where
  "oper_accounts ko w = filter (\<lambda>k. w_config_opers w k \<noteq> None) ko"

text \<open>What a handler answers, message by message, and the new database.\<close>

type_synonym answer = "message list \<times> db"

subsection \<open>SEND, RSEND\<close>

definition memoserv_send :: "nat \<Rightarrow> bool \<Rightarrow> string \<Rightarrow> string list \<Rightarrow> db \<Rightarrow> answer" where
  "memoserv_send now receipt acct args d =
     (if length args < 3 then ([Msg ''syntax of SEND'' [if receipt then ''RSEND'' else ''SEND'']], d)
      else let target = args ! 1; body = join_words (drop 2 args) in
        case resolve_account d target of
          None \<Rightarrow> ([Msg ''not registered'' [target]], d)
        | Some dest \<Rightarrow>
            if length (memo_list d dest) \<ge> (case memo_limit_of d dest of None \<Rightarrow> max_memos | Some n \<Rightarrow> n)
            then ([Msg ''mailbox is full'' [target]], d)
            else if memo_is_ignored d dest acct then ([Msg ''memo sent'' [target]], d)
            else (case memo_send now dest acct body receipt d of
                (Inr _, d1) \<Rightarrow> ([Msg ''memo sent'' [target]], d1)
              | (Inl _, d1) \<Rightarrow> ([Msg ''try again'' []], d1)))"

subsection \<open>LIST, INFO, CHECK\<close>

text \<open>The first line of a memo, cut at eighty characters.\<close>

definition preview :: "string \<Rightarrow> string" where
  "preview body =
     (let l = takeWhile (\<lambda>c. c \<noteq> CHR 0x0A) body;
          line = (if l \<noteq> body \<and> l \<noteq> [] \<and> last l = CHR 0x0D then butlast l else l)
      in if length line > 80 then take 80 line @ ''...'' else line)"

definition memoserv_list :: "string \<Rightarrow> db \<Rightarrow> answer" where
  "memoserv_list acct d =
     (let ms = memo_list d acct in
      if ms = [] then ([Msg ''no memos'' []], d)
      else (Msg ''your memos'' [show_nat (length ms), show_nat (length (filter (\<lambda>m. \<not> me_read m) ms))] #
        map (\<lambda>(i, m). Msg ''memo line''
              [show_nat (i + 1), if me_read m then '' '' else ''*'', me_from m, human_time (me_ts m), preview (me_text m)])
          (enumerate 0 ms), d))"

definition memoserv_info :: "string \<Rightarrow> db \<Rightarrow> answer" where
  "memoserv_info acct d =
     ([Msg ''mailbox summary'' [show_nat (length (memo_list d acct)), show_nat (unread_memos d acct), show_nat max_memos]], d)"

definition memoserv_check :: "string \<Rightarrow> string list \<Rightarrow> db \<Rightarrow> answer" where
  "memoserv_check acct args d =
     (case arg args 1 of
        None \<Rightarrow> ([Msg ''syntax of CHECK'' []], d)
      | Some target \<Rightarrow> (case resolve_account d target of
            None \<Rightarrow> ([Msg ''not registered'' [target]], d)
          | Some dest \<Rightarrow>
              ([case memo_check d dest acct of
                  Some (True, ts) \<Rightarrow> Msg ''has been read'' [target, human_time ts]
                | Some (False, ts) \<Rightarrow> Msg ''has not been read'' [target, human_time ts]
                | None \<Rightarrow> Msg ''no memo on record'' [target]], d)))"

subsection \<open>READ\<close>

definition show_memo :: "nat \<Rightarrow> memo \<Rightarrow> message list" where
  "show_memo i m = [Msg ''memo head'' [show_nat (i + 1), me_from m, human_time (me_ts m)], Msg ''memo text'' [me_text m]]"

definition send_receipt :: "nat \<Rightarrow> string \<Rightarrow> memo \<Rightarrow> db \<Rightarrow> db" where
  "send_receipt now reader m d =
     (if me_receipt m \<and> \<not> me_read m
      then snd (memo_send now (me_from m) ''MemoServ''
             (reader @ '' has read the memo you sent them of '' @ human_time (me_ts m) @ ''.'') False d)
      else d)"

fun read_each :: "nat \<Rightarrow> string \<Rightarrow> nat list \<Rightarrow> db \<Rightarrow> answer" where
  "read_each now acct [] d = ([], d)"
| "read_each now acct (i # js) d =
     (case memo_read acct i d of
        (None, d1) \<Rightarrow> read_each now acct js d1
      | (Some m, d1) \<Rightarrow>
          (let (out, d2) = read_each now acct js (send_receipt now acct m d1) in (show_memo i m @ out, d2)))"

definition memoserv_read :: "nat \<Rightarrow> string \<Rightarrow> string list \<Rightarrow> db \<Rightarrow> answer" where
  "memoserv_read now acct args d =
     (case word args 1 of
        None \<Rightarrow> ([Msg ''syntax of READ'' []], d)
      | Some w \<Rightarrow>
          if w = ''NEW'' \<or> w = ''ALL''
          then let only_new = eq_ignore_ascii_case (args ! 1) ''new'';
                   js = map fst (filter (\<lambda>(_, m). \<not> only_new \<or> \<not> me_read m) (enumerate 0 (memo_list d acct)))
               in if js = [] then ([Msg (if only_new then ''no new memos'' else ''no memos'') []], d)
                  else read_each now acct js d
          else case ordinal w of
            None \<Rightarrow> ([Msg ''syntax of READ'' []], d)
          | Some n \<Rightarrow> (case memo_read acct (n - 1) d of
                (Some m, d1) \<Rightarrow> (show_memo (n - 1) m, send_receipt now acct m d1)
              | (None, d1) \<Rightarrow> ([Msg ''no such memo'' [show_nat n]], d1)))"

subsection \<open>DEL, CANCEL\<close>

definition memoserv_del :: "string \<Rightarrow> string list \<Rightarrow> db \<Rightarrow> answer" where
  "memoserv_del acct args d =
     (case word args 1 of
        None \<Rightarrow> ([Msg ''syntax of DEL'' []], d)
      | Some w \<Rightarrow>
          if w = ''ALL''
          then let n = length (memo_list d acct)
               in ([Msg ''deleted all memos'' [show_nat n]], fold (\<lambda>i d. snd (memo_del acct i d)) (rev [0..<n]) d)
          else case ordinal w of
            None \<Rightarrow> ([Msg ''syntax of DEL'' []], d)
          | Some n \<Rightarrow>
              (let (ok, d1) = memo_del acct (n - 1) d
               in ([Msg (if ok then ''memo deleted'' else ''no such memo'') [show_nat n]], d1)))"

definition memoserv_cancel :: "string \<Rightarrow> string list \<Rightarrow> db \<Rightarrow> answer" where
  "memoserv_cancel acct args d =
     (case arg args 1 of
        None \<Rightarrow> ([Msg ''syntax of CANCEL'' []], d)
      | Some target \<Rightarrow> (case resolve_account d target of
            None \<Rightarrow> ([Msg ''not registered'' [target]], d)
          | Some dest \<Rightarrow>
              (let (ok, d1) = memo_cancel dest acct d
               in ([Msg (if ok then ''memo cancelled'' else ''nothing to cancel'') [target]], d1))))"

subsection \<open>SENDALL, STAFF\<close>

fun send_each :: "nat \<Rightarrow> string \<Rightarrow> string \<Rightarrow> string list \<Rightarrow> db \<Rightarrow> nat \<times> db" where
  "send_each now acct body [] d = (0, d)"
| "send_each now acct body (n # ns) d =
     (let (r, d1) = memo_send now n acct body False d; (sent, d2) = send_each now acct body ns d1
      in (case r of Inr _ \<Rightarrow> sent + 1 | Inl _ \<Rightarrow> sent, d2))"

definition memoserv_sendall :: "nat \<Rightarrow> string list \<Rightarrow> privs \<Rightarrow> string \<Rightarrow> string list \<Rightarrow> db \<Rightarrow> answer" where
  "memoserv_sendall now ka ps acct args d =
     (if \<not> privs_has ps Admin then ([Msg ''admin only'' [''SENDALL'']], d)
      else if length args < 2 then ([Msg ''syntax of SENDALL'' []], d)
      else let (sent, d1) = send_each now acct (join_words (drop 1 args)) (map a_name (values_of ka (accounts (st d)))) d
           in ([Msg ''sent to accounts'' [show_nat sent]], d1))"

text \<open>Every name resolved, each account once.\<close>

fun staff_of :: "db \<Rightarrow> string list \<Rightarrow> string list \<Rightarrow> string list" where
  "staff_of d seen [] = []"
| "staff_of d seen (n # ns) =
     (case resolve_account d n of
        None \<Rightarrow> staff_of d seen ns
      | Some canon \<Rightarrow> if canon \<in> set seen then staff_of d seen ns else canon # staff_of d (seen @ [canon]) ns)"

definition memoserv_staff ::
  "nat \<Rightarrow> string list \<Rightarrow> string list \<Rightarrow> network \<Rightarrow> privs \<Rightarrow> string \<Rightarrow> string list \<Rightarrow> db \<Rightarrow> answer" where
  "memoserv_staff now ko kg w ps acct args d =
     (if \<not> privs_has ps Admin then ([Msg ''admin only'' [''STAFF'']], d)
      else if length args < 2 then ([Msg ''syntax of STAFF'' []], d)
      else let (sent, d1) = send_each now acct (join_words (drop 1 args))
                 (staff_of d [] (oper_accounts ko w @ opers_list now kg d)) d
           in ([Msg ''sent to operators'' [show_nat sent]], d1))"

subsection \<open>IGNORE, SET\<close>

definition named_account :: "db \<Rightarrow> string \<Rightarrow> string" where
  "named_account d nick = (case resolve_account d nick of Some a \<Rightarrow> a | None \<Rightarrow> nick)"

definition memoserv_ignore :: "string \<Rightarrow> string list \<Rightarrow> db \<Rightarrow> answer" where
  "memoserv_ignore acct args d =
     (case word args 1 of
        None \<Rightarrow> ([case memo_ignores d acct of [] \<Rightarrow> Msg ''ignore list is empty'' [] | l \<Rightarrow> Msg ''ignoring'' l], d)
      | Some w \<Rightarrow>
          if w = ''ADD'' then
            (case arg args 2 of
               None \<Rightarrow> ([Msg ''syntax of IGNORE ADD'' []], d)
             | Some nick \<Rightarrow>
                 let target = named_account d nick in
                 if length (memo_ignores d acct) \<ge> max_ignore then ([Msg ''ignore list is full'' [show_nat max_ignore]], d)
                 else let (ok, d1) = memo_ignore_add acct target d
                      in ([Msg (if ok then ''now ignoring'' else ''already ignoring'') [target]], d1))
          else if w = ''DEL'' \<or> w = ''REMOVE'' then
            (case arg args 2 of
               None \<Rightarrow> ([Msg ''syntax of IGNORE DEL'' []], d)
             | Some nick \<Rightarrow>
                 let target = named_account d nick; (ok, d1) = memo_ignore_del acct target d
                 in ([Msg (if ok then ''no longer ignoring'' else ''was not ignoring'') [target]], d1))
          else if w = ''LIST''
          then ([case memo_ignores d acct of [] \<Rightarrow> Msg ''ignore list is empty'' [] | l \<Rightarrow> Msg ''ignoring'' l], d)
          else ([Msg ''syntax of IGNORE'' []], d))"

definition memoserv_set :: "string \<Rightarrow> string list \<Rightarrow> db \<Rightarrow> answer" where
  "memoserv_set acct args d =
     (if word args 1 = Some ''NOTIFY'' then
        (if word args 2 = Some ''ON'' then ([Msg ''notification is'' [''on'']], snd (set_memo_notify acct True d))
         else if word args 2 = Some ''OFF'' then ([Msg ''notification is'' [''off'']], snd (set_memo_notify acct False d))
         else ([Msg ''syntax of SET NOTIFY'' []], d))
      else if word args 1 = Some ''LIMIT'' then
        (if arg args 2 = None \<or> word args 2 = Some ''NONE'' \<or> word args 2 = Some ''OFF''
         then ([Msg ''default limit'' [show_nat max_memos]], snd (set_memo_limit acct None d))
         else case Option.bind (arg args 2) (parse_unsigned (2 ^ 32 - 1)) of
           None \<Rightarrow> ([Msg ''limit out of range'' [show_nat max_memos]], d)
         | Some n \<Rightarrow> if n \<le> max_memos then ([Msg ''limit is'' [show_nat n]], snd (set_memo_limit acct (Some n) d))
             else ([Msg ''limit out of range'' [show_nat max_memos]], d))
      else ([Msg ''syntax of SET'' []], d))"

subsection \<open>The dispatcher\<close>

definition memoserv_topics :: "(string \<times> nat) list" where
  "memoserv_topics = map (\<lambda>c. (c, 2))
     [''SEND'', ''RSEND'', ''LIST'', ''READ'', ''DEL'', ''CANCEL'', ''CHECK'', ''INFO'', ''SENDALL'', ''STAFF'', ''IGNORE'', ''SET'']"

record memo_desk =
  mk_now :: nat
  mk_accounts :: "string list"
  mk_opers :: "string list"
  mk_grants :: "string list"

definition memoserv_command ::
  "memo_desk \<Rightarrow> string \<Rightarrow> privs \<Rightarrow> string \<Rightarrow> string list \<Rightarrow> network \<Rightarrow> db \<Rightarrow> answer" where
  "memoserv_command v cmd ps acct args w d =
     (if cmd = ''SEND'' then memoserv_send (mk_now v) False acct args d
      else if cmd = ''RSEND'' then memoserv_send (mk_now v) True acct args d
      else if cmd = ''LIST'' then memoserv_list acct d
      else if cmd = ''READ'' then memoserv_read (mk_now v) acct args d
      else if cmd = ''DEL'' \<or> cmd = ''DELETE'' then memoserv_del acct args d
      else if cmd = ''CANCEL'' then memoserv_cancel acct args d
      else if cmd = ''CHECK'' then memoserv_check acct args d
      else if cmd = ''INFO'' then memoserv_info acct d
      else if cmd = ''SENDALL'' then memoserv_sendall (mk_now v) (mk_accounts v) ps acct args d
      else if cmd = ''STAFF'' then memoserv_staff (mk_now v) (mk_opers v) (mk_grants v) w ps acct args d
      else if cmd = ''IGNORE'' then memoserv_ignore acct args d
      else if cmd = ''SET'' then memoserv_set acct args d
      else ([Msg ''unknown command'' [cmd]], d))"

definition memoserv :: "memo_desk \<Rightarrow> string \<Rightarrow> sender \<Rightarrow> string option \<Rightarrow> string list \<Rightarrow> network \<Rightarrow> db \<Rightarrow> command_result \<times> db" where
  "memoserv v me sd msgid args w d =
     (let (out, d1) =
        (case word args 0 of
           None \<Rightarrow> (help_reply ''MemoServ'' memoserv_topics (arg args 1), d)
         | Some cmd \<Rightarrow>
             if cmd = ''HELP'' then (help_reply ''MemoServ'' memoserv_topics (arg args 1), d)
             else (case sd_account sd of
                 None \<Rightarrow> ([Msg ''identify first'' [''MemoServ'']], d)
               | Some acct \<Rightarrow> memoserv_command v cmd (sd_privs sd) acct args w d))
      in (acting (map (notice sd msgid me (sd_uid sd)) out), d1))"

end
