(* ===== verification/MemoServProps.thy ===== *)
theory MemoServProps
  imports MemoServ EngineRun Example
begin

text \<open>
  MemoServ keeps the trust the engine puts in a service module, as long as the mailboxes it writes to
  unasked have room; and it shows nobody a memo of somebody else.
\<close>

subsection \<open>The operations a command uses\<close>

lemma memo_steps:
  "store_step\<^sup>*\<^sup>* d (snd (memo_read acct i d))" "store_step\<^sup>*\<^sup>* d (snd (memo_del acct i d))"
  "store_step\<^sup>*\<^sup>* d (snd (memo_cancel acct who d))" "store_step\<^sup>*\<^sup>* d (snd (memo_ignore_add acct who d))"
  "store_step\<^sup>*\<^sup>* d (snd (memo_ignore_del acct who d))" "store_step\<^sup>*\<^sup>* d (snd (set_memo_notify acct b d))"
  "store_step\<^sup>*\<^sup>* d (snd (set_memo_limit acct limit d))"
  by (rule r_into_rtranclp, simp add: store_step_def online_step.intros)+

lemma memo_send_step: "mailbox_open d acct \<Longrightarrow> store_step\<^sup>*\<^sup>* d (snd (memo_send now acct sender body receipt d))"
  by (rule r_into_rtranclp) (simp add: store_step_def account_step.intros)

lemma memo_del_all_steps: "store_step\<^sup>*\<^sup>* d (fold (\<lambda>i d. snd (memo_del acct i d)) js d)"
proof (induction js arbitrary: d)
  case (Cons i js)
  show ?case using memo_steps(2) [of d acct i] Cons.IH [of "snd (memo_del acct i d)"] by simp
qed simp

text \<open>A mailbox with room for \<open>n\<close> more memos.\<close>

definition has_room :: "db \<Rightarrow> string \<Rightarrow> nat \<Rightarrow> bool" where
  "has_room d acct n \<longleftrightarrow> (case accounts (st d) (key acct) of None \<Rightarrow> True | Some a \<Rightarrow> length (a_memos a) + n \<le> memo_cap a)"

lemma has_room_open: "has_room d acct (Suc n) \<Longrightarrow> mailbox_open d acct"
  by (auto simp: has_room_def mailbox_open_def split: option.splits)

lemma memo_send_accounts:
  "accounts (st (snd (memo_send now dest sender body receipt d))) k =
     (if fst (memo_send now dest sender body receipt d) = Inr () \<and> k = key dest
      then map_option (\<lambda>a. a\<lparr>a_memos := a_memos a @ [\<lparr>me_from = sender, me_text = body, me_ts = now,
          me_read = False, me_receipt = receipt\<rparr>]\<rparr>) (accounts (st d) k)
      else accounts (st d) k)"
  by (auto simp: memo_send_def account_set_def logged_def on_account_def on_store_def modify_def
      split: prod.split sum.split option.split)

lemma has_room_send:
  "has_room d acct (Suc n) \<Longrightarrow> has_room (snd (memo_send now dest sender body receipt d)) acct n"
  by (auto simp: has_room_def memo_send_accounts memo_cap_def split: option.splits)

lemma has_room_send_other:
  "has_room d acct n \<Longrightarrow> key acct \<noteq> key dest \<Longrightarrow> has_room (snd (memo_send now dest sender body receipt d)) acct n"
  by (auto simp: has_room_def memo_send_accounts split: option.splits)

lemma memo_read_accounts:
  "accounts (st (snd (memo_read acct i d))) k =
     (if k = key acct then map_option (\<lambda>a. if i < length (a_memos a)
        then a\<lparr>a_memos := (a_memos a)[i := (a_memos a ! i)\<lparr>me_read := True\<rparr>]\<rparr> else a) (accounts (st d) k)
      else accounts (st d) k)"
proof -
  have "ms[i := (ms ! i)\<lparr>me_read := True\<rparr>] = ms" if "me_read (ms ! i)" for ms :: "memo list"
  proof -
    have "(ms ! i)\<lparr>me_read := True\<rparr> = ms ! i" using that by (cases "ms ! i") simp
    then show ?thesis by simp
  qed
  then show ?thesis
    by (auto simp: memo_read_def memo_at_def logged_ignore_def on_account_def on_store_def modify_def
        option.map_ident_strong split: option.splits intro!: account.equality)
qed

lemma has_room_read: "has_room (snd (memo_read acct i d)) who n = has_room d who n"
  by (auto simp: has_room_def memo_read_accounts memo_cap_def split: option.split)

lemma send_each_steps:
  "distinct (map key ns) \<Longrightarrow> \<forall>n \<in> set ns. has_room d n (Suc 0) \<Longrightarrow> store_step\<^sup>*\<^sup>* d (snd (send_each now acct body ns d))"
proof (induction ns arbitrary: d)
  case (Cons n ns)
  let ?d = "snd (memo_send now n acct body False d)"
  have "store_step\<^sup>*\<^sup>* d ?d" using Cons.prems by (intro memo_send_step has_room_open [where n = 0]) simp
  moreover have "store_step\<^sup>*\<^sup>* ?d (snd (send_each now acct body ns ?d))"
    using Cons.prems by (intro Cons.IH) (auto intro!: has_room_send_other simp: image_iff)
  ultimately show ?case by (simp add: case_prod_beta Let_def)
qed simp

subsection \<open>Receipts\<close>

definition owes :: "memo \<Rightarrow> bool" where
  "owes m \<longleftrightarrow> me_receipt m \<and> \<not> me_read m"

lemma send_receipt_step:
  "(owes m \<Longrightarrow> mailbox_open d (me_from m)) \<Longrightarrow> store_step\<^sup>*\<^sup>* d (send_receipt now acct m d)"
  by (simp add: send_receipt_def owes_def memo_send_step)

lemma memo_list_send:
  "\<exists>new. memo_list (snd (memo_send now dest sender body receipt d)) acct = memo_list d acct @ new"
  by (auto simp: memo_list_def memo_send_accounts split: option.split)

lemma memo_list_receipt: "\<exists>new. memo_list (send_receipt now acct m d) who = memo_list d who @ new"
  using memo_list_send by (auto simp: send_receipt_def)

lemma memo_read_result:
  "fst (memo_read acct i d) = (if i < length (memo_list d acct) then Some (memo_list d acct ! i) else None)"
  "memo_list (snd (memo_read acct i d)) acct =
     (if i < length (memo_list d acct) then (memo_list d acct)[i := (memo_list d acct ! i)\<lparr>me_read := True\<rparr>] else memo_list d acct)"
proof -
  show "fst (memo_read acct i d) = (if i < length (memo_list d acct) then Some (memo_list d acct ! i) else None)"
    by (auto simp: memo_read_def memo_at_def memo_list_def split: option.split)
  show "memo_list (snd (memo_read acct i d)) acct =
     (if i < length (memo_list d acct) then (memo_list d acct)[i := (memo_list d acct ! i)\<lparr>me_read := True\<rparr>] else memo_list d acct)"
    unfolding memo_list_def memo_read_accounts by (auto split: option.split)
qed

definition owed_among :: "db \<Rightarrow> string \<Rightarrow> nat list \<Rightarrow> memo list" where
  "owed_among d acct js = filter owes (map (\<lambda>i. memo_list d acct ! i) js)"

lemma read_each_steps:
  assumes "distinct js" "\<forall>i \<in> set js. i < length (memo_list d acct)"
    and "\<forall>m \<in> set (owed_among d acct js). has_room d (me_from m) (length (owed_among d acct js))"
  shows "store_step\<^sup>*\<^sup>* d (snd (read_each now acct js d))"
  using assms
proof (induction js arbitrary: d)
  case (Cons i js)
  let ?ms = "memo_list d acct" and ?d1 = "snd (memo_read acct i d)"
  let ?m = "?ms ! i"
  let ?d2 = "send_receipt now acct ?m ?d1"
  have i: "i < length ?ms" using Cons.prems(2) by simp
  obtain new where new: "memo_list ?d2 acct = ?ms[i := ?m\<lparr>me_read := True\<rparr>] @ new"
    using memo_list_receipt [of now acct ?m ?d1 acct] i by (auto simp: memo_read_result(2))
  have same: "memo_list ?d2 acct ! j = ?ms ! j" if "j \<in> set js" for j
  proof -
    have "j \<noteq> i" "j < length ?ms" using Cons.prems(1,2) that by auto
    then show ?thesis by (simp add: new nth_append)
  qed
  then have owed: "owed_among ?d2 acct js = owed_among d acct js"
    by (simp add: owed_among_def cong: map_cong)
  have "store_step\<^sup>*\<^sup>* ?d1 ?d2"
  proof (rule send_receipt_step)
    assume "owes ?m"
    then have "has_room d (me_from ?m) (Suc (length (owed_among d acct js)))"
      using Cons.prems(3) by (simp add: owed_among_def)
    then show "mailbox_open ?d1 (me_from ?m)" by (auto simp: has_room_read intro: has_room_open)
  qed
  moreover have "store_step\<^sup>*\<^sup>* ?d2 (snd (read_each now acct js ?d2))"
  proof (rule Cons.IH)
    show "\<forall>j \<in> set js. j < length (memo_list ?d2 acct)" using Cons.prems(2) by (auto simp: new)
    show "\<forall>m \<in> set (owed_among ?d2 acct js). has_room ?d2 (me_from m) (length (owed_among ?d2 acct js))"
      unfolding owed
    proof
      fix m assume m: "m \<in> set (owed_among d acct js)"
      show "has_room ?d2 (me_from m) (length (owed_among d acct js))"
      proof (cases "owes ?m")
        case True
        then have "has_room d (me_from m) (Suc (length (owed_among d acct js)))"
          using Cons.prems(3) m by (simp add: owed_among_def)
        then show ?thesis using True by (auto simp: send_receipt_def owes_def has_room_read intro: has_room_send)
      next
        case False
        then show ?thesis
          using Cons.prems(3) m by (auto simp: send_receipt_def owes_def owed_among_def has_room_read)
      qed
    qed
  qed (use Cons.prems(1) in simp)
  ultimately have "store_step\<^sup>*\<^sup>* d (snd (read_each now acct js ?d2))"
    using memo_steps(1) [of d acct i] by (meson rtranclp_trans)
  moreover have "fst (memo_read acct i d) = Some ?m" using memo_read_result(1) [of acct i d] i by simp
  ultimately show ?case by (simp add: case_prod_beta Let_def)
qed simp

lemma send_open:
  "length (memo_list d dest) < (case memo_limit_of d dest of None \<Rightarrow> max_memos | Some n \<Rightarrow> n) \<Longrightarrow> mailbox_open d dest"
  by (auto simp: memo_list_def memo_limit_of_def mailbox_open_def memo_cap_def max_memos_def split: option.splits)

lemma memoserv_send_steps: "store_step\<^sup>*\<^sup>* d (snd (memoserv_send now receipt acct args d))"
proof -
  have "store_step\<^sup>*\<^sup>* d d1"
    if "memo_send now dest acct body receipt d = (r, d1)"
      "length (memo_list d dest) < (case memo_limit_of d dest of None \<Rightarrow> max_memos | Some n \<Rightarrow> n)" for dest body r d1
    using memo_send_step [OF send_open [OF that(2)], of now acct body receipt] that(1) by simp
  then show ?thesis by (auto simp: memoserv_send_def Let_def not_le split: prod.split sum.split option.split)
qed

text \<open>Where the operators and the accounts of one walk are different accounts.\<close>

lemma resolve_account_own:
  "wf_store (st d) \<Longrightarrow> resolve_account d n = Some c \<Longrightarrow> \<exists>a. accounts (st d) (key c) = Some a \<and> a_name a = c"
  by (auto simp: resolve_account_def wf_store_def keyed_by_def split: option.splits)

lemma staff_of_distinct:
  "wf_store (st d) \<Longrightarrow> distinct (map key (staff_of d seen ns)) \<and> key ` set (staff_of d seen ns) \<inter> key ` set seen = {} \<and>
     (\<forall>c \<in> set (staff_of d seen ns). \<exists>a. accounts (st d) (key c) = Some a \<and> a_name a = c)"
  if "\<forall>c \<in> set seen. \<exists>a. accounts (st d) (key c) = Some a \<and> a_name a = c"
  using that
proof (induction ns arbitrary: seen)
  case (Cons n ns)
  show ?case
  proof (cases "\<exists>c. resolve_account d n = Some c \<and> c \<notin> set seen")
    case True
    then obtain c where c: "resolve_account d n = Some c" "c \<notin> set seen" by blast
    from resolve_account_own [OF Cons.prems(1) c(1)] have own: "\<exists>a. accounts (st d) (key c) = Some a \<and> a_name a = c" .
    then have "key c \<notin> key ` set seen" using Cons.prems(2) c(2) by force
    with Cons.IH [of "seen @ [c]"] Cons.prems own c show ?thesis by auto
  next
    case False
    then have "staff_of d seen (n # ns) = staff_of d seen ns" by (auto split: option.split)
    then show ?thesis using Cons by simp
  qed
qed simp

lemma every_account_once:
  assumes "wf_store (st d)" "distinct ka"
  shows "distinct (map key (map a_name (values_of ka (accounts (st d)))))"
proof -
  have own: "key (a_name a) = k" if "accounts (st d) k = Some a" for k a
    using assms(1) that by (auto simp: wf_store_def keyed_by_def)
  have "map key (map a_name (values_of ka (accounts (st d)))) = filter (\<lambda>k. accounts (st d) k \<noteq> None) ka"
    by (induction ka) (auto simp: own split: option.splits)
  with assms(2) show ?thesis by simp
qed

definition memoserv_room :: "string \<Rightarrow> string \<Rightarrow> db \<Rightarrow> bool" where
  "memoserv_room cmd acct d \<longleftrightarrow>
     (cmd = ''READ'' \<longrightarrow> (\<forall>m \<in> set (memo_list d acct). owes m \<longrightarrow>
        has_room d (me_from m) (length (filter owes (memo_list d acct))))) \<and>
     (cmd = ''SENDALL'' \<or> cmd = ''STAFF'' \<longrightarrow> (\<forall>n. has_room d n 1))"

lemma has_room_mono: "has_room d acct n \<Longrightarrow> m \<le> n \<Longrightarrow> has_room d acct m"
  by (auto simp: has_room_def split: option.splits)

lemma fewer: "length (filter p (filter q xs)) \<le> length (filter p xs)"
  by (induction xs) auto

lemma owed_sublist:
  assumes "p = (\<lambda>(i, m). P m)"
  shows "owed_among d acct (map fst (filter p (enumerate 0 (memo_list d acct)))) = filter owes (filter P (memo_list d acct))"
proof -
  have "map (\<lambda>i. ms ! (i - k)) (map fst (filter (\<lambda>(i, m). P m) (enumerate k ms))) = filter P ms" for ms :: "memo list" and k
  proof (induction ms arbitrary: k)
    case (Cons m ms)
    have "map (\<lambda>i. (m # ms) ! (i - k)) (map fst (filter (\<lambda>(i, m). P m) (enumerate (Suc k) ms))) =
        map (\<lambda>i. ms ! (i - Suc k)) (map fst (filter (\<lambda>(i, m). P m) (enumerate (Suc k) ms)))"
      by (auto simp: in_set_enumerate_eq nth_Cons' Suc_diff_Suc)
    with Cons.IH [of "Suc k"] show ?case by (simp del: map_map)
  qed simp
  from this [where k = 0] show ?thesis by (simp add: owed_among_def assms del: map_map)
qed

lemma memoserv_read_steps:
  assumes "memoserv_room ''READ'' acct d"
  shows "store_step\<^sup>*\<^sup>* d (snd (memoserv_read now acct args d))"
proof -
  have room: "owes m \<Longrightarrow> has_room d (me_from m) (length (filter owes (memo_list d acct)))" if "m \<in> set (memo_list d acct)" for m
    using assms that by (simp add: memoserv_room_def)
  have all: "store_step\<^sup>*\<^sup>* d (snd (read_each now acct (map fst (filter (\<lambda>(_, m). P m) (enumerate 0 (memo_list d acct)))) d))" for P
  proof (rule read_each_steps)
    show "distinct (map fst (filter (\<lambda>(_, m). P m) (enumerate 0 (memo_list d acct))))"
      by (rule distinct_map_filter) (simp add: distinct_enumerate)
    show "\<forall>i \<in> set (map fst (filter (\<lambda>(_, m). P m) (enumerate 0 (memo_list d acct)))). i < length (memo_list d acct)"
      by (auto simp: in_set_enumerate_eq)
    have "length (filter owes (filter P (memo_list d acct))) \<le> length (filter owes (memo_list d acct))"
      by (rule fewer)
    then show "\<forall>m \<in> set (owed_among d acct (map fst (filter (\<lambda>(_, m). P m) (enumerate 0 (memo_list d acct))))).
        has_room d (me_from m) (length (owed_among d acct (map fst (filter (\<lambda>(_, m). P m) (enumerate 0 (memo_list d acct))))))"
      unfolding owed_sublist [OF refl] by (simp add: has_room_mono [OF room])
  qed
  have one: "store_step\<^sup>*\<^sup>* d (send_receipt now acct m d1)" if "memo_read acct i d = (Some m, d1)" for i m d1
  proof -
    have m: "m = memo_list d acct ! i" "i < length (memo_list d acct)" "d1 = snd (memo_read acct i d)"
      using memo_read_result(1) [of acct i d] that by (auto split: if_splits)
    have "owes m \<Longrightarrow> mailbox_open d1 (me_from m)"
    proof -
      assume o: "owes m"
      have mem: "m \<in> set (memo_list d acct)" using m by simp
      then have "0 < length (filter owes (memo_list d acct))" using o by (simp add: filter_empty_conv) blast
      then obtain n where "length (filter owes (memo_list d acct)) = Suc n" by (cases "length (filter owes (memo_list d acct))") auto
      then have "has_room d1 (me_from m) (Suc n)" using room [OF mem o] by (simp add: m(3) has_room_read)
      then show ?thesis by (rule has_room_open)
    qed
    from send_receipt_step [OF this] memo_steps(1) [of d acct i] show ?thesis unfolding m(3) by (meson rtranclp_trans)
  qed
  have same: "store_step\<^sup>*\<^sup>* d d1" if "memo_read acct i d = (x, d1)" for i x d1
    using memo_steps(1) [of d acct i] that by simp
  have single: "store_step\<^sup>*\<^sup>* d (snd (case memo_read acct i d of (Some m, d1) \<Rightarrow> (out m, send_receipt now acct m d1) | (None, d1) \<Rightarrow> (no, d1)))"
    for i out and no :: "message list"
    using one [of i] same [of i] by (auto split: prod.split option.split)
  show ?thesis
    unfolding memoserv_read_def using all single
    by (cases "word args 1"; cases "ordinal (the (word args 1))") (simp_all add: Let_def)
qed

lemma memoserv_steps:
  assumes "wf_store (st d)" "distinct (mk_accounts v)"
    and "\<And>cmd acct. word args 0 = Some cmd \<Longrightarrow> sd_account sd = Some acct \<Longrightarrow> memoserv_room cmd acct d"
  shows "store_step\<^sup>*\<^sup>* d (snd (memoserv v me sd msgid args w d))"
proof -
  have room1: "\<forall>n \<in> set ns. has_room d n (Suc 0)" if "\<forall>n. has_room d n 1" for ns using that by simp
  have "store_step\<^sup>*\<^sup>* d (snd (memoserv_command v cmd ps acct args w d))" if "memoserv_room cmd acct d" for cmd ps acct
  proof -
    have "store_step\<^sup>*\<^sup>* d (snd (memoserv_sendall (mk_now v) (mk_accounts v) ps acct args d))" if "\<forall>n. has_room d n 1"
      using send_each_steps [OF every_account_once [OF assms(1,2)] room1 [OF that]]
      by (simp add: memoserv_sendall_def case_prod_beta Let_def)
    moreover have "store_step\<^sup>*\<^sup>* d (snd (memoserv_staff (mk_now v) (mk_opers v) (mk_grants v) w ps acct args d))"
      if "\<forall>n. has_room d n 1"
      using send_each_steps [OF conjunct1 [OF staff_of_distinct [of "[]" d]] room1 [OF that]] assms(1)
      by (simp add: memoserv_staff_def case_prod_beta Let_def)
    moreover have "store_step\<^sup>*\<^sup>* d (snd (memoserv_del acct args d))"
      using memo_steps(2) [of d acct] memo_del_all_steps [of d acct]
      by (simp add: memoserv_del_def case_prod_beta Let_def split: option.split)
    moreover have "store_step\<^sup>*\<^sup>* d (snd (memoserv_cancel acct args d))"
      using memo_steps(3) [of d] by (simp add: memoserv_cancel_def case_prod_beta Let_def split: option.split)
    moreover have "store_step\<^sup>*\<^sup>* d (snd (memoserv_ignore acct args d))"
      using memo_steps(4,5) [of d acct] by (simp add: memoserv_ignore_def case_prod_beta Let_def split: option.split)
    moreover have "store_step\<^sup>*\<^sup>* d (snd (memoserv_set acct args d))"
      using memo_steps(6,7) [of d acct] by (simp add: memoserv_set_def Let_def split: option.split)
    moreover have "snd (memoserv_list acct d) = d" "snd (memoserv_info acct d) = d" "snd (memoserv_check acct args d) = d"
      by (simp_all add: memoserv_list_def memoserv_info_def memoserv_check_def Let_def split: option.split)
    ultimately show ?thesis
      using that memoserv_read_steps [of acct d] memoserv_send_steps [of d]
      by (auto simp: memoserv_command_def memoserv_room_def)
  qed
  then show ?thesis using assms(3) by (auto simp: memoserv_def case_prod_beta Let_def split: option.split)
qed


subsection \<open>Whose memos are shown\<close>

text \<open>What a sender may know of a memo in another mailbox: of their own memos whether and when, of others
  nothing but their number.\<close>

definition glimpse :: "string \<Rightarrow> memo \<Rightarrow> (bool \<times> nat) option" where
  "glimpse who m = (if key (me_from m) = key who then Some (me_read m, me_ts m) else None)"

definition outline :: "string \<Rightarrow> account \<Rightarrow> account \<times> (bool \<times> nat) option list" where
  "outline who a = (a\<lparr>a_memos := []\<rparr>, map (glimpse who) (a_memos a))"

definition alike :: "string \<Rightarrow> db \<Rightarrow> db \<Rightarrow> bool" where
  "alike who d e \<longleftrightarrow> grouped (st d) = grouped (st e) \<and> net (st d) = net (st e) \<and>
     accounts (st d) (key who) = accounts (st e) (key who) \<and>
     (\<forall>k. map_option (outline who) (accounts (st d) k) = map_option (outline who) (accounts (st e) k)) \<and>
     l_readonly (lg d) = l_readonly (lg e) \<and> l_io (lg d) = l_io (lg e)"

lemma outlineD:
  "outline who a = outline who b \<Longrightarrow> length (a_memos a) = length (a_memos b) \<and> a_name a = a_name b \<and>
     a_memo_ignore a = a_memo_ignore b \<and> a_memo_limit a = a_memo_limit b \<and> a_memo_notify a = a_memo_notify b \<and>
     a\<lparr>a_memos := []\<rparr> = b\<lparr>a_memos := []\<rparr> \<and> map (glimpse who) (a_memos a) = map (glimpse who) (a_memos b)"
  by (cases a, cases b) (auto simp: outline_def dest: arg_cong [where f = length])

lemma alike_account:
  assumes "alike who d e"
  obtains "accounts (st d) k = None" "accounts (st e) k = None"
    | a b where "accounts (st d) k = Some a" "accounts (st e) k = Some b" "outline who a = outline who b" "k = key who \<Longrightarrow> a = b"
proof -
  have "map_option (outline who) (accounts (st d) k) = map_option (outline who) (accounts (st e) k)"
    "k = key who \<Longrightarrow> accounts (st d) k = accounts (st e) k"
    using assms by (auto simp: alike_def)
  note eqs = this
  show ?thesis
  proof (cases "accounts (st d) k")
    case None
    with eqs(1) that(1) show ?thesis by simp
  next
    case (Some a)
    with eqs(1) obtain b where b: "accounts (st e) k = Some b" by (cases "accounts (st e) k") auto
    have same: "a = b" if "k = key who" using eqs(2) [OF that] Some b that by simp
    have "outline who a = outline who b" using eqs(1) Some b by simp
    then show ?thesis using that(2) [OF Some b _ same] by blast
  qed
qed

lemma alike_append:
  assumes "alike who d e"
  shows "fst (log_append ev (lg d)) = fst (log_append ev (lg e))"
    "alike who (d\<lparr>lg := snd (log_append ev (lg d))\<rparr>) (e\<lparr>lg := snd (log_append ev (lg e))\<rparr>)"
proof -
  have io: "l_readonly (lg d) = l_readonly (lg e)" "l_io (lg d) = l_io (lg e)" using assms by (simp_all add: alike_def)
  have "fst (log_append ev (lg d)) = fst (log_append ev (lg e)) \<and>
      l_readonly (snd (log_append ev (lg d))) = l_readonly (snd (log_append ev (lg e))) \<and>
      l_io (snd (log_append ev (lg d))) = l_io (snd (log_append ev (lg e)))"
    using io by (auto simp: log_append_def Let_def persist.simps log_notify_def
        split: list.split write_outcome.split option.split)
  then show "fst (log_append ev (lg d)) = fst (log_append ev (lg e))"
    "alike who (d\<lparr>lg := snd (log_append ev (lg d))\<rparr>) (e\<lparr>lg := snd (log_append ev (lg e))\<rparr>)"
    using assms by (simp_all add: alike_def)
qed

lemma alike_on_account:
  assumes "alike who d e" "\<And>a b. outline who a = outline who b \<Longrightarrow> outline who (f a) = outline who (f b)"
  shows "alike who (on_account acct f d) (on_account acct f e)"
proof -
  have acc: "accounts (st (on_account acct f x)) k = (if k = key acct then map_option f (accounts (st x) k) else accounts (st x) k)"
    for x k
    by (simp add: on_account_def on_store_def modify_apply)
  have "map_option (outline who) (accounts (st (on_account acct f d)) k) = map_option (outline who) (accounts (st (on_account acct f e)) k)"
    for k
  proof (cases rule: alike_account [OF assms(1), of k])
    case 1
    then show ?thesis unfolding acc by (cases "k = key acct") auto
  next
    case (2 a b)
    from assms(2) [OF 2(3)] show ?thesis unfolding acc using 2 by (cases "k = key acct") auto
  qed
  moreover have "accounts (st (on_account acct f d)) (key who) = accounts (st (on_account acct f e)) (key who)"
    using assms(1) unfolding acc by (cases "key who = key acct") (auto simp: alike_def)
  ultimately show ?thesis
    using assms(1) by (simp add: alike_def)
qed

lemma alike_set:
  assumes "alike who d e" "\<And>a b. outline who a = outline who b \<Longrightarrow> outline who (f a) = outline who (f b)"
  shows "fst (account_set acct ev f d) = fst (account_set acct ev f e)"
    "alike who (snd (account_set acct ev f d)) (snd (account_set acct ev f e))"
proof -
  note ap = alike_append [OF assms(1), of "AccountEvent ev"]
  have on: "alike who (on_account acct f (d\<lparr>lg := l\<rparr>)) (on_account acct f (e\<lparr>lg := l'\<rparr>))"
    if "alike who (d\<lparr>lg := l\<rparr>) (e\<lparr>lg := l'\<rparr>)" for l l'
    by (rule alike_on_account [OF that assms(2)])
  have "fst (account_set acct ev f d) = fst (account_set acct ev f e) \<and>
    alike who (snd (account_set acct ev f d)) (snd (account_set acct ev f e))"
  proof (cases rule: alike_account [OF assms(1), of "key acct"])
    case 1
    then show ?thesis using assms(1) by (simp add: account_set_def)
  next
    case (2 a b)
    with ap on [OF ap(2)] show ?thesis
      by (cases "log_append (AccountEvent ev) (lg d)"; cases "log_append (AccountEvent ev) (lg e)")
        (auto simp: account_set_def logged_def split: sum.split)
  qed
  then show "fst (account_set acct ev f d) = fst (account_set acct ev f e)"
    "alike who (snd (account_set acct ev f d)) (snd (account_set acct ev f e))" by simp_all
qed

lemma alike_ignored:
  assumes "alike who d e" "\<And>a b. outline who a = outline who b \<Longrightarrow> outline who (f a) = outline who (f b)"
  shows "alike who (on_account acct f (logged_ignore ev d)) (on_account acct f (logged_ignore ev e))"
proof (rule alike_on_account [OF _ assms(2)])
  show "alike who (logged_ignore ev d) (logged_ignore ev e)"
    unfolding logged_ignore_def by (rule alike_append(2) [OF assms(1)])
qed

subsection \<open>Each operation on two stores a client cannot tell apart\<close>

definition same_answer :: "string \<Rightarrow> 'a \<times> db \<Rightarrow> 'a \<times> db \<Rightarrow> bool" where
  "same_answer who x y \<longleftrightarrow> fst x = fst y \<and> alike who (snd x) (snd y)"

lemma outline_memos:
  "outline who a = outline who b \<Longrightarrow> map (glimpse who) xs = map (glimpse who) ys \<Longrightarrow>
     outline who (a\<lparr>a_memos := xs\<rparr>) = outline who (b\<lparr>a_memos := ys\<rparr>)"
  by (simp add: outline_def)

lemma same_send:
  assumes "alike who d e"
  shows "same_answer who (memo_send now acct sender body receipt d) (memo_send now acct sender body receipt e)"
proof -
  have "outline who (a\<lparr>a_memos := a_memos a @ [m]\<rparr>) = outline who (b\<lparr>a_memos := a_memos b @ [m]\<rparr>)"
    if "outline who a = outline who b" for a b m
    using outlineD [OF that] by (intro outline_memos [OF that]) simp
  note out = this
  show ?thesis unfolding same_answer_def memo_send_def
    by (intro conjI alike_set [OF assms]) (rule out, assumption)+
qed

lemma glimpse_read: "glimpse who (m\<lparr>me_read := True\<rparr>) = map_option (\<lambda>(_, t). (True, t)) (glimpse who m)"
  by (simp add: glimpse_def)

lemma same_read:
  assumes "alike who d e"
  shows "same_answer who (memo_read who i d) (memo_read who i e)"
proof -
  let ?f = "\<lambda>a. if i < length (a_memos a) then a\<lparr>a_memos := (a_memos a)[i := (a_memos a ! i)\<lparr>me_read := True\<rparr>]\<rparr> else a"
  have own: "accounts (st d) (key who) = accounts (st e) (key who)" using assms by (simp add: alike_def)
  have "outline who (?f a) = outline who (?f b)" if o: "outline who a = outline who b" for a b
  proof -
    note od = outlineD [OF o]
    have "glimpse who (a_memos a ! i) = glimpse who (a_memos b ! i)" if "i < length (a_memos a)"
      using od that by (metis nth_map)
    then show ?thesis using od by (auto simp: map_update glimpse_read intro: o outline_memos [OF o])
  qed
  then have "alike who (on_account who ?f (logged_ignore (AccountEvent (MemoRead who i)) d))
      (on_account who ?f (logged_ignore (AccountEvent (MemoRead who i)) e))"
    by (rule alike_ignored [OF assms])
  then show ?thesis
    using assms own by (auto simp: same_answer_def memo_read_def memo_at_def split: option.split)
qed

lemma same_del:
  assumes "alike who d e"
  shows "same_answer who (memo_del acct i d) (memo_del acct i e)"
proof -
  let ?f = "\<lambda>a. if i < length (a_memos a) then a\<lparr>a_memos := remove_at i (a_memos a)\<rparr> else a"
  have "outline who (?f a) = outline who (?f b)" if o: "outline who a = outline who b" for a b
    using outlineD [OF o]
    by (auto simp: remove_at_def take_map [symmetric] drop_map [symmetric] intro: o outline_memos [OF o])
  then have "alike who (on_account acct ?f (logged_ignore (AccountEvent (MemoDeleted acct i)) d))
      (on_account acct ?f (logged_ignore (AccountEvent (MemoDeleted acct i)) e))"
    by (rule alike_ignored [OF assms])
  note out = this
  show ?thesis
  proof (cases rule: alike_account [OF assms, of "key acct"])
    case (2 a b)
    have "length (a_memos a) = length (a_memos b)" using outlineD [OF 2(3)] by simp
    with 2(1,2) out assms show ?thesis by (simp add: same_answer_def memo_del_def)
  qed (use assms in \<open>simp add: same_answer_def memo_del_def\<close>)
qed

lemma find_last_map: "find_last (p \<circ> g) xs = find_last p (map g xs)"
  by (induction xs) (auto split: option.split)

lemma find_map_option: "map_option h (find (p \<circ> g) xs) = map_option k (find p (map g xs))"
  if "\<And>x. p (g x) \<Longrightarrow> h x = k (g x)"
  using that by (induction xs) auto

lemma same_cancel:
  assumes "alike who d e"
  shows "same_answer who (memo_cancel acct who d) (memo_cancel acct who e)"
proof -
  have p: "(\<lambda>m. \<not> me_read m \<and> key (me_from m) = key who) = (\<lambda>g. \<exists>t. g = Some (False, t)) \<circ> glimpse who"
    by (auto simp: glimpse_def fun_eq_iff)
  have "find_last (\<lambda>m. \<not> me_read m \<and> key (me_from m) = key who) (a_memos a) =
      find_last (\<lambda>m. \<not> me_read m \<and> key (me_from m) = key who) (a_memos b)" if "outline who a = outline who b" for a b
    using outlineD [OF that] unfolding p find_last_map by simp
  note found = this
  show ?thesis
  proof (cases rule: alike_account [OF assms, of "key acct"])
    case (2 a b)
    with found [OF 2(3)] same_del [OF assms, of acct] assms show ?thesis
      by (simp add: memo_cancel_def same_answer_def split: option.split)
  qed (use assms in \<open>simp add: same_answer_def memo_cancel_def\<close>)
qed

lemma same_check:
  assumes "alike who d e"
  shows "memo_check d acct who = memo_check e acct who"
proof -
  have p: "(\<lambda>m. key (me_from m) = key who) = (\<lambda>g. g \<noteq> None) \<circ> glimpse who" by (auto simp: glimpse_def fun_eq_iff)
  have g: "map_option (\<lambda>m. (me_read m, me_ts m)) (find ((\<lambda>g. g \<noteq> None) \<circ> glimpse who) ms) =
      map_option the (find (\<lambda>g. g \<noteq> None) (map (glimpse who) ms))" for ms
    by (rule find_map_option) (auto simp: glimpse_def split: if_splits)
  have "map (glimpse who) (rev (a_memos a)) = map (glimpse who) (rev (a_memos b))" if "outline who a = outline who b" for a b
    using outlineD [OF that] by (simp add: rev_map [symmetric])
  note seen = this
  show ?thesis
  proof (cases rule: alike_account [OF assms, of "key acct"])
    case (2 a b)
    with seen [OF 2(3)] show ?thesis unfolding memo_check_def p g by simp
  qed (simp add: memo_check_def)
qed

lemma same_looks:
  assumes "alike who d e"
  shows "resolve_account d n = resolve_account e n" "length (memo_list d n) = length (memo_list e n)"
    "memo_limit_of d n = memo_limit_of e n" "memo_is_ignored d n x = memo_is_ignored e n x"
    "memo_ignores d n = memo_ignores e n" "memo_list d who = memo_list e who" "unread_memos d who = unread_memos e who"
    "opers_list now kg d = opers_list now kg e"
    "map a_name (values_of ka (accounts (st d))) = map a_name (values_of ka (accounts (st e)))"
proof -
  have res: "resolved_key d n = resolved_key e n"
    by (cases rule: alike_account [OF assms, of "key n"]) (use assms in \<open>simp_all add: resolved_key_def alike_def Let_def\<close>)
  have name: "map_option a_name (accounts (st d) k) = map_option a_name (accounts (st e) k)" for k
  proof (cases rule: alike_account [OF assms, of k])
    case (2 a b)
    with outlineD [OF 2(3)] show ?thesis by simp
  qed simp
  then show "resolve_account d n = resolve_account e n" by (cases "resolved_key e n") (simp_all add: resolve_account_def res)
  have "length (memo_list d n) = length (memo_list e n) \<and> memo_limit_of d n = memo_limit_of e n \<and>
    memo_is_ignored d n x = memo_is_ignored e n x \<and> memo_ignores d n = memo_ignores e n"
  proof (cases rule: alike_account [OF assms, of "key n"])
    case (2 a b)
    with outlineD [OF 2(3)] show ?thesis
      by (simp add: memo_list_def memo_limit_of_def memo_is_ignored_def memo_ignores_def)
  qed (simp add: memo_list_def memo_limit_of_def memo_is_ignored_def memo_ignores_def)
  then show "length (memo_list d n) = length (memo_list e n)" "memo_limit_of d n = memo_limit_of e n"
    "memo_is_ignored d n x = memo_is_ignored e n x" "memo_ignores d n = memo_ignores e n" by simp_all
  show own: "memo_list d who = memo_list e who" using assms by (simp add: memo_list_def alike_def)
  then show "unread_memos d who = unread_memos e who" by (simp add: unread_memos_def)
  show "opers_list now kg d = opers_list now kg e" using assms by (simp add: opers_list_def alike_def)
  show "map a_name (values_of ka (accounts (st d))) = map a_name (values_of ka (accounts (st e)))"
  proof (induction ka)
    case (Cons k ka)
    from name [of k] Cons.IH show ?case by (cases "accounts (st d) k"; cases "accounts (st e) k") simp_all
  qed simp
qed

lemma same_ignore_list:
  assumes "alike who d e"
  shows "same_answer who (memo_ignore_add who t d) (memo_ignore_add who t e)"
    "same_answer who (memo_ignore_del who t d) (memo_ignore_del who t e)"
    "same_answer who (set_memo_notify who b d) (set_memo_notify who b e)"
    "same_answer who (set_memo_limit who limit d) (set_memo_limit who limit e)"
proof -
  have own: "accounts (st d) (key who) = accounts (st e) (key who)" using assms by (simp add: alike_def)
  have step: "alike who (on_account who f (logged_ignore ev d)) (on_account who f (logged_ignore ev e))"
    if "\<And>a. a_memos (f a) = a_memos a" "\<And>a. (f a)\<lparr>a_memos := []\<rparr> = f (a\<lparr>a_memos := []\<rparr>)" for f ev
  proof (rule alike_ignored [OF assms])
    fix a b assume "outline who a = outline who b"
    then show "outline who (f a) = outline who (f b)" using that by (auto simp: outline_def)
  qed
  show "same_answer who (memo_ignore_add who t d) (memo_ignore_add who t e)"
    "same_answer who (memo_ignore_del who t d) (memo_ignore_del who t e)"
    "same_answer who (set_memo_notify who b d) (set_memo_notify who b e)"
    "same_answer who (set_memo_limit who limit d) (set_memo_limit who limit e)"
    using assms own
    by (auto simp: same_answer_def memo_ignore_add_def memo_ignore_del_def set_memo_notify_def set_memo_limit_def
        intro!: step split: option.split)
qed

lemma same_receipt:
  "alike who d e \<Longrightarrow> alike who (send_receipt now reader m d) (send_receipt now reader m e)"
  using same_send by (auto simp: send_receipt_def same_answer_def)

lemma same_read_each:
  "alike who d e \<Longrightarrow> same_answer who (read_each now who js d) (read_each now who js e)"
proof (induction js arbitrary: d e)
  case (Cons i js)
  have r: "fst (memo_read who i d) = fst (memo_read who i e)" "alike who (snd (memo_read who i d)) (snd (memo_read who i e))"
    using same_read [OF Cons.prems, of i] by (simp_all add: same_answer_def)
  note rest = Cons.IH [OF r(2)] Cons.IH [OF same_receipt [OF r(2)], of now who]
  show ?case
    using r(1) rest by (cases "fst (memo_read who i e)") (simp_all add: case_prod_beta Let_def same_answer_def)
qed (simp add: same_answer_def)

lemma same_send_each:
  "alike who d e \<Longrightarrow> same_answer who (send_each now who body ns d) (send_each now who body ns e)"
proof (induction ns arbitrary: d e)
  case (Cons n ns)
  have r: "fst (memo_send now n who body False d) = fst (memo_send now n who body False e)"
    "alike who (snd (memo_send now n who body False d)) (snd (memo_send now n who body False e))"
    using same_send [OF Cons.prems] by (simp_all add: same_answer_def)
  from Cons.IH [OF r(2)] r(1) show ?case by (simp add: case_prod_beta Let_def same_answer_def split: sum.split)
qed (simp add: same_answer_def)

lemma same_del_each:
  "alike who d e \<Longrightarrow> alike who (fold (\<lambda>i d. snd (memo_del acct i d)) js d) (fold (\<lambda>i d. snd (memo_del acct i d)) js e)"
  using same_del by (induction js arbitrary: d e) (simp_all add: same_answer_def)

lemma staff_of_same: "alike who d e \<Longrightarrow> staff_of d seen ns = staff_of e seen ns"
proof (induction ns arbitrary: seen)
  case (Cons n ns)
  then show ?case using same_looks(1) [OF Cons.prems, of n] by (simp split: option.split)
qed simp

text \<open>A result of an operation, turned into an answer.\<close>

lemma same_then:
  "same_answer who x y \<Longrightarrow> same_answer who (f (fst x), snd x) (f (fst y), snd y)"
  by (simp add: same_answer_def)

lemma same_pair: "alike who d e \<Longrightarrow> x = y \<Longrightarrow> same_answer who (x, d) (y, e)"
  by (simp add: same_answer_def)

lemma same_commands:
  assumes "alike who d e"
  shows "same_answer who (memoserv_send now receipt who args d) (memoserv_send now receipt who args e)"
    "same_answer who (memoserv_list who d) (memoserv_list who e)"
    "same_answer who (memoserv_info who d) (memoserv_info who e)"
    "same_answer who (memoserv_check who args d) (memoserv_check who args e)"
    "same_answer who (memoserv_read now who args d) (memoserv_read now who args e)"
    "same_answer who (memoserv_del who args d) (memoserv_del who args e)"
    "same_answer who (memoserv_cancel who args d) (memoserv_cancel who args e)"
    "same_answer who (memoserv_sendall now ka ps who args d) (memoserv_sendall now ka ps who args e)"
    "same_answer who (memoserv_staff now ko kg w ps who args d) (memoserv_staff now ko kg w ps who args e)"
    "same_answer who (memoserv_ignore who args d) (memoserv_ignore who args e)"
    "same_answer who (memoserv_set who args d) (memoserv_set who args e)"
proof -
  note looks = same_looks [OF assms]
  have named: "named_account d n = named_account e n" for n by (simp add: named_account_def looks(1))
  show "same_answer who (memoserv_send now receipt who args d) (memoserv_send now receipt who args e)"
    using assms same_send [OF assms]
    by (simp add: memoserv_send_def Let_def looks(1-4) case_prod_beta same_answer_def split: option.split sum.split)
  show "same_answer who (memoserv_list who d) (memoserv_list who e)"
    "same_answer who (memoserv_info who d) (memoserv_info who e)"
    using assms by (simp_all add: memoserv_list_def memoserv_info_def Let_def looks(6,7) same_answer_def)
  show "same_answer who (memoserv_check who args d) (memoserv_check who args e)"
    using assms by (simp add: memoserv_check_def looks(1) same_check [OF assms] same_answer_def split: option.split)
  show "same_answer who (memoserv_read now who args d) (memoserv_read now who args e)"
  proof -
    have one: "same_answer who (case memo_read who i d of (Some m, d1) \<Rightarrow> (out m, send_receipt now who m d1) | (None, d1) \<Rightarrow> (no, d1))
        (case memo_read who i e of (Some m, d1) \<Rightarrow> (out m, send_receipt now who m d1) | (None, d1) \<Rightarrow> (no, d1))"
      for i out and no :: "message list"
      using same_read [OF assms, of i] same_receipt
      by (cases "memo_read who i d"; cases "memo_read who i e") (auto simp: same_answer_def split: option.split)
    have same: "same_answer who (x, d) (x, e)" for x :: "message list" using assms by (rule same_pair) simp
    show ?thesis
      unfolding memoserv_read_def looks(6) using one same same_read_each [OF assms]
      by (cases "word args 1"; cases "ordinal (the (word args 1))") (simp_all add: Let_def)
  qed
  show "same_answer who (memoserv_del who args d) (memoserv_del who args e)"
    using assms same_del_each [OF assms, of who] same_del [OF assms, of who]
    by (simp add: memoserv_del_def looks(6) Let_def case_prod_beta same_answer_def split: option.split)
  show "same_answer who (memoserv_cancel who args d) (memoserv_cancel who args e)"
    using assms same_cancel [OF assms]
    by (simp add: memoserv_cancel_def looks(1) case_prod_beta same_answer_def split: option.split)
  show "same_answer who (memoserv_sendall now ka ps who args d) (memoserv_sendall now ka ps who args e)"
    "same_answer who (memoserv_staff now ko kg w ps who args d) (memoserv_staff now ko kg w ps who args e)"
    using assms same_send_each [OF assms]
    by (simp_all add: memoserv_sendall_def memoserv_staff_def looks(8,9) staff_of_same [OF assms] case_prod_beta Let_def same_answer_def
        del: values_of_simps)
  show "same_answer who (memoserv_ignore who args d) (memoserv_ignore who args e)"
    using assms same_ignore_list(1,2) [OF assms]
    by (simp add: memoserv_ignore_def looks(5) named case_prod_beta Let_def same_answer_def split: option.split)
  show "same_answer who (memoserv_set who args d) (memoserv_set who args e)"
    using assms same_ignore_list(3,4) [OF assms]
    by (simp add: memoserv_set_def same_answer_def split: option.split)
qed

text \<open>C10. MemoServ shows nobody a memo of somebody else: on two stores that differ only in what others hold in
  their mailboxes - who wrote it, what it says, when it was sent and whether it was read, all but the
  number of memos and whether and when one's own were read - a client gets the same answers to every
  command, and still cannot tell the stores apart afterwards.\<close>

theorem memoserv_keeps_secrets:
  assumes "alike who d e" "sd_account sd = Some who"
  shows "fst (memoserv v me sd msgid args w d) = fst (memoserv v me sd msgid args w e) \<and>
    alike who (snd (memoserv v me sd msgid args w d)) (snd (memoserv v me sd msgid args w e))"
proof -
  have "same_answer who (memoserv_command v cmd ps who args w d) (memoserv_command v cmd ps who args w e)" for cmd ps
    unfolding memoserv_command_def by (simp add: same_commands [OF assms(1)] same_pair [OF assms(1)])
  then show ?thesis
    using assms by (simp add: memoserv_def case_prod_beta Let_def same_answer_def split: option.split)
qed

subsection \<open>At work\<close>

definition bobs_memo :: "string \<Rightarrow> memo" where
  "bobs_memo body = \<lparr>me_from = ''carol'', me_text = body, me_ts = 5, me_read = False, me_receipt = False\<rparr>"

definition mailed :: "string \<Rightarrow> db" where
  "mailed body = (db_open [] ''n1'')\<lparr>st := store_empty\<lparr>accounts := [''bob'' \<mapsto> example_account\<lparr>a_memos := [bobs_memo body]\<rparr>]\<rparr>\<rparr>"

definition desk :: memo_desk where
  "desk = \<lparr>mk_now = 7, mk_accounts = [''bob''], mk_opers = [], mk_grants = []\<rparr>"

definition asker :: sender where
  "asker = \<lparr>sd_uid = ''0IRAAAAAB'', sd_nick = ''al'', sd_account = Some ''al'', sd_privs = 0\<rparr>"

theorem memoserv_keeps_secrets_witness:
  "fst (memoserv desk ''42SAAAAAM'' asker None [''CHECK'', ''bob''] network_empty (mailed ''see you at nine'')) =
   fst (memoserv desk ''42SAAAAAM'' asker None [''CHECK'', ''bob''] network_empty (mailed ''never mind''))"
proof -
  have "alike ''al'' (mailed ''see you at nine'') (mailed ''never mind'')"
    by (simp add: alike_def mailed_def bobs_memo_def outline_def glimpse_def key_def ascii_simps)
  from memoserv_keeps_secrets [OF this, of asker] show ?thesis by (simp add: asker_def)
qed


end
