(* ===== verification/Spec2Isabelle.thy ===== *)
theory Spec2Isabelle
  imports AccountProps ChannelProps NetworkProps Glob Conflict Replication Compaction Run
    LiveProps SaslProps KickerProps SessionProps ScreenProps Address
    EngineProps RegisterProps FeedProps UplinkProps GossipProps MemoServProps
begin

text \<open>
  A verification of \<^bold>\<open>echo\<close>, an IRC services daemon in Rust: its event-sourced store
  (src/src/engine/db/), the access and ban vocabulary of api/src/lib.rs, the picture it keeps of the
  network (src/src/engine/state.rs), its authentication (src/src/engine/sasl.rs, scram.rs, ecdsa.rs), and the
  engine around them (src/src/engine/mod.rs, dispatch.rs, register.rs, kicker.rs, security/): the event
  handler, command dispatch, registration, timers and configuration; and the link: the InspIRCd protocol
  (src/modules/protocol/inspircd/src/lib.rs) and the loop over the uplink (src/src/link.rs).

  \<^bold>\<open>The program.\<close> All durable state - accounts, channels, grouped nicks, bots, HostServ
  configuration and the network-wide lists - is a fold over an append-only log of events. An
  operation checks its guards against the live store, appends an event, and then changes the live
  store by hand. Events of global scope are numbered per origin node and gossiped; a peer takes
  them strictly in order through one seam (\<^verbatim>\<open>EventLog::ingest\<close>), folds them with the same function
  the replay uses, and may be asked for a side effect. From time to time the log is rewritten as a
  snapshot of the live store under a new epoch. Beside the store the engine keeps what the uplink
  tells it of users, channels and servers, and short-lived tables (SASL exchanges, chatter counters,
  sliding windows); an event of the uplink yields a list of actions to send back.

  \<^bold>\<open>The theories.\<close>
  \<^item> Prelude: ASCII case folding (\<^verbatim>\<open>key\<close>), saturating counters, in-place map and list updates, the
    locale \<open>upsert_list\<close> of lists keyed by a folded name.
  \<^item> Types: the records of src/src/engine/db/mod.rs with their defaults, and \<open>store\<close>, the six
    fields of \<^verbatim>\<open>Db\<close> that the fold rebuilds.
  \<^item> Events: the event alphabet and its scope, and the keyed-list helpers the fold arms share.
  \<^item> Fold: \<^verbatim>\<open>apply\<close>, \<^verbatim>\<open>owns_over\<close>, \<^verbatim>\<open>purge_account_refs\<close> of src/src/engine/db/event.rs.
  \<^item> Conflict: rival registrations of one name; locale \<open>claims\<close>, interpreted for accounts and groups.
  \<^item> Log: \<^verbatim>\<open>EventLog\<close> - append, ingest, missing_for, compact, open - over an explicit disk; locale
    \<open>journal\<close>, the contract the store relies on.
  \<^item> Replication: well-formed logs, the log as a state machine (\<open>log_run\<close>), one gossip round.
  \<^item> Wellformed: the store invariant (keys, distinctness, counters ahead of ids), kept by every event.
  \<^item> Glob: the hostmask matcher. Access: privileges, flags, capabilities, roles, kind tokens.
  \<^item> Db: the \<^verbatim>\<open>Db\<close> record with its volatile tables, opening, name resolution, gossip ingest, and
    the locales \<open>db_invariant\<close> and \<open>online_invariant\<close> every operation is proved against.
  \<^item> AccountOps, ChannelOps, MemoOps, NetworkOps: the operations of account.rs, channel.rs and
    network.rs, each with its guards in the code's order.
  \<^item> Run: the two locales interpreted by "the live store is the replay of the log, and both are
    well formed", and \<open>db_run\<close>, the database as a state machine.
  \<^item> Compaction: \<^verbatim>\<open>Db::compact\<close>, and exactly what a replay of the snapshot restores.
  \<^item> Example: a reachable database at which the theorems with hypotheses are applied.
  \<^item> AccountProps, ChannelProps, NetworkProps: what the operations guarantee.
  \<^item> Strings: the string functions of the standard library the sources use (splitting, prefixes,
    numbers). ExtBan: extended bans, auto-kick masks, spam-filter encoding, durations, name checks.
  \<^item> NetState, NetProps, NetRun: the \<^verbatim>\<open>Network\<close> of state.rs, its invariant, and the network as a
    state machine (\<open>net_step\<close>). Policy: mode locks, kicker thresholds and channel roles.
    Counter: the sliding windows of the abuse detectors. LiveProps: what these guarantee.
  \<^item> Actions: what the uplink reports and what the engine answers. Scram: the SCRAM verifiers and
    messages. Engine: the \<^verbatim>\<open>Engine\<close> record and the helpers of engine/mod.rs. Sasl: every step of a
    SASL exchange, and ECDSA. SaslProps: exchanges as a state machine (\<open>sasl_run\<close>).
  \<^item> Kicker: what a bot does about a line said in its channel (kicker.rs), triggers and votes;
    KickerProps: runs of lines and of votes. Bots: the bots of the registry on the network.
    Sessions: logging out, accounts that are gone, effects of gossip, nick protection, expiry, and
    what the event handler does last. Address: network addresses and the networks they are in.
    SessionProps: who is logged out, renamed or expired, and incident numbers.
  \<^item> Security: settings and state of the abuse detectors. Screen: the detectors. ScreenProps: whom
    they strike, and evasion of a ban.
  \<^item> Register: the account authority and the registration flow (register.rs); RegisterProps: existing
    accounts are spared, and the mailed code. StaffFeed: the audit feed; FeedProps: what it keeps
    secret. Dates: the printed date and the calendar. Limiter: the token buckets and their rates.
  \<^item> Dispatch: a line to a channel or a service (dispatch.rs). Handle: what comes up with the link,
    and the event handler, arm by arm. Config: settings, validation, REHASH. Timers: gauges,
    snapshots and the periodic work.
  \<^item> Contract: locale \<open>engine_contract\<close>, what the engine relies on in its store, its network picture
    and its SASL table, each named by the operations it calls. EngineOps: every handler keeps the
    contract. EngineRun: everything that can be asked of the engine (\<open>duty\<close>, \<open>perform\<close>), the engine as
    a state machine (\<open>engine_run\<close>), and the contract interpreted by the invariants of Run, NetRun and
    SaslProps. EngineProps: what therefore holds of every reachable engine.
  \<^item> Wire: the struct \<^verbatim>\<open>InspIrcd\<close>, \<^verbatim>\<open>parse\<close> arm by arm, \<^verbatim>\<open>serialize\<close> action by action, the mode scanners,
    message tags and the splitting of long bodies. WireProps: what is written is read back as meant,
    our own changes are ignored, the scanners agree, long messages are kept whole.
  \<^item> Uplink: frames, what is logged, and \<^verbatim>\<open>run\<close> as a step relation (\<open>uplink_run\<close>). The engine is locked
    for one operation at a time, so each such operation is a step, and between any two of them the
    timers, peers and front ends may step (\<open>Elsewhere\<close>). UplinkProps: the invariant of the loop, which rests
    on the contract of EngineRun, frames, and the redaction of passwords.
  \<^item> Gossip: a link to another node (src/src/gossip.rs) - the handshake, digests and entries - and all links of
    a network on a wire an adversary owns (\<open>gossip_run\<close>). GossipProps: nothing of the log passes an unproved
    link, and honest peers catch up, which rests on the delivery lemmas of Replication.
  \<^item> Serve: what service modules share. MemoServ: the service in src/modules/memoserv/, command by command.
    MemoServProps: it meets the trust \<open>services_step\<close> puts in a service, as long as the mailboxes it writes
    to unasked have room, and shows nobody the memos of others.

  \<^bold>\<open>How state corresponds.\<close> Hash maps are partial maps from folded names; where the code walks a
  map, the order is an argument (\<open>ks\<close>, or the record \<open>walks\<close>) that names every key once. Wall and
  monotonic clocks are arguments (\<open>now\<close> in seconds, \<open>i\<close> in nanoseconds). A fallible operation
  returns \<open>Inl error\<close> or \<open>Inr result\<close> with the new state; \<^verbatim>\<open>let _ = append(...)\<close> is
  \<open>logged_ignore\<close>. Counters are naturals with the saturation or wrap-around of their machine width
  written out; privilege and flag sets are machine words. Strings are lists of 8-bit characters,
  so the case mapping of the hostmask matcher is that of ASCII.

  \<^bold>\<open>The disk.\<close> \<open>l_disk\<close> holds the entries on the file's lines; \<open>l_io\<close> is the sequence of outcomes of
  the coming writes: written, refused with nothing written, or written with the final flush
  failing. Runs exclude the last outcome, because it breaks the invariant; a theorem of
  NetworkProps shows how.

  \<^bold>\<open>What the lemmas show.\<close> The \<open>kept_\<close> lemmas prove each operation once against the contract
  locale: its hand-written change of the live store is the fold of the event it logged. The
  interpretation in Run turns them into theorems about every reachable state: a restart loses
  nothing, rival registrations converge, a gossip round closes the gap, compaction preserves all
  but the listed parts. Four operations stand outside: \<open>bot_del_all\<close> and \<open>notify_clear\<close> return early
  when a later append fails, \<open>memo_send\<close> only keeps the contract below the mailbox cap and \<open>bot_del\<close>
  when the bot is not the default one; queue filings keep it below the queue bound. The theorems
  about redelivery, reused identifiers, over-full mailboxes, the default bot, read-only grants
  and unflushed writes show the behaviour outside the contract.

  \<^bold>\<open>Bounds.\<close> The hostmask scan is a partial function shown to return on every input; every other
  loop is structural recursion or shrinks a list (\<open>split_long\<close>, \<open>frames\<close>). No fuel is used.

  \<^bold>\<open>The engine.\<close> A handler takes the environment of its call (\<open>env\<close>: clocks, random bytes, the
  cryptographic primitives, the order in which maps are walked) and the engine, and returns its
  actions in order with the new engine. Cryptography is a parameter: \<open>crypto_ok\<close> states that base64
  decodes what it encodes and yields no comma, which is all the proofs use. Text for people is
  \<open>Msg name arguments\<close>, the message and what is interpolated into it, untranslated. The command
  handlers of the service modules are the argument \<open>modules\<close> of the dispatcher; \<open>services_step\<close> is what
  they are trusted with: they change the store only through its operations and leave the engine's
  other tables alone. The answers of the rate limiters are arguments of the handlers; theory Limiter
  models the limiters themselves, with exact rationals where the code has floating point. Runs of
  the engine leave compaction out, because it changes what a replay gives (theory Compaction).

  \<^bold>\<open>Not modelled.\<close> JSON and file access, TOML, Ed25519, digests, elliptic curves, resolvers and regular
  expressions are parameters or outside; sockets, TLS, the mail command, the dictionary clients (any answer
  may come, at any time), the command handlers of the other service modules, the transports of gRPC and JSON-RPC, the web panel, which only render
  what the engine answers, and texts for people are not part of this development.
\<close>

end
